(* ===== verification/Go_Prelude.thy ===== *)
theory Go_Prelude
  imports Main "HOL-Library.AList" "HOL-Library.Char_ord" "HOL-Library.List_Lexorder"
    "HOL-Library.Sublist" "HOL-Library.Multiset"
begin

text \<open>
  Shared vocabulary of the development: Go maps as association lists, Go errors as
  the left side of a sum, guard chains (a run of \<open>if cond { return err }\<close>
  statements), the generic transition system with its invariant rule, and the
  facts about sorted key lists that every iteration in stable order rests on.
  A Go \<open>string\<close> is a byte sequence and is modelled by HOL's \<open>string\<close>
  (a list of 8-bit characters); the order of strings is the bytewise lexicographic
  one that \<open>sort.Strings\<close> uses.
\<close>

named_theorems guard_simps \<open>unfolding rules for guard chains and results\<close>
named_theorems gomap_simps \<open>facts about Go maps\<close>

section \<open>Results and guard chains\<close>

type_synonym ('e, 'a) result = "'e + 'a"

fun first_err :: "(bool \<times> 'e) list \<Rightarrow> 'e option" where
  "first_err [] = None"
| "first_err ((fails, e) # rest) = (if fails then Some e else first_err rest)"

lemma first_err_None_iff [guard_simps]:
  "first_err cs = None \<longleftrightarrow> (\<forall>c\<in>set cs. \<not> fst c)"
  by (induction cs rule: first_err.induct) auto

lemma if_Some_eq_None [guard_simps]:
  "(if b then Some e else x) = None \<longleftrightarrow> \<not> b \<and> x = None"
  by simp

lemma first_err_Some: "first_err cs = Some e \<Longrightarrow> \<exists>c\<in>set cs. fst c \<and> snd c = e"
  by (induction cs rule: first_err.induct) (auto split: if_splits)

definition rbind :: "('e, 'a) result \<Rightarrow> ('a \<Rightarrow> ('e, 'b) result) \<Rightarrow> ('e, 'b) result" where
  "rbind r f = (case r of Inl e \<Rightarrow> Inl e | Inr x \<Rightarrow> f x)"

lemma rbind_simps [simp]: "rbind (Inl e) f = Inl e" "rbind (Inr x) f = f x"
  by (simp_all add: rbind_def)

lemma rbind_Inr_iff [guard_simps]:
  "rbind r f = Inr y \<longleftrightarrow> (\<exists>x. r = Inr x \<and> f x = Inr y)"
  by (cases r) auto

lemma rbind_Inl_iff:
  "rbind r f = Inl e \<longleftrightarrow> r = Inl e \<or> (\<exists>x. r = Inr x \<and> f x = Inl e)"
  by (cases r) auto

lemma rbind_cong [fundef_cong]:
  "r = r' \<Longrightarrow> (\<And>x. r' = Inr x \<Longrightarrow> f x = g x) \<Longrightarrow> rbind r f = rbind r' g"
  by (cases r') auto

definition of_err :: "'e option \<Rightarrow> 'a \<Rightarrow> ('e, 'a) result" where
  "of_err e x = (case e of None \<Rightarrow> Inr x | Some er \<Rightarrow> Inl er)"

lemma of_err_Inr_iff [guard_simps]: "of_err e x = Inr y \<longleftrightarrow> e = None \<and> x = y"
  by (cases e) (auto simp: of_err_def)

lemma of_err_Inl_iff [guard_simps]: "of_err e x = Inl y \<longleftrightarrow> e = Some y"
  by (cases e) (auto simp: of_err_def)

text \<open>A loop that rewrites every element and stops at the first error.\<close>

fun mapM :: "('a \<Rightarrow> ('e, 'b) result) \<Rightarrow> 'a list \<Rightarrow> ('e, 'b list) result" where
  "mapM f [] = Inr []"
| "mapM f (x # xs) = (case f x of Inl e \<Rightarrow> Inl e
     | Inr y \<Rightarrow> (case mapM f xs of Inl e \<Rightarrow> Inl e | Inr ys \<Rightarrow> Inr (y # ys)))"

lemma mapM_Inr_iff: "mapM f xs = Inr ys \<longleftrightarrow> list_all2 (\<lambda>x y. f x = Inr y) xs ys"
proof (induction xs arbitrary: ys)
  case Nil
  then show ?case by auto
next
  case (Cons x xs)
  show ?case
    by (cases ys) (auto simp: Cons.IH [symmetric] split: sum.splits)
qed

lemma mapM_length: "mapM f xs = Inr ys \<Longrightarrow> length ys = length xs"
  by (auto simp: mapM_Inr_iff dest: list_all2_lengthD)

lemma mapM_elem:
  assumes "mapM f xs = Inr ys" and "y \<in> set ys"
  obtains x where "x \<in> set xs" and "f x = Inr y"
proof -
  from assms obtain i where "i < length xs" "f (xs ! i) = Inr y"
    by (auto simp: mapM_Inr_iff list_all2_conv_all_nth in_set_conv_nth)
  then show ?thesis using that nth_mem by blast
qed

lemma mapM_cong [fundef_cong]:
  "xs = ys \<Longrightarrow> (\<And>x. x \<in> set ys \<Longrightarrow> f x = g x) \<Longrightarrow> mapM f xs = mapM g ys"
  by (induction ys arbitrary: xs) (auto split: sum.splits)

text \<open>The index of each element, as \<open>for i, x := range xs\<close> gives it.\<close>

abbreviation indexed :: "'a list \<Rightarrow> (nat \<times> 'a) list" where
  "indexed xs \<equiv> zip [0..<length xs] xs"

section \<open>Go maps\<close>

text \<open>
  A Go map is an association list with distinct keys; its order stands for the
  unspecified iteration order, so a fact that holds for every such list holds for
  every iteration order.
\<close>

type_synonym 'v gomap = "(string \<times> 'v) list"

abbreviation go_keys :: "('k \<times> 'v) list \<Rightarrow> 'k list" where
  "go_keys m \<equiv> map fst m"

definition go_map_ok :: "('k \<times> 'v) list \<Rightarrow> bool" where
  "go_map_ok m \<longleftrightarrow> distinct (go_keys m)"

definition has_key :: "('k \<times> 'v) list \<Rightarrow> 'k \<Rightarrow> bool" where
  "has_key m k \<longleftrightarrow> map_of m k \<noteq> None"

lemma has_key_iff [gomap_simps]: "has_key m k \<longleftrightarrow> k \<in> fst ` set m"
  by (auto simp: has_key_def map_of_eq_None_iff)

lemma go_map_ok_update [simp, gomap_simps]:
  "go_map_ok m \<Longrightarrow> go_map_ok (AList.update k v m)"
  by (simp add: go_map_ok_def distinct_update)

lemma go_map_ok_delete [simp, gomap_simps]:
  "go_map_ok m \<Longrightarrow> go_map_ok (AList.delete k m)"
  by (simp add: go_map_ok_def distinct_delete)

lemma map_of_update [simp, gomap_simps]:
  "map_of (AList.update k v m) = (map_of m)(k \<mapsto> v)"
  by (simp add: update_conv')

lemma map_of_delete [simp, gomap_simps]:
  "map_of (AList.delete k m) = (map_of m)(k := None)"
  by (simp add: delete_conv')

lemma map_of_perm:
  assumes "go_map_ok m" and "mset m = mset m'"
  shows "map_of m = map_of m'"
proof -
  have "set m = set m'" using assms(2) by (metis set_mset_mset)
  moreover have "distinct (map fst m')"
    using assms unfolding go_map_ok_def by (metis mset_map mset_eq_imp_distinct_iff)
  ultimately show ?thesis
    using assms(1) unfolding go_map_ok_def by (simp add: map_of_inject_set)
qed

text \<open>The keys in the order \<open>sort.Strings\<close> gives: the loop every stable iteration uses.\<close>

definition sorted_keys :: "(('k::linorder) \<times> 'v) list \<Rightarrow> 'k list" where
  "sorted_keys m = sort (go_keys m)"

lemma sorted_sorted_keys [simp]: "sorted (sorted_keys m)"
  by (simp add: sorted_keys_def)

lemma set_sorted_keys [simp]: "set (sorted_keys m) = fst ` set m"
  by (simp add: sorted_keys_def)

lemma distinct_sorted_keys [simp]: "go_map_ok m \<Longrightarrow> distinct (sorted_keys m)"
  by (simp add: sorted_keys_def go_map_ok_def)

text \<open>Sorting the keys removes every trace of the iteration order.\<close>

lemma sorted_keys_perm: "mset m = mset m' \<Longrightarrow> sorted_keys m = sorted_keys m'"
  unfolding sorted_keys_def
  by (metis mset_map properties_for_sort sorted_sort mset_sort)

section \<open>Lists without repetition\<close>

text \<open>The \<open>seen := map[string]bool{}\<close> loop: keep the first occurrence of every element.\<close>

fun dedup :: "'a list \<Rightarrow> 'a list \<Rightarrow> 'a list" where
  "dedup seen [] = []"
| "dedup seen (x # xs) = (if x \<in> set seen then dedup seen xs else x # dedup (x # seen) xs)"

lemma set_dedup [simp]: "set (dedup seen xs) = set xs - set seen"
  by (induction seen xs rule: dedup.induct) auto

lemma distinct_dedup [simp]: "distinct (dedup seen xs)"
  by (induction seen xs rule: dedup.induct) auto

lemma dedup_id: "distinct xs \<Longrightarrow> set xs \<inter> set seen = {} \<Longrightarrow> dedup seen xs = xs"
  by (induction seen xs rule: dedup.induct) auto

lemma subseq_dedup: "subseq (dedup seen xs) xs"
  by (induction seen xs rule: dedup.induct) auto

text \<open>The first repeated element, as the validators look for it.\<close>

fun first_dup :: "'a list \<Rightarrow> 'a list \<Rightarrow> 'a option" where
  "first_dup seen [] = None"
| "first_dup seen (x # xs) = (if x \<in> set seen then Some x else first_dup (x # seen) xs)"

lemma first_dup_None_iff:
  "first_dup seen xs = None \<longleftrightarrow> distinct xs \<and> set xs \<inter> set seen = {}"
  by (induction seen xs rule: first_dup.induct) auto

section \<open>Transition systems\<close>

text \<open>
  The interface every concurrent component states its invariant through: a start
  state, a step relation, and a predicate the start state has and every step keeps.
\<close>

inductive run_of :: "('s \<Rightarrow> 's \<Rightarrow> bool) \<Rightarrow> 's \<Rightarrow> 's \<Rightarrow> bool" for step s0 where
  run_start: "run_of step s0 s0"
| run_step: "run_of step s0 s \<Longrightarrow> step s t \<Longrightarrow> run_of step s0 t"

inductive_cases run_ofE: "run_of step s0 t"

lemma run_of_trans: "run_of step a b \<Longrightarrow> run_of step b c \<Longrightarrow> run_of step a c"
proof -
  assume ab: "run_of step a b"
  assume "run_of step b c"
  then show ?thesis
    by (induction rule: run_of.induct) (auto intro: ab run_step)
qed

locale safe_system =
  fixes step :: "'s \<Rightarrow> 's \<Rightarrow> bool"
    and start :: 's
    and invariant :: "'s \<Rightarrow> bool"
  assumes start_inv: "invariant start"
    and step_inv: "invariant s \<Longrightarrow> step s t \<Longrightarrow> invariant t"
begin

lemma reachable_inv: "run_of step start s \<Longrightarrow> invariant s"
  by (induction rule: run_of.induct) (auto intro: start_inv step_inv)

lemma inv_along: "invariant s \<Longrightarrow> run_of step s t \<Longrightarrow> invariant t"
  by (rotate_tac 1, induction rule: run_of.induct) (auto intro: step_inv)

end

section \<open>Normalisers\<close>

text \<open>
  A normaliser is a function that does not change its own output. Config loading
  rests on them: what it accepts is already in the form it would produce.
\<close>

locale normaliser =
  fixes norm :: "'a \<Rightarrow> 'a"
  assumes norm_norm [simp]: "norm (norm x) = norm x"
begin

lemma norm_fix_iff: "norm x = x \<longleftrightarrow> (\<exists>y. x = norm y)"
  by (metis norm_norm)

lemma map_norm: "map norm (map norm xs) = map norm xs"
  by simp

lemma map_filter_norm:
  "map norm (filter keep (map norm xs)) = filter keep (map norm xs)"
  by (induction xs) auto

end

end
