(* ===== verification/Broadcaster.thy ===== *)
theory Broadcaster
  imports Go_Prelude
begin

text \<open>
  \<open>internal/daemon/broadcaster.go\<close>: the event history of one run and the subscribers
  that replay it. The lock of the code is the granularity of the steps: a subscriber
  takes the next event under the lock, releases it, sends, and takes the lock again;
  emits, the finish and a cancellation can happen between any two of its steps.
\<close>

record progress_event =
  pe_type :: string
  pe_target :: string
  pe_status :: string
  pe_detail :: string

record broadcaster =
  bc_events :: "progress_event list"
  bc_done :: bool

definition new_broadcaster :: broadcaster where
  "new_broadcaster = \<lparr>bc_events = [], bc_done = False\<rparr>"

definition bc_emit :: "progress_event \<Rightarrow> broadcaster \<Rightarrow> broadcaster" where
  "bc_emit e b = b\<lparr>bc_events := bc_events b @ [e]\<rparr>"

definition bc_finish :: "broadcaster \<Rightarrow> broadcaster" where
  "bc_finish b = b\<lparr>bc_done := True\<rparr>"

text \<open>
  One call of \<open>stream\<close>: where its loop stands, the index of the next event, and what
  its \<open>send\<close> callback has accepted. \<open>Returned None\<close> is a nil error.
\<close>

datatype stream_pc = Looping | Sending progress_event | Returned "string option"

record subscriber =
  sub_pc :: stream_pc
  sub_index :: nat
  sub_got :: "progress_event list"

definition new_subscriber :: subscriber where
  "new_subscriber = \<lparr>sub_pc = Looping, sub_index = 0, sub_got = []\<rparr>"

text \<open>
  The loop body of \<open>stream\<close>. With the lock held (\<open>Looping\<close>): take the next event if
  there is one, else return when the run is done, else return when the context is
  cancelled, else wait (\<open>None\<close>: the step is not enabled). Without it (\<open>Sending\<close>):
  a cancelled context ends the call with no error, a failed send ends it with the
  error, a good one goes back to the loop. \<open>sendErr\<close> is what the callback returns.
\<close>

fun stream_step ::
  "broadcaster \<Rightarrow> bool \<Rightarrow> string option \<Rightarrow> subscriber \<Rightarrow> subscriber option" where
  "stream_step b cancelled sendErr s =
     (case sub_pc s of
        Looping \<Rightarrow>
          (if sub_index s < length (bc_events b)
           then Some (s\<lparr>sub_pc := Sending (bc_events b ! sub_index s),
                        sub_index := Suc (sub_index s)\<rparr>)
           else if bc_done b then Some (s\<lparr>sub_pc := Returned None\<rparr>)
           else if cancelled then Some (s\<lparr>sub_pc := Returned None\<rparr>)
           else None)
      | Sending e \<Rightarrow>
          (if cancelled then Some (s\<lparr>sub_pc := Returned None\<rparr>)
           else (case sendErr of
                   Some err \<Rightarrow> Some (s\<lparr>sub_pc := Returned (Some err)\<rparr>)
                 | None \<Rightarrow> Some (s\<lparr>sub_pc := Looping, sub_got := sub_got s @ [e]\<rparr>)))
      | Returned r \<Rightarrow> None)"

declare stream_step.simps [simp del]

record stream_sys =
  sy_bc :: broadcaster
  sy_cancelled :: bool
  sy_sub :: subscriber

definition init_stream :: stream_sys where
  "init_stream = \<lparr>sy_bc = new_broadcaster, sy_cancelled = False, sy_sub = new_subscriber\<rparr>"

inductive stream_trans :: "stream_sys \<Rightarrow> stream_sys \<Rightarrow> bool" where
  st_emit: "stream_trans y (y\<lparr>sy_bc := bc_emit e (sy_bc y)\<rparr>)"
| st_finish: "stream_trans y (y\<lparr>sy_bc := bc_finish (sy_bc y)\<rparr>)"
| st_cancel: "stream_trans y (y\<lparr>sy_cancelled := True\<rparr>)"
| st_sub: "stream_step (sy_bc y) (sy_cancelled y) sendErr (sy_sub y) = Some s \<Longrightarrow>
     stream_trans y (y\<lparr>sy_sub := s\<rparr>)"

inductive_cases stream_transE: "stream_trans y z"

text \<open>
  What a subscriber has received is a prefix of the history; between the take and the
  send exactly the taken event is missing.
\<close>

definition stream_inv :: "stream_sys \<Rightarrow> bool" where
  "stream_inv y \<longleftrightarrow>
     (let ev = bc_events (sy_bc y); s = sy_sub y
      in sub_index s \<le> length ev \<and>
         (case sub_pc s of
            Looping \<Rightarrow> sub_got s = take (sub_index s) ev
          | Sending e \<Rightarrow> 0 < sub_index s \<and> sub_got s = take (sub_index s - 1) ev \<and>
                         e = ev ! (sub_index s - 1)
          | Returned r \<Rightarrow> prefix (sub_got s) ev))"

lemma stream_inv_init: "stream_inv init_stream"
  by (simp add: stream_inv_def init_stream_def new_broadcaster_def new_subscriber_def)

lemma stream_inv_emit:
  assumes "stream_inv y"
  shows "stream_inv (y\<lparr>sy_bc := bc_emit e (sy_bc y)\<rparr>)"
proof -
  have "sub_index (sy_sub y) \<le> length (bc_events (sy_bc y))"
    using assms by (simp add: stream_inv_def Let_def)
  then show ?thesis
    using assms
    by (auto simp: stream_inv_def Let_def bc_emit_def nth_append
        split: stream_pc.splits intro: prefix_order.trans)
qed

lemma stream_step_inv:
  assumes inv: "stream_inv y"
    and st: "stream_step (sy_bc y) (sy_cancelled y) sendErr (sy_sub y) = Some s"
  shows "stream_inv (y\<lparr>sy_sub := s\<rparr>)"
proof (cases "sub_pc (sy_sub y)")
  case Looping
  with inv st show ?thesis
    by (auto simp: stream_inv_def Let_def stream_step.simps take_is_prefix split: if_splits)
next
  case (Sending e)
  let ?i = "sub_index (sy_sub y)" and ?ev = "bc_events (sy_bc y)"
  have i: "0 < ?i" "?i \<le> length ?ev" "sub_got (sy_sub y) = take (?i - 1) ?ev" "e = ?ev ! (?i - 1)"
    using inv Sending by (simp_all add: stream_inv_def Let_def)
  then have "take (?i - 1) ?ev @ [e] = take ?i ?ev"
    by (metis One_nat_def Suc_diff_1 Suc_le_lessD take_Suc_conv_app_nth)
  with i Sending st show ?thesis
    by (auto simp: stream_inv_def Let_def stream_step.simps take_is_prefix
        split: if_splits option.splits)
next
  case (Returned r)
  with st show ?thesis by (simp add: stream_step.simps)
qed

interpretation stream_sys: safe_system stream_trans init_stream stream_inv
proof unfold_locales
  show "stream_inv init_stream" by (rule stream_inv_init)
next
  fix y z
  assume "stream_inv y" "stream_trans y z"
  then show "stream_inv z"
    by (auto elim!: stream_transE intro: stream_inv_emit stream_step_inv)
       (auto simp: stream_inv_def Let_def bc_finish_def)
qed

text \<open>A subscriber returns by draining, by cancellation, or by its own send error.\<close>

lemma stream_return_cases:
  assumes "stream_step b c sendErr s = Some s'" and "sub_pc s' = Returned r"
  shows "(r = None \<and> sub_pc s = Looping \<and> sub_index s \<ge> length (bc_events b) \<and> (bc_done b \<or> c))
       \<or> (r = None \<and> c \<and> (\<exists>e. sub_pc s = Sending e))
       \<or> (\<exists>e err. r = Some err \<and> \<not> c \<and> sub_pc s = Sending e \<and> sendErr = Some err)"
  using assms by (auto simp: stream_step.simps split: stream_pc.splits if_splits option.splits)

text \<open>
  Draining a finished run: with no cancellation and no send error every subscriber
  reaches the end in at most two steps per remaining event and one for the return.
\<close>

fun run_subscriber :: "nat \<Rightarrow> broadcaster \<Rightarrow> subscriber \<Rightarrow> subscriber" where
  "run_subscriber 0 b s = s"
| "run_subscriber (Suc n) b s =
     (case stream_step b False None s of None \<Rightarrow> s | Some s' \<Rightarrow> run_subscriber n b s')"

lemma run_subscriber_drains:
  assumes "bc_done b" and "sub_pc s = Looping" and "sub_index s \<le> length (bc_events b)"
    and "sub_got s = take (sub_index s) (bc_events b)"
    and "k = length (bc_events b) - sub_index s"
  shows "sub_pc (run_subscriber (2 * k + 1) b s) = Returned None \<and>
         sub_got (run_subscriber (2 * k + 1) b s) = bc_events b"
  using assms
proof (induction k arbitrary: s)
  case 0
  then show ?case by (simp add: stream_step.simps)
next
  case (Suc k)
  let ?i = "sub_index s" and ?ev = "bc_events b"
  let ?s2 = "s\<lparr>sub_index := Suc ?i, sub_pc := Looping, sub_got := sub_got s @ [?ev ! ?i]\<rparr>"
  have lt: "?i < length ?ev" using Suc.prems by simp
  have two: "run_subscriber (Suc (Suc n)) b s = run_subscriber n b ?s2" for n
    using lt Suc.prems(2) by (simp add: stream_step.simps)
  have "sub_got ?s2 = take (sub_index ?s2) ?ev"
    using lt Suc.prems(4) by (simp add: take_Suc_conv_app_nth)
  then have "sub_pc (run_subscriber (2 * k + 1) b ?s2) = Returned None \<and>
      sub_got (run_subscriber (2 * k + 1) b ?s2) = ?ev"
    using Suc.prems lt by (intro Suc.IH) auto
  then show ?case using two [of "2 * k + 1"] by simp
qed

lemma run_subscriber_from_sending:
  assumes "stream_inv y" and "bc_done (sy_bc y)" and "sub_pc (sy_sub y) = Sending e"
  shows "\<exists>n. sub_pc (run_subscriber n (sy_bc y) (sy_sub y)) = Returned None \<and>
             sub_got (run_subscriber n (sy_bc y) (sy_sub y)) = bc_events (sy_bc y)"
proof -
  let ?s = "sy_sub y" and ?b = "sy_bc y"
  let ?s1 = "?s\<lparr>sub_pc := Looping, sub_got := sub_got ?s @ [e]\<rparr>"
  have st: "stream_step ?b False None ?s = Some ?s1"
    using assms(3) by (simp add: stream_step.simps)
  have "stream_inv (y\<lparr>sy_cancelled := False\<rparr>)" using assms(1) by (simp add: stream_inv_def)
  then have "stream_inv (y\<lparr>sy_cancelled := False, sy_sub := ?s1\<rparr>)"
    using stream_step_inv [of "y\<lparr>sy_cancelled := False\<rparr>" None ?s1] st by simp
  then have "sub_got ?s1 = take (sub_index ?s1) (bc_events ?b)" "sub_index ?s1 \<le> length (bc_events ?b)"
    by (simp_all add: stream_inv_def Let_def)
  then obtain n where "sub_pc (run_subscriber n ?b ?s1) = Returned None"
    "sub_got (run_subscriber n ?b ?s1) = bc_events ?b"
    using run_subscriber_drains [OF assms(2)] by (metis subscriber.select_convs(1) subscriber.surjective
        subscriber.update_convs(1,3))
  then show ?thesis using st by (intro exI [of _ "Suc n"]) simp
qed


definition demo_event :: progress_event where
  "demo_event = \<lparr>pe_type = ''status'', pe_target = ''app'', pe_status = ''started'', pe_detail = []\<rparr>"


end
