(* ===== verification/Executor.thy ===== *)
theory Executor
  imports Broadcaster
begin

text \<open>
  \<open>internal/daemon/executor.go\<close>: the table of in-flight runs. A run is keyed by its
  operation and target; an exact duplicate attaches to the run in the table, a
  different operation on the same target is refused. The job of a run is a goroutine;
  its phases are \<open>Running\<close>, \<open>Cleared\<close> (the entry is deleted) and \<open>Finished\<close> (the
  broadcaster is marked done), in the order of \<open>runJob\<close>'s deferred function.
\<close>

type_synonym run_key = "string \<times> string"

record active_run =
  ar_operation :: string
  ar_target :: string
  ar_cancelable :: bool
  ar_id :: nat    \<comment> \<open>the identity of the run's broadcaster\<close>

definition run_key_of :: "active_run \<Rightarrow> run_key" where
  "run_key_of r = (ar_operation r, ar_target r)"

datatype start_error =
    SameTargetConflict (act_op: string) (act_target: string) (req_op: string) (req_target: string)
  | RunCancellationConflict (conf_op: string) (conf_target: string)
      (act_cancelable: bool) (req_cancelable: bool)

datatype job_phase = Running | Cleared | Finished

record executor =
  ex_runs :: "(run_key \<times> active_run) list"
  ex_jobs :: "(active_run \<times> job_phase) list"
  ex_bcs :: "(nat \<times> broadcaster) list"
  ex_next :: nat

definition new_executor :: executor where
  "new_executor = \<lparr>ex_runs = [], ex_jobs = [], ex_bcs = [], ex_next = 0\<rparr>"

text \<open>
  \<open>startOrAttachWithCancellation\<close>, under the executor's mutex. The scan for a run on
  the same target takes the first one of the table's iteration order.
\<close>

definition start_or_attach_with_cancellation ::
  "executor \<Rightarrow> string \<Rightarrow> string \<Rightarrow> bool \<Rightarrow> (start_error, active_run) result \<times> executor" where
  "start_or_attach_with_cancellation e operation target cancelable =
     (let key = (operation, target) in
      case map_of (ex_runs e) key of
        Some run \<Rightarrow>
          (if ar_cancelable run \<noteq> cancelable
           then (Inl (RunCancellationConflict operation target (ar_cancelable run) cancelable), e)
           else (Inr run, e))
      | None \<Rightarrow>
          (case find (\<lambda>run. ar_target run = target) (map snd (ex_runs e)) of
             Some run \<Rightarrow>
               (Inl (SameTargetConflict (ar_operation run) (ar_target run) operation target), e)
           | None \<Rightarrow>
               (let run = \<lparr>ar_operation = operation, ar_target = target,
                           ar_cancelable = cancelable, ar_id = ex_next e\<rparr>
                in (Inr run,
                    e\<lparr>ex_runs := AList.update key run (ex_runs e),
                      ex_jobs := (run, Running) # ex_jobs e,
                      ex_bcs := (ex_next e, new_broadcaster) # ex_bcs e,
                      ex_next := Suc (ex_next e)\<rparr>))))"

definition start_or_attach ::
  "executor \<Rightarrow> string \<Rightarrow> string \<Rightarrow> (start_error, active_run) result \<times> executor" where
  "start_or_attach e operation target = start_or_attach_with_cancellation e operation target False"

definition start_or_attach_cancelable ::
  "executor \<Rightarrow> string \<Rightarrow> (start_error, active_run) result \<times> executor" where
  "start_or_attach_cancelable e target =
     start_or_attach_with_cancellation e ''upgrade'' target True"

text \<open>The two halves of \<open>runJob\<close>'s deferred function, and the job's emit.\<close>

definition set_phase :: "active_run \<Rightarrow> job_phase \<Rightarrow> executor \<Rightarrow> executor" where
  "set_phase run ph e = e\<lparr>ex_jobs := AList.update run ph (ex_jobs e)\<rparr>"

definition clear_run :: "active_run \<Rightarrow> executor \<Rightarrow> executor" where
  "clear_run run e =
     set_phase run Cleared (e\<lparr>ex_runs := AList.delete (run_key_of run) (ex_runs e)\<rparr>)"

definition with_bc :: "nat \<Rightarrow> (broadcaster \<Rightarrow> broadcaster) \<Rightarrow> executor \<Rightarrow> executor" where
  "with_bc i f e = e\<lparr>ex_bcs := map (\<lambda>(j, b). (j, if j = i then f b else b)) (ex_bcs e)\<rparr>"

definition finish_run :: "active_run \<Rightarrow> executor \<Rightarrow> executor" where
  "finish_run run e = set_phase run Finished (with_bc (ar_id run) bc_finish e)"

definition emit_run :: "active_run \<Rightarrow> progress_event \<Rightarrow> executor \<Rightarrow> executor" where
  "emit_run run ev e = with_bc (ar_id run) (bc_emit ev) e"

text \<open>\<open>sortActiveRuns\<close>: by target, then by operation.\<close>

definition sort_active_runs :: "active_run list \<Rightarrow> active_run list" where
  "sort_active_runs rs = sort_key ar_target (sort_key ar_operation rs)"

definition active_matching :: "executor \<Rightarrow> string \<Rightarrow> string \<Rightarrow> active_run list" where
  "active_matching e operation target =
     sort_active_runs
       (filter (\<lambda>run. \<not> (operation \<noteq> [] \<and> ar_operation run \<noteq> operation) \<and>
                      \<not> (target \<noteq> [] \<and> ar_target run \<noteq> target))
         (map snd (ex_runs e)))"

definition active_runs :: "executor \<Rightarrow> active_run list" where
  "active_runs e = active_matching e [] []"

section \<open>The executor as a transition system\<close>

inductive exec_step :: "executor \<Rightarrow> executor \<Rightarrow> bool" where
  ex_start: "start_or_attach_with_cancellation e operation target c = (r, e') \<Longrightarrow> exec_step e e'"
| ex_emit: "map_of (ex_jobs e) run = Some Running \<Longrightarrow> exec_step e (emit_run run ev e)"
| ex_clear: "map_of (ex_jobs e) run = Some Running \<Longrightarrow> exec_step e (clear_run run e)"
| ex_finish: "map_of (ex_jobs e) run = Some Cleared \<Longrightarrow> exec_step e (finish_run run e)"

inductive_cases exec_stepE: "exec_step e e'"

definition exec_inv :: "executor \<Rightarrow> bool" where
  "exec_inv e \<longleftrightarrow>
     go_map_ok (ex_runs e) \<and>
     (\<forall>k run. (k, run) \<in> set (ex_runs e) \<longrightarrow>
        k = run_key_of run \<and> map_of (ex_jobs e) run = Some Running) \<and>
     (\<forall>run. map_of (ex_jobs e) run = Some Running \<longrightarrow> (run_key_of run, run) \<in> set (ex_runs e)) \<and>
     (\<forall>a\<in>snd ` set (ex_runs e). \<forall>b\<in>snd ` set (ex_runs e). ar_target a = ar_target b \<longrightarrow> a = b) \<and>
     (\<forall>a ph b ph'. map_of (ex_jobs e) a = Some ph \<longrightarrow> map_of (ex_jobs e) b = Some ph' \<longrightarrow>
        ar_id a = ar_id b \<longrightarrow> a = b) \<and>
     (\<forall>run ph. map_of (ex_jobs e) run = Some ph \<longrightarrow> ar_id run < ex_next e \<and>
        (\<exists>b. map_of (ex_bcs e) (ar_id run) = Some b \<and> (bc_done b \<longleftrightarrow> ph = Finished)))"

lemma exec_invD:
  assumes "exec_inv e"
  shows "go_map_ok (ex_runs e)"
    and "(k, run) \<in> set (ex_runs e) \<Longrightarrow> k = run_key_of run"
    and "(k, run) \<in> set (ex_runs e) \<Longrightarrow> map_of (ex_jobs e) run = Some Running"
    and "map_of (ex_jobs e) run = Some Running \<Longrightarrow> (run_key_of run, run) \<in> set (ex_runs e)"
    and "a \<in> snd ` set (ex_runs e) \<Longrightarrow> b \<in> snd ` set (ex_runs e) \<Longrightarrow>
      ar_target a = ar_target b \<Longrightarrow> a = b"
    and "map_of (ex_jobs e) a = Some ph \<Longrightarrow> map_of (ex_jobs e) b = Some ph' \<Longrightarrow>
      ar_id a = ar_id b \<Longrightarrow> a = b"
    and "map_of (ex_jobs e) run = Some ph \<Longrightarrow> ar_id run < ex_next e"
    and "map_of (ex_jobs e) run = Some ph \<Longrightarrow>
      \<exists>b. map_of (ex_bcs e) (ar_id run) = Some b \<and> (bc_done b \<longleftrightarrow> ph = Finished)"
  using assms unfolding exec_inv_def by blast+

lemma exec_inv_new: "exec_inv new_executor"
  by (simp add: exec_inv_def new_executor_def go_map_ok_def)

text \<open>A start either leaves the executor alone or adds one run on a free target.\<close>

lemma start_cases:
  assumes "start_or_attach_with_cancellation e operation target c = (r, e')"
  obtains (attach) run where "map_of (ex_runs e) (operation, target) = Some run"
      "ar_cancelable run = c" "r = Inr run" "e' = e"
  | (cancel_conflict) run where "map_of (ex_runs e) (operation, target) = Some run"
      "ar_cancelable run \<noteq> c"
      "r = Inl (RunCancellationConflict operation target (ar_cancelable run) c)" "e' = e"
  | (target_conflict) run where "map_of (ex_runs e) (operation, target) = None"
      "run \<in> snd ` set (ex_runs e)" "ar_target run = target"
      "r = Inl (SameTargetConflict (ar_operation run) target operation target)" "e' = e"
  | (started) run where "map_of (ex_runs e) (operation, target) = None"
      "\<forall>q\<in>snd ` set (ex_runs e). ar_target q \<noteq> target"
      "run = \<lparr>ar_operation = operation, ar_target = target, ar_cancelable = c, ar_id = ex_next e\<rparr>"
      "r = Inr run"
      "e' = e\<lparr>ex_runs := AList.update (operation, target) run (ex_runs e),
              ex_jobs := (run, Running) # ex_jobs e,
              ex_bcs := (ex_next e, new_broadcaster) # ex_bcs e, ex_next := Suc (ex_next e)\<rparr>"
proof (cases "map_of (ex_runs e) (operation, target)")
  case (Some run)
  with assms show thesis
    by (cases "ar_cancelable run = c")
       (auto simp: start_or_attach_with_cancellation_def Let_def
         intro: attach [OF Some] cancel_conflict [OF Some])
next
  case None
  show thesis
  proof (cases "find (\<lambda>run. ar_target run = target) (map snd (ex_runs e))")
    case (Some run)
    then have "run \<in> snd ` set (ex_runs e)" "ar_target run = target"
      by (auto simp: find_Some_iff in_set_conv_nth image_iff) (metis nth_mem snd_conv surj_pair)
    with assms None Some show thesis
      by (auto simp: start_or_attach_with_cancellation_def Let_def intro: target_conflict [OF None])
  next
    case f: None
    then have "\<forall>q\<in>snd ` set (ex_runs e). ar_target q \<noteq> target"
      by (auto simp: find_None_iff)
    with assms None f show thesis
      by (auto simp: start_or_attach_with_cancellation_def Let_def intro: started [OF None])
  qed
qed

lemma set_update_fresh:
  "map_of m k = None \<Longrightarrow> set (AList.update k v m) = insert (k, v) (set m)"
  by (induction m) (auto split: if_splits)

lemma exec_inv_start:
  assumes inv: "exec_inv e" and st: "start_or_attach_with_cancellation e operation target c = (r, e')"
  shows "exec_inv e'"
  using st
proof (cases rule: start_cases)
  case (started run)
  note I = exec_invD [OF inv]
  have fresh: "map_of (ex_jobs e) q = Some ph \<Longrightarrow> ar_id q \<noteq> ar_id run" for q ph
    using I(7) [of q ph] started by auto
  have runs: "set (ex_runs e') = insert ((operation, target), run) (set (ex_runs e))"
    using started by (simp add: set_update_fresh)
  have key: "run_key_of run = (operation, target)" using started by (simp add: run_key_of_def)
  have nojob: "map_of (ex_jobs e) run = None"
    using fresh [of run] by (cases "map_of (ex_jobs e) run") auto
  have jobs: "map_of (ex_jobs e') = (map_of (ex_jobs e))(run \<mapsto> Running)"
    and bcs: "map_of (ex_bcs e') = (map_of (ex_bcs e))(ar_id run \<mapsto> new_broadcaster)"
    and nx: "ex_next e' = Suc (ar_id run)" "ar_id run = ex_next e"
    using started by simp_all
  show ?thesis
    unfolding exec_inv_def runs jobs bcs nx(1)
  proof (intro conjI)
    show "go_map_ok (ex_runs e')" using I(1) started by simp
  next
    show "\<forall>k q. (k, q) \<in> insert ((operation, target), run) (set (ex_runs e)) \<longrightarrow>
        k = run_key_of q \<and> ((map_of (ex_jobs e))(run \<mapsto> Running)) q = Some Running"
      using I(2,3) key by auto
  next
    show "\<forall>q. ((map_of (ex_jobs e))(run \<mapsto> Running)) q = Some Running \<longrightarrow>
        (run_key_of q, q) \<in> insert ((operation, target), run) (set (ex_runs e))"
      using I(4) key by auto
  next
    show "\<forall>a\<in>snd ` insert ((operation, target), run) (set (ex_runs e)).
        \<forall>b\<in>snd ` insert ((operation, target), run) (set (ex_runs e)).
          ar_target a = ar_target b \<longrightarrow> a = b"
      using I(5) started(2,3) by (auto 0 4)
  next
    show "\<forall>a ph b ph'. ((map_of (ex_jobs e))(run \<mapsto> Running)) a = Some ph \<longrightarrow>
        ((map_of (ex_jobs e))(run \<mapsto> Running)) b = Some ph' \<longrightarrow> ar_id a = ar_id b \<longrightarrow> a = b"
      using I(6) fresh by (metis fun_upd_apply)
  next
    show "\<forall>q ph. ((map_of (ex_jobs e))(run \<mapsto> Running)) q = Some ph \<longrightarrow> ar_id q < Suc (ar_id run) \<and>
        (\<exists>b. ((map_of (ex_bcs e))(ar_id run \<mapsto> new_broadcaster)) (ar_id q) = Some b \<and>
             (bc_done b \<longleftrightarrow> ph = Finished))"
      using I(7,8) fresh nx(2) by (auto simp: new_broadcaster_def less_Suc_eq)
  qed
qed (use inv in auto)

lemma map_of_with_bc:
  "map_of (map (\<lambda>(j, b). (j, if j = i then f b else b)) m) k =
     (if k = i then map_option f (map_of m k) else map_of m k)"
  by (induction m) auto

lemma exec_inv_emit:
  assumes inv: "exec_inv e"
  shows "exec_inv (emit_run run ev e)"
proof -
  note I = exec_invD [OF inv]
  have "\<exists>b. map_of (ex_bcs (emit_run run ev e)) (ar_id q) = Some b \<and> (bc_done b \<longleftrightarrow> ph = Finished)"
    if "map_of (ex_jobs e) q = Some ph" for q ph
    using I(8) [OF that] by (auto simp: emit_run_def with_bc_def map_of_with_bc bc_emit_def)
  then show ?thesis
    using inv unfolding exec_inv_def by (simp add: emit_run_def with_bc_def)
qed

lemma exec_inv_clear:
  assumes inv: "exec_inv e" and run: "map_of (ex_jobs e) run = Some Running"
  shows "exec_inv (clear_run run e)"
proof -
  note I = exec_invD [OF inv]
  have del: "set (AList.delete (run_key_of run) (ex_runs e)) = set (ex_runs e) - {(run_key_of run, run)}"
  proof -
    have "(k, q) \<in> set (ex_runs e) \<Longrightarrow> k = run_key_of run \<Longrightarrow> q = run" for k q
      using I(1) I(4) [OF run] unfolding go_map_ok_def by (metis eq_key_imp_eq_value)
    then show ?thesis by (auto simp: AList.delete_eq)
  qed
  have inj: "(k, q) \<in> set (ex_runs e) \<Longrightarrow> (k, q) \<noteq> (run_key_of run, run) \<Longrightarrow> q \<noteq> run" for k q
    using I(2) [of k q] by auto
  have runs: "set (ex_runs (clear_run run e)) = set (ex_runs e) - {(run_key_of run, run)}"
    by (simp add: clear_run_def set_phase_def del)
  have jobs: "map_of (ex_jobs (clear_run run e)) = (map_of (ex_jobs e))(run \<mapsto> Cleared)"
    by (simp add: clear_run_def set_phase_def)
  show ?thesis
    unfolding exec_inv_def runs jobs
  proof (intro conjI)
    show "go_map_ok (ex_runs (clear_run run e))"
      using I(1) by (simp add: clear_run_def set_phase_def)
    show "\<forall>k q. (k, q) \<in> set (ex_runs e) - {(run_key_of run, run)} \<longrightarrow>
        k = run_key_of q \<and> ((map_of (ex_jobs e))(run \<mapsto> Cleared)) q = Some Running"
      using I(2,3) inj by auto
    show "\<forall>q. ((map_of (ex_jobs e))(run \<mapsto> Cleared)) q = Some Running \<longrightarrow>
        (run_key_of q, q) \<in> set (ex_runs e) - {(run_key_of run, run)}"
      using I(4) by (auto split: if_splits)
    show "\<forall>a\<in>snd ` (set (ex_runs e) - {(run_key_of run, run)}).
        \<forall>b\<in>snd ` (set (ex_runs e) - {(run_key_of run, run)}). ar_target a = ar_target b \<longrightarrow> a = b"
      using I(5) by blast
    show "\<forall>a ph b ph'. ((map_of (ex_jobs e))(run \<mapsto> Cleared)) a = Some ph \<longrightarrow>
        ((map_of (ex_jobs e))(run \<mapsto> Cleared)) b = Some ph' \<longrightarrow> ar_id a = ar_id b \<longrightarrow> a = b"
      using I(6) run by (metis fun_upd_apply)
    show "\<forall>q ph. ((map_of (ex_jobs e))(run \<mapsto> Cleared)) q = Some ph \<longrightarrow>
        ar_id q < ex_next (clear_run run e) \<and>
        (\<exists>b. map_of (ex_bcs (clear_run run e)) (ar_id q) = Some b \<and> (bc_done b \<longleftrightarrow> ph = Finished))"
      using I(7,8) I(7,8) [OF run] by (auto simp: clear_run_def set_phase_def)
  qed
qed

lemma exec_inv_finish:
  assumes inv: "exec_inv e" and run: "map_of (ex_jobs e) run = Some Cleared"
  shows "exec_inv (finish_run run e)"
proof -
  note I = exec_invD [OF inv]
  have keep: "(k, q) \<in> set (ex_runs e) \<Longrightarrow> q \<noteq> run" for k q
    using I(3) run by fastforce
  have bc: "\<exists>b. map_of (ex_bcs (finish_run run e)) (ar_id q) = Some b \<and> (bc_done b \<longleftrightarrow> ph = Finished)"
    if "map_of (ex_jobs (finish_run run e)) q = Some ph" for q ph
  proof (cases "q = run")
    case True
    with that I(8) [OF run] show ?thesis
      by (auto simp: finish_run_def set_phase_def with_bc_def map_of_with_bc bc_finish_def)
  next
    case False
    with that have q: "map_of (ex_jobs e) q = Some ph"
      by (simp add: finish_run_def set_phase_def with_bc_def)
    with False I(6) [OF q run] have "ar_id q \<noteq> ar_id run" by blast
    with I(8) [OF q] show ?thesis
      by (auto simp: finish_run_def set_phase_def with_bc_def map_of_with_bc)
  qed
  show ?thesis
    unfolding exec_inv_def
  proof (intro conjI)
    show "\<forall>a ph b ph'. map_of (ex_jobs (finish_run run e)) a = Some ph \<longrightarrow>
        map_of (ex_jobs (finish_run run e)) b = Some ph' \<longrightarrow> ar_id a = ar_id b \<longrightarrow> a = b"
      using I(6) run by (auto simp: finish_run_def set_phase_def with_bc_def split: if_splits)
    show "\<forall>q ph. map_of (ex_jobs (finish_run run e)) q = Some ph \<longrightarrow>
        ar_id q < ex_next (finish_run run e) \<and>
        (\<exists>b. map_of (ex_bcs (finish_run run e)) (ar_id q) = Some b \<and> (bc_done b \<longleftrightarrow> ph = Finished))"
      using bc I(7) run by (auto simp: finish_run_def set_phase_def with_bc_def split: if_splits)
  qed (use I keep run in \<open>auto simp: finish_run_def set_phase_def with_bc_def split: if_splits\<close>)
qed

lemmas exec_inv_ops = exec_inv_start exec_inv_emit exec_inv_clear exec_inv_finish

interpretation exec_sys: safe_system exec_step new_executor exec_inv
proof unfold_locales
  show "exec_inv new_executor" by (rule exec_inv_new)
next
  fix e e'
  assume "exec_inv e" "exec_step e e'"
  then show "exec_inv e'"
    by (auto elim!: exec_stepE intro: exec_inv_ops)
qed

section \<open>What the executor promises\<close>

lemma runs_distinct_targets:
  assumes "run_of exec_step new_executor e"
    and "a \<in> snd ` set (ex_runs e)" and "b \<in> snd ` set (ex_runs e)" and "ar_target a = ar_target b"
  shows "a = b"
  using exec_invD(5) [OF exec_sys.reachable_inv [OF assms(1)]] assms(2-) by blast

text \<open>The runs of a listing are exactly the matching ones, sorted by target.\<close>

lemma set_active_matching:
  "set (active_matching e operation target) =
     {r \<in> snd ` set (ex_runs e). (operation = [] \<or> ar_operation r = operation) \<and>
                                (target = [] \<or> ar_target r = target)}"
  by (auto simp: active_matching_def sort_active_runs_def)

lemma sorted_active_matching: "sorted (map ar_target (active_matching e operation target))"
  by (simp add: active_matching_def sort_active_runs_def)

text \<open>No target appears twice in a listing.\<close>

lemma distinct_active_targets:
  assumes "exec_inv e"
  shows "distinct (map ar_target (active_matching e operation target))"
proof -
  have runs: "distinct (map snd (ex_runs e))"
  proof -
    have "map run_key_of (map snd (ex_runs e)) = go_keys (ex_runs e)"
      using exec_invD(2) [OF assms] by (auto intro!: map_cong simp: comp_def)
    then show ?thesis
      using exec_invD(1) [OF assms] unfolding go_map_ok_def by (metis distinct_map)
  qed
  have "distinct (active_matching e operation target)"
    using runs by (simp add: active_matching_def sort_active_runs_def)
  moreover have "inj_on ar_target (set (active_matching e operation target))"
    using exec_invD(5) [OF assms] by (auto simp: set_active_matching inj_on_def)
  ultimately show ?thesis by (simp add: distinct_map)
qed

text \<open>C11. One run per target at any time. In every reachable executor, a start request
  either attaches to the running run of exactly that operation and target (and the same
  cancellation mode) or begins a new one, in both cases a run that is running; or it is
  refused, the executor unchanged, because the target is busy with another operation or
  another cancellation mode. Two running jobs never share a target.\<close>

theorem start_exclusive:
  assumes "run_of exec_step new_executor e"
    and "start_or_attach_with_cancellation e operation target c = (r, e')"
  shows "(case r of
            Inr run \<Rightarrow> ar_operation run = operation \<and> ar_target run = target \<and>
              ar_cancelable run = c \<and> map_of (ex_jobs e') run = Some Running
          | Inl _ \<Rightarrow> e' = e \<and> (\<exists>run. map_of (ex_jobs e) run = Some Running \<and> ar_target run = target \<and>
              (ar_operation run \<noteq> operation \<or> ar_cancelable run \<noteq> c))) \<and>
         (\<forall>a b. map_of (ex_jobs e') a = Some Running \<longrightarrow> map_of (ex_jobs e') b = Some Running \<longrightarrow>
            ar_target a = ar_target b \<longrightarrow> a = b)"
proof
  have inv: "exec_inv e" using exec_sys.reachable_inv [OF assms(1)] .
  have inv': "exec_inv e'" using exec_inv_start [OF inv assms(2)] .
  show "\<forall>a b. map_of (ex_jobs e') a = Some Running \<longrightarrow> map_of (ex_jobs e') b = Some Running \<longrightarrow>
      ar_target a = ar_target b \<longrightarrow> a = b"
    using exec_invD(4,5) [OF inv'] by (metis image_eqI snd_conv)
  from assms(2) show "case r of
            Inr run \<Rightarrow> ar_operation run = operation \<and> ar_target run = target \<and>
              ar_cancelable run = c \<and> map_of (ex_jobs e') run = Some Running
          | Inl _ \<Rightarrow> e' = e \<and> (\<exists>run. map_of (ex_jobs e) run = Some Running \<and> ar_target run = target \<and>
              (ar_operation run \<noteq> operation \<or> ar_cancelable run \<noteq> c))"
  proof (cases rule: start_cases)
    case (attach run)
    then have "((operation, target), run) \<in> set (ex_runs e)" by (simp add: map_of_SomeD)
    with exec_invD(2,3) [OF inv] attach show ?thesis by (auto simp: run_key_of_def)
  next
    case (cancel_conflict run)
    then have "((operation, target), run) \<in> set (ex_runs e)" by (simp add: map_of_SomeD)
    with exec_invD(2,3) [OF inv] cancel_conflict show ?thesis by (fastforce simp: run_key_of_def)
  next
    case (target_conflict run)
    then obtain k where k: "(k, run) \<in> set (ex_runs e)" by auto
    have "ar_operation run \<noteq> operation"
    proof
      assume "ar_operation run = operation"
      with exec_invD(2) [OF inv k] target_conflict(3) have "k = (operation, target)"
        by (simp add: run_key_of_def)
      with k target_conflict(1) show False by (force simp: map_of_eq_None_iff)
    qed
    with exec_invD(3) [OF inv k] target_conflict show ?thesis by auto
  next
    case (started run)
    then show ?thesis by simp
  qed
qed

lemma start_exclusive_witness:
  "map_of (ex_jobs (snd (start_or_attach new_executor ''patch'' ''app'')))
     \<lparr>ar_operation = ''patch'', ar_target = ''app'', ar_cancelable = False, ar_id = 0\<rparr> = Some Running"
proof -
  have "start_or_attach_with_cancellation new_executor ''patch'' ''app'' False =
      (Inr \<lparr>ar_operation = ''patch'', ar_target = ''app'', ar_cancelable = False, ar_id = 0\<rparr>,
       snd (start_or_attach new_executor ''patch'' ''app''))"
    by (simp add: start_or_attach_def start_or_attach_with_cancellation_def new_executor_def Let_def)
  from start_exclusive [OF run_start this] show ?thesis by simp
qed

end
