(* ===== verification/Executor_Lock.thy ===== *)
theory Executor_Lock
  imports Executor
begin

text \<open>
  What the executor's table promises, as a table of locks: at most one run holds a target.
  The detailed executor, with its keyed table, job phases and broadcasters, refines it.
\<close>

type_synonym lock_table = "string \<Rightarrow> active_run option"

definition lock_start ::
  "lock_table \<Rightarrow> nat \<Rightarrow> string \<Rightarrow> string \<Rightarrow> bool \<Rightarrow> (start_error, active_run) result \<times> lock_table" where
  "lock_start T fresh operation target cancelable =
     (case T target of
        None \<Rightarrow>
          (let run = \<lparr>ar_operation = operation, ar_target = target, ar_cancelable = cancelable, ar_id = fresh\<rparr>
           in (Inr run, T(target \<mapsto> run)))
      | Some run \<Rightarrow>
          (if ar_operation run \<noteq> operation
           then (Inl (SameTargetConflict (ar_operation run) target operation target), T)
           else if ar_cancelable run \<noteq> cancelable
           then (Inl (RunCancellationConflict operation target (ar_cancelable run) cancelable), T)
           else (Inr run, T)))"

definition lock_release :: "lock_table \<Rightarrow> string \<Rightarrow> lock_table" where
  "lock_release T target = T(target := None)"

text \<open>The abstraction: the run the table holds for a target.\<close>

definition holder :: "executor \<Rightarrow> lock_table" where
  "holder e target = find (\<lambda>run. ar_target run = target) (map snd (ex_runs e))"

lemma holder_member:
  "holder e target = Some run \<Longrightarrow> run \<in> snd ` set (ex_runs e) \<and> ar_target run = target"
  by (auto simp: holder_def find_Some_iff in_set_conv_nth image_iff) (metis nth_mem snd_conv surj_pair)

lemma holder_Some_iff:
  assumes "exec_inv e"
  shows "holder e target = Some run \<longleftrightarrow> (run_key_of run, run) \<in> set (ex_runs e) \<and> ar_target run = target"
proof
  assume "holder e target = Some run"
  from holder_member [OF this] show "(run_key_of run, run) \<in> set (ex_runs e) \<and> ar_target run = target"
    using exec_invD(2) [OF assms] by auto
next
  assume r: "(run_key_of run, run) \<in> set (ex_runs e) \<and> ar_target run = target"
  then have run: "run \<in> snd ` set (ex_runs e)" by force
  with r have "holder e target \<noteq> None" by (auto simp: holder_def find_None_iff)
  then obtain q where q: "holder e target = Some q" by blast
  from holder_member [OF q] r have "q = run"
    by (intro exec_invD(5) [OF assms _ run]) auto
  with q show "holder e target = Some run" by simp
qed

lemma holder_None_iff: "holder e target = None \<longleftrightarrow> (\<forall>run\<in>snd ` set (ex_runs e). ar_target run \<noteq> target)"
  by (auto simp: holder_def find_None_iff)

lemma start_refines:
  assumes inv: "exec_inv e" and st: "start_or_attach_with_cancellation e operation target c = (r, e')"
  shows "lock_start (holder e) (ex_next e) operation target c = (r, holder e')"
proof -
  have holds: "ar_operation run = operation" "holder e target = Some run"
    if "map_of (ex_runs e) (operation, target) = Some run" for run
  proof -
    have "((operation, target), run) \<in> set (ex_runs e)" using that by (rule map_of_SomeD)
    moreover from this have "run_key_of run = (operation, target)" using exec_invD(2) [OF inv] by fastforce
    ultimately show "ar_operation run = operation" "holder e target = Some run"
      using holder_Some_iff [OF inv] by (auto simp: run_key_of_def)
  qed
  from st show ?thesis
  proof (cases rule: start_cases)
    case (attach run)
    have "ar_operation run = operation" "holder e target = Some run" by (rule holds [OF attach(1)])+
    with attach show ?thesis by (simp add: lock_start_def)
  next
    case (cancel_conflict run)
    have "ar_operation run = operation" "holder e target = Some run" by (rule holds [OF cancel_conflict(1)])+
    with cancel_conflict show ?thesis by (simp add: lock_start_def)
  next
    case (target_conflict run)
    then have run: "(run_key_of run, run) \<in> set (ex_runs e)" using exec_invD(2) [OF inv] by auto
    then have "map_of (ex_runs e) (run_key_of run) = Some run"
      using exec_invD(1) [OF inv] by (simp add: go_map_ok_def)
    with target_conflict have "ar_operation run \<noteq> operation" by (auto simp: run_key_of_def)
    moreover have "holder e target = Some run" using holder_Some_iff [OF inv] run target_conflict by simp
    ultimately show ?thesis using target_conflict by (simp add: lock_start_def)
  next
    case (started run)
    have inv': "exec_inv e'" using exec_inv_start [OF inv st] .
    have runs: "set (ex_runs e') = insert ((operation, target), run) (set (ex_runs e))"
      using started by (simp add: set_update_fresh)
    have "holder e' t = ((holder e)(target \<mapsto> run)) t" for t
    proof (cases "holder e' t")
      case None
      then have "t \<noteq> target" "\<forall>q\<in>snd ` set (ex_runs e). ar_target q \<noteq> t"
        using started(3) by (auto simp: holder_None_iff runs)
      with None show ?thesis using holder_None_iff [of e t] by simp
    next
      case (Some q)
      then have q: "(run_key_of q, q) \<in> insert ((operation, target), run) (set (ex_runs e))" "ar_target q = t"
        using holder_Some_iff [OF inv'] runs by auto
      show ?thesis
      proof (cases "t = target")
        case True
        with q started(2,3) have "q = run" by force
        with Some True show ?thesis by simp
      next
        case False
        with q started(3) have "(run_key_of q, q) \<in> set (ex_runs e)" by auto
        with q(2) Some False show ?thesis using holder_Some_iff [OF inv, of t q] by simp
      qed
    qed
    moreover have "holder e target = None" using started(2) by (simp add: holder_None_iff)
    moreover from calculation(1) have "holder e' = (holder e)(target \<mapsto> run)" by blast
    ultimately show ?thesis using started(3,4) by (simp add: lock_start_def Let_def)
  qed
qed

lemma clear_refines:
  assumes inv: "exec_inv e" and run: "map_of (ex_jobs e) run = Some Running"
  shows "holder (clear_run run e) = lock_release (holder e) (ar_target run)"
proof
  fix t
  have inv': "exec_inv (clear_run run e)" using exec_inv_clear [OF assms] .
  have "(run_key_of run, run) \<in> set (ex_runs e)" by (rule exec_invD(4) [OF assms])
  then have runs: "(run_key_of q, q) \<in> set (ex_runs (clear_run run e)) \<longleftrightarrow>
      (run_key_of q, q) \<in> set (ex_runs e) \<and> run_key_of q \<noteq> run_key_of run" for q
    by (auto simp: clear_run_def set_phase_def AList.delete_eq)
  show "holder (clear_run run e) t = lock_release (holder e) (ar_target run) t"
  proof (cases "t = ar_target run")
    case True
    have "holder (clear_run run e) t \<noteq> Some q" for q
    proof
      assume "holder (clear_run run e) t = Some q"
      then have q: "(run_key_of q, q) \<in> set (ex_runs e)" "run_key_of q \<noteq> run_key_of run" "ar_target q = t"
        using holder_Some_iff [OF inv'] runs by auto
      then have "q \<in> snd ` set (ex_runs e)" "run \<in> snd ` set (ex_runs e)"
        using exec_invD(4) [OF assms] by force+
      with q True exec_invD(5) [OF inv] show False by metis
    qed
    then have "holder (clear_run run e) t = None" by blast
    with True show ?thesis by (simp add: lock_release_def)
  next
    case False
    have "holder (clear_run run e) t = Some q \<longleftrightarrow> holder e t = Some q" for q
      using False holder_Some_iff [OF inv'] holder_Some_iff [OF inv] runs
      by (auto simp: run_key_of_def)
    with False show ?thesis by (simp add: lock_release_def) (metis not_None_eq)
  qed
qed

text \<open>C12.
  In every state the executor can reach, starting an operation does exactly what taking the
  lock of its target does in a table of locks (same answer, same table), the end of a job
  releases the lock of its target, and emitting and finishing leave the locks alone.
\<close>
theorem executor_refines_locks:
  assumes "run_of exec_step new_executor e"
  shows "(case start_or_attach_with_cancellation e operation target c of
            (r, e') \<Rightarrow> lock_start (holder e) (ex_next e) operation target c = (r, holder e')) \<and>
    (map_of (ex_jobs e) run = Some Running \<longrightarrow>
       holder (clear_run run e) = lock_release (holder e) (ar_target run)) \<and>
    holder (emit_run run ev e) = holder e \<and> holder (finish_run run e) = holder e"
proof -
  have inv: "exec_inv e" using assms by (rule exec_sys.reachable_inv)
  have "holder (emit_run run ev e) = holder e" "holder (finish_run run e) = holder e"
    by (auto simp: holder_def emit_run_def finish_run_def with_bc_def set_phase_def)
  with start_refines [OF inv] clear_refines [OF inv] show ?thesis by (auto split: prod.split)
qed

theorem executor_refines_locks_witness:
  "fst (lock_start (holder (snd (start_or_attach new_executor ''patch'' ''a''))) 1 ''upgrade'' ''a'' False) =
     Inl (SameTargetConflict ''patch'' ''a'' ''upgrade'' ''a'')"
proof -
  define e where "e = snd (start_or_attach new_executor ''patch'' ''a'')"
  have "exec_step new_executor e"
    unfolding e_def start_or_attach_def
    by (rule ex_start [of _ "''patch''" "''a''" False "fst (start_or_attach new_executor ''patch'' ''a'')"])
      (simp add: start_or_attach_def)
  then have "run_of exec_step new_executor e" by (blast intro: run_of.intros)
  note this [THEN executor_refines_locks, of "''upgrade''" "''a''" False undefined undefined]
  then have "fst (lock_start (holder e) (ex_next e) ''upgrade'' ''a'' False) =
      fst (start_or_attach_with_cancellation e ''upgrade'' ''a'' False)"
    by (cases "start_or_attach_with_cancellation e ''upgrade'' ''a'' False") simp
  moreover have "ex_next e = 1" "fst (start_or_attach_with_cancellation e ''upgrade'' ''a'' False) =
      Inl (SameTargetConflict ''patch'' ''a'' ''upgrade'' ''a'')"
    unfolding e_def by code_simp+
  ultimately show ?thesis by (simp add: e_def)
qed

end
