(* ===== verification/Go_Strings.thy ===== *)
theory Go_Strings
  imports Go_Prelude
begin

text \<open>
  The functions of Go's \<open>strings\<close>, \<open>strconv\<close> and \<open>time\<close> packages the program calls,
  on byte strings. \<open>strings.TrimSpace\<close> removes every Unicode white-space code point
  in its UTF-8 encoding, as Go does; \<open>strings.ToLower\<close> is modelled on its ASCII
  fast path (bytes outside ASCII are left alone).
\<close>

section \<open>Prefixes and white space\<close>

definition strip_front :: "string list \<Rightarrow> string \<Rightarrow> string option" where
  "strip_front toks s =
     (case find (\<lambda>t. t \<noteq> [] \<and> prefix t s) toks of
        None \<Rightarrow> None | Some t \<Rightarrow> Some (drop (length t) s))"

lemma strip_front_shorter [termination_simp]:
  "strip_front toks s = Some r \<Longrightarrow> length r < length s"
  by (cases "s = []")
     (auto simp: strip_front_def find_Some_iff prefix_def split: option.splits)

fun strip_all :: "string list \<Rightarrow> string \<Rightarrow> string" where
  "strip_all toks s = (case strip_front toks s of None \<Rightarrow> s | Some r \<Rightarrow> strip_all toks r)"

declare strip_all.simps [simp del]

text \<open>The white space of \<open>unicode.IsSpace\<close> in UTF-8.\<close>

definition go_spaces :: "string list" where
  "go_spaces =
     [[CHR 0x20], [CHR 0x09], [CHR 0x0A], [CHR 0x0B], [CHR 0x0C], [CHR 0x0D],
      [CHR 0xC2, CHR 0x85], [CHR 0xC2, CHR 0xA0], [CHR 0xE1, CHR 0x9A, CHR 0x80],
      [CHR 0xE2, CHR 0x80, CHR 0x80], [CHR 0xE2, CHR 0x80, CHR 0x81],
      [CHR 0xE2, CHR 0x80, CHR 0x82], [CHR 0xE2, CHR 0x80, CHR 0x83],
      [CHR 0xE2, CHR 0x80, CHR 0x84], [CHR 0xE2, CHR 0x80, CHR 0x85],
      [CHR 0xE2, CHR 0x80, CHR 0x86], [CHR 0xE2, CHR 0x80, CHR 0x87],
      [CHR 0xE2, CHR 0x80, CHR 0x88], [CHR 0xE2, CHR 0x80, CHR 0x89],
      [CHR 0xE2, CHR 0x80, CHR 0x8A], [CHR 0xE2, CHR 0x80, CHR 0xA8],
      [CHR 0xE2, CHR 0x80, CHR 0xA9], [CHR 0xE2, CHR 0x80, CHR 0xAF],
      [CHR 0xE2, CHR 0x81, CHR 0x9F], [CHR 0xE3, CHR 0x80, CHR 0x80]]"

definition trim_left :: "string \<Rightarrow> string" where
  "trim_left s = strip_all go_spaces s"

definition trim_right :: "string \<Rightarrow> string" where
  "trim_right s = rev (strip_all (map rev go_spaces) (rev s))"

definition trim_space :: "string \<Rightarrow> string" where
  "trim_space s = trim_right (trim_left s)"

lemma strip_front_strip_all [simp]: "strip_front toks (strip_all toks s) = None"
proof (induction toks s rule: strip_all.induct)
  case (1 toks s)
  then show ?case
    by (simp add: strip_all.simps [of toks s] split: option.split)
qed

lemma strip_all_fix: "strip_front toks s = None \<Longrightarrow> strip_all toks s = s"
  by (simp add: strip_all.simps)

lemma strip_all_suffix: "suffix (strip_all toks s) s"
proof (induction toks s rule: strip_all.induct)
  case (1 toks s)
  show ?case
  proof (cases "strip_front toks s")
    case None
    then show ?thesis by (simp add: strip_all_fix)
  next
    case (Some r)
    then have "suffix r s"
      by (auto simp: strip_front_def suffix_drop split: option.splits)
    with 1 Some show ?thesis
      by (auto simp: strip_all.simps [of toks s] intro: suffix_order.order_trans)
  qed
qed

lemma strip_front_prefix: "prefix r s \<Longrightarrow> strip_front toks s = None \<Longrightarrow> strip_front toks r = None"
  by (auto simp: strip_front_def find_None_iff split: option.splits dest: prefix_order.trans)

lemma trim_right_prefix: "prefix (trim_right s) s"
  using strip_all_suffix [of "map rev go_spaces" "rev s"]
  by (simp add: trim_right_def suffix_to_prefix)

text \<open>Trimming twice is trimming once: every configuration normaliser rests on it.\<close>

lemma trim_space_idem [simp]: "trim_space (trim_space s) = trim_space s"
proof -
  let ?t = "trim_left s"
  have "strip_front go_spaces (trim_right ?t) = None"
    by (rule strip_front_prefix [OF trim_right_prefix]) (simp add: trim_left_def)
  then have "trim_left (trim_right ?t) = trim_right ?t"
    by (simp add: trim_left_def strip_all_fix)
  moreover have "trim_right (trim_right ?t) = trim_right ?t"
    by (simp add: trim_right_def strip_all_fix)
  ultimately show ?thesis by (simp add: trim_space_def)
qed

interpretation trim: normaliser trim_space
  by unfold_locales simp

lemma trim_space_Nil [simp]: "trim_space [] = []"
proof -
  have "strip_front toks [] = None" for toks :: "string list"
    by (auto simp: strip_front_def find_None_iff find_Some_iff split: option.splits)
  then show ?thesis
    by (simp add: trim_space_def trim_left_def trim_right_def strip_all_fix)
qed

lemma trim_space_plain:
  assumes "strip_front go_spaces s = None" and "strip_front (map rev go_spaces) (rev s) = None"
  shows "trim_space s = s"
  using assms by (simp add: trim_space_def trim_left_def trim_right_def strip_all_fix)

section \<open>Searching, cutting and joining\<close>

text \<open>\<open>strings.Contains\<close>.\<close>

fun contains :: "string \<Rightarrow> string \<Rightarrow> bool" where
  "contains sub [] \<longleftrightarrow> sub = []"
| "contains sub (c # cs) \<longleftrightarrow> prefix sub (c # cs) \<or> contains sub cs"

lemma contains_iff: "contains sub s \<longleftrightarrow> (\<exists>a b. s = a @ sub @ b)"
proof (induction s)
  case Nil
  then show ?case by auto
next
  case (Cons c s)
  show ?case
  proof
    assume "contains sub (c # s)"
    then consider b where "c # s = sub @ b" | a b where "s = a @ sub @ b"
      using Cons.IH by (auto simp: prefix_def)
    then show "\<exists>a b. c # s = a @ sub @ b"
    proof cases
      case 1 then show ?thesis by (metis append_Nil)
    next
      case 2 then show ?thesis by (metis append_Cons)
    qed
  next
    assume "\<exists>a b. c # s = a @ sub @ b"
    then obtain a b where ab: "c # s = a @ sub @ b" by blast
    show "contains sub (c # s)"
    proof (cases a)
      case Nil
      with ab have "prefix sub (c # s)" by simp
      then show ?thesis by simp
    next
      case (Cons a0 a')
      with ab have "s = a' @ sub @ b" by simp
      with Cons.IH show ?thesis by auto
    qed
  qed
qed

text \<open>\<open>strings.Cut\<close> and \<open>strings.Index\<close> for a one-byte separator.\<close>

fun cut :: "char \<Rightarrow> string \<Rightarrow> (string \<times> string) option" where
  "cut c [] = None"
| "cut c (x # xs) = (if x = c then Some ([], xs)
     else map_option (\<lambda>(a, b). (x # a, b)) (cut c xs))"

lemma cut_Some_iff: "cut c s = Some (a, b) \<longleftrightarrow> s = a @ c # b \<and> c \<notin> set a"
  by (induction c s arbitrary: a b rule: cut.induct) (auto simp: Cons_eq_append_conv)

lemma cut_None_iff: "cut c s = None \<longleftrightarrow> c \<notin> set s"
  by (induction c s rule: cut.induct) auto

text \<open>\<open>strings.Split\<close> on a one-byte separator: always at least one piece.\<close>

fun split_on :: "char \<Rightarrow> string \<Rightarrow> string list" where
  "split_on c [] = [[]]"
| "split_on c (x # xs) = (if x = c then [] # split_on c xs
     else (case split_on c xs of [] \<Rightarrow> [[x]] | y # ys \<Rightarrow> (x # y) # ys))"

lemma split_on_nonempty [simp]: "split_on c s \<noteq> []"
  by (induction c s rule: split_on.induct) (auto split: list.splits)

lemma split_on_no_sep: "p \<in> set (split_on c s) \<Longrightarrow> c \<notin> set p"
  by (induction c s arbitrary: p rule: split_on.induct) (auto split: if_splits list.splits)

lemma split_on_single: "c \<notin> set s \<Longrightarrow> split_on c s = [s]"
  by (induction c s rule: split_on.induct) auto

lemma split_on_append: "c \<notin> set a \<Longrightarrow> split_on c (a @ c # b) = a # split_on c b"
  by (induction a) auto

text \<open>\<open>strings.Join\<close>.\<close>

fun join :: "string \<Rightarrow> string list \<Rightarrow> string" where
  "join sep [] = []"
| "join sep [x] = x"
| "join sep (x # y # ys) = x @ sep @ join sep (y # ys)"

lemma join_split_on: "join [c] (split_on c s) = s"
proof (induction c s rule: split_on.induct)
  case (1 c)
  then show ?case by simp
next
  case (2 c x xs)
  obtain y ys where "split_on c xs = y # ys"
    by (cases "split_on c xs") auto
  with 2 show ?case by (cases ys) auto
qed

lemma split_on_join:
  "xs \<noteq> [] \<Longrightarrow> \<forall>x\<in>set xs. c \<notin> set x \<Longrightarrow> split_on c (join [c] xs) = xs"
  by (induction "[c]" xs rule: join.induct) (auto simp: split_on_single split_on_append)

text \<open>\<open>strings.ReplaceAll\<close> for a non-empty pattern.\<close>

function replace_all :: "string \<Rightarrow> string \<Rightarrow> string \<Rightarrow> string" where
  "replace_all old new [] = []"
| "replace_all old new (c # cs) =
     (if old \<noteq> [] \<and> prefix old (c # cs)
      then new @ replace_all old new (drop (length old) (c # cs))
      else c # replace_all old new cs)"
  by pat_completeness auto
termination
  by (relation "measure (\<lambda>(old, new, s). length s)") auto

lemma replace_all_absent: "old \<noteq> [] \<Longrightarrow> \<not> contains old s \<Longrightarrow> replace_all old new s = s"
  by (induction old new s rule: replace_all.induct) auto

text \<open>
  \<open>strings.NewReplacer(...).Replace\<close> for non-empty patterns: one left-to-right pass,
  the first pattern in argument order that matches at a position is replaced, and the
  replacement is not scanned again.
\<close>

function replacer :: "(string \<times> string) list \<Rightarrow> string \<Rightarrow> string" where
  "replacer ps [] = []"
| "replacer ps (c # cs) =
     (case find (\<lambda>(old, new). old \<noteq> [] \<and> prefix old (c # cs)) ps of
        Some (old, new) \<Rightarrow> new @ replacer ps (drop (length old) (c # cs))
      | None \<Rightarrow> c # replacer ps cs)"
  by pat_completeness auto
termination
  by (relation "measure (\<lambda>(ps, s). length s)") (auto simp: find_Some_iff)

text \<open>\<open>strings.TrimSuffix\<close> and \<open>strings.TrimPrefix\<close>.\<close>

definition trim_suffix :: "string \<Rightarrow> string \<Rightarrow> string" where
  "trim_suffix suf s = (if suffix suf s then take (length s - length suf) s else s)"

lemma trim_suffix_append [simp]: "trim_suffix suf (s @ suf) = s"
  by (simp add: trim_suffix_def suffix_def)

definition trim_prefix :: "string \<Rightarrow> string \<Rightarrow> string" where
  "trim_prefix pre s = (if prefix pre s then drop (length pre) s else s)"

text \<open>\<open>strings.Trim\<close> with a cutset of bytes.\<close>

definition trim_chars :: "char set \<Rightarrow> string \<Rightarrow> string" where
  "trim_chars cs s = rev (dropWhile (\<lambda>c. c \<in> cs) (rev (dropWhile (\<lambda>c. c \<in> cs) s)))"

text \<open>\<open>strings.ToLower\<close> on ASCII.\<close>

definition lower_char :: "char \<Rightarrow> char" where
  "lower_char c = (if CHR ''A'' \<le> c \<and> c \<le> CHR ''Z'' then char_of (of_char c + (32::nat)) else c)"

definition to_lower :: "string \<Rightarrow> string" where
  "to_lower s = map lower_char s"

section \<open>Numbers and clock times\<close>

definition is_digit :: "char \<Rightarrow> bool" where
  "is_digit c \<longleftrightarrow> CHR ''0'' \<le> c \<and> c \<le> CHR ''9''"

definition digit_val :: "char \<Rightarrow> nat" where
  "digit_val c = of_char c - 48"

definition digits_val :: "string \<Rightarrow> nat" where
  "digits_val s = fold (\<lambda>c n. 10 * n + digit_val c) s 0"

text \<open>\<open>%d\<close> of a natural number.\<close>

fun nat_str :: "nat \<Rightarrow> string" where
  "nat_str n = (if n < 10 then [char_of (48 + n)] else nat_str (n div 10) @ [char_of (48 + n mod 10)])"

declare nat_str.simps [simp del]

definition int_str :: "int \<Rightarrow> string" where
  "int_str n = (if n < 0 then ''-'' @ nat_str (nat (- n)) else nat_str (nat n))"

text \<open>
  \<open>strconv.Atoi\<close> on a 64-bit platform: an optional sign, then one or more decimal
  digits; a value outside the range of \<open>int\<close> is an error.
\<close>

definition atoi :: "string \<Rightarrow> int option" where
  "atoi s =
     (let neg = (s \<noteq> [] \<and> hd s = CHR ''-'');
          body = (if s \<noteq> [] \<and> (hd s = CHR ''-'' \<or> hd s = CHR ''+'') then tl s else s);
          v = (if neg then - int (digits_val body) else int (digits_val body))
      in if body = [] \<or> \<not> list_all is_digit body then None
         else if v < - (2 ^ 63) \<or> v \<ge> 2 ^ 63 then None else Some v)"

text \<open>\<open>strconv.ParseBool\<close>.\<close>

definition parse_bool :: "string \<Rightarrow> bool option" where
  "parse_bool s =
     (if s \<in> {''1'', ''t'', ''T'', ''TRUE'', ''true'', ''True''} then Some True
      else if s \<in> {''0'', ''f'', ''F'', ''FALSE'', ''false'', ''False''} then Some False
      else None)"

text \<open>
  \<open>time.Parse("15:04", v)\<close>: one or two hour digits (Go's \<open>15\<close> field takes both),
  a colon, exactly two minute digits, nothing after them, both in range.
\<close>

fun parse_hour :: "string \<Rightarrow> (nat \<times> string) option" where
  "parse_hour [] = None"
| "parse_hour [a] = (if is_digit a then Some (digit_val a, []) else None)"
| "parse_hour (a # b # r) =
     (if \<not> is_digit a then None
      else if is_digit b then Some (10 * digit_val a + digit_val b, r)
      else Some (digit_val a, b # r))"

fun parse_minute :: "string \<Rightarrow> (nat \<times> string) option" where
  "parse_minute (a # b # r) =
     (if is_digit a \<and> is_digit b then Some (10 * digit_val a + digit_val b, r) else None)"
| "parse_minute _ = None"

definition parse_hhmm :: "string \<Rightarrow> (nat \<times> nat) option" where
  "parse_hhmm v =
     (case parse_hour v of None \<Rightarrow> None
      | Some (h, r) \<Rightarrow> if h \<ge> 24 then None else
         (case r of
            c # r' \<Rightarrow> if c \<noteq> CHR '':'' then None else
              (case parse_minute r' of None \<Rightarrow> None
               | Some (m, rest) \<Rightarrow> if m \<ge> 60 \<or> rest \<noteq> [] then None else Some (h, m))
          | [] \<Rightarrow> None))"

lemma parse_hhmm_range: "parse_hhmm v = Some (h, m) \<Longrightarrow> h < 24 \<and> m < 60"
  by (auto simp: parse_hhmm_def split: option.splits list.splits if_splits)

lemma parse_hhmm_two_spellings:
  "parse_hhmm ''9:00'' = Some (9, 0)" "parse_hhmm ''09:00'' = Some (9, 0)"
  "parse_hhmm ''9:5'' = None" "parse_hhmm ''24:00'' = None"
  by code_simp+

end
