(* ===== verification/Go_Path.thy ===== *)
theory Go_Path
  imports Go_Strings
begin

text \<open>
  \<open>path/filepath\<close> on Unix. A path is read as a rooted flag and the list of elements
  that \<open>filepath.Clean\<close> leaves; \<open>render\<close> writes it back. Cleaning is lexical: no
  function here looks at a file system.
\<close>

type_synonym cpath = "bool \<times> string list"

definition slash :: char where "slash = CHR ''/''"

definition is_abs :: "string \<Rightarrow> bool" where
  "is_abs s \<longleftrightarrow> s \<noteq> [] \<and> hd s = slash"

text \<open>
  The element loop of \<open>Clean\<close>: empty elements and \<open>.\<close> vanish, \<open>..\<close> removes the
  element before it; at the start of a rooted path it vanishes, at the start of a
  relative path it stays. The stack is reversed.
\<close>

fun clean_elems :: "bool \<Rightarrow> string list \<Rightarrow> string list \<Rightarrow> string list" where
  "clean_elems rooted st [] = rev st"
| "clean_elems rooted st (x # xs) =
     (if x = [] \<or> x = ''.'' then clean_elems rooted st xs
      else if x = ''..'' then
        (case st of
           [] \<Rightarrow> clean_elems rooted (if rooted then [] else [''..'']) xs
         | y # ys \<Rightarrow> clean_elems rooted (if y = ''..'' then ''..'' # st else ys) xs)
      else clean_elems rooted (x # st) xs)"

definition clean :: "string \<Rightarrow> cpath" where
  "clean s = (is_abs s, clean_elems (is_abs s) [] (split_on slash s))"

fun render :: "cpath \<Rightarrow> string" where
  "render (True, xs) = slash # join [slash] xs"
| "render (False, xs) = (if xs = [] then ''.'' else join [slash] xs)"

definition go_clean :: "string \<Rightarrow> string" where
  "go_clean s = render (clean s)"

text \<open>What \<open>Clean\<close> leaves: proper names, with \<open>..\<close> only at the front of a relative path.\<close>

definition proper_elem :: "string \<Rightarrow> bool" where
  "proper_elem x \<longleftrightarrow> x \<noteq> [] \<and> x \<noteq> ''.'' \<and> x \<noteq> ''..'' \<and> slash \<notin> set x"

definition clean_form :: "bool \<Rightarrow> string list \<Rightarrow> bool" where
  "clean_form rooted xs \<longleftrightarrow>
     (\<exists>n ys. xs = replicate n ''..'' @ ys \<and> list_all proper_elem ys \<and> (rooted \<longrightarrow> n = 0))"

lemma clean_form_Nil [simp]: "clean_form r []"
  unfolding clean_form_def by (intro exI [of _ 0] exI [of _ "[]"]) simp

lemma clean_form_snoc: "clean_form r xs \<Longrightarrow> proper_elem x \<Longrightarrow> clean_form r (xs @ [x])"
  unfolding clean_form_def
proof (elim exE conjE)
  fix n ys
  assume "xs = replicate n ''..'' @ ys" "list_all proper_elem ys" "r \<longrightarrow> n = 0" "proper_elem x"
  then show "\<exists>n zs. xs @ [x] = replicate n ''..'' @ zs \<and> list_all proper_elem zs \<and> (r \<longrightarrow> n = 0)"
    by (intro exI [of _ n] exI [of _ "ys @ [x]"]) simp
qed

lemma clean_form_butlast:
  assumes "clean_form r (xs @ [y])" and "y \<noteq> ''..''"
  shows "clean_form r xs"
proof -
  from assms obtain n ys where n: "xs @ [y] = replicate n ''..'' @ ys"
    and ys: "list_all proper_elem ys" "r \<longrightarrow> n = 0"
    by (auto simp: clean_form_def)
  have "ys \<noteq> []"
  proof
    assume "ys = []"
    with n have "y \<in> set (replicate n ''..'')"
      by (metis append_Nil2 in_set_conv_decomp)
    with assms(2) show False by simp
  qed
  with n have "xs = replicate n ''..'' @ butlast ys"
    by (metis butlast_append butlast_snoc)
  moreover have "list_all proper_elem (butlast ys)"
    using ys(1) by (auto simp: list_all_iff dest: in_set_butlastD)
  ultimately show ?thesis using ys(2) by (auto simp: clean_form_def)
qed

lemma clean_form_up:
  assumes "clean_form False (xs @ [''..''])"
  shows "clean_form False (xs @ [''..'', ''..''])"
proof -
  from assms obtain n ys where n: "xs @ [''..''] = replicate n ''..'' @ ys"
    and ys: "list_all proper_elem ys"
    by (auto simp: clean_form_def)
  have "ys = []"
    using n ys by (cases ys rule: rev_cases) (auto simp: proper_elem_def)
  with n have "xs @ [''..'', ''..''] = replicate (Suc n) ''..'' @ []"
    by (metis append.assoc append_Cons append_Nil append_Nil2 replicate_Suc replicate_append_same)
  then show ?thesis
    unfolding clean_form_def by (intro exI [of _ "Suc n"] exI [of _ "[]"]) simp
qed

lemma clean_form_rooted_no_up: "clean_form True xs \<Longrightarrow> list_all proper_elem xs"
  by (auto simp: clean_form_def)

lemma clean_elems_form:
  "clean_form r (rev st) \<Longrightarrow> \<forall>x\<in>set xs. slash \<notin> set x \<Longrightarrow> clean_form r (clean_elems r st xs)"
proof (induction r st xs rule: clean_elems.induct)
  case (1 r st)
  then show ?case by simp
next
  case (2 r st x xs)
  consider "x = [] \<or> x = ''.''" | "x = ''..''" "st = []" | y ys where "x = ''..''" "st = y # ys"
    | "x \<noteq> []" "x \<noteq> ''.''" "x \<noteq> ''..''"
    by (cases st) auto
  then show ?case
  proof cases
    case 1
    with 2 show ?thesis by auto
  next
    case c: 2
    have "clean_form r (rev (if r then [] else [''..'']))"
      by (auto simp: clean_form_def intro: exI [of _ "1::nat"])
    with 2 c show ?thesis by simp
  next
    case c: (3 y ys)
    have "clean_form r (rev (if y = ''..'' then ''..'' # st else ys))"
    proof (cases "y = ''..''")
      case True
      then have "\<not> r"
        using 2(5) c clean_form_rooted_no_up [of "rev ys @ [''..'']"]
        by (auto simp: proper_elem_def)
      with True c 2(5) clean_form_up [of "rev ys"] show ?thesis by simp
    next
      case False
      with c 2(5) clean_form_butlast [of r "rev ys" y] show ?thesis by simp
    qed
    with 2 c show ?thesis by (cases "y = ''..''") simp_all
  next
    case 4
    with 2(5,6) have "clean_form r (rev (x # st))"
      by (auto intro: clean_form_snoc simp: proper_elem_def)
    with 2 4 show ?thesis by simp
  qed
qed

lemma clean_has_form: "clean_form (fst (clean s)) (snd (clean s))"
  by (auto simp: clean_def intro: clean_elems_form dest: split_on_no_sep)

lemma clean_elems_append:
  "clean_elems r st (xs @ ys) = clean_elems r (rev (clean_elems r st xs)) ys"
  by (induction r st xs rule: clean_elems.induct) (auto split: list.splits)

lemma clean_elems_proper:
  "list_all proper_elem xs \<Longrightarrow> clean_elems r st xs = rev st @ xs"
  by (induction xs arbitrary: st) (auto simp: proper_elem_def)

lemma clean_elems_ups: "clean_elems False (replicate k ''..'') (replicate n ''..'' @ xs) =
    clean_elems False (replicate (n + k) ''..'') xs"
proof (induction n arbitrary: k)
  case 0
  then show ?case by simp
next
  case (Suc n)
  have "clean_elems False (replicate k ''..'') (''..'' # replicate n ''..'' @ xs) =
      clean_elems False (replicate (Suc k) ''..'') (replicate n ''..'' @ xs)"
    by (cases k) auto
  with Suc [of "Suc k"] show ?case by simp
qed

lemma clean_elems_fix: "clean_form r xs \<Longrightarrow> clean_elems r [] xs = xs"
proof -
  assume "clean_form r xs"
  then obtain n ys where x: "xs = replicate n ''..'' @ ys" "list_all proper_elem ys" "r \<longrightarrow> n = 0"
    by (auto simp: clean_form_def)
  show ?thesis
  proof (cases r)
    case True
    with x show ?thesis by (simp add: clean_elems_proper)
  next
    case False
    with x clean_elems_ups [of 0 n ys] show ?thesis
      by (simp add: clean_elems_proper)
  qed
qed

lemma clean_form_elems: "clean_form r xs \<Longrightarrow> x \<in> set xs \<Longrightarrow> x \<noteq> [] \<and> slash \<notin> set x"
proof -
  assume "clean_form r xs" and x: "x \<in> set xs"
  then obtain n ys where "xs = replicate n ''..'' @ ys" and ys: "list_all proper_elem ys"
    by (auto simp: clean_form_def)
  with x have "x = ''..'' \<or> x \<in> set ys" by auto
  then show ?thesis
  proof
    assume "x = ''..''"
    then show ?thesis by (simp add: slash_def)
  next
    assume "x \<in> set ys"
    with ys have "proper_elem x" by (simp add: list_all_iff)
    then show ?thesis by (simp add: proper_elem_def)
  qed
qed

lemma join_hd_not_slash:
  "xs \<noteq> [] \<Longrightarrow> \<forall>x\<in>set xs. x \<noteq> [] \<and> slash \<notin> set x \<Longrightarrow> \<not> is_abs (join [slash] xs)"
proof (cases xs)
  case (Cons x ys)
  assume "\<forall>x\<in>set xs. x \<noteq> [] \<and> slash \<notin> set x"
  with Cons have "x \<noteq> []" "hd x \<noteq> slash" by (cases x; auto)+
  with Cons show ?thesis by (cases ys) (auto simp: is_abs_def)
qed simp

lemma clean_render:
  assumes "clean_form r xs"
  shows "clean (render (r, xs)) = (r, xs)"
proof (cases r)
  case True
  have sp: "split_on slash (render (r, xs)) = [] # split_on slash (join [slash] xs)"
    using True by simp
  have "clean_elems True [] (split_on slash (join [slash] xs)) = xs"
  proof (cases "xs = []")
    case False
    with assms True show ?thesis
      by (simp add: split_on_join clean_form_elems clean_elems_fix)
  qed simp
  with sp True show ?thesis by (simp add: clean_def is_abs_def)
next
  case False
  show ?thesis
  proof (cases "xs = []")
    case True
    with False show ?thesis by (simp add: clean_def is_abs_def slash_def)
  next
    case n: False
    with assms False have "\<not> is_abs (join [slash] xs)"
      by (intro join_hd_not_slash) (auto dest: clean_form_elems)
    with n False assms show ?thesis
      by (simp add: clean_def split_on_join clean_form_elems clean_elems_fix)
  qed
qed

text \<open>\<open>filepath.Clean\<close> is idempotent.\<close>

lemma go_clean_idem [simp]: "go_clean (go_clean s) = go_clean s"
  unfolding go_clean_def using clean_has_form [of s] clean_render [of "fst (clean s)" "snd (clean s)"]
  by simp

interpretation path_clean: normaliser go_clean
  by unfold_locales simp

section \<open>Join, Dir, Base and Rel\<close>

text \<open>\<open>filepath.Join\<close>: empty leading elements are ignored, the rest is joined and cleaned.\<close>

definition go_join :: "string list \<Rightarrow> string" where
  "go_join es = (case dropWhile (\<lambda>e. e = []) es of [] \<Rightarrow> [] | es' \<Rightarrow> go_clean (join [slash] es'))"

text \<open>\<open>filepath.Base\<close> and \<open>filepath.Dir\<close>.\<close>

definition go_base :: "string \<Rightarrow> string" where
  "go_base s =
     (if s = [] then ''.''
      else let t = rev (dropWhile (\<lambda>c. c = slash) (rev s));
               b = rev (takeWhile (\<lambda>c. c \<noteq> slash) (rev t))
           in if b = [] then [slash] else b)"

definition go_dir :: "string \<Rightarrow> string" where
  "go_dir s = go_clean (rev (dropWhile (\<lambda>c. c \<noteq> slash) (rev s)))"

text \<open>
  \<open>filepath.Rel\<close> on cleaned paths: the common prefix is removed, every remaining base
  element becomes \<open>..\<close>. It fails when only one path is rooted and when the base has a
  \<open>..\<close> where the paths diverge. \<open>Some []\<close> stands for the result \<open>.\<close>.
\<close>

fun rel_elems :: "string list \<Rightarrow> string list \<Rightarrow> string list option" where
  "rel_elems [] ts = Some ts"
| "rel_elems (b # bs) [] =
     (if b = ''..'' then None else Some (replicate (length (b # bs)) ''..''))"
| "rel_elems (b # bs) (t # ts) =
     (if b = t then rel_elems bs ts
      else if b = ''..'' then None
      else Some (replicate (length (b # bs)) ''..'' @ t # ts))"

definition go_rel :: "string \<Rightarrow> string \<Rightarrow> string list option" where
  "go_rel base targ =
     (let b = clean base; t = clean targ
      in if fst b \<noteq> fst t then None else rel_elems (snd b) (snd t))"

lemma rel_elems_prefix: "rel_elems bs (bs @ ts) = Some ts"
  by (induction bs) auto

lemma rel_elems_inside:
  "rel_elems bs ts = Some rs \<Longrightarrow> (rs = [] \<or> hd rs \<noteq> ''..'') \<Longrightarrow> ts = bs @ rs"
  by (induction bs ts rule: rel_elems.induct) (auto split: if_splits)

text \<open>Joining a rooted directory with a relative name appends elements.\<close>

lemma clean_join_rooted:
  assumes "is_abs root"
  shows "clean (root @ slash # name) =
    (True, clean_elems True (rev (snd (clean root))) (split_on slash name))"
proof -
  have split: "split_on slash (a @ slash # name) = split_on slash a @ split_on slash name" for a
    by (induction a) (auto split: list.splits)
  have "is_abs (root @ slash # name)" using assms by (simp add: is_abs_def)
  with assms show ?thesis
    by (simp add: clean_def split clean_elems_append)
qed

end
