(* ===== verification/Spec_Types.thy ===== *)
theory Spec_Types
  imports Go_Path Complex_Main
begin

text \<open>
  The data of \<open>internal/spec/spec.go\<close> and of the extension blocks of
  \<open>internal/extensions/extensions.go\<close>: one record per struct, one field per field.
  A nil slice and an empty slice are the same list; a nil pointer is \<open>None\<close>; the
  string-typed enumerations (\<open>FlagType\<close>, \<open>UpdaterKind\<close>, \<open>PreflightKind\<close>,
  \<open>DryRunSignal\<close>) stay strings, because the configuration can hold any string there
  and the validators are what rejects the others.
\<close>

section \<open>Floating point\<close>

text \<open>
  A \<open>float64\<close>: the comparisons follow IEEE 754 (every comparison with NaN is false).
  Rounding is left to the operations that need it.
\<close>

datatype f64 = NaN | NegInf | Fin rat | PosInf

fun f64_le :: "f64 \<Rightarrow> f64 \<Rightarrow> bool" where
  "f64_le NaN _ = False"
| "f64_le _ NaN = False"
| "f64_le NegInf _ = True"
| "f64_le _ PosInf = True"
| "f64_le (Fin a) (Fin b) = (a \<le> b)"
| "f64_le _ _ = False"

definition f64_lt :: "f64 \<Rightarrow> f64 \<Rightarrow> bool" where
  "f64_lt a b \<longleftrightarrow> f64_le a b \<and> \<not> f64_le b a"

lemma f64_le_trans: "f64_le a b \<Longrightarrow> f64_le b c \<Longrightarrow> f64_le a c"
  by (cases a; cases b; cases c) auto

section \<open>Commands, operations and flags\<close>

record command_spec =
  cmd_use :: string
  cmd_aliases :: "string list"
  cmd_short :: string
  cmd_long :: string
  cmd_hidden :: bool

record flag_spec =
  fl_name :: string
  fl_binding :: string
  fl_type :: string
  fl_usage :: string
  fl_default_string :: string
  fl_default_bool :: "bool option"
  fl_expand_path :: bool
  fl_hidden :: bool

definition flag_type_string :: string where "flag_type_string = ''string''"
definition flag_type_bool :: string where "flag_type_bool = ''bool''"

record operation_spec =
  op_id :: string
  op_use :: string
  op_aliases :: "string list"
  op_short :: string
  op_long :: string
  op_hidden :: bool
  op_capability :: string
  op_flags :: "flag_spec list"

section \<open>Apps, updaters and launch policies\<close>

record entitlements_spec =
  ent_strip :: "string list"
  ent_required :: "string list"

record development_signing_spec =
  ds_enabled :: bool
  ds_profile_path :: string
  ds_p12_path :: string
  ds_p12_password_file :: string
  ds_injector_path :: string
  ds_proxy_injection :: bool
  ds_auto_generate :: bool

record updater_channel =
  ch_name :: string
  ch_url :: string

record updater_spec =
  up_kind :: string
  up_url :: string
  up_url_template :: string
  up_user_agent :: string
  up_platform :: string
  up_product :: string
  up_sparkle_key :: string
  up_minisign_key :: string
  up_device_id_param :: string
  up_default_channel :: string
  up_channels :: "updater_channel list"

definition kind_http_path_json :: string where "kind_http_path_json = ''http_path_json_manifest''"
definition kind_sparkle :: string where "kind_sparkle = ''sparkle_appcast''"
definition kind_squirrel :: string where "kind_squirrel = ''squirrel_json''"
definition kind_tauri :: string where "kind_tauri = ''tauri_minisign''"

lemmas updater_kind_defs = kind_http_path_json_def kind_sparkle_def kind_squirrel_def kind_tauri_def

record env_action =
  env_act :: string
  env_key :: string
  env_value :: string

record arg_action =
  arg_act :: string
  arg_value :: string

record preflight_spec =
  pf_kind :: string
  pf_path :: string
  pf_host :: string
  pf_port :: int
  pf_timeout :: int

record launch_policy_spec =
  lp_proxy_host :: string
  lp_proxy_port :: int
  lp_ca_certificate :: string
  lp_no_proxy :: string
  lp_working_dir :: string
  lp_ignore_signal :: string
  lp_environment :: "env_action list"
  lp_arguments :: "arg_action list"
  lp_preflights :: "preflight_spec list"

record cu_sign_target =
  st_path :: string
  st_entitlements :: entitlements_spec

record computer_use_spec =
  cu_host_app_path :: string
  cu_bundled_app_path :: string
  cu_app_path_from_home :: string
  cu_cache_globs :: "string list"
  cu_auth_plugin_path :: string
  cu_auth_plugin_exec :: string
  cu_upstream_team :: string
  cu_team_patch_binaries :: "string list"
  cu_team_plists :: "string list"
  cu_sign_targets :: "cu_sign_target list"

record bundled_cli_tee_spec =
  tee_capability :: string
  tee_app_support_dir :: string
  tee_version_dir :: string
  tee_bundled_cli_rel :: string
  tee_bundled_cli_path :: string
  tee_terminate_names :: "string list"
  tee_terminate_patterns :: "string list"
  tee_completion_steps :: "string list"

record codex_cli_shim_spec =
  cx_capability :: string
  cx_base_url :: string

record app_extensions =
  ext_computer_use :: "computer_use_spec option"
  ext_tee :: "bundled_cli_tee_spec option"
  ext_codex :: "codex_cli_shim_spec option"

record app_spec =
  app_id :: string
  app_command :: command_spec
  app_operations :: "operation_spec gomap"
  app_path :: string
  app_bundle_id :: string
  app_aliases :: "string list"
  app_helpers :: "string list"
  app_exec_name :: string
  app_keychain :: "string list"
  app_nested :: "string list"
  app_preserved :: "string list"
  app_profile :: string
  app_entitlements :: entitlements_spec
  app_devsign :: development_signing_spec
  app_updater :: updater_spec
  app_launch :: launch_policy_spec
  app_ext :: app_extensions

record cli_deferral_spec =
  df_enabled :: bool
  df_threshold :: f64
  df_work_threshold :: f64
  df_start :: string
  df_end :: string
  df_weekdays :: "string list"

record cli_spec =
  cli_id :: string
  cli_command :: command_spec
  cli_operations :: "operation_spec gomap"
  cli_deferral :: cli_deferral_spec

record go_config =
  cfg_identity :: string
  cfg_team_id :: string
  cfg_apps :: "app_spec gomap"
  cfg_clis :: "cli_spec gomap"

text \<open>\<open>normalizeStringSlice\<close>: trim every value, drop the empty ones.\<close>

definition normalize_string_slice :: "string list \<Rightarrow> string list" where
  "normalize_string_slice vs = filter (\<lambda>v. v \<noteq> []) (map trim_space vs)"

lemma normalize_string_slice_idem [simp]:
  "normalize_string_slice (normalize_string_slice vs) = normalize_string_slice vs"
  by (simp add: normalize_string_slice_def trim.map_filter_norm)

interpretation string_slice: normaliser normalize_string_slice
  by unfold_locales simp

end
