(* ===== verification/Config_Paths.thy ===== *)
theory Config_Paths
  imports Spec_Types
begin

text \<open>
  \<open>internal/config/xdg.go\<close> and the path tokens of \<open>internal/config/load.go\<close>: where the
  configuration, state and cache roots are, and how a configured path is expanded.
  The process environment is a record of the four variables the code reads; an unset
  variable is the empty string, which the code treats alike.
\<close>

record go_env =
  env_home :: string
  env_xdg_config :: string
  env_xdg_state :: string
  env_xdg_cache :: string

text \<open>\<open>os.UserHomeDir\<close> on Unix: \<open>$HOME\<close>, or an error when it is empty.\<close>

definition user_home_dir :: "go_env \<Rightarrow> string option" where
  "user_home_dir env = (if env_home env = [] then None else Some (env_home env))"

definition expand_leading_home :: "go_env \<Rightarrow> string \<Rightarrow> string" where
  "expand_leading_home env p =
     (if p = ''~'' then
        (case user_home_dir env of None \<Rightarrow> p | Some home \<Rightarrow> home)
      else if prefix ''~/'' p then
        (case user_home_dir env of None \<Rightarrow> p | Some home \<Rightarrow> go_join [home, drop 2 p])
      else p)"

definition clean_expanded_path :: "go_env \<Rightarrow> string \<Rightarrow> string" where
  "clean_expanded_path env p = (if p = [] then [] else go_clean (expand_leading_home env p))"

definition home_relative_root :: "go_env \<Rightarrow> string \<Rightarrow> string" where
  "home_relative_root env rel =
     clean_expanded_path env
       (go_join [case user_home_dir env of None \<Rightarrow> env_home env | Some h \<Rightarrow> h, rel])"

definition xdg_base_from_env :: "go_env \<Rightarrow> string \<Rightarrow> string option" where
  "xdg_base_from_env env raw =
     (let value = trim_space raw
      in if value = [] then None else Some (clean_expanded_path env value))"

definition app_scoped_root :: "go_env \<Rightarrow> string \<Rightarrow> string \<Rightarrow> string \<Rightarrow> string" where
  "app_scoped_root env app_name raw fallback =
     (case xdg_base_from_env env raw of
        Some base \<Rightarrow> go_join [base, app_name]
      | None \<Rightarrow> go_join [home_relative_root env fallback, app_name])"

definition config_root :: "go_env \<Rightarrow> string" where
  "config_root env = app_scoped_root env ''desktop-via-clyde'' (env_xdg_config env) ''.config''"

definition state_root :: "go_env \<Rightarrow> string" where
  "state_root env =
     app_scoped_root env ''clyde'' (env_xdg_state env) (go_join [''.local'', ''state''])"

definition cache_root :: "go_env \<Rightarrow> string" where
  "cache_root env = app_scoped_root env ''clyde'' (env_xdg_cache env) ''.cache''"

definition config_path :: "go_env \<Rightarrow> string" where
  "config_path env = go_join [config_root env, ''config.toml'']"

definition render_path_tokens :: "go_env \<Rightarrow> string \<Rightarrow> string" where
  "render_path_tokens env value =
     replacer [(''{cache_root}'', cache_root env),
               (''{config_root}'', go_dir (config_path env)),
               (''{home}'', home_relative_root env []),
               (''{state_root}'', state_root env)] value"

text \<open>
  The path helpers of \<open>internal/paths/paths.go\<close> that other components use.
\<close>

definition state_file :: "go_env \<Rightarrow> string" where
  "state_file env = go_join [state_root env, ''desktop-via-clyde-state.json'']"

definition macos_dir :: "string \<Rightarrow> string" where
  "macos_dir app = go_join [app, ''Contents'', ''MacOS'']"

definition main_binary_path :: "string \<Rightarrow> string \<Rightarrow> string" where
  "main_binary_path app exec = go_join [macos_dir app, exec]"

definition real_binary_path :: "string \<Rightarrow> string \<Rightarrow> string" where
  "real_binary_path app exec = go_join [macos_dir app, exec @ ''.real'']"

definition resources_dir :: "string \<Rightarrow> string" where
  "resources_dir app = go_join [app, ''Contents'', ''Resources'']"

definition launch_policy_path :: "string \<Rightarrow> string \<Rightarrow> string" where
  "launch_policy_path app exec = go_join [resources_dir app, exec @ ''.launch-policy.json'']"

definition info_plist_path :: "string \<Rightarrow> string" where
  "info_plist_path app = go_join [app, ''Contents'', ''Info.plist'']"

lemma clean_expanded_path_Nil [simp]: "clean_expanded_path env [] = []"
  by (simp add: clean_expanded_path_def)

lemma go_clean_nonempty [simp]: "go_clean p \<noteq> []"
proof
  assume empty: "go_clean p = []"
  obtain r xs where c: "clean p = (r, xs)" by (cases "clean p")
  then have f: "clean_form r xs" using clean_has_form [of p] by simp
  from empty c have "\<not> r" "xs \<noteq> []" "join [slash] xs = []"
    by (cases r; auto simp: go_clean_def split: if_splits)+
  then obtain x ys where xs: "xs = x # ys" and "x = []"
    by (cases xs; cases "tl xs") auto
  with clean_form_elems [OF f, of x] show False by simp
qed

lemma clean_expanded_path_empty_iff: "clean_expanded_path env p = [] \<longleftrightarrow> p = []"
  by (simp add: clean_expanded_path_def)

end
