(* ===== verification/Targets.thy ===== *)
theory Targets
  imports Spec_Types
begin

text \<open>
  \<open>internal/targets/targets.go\<close>: the runtime targets built from a loaded
  configuration, and the choice of an updater channel and of its URL.
\<close>

record target =
  tg_id :: string
  tg_operations :: "operation_spec gomap"
  tg_app_path :: string
  tg_bundle_id :: string
  tg_aliases :: "string list"
  tg_helpers :: "string list"
  tg_exec_name :: string
  tg_keychain :: "string list"
  tg_nested :: "string list"
  tg_preserved :: "string list"
  tg_profile :: string
  tg_entitlements :: entitlements_spec
  tg_devsign :: development_signing_spec
  tg_updater :: updater_spec
  tg_ext :: app_extensions
  tg_launch :: launch_policy_spec

record cli_program =
  cp_id :: string
  cp_operations :: "operation_spec gomap"
  cp_deferral :: cli_deferral_spec

definition build_target :: "app_spec \<Rightarrow> target" where
  "build_target app = \<lparr>
     tg_id = app_id app, tg_operations = app_operations app, tg_app_path = app_path app,
     tg_bundle_id = app_bundle_id app, tg_aliases = app_aliases app, tg_helpers = app_helpers app,
     tg_exec_name = app_exec_name app, tg_keychain = app_keychain app, tg_nested = app_nested app,
     tg_preserved = app_preserved app, tg_profile = app_profile app,
     tg_entitlements = app_entitlements app, tg_devsign = app_devsign app,
     tg_updater = app_updater app, tg_ext = app_ext app, tg_launch = app_launch app\<rparr>"

text \<open>\<open>All\<close> and \<open>AllCLIs\<close>: every declaration, in sorted key order.\<close>

definition all_targets :: "go_config \<Rightarrow> target list" where
  "all_targets cfg = map (\<lambda>id. build_target (the (map_of (cfg_apps cfg) id))) (sorted_keys (cfg_apps cfg))"

definition all_clis :: "go_config \<Rightarrow> cli_program list" where
  "all_clis cfg =
     map (\<lambda>id. let c = the (map_of (cfg_clis cfg) id)
               in \<lparr>cp_id = cli_id c, cp_operations = cli_operations c, cp_deferral = cli_deferral c\<rparr>)
       (sorted_keys (cfg_clis cfg))"

lemma set_all_targets:
  assumes "go_map_ok (cfg_apps cfg)"
  shows "set (all_targets cfg) = build_target ` snd ` set (cfg_apps cfg)"
  using assms by (force simp: all_targets_def go_map_ok_def image_iff)

text \<open>The order in which the maps iterate does not show in either list.\<close>

lemma all_targets_perm:
  assumes "go_map_ok (cfg_apps cfg)" and "mset (cfg_apps cfg) = mset m"
  shows "all_targets (cfg\<lparr>cfg_apps := m\<rparr>) = all_targets cfg"
  using map_of_perm [OF assms] sorted_keys_perm [OF assms(2)] by (simp add: all_targets_def)

section \<open>Extension hooks\<close>

definition post_patch_hook_capabilities :: "app_extensions \<Rightarrow> string list" where
  "post_patch_hook_capabilities x =
     (case ext_tee x of None \<Rightarrow> []
      | Some tee \<Rightarrow> if tee_capability tee = [] then [] else [tee_capability tee])"

definition pre_launch_policy_hook_capabilities :: "app_extensions \<Rightarrow> string list" where
  "pre_launch_policy_hook_capabilities x =
     (case ext_codex x of None \<Rightarrow> []
      | Some shim \<Rightarrow> if cx_capability shim = [] then [] else [cx_capability shim])"

section \<open>Updater channels\<close>

datatype channel_error = ChannelsUnsupported string | UnknownChannel string

definition supports_channels :: "updater_spec \<Rightarrow> bool" where
  "supports_channels u \<longleftrightarrow> up_channels u \<noteq> []"

definition resolve_channel :: "updater_spec \<Rightarrow> string \<Rightarrow> (channel_error, string) result" where
  "resolve_channel u requested =
     (let channel = trim_space requested in
      if \<not> supports_channels u then
        (if channel \<noteq> [] then Inl (ChannelsUnsupported (up_kind u)) else Inr [])
      else
        (let c1 = (if channel = [] then trim_space (up_default_channel u) else channel);
             c2 = (if c1 = [] \<and> up_channels u \<noteq> [] then ch_name (hd (up_channels u)) else c1)
         in if \<exists>c\<in>set (up_channels u). ch_name c = c2 then Inr c2 else Inl (UnknownChannel c2)))"

definition url_with_channel :: "updater_spec \<Rightarrow> string \<Rightarrow> (channel_error, string) result" where
  "url_with_channel u channel =
     (if \<not> supports_channels u then Inr (up_url u)
      else (case resolve_channel u channel of
              Inl e \<Rightarrow> Inl e
            | Inr resolved \<Rightarrow>
                (case find (\<lambda>c. ch_name c = resolved) (up_channels u) of
                   Some c \<Rightarrow> if ch_url c \<noteq> [] then Inr (ch_url c) else Inr (up_url u)
                 | None \<Rightarrow> Inl (UnknownChannel resolved))))"

lemma resolve_channel_declared:
  "resolve_channel u r = Inr c \<Longrightarrow> supports_channels u \<Longrightarrow> c \<in> ch_name ` set (up_channels u)"
  by (auto simp: resolve_channel_def Let_def split: if_splits intro: rev_image_eqI)

text \<open>Once a channel resolves, looking up its URL cannot fail.\<close>

lemma url_with_channel_total:
  assumes "resolve_channel u r = Inr c"
  shows "\<exists>url. url_with_channel u r = Inr url"
proof (cases "supports_channels u")
  case False
  then show ?thesis by (simp add: url_with_channel_def)
next
  case True
  with assms have "c \<in> ch_name ` set (up_channels u)" by (rule resolve_channel_declared)
  then have "find (\<lambda>x. ch_name x = c) (up_channels u) \<noteq> None"
    by (auto simp: find_None_iff)
  with assms True show ?thesis
    by (auto simp: url_with_channel_def)
qed

text \<open>The result of the read-only update check, which the upgrade hands to the updater loop.\<close>

record update_check =
  uc_current :: string
  uc_available :: string
  uc_update :: bool

end
