(* ===== verification/Config_Load.thy ===== *)
theory Config_Load
  imports Config_Paths Targets
begin

text \<open>
  \<open>internal/config/load.go\<close> after TOML decoding: the normalisation and validation of
  one configuration, and the extension normalisers and validators of
  \<open>internal/extensions/extensions.go\<close>. Every \<open>return fmt.Errorf(...)\<close> is a constructor
  of \<open>config_error\<close> applied to the dotted field path the message names.
\<close>

datatype config_error =
    NothingDeclared
  | Required string
  | EmptyId string
  | NoOperations string
  | UnknownCapability string string
  | DuplicateFlag string string
  | DuplicateBinding string string
  | NotSupportedFor string
  | NotOneOf string
  | OutOfRange string
  | NotPositive string
  | ExceedsBase string
  | NotHHMM string
  | SameWindow string
  | UnknownWeekday string string
  | NotAbsolute string
  | Unresolved string
  | ChannelWithoutName string
  | DuplicateChannel string string
  | ChannelsNotSupported string
  | UndeclaredDefault string string

definition at_index :: "string \<Rightarrow> nat \<Rightarrow> string" where
  "at_index path i = path @ ''['' @ nat_str i @ '']''"

section \<open>Flags and operations\<close>

definition normalize_flag ::
  "go_env \<Rightarrow> string \<Rightarrow> nat \<Rightarrow> flag_spec \<Rightarrow> (config_error, flag_spec) result" where
  "normalize_flag env path index flag0 =
     (let path_i = at_index (path @ ''.flags'') index;
          name = trim_space (fl_name flag0);
          binding = trim_space (fl_binding flag0);
          flag = flag0\<lparr>fl_name := name,
                       fl_binding := (if binding = [] then name else binding),
                       fl_type := trim_space (fl_type flag0),
                       fl_usage := trim_space (fl_usage flag0)\<rparr>
      in if name = [] then Inl (Required (path_i @ ''.name''))
         else if fl_type flag = flag_type_bool then
           Inr (flag\<lparr>fl_default_bool :=
                       (case fl_default_bool flag of None \<Rightarrow> Some False | Some v \<Rightarrow> Some v),
                     fl_default_string := []\<rparr>)
         else if fl_type flag = flag_type_string then
           (if fl_default_bool flag \<noteq> None then Inl (NotSupportedFor (path_i @ ''.default_bool''))
            else let d = trim_space (fl_default_string flag)
                 in Inr (flag\<lparr>fl_default_string :=
                      (if fl_expand_path flag
                       then clean_expanded_path env (render_path_tokens env d) else d)\<rparr>))
         else Inl (NotOneOf (path_i @ ''.type'')))"

fun normalize_flags ::
  "go_env \<Rightarrow> string \<Rightarrow> string \<Rightarrow> nat \<Rightarrow> string list \<Rightarrow> string list \<Rightarrow> flag_spec list \<Rightarrow>
     (config_error, flag_spec list) result" where
  "normalize_flags env path oid i seenF seenB [] = Inr []"
| "normalize_flags env path oid i seenF seenB (f # fs) =
     (case normalize_flag env (path @ ''.'' @ oid) i f of
        Inl e \<Rightarrow> Inl e
      | Inr n \<Rightarrow>
          (if fl_name n \<in> set seenF then Inl (DuplicateFlag (path @ ''.'' @ oid) (fl_name n))
           else if fl_binding n \<in> set seenB
           then Inl (DuplicateBinding (path @ ''.'' @ oid) (fl_binding n))
           else (case normalize_flags env path oid (Suc i) (fl_name n # seenF) (fl_binding n # seenB) fs of
                   Inl e \<Rightarrow> Inl e | Inr ns \<Rightarrow> Inr (n # ns))))"

definition normalize_operation ::
  "go_env \<Rightarrow> string set \<Rightarrow> string \<Rightarrow> string \<Rightarrow> operation_spec \<Rightarrow>
     (config_error, operation_spec) result" where
  "normalize_operation env caps path oid op0 =
     (let op = op0\<lparr>op_id := trim_space oid, op_use := trim_space (op_use op0),
                   op_short := trim_space (op_short op0), op_long := trim_space (op_long op0),
                   op_aliases := normalize_string_slice (op_aliases op0),
                   op_capability := trim_space (op_capability op0)\<rparr>
      in rbind (of_err (first_err
             [(op_use op = [], Required (path @ ''.'' @ oid @ ''.use'')),
              (op_capability op = [], Required (path @ ''.'' @ oid @ ''.capability'')),
              (op_capability op \<notin> caps,
               UnknownCapability (path @ ''.'' @ oid @ ''.capability'') (op_capability op))]) ())
           (\<lambda>_. rbind (normalize_flags env path oid 0 [] [] (op_flags op))
              (\<lambda>fs. Inr (op\<lparr>op_flags := fs\<rparr>))))"

text \<open>A map is validated in sorted key order; the keys stay as they are.\<close>

definition normalize_map ::
  "(string \<Rightarrow> 'a \<Rightarrow> (config_error, 'a) result) \<Rightarrow> 'a gomap \<Rightarrow> (config_error, 'a gomap) result" where
  "normalize_map f m =
     rbind (mapM (\<lambda>k. f k (the (map_of m k))) (sorted_keys m))
       (\<lambda>vs. Inr (zip (sorted_keys m) vs))"

definition normalize_operations ::
  "go_env \<Rightarrow> string set \<Rightarrow> string \<Rightarrow> operation_spec gomap \<Rightarrow>
     (config_error, operation_spec gomap) result" where
  "normalize_operations env caps path ops =
     (if ops = [] then Inl (NoOperations path)
      else normalize_map (normalize_operation env caps path) ops)"

section \<open>Updaters\<close>

definition validate_http_path :: "string \<Rightarrow> updater_spec \<Rightarrow> config_error option" where
  "validate_http_path path u = first_err
     [(up_url_template u = [], Required (path @ ''.url_template'')),
      (up_user_agent u = [], Required (path @ ''.user_agent'')),
      (up_platform u = [], Required (path @ ''.platform'')),
      (up_product u = [], Required (path @ ''.product'')),
      (up_channels u = [], Required (path @ ''.channels'')),
      (up_default_channel u = [], Required (path @ ''.default_channel''))]"

definition validate_sparkle :: "string \<Rightarrow> updater_spec \<Rightarrow> config_error option" where
  "validate_sparkle path u =
     (case first_err
        [(up_user_agent u = [], Required (path @ ''.user_agent'')),
         (up_sparkle_key u = [], Required (path @ ''.sparkle_public_key'')),
         (up_channels u = [] \<and> up_url u = [], Required (path @ ''.url''))] of
        Some e \<Rightarrow> Some e
      | None \<Rightarrow>
          (if up_channels u = [] then None
           else if up_default_channel u = [] then Some (Required (path @ ''.default_channel''))
           else map_option (\<lambda>c. Required (path @ ''.channels.'' @ ch_name c @ ''.url''))
                  (find (\<lambda>c. ch_url c = []) (up_channels u))))"

definition validate_squirrel :: "string \<Rightarrow> updater_spec \<Rightarrow> config_error option" where
  "validate_squirrel path u = first_err
     [(up_url u = [], Required (path @ ''.url'')),
      (up_user_agent u = [], Required (path @ ''.user_agent'')),
      (up_device_id_param u = [], Required (path @ ''.device_id_param_name'')),
      (up_channels u \<noteq> [] \<or> up_default_channel u \<noteq> [], ChannelsNotSupported path)]"

definition validate_tauri :: "string \<Rightarrow> updater_spec \<Rightarrow> config_error option" where
  "validate_tauri path u = first_err
     [(up_url_template u = [], Required (path @ ''.url_template'')),
      (up_minisign_key u = [], Required (path @ ''.minisign_public_key'')),
      (up_user_agent u = [], Required (path @ ''.user_agent'')),
      (up_platform u = [], Required (path @ ''.platform''))]"

fun normalize_channels ::
  "string \<Rightarrow> string list \<Rightarrow> updater_channel list \<Rightarrow> (config_error, updater_channel list) result" where
  "normalize_channels path seen [] = Inr []"
| "normalize_channels path seen (c0 # cs) =
     (let c = \<lparr>ch_name = trim_space (ch_name c0), ch_url = trim_space (ch_url c0)\<rparr>
      in if ch_name c = [] then Inl (ChannelWithoutName path)
         else if ch_name c \<in> set seen then Inl (DuplicateChannel path (ch_name c))
         else (case normalize_channels path (ch_name c # seen) cs of
                 Inl e \<Rightarrow> Inl e | Inr ns \<Rightarrow> Inr (c # ns)))"

definition trim_updater :: "updater_spec \<Rightarrow> updater_spec" where
  "trim_updater u = u\<lparr>
     up_kind := trim_space (up_kind u), up_url := trim_space (up_url u),
     up_url_template := trim_space (up_url_template u),
     up_user_agent := trim_space (up_user_agent u), up_platform := trim_space (up_platform u),
     up_product := trim_space (up_product u), up_sparkle_key := trim_space (up_sparkle_key u),
     up_minisign_key := trim_space (up_minisign_key u),
     up_device_id_param := trim_space (up_device_id_param u),
     up_default_channel := trim_space (up_default_channel u)\<rparr>"

definition updater_kinds :: "string list" where
  "updater_kinds = [kind_http_path_json, kind_sparkle, kind_squirrel, kind_tauri]"

definition normalize_updater ::
  "string \<Rightarrow> updater_spec \<Rightarrow> (config_error, updater_spec) result" where
  "normalize_updater path u0 =
     (let u = trim_updater u0 in
      if up_kind u \<notin> set updater_kinds then Inl (NotOneOf (path @ ''.kind''))
      else rbind (normalize_channels path [] (up_channels u)) (\<lambda>channels.
        (let u1 = u\<lparr>up_channels := channels\<rparr>;
             kind_err =
               (if up_kind u1 = kind_http_path_json then validate_http_path path u1
                else if up_kind u1 = kind_sparkle then validate_sparkle path u1
                else if up_kind u1 = kind_squirrel then validate_squirrel path u1
                else validate_tauri path u1)
         in case kind_err of
              Some e \<Rightarrow> Inl e
            | None \<Rightarrow>
                (if up_default_channel u1 \<noteq> [] \<and> up_default_channel u1 \<notin> ch_name ` set channels
                 then Inl (UndeclaredDefault (path @ ''.default_channel'') (up_default_channel u1))
                 else Inr u1))))"

section \<open>Launch policies\<close>

definition has_template :: "string \<Rightarrow> bool" where
  "has_template v \<longleftrightarrow> contains ''{'' v \<or> contains ''}'' v"

definition normalize_env_action ::
  "string \<Rightarrow> nat \<times> env_action \<Rightarrow> (config_error, env_action) result" where
  "normalize_env_action path ia =
     (let p = at_index (path @ ''.environment'') (fst ia);
          a = (snd ia)\<lparr>env_act := trim_space (env_act (snd ia)),
                        env_key := trim_space (env_key (snd ia))\<rparr>
      in of_err (first_err
           [(env_act a \<noteq> ''set'' \<and> env_act a \<noteq> ''unset'', NotOneOf (p @ ''.action'')),
            (env_key a = [], Required (p @ ''.key'')),
            (env_value a \<noteq> [] \<and> has_template (env_value a), Unresolved (p @ ''.value''))]) a)"

definition normalize_arg_action ::
  "string \<Rightarrow> nat \<times> arg_action \<Rightarrow> (config_error, arg_action) result" where
  "normalize_arg_action path ia =
     (let p = at_index (path @ ''.arguments'') (fst ia);
          a = (snd ia)\<lparr>arg_act := trim_space (arg_act (snd ia)),
                        arg_value := trim_space (arg_value (snd ia))\<rparr>
      in of_err (first_err
           [(arg_act a \<noteq> ''append'' \<and> arg_act a \<noteq> ''prepend'', NotOneOf (p @ ''.action'')),
            (arg_value a = [], Required (p @ ''.value'')),
            (has_template (arg_value a), Unresolved (p @ ''.value''))]) a)"

definition normalize_preflight ::
  "go_env \<Rightarrow> string \<Rightarrow> nat \<times> preflight_spec \<Rightarrow> (config_error, preflight_spec) result" where
  "normalize_preflight env path ia =
     (let p = at_index (path @ ''.preflights'') (fst ia);
          f = (snd ia)\<lparr>pf_kind := trim_space (pf_kind (snd ia)),
                        pf_path := clean_expanded_path env (trim_space (pf_path (snd ia))),
                        pf_host := trim_space (pf_host (snd ia))\<rparr>
      in of_err (first_err
           (if pf_kind f = ''file_exists'' then
              [(pf_path f = [], Required (p @ ''.path'')),
               (has_template (pf_path f), Unresolved (p @ ''.path''))]
            else if pf_kind f = ''tcp_reachable'' then
              [(pf_host f = [], Required (p @ ''.host'')),
               (pf_port f < 1 \<or> pf_port f > 65535, OutOfRange (p @ ''.port'')),
               (pf_timeout f < 1, NotPositive (p @ ''.timeout_ms''))]
            else [(True, NotOneOf (p @ ''.kind''))])) f)"

definition normalize_launch_policy ::
  "go_env \<Rightarrow> string \<Rightarrow> launch_policy_spec \<Rightarrow> (config_error, launch_policy_spec) result" where
  "normalize_launch_policy env path p0 =
     (let p = p0\<lparr>lp_proxy_host := trim_space (lp_proxy_host p0),
                 lp_ca_certificate := clean_expanded_path env (trim_space (lp_ca_certificate p0)),
                 lp_no_proxy := trim_space (lp_no_proxy p0),
                 lp_working_dir := clean_expanded_path env (trim_space (lp_working_dir p0)),
                 lp_ignore_signal := trim_space (lp_ignore_signal p0)\<rparr>
      in rbind (of_err (first_err
             [(lp_proxy_host p = [], Required (path @ ''.proxy_host'')),
              (lp_proxy_port p < 1 \<or> lp_proxy_port p > 65535, OutOfRange (path @ ''.proxy_port'')),
              (lp_ca_certificate p = [], Required (path @ ''.ca_certificate'')),
              (\<not> is_abs (lp_ca_certificate p), NotAbsolute (path @ ''.ca_certificate'')),
              (lp_no_proxy p = [], Required (path @ ''.no_proxy'')),
              (lp_working_dir p = [], Required (path @ ''.launch_working_directory'')),
              (\<not> is_abs (lp_working_dir p), NotAbsolute (path @ ''.launch_working_directory''))]) ())
         (\<lambda>_. rbind (mapM (normalize_env_action path) (indexed (lp_environment p)))
         (\<lambda>es. rbind (mapM (normalize_arg_action path) (indexed (lp_arguments p)))
         (\<lambda>as. rbind (mapM (normalize_preflight env path) (indexed (lp_preflights p)))
         (\<lambda>fs. Inr (p\<lparr>lp_environment := es, lp_arguments := as, lp_preflights := fs\<rparr>))))))"

section \<open>Daemon deferral of a CLI\<close>

definition normalize_weekdays :: "string list \<Rightarrow> string list" where
  "normalize_weekdays vs = filter (\<lambda>v. v \<noteq> []) (map (\<lambda>v. to_lower (trim_space v)) vs)"

definition weekday_names :: "string list" where
  "weekday_names = [''sunday'', ''monday'', ''tuesday'', ''wednesday'', ''thursday'', ''friday'',
     ''saturday'']"

definition valid_deferral_time :: "string \<Rightarrow> bool" where
  "valid_deferral_time v \<longleftrightarrow> parse_hhmm v \<noteq> None"

definition normalize_deferral ::
  "string \<Rightarrow> cli_deferral_spec \<Rightarrow> (config_error, cli_deferral_spec) result" where
  "normalize_deferral path d0 =
     (let d = d0\<lparr>df_start := trim_space (df_start d0), df_end := trim_space (df_end d0),
                 df_weekdays := normalize_weekdays (df_weekdays d0)\<rparr>
      in if \<not> df_enabled d then Inr d
         else of_err (first_err (
           [(f64_le (df_threshold d) (Fin 0), NotPositive (path @ ''.load_threshold_per_cpu'')),
            (f64_le (df_work_threshold d) (Fin 0),
               NotPositive (path @ ''.work_hours_load_threshold_per_cpu'')),
            (f64_lt (df_threshold d) (df_work_threshold d),
               ExceedsBase (path @ ''.work_hours_load_threshold_per_cpu'')),
            (\<not> valid_deferral_time (df_start d), NotHHMM (path @ ''.work_hours_start'')),
            (\<not> valid_deferral_time (df_end d), NotHHMM (path @ ''.work_hours_end'')),
            (df_start d = df_end d, SameWindow (path @ ''.work_hours_start'')),
            (df_weekdays d = [], Required (path @ ''.work_hours_weekdays''))]
           @ map (\<lambda>w. (w \<notin> set weekday_names, UnknownWeekday (path @ ''.work_hours_weekdays'') w))
               (df_weekdays d))) d)"

end
