(* ===== verification/Config_Apps.thy ===== *)
theory Config_Apps
  imports Config_Load
begin

text \<open>
  The second half of \<open>internal/config/load.go\<close>: apps, CLIs, the signing requirement
  and the whole configuration; with the extension normalisers and validators of
  \<open>internal/extensions/extensions.go\<close>. The capability sets of the catalogue and the
  registered extension validators are arguments.
\<close>

record capability_sets =
  cap_operations :: "string set"
  cap_patch_hooks :: "string set"
  cap_prelaunch_hooks :: "string set"

section \<open>Extensions\<close>

definition normalize_entitlements :: "entitlements_spec \<Rightarrow> entitlements_spec" where
  "normalize_entitlements x = x\<lparr>ent_strip := normalize_string_slice (ent_strip x),
     ent_required := normalize_string_slice (ent_required x)\<rparr>"

definition normalize_computer_use :: "go_env \<Rightarrow> computer_use_spec \<Rightarrow> computer_use_spec" where
  "normalize_computer_use env p = p\<lparr>
     cu_host_app_path := clean_expanded_path env (trim_space (cu_host_app_path p)),
     cu_bundled_app_path := trim_space (cu_bundled_app_path p),
     cu_app_path_from_home := trim_space (cu_app_path_from_home p),
     cu_cache_globs := normalize_string_slice (cu_cache_globs p),
     cu_auth_plugin_path := clean_expanded_path env (trim_space (cu_auth_plugin_path p)),
     cu_auth_plugin_exec := trim_space (cu_auth_plugin_exec p),
     cu_upstream_team := trim_space (cu_upstream_team p),
     cu_team_patch_binaries := normalize_string_slice (cu_team_patch_binaries p),
     cu_team_plists := normalize_string_slice (cu_team_plists p),
     cu_sign_targets := map (\<lambda>t. t\<lparr>st_path := trim_space (st_path t),
         st_entitlements := normalize_entitlements (st_entitlements t)\<rparr>) (cu_sign_targets p)\<rparr>"

definition normalize_tee :: "go_env \<Rightarrow> bundled_cli_tee_spec \<Rightarrow> bundled_cli_tee_spec" where
  "normalize_tee env t = t\<lparr>
     tee_capability := trim_space (tee_capability t),
     tee_app_support_dir :=
       clean_expanded_path env (render_path_tokens env (trim_space (tee_app_support_dir t))),
     tee_version_dir := trim_space (tee_version_dir t),
     tee_bundled_cli_rel := trim_space (tee_bundled_cli_rel t),
     tee_bundled_cli_path :=
       clean_expanded_path env (render_path_tokens env (trim_space (tee_bundled_cli_path t))),
     tee_terminate_names := normalize_string_slice (tee_terminate_names t),
     tee_terminate_patterns := normalize_string_slice (tee_terminate_patterns t),
     tee_completion_steps := normalize_string_slice (tee_completion_steps t)\<rparr>"

definition normalize_codex :: "codex_cli_shim_spec \<Rightarrow> codex_cli_shim_spec" where
  "normalize_codex x = x\<lparr>cx_capability := trim_space (cx_capability x),
     cx_base_url := trim_space (cx_base_url x)\<rparr>"

definition normalize_extensions :: "go_env \<Rightarrow> app_extensions \<Rightarrow> app_extensions" where
  "normalize_extensions env x = x\<lparr>
     ext_computer_use := map_option (normalize_computer_use env) (ext_computer_use x),
     ext_tee := map_option (normalize_tee env) (ext_tee x),
     ext_codex := map_option normalize_codex (ext_codex x)\<rparr>"

type_synonym app_validator = "string \<Rightarrow> app_extensions \<Rightarrow> config_error option"

definition validate_tee :: "capability_sets \<Rightarrow> app_validator" where
  "validate_tee caps path x =
     (case ext_tee x of None \<Rightarrow> None
      | Some t \<Rightarrow> (let p = path @ ''.bundled_cli_tee'' in first_err
          [(tee_capability t = [], Required (p @ ''.capability'')),
           (tee_capability t \<notin> cap_patch_hooks caps,
              UnknownCapability (p @ ''.capability'') (tee_capability t)),
           (tee_bundled_cli_path t = [] \<and> tee_app_support_dir t = [],
              Required (p @ ''.app_support_dir'')),
           (tee_bundled_cli_path t = [] \<and> tee_bundled_cli_rel t = [],
              Required (p @ ''.bundled_cli_rel'')),
           (tee_app_support_dir t \<noteq> [] \<and> \<not> is_abs (tee_app_support_dir t),
              NotAbsolute (p @ ''.app_support_dir'')),
           (tee_bundled_cli_path t \<noteq> [] \<and> \<not> is_abs (tee_bundled_cli_path t),
              NotAbsolute (p @ ''.bundled_cli_path''))]))"

definition validate_codex :: "capability_sets \<Rightarrow> app_validator" where
  "validate_codex caps path x =
     (case ext_codex x of None \<Rightarrow> None
      | Some c \<Rightarrow> (let p = path @ ''.codex_cli_shim'' in first_err
          [(cx_capability c = [], Required (p @ ''.capability'')),
           (cx_capability c \<notin> cap_prelaunch_hooks caps,
              UnknownCapability (p @ ''.capability'') (cx_capability c)),
           (cx_base_url c = [], Required (p @ ''.chatgpt_base_url'')),
           (contains ''{'' (cx_base_url c) \<or> contains ''}'' (cx_base_url c),
              Unresolved (p @ ''.chatgpt_base_url''))]))"

definition validate_computer_use :: app_validator where
  "validate_computer_use path x =
     (case ext_computer_use x of None \<Rightarrow> None
      | Some u \<Rightarrow> (let p = path @ ''.computer_use'' in first_err (
          [(cu_host_app_path u = [], Required (p @ ''.host_app_path'')),
           (cu_bundled_app_path u = [], Required (p @ ''.bundled_app_path'')),
           (cu_app_path_from_home u = [], Required (p @ ''.app_path_from_home'')),
           (cu_auth_plugin_path u = [], Required (p @ ''.auth_plugin_path'')),
           (\<not> is_abs (cu_auth_plugin_path u), NotAbsolute (p @ ''.auth_plugin_path'')),
           (cu_auth_plugin_exec u = [], Required (p @ ''.auth_plugin_executable'')),
           (cu_upstream_team u = [], Required (p @ ''.upstream_trusted_team_id''))]
          @ map (\<lambda>(i, t). (st_path t = [], Required (at_index (p @ ''.sign_targets'') i @ ''.path'')))
              (indexed (cu_sign_targets u)))))"

text \<open>
  \<open>ValidateApp\<close>: the registered validators in sorted name order; the first error wins.
\<close>

definition validate_app_ext :: "app_validator gomap \<Rightarrow> app_validator" where
  "validate_app_ext validators path x =
     (let errs = map (\<lambda>n. (the (map_of validators n)) path x) (sorted_keys validators)
      in case find (\<lambda>r. r \<noteq> None) errs of None \<Rightarrow> None | Some r \<Rightarrow> r)"

section \<open>Apps and CLIs\<close>

definition normalize_command :: "command_spec \<Rightarrow> command_spec" where
  "normalize_command c = c\<lparr>cmd_use := trim_space (cmd_use c), cmd_short := trim_space (cmd_short c),
     cmd_long := trim_space (cmd_long c), cmd_aliases := normalize_string_slice (cmd_aliases c)\<rparr>"

definition normalize_devsign ::
  "go_env \<Rightarrow> development_signing_spec \<Rightarrow> development_signing_spec" where
  "normalize_devsign env d = d\<lparr>
     ds_profile_path := clean_expanded_path env (trim_space (ds_profile_path d)),
     ds_p12_path := clean_expanded_path env (trim_space (ds_p12_path d)),
     ds_p12_password_file := clean_expanded_path env (trim_space (ds_p12_password_file d)),
     ds_injector_path := clean_expanded_path env (trim_space (ds_injector_path d))\<rparr>"

definition trim_app :: "go_env \<Rightarrow> app_spec \<Rightarrow> app_spec" where
  "trim_app env a = a\<lparr>
     app_path := clean_expanded_path env (trim_space (app_path a)),
     app_profile := clean_expanded_path env (trim_space (app_profile a)),
     app_bundle_id := trim_space (app_bundle_id a),
     app_aliases := normalize_string_slice (app_aliases a),
     app_helpers := normalize_string_slice (app_helpers a),
     app_exec_name := trim_space (app_exec_name a),
     app_keychain := normalize_string_slice (app_keychain a),
     app_nested := normalize_string_slice (app_nested a),
     app_preserved := normalize_string_slice (app_preserved a),
     app_entitlements := normalize_entitlements (app_entitlements a),
     app_devsign := normalize_devsign env (app_devsign a)\<rparr>"

definition normalize_app ::
  "go_env \<Rightarrow> capability_sets \<Rightarrow> app_validator gomap \<Rightarrow> string \<Rightarrow> app_spec \<Rightarrow>
     (config_error, app_spec) result" where
  "normalize_app env caps validators key a0 =
     (let aid = trim_space key; path = ''apps.'' @ aid;
          a1 = a0\<lparr>app_id := aid, app_command := normalize_command (app_command a0)\<rparr>
      in rbind (of_err (first_err
             [(aid = [], EmptyId ''apps''),
              (cmd_use (app_command a1) = [], Required (path @ ''.command.use''))]) ())
         (\<lambda>_. rbind (normalize_operations env (cap_operations caps) (path @ ''.operations'') (app_operations a1))
         (\<lambda>ops. let a2 = trim_app env (a1\<lparr>app_operations := ops\<rparr>) in
            rbind (of_err (first_err
              [(app_path a2 = [], Required (path @ ''.app_path'')),
               (app_bundle_id a2 = [], Required (path @ ''.bundle_id'')),
               (app_exec_name a2 = [], Required (path @ ''.exec_name''))]) ())
            (\<lambda>_. rbind (normalize_updater (path @ ''.updater'') (app_updater a2))
            (\<lambda>up. let ext = normalize_extensions env (app_ext a2) in
               rbind (of_err (validate_app_ext validators path ext) ())
               (\<lambda>_. rbind (normalize_launch_policy env (path @ ''.launch_policy'') (app_launch a2))
               (\<lambda>lp. Inr (a2\<lparr>app_updater := up, app_ext := ext, app_launch := lp\<rparr>)))))))) "

definition normalize_cli ::
  "go_env \<Rightarrow> capability_sets \<Rightarrow> string \<Rightarrow> cli_spec \<Rightarrow> (config_error, cli_spec) result" where
  "normalize_cli env caps key c0 =
     (let cid = trim_space key; path = ''clis.'' @ cid;
          c1 = c0\<lparr>cli_id := cid, cli_command := normalize_command (cli_command c0)\<rparr>
      in rbind (of_err (first_err
             [(cid = [], EmptyId ''clis''),
              (trim_space (cmd_use (cli_command c1)) = [], Required (path @ ''.command.use''))]) ())
         (\<lambda>_. rbind (normalize_operations env (cap_operations caps) (path @ ''.operations'') (cli_operations c1))
         (\<lambda>ops. rbind (normalize_deferral (path @ ''.daemon_deferral'') (cli_deferral c1))
         (\<lambda>d. Inr (c1\<lparr>cli_operations := ops, cli_deferral := d\<rparr>)))))"

section \<open>Signing requirement and the whole configuration\<close>

definition config_requires_signing :: "go_config \<Rightarrow> bool" where
  "config_requires_signing cfg \<longleftrightarrow>
     list_ex (\<lambda>(k, a). ds_enabled (app_devsign a) \<or>
        list_ex (\<lambda>(j, op). trim_space (op_capability op) = ''app.patch'' \<or>
                           trim_space (op_capability op) = ''app.upgrade'') (app_operations a))
       (cfg_apps cfg) \<or>
     list_ex (\<lambda>(k, c).
        list_ex (\<lambda>(j, op). trim_space (op_capability op) = ''standalone-cli.install'')
          (cli_operations c)) (cfg_clis cfg)"

definition validate_signing_requirements :: "go_config \<Rightarrow> config_error option" where
  "validate_signing_requirements cfg =
     (if config_requires_signing cfg
      then first_err [(cfg_identity cfg = [], Required ''signing.identity''),
                      (cfg_team_id cfg = [], Required ''signing.team_id'')]
      else first_err
        [(cfg_identity cfg \<noteq> [] \<and> cfg_team_id cfg = [], Required ''signing.team_id''),
         (cfg_team_id cfg \<noteq> [] \<and> cfg_identity cfg = [], Required ''signing.identity'')])"

definition normalize_and_validate ::
  "go_env \<Rightarrow> capability_sets \<Rightarrow> app_validator gomap \<Rightarrow> go_config \<Rightarrow>
     (config_error, go_config) result" where
  "normalize_and_validate env caps validators cfg0 =
     (let cfg = cfg0\<lparr>cfg_identity := trim_space (cfg_identity cfg0),
                     cfg_team_id := trim_space (cfg_team_id cfg0)\<rparr>
      in if cfg_apps cfg = [] \<and> cfg_clis cfg = [] then Inl NothingDeclared
         else rbind (of_err (validate_signing_requirements cfg) ())
           (\<lambda>_. rbind (normalize_map (normalize_app env caps validators) (cfg_apps cfg))
           (\<lambda>apps. rbind (normalize_map (normalize_cli env caps) (cfg_clis cfg))
           (\<lambda>clis. Inr (cfg\<lparr>cfg_apps := apps, cfg_clis := clis\<rparr>)))))"

section \<open>What a loaded configuration satisfies\<close>

lemma normalize_map_Inr:
  assumes "normalize_map f m = Inr m'"
  shows "go_keys m' = sorted_keys m"
    and "(k, v) \<in> set m' \<Longrightarrow> k \<in> fst ` set m \<and> f k (the (map_of m k)) = Inr v"
proof -
  from assms obtain vs where vs: "mapM (\<lambda>k. f k (the (map_of m k))) (sorted_keys m) = Inr vs"
    and m': "m' = zip (sorted_keys m) vs"
    by (auto simp: normalize_map_def guard_simps)
  have len: "length vs = length (sorted_keys m)"
    using mapM_length [OF vs] .
  then show "go_keys m' = sorted_keys m" using m' by simp
  assume "(k, v) \<in> set m'"
  then obtain i where i: "i < length vs" "k = sorted_keys m ! i" "v = vs ! i"
    using m' len by (auto simp: in_set_zip)
  with vs len have "f k (the (map_of m k)) = Inr v"
    by (simp add: mapM_Inr_iff list_all2_conv_all_nth)
  moreover have "k \<in> set (sorted_keys m)" using i(1,2) len nth_mem by metis
  ultimately show "k \<in> fst ` set m \<and> f k (the (map_of m k)) = Inr v" by simp
qed

lemma normalize_map_ok: "normalize_map f m = Inr m' \<Longrightarrow> go_map_ok m \<Longrightarrow> go_map_ok m'"
  using normalize_map_Inr(1) [of f m m'] by (simp add: go_map_ok_def sorted_keys_def)

text \<open>The result of a map loop does not depend on the iteration order of the map.\<close>

lemma normalize_map_perm:
  "go_map_ok m \<Longrightarrow> mset m = mset m' \<Longrightarrow> normalize_map f m = normalize_map f m'"
  using map_of_perm [of m m'] sorted_keys_perm [of m m'] by (simp add: normalize_map_def)

end
