(* ===== verification/Config_Facts.thy ===== *)
theory Config_Facts
  imports Config_Apps
begin

text \<open>
  What the loader guarantees of a configuration it accepts, part by part: flags,
  operations, updaters, launch policies, deferrals, and the configuration as a whole.
\<close>

section \<open>Flags and operations\<close>

definition flag_ok :: "flag_spec \<Rightarrow> bool" where
  "flag_ok f \<longleftrightarrow> fl_name f \<noteq> [] \<and> fl_binding f \<noteq> [] \<and>
     (fl_type f = flag_type_bool \<and> fl_default_bool f \<noteq> None \<and> fl_default_string f = [] \<or>
      fl_type f = flag_type_string \<and> fl_default_bool f = None)"

lemma normalize_flag_ok: "normalize_flag env path i f = Inr n \<Longrightarrow> flag_ok n"
  by (auto simp: normalize_flag_def flag_ok_def Let_def flag_type_bool_def flag_type_string_def
      split: if_splits option.splits)

lemma normalize_flags_spec:
  "normalize_flags env path oid i seenF seenB fs = Inr ns \<Longrightarrow>
     list_all flag_ok ns \<and> length ns = length fs \<and>
     distinct (map fl_name ns) \<and> set (map fl_name ns) \<inter> set seenF = {} \<and>
     distinct (map fl_binding ns) \<and> set (map fl_binding ns) \<inter> set seenB = {}"
proof (induction env path oid i seenF seenB fs arbitrary: ns rule: normalize_flags.induct)
  case (1 env path oid i seenF seenB)
  then show ?case by simp
next
  case (2 env path oid i seenF seenB f fs)
  from 2(2) obtain n ns' where n: "normalize_flag env (path @ ''.'' @ oid) i f = Inr n"
    and new: "fl_name n \<notin> set seenF" "fl_binding n \<notin> set seenB"
    and rest: "normalize_flags env path oid (Suc i) (fl_name n # seenF) (fl_binding n # seenB) fs = Inr ns'"
    and ns: "ns = n # ns'"
    by (auto split: sum.splits if_splits)
  from 2(1) [OF n new rest] normalize_flag_ok [OF n] new ns
  show ?case by auto
qed

definition operation_ok :: "string set \<Rightarrow> operation_spec \<Rightarrow> bool" where
  "operation_ok caps op \<longleftrightarrow> op_use op \<noteq> [] \<and> op_capability op \<in> caps \<and>
     list_all flag_ok (op_flags op) \<and> distinct (map fl_name (op_flags op)) \<and>
     distinct (map fl_binding (op_flags op))"

lemma normalize_operation_ok:
  assumes "normalize_operation env caps path oid op = Inr op'"
  shows "operation_ok caps op' \<and> op_id op' = trim_space oid \<and>
         op_capability op' = trim_space (op_capability op)"
  using assms
  by (auto simp: normalize_operation_def Let_def guard_simps operation_ok_def
      dest!: normalize_flags_spec)

lemma normalize_operations_ok:
  assumes "normalize_operations env caps path ops = Inr ops'" and "(k, op') \<in> set ops'"
  shows "operation_ok caps op' \<and> k \<in> fst ` set ops \<and>
         op_capability op' = trim_space (op_capability (the (map_of ops k)))"
proof -
  from assms(1) have m: "normalize_map (normalize_operation env caps path) ops = Inr ops'"
    by (simp add: normalize_operations_def split: if_splits)
  from normalize_map_Inr(2) [OF m assms(2)] show ?thesis
    by (blast dest: normalize_operation_ok)
qed

lemma normalize_operations_keys:
  "normalize_operations env caps path ops = Inr ops' \<Longrightarrow> go_keys ops' = sorted_keys ops"
  by (auto simp: normalize_operations_def dest: normalize_map_Inr(1) split: if_splits)

section \<open>Updaters\<close>

definition updater_ok :: "updater_spec \<Rightarrow> bool" where
  "updater_ok u \<longleftrightarrow> up_kind u \<in> set updater_kinds \<and>
     (\<forall>c\<in>set (up_channels u). ch_name c \<noteq> [] \<and> trim_space (ch_name c) = ch_name c) \<and>
     distinct (map ch_name (up_channels u)) \<and>
     trim_space (up_default_channel u) = up_default_channel u \<and>
     (up_default_channel u \<noteq> [] \<longrightarrow> up_default_channel u \<in> ch_name ` set (up_channels u))"

lemma normalize_channels_spec:
  "normalize_channels path seen cs = Inr ns \<Longrightarrow>
     (\<forall>c\<in>set ns. ch_name c \<noteq> [] \<and> trim_space (ch_name c) = ch_name c) \<and>
     distinct (map ch_name ns) \<and> ch_name ` set ns \<inter> set seen = {}"
proof (induction path seen cs arbitrary: ns rule: normalize_channels.induct)
  case (1 path seen)
  then show ?case by simp
next
  case (2 path seen c0 cs)
  let ?c = "\<lparr>ch_name = trim_space (ch_name c0), ch_url = trim_space (ch_url c0)\<rparr>"
  from 2(2) obtain ns' where new: "ch_name ?c \<noteq> []" "ch_name ?c \<notin> set seen"
    and rest: "normalize_channels path (ch_name ?c # seen) cs = Inr ns'" and ns: "ns = ?c # ns'"
    by (auto simp: Let_def split: sum.splits if_splits)
  from 2(1) [OF refl new rest] new ns show ?case by auto
qed

lemma normalize_updater_ok:
  assumes "normalize_updater path u = Inr u'"
  shows "updater_ok u'"
proof -
  from assms obtain cs where cs: "normalize_channels path [] (up_channels u) = Inr cs"
    and kind: "up_kind (trim_updater u) \<in> set updater_kinds"
    and u': "u' = (trim_updater u)\<lparr>up_channels := cs\<rparr>"
    and def: "up_default_channel u' \<noteq> [] \<longrightarrow> up_default_channel u' \<in> ch_name ` set cs"
    by (auto simp: normalize_updater_def Let_def guard_simps trim_updater_def
        split: if_splits option.splits)
  have "trim_space (up_default_channel u') = up_default_channel u'"
    by (simp add: u' trim_updater_def)
  with normalize_channels_spec [OF cs] kind u' def show ?thesis
    by (simp add: updater_ok_def trim_updater_def)
qed

lemma updater_ok_resolves:
  assumes "updater_ok u"
  shows "\<exists>c. resolve_channel u [] = Inr c"
proof (cases "up_channels u")
  case Nil
  then show ?thesis by (simp add: resolve_channel_def supports_channels_def)
next
  case (Cons c cs)
  show ?thesis
  proof (cases "up_default_channel u = []")
    case True
    with Cons show ?thesis by (auto simp: resolve_channel_def supports_channels_def Let_def)
  next
    case False
    with assms Cons show ?thesis
      by (auto simp: resolve_channel_def supports_channels_def updater_ok_def Let_def)
  qed
qed

section \<open>Launch policies\<close>

definition env_action_ok :: "env_action \<Rightarrow> bool" where
  "env_action_ok a \<longleftrightarrow> env_act a \<in> {''set'', ''unset''} \<and> env_key a \<noteq> [] \<and> \<not> has_template (env_value a)"

definition arg_action_ok :: "arg_action \<Rightarrow> bool" where
  "arg_action_ok a \<longleftrightarrow> arg_act a \<in> {''append'', ''prepend''} \<and> arg_value a \<noteq> [] \<and>
     \<not> has_template (arg_value a)"

definition preflight_ok :: "preflight_spec \<Rightarrow> bool" where
  "preflight_ok f \<longleftrightarrow>
     pf_kind f = ''file_exists'' \<and> pf_path f \<noteq> [] \<and> \<not> has_template (pf_path f) \<or>
     pf_kind f = ''tcp_reachable'' \<and> pf_host f \<noteq> [] \<and> 1 \<le> pf_port f \<and> pf_port f \<le> 65535 \<and>
       1 \<le> pf_timeout f"

definition launch_policy_ok :: "launch_policy_spec \<Rightarrow> bool" where
  "launch_policy_ok p \<longleftrightarrow>
     lp_proxy_host p \<noteq> [] \<and> 1 \<le> lp_proxy_port p \<and> lp_proxy_port p \<le> 65535 \<and>
     is_abs (lp_ca_certificate p) \<and> is_abs (lp_working_dir p) \<and> lp_no_proxy p \<noteq> [] \<and>
     list_all env_action_ok (lp_environment p) \<and> list_all arg_action_ok (lp_arguments p) \<and>
     list_all preflight_ok (lp_preflights p)"

lemma has_template_Nil [simp]: "\<not> has_template []"
  by (simp add: has_template_def)

lemma mapM_all:
  assumes "mapM f xs = Inr ys" and "\<And>x y. f x = Inr y \<Longrightarrow> P y"
  shows "list_all P ys"
  using assms by (auto simp: list_all_iff elim: mapM_elem)

lemma normalize_env_action_ok: "normalize_env_action path ia = Inr a \<Longrightarrow> env_action_ok a"
  by (cases ia) (auto simp: normalize_env_action_def Let_def guard_simps env_action_ok_def)

lemma normalize_arg_action_ok: "normalize_arg_action path ia = Inr a \<Longrightarrow> arg_action_ok a"
  by (cases ia) (auto simp: normalize_arg_action_def Let_def guard_simps arg_action_ok_def)

lemma normalize_preflight_ok: "normalize_preflight env path ia = Inr f \<Longrightarrow> preflight_ok f"
  by (cases ia)
     (auto simp: normalize_preflight_def Let_def guard_simps preflight_ok_def split: if_splits)

lemma normalize_launch_policy_ok:
  assumes "normalize_launch_policy env path p = Inr p'"
  shows "launch_policy_ok p'"
  using assms
  by (auto simp: normalize_launch_policy_def Let_def guard_simps launch_policy_ok_def
      intro: mapM_all normalize_env_action_ok normalize_arg_action_ok normalize_preflight_ok)

section \<open>Deferrals\<close>

definition deferral_ok :: "cli_deferral_spec \<Rightarrow> bool" where
  "deferral_ok d \<longleftrightarrow> (df_enabled d \<longrightarrow>
     \<not> f64_le (df_threshold d) (Fin 0) \<and> \<not> f64_le (df_work_threshold d) (Fin 0) \<and>
     \<not> f64_lt (df_threshold d) (df_work_threshold d) \<and>
     parse_hhmm (df_start d) \<noteq> None \<and> parse_hhmm (df_end d) \<noteq> None \<and> df_start d \<noteq> df_end d \<and>
     df_weekdays d \<noteq> [] \<and> set (df_weekdays d) \<subseteq> set weekday_names)"

lemma normalize_deferral_ok: "normalize_deferral path d = Inr d' \<Longrightarrow> deferral_ok d'"
  by (auto simp: normalize_deferral_def Let_def guard_simps deferral_ok_def valid_deferral_time_def
      split: if_splits)

section \<open>The whole configuration\<close>

definition app_ok :: "capability_sets \<Rightarrow> app_spec \<Rightarrow> bool" where
  "app_ok caps a \<longleftrightarrow> app_id a \<noteq> [] \<and> app_path a \<noteq> [] \<and> app_bundle_id a \<noteq> [] \<and> app_exec_name a \<noteq> [] \<and>
     app_operations a \<noteq> [] \<and>
     (\<forall>(k, op)\<in>set (app_operations a). operation_ok (cap_operations caps) op) \<and>
     updater_ok (app_updater a) \<and> launch_policy_ok (app_launch a)"

definition cli_ok :: "capability_sets \<Rightarrow> cli_spec \<Rightarrow> bool" where
  "cli_ok caps c \<longleftrightarrow> cli_id c \<noteq> [] \<and> cli_operations c \<noteq> [] \<and>
     (\<forall>(k, op)\<in>set (cli_operations c). operation_ok (cap_operations caps) op) \<and>
     deferral_ok (cli_deferral c)"

lemma normalize_operations_nonempty:
  assumes "normalize_operations env caps path ops = Inr ops'"
  shows "ops' \<noteq> []"
proof -
  from assms have "ops \<noteq> []" by (auto simp: normalize_operations_def)
  then have "sorted_keys ops \<noteq> []"
    by (metis length_0_conv length_map length_sort sorted_keys_def)
  with normalize_operations_keys [OF assms] show ?thesis by auto
qed

lemma normalize_app_ok:
  assumes "normalize_app env caps validators key a = Inr a'"
  shows "app_ok caps a'" and "app_id a' = trim_space key"
proof -
  from assms obtain ops up lp ext where
      ops: "normalize_operations env (cap_operations caps) (''apps.'' @ trim_space key @ ''.operations'')
              (app_operations a) = Inr ops"
    and up: "normalize_updater (''apps.'' @ trim_space key @ ''.updater'') (app_updater a) = Inr up"
    and lp: "normalize_launch_policy env (''apps.'' @ trim_space key @ ''.launch_policy'')
              (app_launch a) = Inr lp"
    and ne: "trim_space key \<noteq> []" "app_path a' \<noteq> []" "app_bundle_id a' \<noteq> []" "app_exec_name a' \<noteq> []"
    and a': "app_id a' = trim_space key" "app_operations a' = ops" "app_updater a' = up"
      "app_launch a' = lp"
    by (auto simp: normalize_app_def Let_def guard_simps trim_app_def)
  from a'(1) show "app_id a' = trim_space key" .
  have "\<forall>(k, op)\<in>set ops. operation_ok (cap_operations caps) op"
    using normalize_operations_ok [OF ops] by blast
  then show "app_ok caps a'"
    using ne a' normalize_operations_nonempty [OF ops] normalize_updater_ok [OF up]
      normalize_launch_policy_ok [OF lp]
    by (simp add: app_ok_def)
qed

lemma normalize_cli_ok:
  assumes "normalize_cli env caps key c = Inr c'"
  shows "cli_ok caps c'"
proof -
  from assms obtain ops d where
      ops: "normalize_operations env (cap_operations caps) (''clis.'' @ trim_space key @ ''.operations'')
              (cli_operations c) = Inr ops"
    and d: "normalize_deferral (''clis.'' @ trim_space key @ ''.daemon_deferral'') (cli_deferral c) = Inr d"
    and c': "trim_space key \<noteq> []" "cli_id c' = trim_space key" "cli_operations c' = ops"
      "cli_deferral c' = d"
    by (auto simp: normalize_cli_def Let_def guard_simps)
  have "\<forall>(k, op)\<in>set ops. operation_ok (cap_operations caps) op"
    using normalize_operations_ok [OF ops] by blast
  with c' normalize_operations_nonempty [OF ops] normalize_deferral_ok [OF d]
  show ?thesis by (simp add: cli_ok_def)
qed

lemma normalize_and_validate_parts:
  assumes "normalize_and_validate env caps validators cfg = Inr cfg'"
  shows "normalize_map (normalize_app env caps validators) (cfg_apps cfg) = Inr (cfg_apps cfg')"
    and "normalize_map (normalize_cli env caps) (cfg_clis cfg) = Inr (cfg_clis cfg')"
    and "validate_signing_requirements (cfg\<lparr>cfg_identity := cfg_identity cfg',
           cfg_team_id := cfg_team_id cfg'\<rparr>) = None"
  using assms by (auto simp: normalize_and_validate_def Let_def guard_simps split: if_splits)

end
