(* ===== verification/Config_Props.thy ===== *)
theory Config_Props
  imports Config_Facts
begin

text \<open>
  The contract of \<open>config.LoadPath\<close> after decoding, stated over the whole loaded
  configuration, and the small configuration the concrete instances run on.
\<close>

section \<open>Signing survives normalisation\<close>

lemma normalize_operations_capability:
  assumes "normalize_operations env caps path ops = Inr ops'" and "(k, op') \<in> set ops'"
  obtains op where "(k, op) \<in> set ops" and "op_capability op' = trim_space (op_capability op)"
proof -
  from normalize_operations_ok [OF assms]
  have k: "k \<in> fst ` set ops"
    and cap: "op_capability op' = trim_space (op_capability (the (map_of ops k)))" by auto
  from k obtain op where "map_of ops k = Some op"
    by (metis map_of_eq_None_iff option.exhaust)
  then show thesis using cap that map_of_SomeD by fastforce
qed

lemma normalize_app_origin:
  assumes "normalize_app env caps validators key a = Inr a'"
  shows "ds_enabled (app_devsign a') = ds_enabled (app_devsign a)"
    and "normalize_operations env (cap_operations caps) (''apps.'' @ trim_space key @ ''.operations'')
           (app_operations a) = Inr (app_operations a')"
  using assms
  by (auto simp: normalize_app_def Let_def guard_simps trim_app_def normalize_devsign_def)

lemma normalize_cli_origin:
  assumes "normalize_cli env caps key c = Inr c'"
  shows "normalize_operations env (cap_operations caps) (''clis.'' @ trim_space key @ ''.operations'')
           (cli_operations c) = Inr (cli_operations c')"
  using assms by (auto simp: normalize_cli_def Let_def guard_simps)

lemma requires_signing_preserved:
  assumes apps: "normalize_map (normalize_app env caps validators) (cfg_apps cfg) = Inr (cfg_apps cfg')"
    and clis: "normalize_map (normalize_cli env caps) (cfg_clis cfg) = Inr (cfg_clis cfg')"
    and req: "config_requires_signing cfg'"
  shows "config_requires_signing cfg"
proof -
  have app: "\<exists>a. (k, a) \<in> set (cfg_apps cfg) \<and> normalize_app env caps validators k a = Inr a'"
    if "(k, a') \<in> set (cfg_apps cfg')" for k a'
    using normalize_map_Inr(2) [OF apps that]
    by (metis map_of_SomeD map_of_eq_None_iff option.exhaust_sel)
  have cli_src: "\<exists>c. (k, c) \<in> set (cfg_clis cfg) \<and> normalize_cli env caps k c = Inr c'"
    if "(k, c') \<in> set (cfg_clis cfg')" for k c'
    using normalize_map_Inr(2) [OF clis that]
    by (metis map_of_SomeD map_of_eq_None_iff option.exhaust_sel)
  from req consider
      (dev) k a' where "(k, a') \<in> set (cfg_apps cfg')" "ds_enabled (app_devsign a')"
    | (op) k a' j op where "(k, a') \<in> set (cfg_apps cfg')" "(j, op) \<in> set (app_operations a')"
        "trim_space (op_capability op) \<in> {''app.patch'', ''app.upgrade''}"
    | (cli) k c' j op where "(k, c') \<in> set (cfg_clis cfg')" "(j, op) \<in> set (cli_operations c')"
        "trim_space (op_capability op) = ''standalone-cli.install''"
    by (auto simp: config_requires_signing_def list_ex_iff)
  then show ?thesis
  proof cases
    case dev
    with app [OF dev(1)] normalize_app_origin(1) show ?thesis
      by (fastforce simp: config_requires_signing_def list_ex_iff)
  next
    case op
    from app [OF op(1)] obtain a where a: "(k, a) \<in> set (cfg_apps cfg)"
      "normalize_app env caps validators k a = Inr a'" by blast
    from normalize_operations_capability [OF normalize_app_origin(2) [OF a(2)] op(2)]
    obtain o' where "(j, o') \<in> set (app_operations a)"
      "op_capability op = trim_space (op_capability o')" by blast
    with a(1) op(3) show ?thesis
      by (fastforce simp: config_requires_signing_def list_ex_iff)
  next
    case cli
    from \<open>(k, c') \<in> set (cfg_clis cfg')\<close> obtain c where c: "(k, c) \<in> set (cfg_clis cfg)"
      "normalize_cli env caps k c = Inr c'" using cli_src by blast
    from normalize_operations_capability [OF normalize_cli_origin [OF c(2)] cli(2)]
    obtain o' where "(j, o') \<in> set (cli_operations c)"
      "op_capability op = trim_space (op_capability o')" by blast
    with c(1) cli(3) show ?thesis
      by (fastforce simp: config_requires_signing_def list_ex_iff)
  qed
qed

section \<open>A small configuration\<close>

definition sample_env :: go_env where
  "sample_env = \<lparr>env_home = ''/Users/ann'', env_xdg_config = [], env_xdg_state = [],
     env_xdg_cache = []\<rparr>"

definition sample_caps :: capability_sets where
  "sample_caps = \<lparr>cap_operations = {''app.patch'', ''app.upgrade'', ''standalone-cli.install''},
     cap_patch_hooks = {}, cap_prelaunch_hooks = {}\<rparr>"

definition sample_command :: command_spec where
  "sample_command = \<lparr>cmd_use = '' demo '', cmd_aliases = [], cmd_short = [], cmd_long = [],
     cmd_hidden = False\<rparr>"

definition sample_flag :: flag_spec where
  "sample_flag = \<lparr>fl_name = ''dry-run'', fl_binding = [], fl_type = ''bool'', fl_usage = [],
     fl_default_string = [], fl_default_bool = None, fl_expand_path = False, fl_hidden = False\<rparr>"

definition sample_operation :: "string \<Rightarrow> operation_spec" where
  "sample_operation cap = \<lparr>op_id = [], op_use = ''go'', op_aliases = [], op_short = [], op_long = [],
     op_hidden = False, op_capability = cap, op_flags = [sample_flag]\<rparr>"

definition sample_updater :: updater_spec where
  "sample_updater = \<lparr>up_kind = ''sparkle_appcast'', up_url = [], up_url_template = [],
     up_user_agent = ''ua'', up_platform = [], up_product = [], up_sparkle_key = ''k'',
     up_minisign_key = [], up_device_id_param = [], up_default_channel = ''beta'',
     up_channels = [\<lparr>ch_name = ''stable'', ch_url = ''https://s''\<rparr>,
                    \<lparr>ch_name = '' beta'', ch_url = ''https://b''\<rparr>]\<rparr>"

definition sample_launch :: launch_policy_spec where
  "sample_launch = \<lparr>lp_proxy_host = ''localhost'', lp_proxy_port = 8080,
     lp_ca_certificate = ''~/ca.pem'', lp_no_proxy = ''*.local'', lp_working_dir = ''/tmp/'',
     lp_ignore_signal = [],
     lp_environment = [\<lparr>env_act = ''set'', env_key = ''A'', env_value = ''b''\<rparr>],
     lp_arguments = [\<lparr>arg_act = ''append'', arg_value = ''--x''\<rparr>],
     lp_preflights = [\<lparr>pf_kind = ''tcp_reachable'', pf_path = [], pf_host = ''h'', pf_port = 1,
                       pf_timeout = 5\<rparr>]\<rparr>"

definition sample_app :: app_spec where
  "sample_app = \<lparr>app_id = [], app_command = sample_command,
     app_operations = [(''upgrade'', sample_operation ''app.upgrade'')],
     app_path = ''/Applications/Demo.app'', app_bundle_id = ''d.e'', app_aliases = [],
     app_helpers = [], app_exec_name = ''Demo'', app_keychain = [], app_nested = [],
     app_preserved = [], app_profile = [], app_entitlements = \<lparr>ent_strip = [], ent_required = []\<rparr>,
     app_devsign = \<lparr>ds_enabled = False, ds_profile_path = [], ds_p12_path = [],
       ds_p12_password_file = [], ds_injector_path = [], ds_proxy_injection = False,
       ds_auto_generate = False\<rparr>,
     app_updater = sample_updater, app_launch = sample_launch,
     app_ext = \<lparr>ext_computer_use = None, ext_tee = None, ext_codex = None\<rparr>\<rparr>"

definition sample_deferral :: cli_deferral_spec where
  "sample_deferral = \<lparr>df_enabled = True, df_threshold = Fin 2, df_work_threshold = Fin 1,
     df_start = ''09:00'', df_end = ''17:30'', df_weekdays = ['' Monday'']\<rparr>"

definition sample_cli :: cli_spec where
  "sample_cli = \<lparr>cli_id = [], cli_command = sample_command,
     cli_operations = [(''install'', sample_operation ''standalone-cli.install'')],
     cli_deferral = sample_deferral\<rparr>"

definition sample_config :: go_config where
  "sample_config = \<lparr>cfg_identity = '' Dev '', cfg_team_id = ''TEAM'',
     cfg_apps = [('' demo'', sample_app)], cfg_clis = [(''tool'', sample_cli)]\<rparr>"

lemmas sample_defs = sample_env_def sample_caps_def sample_command_def sample_flag_def
  sample_operation_def sample_updater_def sample_launch_def sample_app_def sample_deferral_def
  sample_cli_def sample_config_def

definition sample_app_out :: app_spec where
  "sample_app_out = (case normalize_app sample_env sample_caps [] '' demo'' sample_app of
     Inl _ \<Rightarrow> sample_app | Inr a \<Rightarrow> a)"

definition sample_cli_out :: cli_spec where
  "sample_cli_out = (case normalize_cli sample_env sample_caps ''tool'' sample_cli of
     Inl _ \<Rightarrow> sample_cli | Inr c \<Rightarrow> c)"

definition sample_loaded :: go_config where
  "sample_loaded = sample_config\<lparr>cfg_identity := ''Dev'', cfg_team_id := ''TEAM'',
     cfg_apps := [('' demo'', sample_app_out)], cfg_clis := [(''tool'', sample_cli_out)]\<rparr>"

lemma normalize_map_single: "f k v = Inr w \<Longrightarrow> normalize_map f [(k, v)] = Inr [(k, w)]"
  by (simp add: normalize_map_def sorted_keys_def)

lemma sample_app_eq: "normalize_app sample_env sample_caps [] '' demo'' sample_app = Inr sample_app_out"
proof -
  have "(case normalize_app sample_env sample_caps [] '' demo'' sample_app of
      Inl _ \<Rightarrow> False | Inr _ \<Rightarrow> True)" by code_simp
  then show ?thesis by (auto simp: sample_app_out_def split: sum.splits)
qed

lemma sample_cli_eq: "normalize_cli sample_env sample_caps ''tool'' sample_cli = Inr sample_cli_out"
proof -
  have "(case normalize_cli sample_env sample_caps ''tool'' sample_cli of
      Inl _ \<Rightarrow> False | Inr _ \<Rightarrow> True)" by code_simp
  then show ?thesis by (auto simp: sample_cli_out_def split: sum.splits)
qed

lemma sample_maps_eq:
  "normalize_map (normalize_app sample_env sample_caps []) (cfg_apps sample_config) =
     Inr [('' demo'', sample_app_out)]"
  "normalize_map (normalize_cli sample_env sample_caps) (cfg_clis sample_config) =
     Inr [(''tool'', sample_cli_out)]"
  by (simp_all only: sample_config_def go_config.simps sample_app_eq sample_cli_eq
      normalize_map_single)

lemma sample_trimmed: "trim_space '' Dev '' = ''Dev''" "trim_space ''TEAM'' = ''TEAM''"
  by code_simp+

lemma sample_loads:
  "normalize_and_validate sample_env sample_caps [] sample_config = Inr sample_loaded"
proof -
  have v: "validate_signing_requirements
      (sample_config\<lparr>cfg_identity := ''Dev'', cfg_team_id := ''TEAM''\<rparr>) = None"
    by (simp add: validate_signing_requirements_def sample_config_def)
  have ne: "cfg_apps sample_config \<noteq> []" by (simp add: sample_config_def)
  have tr: "trim_space (cfg_identity sample_config) = ''Dev''"
    "trim_space (cfg_team_id sample_config) = ''TEAM''"
    by (simp_all only: sample_config_def go_config.simps sample_trimmed)
  show ?thesis
    by (simp add: normalize_and_validate_def Let_def tr v ne of_err_def sample_maps_eq
        sample_loaded_def)
qed

section \<open>Properties of a loaded configuration\<close>



text \<open>
  A loaded configuration always has an update channel to use: for every app,
  resolving the channel without a request (the app's default, or the first declared one)
  succeeds, so the updater never fails for lack of a channel.\<close>

theorem loaded_updater_resolves:
  assumes "normalize_and_validate env caps validators cfg = Inr cfg'"
    and "(k, a) \<in> set (cfg_apps cfg')"
  shows "\<exists>c. resolve_channel (app_updater a) [] = Inr c"
proof -
  have "normalize_app env caps validators k (the (map_of (cfg_apps cfg) k)) = Inr a"
    using normalize_map_Inr(2) [OF normalize_and_validate_parts(1) [OF assms(1)] assms(2)] by simp
  then have "updater_ok (app_updater a)"
    using normalize_app_ok(1) by (auto simp: app_ok_def)
  then show ?thesis by (rule updater_ok_resolves)
qed

lemma loaded_updater_resolves_witness:
  "\<exists>c. resolve_channel (app_updater sample_app_out) [] = Inr c"
  using loaded_updater_resolves [OF sample_loads] by (simp add: sample_loaded_def)

text \<open>
  No configuration that patches, upgrades or installs anything is loaded without
  signing credentials: when the loaded configuration has such an operation (or development
  signing), identity and team id are both set; and they are always set together.\<close>

theorem loaded_signing_complete:
  assumes "normalize_and_validate env caps validators cfg = Inr cfg'"
  shows "(config_requires_signing cfg' \<longrightarrow> cfg_identity cfg' \<noteq> [] \<and> cfg_team_id cfg' \<noteq> []) \<and>
         (cfg_identity cfg' = [] \<longleftrightarrow> cfg_team_id cfg' = [])"
proof -
  note parts = normalize_and_validate_parts [OF assms]
  let ?cfg = "cfg\<lparr>cfg_identity := cfg_identity cfg', cfg_team_id := cfg_team_id cfg'\<rparr>"
  have "config_requires_signing cfg' \<Longrightarrow> config_requires_signing ?cfg"
    using requires_signing_preserved [OF parts(1,2)] by (simp add: config_requires_signing_def)
  with parts(3) show ?thesis
    by (auto simp: validate_signing_requirements_def guard_simps split: if_splits)
qed

lemma loaded_signing_complete_witness:
  "cfg_identity sample_loaded \<noteq> [] \<longleftrightarrow> cfg_team_id sample_loaded \<noteq> []"
  using loaded_signing_complete [OF sample_loads] by simp

text \<open>Loading is deterministic although Go ranges over its maps in any order: two
  configurations whose maps hold the same entries in different orders give the same
  result, the same error included, whatever the order of the registered validators.\<close>

theorem load_order_independent:
  assumes "go_map_ok (cfg_apps cfg)" and "go_map_ok (cfg_clis cfg)" and "go_map_ok validators"
    and "mset (cfg_apps cfg) = mset apps" and "mset (cfg_clis cfg) = mset clis"
    and "mset validators = mset validators'"
  shows "normalize_and_validate env caps validators' (cfg\<lparr>cfg_apps := apps, cfg_clis := clis\<rparr>) =
         normalize_and_validate env caps validators cfg"
proof -
  have sets: "set apps = set (cfg_apps cfg)" "set clis = set (cfg_clis cfg)"
    using assms(4,5) by (metis set_mset_mset)+
  have v: "validate_app_ext validators' = validate_app_ext validators"
    using map_of_perm [OF assms(3,6)] sorted_keys_perm [OF assms(6)]
    by (simp add: validate_app_ext_def fun_eq_iff)
  then have app: "normalize_app env caps validators' = normalize_app env caps validators"
    by (simp add: normalize_app_def fun_eq_iff)
  have req: "validate_signing_requirements (cfg\<lparr>cfg_apps := apps, cfg_clis := clis,
        cfg_identity := i, cfg_team_id := t\<rparr>) =
      validate_signing_requirements (cfg\<lparr>cfg_identity := i, cfg_team_id := t\<rparr>)" for i t
    by (simp add: validate_signing_requirements_def config_requires_signing_def list_ex_iff sets)
  have nil: "(apps = []) = (cfg_apps cfg = [])" "(clis = []) = (cfg_clis cfg = [])"
    using sets by auto
  show ?thesis
    unfolding normalize_and_validate_def Let_def
    by (simp add: req nil app normalize_map_perm [OF assms(1,4), symmetric]
        normalize_map_perm [OF assms(2,5), symmetric])
qed

lemma load_order_independent_witness:
  "normalize_and_validate sample_env sample_caps []
     (sample_config\<lparr>cfg_apps := cfg_apps sample_config, cfg_clis := cfg_clis sample_config\<rparr>) =
   Inr sample_loaded"
  using load_order_independent [of sample_config "[]" "cfg_apps sample_config"
      "cfg_clis sample_config" "[]" sample_env sample_caps] sample_loads
  by (simp add: go_map_ok_def sample_config_def)

end
