(* ===== verification/Updater_Load.thy ===== *)
theory Updater_Load
  imports Config_Facts
begin

text \<open>
  The load policy of \<open>internal/daemon/tick.go\<close>: work hours, the deferral decision for a
  command-line tool, and the adaptive cadence. A \<open>time.Time\<close> is its weekday, hour, minute
  and Unix second. A \<open>float64\<close> division is the exact quotient rounded to nearest, ties to
  even.
\<close>

section \<open>Rounding to a 64-bit float\<close>

function bits :: "int \<Rightarrow> int" where
  "bits n = (if n \<le> 0 then 0 else 1 + bits (n div 2))"
  by auto
termination by (relation "measure nat") auto

declare bits.simps [simp del]

definition pow2 :: "int \<Rightarrow> rat" where
  "pow2 k = (if 0 \<le> k then 2 ^ nat k else 1 / 2 ^ nat (- k))"

definition rat_log2 :: "rat \<Rightarrow> int" where
  "rat_log2 q = (let (n, d) = quotient_of q; k = bits n - bits d
                 in if pow2 k \<le> q then k else k - 1)"

definition round_half_even :: "rat \<Rightarrow> int" where
  "round_half_even q =
     (let f = \<lfloor>q\<rfloor>; r = q - of_int f
      in if r < 1 / 2 then f else if r > 1 / 2 then f + 1 else if even f then f else f + 1)"

definition f64_round :: "rat \<Rightarrow> f64" where
  "f64_round q =
     (if q = 0 then Fin 0
      else let a = \<bar>q\<bar>; e = max (rat_log2 a - 52) (- 1074);
               v = of_int (round_half_even (a / pow2 e)) * pow2 e
           in if v \<ge> pow2 1024 then (if q > 0 then PosInf else NegInf)
              else Fin (if q > 0 then v else - v))"

text \<open>\<open>loadAverage / float64(cpuCount)\<close> for a positive count.\<close>

fun f64_div_count :: "f64 \<Rightarrow> nat \<Rightarrow> f64" where
  "f64_div_count (Fin q) n = f64_round (q / of_nat n)"
| "f64_div_count x n = x"

section \<open>Clock and work hours\<close>

record go_time =
  gt_weekday :: nat    \<comment> \<open>0 is Sunday\<close>
  gt_hour :: nat
  gt_minute :: nat
  gt_unix :: int

definition go_time_ok :: "go_time \<Rightarrow> bool" where
  "go_time_ok t \<longleftrightarrow> gt_weekday t < 7 \<and> gt_hour t < 24 \<and> gt_minute t < 60"

definition minute_of_day :: "go_time \<Rightarrow> nat" where
  "minute_of_day t = gt_hour t * 60 + gt_minute t"

definition parse_clock_minute :: "string \<Rightarrow> nat option" where
  "parse_clock_minute v = map_option (\<lambda>(h, m). h * 60 + m) (parse_hhmm v)"

lemma parse_clock_minute_range: "parse_clock_minute v = Some m \<Longrightarrow> m < 1440"
  by (auto simp: parse_clock_minute_def dest!: parse_hhmm_range)

definition weekday_matches :: "nat \<Rightarrow> string list \<Rightarrow> bool" where
  "weekday_matches day weekdays \<longleftrightarrow> weekday_names ! day \<in> set weekdays"

definition in_cli_work_hours :: "go_time \<Rightarrow> cli_deferral_spec \<Rightarrow> bool" where
  "in_cli_work_hours now policy =
     (if \<not> weekday_matches (gt_weekday now) (df_weekdays policy) then False
      else case (parse_clock_minute (df_start policy), parse_clock_minute (df_end policy)) of
        (Some s, Some e) \<Rightarrow>
          (if s = e then False
           else let n = minute_of_day now
                in if s < e then s \<le> n \<and> n < e else s \<le> n \<or> n < e)
      | _ \<Rightarrow> False)"

section \<open>The load decision\<close>

datatype load_reason = NoReason | AtOrAbove f64 f64 | Below f64 f64

record load_decision =
  ld_defer :: bool
  ld_reason :: load_reason
  ld_load :: f64
  ld_per_cpu :: f64
  ld_threshold :: f64
  ld_work_hours :: bool
  ld_err :: "string option"

definition build_cli_load_decision ::
  "go_time \<Rightarrow> cli_deferral_spec \<Rightarrow> f64 \<Rightarrow> int \<Rightarrow> load_decision" where
  "build_cli_load_decision now policy load cpu_count =
     (let cpus = (if cpu_count < 1 then 1 else cpu_count);
          per_cpu = f64_div_count load (nat cpus);
          work = in_cli_work_hours now policy;
          threshold = (if work then df_work_threshold policy else df_threshold policy);
          defers = f64_le threshold per_cpu
      in \<lparr>ld_defer = defers,
          ld_reason = (if defers then AtOrAbove per_cpu threshold else Below per_cpu threshold),
          ld_load = load, ld_per_cpu = per_cpu, ld_threshold = threshold, ld_work_hours = work,
          ld_err = None\<rparr>)"

definition no_load_decision :: "string option \<Rightarrow> load_decision" where
  "no_load_decision err = \<lparr>ld_defer = False, ld_reason = NoReason, ld_load = Fin 0,
     ld_per_cpu = Fin 0, ld_threshold = Fin 0, ld_work_hours = False, ld_err = err\<rparr>"

text \<open>\<open>reading\<close> is what \<open>readOneMinuteLoadAverage\<close> returns.\<close>

definition default_cli_load_decision ::
  "(string, f64) result \<Rightarrow> go_time \<Rightarrow> int \<Rightarrow> cli_deferral_spec \<Rightarrow> load_decision" where
  "default_cli_load_decision reading now cpu_count policy =
     (if \<not> df_enabled policy then no_load_decision None
      else case reading of
        Inl err \<Rightarrow> no_load_decision (Some err)
      | Inr load \<Rightarrow> build_cli_load_decision now policy load cpu_count)"

section \<open>Facts\<close>

lemma work_hours_cyclic_arith:
  fixes s e n :: nat
  assumes "s < 1440" "e < 1440" "n < 1440" "s \<noteq> e"
  shows "(if s < e then s \<le> n \<and> n < e else s \<le> n \<or> n < e) \<longleftrightarrow>
         (n + 1440 - s) mod 1440 < (e + 1440 - s) mod 1440"
proof -
  have wrap: "(x + 1440 - s) mod 1440 = (if s \<le> x then x - s else x + 1440 - s)"
    if "x < 1440" for x
  proof (cases "s \<le> x")
    case True
    then have "(x + 1440 - s) mod 1440 = ((x - s) + 1440) mod 1440" by (simp only: Nat.add_diff_assoc2)
    also have "\<dots> = x - s" using that by (simp only: mod_add_self2) simp
    finally show ?thesis using True by simp
  next
    case False
    with that assms(1) show ?thesis by simp
  qed
  show ?thesis
    using assms by (simp add: wrap) (auto split: if_splits)
qed

lemma minute_of_day_range: "go_time_ok t \<Longrightarrow> minute_of_day t < 1440"
  by (auto simp: go_time_ok_def minute_of_day_def)

text \<open>
  Work hours are the cyclic interval from the start minute to the end minute, on a
  listed weekday: a time is inside when it is closer after the start than the end is,
  counting modulo a day. So an overnight window (22:00 to 06:00) covers exactly the
  minutes it names, and neither end is counted wrongly.\<close>

theorem work_hours_cyclic:
  assumes "go_time_ok now"
    and "parse_clock_minute (df_start policy) = Some s"
    and "parse_clock_minute (df_end policy) = Some e" and "s \<noteq> e"
  shows "in_cli_work_hours now policy \<longleftrightarrow>
     weekday_names ! gt_weekday now \<in> set (df_weekdays policy) \<and>
     (minute_of_day now + 1440 - s) mod 1440 < (e + 1440 - s) mod 1440"
  using work_hours_cyclic_arith [of s e "minute_of_day now"] assms
    parse_clock_minute_range minute_of_day_range
  by (simp add: in_cli_work_hours_def weekday_matches_def Let_def)

definition night_policy :: cli_deferral_spec where
  "night_policy = \<lparr>df_enabled = True, df_threshold = Fin 2, df_work_threshold = Fin 1,
     df_start = ''22:00'', df_end = ''06:00'', df_weekdays = [''monday'']\<rparr>"

definition monday_at :: "nat \<Rightarrow> nat \<Rightarrow> go_time" where
  "monday_at h m = \<lparr>gt_weekday = 1, gt_hour = h, gt_minute = m, gt_unix = 0\<rparr>"

lemma work_hours_cyclic_witness:
  "in_cli_work_hours (monday_at 23 30) night_policy \<and> \<not> in_cli_work_hours (monday_at 6 0) night_policy"
proof -
  have t: "go_time_ok (monday_at 23 30)" "go_time_ok (monday_at 6 0)" by code_simp+
  have p: "parse_clock_minute (df_start night_policy) = Some 1320"
    "parse_clock_minute (df_end night_policy) = Some 360" by code_simp+
  show ?thesis
    unfolding work_hours_cyclic [OF t(1) p, simplified] work_hours_cyclic [OF t(2) p, simplified]
    by code_simp
qed

text \<open>
  With a validated policy whose thresholds are numbers, work hours only make the
  daemon more careful: at any load at which it defers a tool's upgrade outside work hours,
  it defers it inside too.\<close>

theorem work_hours_stricter:
  assumes "normalize_deferral path d0 = Inr policy" and "df_enabled policy"
    and "df_threshold policy \<noteq> NaN" and "df_work_threshold policy \<noteq> NaN"
    and "\<not> in_cli_work_hours outside policy" and "in_cli_work_hours inside policy"
    and "ld_defer (build_cli_load_decision outside policy load cpus)"
  shows "ld_defer (build_cli_load_decision inside policy load cpus)"
proof -
  have le: "f64_le (df_work_threshold policy) (df_threshold policy)"
    using normalize_deferral_ok [OF assms(1)] assms(2-4)
    by (cases "df_threshold policy"; cases "df_work_threshold policy")
       (auto simp: deferral_ok_def f64_lt_def)
  show ?thesis
    using assms(5-7) f64_le_trans [OF le]
    by (simp add: build_cli_load_decision_def Let_def)
qed

lemma night_policy_loads: "normalize_deferral ''p'' night_policy = Inr night_policy"
  by code_simp

lemma work_hours_stricter_witness:
  "ld_defer (build_cli_load_decision (monday_at 23 0) night_policy (Fin 8) 4)"
proof (rule work_hours_stricter [OF night_policy_loads])
  show "df_enabled night_policy" "df_threshold night_policy \<noteq> NaN"
    "df_work_threshold night_policy \<noteq> NaN" by (simp_all add: night_policy_def)
  show "\<not> in_cli_work_hours (monday_at 12 0) night_policy"
    "in_cli_work_hours (monday_at 23 0) night_policy" by code_simp+
  show "ld_defer (build_cli_load_decision (monday_at 12 0) night_policy (Fin 8) 4)" by code_simp
qed

text \<open>
  The window check of the loader compares the two times as strings, the daemon
  compares them as minutes: a policy from ''9:00'' to ''09:00'' is accepted as non-empty and
  then never applies, on any day at any time.\<close>

definition two_spellings :: cli_deferral_spec where
  "two_spellings = \<lparr>df_enabled = True, df_threshold = Fin 2, df_work_threshold = Fin 1,
     df_start = ''9:00'', df_end = ''09:00'', df_weekdays = weekday_names\<rparr>"

theorem accepted_window_never_applies:
  "normalize_deferral path two_spellings = Inr two_spellings \<and>
   \<not> in_cli_work_hours now two_spellings"
proof
  have n: "df_start two_spellings = ''9:00''" "df_end two_spellings = ''09:00''"
    by (simp_all add: two_spellings_def)
  have m: "parse_clock_minute ''9:00'' = Some 540" "parse_clock_minute ''09:00'' = Some 540"
    by code_simp+
  show "\<not> in_cli_work_hours now two_spellings"
    by (simp add: in_cli_work_hours_def n m)
  have w: "two_spellings\<lparr>df_start := trim_space ''9:00'', df_end := trim_space ''09:00'',
      df_weekdays := normalize_weekdays (df_weekdays two_spellings)\<rparr> = two_spellings"
    by code_simp
  have v: "valid_deferral_time ''9:00''" "valid_deferral_time ''09:00''"
    "df_threshold two_spellings = Fin 2" "df_work_threshold two_spellings = Fin 1"
    "df_enabled two_spellings" "df_weekdays two_spellings = weekday_names"
    by code_simp+
  show "normalize_deferral path two_spellings = Inr two_spellings"
    unfolding normalize_deferral_def n w Let_def
    by (simp add: n v of_err_def f64_lt_def weekday_names_def)
qed

end
