(* ===== verification/Updater_Tick.thy ===== *)
theory Updater_Tick
  imports Updater_Load Executor
begin

text \<open>
  The sweep of \<open>internal/daemon/tick.go\<close> and the status report of
  \<open>internal/daemon/updater_rpc.go\<close>. The seams of \<open>ticker\<close> (the update check, the process
  probe, the upgrade runs, the load check, the clock) are functions that take the state
  of the outside world and return it changed. Every call of a seam and every
  \<open>recordCheck\<close> is appended to a trace, so that a property can speak about their order.
\<close>

record target_check =
  tc_current :: string
  tc_available :: string
  tc_update :: bool
  tc_running :: bool
  tc_outcome :: string
  tc_at :: int

record updater_state =
  us_last :: int
  us_next :: int
  us_interval :: int
  us_checks :: "target_check gomap"

definition new_updater_state :: updater_state where
  "new_updater_state = \<lparr>us_last = 0, us_next = 0, us_interval = 0, us_checks = []\<rparr>"

definition record_check :: "string \<Rightarrow> target_check \<Rightarrow> updater_state \<Rightarrow> updater_state" where
  "record_check t c s = s\<lparr>us_checks := AList.update t c (us_checks s)\<rparr>"

definition set_timing :: "int \<Rightarrow> int \<Rightarrow> int \<Rightarrow> updater_state \<Rightarrow> updater_state" where
  "set_timing l n i s = s\<lparr>us_last := l, us_next := n, us_interval := i\<rparr>"

datatype cli_upgrade_outcome = CliCompleted | CliDeferred | CliAborted

datatype tick_call =
    Checked string "(string, update_check) result"
  | Probed string bool
  | Upgraded string bool
  | LoadChecked string load_decision
  | CliRun string cli_upgrade_outcome
  | Recorded string target_check

record 'w ticker =
  tk_check :: "target \<Rightarrow> 'w \<Rightarrow> (string, update_check) result \<times> 'w"
  tk_running :: "target \<Rightarrow> 'w \<Rightarrow> bool \<times> 'w"
  tk_upgrade :: "string \<Rightarrow> 'w \<Rightarrow> bool \<times> 'w"
  tk_load :: "cli_program \<Rightarrow> 'w \<Rightarrow> load_decision \<times> 'w"
  tk_cli_run :: "cli_program \<Rightarrow> operation_spec \<Rightarrow> 'w \<Rightarrow> cli_upgrade_outcome \<times> 'w"
    \<comment> \<open>\<open>runCLIUpgradeWithLoadMonitor\<close>, modelled in \<open>Updater_Monitor\<close>\<close>
  tk_now :: "'w \<Rightarrow> int \<times> 'w"

record 'w tick_state =
  ts_state :: updater_state
  ts_world :: 'w
  ts_trace :: "tick_call list"

definition ts_record :: "string \<Rightarrow> target_check \<Rightarrow> 'w tick_state \<Rightarrow> 'w tick_state" where
  "ts_record t c s = s\<lparr>ts_state := record_check t c (ts_state s),
                       ts_trace := ts_trace s @ [Recorded t c]\<rparr>"

text \<open>Call a seam: the world it leaves, and its entry in the trace.\<close>

definition ts_call ::
  "('w \<Rightarrow> 'r \<times> 'w) \<Rightarrow> ('r \<Rightarrow> tick_call list) \<Rightarrow> 'w tick_state \<Rightarrow> 'r \<times> 'w tick_state" where
  "ts_call f entry s = (let (r, w) = f (ts_world s)
     in (r, s\<lparr>ts_world := w, ts_trace := ts_trace s @ entry r\<rparr>))"

definition failed_check :: "int \<Rightarrow> target_check" where
  "failed_check now = \<lparr>tc_current = [], tc_available = [], tc_update = False, tc_running = False,
     tc_outcome = ''check-failed'', tc_at = now\<rparr>"

definition cli_target_check :: "string \<Rightarrow> int \<Rightarrow> target_check" where
  "cli_target_check outcome now = \<lparr>tc_current = [], tc_available = [], tc_update = False,
     tc_running = False, tc_outcome = outcome, tc_at = now\<rparr>"

text \<open>The body of \<open>sweep\<close>'s loop: one app. The result says whether it was deferred.\<close>

definition sweep_target :: "'w ticker \<Rightarrow> target \<Rightarrow> 'w tick_state \<Rightarrow> bool \<times> 'w tick_state" where
  "sweep_target t target s =
     (let (check, s1) = ts_call (tk_check t target) (\<lambda>r. [Checked (tg_id target) r]) s in
      case check of
        Inl err \<Rightarrow>
          (let (now, s2) = ts_call (tk_now t) (\<lambda>_. []) s1
           in (False, ts_record (tg_id target) (failed_check now) s2))
      | Inr c \<Rightarrow>
          (let (running, s2) = ts_call (tk_running t target) (\<lambda>r. [Probed (tg_id target) r]) s1;
               (now, s3) = ts_call (tk_now t) (\<lambda>_. []) s2;
               entry = \<lparr>tc_current = uc_current c, tc_available = uc_available c,
                        tc_update = uc_update c, tc_running = running, tc_outcome = [],
                        tc_at = now\<rparr>
           in if \<not> uc_update c then
                (False, ts_record (tg_id target) (entry\<lparr>tc_outcome := ''up-to-date''\<rparr>) s3)
              else if running then
                (True, ts_record (tg_id target) (entry\<lparr>tc_outcome := ''deferred-app-running''\<rparr>) s3)
              else
                (let (waits, s4) = ts_call (tk_upgrade t (tg_id target))
                                     (\<lambda>r. [Upgraded (tg_id target) r]) s3
                 in if waits then
                      (True, ts_record (tg_id target)
                         (entry\<lparr>tc_running := True, tc_outcome := ''deferred-app-running''\<rparr>) s4)
                    else
                      (False, ts_record (tg_id target) (entry\<lparr>tc_outcome := ''upgrading''\<rparr>) s4))))"

definition record_cli :: "'w ticker \<Rightarrow> string \<Rightarrow> string \<Rightarrow> 'w tick_state \<Rightarrow> 'w tick_state" where
  "record_cli t cid outcome s =
     (let (now, s1) = ts_call (tk_now t) (\<lambda>_. []) s in ts_record cid (cli_target_check outcome now) s1)"

text \<open>The body of \<open>sweepCLIs\<close>' loop.\<close>

definition sweep_cli :: "'w ticker \<Rightarrow> cli_program \<Rightarrow> 'w tick_state \<Rightarrow> bool \<times> 'w tick_state" where
  "sweep_cli t program s =
     (case map_of (cp_operations program) ''upgrade'' of
        None \<Rightarrow> (False, s)
      | Some op \<Rightarrow>
          (let (decision, s1) = ts_call (tk_load t program) (\<lambda>r. [LoadChecked (cp_id program) r]) s
           in if ld_defer decision then (True, record_cli t (cp_id program) ''deferred-system-load'' s1)
              else
                (let (outcome, s2) = ts_call (tk_cli_run t program op)
                                       (\<lambda>r. [CliRun (cp_id program) r]) s1
                 in case outcome of
                      CliDeferred \<Rightarrow> (True, record_cli t (cp_id program) ''deferred-system-load'' s2)
                    | CliAborted \<Rightarrow> (False, s2)
                    | CliCompleted \<Rightarrow> (False, record_cli t (cp_id program) ''upgraded'' s2))))"

text \<open>A loop that runs a body on every element and ors its results.\<close>

fun sweep_list ::
  "('a \<Rightarrow> 'w tick_state \<Rightarrow> bool \<times> 'w tick_state) \<Rightarrow> 'a list \<Rightarrow> 'w tick_state \<Rightarrow> bool \<times> 'w tick_state" where
  "sweep_list f [] s = (False, s)"
| "sweep_list f (x # xs) s =
     (let (d, s1) = f x s; (ds, s2) = sweep_list f xs s1 in (d \<or> ds, s2))"

definition sweep :: "'w ticker \<Rightarrow> go_config \<Rightarrow> 'w tick_state \<Rightarrow> bool \<times> 'w tick_state" where
  "sweep t cfg s =
     (let (d, s1) = sweep_list (sweep_target t) (all_targets cfg) s;
          (dc, s2) = sweep_list (sweep_cli t) (all_clis cfg) s1
      in (d \<or> dc, s2))"

text \<open>Intervals in seconds.\<close>

definition tick_interval :: "bool \<Rightarrow> int" where
  "tick_interval deferred = (if deferred then 30 * 60 else 6 * 60 * 60)"

text \<open>One turn of \<open>loop\<close>: \<open>cancelled\<close> is \<open>ctx.Err() != nil\<close> after the sweep.\<close>

definition loop_turn :: "'w ticker \<Rightarrow> go_config \<Rightarrow> bool \<Rightarrow> 'w tick_state \<Rightarrow> 'w tick_state" where
  "loop_turn t cfg cancelled s =
     (let (deferred, s1) = sweep t cfg s in
      if cancelled then s1
      else let interval = tick_interval deferred; (now, s2) = ts_call (tk_now t) (\<lambda>_. []) s1
           in s2\<lparr>ts_state := set_timing now (now + interval) interval (ts_state s2)\<rparr>)"

section \<open>The status report\<close>

record updater_target_status =
  ut_target :: string
  ut_check :: target_check

record updater_status =
  ur_last :: int
  ur_next :: int
  ur_interval :: int
  ur_running :: bool
  ur_operation :: string
  ur_target :: string
  ur_runs :: "(string \<times> string) list"
  ur_targets :: "updater_target_status list"

definition get_updater_status :: "executor \<Rightarrow> updater_state \<Rightarrow> updater_status" where
  "get_updater_status ex snap =
     (let runs = active_runs ex in
      \<lparr>ur_last = us_last snap, ur_next = us_next snap, ur_interval = us_interval snap,
       ur_running = (runs \<noteq> []),
       ur_operation = (case runs of [] \<Rightarrow> [] | r # _ \<Rightarrow> ar_operation r),
       ur_target = (case runs of [] \<Rightarrow> [] | r # _ \<Rightarrow> ar_target r),
       ur_runs = map (\<lambda>r. (ar_operation r, ar_target r)) runs,
       ur_targets = map (\<lambda>id. \<lparr>ut_target = id, ut_check = the (map_of (us_checks snap) id)\<rparr>)
         (sorted_keys (us_checks snap))\<rparr>)"

section \<open>What a run's events say\<close>

text \<open>\<open>runUpgradeThroughExecutor\<close>: the events are what the run's stream delivered.\<close>

definition upgrade_deferred :: "string \<Rightarrow> progress_event list \<Rightarrow> bool" where
  "upgrade_deferred target events \<longleftrightarrow>
     list_ex (\<lambda>e. pe_type e = ''target_done'' \<and> pe_target e = target \<and> pe_status e = ''skipped'' \<and>
                  prefix ''deferred:'' (trim_space (pe_detail e))) events"

text \<open>\<open>runCLIUpgradeThroughExecutor\<close>: the last completion event decides.\<close>

definition cli_upgrade_ok :: "string \<Rightarrow> progress_event list \<Rightarrow> bool" where
  "cli_upgrade_ok cid events =
     (case rev (filter (\<lambda>e. pe_type e = ''target_done'' \<and> pe_target e = cid) events) of
        [] \<Rightarrow> False | e # _ \<Rightarrow> pe_status e \<noteq> ''failed'')"

section \<open>The trace of a sweep\<close>

definition outcome_deferred :: "tick_call \<Rightarrow> bool" where
  "outcome_deferred c = (case c of Recorded _ e \<Rightarrow>
     tc_outcome e \<in> {''deferred-app-running'', ''deferred-system-load''} | _ \<Rightarrow> False)"

fun recorded_ids :: "tick_call list \<Rightarrow> string list" where
  "recorded_ids [] = []"
| "recorded_ids (Recorded t c # cs) = t # recorded_ids cs"
| "recorded_ids (_ # cs) = recorded_ids cs"

lemma recorded_ids_append [simp]: "recorded_ids (xs @ ys) = recorded_ids xs @ recorded_ids ys"
  by (induction xs rule: recorded_ids.induct) auto

text \<open>
  A trace is guarded when every upgrade run in it comes right after the calls that permit
  it: an app's after a check that found an update and a probe that found the app closed, a
  tool's after a load check that did not defer.
\<close>

definition guarded :: "tick_call list \<Rightarrow> bool" where
  "guarded cs \<longleftrightarrow>
     (\<forall>pre t w post. cs = pre @ Upgraded t w # post \<longrightarrow>
        (\<exists>pre' c. pre = pre' @ [Checked t (Inr c), Probed t False] \<and> uc_update c)) \<and>
     (\<forall>pre t r post. cs = pre @ CliRun t r # post \<longrightarrow>
        (\<exists>pre' d. pre = pre' @ [LoadChecked t d] \<and> \<not> ld_defer d))"

lemma append_eq_mid:
  "xs @ ys = pre @ c # post \<Longrightarrow>
     (\<exists>post'. xs = pre @ c # post') \<or> (\<exists>pre'. pre = xs @ pre' \<and> ys = pre' @ c # post)"
  by (auto simp: append_eq_append_conv2 append_eq_Cons_conv)

lemma guarded_append: 
  assumes "guarded xs" "guarded ys"
  shows "guarded (xs @ ys)"
proof -
  have "\<exists>pre' c. pre = pre' @ [Checked t (Inr c), Probed t False] \<and> uc_update c"
    if "xs @ ys = pre @ Upgraded t w # post" for pre t w post
    using append_eq_mid [OF that] assms unfolding guarded_def by (metis append_assoc)
  moreover have "\<exists>pre' d. pre = pre' @ [LoadChecked t d] \<and> \<not> ld_defer d"
    if "xs @ ys = pre @ CliRun t r # post" for pre t r post
    using append_eq_mid [OF that] assms unfolding guarded_def by (metis append_assoc)
  ultimately show ?thesis unfolding guarded_def by blast
qed

inductive target_calls :: "string \<Rightarrow> bool \<Rightarrow> tick_call list \<Rightarrow> bool" for t where
  tc_failed: "tc_outcome e = ''check-failed'' \<Longrightarrow>
    target_calls t False [Checked t (Inl err), Recorded t e]"
| tc_current: "\<not> uc_update c \<Longrightarrow> tc_outcome e = ''up-to-date'' \<Longrightarrow>
    target_calls t False [Checked t (Inr c), Probed t run, Recorded t e]"
| tc_open: "uc_update c \<Longrightarrow> tc_outcome e = ''deferred-app-running'' \<Longrightarrow>
    target_calls t True [Checked t (Inr c), Probed t True, Recorded t e]"
| tc_upgraded: "uc_update c \<Longrightarrow>
    tc_outcome e = (if w then ''deferred-app-running'' else ''upgrading'') \<Longrightarrow>
    target_calls t w [Checked t (Inr c), Probed t False, Upgraded t w, Recorded t e]"

inductive cli_calls :: "string \<Rightarrow> bool \<Rightarrow> tick_call list \<Rightarrow> bool" for t where
  cc_load: "ld_defer d \<Longrightarrow> tc_outcome e = ''deferred-system-load'' \<Longrightarrow>
    cli_calls t True [LoadChecked t d, Recorded t e]"
| cc_deferred: "\<not> ld_defer d \<Longrightarrow> tc_outcome e = ''deferred-system-load'' \<Longrightarrow>
    cli_calls t True [LoadChecked t d, CliRun t CliDeferred, Recorded t e]"
| cc_aborted: "\<not> ld_defer d \<Longrightarrow> cli_calls t False [LoadChecked t d, CliRun t CliAborted]"
| cc_completed: "\<not> ld_defer d \<Longrightarrow> tc_outcome e = ''upgraded'' \<Longrightarrow>
    cli_calls t False [LoadChecked t d, CliRun t CliCompleted, Recorded t e]"
| cc_none: "cli_calls t False []"

lemma ts_call_eq: "f (ts_world s) = (r, w) \<Longrightarrow>
    ts_call f entry s = (r, s\<lparr>ts_world := w, ts_trace := ts_trace s @ entry r\<rparr>)"
  by (simp add: ts_call_def)

lemma ts_record_trace [simp]: "ts_trace (ts_record t c s) = ts_trace s @ [Recorded t c]"
  by (simp add: ts_record_def)

lemma sweep_target_calls:
  "\<exists>new. ts_trace (snd (sweep_target t target s)) = ts_trace s @ new \<and>
         target_calls (tg_id target) (fst (sweep_target t target s)) new"
proof -
  obtain r w where r: "tk_check t target (ts_world s) = (r, w)" by fastforce
  show ?thesis
  proof (cases r)
    case (Inl err)
    obtain now w' where "tk_now t w = (now, w')" by fastforce
    with r Inl show ?thesis
      by (auto simp: sweep_target_def ts_call_eq failed_check_def intro: tc_failed)
  next
    case (Inr c)
    obtain run w' where run: "tk_running t target w = (run, w')" by fastforce
    obtain now w'' where now: "tk_now t w' = (now, w'')" by fastforce
    obtain waits w3 where waits: "tk_upgrade t (tg_id target) w'' = (waits, w3)" by fastforce
    show ?thesis
      using r Inr run now waits
      by (cases "uc_update c"; cases run; cases waits)
         (auto simp: sweep_target_def ts_call_eq Let_def intro!: target_calls.intros)
  qed
qed

lemma record_cli_trace [simp]:
  "ts_trace (record_cli t cid outcome s) =
     ts_trace s @ [Recorded cid (cli_target_check outcome (fst (tk_now t (ts_world s))))]"
  by (simp add: record_cli_def ts_call_def split: prod.split)

lemma cli_target_check_outcome [simp]: "tc_outcome (cli_target_check outcome now) = outcome"
  by (simp add: cli_target_check_def)

lemma sweep_cli_calls:
  "\<exists>new. ts_trace (snd (sweep_cli t program s)) = ts_trace s @ new \<and>
         cli_calls (cp_id program) (fst (sweep_cli t program s)) new"
proof (cases "map_of (cp_operations program) ''upgrade''")
  case None
  then show ?thesis by (auto simp: sweep_cli_def intro: cc_none)
next
  case (Some op)
  obtain d w where d: "tk_load t program (ts_world s) = (d, w)" by fastforce
  obtain r w' where r: "tk_cli_run t program op w = (r, w')" by fastforce
  show ?thesis
  proof (cases "ld_defer d")
    case True
    with Some d show ?thesis
      by (auto simp: sweep_cli_def ts_call_eq intro: cc_load)
  next
    case False
    show ?thesis
    proof (cases r)
      case CliAborted
      with False Some d r show ?thesis
        by (auto simp: sweep_cli_def ts_call_eq intro: cc_aborted)
    next
      case CliCompleted
      with False Some d r show ?thesis
        by (auto simp: sweep_cli_def ts_call_eq intro: cc_completed)
    next
      case CliDeferred
      with False Some d r show ?thesis
        by (auto simp: sweep_cli_def ts_call_eq intro: cc_deferred)
    qed
  qed
qed

lemma sweep_list_calls:
  assumes "\<And>x s. \<exists>new. ts_trace (snd (f x s)) = ts_trace s @ new \<and> P x (fst (f x s)) new"
  shows "\<exists>runs. ts_trace (snd (sweep_list f xs s)) = ts_trace s @ concat (map snd runs) \<and>
           list_all2 (\<lambda>x r. P x (fst r) (snd r)) xs runs \<and>
           fst (sweep_list f xs s) = list_ex fst runs"
proof (induction xs arbitrary: s)
  case Nil
  show ?case by (intro exI [of _ "[]"]) simp
next
  case (Cons x xs)
  from assms obtain new where new: "ts_trace (snd (f x s)) = ts_trace s @ new"
    "P x (fst (f x s)) new" by blast
  from Cons.IH obtain runs where
    "ts_trace (snd (sweep_list f xs (snd (f x s)))) = ts_trace (snd (f x s)) @ concat (map snd runs)"
    "list_all2 (\<lambda>x r. P x (fst r) (snd r)) xs runs"
    "fst (sweep_list f xs (snd (f x s))) = list_ex fst runs" by blast
  with new show ?case
    by (intro exI [of _ "(fst (f x s), new) # runs"]) (simp add: split_beta)
qed

lemma guarded_Nil: "guarded []"
  by (simp add: guarded_def)

lemma target_calls_facts:
  assumes "target_calls t d new"
  shows "guarded new" "recorded_ids new = [t]" "d \<longleftrightarrow> list_ex outcome_deferred new"
  using assms
  by (cases; auto simp: guarded_def outcome_deferred_def Cons_eq_append_conv)+

lemma cli_calls_facts:
  assumes "cli_calls t d new"
  shows "guarded new" "recorded_ids new \<in> {[], [t]}" "d \<longleftrightarrow> list_ex outcome_deferred new"
  using assms
  by (cases; auto simp: guarded_def outcome_deferred_def Cons_eq_append_conv)+

lemma guarded_runs:
  assumes "list_all2 (\<lambda>x r. P x (fst r) (snd r)) xs runs"
    and "\<And>x d new. P x d new \<Longrightarrow> guarded new"
  shows "guarded (concat (map snd runs))"
  using assms by (induction rule: list_all2_induct) (auto intro: guarded_append guarded_Nil)

lemma deferred_runs:
  assumes "list_all2 (\<lambda>x r. P x (fst r) (snd r)) xs runs"
    and "\<And>x d new. P x d new \<Longrightarrow> d \<longleftrightarrow> list_ex outcome_deferred new"
  shows "list_ex fst runs \<longleftrightarrow> list_ex outcome_deferred (concat (map snd runs))"
  using assms by (induction rule: list_all2_induct) auto

lemma target_runs_recorded:
  "list_all2 (\<lambda>x r. target_calls (tg_id x) (fst r) (snd r)) xs runs \<Longrightarrow>
     recorded_ids (concat (map snd runs)) = map tg_id xs"
  by (induction rule: list_all2_induct) (auto simp: target_calls_facts)

lemma cli_runs_recorded:
  "list_all2 (\<lambda>x r. cli_calls (cp_id x) (fst r) (snd r)) xs runs \<Longrightarrow>
     subseq (recorded_ids (concat (map snd runs))) (map cp_id xs)"
proof (induction rule: list_all2_induct)
  case (Cons x xs r runs)
  obtain d new where r: "r = (d, new)" by fastforce
  with Cons have "recorded_ids new = [] \<or> recorded_ids new = [cp_id x]"
    using cli_calls_facts(2) by fastforce
  with Cons r show ?case by auto
qed simp

text \<open>Every sweep appends a guarded trace that records what the result says.\<close>

lemma sweep_calls:
  obtains new where "ts_trace (snd (sweep t cfg s)) = ts_trace s @ new" and "guarded new"
    and "fst (sweep t cfg s) \<longleftrightarrow> list_ex outcome_deferred new"
    and "\<exists>cs. recorded_ids new = map tg_id (all_targets cfg) @ cs \<and>
              subseq cs (map cp_id (all_clis cfg))"
proof -
  let ?a = "sweep_list (sweep_target t) (all_targets cfg) s"
  let ?c = "sweep_list (sweep_cli t) (all_clis cfg) (snd ?a)"
  obtain ra where a: "ts_trace (snd ?a) = ts_trace s @ concat (map snd ra)"
    "list_all2 (\<lambda>x r. target_calls (tg_id x) (fst r) (snd r)) (all_targets cfg) ra"
    "fst ?a = list_ex fst ra"
    using sweep_list_calls [of "sweep_target t" "\<lambda>x. target_calls (tg_id x)" "all_targets cfg" s,
        OF sweep_target_calls] by blast
  obtain rc where c: "ts_trace (snd ?c) = ts_trace (snd ?a) @ concat (map snd rc)"
    "list_all2 (\<lambda>x r. cli_calls (cp_id x) (fst r) (snd r)) (all_clis cfg) rc"
    "fst ?c = list_ex fst rc"
    using sweep_list_calls [of "sweep_cli t" "\<lambda>x. cli_calls (cp_id x)" "all_clis cfg" "snd ?a",
        OF sweep_cli_calls] by blast
  have eq: "sweep t cfg s = (fst ?a \<or> fst ?c, snd ?c)"
    by (simp add: sweep_def split: prod.split)
  show thesis
  proof (rule that [of "concat (map snd ra) @ concat (map snd rc)"])
    show "ts_trace (snd (sweep t cfg s)) = ts_trace s @ concat (map snd ra) @ concat (map snd rc)"
      using a(1) c(1) eq by simp
    show "guarded (concat (map snd ra) @ concat (map snd rc))"
      by (rule guarded_append [OF guarded_runs [OF a(2)] guarded_runs [OF c(2)]])
        (auto intro: target_calls_facts(1) cli_calls_facts(1))
    show "fst (sweep t cfg s) \<longleftrightarrow> list_ex outcome_deferred (concat (map snd ra) @ concat (map snd rc))"
      using deferred_runs [OF a(2) target_calls_facts(3)] deferred_runs [OF c(2) cli_calls_facts(3)]
        a(3) c(3) eq by simp
    show "\<exists>cs. recorded_ids (concat (map snd ra) @ concat (map snd rc)) =
        map tg_id (all_targets cfg) @ cs \<and> subseq cs (map cp_id (all_clis cfg))"
      using target_runs_recorded [OF a(2)] cli_runs_recorded [OF c(2)] by auto
  qed
qed

section \<open>Properties of the sweep\<close>

text \<open>C10. The daemon never upgrades an app behind the user's back: in the trace of a sweep,
  every upgrade run of an app comes right after an update check of that app that found a
  new version and a probe that found the app closed, and every upgrade of a tool right
  after a load check that did not ask to defer.\<close>

theorem sweep_guarded: "guarded (ts_trace (snd (sweep t cfg (s\<lparr>ts_trace := []\<rparr>))))"
proof -
  obtain new where "ts_trace (snd (sweep t cfg (s\<lparr>ts_trace := []\<rparr>))) = [] @ new" "guarded new"
    using sweep_calls [of t cfg "s\<lparr>ts_trace := []\<rparr>"] by auto
  then show ?thesis by simp
qed

text \<open>
  One turn of the loop records one result for every app in configuration order, then
  at most one for every tool, and the cadence follows the records: the next sweep is half
  an hour away when some result of this sweep was deferred, six hours otherwise.\<close>

theorem loop_turn_timing:
  fixes s :: "'w tick_state"
  defines "start \<equiv> s\<lparr>ts_trace := []\<rparr>"
  shows "let s' = loop_turn t cfg False start; new = ts_trace s' in
     us_interval (ts_state s') = (if list_ex outcome_deferred new then 1800 else 21600) \<and>
     us_next (ts_state s') = us_last (ts_state s') + us_interval (ts_state s') \<and>
     (\<exists>cs. recorded_ids new = map tg_id (all_targets cfg) @ cs \<and>
           subseq cs (map cp_id (all_clis cfg)))"
proof -
  obtain new where new: "ts_trace (snd (sweep t cfg start)) = new"
    "fst (sweep t cfg start) \<longleftrightarrow> list_ex outcome_deferred new"
    "\<exists>cs. recorded_ids new = map tg_id (all_targets cfg) @ cs \<and> subseq cs (map cp_id (all_clis cfg))"
    using sweep_calls [of t cfg start] by (auto simp: start_def)
  obtain d s1 where sw: "sweep t cfg start = (d, s1)" by fastforce
  obtain now w where "tk_now t (ts_world s1) = (now, w)" by fastforce
  with sw new show ?thesis
    by (auto simp: loop_turn_def Let_def ts_call_eq set_timing_def tick_interval_def)
qed

text \<open>The status report is a function of the state alone, whatever order the maps
  iterate in: it lists every checked target once, sorted by id, with the last check
  recorded for it; it says running exactly when some job is running, and names each
  target of a running job once.\<close>

theorem updater_status_report:
  assumes "run_of exec_step new_executor ex" and "go_map_ok (us_checks snap)"
  shows "sorted (map ut_target (ur_targets (get_updater_status ex snap))) \<and>
         distinct (map ut_target (ur_targets (get_updater_status ex snap))) \<and>
         set (ur_targets (get_updater_status ex snap)) =
           (\<lambda>(id, c). \<lparr>ut_target = id, ut_check = c\<rparr>) ` set (us_checks snap) \<and>
         (ur_running (get_updater_status ex snap) \<longleftrightarrow>
           (\<exists>run. map_of (ex_jobs ex) run = Some Running)) \<and>
         distinct (map snd (ur_runs (get_updater_status ex snap)))"
proof -
  have inv: "exec_inv ex" using exec_sys.reachable_inv [OF assms(1)] .
  have ids: "map ut_target (ur_targets (get_updater_status ex snap)) = sorted_keys (us_checks snap)"
    by (simp add: get_updater_status_def Let_def comp_def)
  have tgts: "set (ur_targets (get_updater_status ex snap)) =
      (\<lambda>(id, c). \<lparr>ut_target = id, ut_check = c\<rparr>) ` set (us_checks snap)"
    using assms(2)
    by (force simp: get_updater_status_def Let_def go_map_ok_def image_iff
        intro: rev_image_eqI dest: map_of_is_SomeI)
  have run: "ur_running (get_updater_status ex snap) \<longleftrightarrow> set (ex_runs ex) \<noteq> {}"
    using set_active_matching [of ex "[]" "[]"]
    by (auto simp: get_updater_status_def Let_def active_runs_def)
  have jobs: "set (ex_runs ex) \<noteq> {} \<longleftrightarrow> (\<exists>run. map_of (ex_jobs ex) run = Some Running)"
    using exec_invD(3) [OF inv] exec_invD(4) [OF inv]
    by (metis ex_in_conv prod.collapse)
  have dist: "distinct (map snd (ur_runs (get_updater_status ex snap)))"
    using distinct_active_targets [OF inv]
    by (simp add: get_updater_status_def Let_def active_runs_def comp_def)
  show ?thesis using ids tgts run jobs dist assms(2) by simp
qed

lemma updater_status_report_witness:
  "ur_running (get_updater_status new_executor (record_check ''a'' (failed_check 7) new_updater_state))
     \<longleftrightarrow> (\<exists>run. map_of (ex_jobs new_executor) run = Some Running)"
  using updater_status_report [OF run_start,
      of "record_check ''a'' (failed_check 7) new_updater_state"]
  by (simp add: record_check_def new_updater_state_def go_map_ok_def)

end
