(* ===== verification/Updater_Monitor.thy ===== *)
theory Updater_Monitor
  imports Updater_Tick
begin

text \<open>
  \<open>runCLIUpgradeWithLoadMonitor\<close> and \<open>monitorCLIUpgradeLoad\<close> of
  \<open>internal/daemon/tick.go\<close>: the upgrade and the load monitor are two goroutines that
  share the upgrade's context, the channel \<open>doneCh\<close> the main one closes and the channel
  \<open>deferredCh\<close> of capacity one. The system is a step relation over both program counters;
  what the upgrade returns, when the monitor's timer fires and what a load check finds are
  left to the environment.
\<close>

datatype main_pc = Upgrading | Attempted bool | Selecting bool | Returned_outcome cli_upgrade_outcome
datatype monitor_pc = Waiting | Checking | Offering load_decision | Cancelling | Stopped

record monitor_sys =
  ms_main :: main_pc
  ms_mon :: monitor_pc
  ms_parent :: bool     \<comment> \<open>the daemon's context is cancelled\<close>
  ms_cancelled :: bool  \<comment> \<open>\<open>cancel\<close> was called on \<open>upgradeCtx\<close>\<close>
  ms_done :: bool       \<comment> \<open>\<open>doneCh\<close> is closed\<close>
  ms_deferred :: "load_decision option"  \<comment> \<open>what is in \<open>deferredCh\<close>\<close>
  ms_seen :: "load_decision list"    \<comment> \<open>history: the decisions the monitor got, newest first\<close>
  ms_ok :: "bool option"             \<comment> \<open>history: what the upgrade returned\<close>
  ms_interrupted :: bool             \<comment> \<open>history: the monitor cancelled before the call returned\<close>

definition ms_ctx_err :: "monitor_sys \<Rightarrow> bool" where
  "ms_ctx_err s \<longleftrightarrow> ms_parent s \<or> ms_cancelled s"

definition monitor_start :: monitor_sys where
  "monitor_start = \<lparr>ms_main = Upgrading, ms_mon = Waiting, ms_parent = False, ms_cancelled = False,
     ms_done = False, ms_deferred = None, ms_seen = [], ms_ok = None,
     ms_interrupted = False\<rparr>"

text \<open>The outcome of the final \<open>select\<close> and the two checks of its default branch.\<close>

definition monitored_outcome :: "load_decision option \<Rightarrow> bool \<Rightarrow> bool \<Rightarrow> cli_upgrade_outcome" where
  "monitored_outcome deferred attempted ctx_err =
     (case deferred of
        Some d \<Rightarrow> CliDeferred
      | None \<Rightarrow> if \<not> attempted then CliAborted else if ctx_err then CliAborted else CliCompleted)"

definition main_returned :: "monitor_sys \<Rightarrow> cli_upgrade_outcome option" where
  "main_returned s = (case ms_main s of Returned_outcome r \<Rightarrow> Some r | _ \<Rightarrow> None)"

inductive monitor_step :: "monitor_sys \<Rightarrow> monitor_sys \<Rightarrow> bool" where
  mo_parent: "monitor_step s (s\<lparr>ms_parent := True\<rparr>)"
| mo_upgrade: "ms_main s = Upgrading \<Longrightarrow> monitor_step s (s\<lparr>ms_main := Attempted ok, ms_ok := Some ok\<rparr>)"
| mo_close: "ms_main s = Attempted ok \<Longrightarrow>
    monitor_step s (s\<lparr>ms_main := Selecting ok, ms_done := True\<rparr>)"
| mo_select: "ms_main s = Selecting ok \<Longrightarrow>
    monitor_step s (s\<lparr>ms_main := Returned_outcome (monitored_outcome (ms_deferred s) ok (ms_ctx_err s)),
                     ms_deferred := None,
                     ms_cancelled := True\<rparr>)"
| mo_stop: "ms_mon s = Waiting \<Longrightarrow> ms_ctx_err s \<or> ms_done s \<Longrightarrow>
    monitor_step s (s\<lparr>ms_mon := Stopped\<rparr>)"
| mo_timer: "ms_mon s = Waiting \<Longrightarrow> monitor_step s (s\<lparr>ms_mon := Checking\<rparr>)"
| mo_continue: "ms_mon s = Checking \<Longrightarrow> ld_err d \<noteq> None \<or> \<not> ld_defer d \<Longrightarrow>
    monitor_step s (s\<lparr>ms_mon := Waiting, ms_seen := d # ms_seen s\<rparr>)"
| mo_overload: "ms_mon s = Checking \<Longrightarrow> ld_err d = None \<Longrightarrow> ld_defer d \<Longrightarrow>
    monitor_step s (s\<lparr>ms_mon := Offering d, ms_seen := d # ms_seen s\<rparr>)"
| mo_offer: "ms_mon s = Offering d \<Longrightarrow>
    monitor_step s (s\<lparr>ms_mon := Cancelling,
                     ms_deferred := (case ms_deferred s of None \<Rightarrow> Some d | Some d' \<Rightarrow> Some d')\<rparr>)"
| mo_cancel: "ms_mon s = Cancelling \<Longrightarrow>
    monitor_step s (s\<lparr>ms_mon := Stopped, ms_cancelled := True,
                     ms_interrupted := (ms_interrupted s \<or> main_returned s = None)\<rparr>)"

inductive_cases monitor_stepE: "monitor_step s t"

text \<open>
  The invariant: before the main goroutine has selected, the context is cancelled by this
  function only after the decision is in the channel, and a decision in the channel is an
  overload the monitor found; a finished call returned what those facts allow.
\<close>

definition overload :: "load_decision \<Rightarrow> bool" where
  "overload d \<longleftrightarrow> ld_err d = None \<and> ld_defer d"

definition monitor_inv :: "monitor_sys \<Rightarrow> bool" where
  "monitor_inv s \<longleftrightarrow>
     (main_returned s = None \<and> (ms_cancelled s \<or> ms_interrupted s \<or> ms_mon s = Cancelling) \<longrightarrow>
        ms_deferred s \<noteq> None) \<and>
     (\<forall>d. ms_deferred s = Some d \<longrightarrow> overload d \<and> d \<in> set (ms_seen s)) \<and>
     (\<forall>d. ms_mon s = Offering d \<longrightarrow> overload d \<and> d \<in> set (ms_seen s)) \<and>
     (\<forall>ok. ms_main s = Attempted ok \<or> ms_main s = Selecting ok \<longrightarrow> ms_ok s = Some ok) \<and>
     (\<forall>r. main_returned s = Some r \<longrightarrow>
        (ms_interrupted s \<longrightarrow> r = CliDeferred) \<and>
        (r = CliDeferred \<longrightarrow> list_ex overload (ms_seen s)) \<and>
        (r = CliCompleted \<longrightarrow> ms_ok s = Some True) \<and>
        (r = CliAborted \<longrightarrow> ms_ok s = Some False \<or> ms_parent s))"

interpretation monitor: safe_system monitor_step monitor_start monitor_inv
proof
  show "monitor_inv monitor_start"
    by (simp add: monitor_inv_def monitor_start_def main_returned_def)
next
  fix s t assume inv: "monitor_inv s" and step: "monitor_step s t"
  from step show "monitor_inv t"
    by cases
       (use inv in \<open>auto simp: monitor_inv_def main_returned_def monitored_outcome_def overload_def
           list_ex_iff ms_ctx_err_def split: option.splits main_pc.splits if_splits\<close>)
qed

text \<open>
  The whole function: without daemon deferral there is no monitor, and the upgrade's own
  result decides; \<open>monitored\<close> is a run of the system above.
\<close>

definition run_cli_upgrade_with_load_monitor ::
  "cli_program \<Rightarrow> bool \<Rightarrow> bool \<Rightarrow> cli_upgrade_outcome \<Rightarrow> cli_upgrade_outcome" where
  "run_cli_upgrade_with_load_monitor program attempted ctx_err monitored =
     (if \<not> df_enabled (cp_deferral program)
      then (if \<not> attempted then CliAborted else if ctx_err then CliAborted else CliCompleted)
      else monitored)"

text \<open>C31. However the upgrade and the load monitor interleave: an upgrade the monitor
  interrupted is reported as deferred, never as failed or done; it is reported as deferred
  only when a load check really asked for it; it is reported as done only when the upgrade
  returned success; and as aborted only when it failed or the daemon is shutting down.\<close>

theorem monitored_outcomes:
  assumes "run_of monitor_step monitor_start s" and "ms_main s = Returned_outcome r"
  shows "(ms_interrupted s \<longrightarrow> r = CliDeferred) \<and>
         (r = CliDeferred \<longrightarrow> (\<exists>d\<in>set (ms_seen s). ld_err d = None \<and> ld_defer d)) \<and>
         (r = CliCompleted \<longrightarrow> ms_ok s = Some True) \<and>
         (r = CliAborted \<longrightarrow> ms_ok s = Some False \<or> ms_parent s)"
  using monitor.reachable_inv [OF assms(1)] assms(2)
  by (auto simp: monitor_inv_def main_returned_def overload_def list_ex_iff)

lemma monitored_outcomes_witness:
  "\<exists>s. run_of monitor_step monitor_start s \<and> ms_main s = Returned_outcome CliDeferred \<and>
       (\<exists>d\<in>set (ms_seen s). ld_err d = None \<and> ld_defer d)"
proof -
  let ?d = "(no_load_decision None)\<lparr>ld_defer := True\<rparr>"
  note stp = run_step [where step = monitor_step]
  have 1: "run_of monitor_step monitor_start (monitor_start\<lparr>ms_mon := Checking\<rparr>)" (is "run_of _ _ ?s1")
    by (rule stp [OF run_start]) (rule mo_timer, simp add: monitor_start_def)
  have 2: "run_of monitor_step monitor_start (?s1\<lparr>ms_mon := Offering ?d, ms_seen := ?d # ms_seen ?s1\<rparr>)"
    (is "run_of _ _ ?s2")
    by (rule stp [OF 1]) (rule mo_overload, simp_all add: no_load_decision_def)
  have 3: "run_of monitor_step monitor_start (?s2\<lparr>ms_mon := Cancelling, ms_deferred :=
      (case ms_deferred ?s2 of None \<Rightarrow> Some ?d | Some d' \<Rightarrow> Some d')\<rparr>)" (is "run_of _ _ ?s3")
    by (rule stp [OF 2]) (rule mo_offer, simp)
  have 4: "run_of monitor_step monitor_start (?s3\<lparr>ms_main := Attempted False, ms_ok := Some False\<rparr>)"
    (is "run_of _ _ ?s4")
    by (rule stp [OF 3]) (rule mo_upgrade, simp add: monitor_start_def)
  have 5: "run_of monitor_step monitor_start (?s4\<lparr>ms_main := Selecting False, ms_done := True\<rparr>)"
    (is "run_of _ _ ?s5")
    by (rule stp [OF 4]) (rule mo_close, simp)
  have 6: "run_of monitor_step monitor_start (?s5\<lparr>ms_main := Returned_outcome
      (monitored_outcome (ms_deferred ?s5) False (ms_ctx_err ?s5)), ms_deferred := None,
      ms_cancelled := True\<rparr>)" (is "run_of _ _ ?s6")
    by (rule stp [OF 5]) (rule mo_select, simp)
  have r: "ms_main ?s6 = Returned_outcome CliDeferred"
    by (simp add: monitored_outcome_def monitor_start_def)
  show ?thesis using monitored_outcomes [OF 6 r] 6 r by blast
qed

end
