(* ===== verification/Registry.thy ===== *)
theory Registry
  imports Config_Facts
begin

text \<open>
  The registries of the program and their composition: the capability catalogue
  (\<open>internal/catalog\<close>), the operation handlers (\<open>internal/operations\<close>), the helper
  entrypoints (\<open>internal/helperdispatch\<close>), the patch hooks (\<open>internal/patch/hooks.go\<close>), the
  app validators (\<open>internal/extensions\<close>) and \<open>internal/composition\<close>, which fills them
  all at startup. A handler is a Go function value; here it is any value, nil is \<open>None\<close>,
  and the composition uses the functions' qualified names.
\<close>

datatype reg_error =
    NameRequired
  | NotLinked string
  | HandlerRequired string
  | AlreadyRegistered string
  | NoHandler string

section \<open>One registry\<close>

text \<open>The tail every \<open>Register\<close> function shares, under the registry's lock.\<close>

definition reg_insert :: "string \<Rightarrow> 'h \<Rightarrow> 'h gomap \<Rightarrow> (reg_error, 'h gomap) result" where
  "reg_insert name h m = (if has_key m name then Inl (AlreadyRegistered name)
                          else Inr (AList.update name h m))"

definition register_capability ::
  "string \<Rightarrow> unit gomap \<Rightarrow> (reg_error, unit gomap) result" where
  "register_capability name caps =
     (if name = [] then Inl NameRequired else reg_insert name () caps)"

text \<open>\<open>operations.Register\<close>, \<open>registerLifecycleHook\<close>, \<open>RegisterPreLaunchPolicyHook\<close>.\<close>

definition register_linked ::
  "unit gomap \<Rightarrow> string \<Rightarrow> 'h option \<Rightarrow> 'h gomap \<Rightarrow> (reg_error, 'h gomap) result" where
  "register_linked catalog name h m =
     (if \<not> has_key catalog name then Inl (NotLinked name)
      else case h of None \<Rightarrow> Inl (HandlerRequired name) | Some f \<Rightarrow> reg_insert name f m)"

text \<open>\<open>helperdispatch.Register\<close>, \<open>registerNamedHook\<close>, \<open>RegisterAppValidator\<close>.\<close>

definition register_named ::
  "string \<Rightarrow> 'h option \<Rightarrow> 'h gomap \<Rightarrow> (reg_error, 'h gomap) result" where
  "register_named name h m =
     (if name = [] then Inl NameRequired
      else case h of None \<Rightarrow> Inl (HandlerRequired name) | Some f \<Rightarrow> reg_insert name f m)"

text \<open>\<open>RegisterBundleExtension\<close>: both handlers of the pair must be there.\<close>

definition register_bundle_extension ::
  "string \<Rightarrow> 'h option \<Rightarrow> 'h option \<Rightarrow> ('h \<times> 'h) gomap \<Rightarrow>
     (reg_error, ('h \<times> 'h) gomap) result" where
  "register_bundle_extension name mutate verify m =
     (if name = [] then Inl NameRequired
      else case mutate of None \<Rightarrow> Inl (HandlerRequired name)
       | Some f \<Rightarrow> (case verify of None \<Rightarrow> Inl (HandlerRequired name)
          | Some g \<Rightarrow> reg_insert name (f, g) m))"

text \<open>
  What every registry promises: a registration makes its handler the one found, touches no
  other name, and never replaces a handler.
\<close>

locale registry =
  fixes add :: "string \<Rightarrow> 'x \<Rightarrow> 'h gomap \<Rightarrow> (reg_error, 'h gomap) result"
    and handler_of :: "'x \<Rightarrow> 'h option"
  assumes add_Inr: "add name x m = Inr m' \<Longrightarrow>
      map_of m name = None \<and> (\<exists>h. handler_of x = Some h \<and> map_of m' = (map_of m)(name \<mapsto> h))"
    and add_ok: "go_map_ok m \<Longrightarrow> add name x m = Inr m' \<Longrightarrow> go_map_ok m'"
begin

text \<open>A sequence of registrations, stopped by the first error, as start-up runs it.\<close>

fun add_all :: "(string \<times> 'x) list \<Rightarrow> 'h gomap \<Rightarrow> (reg_error, 'h gomap) result" where
  "add_all [] m = Inr m"
| "add_all ((n, x) # rest) m = rbind (add n x m) (add_all rest)"

lemma add_all_keeps: "add_all xs m = Inr m' \<Longrightarrow> map_of m name = Some h \<Longrightarrow> map_of m' name = Some h"
proof (induction xs m rule: add_all.induct)
  case (2 n x rest m)
  then obtain m1 where m1: "add n x m = Inr m1" "add_all rest m1 = Inr m'"
    by (auto simp: guard_simps)
  with add_Inr [OF m1(1)] 2(3) have "map_of m1 name = Some h" by (cases "n = name") auto
  with 2(1) m1 show ?case by blast
qed simp

lemma add_all_finds:
  "add_all xs m = Inr m' \<Longrightarrow> (name, x) \<in> set xs \<Longrightarrow>
     \<exists>h. handler_of x = Some h \<and> map_of m' name = Some h"
proof (induction xs m rule: add_all.induct)
  case (2 n y rest m)
  then obtain m1 where m1: "add n y m = Inr m1" "add_all rest m1 = Inr m'"
    by (auto simp: guard_simps)
  show ?case
  proof (cases "(name, x) = (n, y)")
    case True
    with add_Inr [OF m1(1)] obtain h where "handler_of x = Some h" "map_of m1 name = Some h" by auto
    with add_all_keeps [OF m1(2)] show ?thesis by blast
  next
    case False
    with 2 m1 show ?thesis by auto
  qed
qed simp

lemma add_all_distinct: "add_all xs m = Inr m' \<Longrightarrow> distinct (map fst xs) \<and> fst ` set xs \<inter> dom (map_of m) = {}"
proof (induction xs m rule: add_all.induct)
  case (2 n x rest m)
  then obtain m1 where m1: "add n x m = Inr m1" "add_all rest m1 = Inr m'"
    by (auto simp: guard_simps)
  with add_Inr [OF m1(1)] 2(1) show ?case by fastforce
qed simp

end

lemma reg_insert_Inr:
  "reg_insert name h m = Inr m' \<longleftrightarrow> map_of m name = None \<and> m' = AList.update name h m"
  by (auto simp: reg_insert_def has_key_def)

interpretation capabilities: registry "\<lambda>n _. register_capability n" "\<lambda>x :: unit. Some ()"
  by unfold_locales (auto simp: register_capability_def reg_insert_Inr split: if_splits)

interpretation linked: registry "register_linked catalog" "\<lambda>x. x" for catalog
  by unfold_locales
     (auto simp: register_linked_def reg_insert_Inr split: if_splits option.splits)

interpretation named: registry register_named "\<lambda>x. x"
  by unfold_locales
     (auto simp: register_named_def reg_insert_Inr split: if_splits option.splits)

interpretation paired: registry "\<lambda>n (f, g). register_bundle_extension n f g"
    "\<lambda>(f, g). case f of None \<Rightarrow> None | Some a \<Rightarrow> map_option (Pair a) g"
  by unfold_locales
     (auto simp: register_bundle_extension_def reg_insert_Inr split: if_splits option.splits)

section \<open>Running what is registered\<close>

text \<open>\<open>Operations.Run\<close>: what the handler does is an argument.\<close>

datatype 'e dispatch_error = UnknownCapability string | HandlerFailed 'e

definition run_operation ::
  "'h gomap \<Rightarrow> string \<Rightarrow> ('h \<Rightarrow> 'w \<Rightarrow> 'e option \<times> 'w) \<Rightarrow> 'w \<Rightarrow> 'e dispatch_error option \<times> 'w" where
  "run_operation handlers capability call w =
     (case map_of handlers capability of
        None \<Rightarrow> (Some (UnknownCapability capability), w)
      | Some h \<Rightarrow> (let (e, w') = call h w in (map_option HandlerFailed e, w')))"

text \<open>\<open>RunIfMatched\<close>: the first helper, in name order, that claims the invocation.\<close>

fun first_match :: "('h \<Rightarrow> int option) \<Rightarrow> 'h list \<Rightarrow> int option" where
  "first_match claims [] = None"
| "first_match claims (h # hs) = (case claims h of Some code \<Rightarrow> Some code | None \<Rightarrow> first_match claims hs)"

definition run_if_matched :: "'h gomap \<Rightarrow> ('h \<Rightarrow> int option) \<Rightarrow> int option" where
  "run_if_matched helpers claims =
     first_match claims (map (\<lambda>n. the (map_of helpers n)) (sorted_keys helpers))"

text \<open>\<open>runBundleExtensions\<close> and \<open>runNamedHooks\<close>: in name order, up to the first error.\<close>

type_synonym 'w hook = "'w \<Rightarrow> string option \<times> 'w"

fun run_in_order :: "(string \<times> 'w hook) list \<Rightarrow> 'w hook" where
  "run_in_order [] w = (None, w)"
| "run_in_order ((n, h) # rest) w =
     (case h w of (Some e, w') \<Rightarrow> (Some (n @ '': '' @ e), w') | (None, w') \<Rightarrow> run_in_order rest w')"

definition run_named_hooks :: "'w hook gomap \<Rightarrow> 'w hook" where
  "run_named_hooks hooks w =
     run_in_order (map (\<lambda>n. (n, the (map_of hooks n))) (sorted_keys hooks)) w"

definition run_bundle_extensions :: "('x \<Rightarrow> 'w hook) \<Rightarrow> 'x gomap \<Rightarrow> 'w hook" where
  "run_bundle_extensions select exts w =
     run_in_order (map (\<lambda>n. (n, select (the (map_of exts n)))) (sorted_keys exts)) w"

text \<open>
  \<open>runPostPatchHook\<close> and \<open>runPreLaunchPolicyHook\<close>: look one hook up and run it. The
  pre-launch hook gets the target by pointer: the target is part of the state it works on.
\<close>

definition run_hook :: "'w hook gomap \<Rightarrow> string \<Rightarrow> 'w \<Rightarrow> string dispatch_error option \<times> 'w" where
  "run_hook hooks capability w =
     (case map_of hooks capability of
        None \<Rightarrow> (Some (UnknownCapability capability), w)
      | Some h \<Rightarrow> (let (e, w') = h w in (map_option HandlerFailed e, w')))"

section \<open>The composition\<close>

record registries =
  rg_operations :: "unit gomap"
  rg_patch_hooks :: "unit gomap"
  rg_prelaunch :: "unit gomap"
  rg_handlers :: "string gomap"
  rg_post_patch :: "string gomap"
  rg_pre_launch_hooks :: "string gomap"
  rg_extensions :: "(string \<times> string) gomap"
  rg_post_bundle :: "string gomap"
  rg_helpers :: "string gomap"
  rg_validators :: "string gomap"

definition empty_registries :: registries where
  "empty_registries = \<lparr>rg_operations = [], rg_patch_hooks = [], rg_prelaunch = [], rg_handlers = [],
     rg_post_patch = [], rg_pre_launch_hooks = [], rg_extensions = [], rg_post_bundle = [],
     rg_helpers = [], rg_validators = []\<rparr>"

type_synonym reg_step = "registries \<Rightarrow> (reg_error, registries) result"

text \<open>\<open>if !catalog.Has(cap) { catalog.Register(cap) }; Register(cap, handler)\<close>.\<close>

definition ensure_linked :: "string \<Rightarrow> unit gomap \<Rightarrow> (reg_error, unit gomap) result" where
  "ensure_linked cap caps = (if has_key caps cap then Inr caps else register_capability cap caps)"

definition link_operation :: "string \<Rightarrow> string \<Rightarrow> reg_step" where
  "link_operation cap handler rg =
     rbind (ensure_linked cap (rg_operations rg)) (\<lambda>caps.
     rbind (register_linked caps cap (Some handler) (rg_handlers rg)) (\<lambda>hs.
       Inr (rg\<lparr>rg_operations := caps, rg_handlers := hs\<rparr>)))"

definition register_core_handlers :: reg_step where
  "register_core_handlers = link_operation ''app.status'' ''operations.AppStatus''"

definition register_patch_operations :: reg_step where
  "register_patch_operations rg =
     rbind (link_operation ''app.patch'' ''patch.Operation'' rg)
       (link_operation ''app.keychain-migrate'' ''patch.KeychainMigrateOperation'')"

definition register_hard_reset_operations :: reg_step where
  "register_hard_reset_operations = link_operation ''app.hard-reset'' ''hardreset.Operation''"

definition register_upgrade_operations :: reg_step where
  "register_upgrade_operations = link_operation ''app.upgrade'' ''upgrade.Operation''"

definition register_codex_operations :: reg_step where
  "register_codex_operations rg =
     rbind (link_operation ''standalone-cli.install'' ''codexcli.InstallOperation'' rg)
       (link_operation ''standalone-cli.status'' ''codexcli.StatusOperation'')"

definition register_helper :: "string \<Rightarrow> string \<Rightarrow> reg_step" where
  "register_helper name handler rg =
     rbind (register_named name (Some handler) (rg_helpers rg)) (\<lambda>m. Inr (rg\<lparr>rg_helpers := m\<rparr>))"

definition register_app_validator :: "string \<Rightarrow> string \<Rightarrow> reg_step" where
  "register_app_validator name validator rg =
     rbind (register_named name (Some validator) (rg_validators rg))
       (\<lambda>m. Inr (rg\<lparr>rg_validators := m\<rparr>))"

definition register_cu_lifecycle_hooks :: reg_step where
  "register_cu_lifecycle_hooks rg =
     rbind (register_bundle_extension ''computer-use-bundled''
        (Some ''computeruseext.MutateBundledComputerUse'')
        (Some ''computeruseext.VerifyBundledComputerUse'') (rg_extensions rg)) (\<lambda>m.
     rbind (register_named ''computer-use'' (Some ''computeruseext.LifecycleHook'')
        (rg_post_bundle rg)) (\<lambda>h.
       Inr (rg\<lparr>rg_extensions := m, rg_post_bundle := h\<rparr>)))"

definition register_codex_prelaunch_hooks :: reg_step where
  "register_codex_prelaunch_hooks rg =
     rbind (ensure_linked ''codex-cli-shim'' (rg_prelaunch rg)) (\<lambda>caps.
     rbind (register_linked caps ''codex-cli-shim'' (Some ''codexclishim.PreLaunchPolicyHook'')
        (rg_pre_launch_hooks rg)) (\<lambda>hs.
       Inr (rg\<lparr>rg_prelaunch := caps, rg_pre_launch_hooks := hs\<rparr>)))"

definition register_tee_patch_hooks :: reg_step where
  "register_tee_patch_hooks rg =
     rbind (ensure_linked ''bundled-cli-tee'' (rg_patch_hooks rg)) (\<lambda>caps.
     rbind (register_linked caps ''bundled-cli-tee'' (Some ''bundledclitee.PostPatchHook'')
        (rg_post_patch rg)) (\<lambda>hs.
       Inr (rg\<lparr>rg_patch_hooks := caps, rg_post_patch := hs\<rparr>)))"

text \<open>\<open>validateLinkedCapabilities\<close>: the first capability, in order, without its handler.\<close>

definition validate_linked_capabilities :: "registries \<Rightarrow> reg_error option" where
  "validate_linked_capabilities rg = first_err (
     map (\<lambda>c. (\<not> has_key (rg_handlers rg) c, NoHandler c)) (sorted_keys (rg_operations rg)) @
     map (\<lambda>c. (\<not> has_key (rg_post_patch rg) c, NoHandler c)) (sorted_keys (rg_patch_hooks rg)) @
     map (\<lambda>c. (\<not> has_key (rg_pre_launch_hooks rg) c, NoHandler c)) (sorted_keys (rg_prelaunch rg)))"

fun run_steps :: "reg_step list \<Rightarrow> reg_step" where
  "run_steps [] rg = Inr rg"
| "run_steps (f # fs) rg = rbind (f rg) (run_steps fs)"

definition composition_register :: "registries \<Rightarrow> (reg_error, registries) result" where
  "composition_register rg0 =
     rbind (run_steps
        [register_helper ''stdio-tee'' ''stdioteeshim.Run'',
         register_helper ''dvc-codex-cli-shim'' ''codexclishim.Run'',
         register_app_validator ''computer_use'' ''extensions.ValidateComputerUse'',
         register_app_validator ''codex_cli_shim'' ''extensions.ValidateCodexCLIShim'',
         register_app_validator ''bundled_cli_tee'' ''extensions.ValidateBundledCLITee'',
         register_core_handlers, register_patch_operations, register_hard_reset_operations,
         register_cu_lifecycle_hooks, register_codex_prelaunch_hooks,
         register_upgrade_operations, register_codex_operations, register_tee_patch_hooks] rg0)
       (\<lambda>rg. of_err (validate_linked_capabilities rg) rg)"

end
