(* ===== verification/Registry_Props.thy ===== *)
theory Registry_Props
  imports Registry Config_Props
begin

text \<open>
  What start-up and config loading together guarantee: every capability a loaded
  configuration names has a registered handler, and dispatch does not depend on map order.
\<close>

text \<open>The catalogue as the loader sees it, and the validators it runs.\<close>

definition linked_capabilities :: "registries \<Rightarrow> capability_sets" where
  "linked_capabilities rg = \<lparr>cap_operations = set (go_keys (rg_operations rg)),
     cap_patch_hooks = set (go_keys (rg_patch_hooks rg)),
     cap_prelaunch_hooks = set (go_keys (rg_prelaunch rg))\<rparr>"

definition validator_function :: "capability_sets \<Rightarrow> string \<Rightarrow> app_validator" where
  "validator_function caps name =
     (if name = ''extensions.ValidateComputerUse'' then validate_computer_use
      else if name = ''extensions.ValidateCodexCLIShim'' then validate_codex caps
      else validate_tee caps)"

definition linked_validators :: "registries \<Rightarrow> app_validator gomap" where
  "linked_validators rg =
     map (\<lambda>(n, f). (n, validator_function (linked_capabilities rg) f)) (rg_validators rg)"

lemma composition_validated:
  assumes "composition_register rg0 = Inr rg"
  shows "validate_linked_capabilities rg = None"
  using assms by (auto simp: composition_register_def guard_simps)

lemma linked_has_handler:
  assumes "validate_linked_capabilities rg = None"
  shows "c \<in> cap_operations (linked_capabilities rg) \<Longrightarrow> \<exists>h. map_of (rg_handlers rg) c = Some h"
    and "c \<in> cap_patch_hooks (linked_capabilities rg) \<Longrightarrow> \<exists>h. map_of (rg_post_patch rg) c = Some h"
    and "c \<in> cap_prelaunch_hooks (linked_capabilities rg) \<Longrightarrow>
         \<exists>h. map_of (rg_pre_launch_hooks rg) c = Some h"
proof -
  have all: "\<forall>c\<in>fst ` set (rg_operations rg). has_key (rg_handlers rg) c"
    "\<forall>c\<in>fst ` set (rg_patch_hooks rg). has_key (rg_post_patch rg) c"
    "\<forall>c\<in>fst ` set (rg_prelaunch rg). has_key (rg_pre_launch_hooks rg) c"
    using assms
    by (auto simp: validate_linked_capabilities_def first_err_None_iff ball_Un image_iff)
  then show "c \<in> cap_operations (linked_capabilities rg) \<Longrightarrow> \<exists>h. map_of (rg_handlers rg) c = Some h"
    and "c \<in> cap_patch_hooks (linked_capabilities rg) \<Longrightarrow> \<exists>h. map_of (rg_post_patch rg) c = Some h"
    and "c \<in> cap_prelaunch_hooks (linked_capabilities rg) \<Longrightarrow>
         \<exists>h. map_of (rg_pre_launch_hooks rg) c = Some h"
    by (auto simp: linked_capabilities_def has_key_def)
qed

lemma validate_app_ext_None:
  assumes "validate_app_ext validators path x = None" and "map_of validators n = Some v"
  shows "v path x = None"
proof -
  let ?errs = "map (\<lambda>n. (the (map_of validators n)) path x) (sorted_keys validators)"
  have "find (\<lambda>r. r \<noteq> None) ?errs = None"
  proof (cases "find (\<lambda>r. r \<noteq> None) ?errs")
    case (Some r)
    then have "r \<noteq> None" by (auto simp: find_Some_iff)
    with assms(1) Some show ?thesis by (simp add: validate_app_ext_def Let_def)
  qed
  then have "\<forall>r\<in>set ?errs. r = None" by (auto simp: find_None_iff)
  moreover have "n \<in> fst ` set validators" using map_of_SomeD [OF assms(2)] by force
  ultimately show ?thesis using assms(2) by force
qed

lemma normalize_app_validated:
  assumes "normalize_app env caps validators key a = Inr a'"
  shows "\<exists>path. validate_app_ext validators path (app_ext a') = None"
  using assms by (auto simp: normalize_app_def Let_def guard_simps)

lemma loaded_app:
  assumes "normalize_and_validate env caps validators cfg = Inr cfg'" and "(k, a) \<in> set (cfg_apps cfg')"
  obtains a0 where "normalize_app env caps validators k a0 = Inr a"
  using normalize_map_Inr(2) [OF normalize_and_validate_parts(1) [OF assms(1)] assms(2)] that by blast

lemma loaded_cli:
  assumes "normalize_and_validate env caps validators cfg = Inr cfg'" and "(k, c) \<in> set (cfg_clis cfg')"
  obtains c0 where "normalize_cli env caps k c0 = Inr c"
  using normalize_map_Inr(2) [OF normalize_and_validate_parts(2) [OF assms(1)] assms(2)] that by blast

definition composed :: registries where
  "composed = (case composition_register empty_registries of Inl _ \<Rightarrow> empty_registries | Inr rg \<Rightarrow> rg)"

text \<open>
  Start-up links what it should: from empty registries the composition succeeds,
  registers exactly the seven operation capabilities, one patch hook and one
  pre-launch-policy hook, each with its handler, and a second run would be refused.\<close>

theorem composition_complete:
  "composition_register empty_registries = Inr composed \<and>
   sorted_keys (rg_operations composed) = [''app.hard-reset'', ''app.keychain-migrate'', ''app.patch'',
      ''app.status'', ''app.upgrade'', ''standalone-cli.install'', ''standalone-cli.status''] \<and>
   go_keys (rg_patch_hooks composed) = [''bundled-cli-tee''] \<and>
   go_keys (rg_prelaunch composed) = [''codex-cli-shim''] \<and>
   map_of (rg_handlers composed) ''app.upgrade'' = Some ''upgrade.Operation'' \<and>
   map_of (rg_handlers composed) ''app.patch'' = Some ''patch.Operation'' \<and>
   map_of (rg_handlers composed) ''app.hard-reset'' = Some ''hardreset.Operation'' \<and>
   composition_register composed = Inl (AlreadyRegistered ''stdio-tee'')"
  by code_simp

lemma composed_validated: "validate_linked_capabilities composed = None"
  by code_simp

lemma composed_validators:
  "map_of (linked_validators composed) ''bundled_cli_tee'' =
     Some (validate_tee (linked_capabilities composed))"
  "map_of (linked_validators composed) ''codex_cli_shim'' =
     Some (validate_codex (linked_capabilities composed))"
proof -
  have reg: "map_of (rg_validators composed) ''bundled_cli_tee'' = Some ''extensions.ValidateBundledCLITee''"
    "map_of (rg_validators composed) ''codex_cli_shim'' = Some ''extensions.ValidateCodexCLIShim''"
    by code_simp+
  then show "map_of (linked_validators composed) ''bundled_cli_tee'' =
      Some (validate_tee (linked_capabilities composed))"
    "map_of (linked_validators composed) ''codex_cli_shim'' =
      Some (validate_codex (linked_capabilities composed))"
    by (simp_all add: linked_validators_def map_of_map validator_function_def)
qed

lemma app_hooks_linked:
  assumes "normalize_app env (linked_capabilities composed) (linked_validators composed) key a = Inr a'"
  shows "ext_tee (app_ext a') = Some t \<Longrightarrow>
      tee_capability t \<in> cap_patch_hooks (linked_capabilities composed)"
    and "ext_codex (app_ext a') = Some c \<Longrightarrow>
      cx_capability c \<in> cap_prelaunch_hooks (linked_capabilities composed)"
proof -
  obtain path where v: "validate_app_ext (linked_validators composed) path (app_ext a') = None"
    using normalize_app_validated [OF assms] by blast
  show "tee_capability t \<in> cap_patch_hooks (linked_capabilities composed)"
    if "ext_tee (app_ext a') = Some t"
    using validate_app_ext_None [OF v composed_validators(1)] that
    by (auto simp: validate_tee_def Let_def guard_simps)
  show "cx_capability c \<in> cap_prelaunch_hooks (linked_capabilities composed)"
    if "ext_codex (app_ext a') = Some c"
    using validate_app_ext_None [OF v composed_validators(2)] that
    by (auto simp: validate_codex_def Let_def guard_simps)
qed

text \<open>C37. No loaded configuration names a capability the program cannot run: after start-up,
  every operation of every app and CLI of an accepted configuration dispatches to a
  handler, and every bundled-CLI tee and Codex shim extension to its hook.\<close>

theorem loaded_operations_dispatch:
  assumes "normalize_and_validate env (linked_capabilities composed) (linked_validators composed) cfg =
      Inr cfg'"
  shows "(\<forall>(k, a)\<in>set (cfg_apps cfg').
            (\<forall>(j, op)\<in>set (app_operations a). \<exists>h. map_of (rg_handlers composed) (op_capability op) = Some h) \<and>
            (\<forall>t. ext_tee (app_ext a) = Some t \<longrightarrow>
               (\<exists>h. map_of (rg_post_patch composed) (tee_capability t) = Some h)) \<and>
            (\<forall>c. ext_codex (app_ext a) = Some c \<longrightarrow>
               (\<exists>h. map_of (rg_pre_launch_hooks composed) (cx_capability c) = Some h))) \<and>
         (\<forall>(k, c)\<in>set (cfg_clis cfg').
            \<forall>(j, op)\<in>set (cli_operations c). \<exists>h. map_of (rg_handlers composed) (op_capability op) = Some h)"
proof -
  note linked = linked_has_handler [OF composed_validated]
  have ops: "\<exists>h. map_of (rg_handlers composed) (op_capability op) = Some h"
    if "operation_ok (cap_operations (linked_capabilities composed)) op" for op
    using that linked(1) by (simp add: operation_ok_def)
  have app: "(\<forall>(j, op)\<in>set (app_operations a). \<exists>h. map_of (rg_handlers composed) (op_capability op) = Some h) \<and>
      (\<forall>t. ext_tee (app_ext a) = Some t \<longrightarrow> (\<exists>h. map_of (rg_post_patch composed) (tee_capability t) = Some h)) \<and>
      (\<forall>c. ext_codex (app_ext a) = Some c \<longrightarrow>
         (\<exists>h. map_of (rg_pre_launch_hooks composed) (cx_capability c) = Some h))"
    if ka: "(k, a) \<in> set (cfg_apps cfg')" for k a
  proof -
    obtain a0 where a0: "normalize_app env (linked_capabilities composed) (linked_validators composed) k a0 = Inr a"
      using loaded_app [OF assms ka] .
    show ?thesis
      using normalize_app_ok(1) [OF a0] ops linked(2,3) app_hooks_linked [OF a0]
      by (fastforce simp: app_ok_def)
  qed
  have cli: "\<forall>(j, op)\<in>set (cli_operations c). \<exists>h. map_of (rg_handlers composed) (op_capability op) = Some h"
    if kc: "(k, c) \<in> set (cfg_clis cfg')" for k c
  proof -
    obtain c0 where c0: "normalize_cli env (linked_capabilities composed) k c0 = Inr c"
      using loaded_cli [OF assms kc] .
    show ?thesis using normalize_cli_ok [OF c0] ops by (fastforce simp: cli_ok_def)
  qed
  from app cli show ?thesis by blast
qed

definition linked_app_out :: app_spec where
  "linked_app_out =
     (case normalize_app sample_env (linked_capabilities composed) (linked_validators composed)
        '' demo'' sample_app of Inl _ \<Rightarrow> sample_app | Inr a \<Rightarrow> a)"

lemma linked_app_eq:
  "normalize_app sample_env (linked_capabilities composed) (linked_validators composed)
     '' demo'' sample_app = Inr linked_app_out"
proof -
  have "(case normalize_app sample_env (linked_capabilities composed) (linked_validators composed)
      '' demo'' sample_app of Inl _ \<Rightarrow> False | Inr _ \<Rightarrow> True)" by code_simp
  then show ?thesis by (auto simp: linked_app_out_def split: sum.splits)
qed

definition linked_config :: go_config where
  "linked_config = sample_config\<lparr>cfg_identity := ''Dev'', cfg_clis := []\<rparr>"

lemma linked_config_loads:
  "normalize_and_validate sample_env (linked_capabilities composed) (linked_validators composed)
     linked_config =
   Inr (linked_config\<lparr>cfg_apps := [('' demo'', linked_app_out)]\<rparr>)"
proof -
  have tr: "trim_space ''Dev'' = ''Dev''" "trim_space ''TEAM'' = ''TEAM''" by code_simp+
  have cfg: "cfg_identity linked_config = ''Dev''" "cfg_team_id linked_config = ''TEAM''"
    "cfg_apps linked_config = [('' demo'', sample_app)]" "cfg_clis linked_config = []"
    by (simp_all add: linked_config_def sample_config_def)
  have same: "linked_config\<lparr>cfg_identity := ''Dev'', cfg_team_id := ''TEAM''\<rparr> = linked_config"
    by (simp add: linked_config_def sample_config_def)
  have v: "validate_signing_requirements linked_config = None"
    by (simp add: validate_signing_requirements_def cfg)
  have none: "normalize_map f [] = Inr []" for f :: "string \<Rightarrow> cli_spec \<Rightarrow> (config_error, cli_spec) result"
    by (simp add: normalize_map_def sorted_keys_def)
  have app: "normalize_map (normalize_app sample_env (linked_capabilities composed)
      (linked_validators composed)) [('' demo'', sample_app)] = Inr [('' demo'', linked_app_out)]"
    by (simp only: normalize_map_single linked_app_eq)
  show ?thesis
    unfolding normalize_and_validate_def Let_def cfg tr same v of_err_def none app
    by (simp add: linked_config_def)
qed

lemma loaded_operations_dispatch_witness:
  "list_all (\<lambda>(j, op). \<exists>h. map_of (rg_handlers composed) (op_capability op) = Some h)
     (app_operations linked_app_out)"
  using loaded_operations_dispatch [OF linked_config_loads] by (simp add: list_all_iff)

text \<open>Helpers, bundle extensions and named hooks run in an order the registration order
  does not show: two registries with the same entries behave alike.\<close>

theorem dispatch_order_independent:
  assumes "go_map_ok helpers" and "mset helpers = mset helpers'"
    and "go_map_ok hooks" and "mset hooks = mset hooks'"
    and "go_map_ok exts" and "mset exts = mset exts'"
  shows "run_if_matched helpers' claims = run_if_matched helpers claims \<and>
         run_named_hooks hooks' w = run_named_hooks hooks w \<and>
         run_bundle_extensions sel exts' w = run_bundle_extensions sel exts w"
  using map_of_perm [OF assms(1,2)] sorted_keys_perm [OF assms(2)]
    map_of_perm [OF assms(3,4)] sorted_keys_perm [OF assms(4)]
    map_of_perm [OF assms(5,6)] sorted_keys_perm [OF assms(6)]
  by (simp add: run_if_matched_def run_named_hooks_def run_bundle_extensions_def)

lemma dispatch_order_independent_witness:
  "run_if_matched [(''b'', 2), (''a'', 1)] (\<lambda>n :: int. Some n) =
   run_if_matched [(''a'', 1), (''b'', 2)] (\<lambda>n :: int. Some n)"
  using dispatch_order_independent [of "[(''a'', 1 :: int), (''b'', 2)]" "[(''b'', 2), (''a'', 1)]"
      "[] :: (unit hook) gomap" "[]" "[] :: unit gomap" "[]" "\<lambda>n. Some n"]
  by (simp add: go_map_ok_def add_mset_commute)

end
