(* ===== verification/Cmd_Flags.thy ===== *)
theory Cmd_Flags
  imports Config_Facts
begin

text \<open>
  \<open>internal/cmdflags/cmdflags.go\<close> and the \<open>FlagValues\<close> of
  \<open>internal/operations/operations.go\<close>: defaults, reads and overrides of configured flags.
  The maps inside a \<open>FlagValues\<close> are shared by its copies; every caller keeps one value,
  so a write is a new value here.
\<close>

record flag_values =
  fv_strings :: "string gomap"
  fv_bools :: "bool gomap"

definition new_flag_values :: flag_values where
  "new_flag_values = \<lparr>fv_strings = [], fv_bools = []\<rparr>"

definition set_string :: "string \<Rightarrow> string \<Rightarrow> flag_values \<Rightarrow> flag_values" where
  "set_string name v fv = fv\<lparr>fv_strings := AList.update name v (fv_strings fv)\<rparr>"

definition set_bool :: "string \<Rightarrow> bool \<Rightarrow> flag_values \<Rightarrow> flag_values" where
  "set_bool name v fv = fv\<lparr>fv_bools := AList.update name v (fv_bools fv)\<rparr>"

text \<open>A missing key reads as the zero value.\<close>

definition get_string :: "flag_values \<Rightarrow> string \<Rightarrow> string" where
  "get_string fv name = (case map_of (fv_strings fv) name of None \<Rightarrow> [] | Some v \<Rightarrow> v)"

definition get_bool :: "flag_values \<Rightarrow> string \<Rightarrow> bool" where
  "get_bool fv name = (case map_of (fv_bools fv) name of None \<Rightarrow> False | Some v \<Rightarrow> v)"

definition flag_set_bool :: "flag_spec \<Rightarrow> bool \<Rightarrow> flag_values \<Rightarrow> flag_values" where
  "flag_set_bool f v fv = set_bool (fl_binding f) v (set_bool (fl_name f) v fv)"

definition flag_set_string :: "flag_spec \<Rightarrow> string \<Rightarrow> flag_values \<Rightarrow> flag_values" where
  "flag_set_string f v fv = set_string (fl_binding f) v (set_string (fl_name f) v fv)"

datatype flag_error =
    UnknownFlag string
  | BadBool string string
  | UnsupportedType string
  | ReadFailed string

definition set_default :: "flag_spec \<Rightarrow> flag_values \<Rightarrow> flag_values" where
  "set_default f fv =
     (if fl_type f = flag_type_bool then
        flag_set_bool f (case fl_default_bool f of None \<Rightarrow> False | Some v \<Rightarrow> v) fv
      else if fl_type f = flag_type_string then flag_set_string f (fl_default_string f) fv
      else fv)"

definition flag_defaults :: "flag_spec list \<Rightarrow> flag_values" where
  "flag_defaults flags = fold set_default flags new_flag_values"

text \<open>\<open>Read\<close>: \<open>get_b\<close> and \<open>get_s\<close> are what the parsed command line holds for a flag name.\<close>

fun read_flags_from ::
  "(string \<Rightarrow> bool option) \<Rightarrow> (string \<Rightarrow> string option) \<Rightarrow> flag_spec list \<Rightarrow> flag_values \<Rightarrow>
     (flag_error, flag_values) result" where
  "read_flags_from get_b get_s [] fv = Inr fv"
| "read_flags_from get_b get_s (f # fs) fv =
     (if fl_type f = flag_type_bool then
        (case get_b (fl_name f) of None \<Rightarrow> Inl (ReadFailed (fl_name f))
         | Some v \<Rightarrow> read_flags_from get_b get_s fs (flag_set_bool f v fv))
      else if fl_type f = flag_type_string then
        (case get_s (fl_name f) of None \<Rightarrow> Inl (ReadFailed (fl_name f))
         | Some v \<Rightarrow> read_flags_from get_b get_s fs (flag_set_string f v fv))
      else Inl (UnsupportedType (fl_type f)))"

definition read_flags ::
  "(string \<Rightarrow> bool option) \<Rightarrow> (string \<Rightarrow> string option) \<Rightarrow> flag_spec list \<Rightarrow>
     (flag_error, flag_values) result" where
  "read_flags get_b get_s flags = read_flags_from get_b get_s flags new_flag_values"

definition find_flag :: "flag_spec list \<Rightarrow> string \<Rightarrow> flag_spec option" where
  "find_flag flags name = find (\<lambda>f. fl_name f = name) flags"

definition apply_flag ::
  "flag_values \<Rightarrow> flag_spec \<Rightarrow> string \<Rightarrow> (flag_error, flag_values) result" where
  "apply_flag fv f raw =
     (if fl_type f = flag_type_bool then
        (case parse_bool raw of None \<Rightarrow> Inl (BadBool (fl_name f) raw)
         | Some v \<Rightarrow> Inr (flag_set_bool f v fv))
      else if fl_type f = flag_type_string then Inr (flag_set_string f raw fv)
      else Inl (UnsupportedType (fl_type f)))"

definition apply_override ::
  "flag_values \<Rightarrow> flag_spec list \<Rightarrow> string \<Rightarrow> string \<Rightarrow> (flag_error, flag_values) result" where
  "apply_override fv flags name raw =
     (case find_flag flags name of None \<Rightarrow> Inl (UnknownFlag name)
      | Some f \<Rightarrow> apply_flag fv f raw)"

section \<open>What a flag reads as\<close>

text \<open>The keys a flag owns, and the value it holds under them.\<close>

definition flag_keys :: "flag_spec \<Rightarrow> string set" where
  "flag_keys f = {fl_name f, fl_binding f}"

definition holds_bool :: "flag_values \<Rightarrow> flag_spec \<Rightarrow> bool \<Rightarrow> bool" where
  "holds_bool fv f v \<longleftrightarrow> (\<forall>k\<in>flag_keys f. get_bool fv k = v)"

definition holds_string :: "flag_values \<Rightarrow> flag_spec \<Rightarrow> string \<Rightarrow> bool" where
  "holds_string fv f v \<longleftrightarrow> (\<forall>k\<in>flag_keys f. get_string fv k = v)"

lemma get_set [simp]:
  "get_bool (flag_set_bool f v fv) k = (if k \<in> flag_keys f then v else get_bool fv k)"
  "get_bool (flag_set_string f s fv) k = get_bool fv k"
  "get_string (flag_set_string f s fv) k = (if k \<in> flag_keys f then s else get_string fv k)"
  "get_string (flag_set_bool f v fv) k = get_string fv k"
  by (auto simp: get_bool_def get_string_def flag_set_bool_def flag_set_string_def set_bool_def
      set_string_def flag_keys_def)

lemma set_default_other:
  "k \<notin> flag_keys f \<Longrightarrow> get_bool (set_default f fv) k = get_bool fv k \<and>
     get_string (set_default f fv) k = get_string fv k"
  by (simp add: set_default_def)

text \<open>Flags whose keys do not clash: no name or binding of one is a name or binding of another.\<close>

fun apart :: "flag_spec list \<Rightarrow> bool" where
  "apart [] = True"
| "apart (f # fs) = ((\<forall>g\<in>set fs. flag_keys f \<inter> flag_keys g = {}) \<and> apart fs)"

lemma set_default_get:
  assumes "k \<in> flag_keys f"
  shows "fl_type f = flag_type_bool \<Longrightarrow>
      get_bool (set_default f fv) k = (fl_default_bool f = Some True)"
    and "fl_type f = flag_type_string \<Longrightarrow> get_string (set_default f fv) k = fl_default_string f"
  using assms
  by (auto simp: set_default_def flag_type_bool_def flag_type_string_def split: option.splits)

lemma fold_default_other:
  "\<forall>g\<in>set fs. k \<notin> flag_keys g \<Longrightarrow> get_bool (fold set_default fs fv) k = get_bool fv k \<and>
     get_string (fold set_default fs fv) k = get_string fv k"
  by (induction fs arbitrary: fv) (auto simp: set_default_other)

lemma fold_default_get:
  assumes "apart fs" and "f \<in> set fs" and "k \<in> flag_keys f"
  shows "fl_type f = flag_type_bool \<Longrightarrow>
      get_bool (fold set_default fs fv) k = (fl_default_bool f = Some True)"
    and "fl_type f = flag_type_string \<Longrightarrow> get_string (fold set_default fs fv) k = fl_default_string f"
  using assms
proof (induction fs arbitrary: fv)
  case (Cons g gs)
  { case 1 show ?case
    proof (cases "f \<in> set gs")
      case True with Cons 1 show ?thesis by simp
    next
      case False
      with 1 have "f = g" "\<forall>h\<in>set gs. k \<notin> flag_keys h" by auto
      with 1 show ?thesis
        by (simp add: fold_default_other set_default_get)
    qed
  next
    case 2 show ?case
    proof (cases "f \<in> set gs")
      case True with Cons 2 show ?thesis by simp
    next
      case False
      with 2 have "f = g" "\<forall>h\<in>set gs. k \<notin> flag_keys h" by auto
      with 2 show ?thesis
        by (simp add: fold_default_other set_default_get)
    qed }
qed simp_all

lemma find_flag_Some: "find_flag flags name = Some f \<Longrightarrow> f \<in> set flags \<and> fl_name f = name"
  by (auto simp: find_flag_def find_Some_iff)

text \<open>An override changes the keys of the flag it names and no other.\<close>

lemma apply_override_other:
  assumes "apply_override fv flags name raw = Inr fv'" and "find_flag flags name = Some f"
    and "k \<notin> flag_keys f"
  shows "get_bool fv' k = get_bool fv k" and "get_string fv' k = get_string fv k"
  using assms by (auto simp: apply_override_def apply_flag_def split: if_splits option.splits)

lemma apply_override_bool:
  assumes "apply_override fv flags name raw = Inr fv'" and "find_flag flags name = Some f"
    and "fl_type f = flag_type_bool"
  shows "\<exists>v. parse_bool raw = Some v \<and> holds_bool fv' f v"
  using assms
  by (auto simp: apply_override_def apply_flag_def holds_bool_def split: option.splits)

lemma apply_override_string:
  assumes "apply_override fv flags name raw = Inr fv'" and "find_flag flags name = Some f"
    and "fl_type f = flag_type_string"
  shows "holds_string fv' f raw"
  using assms
  by (auto simp: apply_override_def apply_flag_def holds_string_def flag_type_bool_def
      flag_type_string_def split: option.splits)

section \<open>Properties\<close>

text \<open>
  An override sets the flag it names, under its name and under its binding, to the
  parsed value, and leaves every other flag at its default: for flags the loader accepted
  whose names and bindings do not cross.\<close>

theorem override_isolated:
  assumes "list_all flag_ok flags" and "apart flags"
    and "apply_override (flag_defaults flags) flags name raw = Inr fv"
  shows "\<exists>f\<in>set flags. fl_name f = name \<and>
     (fl_type f = flag_type_bool \<and> (\<exists>v. parse_bool raw = Some v \<and> holds_bool fv f v) \<or>
      fl_type f = flag_type_string \<and> holds_string fv f raw) \<and>
     (\<forall>g\<in>set flags - {f}.
        (fl_type g = flag_type_bool \<longrightarrow> holds_bool fv g (fl_default_bool g = Some True)) \<and>
        (fl_type g = flag_type_string \<longrightarrow> holds_string fv g (fl_default_string g)))"
proof -
  from assms(3) obtain f where f: "find_flag flags name = Some f"
    by (auto simp: apply_override_def split: option.splits)
  note fs = find_flag_Some [OF f]
  have own: "fl_type f = flag_type_bool \<and> (\<exists>v. parse_bool raw = Some v \<and> holds_bool fv f v) \<or>
      fl_type f = flag_type_string \<and> holds_string fv f raw"
    using assms(1) fs apply_override_bool [OF assms(3) f] apply_override_string [OF assms(3) f]
    by (auto simp: list_all_iff flag_ok_def)
  have "k \<notin> flag_keys f" if "g \<in> set flags - {f}" "k \<in> flag_keys g" for g k
    using assms(2) fs that by (induction flags rule: apart.induct) auto
  then have "get_bool fv k = get_bool (flag_defaults flags) k \<and>
      get_string fv k = get_string (flag_defaults flags) k"
    if "g \<in> set flags - {f}" "k \<in> flag_keys g" for g k
    using that apply_override_other [OF assms(3) f] by blast
  then have "\<forall>g\<in>set flags - {f}.
        (fl_type g = flag_type_bool \<longrightarrow> holds_bool fv g (fl_default_bool g = Some True)) \<and>
        (fl_type g = flag_type_string \<longrightarrow> holds_string fv g (fl_default_string g))"
    using fold_default_get [OF assms(2)]
    by (simp add: holds_bool_def holds_string_def flag_defaults_def)
  with own fs show ?thesis by blast
qed

definition bool_flag :: "string \<Rightarrow> string \<Rightarrow> flag_spec" where
  "bool_flag name binding = \<lparr>fl_name = name, fl_binding = binding, fl_type = ''bool'', fl_usage = [],
     fl_default_string = [], fl_default_bool = Some False, fl_expand_path = False,
     fl_hidden = False\<rparr>"

lemma override_isolated_witness:
  "\<exists>f\<in>set [bool_flag ''a'' ''x'', bool_flag ''b'' ''y'']. fl_name f = ''b''"
proof -
  have "list_all flag_ok [bool_flag ''a'' ''x'', bool_flag ''b'' ''y'']"
    "apart [bool_flag ''a'' ''x'', bool_flag ''b'' ''y'']"
    by (simp_all add: flag_ok_def bool_flag_def flag_type_bool_def flag_type_string_def flag_keys_def)
  moreover have "\<exists>fv. apply_override (flag_defaults [bool_flag ''a'' ''x'', bool_flag ''b'' ''y''])
      [bool_flag ''a'' ''x'', bool_flag ''b'' ''y''] ''b'' ''true'' = Inr fv"
    by (simp add: apply_override_def find_flag_def apply_flag_def bool_flag_def flag_type_bool_def
        parse_bool_def)
  ultimately show ?thesis using override_isolated by blast
qed

text \<open>Without that last condition, which the loader does not check, one flag overwrites
  another: two flags, the binding of the first being the name of the second, pass
  validation, and turning on the first turns on the second.\<close>

theorem crossed_binding_overwrites:
  "normalize_flags env path oid 0 [] [] [bool_flag ''a'' ''b'', bool_flag ''b'' ''c''] =
     Inr [bool_flag ''a'' ''b'', bool_flag ''b'' ''c''] \<and>
   (case apply_override (flag_defaults [bool_flag ''a'' ''b'', bool_flag ''b'' ''c''])
      [bool_flag ''a'' ''b'', bool_flag ''b'' ''c''] ''a'' ''true'' of
      Inl _ \<Rightarrow> False | Inr fv \<Rightarrow> get_bool fv ''b'')"
proof
  have tr: "trim_space ''a'' = ''a''" "trim_space ''b'' = ''b''" "trim_space ''c'' = ''c''"
    "trim_space ''bool'' = ''bool''"
    by code_simp+
  show "normalize_flags env path oid 0 [] [] [bool_flag ''a'' ''b'', bool_flag ''b'' ''c''] =
     Inr [bool_flag ''a'' ''b'', bool_flag ''b'' ''c'']"
    by (simp add: normalize_flag_def bool_flag_def tr Let_def flag_type_bool_def)
  show "case apply_override (flag_defaults [bool_flag ''a'' ''b'', bool_flag ''b'' ''c''])
      [bool_flag ''a'' ''b'', bool_flag ''b'' ''c''] ''a'' ''true'' of
      Inl _ \<Rightarrow> False | Inr fv \<Rightarrow> get_bool fv ''b''"
    by code_simp
qed

end
