(* ===== verification/Batch_Ops.thy ===== *)
theory Batch_Ops
  imports Cmd_Flags
begin

text \<open>
  \<open>internal/batchops/batchops.go\<close>: one aggregate patch, upgrade or hard-reset command over
  the selected targets. The selection, the overrides and the flag values are functions; the
  workers are a step relation over the semaphore. The operation runner and the target log
  are arguments; events and durations are left out.
\<close>

record selected_op =
  so_id :: string
  so_kind :: string
  so_app :: "target option"
  so_cli :: "cli_program option"
  so_op :: operation_spec

record batch_request =
  br_operation :: string
  br_dry_run :: bool
  br_migrate :: bool
  br_parallel :: int
  br_targets :: "string list"
  br_sets :: "string list"

datatype batch_error =
    NoTargetsSupport string
  | DoesNotSupport string string
  | UnknownTarget string
  | BadOverride string
  | FlagFailed flag_error
  | LogFailed string
  | RunFailed string
  | Panicked string
  | ContextDone
  | FailedTargets nat string "string list"

section \<open>Selection\<close>

definition app_selections :: "go_config \<Rightarrow> string \<Rightarrow> selected_op list" where
  "app_selections cfg operation = concat (map (\<lambda>t.
     case map_of (tg_operations t) operation of None \<Rightarrow> []
     | Some op \<Rightarrow> [\<lparr>so_id = tg_id t, so_kind = ''app'', so_app = Some t, so_cli = None,
                    so_op = op\<rparr>]) (all_targets cfg))"

definition cli_selections :: "go_config \<Rightarrow> string \<Rightarrow> selected_op list" where
  "cli_selections cfg operation = concat (map (\<lambda>c.
     case map_of (cp_operations c) operation of None \<Rightarrow> []
     | Some op \<Rightarrow> [\<lparr>so_id = cp_id c, so_kind = ''cli'', so_app = None, so_cli = Some c,
                    so_op = op\<rparr>]) (all_clis cfg))"

definition known_targets :: "go_config \<Rightarrow> string set" where
  "known_targets cfg = set (map tg_id (all_targets cfg)) \<union> set (map cp_id (all_clis cfg))"

definition normalize_target_filters :: "string list \<Rightarrow> string list" where
  "normalize_target_filters filters = dedup [] (filter (\<lambda>t. t \<noteq> []) (map trim_space filters))"

text \<open>\<open>selectedByID\<close>: a later selection replaces an earlier one with the same id.\<close>

definition selected_by_id :: "selected_op list \<Rightarrow> string \<Rightarrow> selected_op option" where
  "selected_by_id selected i = map_of (rev (map (\<lambda>s. (so_id s, s)) selected)) i"

definition select_operations ::
  "go_config \<Rightarrow> string \<Rightarrow> string list \<Rightarrow> (batch_error, selected_op list) result" where
  "select_operations cfg operation filters =
     (let selected = app_selections cfg operation @ cli_selections cfg operation;
          requested = normalize_target_filters filters
      in if selected = [] then Inl (NoTargetsSupport operation)
         else if requested = [] then Inr selected
         else mapM (\<lambda>i. case selected_by_id selected i of
                Some s \<Rightarrow> Inr s
              | None \<Rightarrow> if i \<in> known_targets cfg then Inl (DoesNotSupport i operation)
                        else Inl (UnknownTarget i)) requested)"

section \<open>Overrides\<close>

type_synonym overrides = "(string gomap) gomap"

definition add_override :: "string \<Rightarrow> string \<Rightarrow> string \<Rightarrow> overrides \<Rightarrow> overrides" where
  "add_override t f v ov =
     AList.update t (AList.update f v (case map_of ov t of None \<Rightarrow> [] | Some m \<Rightarrow> m)) ov"

text \<open>One \<open>target.flag=value\<close> item; \<open>None\<close> is an item of blanks only, which is skipped.\<close>

definition parse_override :: "string \<Rightarrow> (batch_error, (string \<times> string \<times> string) option) result" where
  "parse_override item =
     (let trimmed = trim_space item in
      if trimmed = [] then Inr None
      else case cut CHR ''='' trimmed of
        None \<Rightarrow> Inl (BadOverride trimmed)
      | Some (key, value) \<Rightarrow>
          (if key = [] \<or> value = [] then Inl (BadOverride trimmed)
           else case cut CHR ''.'' key of
             None \<Rightarrow> Inl (BadOverride trimmed)
           | Some (t, f) \<Rightarrow>
               (if t = [] \<or> f = [] then Inl (BadOverride trimmed) else Inr (Some (t, f, value)))))"

fun parse_overrides_from :: "string list \<Rightarrow> overrides \<Rightarrow> (batch_error, overrides) result" where
  "parse_overrides_from [] ov = Inr ov"
| "parse_overrides_from (item # rest) ov =
     (case parse_override item of
        Inl e \<Rightarrow> Inl e
      | Inr None \<Rightarrow> parse_overrides_from rest ov
      | Inr (Some (t, f, v)) \<Rightarrow> parse_overrides_from rest (add_override t f v ov))"

definition parse_overrides :: "string list \<Rightarrow> (batch_error, overrides) result" where
  "parse_overrides raw = parse_overrides_from raw []"

text \<open>The first override, in iteration order, of a target that is not selected.\<close>

definition validate_override_targets ::
  "string \<Rightarrow> string set \<Rightarrow> selected_op list \<Rightarrow> overrides \<Rightarrow> batch_error option" where
  "validate_override_targets operation known selected ov =
     first_err (concat (map (\<lambda>(t, _).
       [(t \<notin> so_id ` set selected \<and> t \<in> known, DoesNotSupport t operation),
        (t \<notin> so_id ` set selected, UnknownTarget t)]) ov))"

section \<open>Flag values\<close>

definition apply_if_declared ::
  "bool \<Rightarrow> flag_spec list \<Rightarrow> string \<Rightarrow> flag_values \<Rightarrow> (flag_error, flag_values) result" where
  "apply_if_declared wanted flags name fv =
     (if wanted \<and> find_flag flags name \<noteq> None then apply_override fv flags name ''true'' else Inr fv)"

fun apply_overrides ::
  "flag_spec list \<Rightarrow> (string \<times> string) list \<Rightarrow> flag_values \<Rightarrow> (flag_error, flag_values) result" where
  "apply_overrides flags [] fv = Inr fv"
| "apply_overrides flags ((n, raw) # rest) fv =
     rbind (apply_override fv flags n raw) (apply_overrides flags rest)"

definition build_flag_values ::
  "flag_spec list \<Rightarrow> batch_request \<Rightarrow> string gomap \<Rightarrow> (flag_error, flag_values) result" where
  "build_flag_values flags req ov =
     rbind (apply_if_declared (br_dry_run req) flags ''dry-run'' (flag_defaults flags)) (\<lambda>fv.
     rbind (apply_if_declared (br_migrate req) flags ''migrate-keychain'' fv)
       (apply_overrides flags (map (\<lambda>k. (k, the (map_of ov k))) (sorted_keys ov))))"

definition clone_app_target :: "target option \<Rightarrow> flag_values \<Rightarrow> target option" where
  "clone_app_target t fv =
     map_option (\<lambda>t. if get_string fv ''app-path'' \<noteq> [] then t\<lparr>tg_app_path := get_string fv ''app-path''\<rparr>
                     else t) t"

section \<open>One worker\<close>

record operation_request =
  rq_app :: "target option"
  rq_cli :: "cli_program option"
  rq_capability :: string
  rq_flags :: flag_values

datatype runner_result = RunOk | RunErr string | RunPanic string

type_synonym runner = "operation_request \<Rightarrow> runner_result"

text \<open>
  \<open>runSelection\<close> once the semaphore is acquired; \<open>log_err\<close> is the error of
  \<open>OpenTargetLog\<close>. A panic of the runner becomes the worker's error.
\<close>

definition run_selection ::
  "batch_request \<Rightarrow> runner \<Rightarrow> string option \<Rightarrow> selected_op \<Rightarrow> string gomap \<Rightarrow> batch_error option" where
  "run_selection req run log_err s ov =
     (case log_err of Some e \<Rightarrow> Some (LogFailed e)
      | None \<Rightarrow>
        (case build_flag_values (op_flags (so_op s)) req ov of
           Inl e \<Rightarrow> Some (FlagFailed e)
         | Inr fv \<Rightarrow>
             (case run \<lparr>rq_app = clone_app_target (so_app s) fv, rq_cli = so_cli s,
                        rq_capability = op_capability (so_op s), rq_flags = fv\<rparr> of
                RunOk \<Rightarrow> None | RunErr e \<Rightarrow> Some (RunFailed e) | RunPanic p \<Rightarrow> Some (Panicked p))))"

definition overrides_for :: "overrides \<Rightarrow> string \<Rightarrow> string gomap" where
  "overrides_for ov i = (case map_of ov i of None \<Rightarrow> [] | Some m \<Rightarrow> m)"

definition effective_parallelism :: "int \<Rightarrow> nat \<Rightarrow> nat" where
  "effective_parallelism requested n =
     (if requested \<le> 0 \<or> requested > int n then n else nat requested)"

definition batch_summary :: "string \<Rightarrow> (string \<times> batch_error option) list \<Rightarrow> batch_error option" where
  "batch_summary operation results =
     (let failed = map fst (filter (\<lambda>r. snd r \<noteq> None) results)
      in if failed \<noteq> [] then Some (FailedTargets (length failed) operation failed) else None)"

text \<open>
  \<open>RunWithOperationRunner\<close>: select, parse, validate; then the workers; then the summary.
  \<open>join\<close> is what the workers leave in the results slice, in selection order.
\<close>

definition plan_batch ::
  "go_config \<Rightarrow> batch_request \<Rightarrow> (batch_error, selected_op list \<times> overrides) result" where
  "plan_batch cfg req =
     rbind (select_operations cfg (br_operation req) (br_targets req)) (\<lambda>selections.
     rbind (parse_overrides (br_sets req)) (\<lambda>ov.
     of_err (validate_override_targets (br_operation req) (known_targets cfg) selections ov)
       (selections, ov)))"

definition finish_batch ::
  "batch_request \<Rightarrow> selected_op list \<Rightarrow> batch_error option list \<Rightarrow> batch_error option" where
  "finish_batch req selections results =
     batch_summary (br_operation req) (zip (map so_id selections) results)"

section \<open>The workers\<close>

datatype worker = Queued | Active | Ended "batch_error option"

record batch_sys =
  bs_workers :: "worker list"
  bs_cancelled :: bool

definition active_count :: "worker list \<Rightarrow> nat" where
  "active_count ws = length (filter (\<lambda>w. w = Active) ws)"

text \<open>
  \<open>body i\<close> is what \<open>run_selection\<close> returns for the i-th selection. A queued worker takes a
  slot when one is free, or gives up when the context is done; both can be possible at once.
\<close>

inductive batch_step :: "nat \<Rightarrow> (nat \<Rightarrow> batch_error option) \<Rightarrow> batch_sys \<Rightarrow> batch_sys \<Rightarrow> bool"
  for slots body where
  ba_cancel: "batch_step slots body s (s\<lparr>bs_cancelled := True\<rparr>)"
| ba_acquire: "i < length (bs_workers s) \<Longrightarrow> bs_workers s ! i = Queued \<Longrightarrow>
    active_count (bs_workers s) < slots \<Longrightarrow>
    batch_step slots body s (s\<lparr>bs_workers := (bs_workers s)[i := Active]\<rparr>)"
| ba_giveup: "i < length (bs_workers s) \<Longrightarrow> bs_workers s ! i = Queued \<Longrightarrow> bs_cancelled s \<Longrightarrow>
    batch_step slots body s (s\<lparr>bs_workers := (bs_workers s)[i := Ended (Some ContextDone)]\<rparr>)"
| ba_finish: "i < length (bs_workers s) \<Longrightarrow> bs_workers s ! i = Active \<Longrightarrow>
    batch_step slots body s (s\<lparr>bs_workers := (bs_workers s)[i := Ended (body i)]\<rparr>)"

inductive_cases batch_stepE: "batch_step slots body s t"

definition batch_start :: "nat \<Rightarrow> batch_sys" where
  "batch_start n = \<lparr>bs_workers = replicate n Queued, bs_cancelled = False\<rparr>"

definition all_ended :: "batch_sys \<Rightarrow> bool" where
  "all_ended s \<longleftrightarrow> (\<forall>w\<in>set (bs_workers s). \<exists>r. w = Ended r)"

definition batch_inv ::
  "nat \<Rightarrow> nat \<Rightarrow> (nat \<Rightarrow> batch_error option) \<Rightarrow> batch_sys \<Rightarrow> bool" where
  "batch_inv n slots body s \<longleftrightarrow> length (bs_workers s) = n \<and> active_count (bs_workers s) \<le> slots \<and>
     (\<forall>i<n. \<forall>r. bs_workers s ! i = Ended r \<longrightarrow>
        r = body i \<or> bs_cancelled s \<and> r = Some ContextDone)"

section \<open>The worker pool\<close>

lemma active_count_update:
  "i < length ws \<Longrightarrow> active_count (ws[i := w]) + (if ws ! i = Active then 1 else 0) =
     active_count ws + (if w = Active then 1 else 0)"
proof (induction ws arbitrary: i)
  case (Cons a ws)
  show ?case
  proof (cases i)
    case (Suc j)
    with Cons.IH [of j] Cons.prems show ?thesis by (auto simp: active_count_def)
  qed (auto simp: active_count_def)
qed simp

lemma batch_inv_step:
  assumes "batch_inv n slots body s" and "batch_step slots body s t"
  shows "batch_inv n slots body t"
  using assms(2,1)
proof cases
  case (ba_acquire i)
  with assms(1) active_count_update [of i "bs_workers s" Active] show ?thesis
    by (auto simp: batch_inv_def nth_list_update)
next
  case (ba_giveup i)
  with assms(1) active_count_update [of i "bs_workers s" "Ended (Some ContextDone)"] show ?thesis
    by (auto simp: batch_inv_def nth_list_update split: if_splits)
next
  case (ba_finish i)
  with assms(1) active_count_update [of i "bs_workers s" "Ended (body i)"] show ?thesis
    by (auto simp: batch_inv_def nth_list_update split: if_splits)
qed (auto simp: batch_inv_def)

interpretation batch_pool: safe_system "batch_step slots body" "batch_start n" "batch_inv n slots body"
  for slots body n
proof unfold_locales
  have "active_count (replicate n Queued) = 0" by (simp add: active_count_def)
  then show "batch_inv n slots body (batch_start n)" by (simp add: batch_inv_def batch_start_def)
next
  fix s t assume "batch_inv n slots body s" "batch_step slots body s t"
  then show "batch_inv n slots body t" by (rule batch_inv_step)
qed

text \<open>The work left: two steps for a queued worker, one for an active one.\<close>

definition worker_cost :: "worker \<Rightarrow> nat" where
  "worker_cost w = (case w of Queued \<Rightarrow> 2 | Active \<Rightarrow> 1 | Ended _ \<Rightarrow> 0)"

definition pending_work :: "batch_sys \<Rightarrow> nat" where
  "pending_work s = sum_list (map worker_cost (bs_workers s))"

lemma sum_list_update_less:
  "i < length ws \<Longrightarrow> f w < (f (ws ! i) :: nat) \<Longrightarrow>
     sum_list (map f (ws[i := w])) < sum_list (map f ws)"
proof (induction ws arbitrary: i)
  case (Cons a ws)
  then show ?case by (cases i) auto
qed simp

lemma batch_progress:
  assumes inv: "batch_inv n slots body s" and "0 < slots" and "\<not> all_ended s"
  shows "\<exists>t. batch_step slots body s t \<and> pending_work t < pending_work s"
proof -
  obtain i where i: "i < length (bs_workers s)" "\<forall>r. bs_workers s ! i \<noteq> Ended r"
    using assms(3) by (auto simp: all_ended_def in_set_conv_nth)
  show ?thesis
  proof (cases "\<exists>j < length (bs_workers s). bs_workers s ! j = Active")
    case True
    then obtain j where j: "j < length (bs_workers s)" "bs_workers s ! j = Active" by blast
    have "pending_work (s\<lparr>bs_workers := (bs_workers s)[j := Ended (body j)]\<rparr>) < pending_work s"
      using j by (simp add: pending_work_def sum_list_update_less worker_cost_def)
    with ba_finish [OF j] show ?thesis by blast
  next
    case False
    then have "active_count (bs_workers s) = 0"
      by (auto simp: active_count_def filter_empty_conv in_set_conv_nth)
    moreover have q: "bs_workers s ! i = Queued"
      using i False by (cases "bs_workers s ! i") auto
    ultimately have "batch_step slots body s (s\<lparr>bs_workers := (bs_workers s)[i := Active]\<rparr>)"
      using i(1) assms(2) by (intro ba_acquire) auto
    moreover have "pending_work (s\<lparr>bs_workers := (bs_workers s)[i := Active]\<rparr>) < pending_work s"
      using i(1) q by (simp add: pending_work_def sum_list_update_less worker_cost_def)
    ultimately show ?thesis by blast
  qed
qed

text \<open>C30. The worker pool is bounded, cannot get stuck, and its result does not depend on the
  schedule: at most the requested number of targets run at a time; while some target has
  not ended some step makes progress; and when all have ended and the context was not
  cancelled, every target's result is exactly what its run returned, in selection order.\<close>

theorem batch_pool_correct:
  assumes "run_of (batch_step slots body) (batch_start n) s" and "0 < slots"
  shows "active_count (bs_workers s) \<le> slots \<and>
         (\<not> all_ended s \<longrightarrow> (\<exists>t. batch_step slots body s t \<and> pending_work t < pending_work s)) \<and>
         (all_ended s \<and> \<not> bs_cancelled s \<longrightarrow> bs_workers s = map (\<lambda>i. Ended (body i)) [0..<n])"
proof (intro conjI impI)
  have inv: "batch_inv n slots body s" using batch_pool.reachable_inv [OF assms(1)] .
  then show "active_count (bs_workers s) \<le> slots" by (simp add: batch_inv_def)
  show "\<exists>t. batch_step slots body s t \<and> pending_work t < pending_work s" if "\<not> all_ended s"
    using batch_progress [OF inv assms(2) that] .
  assume "all_ended s \<and> \<not> bs_cancelled s"
  then show "bs_workers s = map (\<lambda>i. Ended (body i)) [0..<n]"
  proof (intro nth_equalityI)
    fix i assume i: "i < length (bs_workers s)"
    then obtain r where r: "bs_workers s ! i = Ended r"
      using \<open>all_ended s \<and> \<not> bs_cancelled s\<close> by (auto simp: all_ended_def all_set_conv_all_nth)
    with inv i \<open>all_ended s \<and> \<not> bs_cancelled s\<close> have "r = body i"
      by (auto simp: batch_inv_def)
    with r i inv show "bs_workers s ! i = map (\<lambda>i. Ended (body i)) [0..<n] ! i"
      by (simp add: batch_inv_def)
  qed (use inv in \<open>simp add: batch_inv_def\<close>)
qed

lemma batch_pool_correct_witness:
  "active_count (bs_workers (batch_start 3)) \<le> 2"
  using batch_pool_correct [where slots = 2 and body = "\<lambda>_. None" and n = 3, OF run_start] by simp

section \<open>Selection and flags\<close>

lemma selection_sound:
  assumes "s \<in> set (app_selections cfg operation @ cli_selections cfg operation)"
  shows "(\<exists>t\<in>set (all_targets cfg). so_app s = Some t \<and> so_id s = tg_id t \<and>
            map_of (tg_operations t) operation = Some (so_op s)) \<or>
         (\<exists>c\<in>set (all_clis cfg). so_cli s = Some c \<and> so_id s = cp_id c \<and>
            map_of (cp_operations c) operation = Some (so_op s))"
  using assms
  by (auto simp: app_selections_def cli_selections_def split: option.splits)

lemma selected_by_id_Some:
  "selected_by_id selected i = Some s \<Longrightarrow> s \<in> set selected \<and> so_id s = i"
  by (auto simp: selected_by_id_def dest!: map_of_SomeD)

text \<open>
  A batch runs exactly what was asked for: with filters, the trimmed distinct names in
  the order given, each a target that declares the operation; without, every target that
  declares it; and otherwise nothing runs at all.\<close>

theorem selection_exact:
  assumes "select_operations cfg operation filters = Inr selected"
  shows "(\<forall>s\<in>set selected. s \<in> set (app_selections cfg operation @ cli_selections cfg operation)) \<and>
         (if normalize_target_filters filters = []
          then selected = app_selections cfg operation @ cli_selections cfg operation
          else map so_id selected = normalize_target_filters filters) \<and>
         selected \<noteq> []"
proof (cases "normalize_target_filters filters = []")
  case True
  with assms show ?thesis by (auto simp: select_operations_def Let_def split: if_splits)
next
  case False
  let ?all = "app_selections cfg operation @ cli_selections cfg operation"
  let ?pick = "\<lambda>i. case selected_by_id ?all i of Some s \<Rightarrow> Inr s
      | None \<Rightarrow> if i \<in> known_targets cfg then Inl (DoesNotSupport i operation) else Inl (UnknownTarget i)"
  from assms False have m: "mapM ?pick (normalize_target_filters filters) = Inr selected"
    by (simp add: select_operations_def Let_def split: if_splits)
  then have all: "list_all2 (\<lambda>i s. selected_by_id ?all i = Some s) (normalize_target_filters filters) selected"
    unfolding mapM_Inr_iff by (rule list_all2_mono) (auto split: option.splits if_splits)
  then have "map so_id selected = normalize_target_filters filters"
    by (induction rule: list_all2_induct) (auto dest: selected_by_id_Some)
  moreover have "\<forall>s\<in>set selected. s \<in> set ?all"
    using all by (induction rule: list_all2_induct) (auto dest: selected_by_id_Some)
  ultimately show ?thesis using False by auto
qed

lemma apply_overrides_other:
  assumes "apply_overrides flags ovs fv = Inr fv'" and "f \<in> set flags" and "apart flags"
    and "fl_name f \<notin> fst ` set ovs" and "k \<in> flag_keys f"
  shows "get_bool fv' k = get_bool fv k"
  using assms
proof (induction flags ovs fv rule: apply_overrides.induct)
  case (2 flags n raw rest fv)
  then obtain fv1 where fv1: "apply_override fv flags n raw = Inr fv1" "apply_overrides flags rest fv1 = Inr fv'"
    by (auto simp: guard_simps)
  then obtain g where g: "find_flag flags n = Some g"
    by (auto simp: apply_override_def split: option.splits)
  have "g \<noteq> f" "g \<in> set flags" using find_flag_Some [OF g] 2 by auto
  then have "k \<notin> flag_keys g" using 2(3,4,6) by (induction flags rule: apart.induct) auto
  then have "get_bool fv1 k = get_bool fv k" using apply_override_other(1) [OF fv1(1) g] by simp
  with 2(1) fv1 2(3-6) show ?case by auto
qed simp

text \<open>A requested dry run reaches the operation: when the operation declares a boolean
  flag of that name, and no override names it, the runner's flag values have it set,
  under its name and its binding.\<close>

theorem dry_run_reaches_runner:
  assumes "apart flags" and "find_flag flags ''dry-run'' = Some f" and "fl_type f = flag_type_bool"
    and "br_dry_run req" and "build_flag_values flags req ov = Inr fv" and "\<not> has_key ov ''dry-run''"
  shows "holds_bool fv f True"
proof -
  note f = find_flag_Some [OF assms(2)]
  from assms(2,4,5) obtain fv1 fv2 where
      1: "apply_override (flag_defaults flags) flags ''dry-run'' ''true'' = Inr fv1"
    and 2: "apply_if_declared (br_migrate req) flags ''migrate-keychain'' fv1 = Inr fv2"
    and 3: "apply_overrides flags (map (\<lambda>k. (k, the (map_of ov k))) (sorted_keys ov)) fv2 = Inr fv"
    by (auto simp: build_flag_values_def guard_simps apply_if_declared_def)
  have h1: "holds_bool fv1 f True"
    using apply_override_bool [OF 1 assms(2,3)] by (auto simp: parse_bool_def)
  have k2: "get_bool fv2 k = get_bool fv1 k" if "k \<in> flag_keys f" for k
  proof (cases "fv2 = fv1")
    case False
    with 2 have "apply_overrides flags [(''migrate-keychain'', ''true'')] fv1 = Inr fv2"
      by (auto simp: apply_if_declared_def split: if_splits)
    from apply_overrides_other [OF this _ assms(1) _ that] f show ?thesis by simp
  qed simp
  have "get_bool fv k = get_bool fv2 k" if "k \<in> flag_keys f" for k
    using apply_overrides_other [OF 3 _ assms(1) _ that] f assms(6)
    by (auto simp: has_key_def map_of_eq_None_iff image_image)
  with h1 k2 show ?thesis by (simp add: holds_bool_def)
qed

definition dry_flag :: flag_spec where
  "dry_flag = bool_flag ''dry-run'' ''dry''"

definition dry_request :: batch_request where
  "dry_request = \<lparr>br_operation = ''patch'', br_dry_run = True, br_migrate = False, br_parallel = 0,
     br_targets = [], br_sets = []\<rparr>"

lemma dry_run_reaches_runner_witness:
  "\<exists>fv. build_flag_values [dry_flag] dry_request [] = Inr fv \<and> holds_bool fv dry_flag True"
proof -
  have f: "find_flag [dry_flag] ''dry-run'' = Some dry_flag" "fl_type dry_flag = flag_type_bool"
    by (simp_all add: find_flag_def dry_flag_def bool_flag_def flag_type_bool_def)
  have "\<exists>fv. build_flag_values [dry_flag] dry_request [] = Inr fv"
    by (simp add: build_flag_values_def apply_if_declared_def apply_override_def f apply_flag_def
        dry_request_def parse_bool_def sorted_keys_def)
  moreover have "br_dry_run dry_request" by (simp add: dry_request_def)
  ultimately show ?thesis
    using dry_run_reaches_runner [of "[dry_flag]" dry_flag dry_request "[]"] f
    by (auto simp: has_key_def)
qed

definition one_cli_config :: go_config where
  "one_cli_config = \<lparr>cfg_identity = [], cfg_team_id = [], cfg_apps = [],
     cfg_clis = [(''t'', \<lparr>cli_id = ''t'',
        cli_command = \<lparr>cmd_use = [], cmd_aliases = [], cmd_short = [], cmd_long = [], cmd_hidden = False\<rparr>,
        cli_operations = [(''patch'', \<lparr>op_id = ''patch'', op_use = [], op_aliases = [], op_short = [],
          op_long = [], op_hidden = False, op_capability = ''c'', op_flags = []\<rparr>)],
        cli_deferral = \<lparr>df_enabled = False, df_threshold = NaN, df_work_threshold = NaN,
          df_start = [], df_end = [], df_weekdays = []\<rparr>\<rparr>)]\<rparr>"

lemma selection_exact_witness:
  "\<exists>sel. select_operations one_cli_config ''patch'' [] = Inr sel \<and> sel \<noteq> []"
proof -
  have "(case select_operations one_cli_config ''patch'' [] of Inl _ \<Rightarrow> False | Inr _ \<Rightarrow> True)"
    by (simp add: select_operations_def one_cli_config_def app_selections_def cli_selections_def
        all_targets_def all_clis_def sorted_keys_def normalize_target_filters_def Let_def)
  then obtain sel where "select_operations one_cli_config ''patch'' [] = Inr sel"
    by (auto split: sum.splits)
  with selection_exact [OF this] show ?thesis by blast
qed

text \<open>A dry run asked of a target whose operation declares no such flag is a real run:
  the plan is the same, and the worker hands the runner the very request of a real run and
  reports its result.\<close>

theorem undeclared_dry_run_ignored:
  assumes "plan_batch cfg (req\<lparr>br_dry_run := True\<rparr>) = Inr (selections, ov)"
    and "s \<in> set selections" and "find_flag (op_flags (so_op s)) ''dry-run'' = None"
  shows "plan_batch cfg (req\<lparr>br_dry_run := False\<rparr>) = Inr (selections, ov) \<and>
    (\<forall>run log_err. run_selection (req\<lparr>br_dry_run := True\<rparr>) run log_err s (overrides_for ov (so_id s)) =
       run_selection (req\<lparr>br_dry_run := False\<rparr>) run log_err s (overrides_for ov (so_id s)))"
proof -
  have flags: "build_flag_values (op_flags (so_op s)) (req\<lparr>br_dry_run := True\<rparr>) m =
      build_flag_values (op_flags (so_op s)) (req\<lparr>br_dry_run := False\<rparr>) m" for m
    using assms(3) by (simp add: build_flag_values_def apply_if_declared_def)
  show ?thesis using assms(1) unfolding run_selection_def flags by (simp add: plan_batch_def)
qed

lemma undeclared_dry_run_ignored_witness:
  "\<exists>s. plan_batch one_cli_config (dry_request\<lparr>br_dry_run := False\<rparr>) = Inr ([s], []) \<and>
     run_selection (dry_request\<lparr>br_dry_run := True\<rparr>) (\<lambda>_. RunOk) None s [] =
     run_selection (dry_request\<lparr>br_dry_run := False\<rparr>) (\<lambda>_. RunOk) None s []"
proof -
  have "\<exists>s. plan_batch one_cli_config (dry_request\<lparr>br_dry_run := True\<rparr>) = Inr ([s], []) \<and>
      op_flags (so_op s) = []"
    by (simp add: plan_batch_def select_operations_def one_cli_config_def app_selections_def
        cli_selections_def all_targets_def all_clis_def sorted_keys_def normalize_target_filters_def
        dry_request_def parse_overrides_def validate_override_targets_def of_err_def)
  then obtain s where s: "plan_batch one_cli_config (dry_request\<lparr>br_dry_run := True\<rparr>) = Inr ([s], [])"
    "op_flags (so_op s) = []" by blast
  show ?thesis
    using undeclared_dry_run_ignored [OF s(1), of s] s(2) by (auto simp: find_flag_def overrides_for_def)
qed

end
