(* ===== verification/OS_Model.thy ===== *)
theory OS_Model
  imports Go_Prelude
begin

text \<open>
  The part of the operating system the program's own logic rests on: a file tree indexed by
  resolved paths (component lists; a path through a symbolic link stands under its target's
  name, so a link is always a leaf), the calls of Go's \<open>os\<close> package the code makes on it,
  injected failures, and the trail of all states it went through, newest first, so that a
  property can speak about every point at which the program may be killed.
\<close>

type_synonym fpath = "string list"

datatype fnode = Dir | File string | Symlink string

type_synonym filesys = "fpath \<Rightarrow> fnode option"

text \<open>
  The failure of one call: none; or an error, with the entries a removal that failed half
  way has left behind.
\<close>

datatype fault = NoFault | Fault "fpath list"

datatype os_error = EIO | ENOENT | EEXIST | EINVAL | ENOTDIR

record os =
  os_fs :: filesys
  os_faults :: "fault list"
  os_trail :: "filesys list"

definition next_fault :: "os \<Rightarrow> fault \<times> os" where
  "next_fault w = (case os_faults w of [] \<Rightarrow> (NoFault, w) | f # fs \<Rightarrow> (f, w\<lparr>os_faults := fs\<rparr>))"

definition os_put :: "filesys \<Rightarrow> os \<Rightarrow> os" where
  "os_put fs w = w\<lparr>os_fs := fs, os_trail := fs # os_trail w\<rparr>"

text \<open>\<open>os.Lstat\<close>: \<open>Inr\<close> says whether the path exists.\<close>

definition os_lstat :: "fpath \<Rightarrow> os \<Rightarrow> (os_error, bool) result \<times> os" where
  "os_lstat p w = (let (f, w1) = next_fault w in
     case f of Fault _ \<Rightarrow> (Inl EIO, w1) | NoFault \<Rightarrow> (Inr (os_fs w1 p \<noteq> None), w1))"

definition subtree :: "fpath \<Rightarrow> filesys \<Rightarrow> filesys" where
  "subtree p fs = (\<lambda>rel. fs (p @ rel))"

definition move_tree :: "fpath \<Rightarrow> fpath \<Rightarrow> filesys \<Rightarrow> filesys" where
  "move_tree a b fs = (\<lambda>p. if prefix b p then fs (a @ drop (length b) p)
                          else if prefix a p then None else fs p)"

definition drop_tree :: "fpath \<Rightarrow> fpath list \<Rightarrow> filesys \<Rightarrow> filesys" where
  "drop_tree p keep fs = (\<lambda>q. if prefix p q \<and> q \<notin> set keep then None else fs q)"

text \<open>The parent of a path is a directory; the root always is.\<close>

definition parent_ok :: "filesys \<Rightarrow> fpath \<Rightarrow> bool" where
  "parent_ok fs p \<longleftrightarrow> butlast p = [] \<or> fs (butlast p) = Some Dir"

text \<open>
  \<open>os.Rename\<close>: Go refuses an existing directory as the new name; the system call refuses a
  missing source, a missing parent, a target inside the source, and a directory over a file.
\<close>

definition os_rename :: "fpath \<Rightarrow> fpath \<Rightarrow> os \<Rightarrow> os_error option \<times> os" where
  "os_rename a b w = (let (f, w1) = next_fault w; fs = os_fs w1 in
     case f of Fault _ \<Rightarrow> (Some EIO, w1)
     | NoFault \<Rightarrow>
        (if fs a = None then (Some ENOENT, w1)
         else if fs b = Some Dir then (Some EEXIST, w1)
         else if \<not> parent_ok fs b then (Some ENOENT, w1)
         else if prefix a b then (Some EINVAL, w1)
         else if fs a = Some Dir \<and> fs b \<noteq> None then (Some ENOTDIR, w1)
         else (None, os_put (move_tree a b fs) w1)))"

text \<open>\<open>os.RemoveAll\<close>: no error when there is nothing; a failure may have removed a part.\<close>

definition os_remove_all :: "fpath \<Rightarrow> os \<Rightarrow> os_error option \<times> os" where
  "os_remove_all p w = (let (f, w1) = next_fault w in
     case f of Fault keep \<Rightarrow> (Some EIO, os_put (drop_tree p keep (os_fs w1)) w1)
     | NoFault \<Rightarrow> (None, os_put (drop_tree p [] (os_fs w1)) w1))"

text \<open>\<open>os.MkdirAll\<close>: every missing ancestor becomes a directory; a file in the way is an error.\<close>

definition ancestors :: "fpath \<Rightarrow> fpath list" where
  "ancestors p = filter (\<lambda>q. q \<noteq> []) (prefixes p)"

definition os_mkdir_all :: "fpath \<Rightarrow> os \<Rightarrow> os_error option \<times> os" where
  "os_mkdir_all p w = (let (f, w1) = next_fault w; fs = os_fs w1 in
     case f of Fault _ \<Rightarrow> (Some EIO, w1)
     | NoFault \<Rightarrow>
        (if list_ex (\<lambda>q. fs q \<noteq> None \<and> fs q \<noteq> Some Dir) (ancestors p) then (Some ENOTDIR, w1)
         else (None, os_put (\<lambda>q. if q \<in> set (ancestors p) then Some Dir else fs q) w1)))"

text \<open>\<open>os.Remove\<close> of a file: missing is \<open>ENOENT\<close>.\<close>

definition os_remove :: "fpath \<Rightarrow> os \<Rightarrow> os_error option \<times> os" where
  "os_remove p w = (let (f, w1) = next_fault w in
     case f of Fault _ \<Rightarrow> (Some EIO, w1)
     | NoFault \<Rightarrow> (if os_fs w1 p = None then (Some ENOENT, w1)
                  else (None, os_put ((os_fs w1)(p := None)) w1)))"

section \<open>Trees that do not overlap\<close>

definition apart_paths :: "fpath \<Rightarrow> fpath \<Rightarrow> bool" where
  "apart_paths p q \<longleftrightarrow> \<not> prefix p q \<and> \<not> prefix q p"

lemma apart_paths_sym: "apart_paths p q \<Longrightarrow> apart_paths q p"
  by (simp add: apart_paths_def)

lemma apart_not_prefix: "apart_paths p q \<Longrightarrow> \<not> prefix p (q @ r)"
  by (auto simp: apart_paths_def prefix_append)

lemma subtree_root: "fs p = subtree p fs []"
  by (simp add: subtree_def)

lemma subtree_move_other:
  "apart_paths p a \<Longrightarrow> apart_paths p b \<Longrightarrow> subtree p (move_tree a b fs) = subtree p fs"
  by (auto simp: subtree_def move_tree_def fun_eq_iff apart_not_prefix apart_paths_sym)

lemma subtree_move_to: "subtree b (move_tree a b fs) = subtree a fs"
  by (simp add: subtree_def move_tree_def fun_eq_iff)

lemma subtree_move_from:
  "apart_paths a b \<Longrightarrow> subtree a (move_tree a b fs) = (\<lambda>_. None)"
  by (auto simp: subtree_def move_tree_def fun_eq_iff apart_not_prefix apart_paths_sym)

lemma subtree_drop_other:
  "apart_paths p q \<Longrightarrow> subtree p (drop_tree q keep fs) = subtree p fs"
  by (auto simp: subtree_def drop_tree_def fun_eq_iff apart_not_prefix apart_paths_sym)

lemma subtree_drop: "subtree p (drop_tree p [] fs) = (\<lambda>_. None)"
  by (simp add: subtree_def drop_tree_def fun_eq_iff)

lemmas subtree_simps = subtree_move_other subtree_move_to subtree_move_from subtree_drop_other
  subtree_drop apart_paths_sym

section \<open>Running without failures\<close>

lemma next_fault_none [simp]: "os_faults w = [] \<Longrightarrow> next_fault w = (NoFault, w)"
  by (simp add: next_fault_def)

lemma next_fault_fs [simp]: "os_fs (snd (next_fault w)) = os_fs w"
  "os_trail (snd (next_fault w)) = os_trail w"
  by (simp_all add: next_fault_def split: list.split)

lemma os_put_simps [simp]:
  "os_fs (os_put fs w) = fs" "os_faults (os_put fs w) = os_faults w"
  "os_trail (os_put fs w) = fs # os_trail w"
  by (simp_all add: os_put_def)

text \<open>What each call can do to the tree, whatever fails.\<close>

lemma os_lstat_effect:
  assumes "os_lstat p w = (r, w')"
  shows "os_fs w' = os_fs w" and "os_trail w' = os_trail w"
    and "r = Inr b \<Longrightarrow> b \<longleftrightarrow> os_fs w p \<noteq> None"
  using assms
  by (auto simp: os_lstat_def next_fault_def split: prod.splits fault.splits list.splits)

lemma os_rename_effect:
  assumes "os_rename a b w = (r, w')"
  obtains (failed) e where "r = Some e" "os_fs w' = os_fs w" "os_trail w' = os_trail w"
  | (moved) "r = None" "os_fs w a \<noteq> None" "os_fs w b \<noteq> Some Dir"
      "os_fs w' = move_tree a b (os_fs w)" "os_trail w' = move_tree a b (os_fs w) # os_trail w"
  using assms
  by (auto simp: os_rename_def next_fault_def Let_def split: prod.splits fault.splits list.splits if_splits)

lemma os_remove_all_effect:
  assumes "os_remove_all p w = (r, w')"
  obtains keep where "os_fs w' = drop_tree p keep (os_fs w)"
    "os_trail w' = drop_tree p keep (os_fs w) # os_trail w" "r = None \<Longrightarrow> keep = []"
  using assms
  by (auto simp: os_remove_all_def next_fault_def Let_def split: prod.splits fault.splits list.splits)

lemma os_mkdir_all_effect:
  assumes "os_mkdir_all p w = (r, w')"
  obtains (failed) e where "r = Some e" "os_fs w' = os_fs w" "os_trail w' = os_trail w"
  | (made) "r = None" "os_fs w' = (\<lambda>q. if q \<in> set (ancestors p) then Some Dir else os_fs w q)"
      "os_trail w' = os_fs w' # os_trail w"
  using assms
  by (auto simp: os_mkdir_all_def next_fault_def Let_def split: prod.splits fault.splits list.splits if_splits cong: if_cong)

lemma os_remove_effect:
  assumes "os_remove p w = (r, w')"
  obtains (failed) e where "r = Some e" "os_fs w' = os_fs w" "os_trail w' = os_trail w"
  | (removed) "r = None" "os_fs w p \<noteq> None" "os_fs w' = (os_fs w)(p := None)"
      "os_trail w' = (os_fs w)(p := None) # os_trail w"
  using assms
  by (auto simp: os_remove_def next_fault_def Let_def split: prod.splits fault.splits list.splits if_splits)

text \<open>Making directories leaves alone every tree that has no ancestor among them.\<close>

lemma ancestors_iff: "q \<in> set (ancestors p) \<longleftrightarrow> prefix q p \<and> q \<noteq> []"
  by (auto simp: ancestors_def)

lemma subtree_mkdir_other:
  assumes "\<not> prefix q p"
  shows "subtree q (\<lambda>r. if r \<in> set (ancestors p) then Some Dir else fs r) = subtree q fs"
proof -
  have "\<not> prefix (q @ r) p" for r
    using assms by (auto dest: append_prefixD)
  then show ?thesis by (simp add: subtree_def fun_eq_iff ancestors_iff)
qed

end
