(* ===== verification/Bundle_Mutate.thy ===== *)
theory Bundle_Mutate
  imports OS_Model Config_Paths Targets
begin

text \<open>
  \<open>internal/bundlemutate/bundlemutate.go\<close>: the mutation policy, the staging root, and the
  staged replacement of a live bundle with its rollbacks. The bundle paths are component
  lists of cleaned paths. The process guard, the copy and the caller's callbacks are
  arguments that act on the same world.
\<close>

section \<open>Policy\<close>

datatype policy = PolicyDefer | PolicyClose | PolicyUnknown int

datatype guard_error = AppRunning string | CloseFailed string string | UnknownPolicy int string

text \<open>
  \<open>Mutate\<close>: \<open>running\<close> is \<open>appguard.Running\<close>, \<open>ensure_closed\<close> is \<open>appguard.EnsureClosed\<close>.
\<close>

definition mutate_bundle ::
  "('w \<Rightarrow> bool \<times> 'w) \<Rightarrow> ('w \<Rightarrow> string option \<times> 'w) \<Rightarrow> string \<Rightarrow> policy \<Rightarrow> bool \<Rightarrow>
     ('w \<Rightarrow> 'e option \<times> 'w) \<Rightarrow> 'w \<Rightarrow> (guard_error + 'e) option \<times> 'w" where
  "mutate_bundle running ensure_closed tid p dry fn w =
     (let call = (\<lambda>w. let (e, w') = fn w in (map_option Inr e, w')) in
      case p of
        PolicyUnknown n \<Rightarrow> (Some (Inl (UnknownPolicy n tid)), w)
      | PolicyDefer \<Rightarrow>
          (if dry then call w
           else let (live, w1) = running w
                in if live then (Some (Inl (AppRunning tid)), w1) else call w1)
      | PolicyClose \<Rightarrow>
          (if dry then call w
           else let (err, w1) = ensure_closed w
                in case err of Some e \<Rightarrow> (Some (Inl (CloseFailed tid e)), w1) | None \<Rightarrow> call w1))"

section \<open>Staging root\<close>

definition staging_prefix :: string where "staging_prefix = ''.dvc-staging-''"

definition is_component_char :: "char \<Rightarrow> bool" where
  "is_component_char c \<longleftrightarrow> is_digit c \<or> c \<in> {CHR ''-'', CHR ''_''} \<or>
     (let l = lower_char c in CHR ''a'' \<le> l \<and> l \<le> CHR ''z'')"

text \<open>
  \<open>sanitizePathComponent\<close>: \<open>strings.Map\<close> works on runes (an id is valid UTF-8, as TOML is). A multi-byte rune becomes one
  dash; \<open>is_continuation\<close> drops the bytes that continue a rune.
\<close>

definition is_continuation :: "char \<Rightarrow> bool" where
  "is_continuation c \<longleftrightarrow> (128 :: nat) \<le> of_char c \<and> of_char c < (192 :: nat)"

definition sanitize_path_component :: "string \<Rightarrow> string" where
  "sanitize_path_component v =
     (let mapped = map (\<lambda>c. if is_component_char c then c else CHR ''-'')
                     (filter (\<lambda>c. \<not> is_continuation c) (trim_space v));
          s = trim_chars {CHR ''-''} mapped
      in if s = [] then ''target'' else s)"

text \<open>
  \<open>deviceOf\<close>: the device of the nearest existing ancestor; \<open>dev\<close> is what \<open>os.Stat\<close> says
  (\<open>Inr None\<close>: does not exist).
\<close>

fun device_of :: "(string list \<Rightarrow> ('e, nat option) result) \<Rightarrow> string list \<Rightarrow> ('e option, nat) result" where
  "device_of dev [] = (case dev [] of Inl e \<Rightarrow> Inl (Some e) | Inr (Some d) \<Rightarrow> Inr d | Inr None \<Rightarrow> Inl None)"
| "device_of dev (c # cs) =
     (case dev (c # cs) of Inl e \<Rightarrow> Inl (Some e) | Inr (Some d) \<Rightarrow> Inr d
      | Inr None \<Rightarrow> device_of dev (butlast (c # cs)))"

definition staging_root ::
  "(fpath \<Rightarrow> ('e, nat option) result) \<Rightarrow> fpath \<Rightarrow> fpath \<Rightarrow> string \<Rightarrow> ('e option, fpath) result" where
  "staging_root dev sroot app sfx =
     rbind (device_of dev sroot) (\<lambda>a.
     rbind (device_of dev (butlast app)) (\<lambda>b.
       Inr ((if a = b then sroot else butlast app) @ [staging_prefix @ sfx])))"

section \<open>The commit\<close>

datatype swap_error =
    StaleStat os_error
  | StaleWithoutLive
  | LiveStat os_error
  | RemoveStale os_error
  | SaveOldStat os_error
  | SaveOldRename os_error
  | InstallFailed os_error
  | InstallAndRestoreFailed os_error os_error
  | VerifyFailed string "os_error list"
  | CleanupOld os_error

definition old_suffix :: string where "old_suffix = ''.dvc-old''"

definition old_path :: "fpath \<Rightarrow> fpath" where
  "old_path app = butlast app @ [last app @ old_suffix]"

definition prepare_old_path :: "fpath \<Rightarrow> os \<Rightarrow> swap_error option \<times> os" where
  "prepare_old_path app w =
     (let (ol, w1) = os_lstat (old_path app) w in
      case ol of
        Inl e \<Rightarrow> (Some (StaleStat e), w1)
      | Inr False \<Rightarrow> (None, w1)
      | Inr True \<Rightarrow>
          (let (l, w2) = os_lstat app w1 in
           case l of
             Inl e \<Rightarrow> (Some (LiveStat e), w2)
           | Inr False \<Rightarrow> (Some StaleWithoutLive, w2)
           | Inr True \<Rightarrow>
               (let (r, w3) = os_remove_all (old_path app) w2 in (map_option RemoveStale r, w3))))"

definition rename_if_exists :: "fpath \<Rightarrow> fpath \<Rightarrow> os \<Rightarrow> (swap_error, bool) result \<times> os" where
  "rename_if_exists src dst w =
     (let (l, w1) = os_lstat src w in
      case l of
        Inl e \<Rightarrow> (Inl (SaveOldStat e), w1)
      | Inr False \<Rightarrow> (Inr False, w1)
      | Inr True \<Rightarrow>
          (let (r, w2) = os_rename src dst w1
           in (case r of Some e \<Rightarrow> Inl (SaveOldRename e) | None \<Rightarrow> Inr True, w2)))"

definition restore_after_install_failure ::
  "fpath \<Rightarrow> bool \<Rightarrow> os_error \<Rightarrow> os \<Rightarrow> swap_error option \<times> os" where
  "restore_after_install_failure app had_live err w =
     (if \<not> had_live then (Some (InstallFailed err), w)
      else let (r, w1) = os_rename (old_path app) app w
           in (Some (case r of Some e \<Rightarrow> InstallAndRestoreFailed err e | None \<Rightarrow> InstallFailed err), w1))"

text \<open>The list of errors \<open>restoreLiveBundleAfterRollback\<close> collects.\<close>

definition restore_live_after_rollback :: "fpath \<Rightarrow> os \<Rightarrow> os_error list \<times> os" where
  "restore_live_after_rollback app w =
     (let (l, w1) = os_lstat app w;
          (errs, w2) = (case l of
             Inl e \<Rightarrow> ([e], w1)
           | Inr False \<Rightarrow> ([], w1)
           | Inr True \<Rightarrow> (let (r, w') = os_remove_all app w1
                         in (case r of None \<Rightarrow> [] | Some e \<Rightarrow> [e], w')));
          (r, w3) = os_rename (old_path app) app w2
      in (errs @ (case r of None \<Rightarrow> [] | Some e \<Rightarrow> [e]), w3))"

definition rollback_commit ::
  "fpath \<Rightarrow> fpath \<Rightarrow> bool \<Rightarrow> string \<Rightarrow> os \<Rightarrow> swap_error option \<times> os" where
  "rollback_commit app staged had_live verify_err w =
     (let (m, w1) = os_mkdir_all (butlast staged) w;
          (r, w2) = os_rename app staged w1;
          (errs, w3) = (if had_live then restore_live_after_rollback app w2 else ([], w2))
      in (Some (VerifyFailed verify_err
            ((case m of None \<Rightarrow> [] | Some e \<Rightarrow> [e]) @ (case r of None \<Rightarrow> [] | Some e \<Rightarrow> [e]) @ errs)), w3))"

definition finish_commit :: "fpath \<Rightarrow> bool \<Rightarrow> os \<Rightarrow> swap_error option \<times> os" where
  "finish_commit app had_live w =
     (if \<not> had_live then (None, w)
      else let (r, w1) = os_remove_all (old_path app) w in (map_option CleanupOld r, w1))"

definition commit_swap ::
  "fpath \<Rightarrow> fpath \<Rightarrow> (os \<Rightarrow> string option \<times> os) option \<Rightarrow> bool \<Rightarrow> os \<Rightarrow> swap_error option \<times> os" where
  "commit_swap app staged verify dry w =
     (if dry then (None, w)
      else let (p, w1) = prepare_old_path app w in
        case p of Some e \<Rightarrow> (Some e, w1)
        | None \<Rightarrow>
          (let (h, w2) = rename_if_exists app (old_path app) w1 in
           case h of Inl e \<Rightarrow> (Some e, w2)
           | Inr had_live \<Rightarrow>
             (let (r, w3) = os_rename staged app w2 in
              case r of Some e \<Rightarrow> restore_after_install_failure app had_live e w3
              | None \<Rightarrow>
                (case verify of
                   None \<Rightarrow> finish_commit app had_live w3
                 | Some v \<Rightarrow>
                     (let (verr, w4) = v w3 in
                      case verr of
                        Some e \<Rightarrow> rollback_commit app staged had_live e w4
                      | None \<Rightarrow> finish_commit app had_live w4)))))"

section \<open>The staged swap\<close>

datatype 'e stage_error =
    AdoptPathMissing
  | StagingRootFailed
  | StageMkdir os_error
  | StageCopy string
  | MutateFailed string
  | PreCommitFailed 'e
  | CommitFailed swap_error

definition stage_bundle ::
  "(os \<Rightarrow> string option \<times> os) \<Rightarrow> fpath \<Rightarrow> bool \<Rightarrow> os \<Rightarrow> 'e stage_error option \<times> os" where
  "stage_bundle copy staged dry w =
     (if dry then (None, w)
      else let (m, w1) = os_mkdir_all (butlast staged) w in
        case m of Some e \<Rightarrow> (Some (StageMkdir e), w1)
        | None \<Rightarrow> (let (c, w2) = copy w1 in (map_option StageCopy c, w2)))"

text \<open>
  \<open>StagedSwap\<close> from the staging root on: \<open>copy\<close> is \<open>ditto adoptPath staged\<close>, \<open>mutate\<close> and
  \<open>pre\<close> are the caller's hooks; the deferred \<open>cleanupStagingRoot\<close> ignores its error.
\<close>

definition staged_swap_body ::
  "fpath \<Rightarrow> fpath \<Rightarrow> (os \<Rightarrow> string option \<times> os) \<Rightarrow> (fpath \<Rightarrow> os \<Rightarrow> string option \<times> os) \<Rightarrow>
     (os \<Rightarrow> 'e option \<times> os) option \<Rightarrow> (os \<Rightarrow> string option \<times> os) option \<Rightarrow> bool \<Rightarrow> os \<Rightarrow>
     'e stage_error option \<times> os" where
  "staged_swap_body app staged copy mutate pre verify dry w =
     (let (s, w1) = stage_bundle copy staged dry w in
      case s of Some e \<Rightarrow> (Some e, w1)
      | None \<Rightarrow>
        (let (m, w2) = mutate staged w1 in
         case m of Some e \<Rightarrow> (Some (MutateFailed e), w2)
         | None \<Rightarrow>
           (let (p, w3) = (case pre of None \<Rightarrow> (None, w2) | Some f \<Rightarrow> f w2) in
            case p of Some e \<Rightarrow> (Some (PreCommitFailed e), w3)
            | None \<Rightarrow> (let (c, w4) = commit_swap app staged verify dry w3
                      in (map_option CommitFailed c, w4)))))"

definition staged_swap ::
  "string \<Rightarrow> (fpath \<Rightarrow> (os_error, nat option) result) \<Rightarrow> fpath \<Rightarrow> string \<Rightarrow> fpath \<Rightarrow>
     (os \<Rightarrow> string option \<times> os) \<Rightarrow> (fpath \<Rightarrow> os \<Rightarrow> string option \<times> os) \<Rightarrow>
     (os \<Rightarrow> 'e option \<times> os) option \<Rightarrow> (os \<Rightarrow> string option \<times> os) option \<Rightarrow> bool \<Rightarrow> os \<Rightarrow>
     'e stage_error option \<times> os" where
  "staged_swap adopt dev sroot sfx app copy mutate pre verify dry w =
     (if trim_space adopt = [] then (Some AdoptPathMissing, w)
      else case staging_root dev sroot app sfx of
        Inl _ \<Rightarrow> (Some StagingRootFailed, w)
      | Inr sdir \<Rightarrow>
          (let (r, w1) = staged_swap_body app (sdir @ [last app]) copy mutate pre verify dry w;
               (_, w2) = os_remove_all sdir w1
           in (r, w2)))"

section \<open>The old bundle is never lost\<close>

lemma apart_old: "app \<noteq> [] \<Longrightarrow> apart_paths app (old_path app)"
proof -
  assume "app \<noteq> []"
  then obtain d b where "app = d @ [b]" by (metis rev_exhaust)
  then show ?thesis by (simp add: apart_paths_def old_path_def old_suffix_def)
qed

definition safe_in :: "fpath \<Rightarrow> filesys \<Rightarrow> filesys \<Rightarrow> bool" where
  "safe_in app L fs \<longleftrightarrow> subtree app fs = L \<or> subtree (old_path app) fs = L"

definition trail_safe :: "fpath \<Rightarrow> filesys \<Rightarrow> os \<Rightarrow> bool" where
  "trail_safe app L w \<longleftrightarrow> (\<forall>fs\<in>set (os_trail w). safe_in app L fs)"

text \<open>A callback that leaves a tree alone, in every state it goes through.\<close>

definition leaves_alone :: "fpath \<Rightarrow> (os \<Rightarrow> 'r \<times> os) \<Rightarrow> bool" where
  "leaves_alone p f \<longleftrightarrow> (\<forall>w r w'. f w = (r, w') \<longrightarrow>
     subtree p (os_fs w') = subtree p (os_fs w) \<and>
     (\<exists>new. os_trail w' = new @ os_trail w \<and> (\<forall>fs\<in>set new. subtree p fs = subtree p (os_fs w))))"

lemma prepare_old_path_cases:
  assumes "prepare_old_path app w = (r, w')"
  obtains (same) "os_fs w' = os_fs w" "os_trail w' = os_trail w"
      "r = None \<Longrightarrow> os_fs w (old_path app) = None"
  | (dropped) keep where "os_fs w' = drop_tree (old_path app) keep (os_fs w)"
      "os_trail w' = drop_tree (old_path app) keep (os_fs w) # os_trail w" "r = None \<Longrightarrow> keep = []"
proof -
  let ?old = "old_path app"
  obtain o1 w1 where o1: "os_lstat ?old w = (o1, w1)" by fastforce
  obtain o2 w2 where o2: "os_lstat app w1 = (o2, w2)" by fastforce
  obtain r3 w3 where r3: "os_remove_all ?old w2 = (r3, w3)" by fastforce
  note e1 = os_lstat_effect [OF o1] and e2 = os_lstat_effect [OF o2]
  consider "o1 = Inr True \<and> o2 = Inr True" | "o1 = Inr False" | x where "o1 = Inl x"
    | "o1 = Inr True" "o2 = Inr False" | x where "o1 = Inr True" "o2 = Inl x"
    by (cases o1; cases o2; metis (full_types))
  then show thesis
  proof cases
    case 1
    then have "r = map_option RemoveStale r3" "w' = w3"
      using assms o1 o2 r3 by (simp_all add: prepare_old_path_def)
    with os_remove_all_effect [OF r3] e1 e2 show thesis
      by (metis dropped option.map_disc_iff)
  next
    case 2
    then have "w' = w1" using assms o1 by (simp add: prepare_old_path_def)
    with e1 2 show thesis by (intro same) auto
  next
    case 3
    then have "w' = w1" "r \<noteq> None" using assms o1 by (auto simp: prepare_old_path_def)
    with e1 show thesis by (intro same) auto
  next
    case 4
    then have "w' = w2" "r \<noteq> None" using assms o1 o2 by (auto simp: prepare_old_path_def)
    with e1 e2 show thesis by (intro same) auto
  next
    case 5
    then have "w' = w2" "r \<noteq> None" using assms o1 o2 by (auto simp: prepare_old_path_def)
    with e1 e2 show thesis by (intro same) auto
  qed
qed

lemma prepare_old_path_effect:
  assumes "prepare_old_path app w = (r, w')" and "app \<noteq> []"
  shows "subtree app (os_fs w') = subtree app (os_fs w)"
    and "apart_paths q (old_path app) \<Longrightarrow> subtree q (os_fs w') = subtree q (os_fs w)"
    and "trail_safe app (subtree app (os_fs w)) w \<Longrightarrow> trail_safe app (subtree app (os_fs w)) w'"
    and "r = None \<Longrightarrow> os_fs w' (old_path app) = None"
proof -
  note ap = apart_old [OF assms(2)]
  show "subtree app (os_fs w') = subtree app (os_fs w)"
    using assms(1) by (cases rule: prepare_old_path_cases) (simp_all add: subtree_drop_other ap)
  show "subtree q (os_fs w') = subtree q (os_fs w)" if "apart_paths q (old_path app)"
    using assms(1) by (cases rule: prepare_old_path_cases) (simp_all add: subtree_drop_other that)
  show "trail_safe app (subtree app (os_fs w)) w'" if "trail_safe app (subtree app (os_fs w)) w"
    using assms(1)
    by (cases rule: prepare_old_path_cases)
       (use that in \<open>simp_all add: trail_safe_def safe_in_def subtree_drop_other ap\<close>)
  show "os_fs w' (old_path app) = None" if "r = None"
    using assms(1)
    by (cases rule: prepare_old_path_cases) (simp_all add: that drop_tree_def)
qed

lemma rename_if_exists_effect:
  assumes "rename_if_exists src dst w = (h, w')"
  obtains (failed) e where "h = Inl e" "os_fs w' = os_fs w" "os_trail w' = os_trail w"
  | (absent) "h = Inr False" "os_fs w src = None" "os_fs w' = os_fs w" "os_trail w' = os_trail w"
  | (moved) "h = Inr True" "os_fs w' = move_tree src dst (os_fs w)"
      "os_trail w' = move_tree src dst (os_fs w) # os_trail w"
proof -
  obtain l w1 where l: "os_lstat src w = (l, w1)" by fastforce
  obtain r w2 where r: "os_rename src dst w1 = (r, w2)" by fastforce
  note e = os_lstat_effect [OF l]
  show thesis
  proof (cases l)
    case (Inl err)
    with assms l e show thesis by (intro failed) (auto simp: rename_if_exists_def)
  next
    case (Inr b)
    show thesis
    proof (cases b)
      case False
      with assms l Inr e e(3) [OF Inr] show thesis by (intro absent) (auto simp: rename_if_exists_def)
    next
      case True
      from r show thesis
      proof (cases rule: os_rename_effect)
        case (failed err)
        with assms l r Inr True e show thesis by (intro that(1)) (auto simp: rename_if_exists_def)
      next
        case moved
        with assms l r Inr True e show thesis by (intro that(3)) (auto simp: rename_if_exists_def)
      qed
    qed
  qed
qed

text \<open>Every later step keeps the old bundle in one of its two places.\<close>

lemma restore_after_install_safe:
  assumes "restore_after_install_failure app had err w = (r, w')" and "app \<noteq> []"
    and "subtree (old_path app) (os_fs w) = L" and "trail_safe app L w"
  shows "safe_in app L (os_fs w') \<and> trail_safe app L w'"
proof (cases had)
  case True
  obtain r1 w1 where r1: "os_rename (old_path app) app w = (r1, w1)" by fastforce
  with assms(1) True have w': "w' = w1" by (simp add: restore_after_install_failure_def)
  from r1 show ?thesis
    by (cases rule: os_rename_effect)
       (use assms(3,4) w' in \<open>auto simp: safe_in_def trail_safe_def subtree_move_to\<close>)
qed (use assms in \<open>auto simp: restore_after_install_failure_def safe_in_def\<close>)

lemma restore_live_safe:
  assumes "restore_live_after_rollback app w = (errs, w')" and "app \<noteq> []"
    and "subtree (old_path app) (os_fs w) = L" and "trail_safe app L w"
  shows "safe_in app L (os_fs w') \<and> trail_safe app L w'"
proof -
  obtain l w1 where l: "os_lstat app w = (l, w1)" by fastforce
  obtain d wd where d: "os_remove_all app w1 = (d, wd)" by fastforce
  note e = os_lstat_effect [OF l]
  note ap = apart_paths_sym [OF apart_old [OF assms(2)]]
  obtain keep where k: "os_fs wd = drop_tree app keep (os_fs w)"
    "os_trail wd = drop_tree app keep (os_fs w) # os_trail w"
    using os_remove_all_effect [OF d] e by metis
  define w2 where "w2 = (case l of Inr True \<Rightarrow> wd | _ \<Rightarrow> w1)"
  have w2: "subtree (old_path app) (os_fs w2) = L" "trail_safe app L w2"
    using assms(3,4) e k ap
    by (auto simp: w2_def trail_safe_def safe_in_def subtree_drop_other split: sum.splits bool.splits)
  obtain r w3 where r: "os_rename (old_path app) app w2 = (r, w3)" by fastforce
  have w': "w' = w3"
    using assms(1) l d r
    by (auto simp: restore_live_after_rollback_def w2_def split: sum.splits bool.splits)
  from r show ?thesis
    by (cases rule: os_rename_effect)
       (use w2 w' in \<open>auto simp: safe_in_def trail_safe_def subtree_move_to\<close>)
qed

lemma rollback_safe:
  assumes "rollback_commit app staged True e w = (r, w')" and "app \<noteq> []"
    and "apart_paths (old_path app) staged"
    and "subtree (old_path app) (os_fs w) = L" and "trail_safe app L w"
  shows "safe_in app L (os_fs w') \<and> trail_safe app L w'"
proof -
  obtain m w1 where m: "os_mkdir_all (butlast staged) w = (m, w1)" by fastforce
  obtain r2 w2 where r2: "os_rename app staged w1 = (r2, w2)" by fastforce
  obtain errs w3 where r3: "restore_live_after_rollback app w2 = (errs, w3)" by fastforce
  have w': "w' = w3" using assms(1) m r2 r3 by (auto simp: rollback_commit_def)
  have np: "\<not> prefix (old_path app) (butlast staged)"
    using assms(3) by (auto simp: apart_paths_def dest: prefix_order.trans [OF _ prefixeq_butlast])
  from m have w1: "subtree (old_path app) (os_fs w1) = L \<and> trail_safe app L w1"
    by (cases rule: os_mkdir_all_effect)
       (use assms(4,5) np in \<open>auto simp: subtree_mkdir_other trail_safe_def safe_in_def\<close>)
  note ap = apart_paths_sym [OF apart_old [OF assms(2)]]
  from r2 have "subtree (old_path app) (os_fs w2) = L \<and> trail_safe app L w2"
    by (cases rule: os_rename_effect)
       (use w1 ap assms(3) in \<open>auto simp: subtree_move_other trail_safe_def safe_in_def\<close>)
  then show ?thesis using restore_live_safe [OF r3 assms(2)] w' by blast
qed

text \<open>The commit up to the verification: what state the verification starts from.\<close>

definition committed :: "swap_error option \<Rightarrow> bool" where
  "committed r \<longleftrightarrow> r = None \<or> (\<exists>e. r = Some (CleanupOld e))"

lemma finish_commit_committed: "finish_commit app had w = (r, w') \<Longrightarrow> committed r"
  by (cases had) (auto simp: finish_commit_def committed_def split: prod.splits)

lemma commit_swap_cases:
  assumes "commit_swap app staged verify False w = (r, w')"
  obtains (prepare) e where "prepare_old_path app w = (Some e, w')" "r = Some e"
  | (save) w1 e where "prepare_old_path app w = (None, w1)"
      "rename_if_exists app (old_path app) w1 = (Inl e, w')" "r = Some e"
  | (install) w1 w2 had e w3 where "prepare_old_path app w = (None, w1)"
      "rename_if_exists app (old_path app) w1 = (Inr had, w2)" "os_rename staged app w2 = (Some e, w3)"
      "restore_after_install_failure app had e w3 = (r, w')"
  | (unverified) w1 w2 had w3 where "prepare_old_path app w = (None, w1)"
      "rename_if_exists app (old_path app) w1 = (Inr had, w2)" "os_rename staged app w2 = (None, w3)"
      "verify = None" "finish_commit app had w3 = (r, w')"
  | (rejected) w1 w2 had w3 v e w4 where "prepare_old_path app w = (None, w1)"
      "rename_if_exists app (old_path app) w1 = (Inr had, w2)" "os_rename staged app w2 = (None, w3)"
      "verify = Some v" "v w3 = (Some e, w4)" "rollback_commit app staged had e w4 = (r, w')"
  | (verified) w1 w2 had w3 v w4 where "prepare_old_path app w = (None, w1)"
      "rename_if_exists app (old_path app) w1 = (Inr had, w2)" "os_rename staged app w2 = (None, w3)"
      "verify = Some v" "v w3 = (None, w4)" "finish_commit app had w4 = (r, w')"
proof -
  obtain p w1 where p: "prepare_old_path app w = (p, w1)" by fastforce
  obtain h w2 where h: "rename_if_exists app (old_path app) w1 = (h, w2)" by fastforce
  obtain i w3 where i: "os_rename staged app w2 = (i, w3)" by fastforce
  show thesis
  proof (cases p)
    case (Some e)
    with assms p show thesis by (intro prepare) (auto simp: commit_swap_def)
  next
    case None
    show thesis
    proof (cases h)
      case (Inl e)
      with assms p None h show thesis by (intro save) (auto simp: commit_swap_def)
    next
      case (Inr had)
      show thesis
      proof (cases i)
        case (Some e)
        with assms p None h Inr i show thesis by (intro install) (auto simp: commit_swap_def)
      next
        case i0: None
        show thesis
        proof (cases verify)
          case None
          with assms p \<open>p = None\<close> h Inr i i0 show thesis by (intro unverified) (auto simp: commit_swap_def)
        next
          case (Some v)
          obtain ve w4 where v: "v w3 = (ve, w4)" by fastforce
          show thesis
          proof (cases ve)
            case None
            with assms p \<open>p = None\<close> h Inr i i0 Some v show thesis
              by (intro verified [of w1 had w2 w3 v w4]) (auto simp: commit_swap_def)
          next
            case (Some e)
            with assms p \<open>p = None\<close> h Inr i i0 \<open>verify = Some v\<close> v show thesis
              by (intro rejected [of w1 had w2 w3 v e w4]) (auto simp: commit_swap_def)
          qed
        qed
      qed
    qed
  qed
qed

text \<open>C2. The commit never loses the installed bundle. Whatever calls fail, and however a
  removal fails half way: in every state the commit goes through (so also if it is killed
  there), until it has verified and accepted the new bundle, the old one is complete at the
  live path or at the backup path; the same holds of the state it returns in.\<close>

theorem commit_never_loses:
  assumes "app \<noteq> []" and "apart_paths (old_path app) staged" and "os_fs w app \<noteq> None"
    and "os_trail w = []" and "\<And>v. verify = Some v \<Longrightarrow> leaves_alone (old_path app) v"
    and "commit_swap app staged verify False w = (r, w')" and "\<not> committed r"
  shows "safe_in app (subtree app (os_fs w)) (os_fs w') \<and>
         (\<forall>fs\<in>set (os_trail w'). safe_in app (subtree app (os_fs w)) fs)"
proof -
  let ?L = "subtree app (os_fs w)" and ?old = "old_path app"
  have t0: "trail_safe app ?L w" using assms(4) by (simp add: trail_safe_def)
  note prep = prepare_old_path_effect [OF _ assms(1)]
  have saved: "had = True \<and> subtree ?old (os_fs w2) = ?L \<and> trail_safe app ?L w2"
    if "prepare_old_path app w = (p, w1)" "rename_if_exists app ?old w1 = (Inr had, w2)" for p w1 had w2
    using that(2)
  proof (cases rule: rename_if_exists_effect)
    case absent
    have "os_fs w1 app = os_fs w app" using prep(1) [OF that(1)] by (metis subtree_root)
    with absent assms(3) show ?thesis by simp
  next
    case moved
    with prep(1,3) [OF that(1)] t0 show ?thesis
      by (auto simp: trail_safe_def safe_in_def subtree_move_to)
  qed simp
  have installed: "subtree ?old (os_fs w3) = ?L \<and> trail_safe app ?L w3"
    if "subtree ?old (os_fs w2) = ?L \<and> trail_safe app ?L w2" "os_rename staged app w2 = (i, w3)"
    for w2 i w3
    using that(2)
  proof (cases rule: os_rename_effect)
    case moved
    have "subtree ?old (move_tree staged app (os_fs w2)) = ?L"
      using that(1) subtree_move_other [OF assms(2) apart_paths_sym [OF apart_old [OF assms(1)]]] by simp
    with moved that(1) show ?thesis by (simp add: trail_safe_def safe_in_def)
  qed (use that in \<open>simp add: trail_safe_def\<close>)
  from assms(6) have "safe_in app ?L (os_fs w') \<and> trail_safe app ?L w'"
  proof (cases rule: commit_swap_cases)
    case (prepare e)
    with prep(1,3) t0 show ?thesis by (auto simp: safe_in_def)
  next
    case (save w1 e)
    from save(2) show ?thesis
      by (cases rule: rename_if_exists_effect)
         (use prep(1,3) [OF save(1)] t0 in \<open>simp_all add: safe_in_def trail_safe_def\<close>)
  next
    case (install w1 w2 had e w3)
    show ?thesis
      using restore_after_install_safe [OF install(4) assms(1)] installed [OF _ install(3)]
        saved [OF install(1,2)] by blast
  next
    case (rejected w1 w2 had w3 v e w4)
    have w3: "had" "subtree ?old (os_fs w3) = ?L" "trail_safe app ?L w3"
      using installed [OF _ rejected(3)] saved [OF rejected(1,2)] by blast+
    obtain new where "subtree ?old (os_fs w4) = ?L" "os_trail w4 = new @ os_trail w3"
      "\<forall>fs\<in>set new. subtree ?old fs = ?L"
      using assms(5) [OF rejected(4)] rejected(5) w3(2) unfolding leaves_alone_def by metis
    with w3(3) have "trail_safe app ?L w4" by (auto simp: trail_safe_def safe_in_def)
    with rollback_safe [OF _ assms(1,2)] rejected(6) w3(1) \<open>subtree ?old (os_fs w4) = ?L\<close>
    show ?thesis by simp
  next
    case (unverified w1 w2 had w3)
    with finish_commit_committed assms(7) show ?thesis by blast
  next
    case (verified w1 w2 had w3 v w4)
    with finish_commit_committed assms(7) show ?thesis by blast
  qed
  then show ?thesis by (simp add: trail_safe_def)
qed

text \<open>
  A commit that reports success has done it all: the live path holds exactly the
  staged bundle, the backup is gone, and so is the staged copy (for a verification that
  only looks).\<close>

theorem commit_success:
  assumes "app \<noteq> []" and "apart_paths app staged" and "apart_paths (old_path app) staged"
    and "\<And>v u. verify = Some v \<Longrightarrow> snd (v u) = u"
    and "commit_swap app staged verify False w = (None, w')"
  shows "subtree app (os_fs w') = subtree staged (os_fs w) \<and>
         os_fs w' (old_path app) = None \<and> os_fs w' staged = None"
proof -
  let ?old = "old_path app"
  note ap = apart_old [OF assms(1)]
  have main: "subtree app (os_fs w') = subtree staged (os_fs w) \<and> os_fs w' ?old = None \<and>
      os_fs w' staged = None"
    if p: "prepare_old_path app w = (None, w1)" and h: "rename_if_exists app ?old w1 = (Inr had, w2)"
      and i: "os_rename staged app w2 = (None, w3)" and f: "finish_commit app had w3 = (None, w')"
    for w1 had w2 w3
  proof -
    note pe = prepare_old_path_effect [OF p assms(1)]
    have s1: "subtree staged (os_fs w1) = subtree staged (os_fs w)"
      by (rule pe(2)) (rule apart_paths_sym [OF assms(3)])
    from h have s2: "subtree staged (os_fs w2) = subtree staged (os_fs w) \<and>
        (\<not> had \<longrightarrow> os_fs w2 ?old = None)"
      by (cases rule: rename_if_exists_effect)
         (use s1 pe(4) assms(2,3) in
           \<open>simp_all add: subtree_move_other apart_paths_sym\<close>)
    from i have w3: "os_fs w3 = move_tree staged app (os_fs w2)"
      by (cases rule: os_rename_effect) auto
    have s3: "subtree app (os_fs w3) = subtree staged (os_fs w)" "os_fs w3 staged = None"
      using s2 subtree_move_from [OF apart_paths_sym [OF assms(2)], of "os_fs w2"] w3
      by (simp_all add: subtree_move_to subtree_root [of _ staged])
    have o3: "\<not> had \<Longrightarrow> os_fs w3 ?old = None"
      using s2 w3 subtree_move_other [OF assms(3) apart_paths_sym [OF ap], of "os_fs w2"]
      by (simp add: subtree_root [of _ ?old])
    show ?thesis
    proof (cases had)
      case False
      with f s3 o3 show ?thesis by (simp add: finish_commit_def)
    next
      case True
      obtain d wd where d: "os_remove_all ?old w3 = (d, wd)" by fastforce
      with f True have "d = None" "w' = wd" by (auto simp: finish_commit_def)
      with os_remove_all_effect [OF d] have w': "os_fs w' = drop_tree ?old [] (os_fs w3)" by metis
      have "subtree staged (os_fs w') = subtree staged (os_fs w3)"
        unfolding w' by (rule subtree_drop_other) (rule apart_paths_sym [OF assms(3)])
      then have "os_fs w' staged = None" using s3(2) by (metis subtree_root)
      with s3 w' ap show ?thesis by (simp add: subtree_drop_other) (simp add: drop_tree_def)
    qed
  qed
  from assms(5) show ?thesis
  proof (cases rule: commit_swap_cases)
    case (verified w1 w2 had w3 v w4)
    have "w4 = w3" using assms(4) [OF verified(4), of w3] verified(5) by simp
    with main [OF verified(1-3)] verified(6) show ?thesis by simp
  next
    case (install w1 w2 had e w3)
    then show ?thesis by (auto simp: restore_after_install_failure_def split: if_splits prod.splits)
  next
    case (rejected w1 w2 had w3 v e w4)
    then show ?thesis by (auto simp: rollback_commit_def split: prod.splits)
  qed (use main in auto)
qed

lemma restore_live_clean:
  assumes "restore_live_after_rollback app w = ([], w')" and "app \<noteq> []" and "os_fs w app = None"
  shows "subtree app (os_fs w') = subtree (old_path app) (os_fs w)" and "os_fs w' (old_path app) = None"
    and "apart_paths q app \<Longrightarrow> apart_paths q (old_path app) \<Longrightarrow> subtree q (os_fs w') = subtree q (os_fs w)"
proof -
  obtain l w1 where l: "os_lstat app w = (l, w1)" by fastforce
  have lF: "l = Inr False"
  proof (cases l)
    case (Inl e)
    with assms(1) l show ?thesis by (auto simp: restore_live_after_rollback_def split: prod.splits)
  next
    case (Inr b)
    with os_lstat_effect(3) [OF l Inr] assms(3) show ?thesis by simp
  qed
  obtain r w3 where r: "os_rename (old_path app) app w1 = (r, w3)" by fastforce
  have "r = None" "w' = w3"
    using assms(1) l lF r by (auto simp: restore_live_after_rollback_def split: option.splits)
  with r have fs: "os_fs w' = move_tree (old_path app) app (os_fs w)"
    by (cases rule: os_rename_effect) (use os_lstat_effect [OF l] in auto)
  show "subtree app (os_fs w') = subtree (old_path app) (os_fs w)"
    by (simp add: fs subtree_move_to)
  show "os_fs w' (old_path app) = None"
    using subtree_move_from [OF apart_paths_sym [OF apart_old [OF assms(2)]], of "os_fs w"] fs
    by (simp add: subtree_root [of _ "old_path app"])
  show "subtree q (os_fs w') = subtree q (os_fs w)"
    if "apart_paths q app" "apart_paths q (old_path app)"
    using that by (simp add: fs subtree_move_other)
qed

text \<open>
  A rejected commit that reports no rollback error has undone everything: the live
  path holds exactly the bundle that was installed before, the backup is gone, and the
  rejected bundle is back in the staging area.\<close>

theorem rollback_exact:
  assumes "app \<noteq> []" and "apart_paths app staged" and "apart_paths (old_path app) staged"
    and "os_fs w app \<noteq> None" and "\<And>u. v u = (Some e, u)"
    and "commit_swap app staged (Some v) False w = (Some (VerifyFailed e []), w')"
  shows "subtree app (os_fs w') = subtree app (os_fs w) \<and> os_fs w' (old_path app) = None \<and>
         subtree staged (os_fs w') = subtree staged (os_fs w)"
  using assms(6)
proof (cases rule: commit_swap_cases)
  case (rejected w1 w2 had w3 v' e' w4)
  let ?old = "old_path app"
  note ap = apart_old [OF assms(1)] and pe = prepare_old_path_effect [OF rejected(1) assms(1)]
  have w4: "w4 = w3" using rejected(4,5) assms(5) [of w3] by simp
  have st1: "subtree staged (os_fs w1) = subtree staged (os_fs w)"
    by (rule pe(2)) (rule apart_paths_sym [OF assms(3)])
  have live: "os_fs w1 app \<noteq> None" using pe(1) assms(4) by (metis subtree_root)
  from rejected(2) have 2: "had \<and> subtree ?old (os_fs w2) = subtree app (os_fs w) \<and>
      subtree staged (os_fs w2) = subtree staged (os_fs w)"
    by (cases rule: rename_if_exists_effect)
       (use live pe(1) st1 assms(2,3) rejected(3) in
         \<open>simp_all add: subtree_move_to subtree_move_other apart_paths_sym\<close>)
  from rejected(3) have fs3: "os_fs w3 = move_tree staged app (os_fs w2)"
    by (cases rule: os_rename_effect) auto
  have 3: "subtree ?old (os_fs w3) = subtree app (os_fs w)" "subtree app (os_fs w3) = subtree staged (os_fs w)"
    using 2 fs3 assms(3) apart_paths_sym [OF ap] by (simp_all add: subtree_move_other subtree_move_to)
  obtain m u1 where m: "os_mkdir_all (butlast staged) w3 = (m, u1)" by fastforce
  obtain r2 u2 where r2: "os_rename app staged u1 = (r2, u2)" by fastforce
  obtain errs u3 where r3: "restore_live_after_rollback app u2 = (errs, u3)" by fastforce
  from rejected(6) 2 w4 m r2 r3 have clean: "m = None" "r2 = None" "errs = []" "w' = u3"
    by (auto simp: rollback_commit_def split: option.splits)
  have np: "\<not> prefix ?old (butlast staged)" "\<not> prefix app (butlast staged)"
    using assms(2,3) by (auto simp: apart_paths_def dest: prefix_order.trans [OF _ prefixeq_butlast])
  from m clean(1) have u1: "subtree ?old (os_fs u1) = subtree app (os_fs w)"
      "subtree app (os_fs u1) = subtree staged (os_fs w)"
    by (cases rule: os_mkdir_all_effect; (use 3 np in \<open>simp add: subtree_mkdir_other\<close>))+
  from r2 clean(2) have fs2: "os_fs u2 = move_tree app staged (os_fs u1)"
    by (cases rule: os_rename_effect) auto
  have u2: "subtree ?old (os_fs u2) = subtree app (os_fs w)"
      "subtree staged (os_fs u2) = subtree staged (os_fs w)" "os_fs u2 app = None"
    using u1 fs2 assms(3) apart_paths_sym [OF ap] subtree_move_from [OF assms(2), of "os_fs u1"]
    by (simp_all add: subtree_move_other subtree_move_to subtree_root [of _ app])
  note undo = restore_live_clean [OF r3 [unfolded clean(3)] assms(1) u2(3)]
  show ?thesis
    using undo(1,2) undo(3) [OF apart_paths_sym [OF assms(2)] apart_paths_sym [OF assms(3)]] u2 clean(4)
    by simp
next
  case (prepare e')
  then show ?thesis
    by (auto simp: prepare_old_path_def split: prod.splits sum.splits bool.splits)
next
  case (save w1 e')
  then show ?thesis
    by (auto simp: rename_if_exists_def split: prod.splits sum.splits bool.splits option.splits)
next
  case (install w1 w2 had e' w3)
  then show ?thesis
    by (auto simp: restore_after_install_failure_def split: if_splits prod.splits option.splits)
next
  case (unverified w1 w2 had w3)
  then show ?thesis by simp
next
  case (verified w1 w2 had w3 v' w4)
  then show ?thesis using assms(5) [of w3] by simp
qed

text \<open>
  The policy is applied before the mutation: with a running app the deferring policy
  never calls the mutation, with an app that cannot be closed the closing policy never
  does, and an unknown policy never does, whatever the mutation would do.\<close>

theorem mutate_guarded:
  assumes "\<not> dry" and "p = PolicyDefer \<Longrightarrow> fst (running w)"
    and "p = PolicyClose \<Longrightarrow> fst (ensure_closed w) \<noteq> None"
  shows "\<exists>g. fst (mutate_bundle running ensure_closed tid p dry fn w) = Some (Inl g) \<and>
     snd (mutate_bundle running ensure_closed tid p dry fn w) =
       (case p of PolicyDefer \<Rightarrow> snd (running w) | PolicyClose \<Rightarrow> snd (ensure_closed w) | _ \<Rightarrow> w)"
  using assms
  by (cases p) (auto simp: mutate_bundle_def split: prod.splits option.splits)

lemma mutate_guarded_witness:
  "\<exists>g. fst (mutate_bundle (\<lambda>w :: nat. (True, w)) (\<lambda>w. (None, w)) ''app'' PolicyDefer False
         (\<lambda>w. (None :: unit option, Suc w)) 0) = Some (Inl g)"
  using mutate_guarded [of False PolicyDefer "\<lambda>w :: nat. (True, w)" 0 "\<lambda>w. (None, w)" "''app''"
      "\<lambda>w. (None :: unit option, Suc w)"] by auto

section \<open>A commit without failures\<close>

definition ready :: "fpath \<Rightarrow> fpath \<Rightarrow> os \<Rightarrow> bool" where
  "ready app staged w \<longleftrightarrow> os_faults w = [] \<and> app \<noteq> [] \<and> apart_paths app staged \<and>
     apart_paths (old_path app) staged \<and> os_fs w (old_path app) = None \<and> os_fs w app \<noteq> None \<and>
     os_fs w staged \<noteq> None \<and> parent_ok (os_fs w) app"

lemma butlast_old: "butlast (old_path app) = butlast app"
  by (simp add: old_path_def)

lemma move_tree_outside: "\<not> prefix a p \<Longrightarrow> \<not> prefix b p \<Longrightarrow> move_tree a b fs p = fs p"
  by (simp add: move_tree_def)

lemma butlast_not_below: "app \<noteq> [] \<Longrightarrow> \<not> prefix app (butlast app) \<and> \<not> prefix (old_path app) (butlast app)"
  by (metis append_butlast_last_id butlast_old length_append_singleton lessI linorder_not_less
      old_path_def prefix_length_le snoc_eq_iff_butlast)

text \<open>The state the verification sees.\<close>

definition installed_os :: "fpath \<Rightarrow> fpath \<Rightarrow> os \<Rightarrow> os" where
  "installed_os app staged w = os_put (move_tree staged app (move_tree app (old_path app) (os_fs w)))
     (os_put (move_tree app (old_path app) (os_fs w)) w)"

lemma ready_installs:
  assumes "ready app staged w"
  shows "prepare_old_path app w = (None, w)"
    and "rename_if_exists app (old_path app) w = (Inr True, os_put (move_tree app (old_path app) (os_fs w)) w)"
    and "os_rename staged app (os_put (move_tree app (old_path app) (os_fs w)) w) =
      (None, installed_os app staged w)"
proof -
  let ?old = "old_path app" and ?fs1 = "move_tree app (old_path app) (os_fs w)"
  from assms have r: "os_faults w = []" "app \<noteq> []" "apart_paths app staged" "apart_paths ?old staged"
    "os_fs w ?old = None" "os_fs w app \<noteq> None" "os_fs w staged \<noteq> None" "parent_ok (os_fs w) app"
    by (simp_all add: ready_def)
  note ap = apart_old [OF r(2)]
  show "prepare_old_path app w = (None, w)"
    using r by (simp add: prepare_old_path_def os_lstat_def)
  have po: "parent_ok (os_fs w) ?old" using r(8) by (simp add: parent_ok_def butlast_old)
  show "rename_if_exists app ?old w = (Inr True, os_put ?fs1 w)"
    using r po ap
    by (simp add: rename_if_exists_def os_lstat_def os_rename_def Let_def apart_paths_def)
  have fs1: "?fs1 app = None" "?fs1 staged = os_fs w staged" "parent_ok ?fs1 app"
    using subtree_move_from [OF ap, of "os_fs w"]
      subtree_move_other [OF apart_paths_sym [OF r(3)] apart_paths_sym [OF r(4)], of "os_fs w"]
      r(8) butlast_not_below [OF r(2)]
    by (simp_all add: subtree_root [of _ app] subtree_root [of _ staged] parent_ok_def move_tree_outside)
  show "os_rename staged app (os_put ?fs1 w) = (None, installed_os app staged w)"
    using r fs1 by (simp add: os_rename_def Let_def apart_paths_def installed_os_def)
qed

lemma installed_fs:
  assumes "ready app staged w"
  shows "os_fs (installed_os app staged w) app = os_fs w staged"
    and "os_fs (installed_os app staged w) staged = None"
    and "os_fs (installed_os app staged w) (old_path app) = os_fs w app"
    and "\<not> prefix app q \<Longrightarrow> \<not> prefix (old_path app) q \<Longrightarrow> \<not> prefix staged q \<Longrightarrow>
         os_fs (installed_os app staged w) q = os_fs w q"
    and "os_faults (installed_os app staged w) = []"
proof -
  let ?old = "old_path app" and ?fs1 = "move_tree app (old_path app) (os_fs w)"
  from assms have r: "os_faults w = []" "app \<noteq> []" "apart_paths app staged" "apart_paths ?old staged"
    by (simp_all add: ready_def)
  note ap = apart_old [OF r(2)]
  have st: "?fs1 staged = os_fs w staged"
    by (rule move_tree_outside) (use r in \<open>simp_all add: apart_paths_def\<close>)
  show "os_fs (installed_os app staged w) app = os_fs w staged"
  proof -
    have "move_tree staged app ?fs1 app = ?fs1 staged" by (simp add: move_tree_def)
    with st show ?thesis by (simp only: installed_os_def os_put_simps)
  qed
  show "os_fs (installed_os app staged w) staged = None"
    using r(3) by (simp add: installed_os_def move_tree_def apart_paths_def)
  show "os_fs (installed_os app staged w) ?old = os_fs w app"
    using r ap by (simp add: installed_os_def move_tree_def apart_paths_def)
  show "os_fs (installed_os app staged w) q = os_fs w q"
    if "\<not> prefix app q" "\<not> prefix ?old q" "\<not> prefix staged q"
    using that by (simp add: installed_os_def move_tree_outside)
  show "os_faults (installed_os app staged w) = []" using r by (simp add: installed_os_def)
qed

text \<open>The staging directory is there, all the way up.\<close>

definition staging_ready :: "fpath \<Rightarrow> os \<Rightarrow> bool" where
  "staging_ready staged w \<longleftrightarrow> (\<forall>q\<in>set (ancestors (butlast staged)). os_fs w q = Some Dir)"

lemma ready_rolls_back:
  assumes "ready app staged w" and "staging_ready staged w"
  shows "fst (rollback_commit app staged True e (installed_os app staged w)) = Some (VerifyFailed e [])"
proof -
  let ?old = "old_path app" and ?w = "installed_os app staged w"
  from assms have r: "app \<noteq> []" "apart_paths app staged" "apart_paths ?old staged"
    "os_fs w app \<noteq> None" "os_fs w staged \<noteq> None" "parent_ok (os_fs w) app"
    by (simp_all add: ready_def)
  note ap = apart_old [OF r(1)] and i = installed_fs [OF assms(1)]
  have sne: "staged \<noteq> []" using r(2) by (auto simp: apart_paths_def)
  have np: "\<not> prefix app q \<and> \<not> prefix ?old q \<and> \<not> prefix staged q" if "prefix q (butlast staged)" for q
    using that r(2,3) sne unfolding apart_paths_def
    by (metis prefix_order.trans prefixeq_butlast append_butlast_last_id prefix_order.antisym
        not_Cons_self2 self_append_conv)
  have dirs: "os_fs ?w q = Some Dir" if "q \<in> set (ancestors (butlast staged))" for q
    using that assms(2) np i(4) by (auto simp: staging_ready_def ancestors_iff)
  define fs1 where "fs1 = (\<lambda>q. if q \<in> set (ancestors (butlast staged)) then Some Dir else os_fs ?w q)"
  have same: "fs1 = os_fs ?w" using dirs by (auto simp: fs1_def)
  have m: "os_mkdir_all (butlast staged) ?w = (None, os_put (os_fs ?w) ?w)"
    using i(5) dirs same by (auto simp: os_mkdir_all_def Let_def list_ex_iff fs1_def)
  have ps: "parent_ok (os_fs ?w) staged"
    using dirs [of "butlast staged"] by (auto simp: parent_ok_def ancestors_iff)
  define w2 where "w2 = os_put (move_tree app staged (os_fs ?w)) (os_put (os_fs ?w) ?w)"
  have r2: "os_rename app staged (os_put (os_fs ?w) ?w) = (None, w2)"
    using i r(2,5) ps by (simp add: os_rename_def Let_def w2_def apart_paths_def)
  have fs2: "os_fs w2 app = None" "os_fs w2 ?old = os_fs w app" "os_faults w2 = []"
    using r(2,3) ap i by (auto simp: w2_def move_tree_def apart_paths_def)
  have pa: "parent_ok (os_fs w2) app"
  proof (cases "butlast app = []")
    case False
    then have dir: "os_fs w (butlast app) = Some Dir" using r(6) by (simp add: parent_ok_def)
    have "\<not> prefix staged (butlast app)"
      using r(2) by (metis apart_paths_def prefix_order.trans prefixeq_butlast)
    with butlast_not_below [OF r(1)] dir i(4) show ?thesis
      by (simp add: parent_ok_def w2_def move_tree_outside)
  qed (simp add: parent_ok_def)
  have r3: "fst (restore_live_after_rollback app w2) = []"
    using fs2 r(4) pa ap
    by (simp add: restore_live_after_rollback_def os_lstat_def os_rename_def Let_def apart_paths_def)
  show ?thesis
    using m r2 r3 by (cases "restore_live_after_rollback app w2") (simp add: rollback_commit_def)
qed

text \<open>
  Nothing in the protocol itself can fail: with a live and a staged bundle in place, no
  stale backup and no failing call, the commit succeeds when the verification accepts, and
  when it rejects, the rollback reports no error of its own.\<close>

theorem commit_total:
  assumes "ready app staged w" and "staging_ready staged w" and "\<And>u. v u = (verdict, u)"
  shows "fst (commit_swap app staged (Some v) False w) = map_option (\<lambda>e. VerifyFailed e []) verdict"
proof (cases verdict)
  case None
  then show ?thesis
    using ready_installs [OF assms(1)] assms(3) installed_fs(5) [OF assms(1)]
    by (simp add: commit_swap_def finish_commit_def os_remove_all_def Let_def)
next
  case (Some e)
  then show ?thesis
    using ready_installs [OF assms(1)] assms(3) ready_rolls_back [OF assms(1,2)]
    by (simp add: commit_swap_def)
qed

definition demo_app :: fpath where "demo_app = [''Demo.app'']"
definition demo_staged :: fpath where "demo_staged = [''stage'', ''Demo.app'']"

definition demo_os :: os where
  "demo_os = \<lparr>os_fs = map_of [([''Demo.app''], Dir), ([''Demo.app'', ''v''], File ''1''),
       ([''stage''], Dir), ([''stage'', ''Demo.app''], Dir), ([''stage'', ''Demo.app'', ''v''], File ''2'')],
     os_faults = [], os_trail = []\<rparr>"

lemma demo_ready: "ready demo_app demo_staged demo_os"
  by (simp add: ready_def demo_app_def demo_staged_def demo_os_def apart_paths_def old_path_def
      old_suffix_def parent_ok_def)

lemma demo_facts: "demo_app \<noteq> []" "apart_paths demo_app demo_staged"
  "apart_paths (old_path demo_app) demo_staged" "os_fs demo_os demo_app \<noteq> None" "os_trail demo_os = []"
  using demo_ready by (simp_all add: ready_def demo_os_def)

definition rejecting :: "os \<Rightarrow> string option \<times> os" where "rejecting w = (Some ''bad'', w)"
definition accepting :: "os \<Rightarrow> string option \<times> os" where "accepting w = (None, w)"

lemma demo_staging: "staging_ready demo_staged demo_os"
  by (simp add: staging_ready_def ancestors_def demo_staged_def demo_os_def)

lemma demo_verdict:
  "fst (commit_swap demo_app demo_staged (Some accepting) False demo_os) = None"
  "fst (commit_swap demo_app demo_staged (Some rejecting) False demo_os) = Some (VerifyFailed ''bad'' [])"
  using ready_installs [OF demo_ready] installed_fs(5) [OF demo_ready]
    ready_rolls_back [OF demo_ready demo_staging]
  by (simp_all add: commit_swap_def finish_commit_def os_remove_all_def Let_def accepting_def
      rejecting_def)

lemma commit_total_witness:
  "fst (commit_swap demo_app demo_staged (Some rejecting) False demo_os) = Some (VerifyFailed ''bad'' [])"
  using commit_total [OF demo_ready demo_staging, of rejecting "Some ''bad''"]
  by (simp add: rejecting_def)

lemma commit_success_witness:
  "subtree demo_app (os_fs (snd (commit_swap demo_app demo_staged (Some accepting) False demo_os))) =
   subtree demo_staged (os_fs demo_os)"
proof -
  have r: "commit_swap demo_app demo_staged (Some accepting) False demo_os =
      (None, snd (commit_swap demo_app demo_staged (Some accepting) False demo_os))"
    using demo_verdict(1) by (metis prod.collapse)
  show ?thesis
    by (rule commit_success [THEN conjunct1, OF demo_facts(1-3) _ r]) (auto simp: accepting_def)
qed

lemma rollback_exact_witness:
  "subtree demo_app (os_fs (snd (commit_swap demo_app demo_staged (Some rejecting) False demo_os))) =
   subtree demo_app (os_fs demo_os)"
proof -
  have r: "commit_swap demo_app demo_staged (Some rejecting) False demo_os =
      (Some (VerifyFailed ''bad'' []), snd (commit_swap demo_app demo_staged (Some rejecting) False demo_os))"
    using demo_verdict(2) by (metis prod.collapse)
  have "rejecting u = (Some ''bad'', u)" for u by (simp add: rejecting_def)
  from rollback_exact [OF demo_facts(1-4) this r] show ?thesis by blast
qed

lemma commit_never_loses_witness:
  "safe_in demo_app (subtree demo_app (os_fs demo_os))
     (os_fs (snd (commit_swap demo_app demo_staged (Some rejecting) False demo_os)))"
proof -
  have r: "commit_swap demo_app demo_staged (Some rejecting) False demo_os =
      (Some (VerifyFailed ''bad'' []), snd (commit_swap demo_app demo_staged (Some rejecting) False demo_os))"
    using demo_verdict(2) by (metis prod.collapse)
  have l: "leaves_alone (old_path demo_app) v" if "Some rejecting = Some v" for v
    using that by (auto simp: leaves_alone_def rejecting_def)
  from commit_never_loses [where verify = "Some rejecting", OF demo_facts(1,3,4,5) l r] show ?thesis by (simp add: committed_def)
qed

end
