(* ===== verification/App_Guard.thy ===== *)
theory App_Guard
  imports Bundle_Mutate
begin

text \<open>
  \<open>internal/appguard/appguard.go\<close>: which processes belong to a target, and closing them.
  The process list, the quit request, the signals, the clock and the sleep are arguments
  over the state of the outside world. The polling loops may run for ever when the clock
  stands still, so they are partial functions: not returning is \<open>None\<close>.
\<close>

record process =
  pr_pid :: int
  pr_command :: string

definition parse_process_line :: "string \<Rightarrow> process option" where
  "parse_process_line line =
     (let trimmed = trim_space line in
      if trimmed = [] then None
      else case cut CHR '' '' trimmed of None \<Rightarrow> None
       | Some (pid_text, command) \<Rightarrow>
           (case atoi (trim_space pid_text) of None \<Rightarrow> None
            | Some pid \<Rightarrow> Some \<lparr>pr_pid = pid, pr_command = trim_space command\<rparr>))"

definition matches_command_prefix :: "string \<Rightarrow> string \<Rightarrow> bool" where
  "matches_command_prefix command p \<longleftrightarrow>
     p \<noteq> [] \<and> (command = p \<or> prefix (p @ ''/'') command \<or> prefix (p @ '' '') command)"

definition process_matches_target :: "string \<Rightarrow> target \<Rightarrow> bool" where
  "process_matches_target command0 t \<longleftrightarrow>
     (let command = trim_space command0; app = trim_space (tg_app_path t) in
      command \<noteq> [] \<and>
      (app \<noteq> [] \<and> matches_command_prefix command (go_clean app) \<or>
       matches_command_prefix command (tg_exec_name t)))"

definition parse_processes :: "string \<Rightarrow> target \<Rightarrow> process list" where
  "parse_processes output t =
     filter (\<lambda>p. process_matches_target (pr_command p) t)
       (concat (map (\<lambda>l. case parse_process_line l of None \<Rightarrow> [] | Some p \<Rightarrow> [p])
          (split_on (CHR 0x0A) output)))"

datatype signal = SIGTERM | SIGKILL

record 'w guard_env =
  gv_list :: "'w \<Rightarrow> (string, string) result \<times> 'w"
  gv_quit :: "'w \<Rightarrow> string option \<times> 'w"
  gv_signal :: "process \<Rightarrow> signal \<Rightarrow> 'w \<Rightarrow> string option \<times> 'w"
  gv_now :: "'w \<Rightarrow> int"    \<comment> \<open>milliseconds\<close>
  gv_sleep :: "'w \<Rightarrow> 'w"

definition target_processes ::
  "'w guard_env \<Rightarrow> target \<Rightarrow> 'w \<Rightarrow> (string, process list) result \<times> 'w" where
  "target_processes env t w =
     (let (out, w1) = gv_list env w
      in (case out of Inl e \<Rightarrow> Inl e | Inr o' \<Rightarrow> Inr (parse_processes o' t), w1))"

definition guard_running :: "'w guard_env \<Rightarrow> target \<Rightarrow> 'w \<Rightarrow> bool \<times> 'w" where
  "guard_running env t w =
     (let (r, w1) = target_processes env t w
      in (case r of Inl _ \<Rightarrow> False | Inr ps \<Rightarrow> ps \<noteq> [], w1))"

datatype close_error =
    ListFailed string
  | QuitFailed string
  | SignalFailed string
  | StillRunning "process list"

text \<open>
  The loop both \<open>EnsureClosed\<close> and \<open>waitForExit\<close> run: list, stop when nothing is left, stop
  with what is left at the deadline, sleep otherwise.
\<close>

partial_function (option) poll_exit ::
  "'w guard_env \<Rightarrow> target \<Rightarrow> int \<Rightarrow> 'w \<Rightarrow> ((close_error, process list) result \<times> 'w) option" where
  "poll_exit env t deadline w =
     (case target_processes env t w of
        (Inl e, w1) \<Rightarrow> Some (Inl (ListFailed e), w1)
      | (Inr ps, w1) \<Rightarrow>
          (if ps = [] then Some (Inr [], w1)
           else if deadline \<le> gv_now env w1 then Some (Inr ps, w1)
           else poll_exit env t deadline (gv_sleep env w1)))"

fun signal_processes ::
  "'w guard_env \<Rightarrow> signal \<Rightarrow> process list \<Rightarrow> 'w \<Rightarrow> string option \<times> 'w" where
  "signal_processes env sig [] w = (None, w)"
| "signal_processes env sig (p # ps) w =
     (case gv_signal env p sig w of (Some e, w1) \<Rightarrow> (Some e, w1)
      | (None, w1) \<Rightarrow> signal_processes env sig ps w1)"

definition force_timeout :: "int \<Rightarrow> int" where
  "force_timeout timeout = (if timeout < 5000 then timeout else 5000)"

text \<open>Signal and wait: one half of \<open>terminateProcesses\<close>.\<close>

definition signal_and_wait ::
  "'w guard_env \<Rightarrow> target \<Rightarrow> signal \<Rightarrow> int \<Rightarrow> process list \<Rightarrow> 'w \<Rightarrow>
     ((close_error, process list) result \<times> 'w) option" where
  "signal_and_wait env t sig timeout ps w =
     (case signal_processes env sig ps w of
        (Some e, w1) \<Rightarrow> Some (Inl (SignalFailed e), w1)
      | (None, w1) \<Rightarrow> poll_exit env t (gv_now env w1 + timeout) w1)"

definition terminate_processes ::
  "'w guard_env \<Rightarrow> target \<Rightarrow> int \<Rightarrow> process list \<Rightarrow> 'w \<Rightarrow> (close_error option \<times> 'w) option" where
  "terminate_processes env t timeout ps w =
     (case signal_and_wait env t SIGTERM timeout ps w of
        None \<Rightarrow> None
      | Some (Inl e, w1) \<Rightarrow> Some (Some e, w1)
      | Some (Inr left, w1) \<Rightarrow>
          (if left = [] then Some (None, w1)
           else case signal_and_wait env t SIGKILL timeout left w1 of
             None \<Rightarrow> None
           | Some (Inl e, w2) \<Rightarrow> Some (Some e, w2)
           | Some (Inr left2, w2) \<Rightarrow>
               Some (if left2 = [] then None else Some (StillRunning left2), w2)))"

definition ensure_closed ::
  "'w guard_env \<Rightarrow> target \<Rightarrow> bool \<Rightarrow> int \<Rightarrow> 'w \<Rightarrow> (close_error option \<times> 'w) option" where
  "ensure_closed env t dry timeout0 w =
     (let timeout = (if timeout0 \<le> 0 then 20000 else timeout0) in
      case target_processes env t w of
        (Inl e, w1) \<Rightarrow> Some (Some (ListFailed e), w1)
      | (Inr ps, w1) \<Rightarrow>
          (if ps = [] then Some (None, w1)
           else if dry then Some (None, w1)
           else case gv_quit env w1 of
             (Some e, w2) \<Rightarrow> Some (Some (QuitFailed e), w2)
           | (None, w2) \<Rightarrow>
               (case poll_exit env t (gv_now env w2 + timeout) w2 of
                  None \<Rightarrow> None
                | Some (Inl e, w3) \<Rightarrow> Some (Some e, w3)
                | Some (Inr left, w3) \<Rightarrow>
                    (if left = [] then Some (None, w3)
                     else terminate_processes env t (force_timeout timeout) left w3))))"

section \<open>AppleScript quoting\<close>

definition escape_apple_script :: "string \<Rightarrow> string" where
  "escape_apple_script v =
     replace_all [CHR 0x22] [CHR 0x5C, CHR 0x22] (replace_all [CHR 0x5C] [CHR 0x5C, CHR 0x5C] v)"

definition quit_script :: "string \<Rightarrow> string" where
  "quit_script bid = ''tell application id '' @ [CHR 0x22] @ escape_apple_script bid @ [CHR 0x22] @ '' to quit''"

text \<open>
  \<open>defaultRequestQuit\<close>: one script per id until one succeeds; \<open>osascript\<close> runs a script.
\<close>

fun quit_first ::
  "(string \<Rightarrow> 'w \<Rightarrow> string option \<times> 'w) \<Rightarrow> string list \<Rightarrow> string \<Rightarrow> 'w \<Rightarrow> string option \<times> 'w" where
  "quit_first osascript [] last_err w = (Some last_err, w)"
| "quit_first osascript (bid # rest) last_err w =
     (if trim_space bid = [] then quit_first osascript rest last_err w
      else case osascript (quit_script (trim_space bid)) w of
        (None, w1) \<Rightarrow> (None, w1)
      | (Some e, w1) \<Rightarrow> quit_first osascript rest e w1)"

definition default_request_quit ::
  "(string \<Rightarrow> 'w \<Rightarrow> string option \<times> 'w) \<Rightarrow> target \<Rightarrow> 'w \<Rightarrow> string option \<times> 'w" where
  "default_request_quit osascript t w =
     quit_first osascript (tg_bundle_id t # tg_aliases t)
       (''target '' @ tg_id t @ '' has no bundle id'') w"

text \<open>How AppleScript reads a string literal, from just after its opening quote.\<close>

fun read_literal :: "string \<Rightarrow> (string \<times> string) option" where
  "read_literal [] = None"
| "read_literal (c # cs) =
     (if c = CHR 0x22 then Some ([], cs)
      else if c = CHR 0x5C then
        (case cs of [] \<Rightarrow> None
         | d # ds \<Rightarrow> (case read_literal ds of None \<Rightarrow> None | Some (v, r) \<Rightarrow> Some (d # v, r)))
      else (case read_literal cs of None \<Rightarrow> None | Some (v, r) \<Rightarrow> Some (c # v, r)))"

section \<open>Closing is sound and returns\<close>


lemma poll_exit_sound:
  assumes "poll_exit env t deadline w = Some y"
  shows "\<forall>w'. y = (Inr [], w') \<longrightarrow> (\<exists>u. target_processes env t u = (Inr [], w'))"
  by (rule poll_exit.raw_induct [where P = "\<lambda>env t d w y. \<forall>w'. y = (Inr [], w') \<longrightarrow>
        (\<exists>u. target_processes env t u = (Inr [], w'))", OF _ assms])
     (auto split: prod.splits sum.splits if_splits)

text \<open>The clock moves with every poll: then the loop returns.\<close>

definition clock_advances :: "'w guard_env \<Rightarrow> target \<Rightarrow> bool" where
  "clock_advances env t \<longleftrightarrow>
     (\<forall>w r w1. target_processes env t w = (r, w1) \<longrightarrow>
        gv_now env w1 \<ge> gv_now env w \<and> gv_now env (gv_sleep env w1) > gv_now env w1)"

lemma poll_exit_returns:
  assumes "clock_advances env t"
  shows "\<exists>y. poll_exit env t deadline w = Some y"
proof (induction "nat (deadline - gv_now env w)" arbitrary: w rule: less_induct)
  case less
  obtain r w1 where r: "target_processes env t w = (r, w1)" by fastforce
  show ?case
  proof (cases r)
    case (Inl e)
    with r show ?thesis by (simp add: poll_exit.simps)
  next
    case (Inr ps)
    show ?thesis
    proof (cases "ps = [] \<or> deadline \<le> gv_now env w1")
      case True
      with r Inr show ?thesis by (subst poll_exit.simps) auto
    next
      case False
      have "gv_now env w1 \<ge> gv_now env w" "gv_now env (gv_sleep env w1) > gv_now env w1"
        using assms r by (auto simp: clock_advances_def)
      with False have "nat (deadline - gv_now env (gv_sleep env w1)) < nat (deadline - gv_now env w)"
        by auto
      from less [OF this] r Inr False show ?thesis by (subst poll_exit.simps) auto
    qed
  qed
qed

lemma signal_and_wait_sound:
  assumes "signal_and_wait env t sig timeout ps w = Some (Inr [], w')"
  shows "\<exists>u. target_processes env t u = (Inr [], w')"
  using assms poll_exit_sound
  by (fastforce simp: signal_and_wait_def split: prod.splits option.splits)

lemma terminate_sound:
  assumes "terminate_processes env t timeout ps w = Some (None, w')"
  shows "\<exists>u. target_processes env t u = (Inr [], w')"
  using assms signal_and_wait_sound
  by (fastforce simp: terminate_processes_def split: option.splits prod.splits sum.splits if_splits)

text \<open>C32. Closing an app does not report success on hope: when \<open>EnsureClosed\<close> returns nil
  outside a dry run, the last thing it did was list the processes, and none of the
  target's was left.\<close>

theorem ensure_closed_sound:
  assumes "ensure_closed env t False timeout w = Some (None, w')"
  shows "\<exists>u. target_processes env t u = (Inr [], w')"
proof -
  obtain r w1 where r: "target_processes env t w = (r, w1)" by fastforce
  show ?thesis
  proof (cases r)
    case (Inl e)
    with r assms show ?thesis by (simp add: ensure_closed_def)
  next
    case (Inr ps)
    show ?thesis
    proof (cases "ps = []")
      case True
      with r Inr assms show ?thesis by (auto simp: ensure_closed_def)
    next
      case False
      obtain q w2 where q: "gv_quit env w1 = (q, w2)" by fastforce
      let ?tm = "if timeout \<le> 0 then 20000 else timeout"
      from assms r Inr False q have "q = None"
        by (cases q) (auto simp: ensure_closed_def Let_def)
      with assms r Inr False q obtain left w3 where
          p: "poll_exit env t (gv_now env w2 + ?tm) w2 = Some (Inr left, w3)"
        and e: "if left = [] then w' = w3
                else terminate_processes env t (force_timeout ?tm) left w3 = Some (None, w')"
        by (auto simp: ensure_closed_def Let_def split: option.splits sum.splits if_splits)
      show ?thesis
        using p e poll_exit_sound terminate_sound by (cases "left = []") fastforce+
    qed
  qed
qed

text \<open>C39. It returns whenever the clock advances with every poll.\<close>

theorem ensure_closed_returns:
  assumes "clock_advances env t"
  shows "\<exists>y. ensure_closed env t dry timeout w = Some y"
proof -
  have poll: "\<exists>a b. poll_exit env t d u = Some (a, b)" for d u
    using poll_exit_returns [OF assms, of d u] by auto
  have wait: "\<exists>a b. signal_and_wait env t sig tm ps u = Some (a, b)" for sig tm ps u
    using poll by (auto simp: signal_and_wait_def split: prod.split option.split)
  have ends: "\<exists>a b. terminate_processes env t tm ps u = Some (a, b)" for tm ps u
  proof -
    obtain a b where ab: "signal_and_wait env t SIGTERM tm ps u = Some (a, b)" using wait by blast
    show ?thesis
    proof (cases a)
      case (Inr left)
      obtain c d where "signal_and_wait env t SIGKILL tm left b = Some (c, d)" using wait by blast
      with ab Inr show ?thesis by (cases c) (auto simp: terminate_processes_def)
    qed (use ab in \<open>simp add: terminate_processes_def\<close>)
  qed
  obtain r w1 where r: "target_processes env t w = (r, w1)" by fastforce
  obtain q w2 where q: "gv_quit env w1 = (q, w2)" by fastforce
  let ?tm = "if timeout \<le> 0 then 20000 else timeout"
  obtain p w3 where p: "poll_exit env t (gv_now env w2 + ?tm) w2 = Some (p, w3)" using poll by blast
  show ?thesis
  proof (cases p)
    case (Inl e)
    with r q p show ?thesis
      by (cases r; cases q) (auto simp: ensure_closed_def Let_def)
  next
    case (Inr left)
    with r q p ends [of "force_timeout ?tm" left w3] show ?thesis
      by (cases r; cases q) (auto simp: ensure_closed_def Let_def)
  qed
qed

text \<open>A world for the concrete instances: how many polls the app survives, and the clock.\<close>

definition demo_guard :: "(nat \<times> int) guard_env" where
  "demo_guard = \<lparr>gv_list = (\<lambda>w. (Inr (if fst w = 0 then [] else '' 42 Demo --x''), w)),
     gv_quit = (\<lambda>w. (None, w)), gv_signal = (\<lambda>_ _ w. (None, w)), gv_now = snd,
     gv_sleep = (\<lambda>w. (fst w - 1, snd w + 250))\<rparr>"

definition demo_target :: target where
  "demo_target = build_target \<lparr>app_id = ''demo'',
     app_command = \<lparr>cmd_use = [], cmd_aliases = [], cmd_short = [], cmd_long = [], cmd_hidden = False\<rparr>,
     app_operations = [], app_path = [], app_bundle_id = [], app_aliases = [], app_helpers = [],
     app_exec_name = ''Demo'', app_keychain = [], app_nested = [], app_preserved = [],
     app_profile = [], app_entitlements = \<lparr>ent_strip = [], ent_required = []\<rparr>,
     app_devsign = \<lparr>ds_enabled = False, ds_profile_path = [], ds_p12_path = [],
       ds_p12_password_file = [], ds_injector_path = [], ds_proxy_injection = False,
       ds_auto_generate = False\<rparr>,
     app_updater = \<lparr>up_kind = [], up_url = [], up_url_template = [], up_user_agent = [],
       up_platform = [], up_product = [], up_sparkle_key = [], up_minisign_key = [],
       up_device_id_param = [], up_default_channel = [], up_channels = []\<rparr>,
     app_launch = \<lparr>lp_proxy_host = [], lp_proxy_port = 0, lp_ca_certificate = [], lp_no_proxy = [],
       lp_working_dir = [], lp_ignore_signal = [], lp_environment = [], lp_arguments = [],
       lp_preflights = []\<rparr>,
     app_ext = \<lparr>ext_computer_use = None, ext_tee = None, ext_codex = None\<rparr>\<rparr>"

lemma demo_lists:
  "target_processes demo_guard demo_target w =
     (Inr (if fst w = 0 then [] else [\<lparr>pr_pid = 42, pr_command = ''Demo --x''\<rparr>]), w)"
proof -
  have "parse_processes [] demo_target = []" by code_simp
  moreover have "parse_processes '' 42 Demo --x'' demo_target = [\<lparr>pr_pid = 42, pr_command = ''Demo --x''\<rparr>]"
    by code_simp
  ultimately show ?thesis by (simp add: target_processes_def demo_guard_def)
qed

lemma demo_clock: "clock_advances demo_guard demo_target"
  by (simp add: clock_advances_def demo_lists) (simp add: demo_guard_def)

lemma ensure_closed_returns_witness:
  "\<exists>y. ensure_closed demo_guard demo_target False 0 (3, 0) = Some y"
  by (rule ensure_closed_returns [OF demo_clock])

lemma ensure_closed_sound_witness:
  "\<exists>u. target_processes demo_guard demo_target u = (Inr [], (0, 250))"
proof (rule ensure_closed_sound)
  have n: "gv_now demo_guard w = snd w" "gv_quit demo_guard w = (None, w)"
    "gv_sleep demo_guard w = (fst w - 1, snd w + 250)" for w
    by (simp_all add: demo_guard_def)
  show "ensure_closed demo_guard demo_target False 0 (1, 0) = Some (None, (0, 250))"
    by (simp add: ensure_closed_def demo_lists n poll_exit.simps [of _ _ _ "(Suc 0, 0)"]
        poll_exit.simps [of _ _ _ "(0, 250)"])
qed

section \<open>Failing open, and quoting\<close>

text \<open>The deferring policy fails open: when the process list cannot be read, \<open>Running\<close>
  answers no, and the mutation is called although nobody knows whether the app runs;
  \<open>EnsureClosed\<close> on the same failure refuses.\<close>

theorem policy_defer_fails_open:
  assumes "gv_list env w = (Inl e, w1)"
  shows "mutate_bundle (guard_running env t) closer tid PolicyDefer False fn w =
      (let (r, w2) = fn w1 in (map_option Inr r, w2)) \<and>
    ensure_closed env t False timeout w = Some (Some (ListFailed e), w1)"
  using assms
  by (simp add: mutate_bundle_def guard_running_def target_processes_def ensure_closed_def)

lemma policy_defer_fails_open_witness:
  "mutate_bundle (guard_running (demo_guard\<lparr>gv_list := \<lambda>w. (Inl ''ps'', w)\<rparr>) demo_target)
     (\<lambda>w. (None, w)) ''demo'' PolicyDefer False (\<lambda>w. (None :: unit option, (7, 7))) (1, 0) = (None, (7, 7))"
  using policy_defer_fails_open [of "demo_guard\<lparr>gv_list := \<lambda>w. (Inl ''ps'', w)\<rparr>" "(1, 0)" "''ps''" "(1, 0)"
      demo_target "\<lambda>w. (None, w)" "''demo''" "\<lambda>w. (None :: unit option, (7, 7))"]
  by simp

lemma replace_all_char:
  "replace_all [c] new s = concat (map (\<lambda>x. if x = c then new else [x]) s)"
  by (induction "[c]" new s rule: replace_all.induct) auto

lemma escape_concat:
  "escape_apple_script v = concat (map (\<lambda>x. if x = CHR 0x5C then [CHR 0x5C, CHR 0x5C]
     else if x = CHR 0x22 then [CHR 0x5C, CHR 0x22] else [x]) v)"
  by (induction v) (auto simp: escape_apple_script_def replace_all_char)

text \<open>
  No bundle id can break out of the quit script: read back by AppleScript's literal
  rule, the quoted text is exactly the id and the rest of the script follows it.\<close>

theorem quit_script_literal:
  "read_literal (drop (length ''tell application id '' + 1) (quit_script bid)) =
     Some (bid, '' to quit'')"
proof -
  have "read_literal (escape_apple_script bid @ [CHR 0x22] @ rest) = Some (bid, rest)" for rest
    unfolding escape_concat by (induction bid) auto
  then show ?thesis by (simp add: quit_script_def)
qed

end
