(* ===== verification/State_Store.thy ===== *)
theory State_Store
  imports OS_Model Go_Path
begin

text \<open>
  \<open>internal/state/state.go\<close>: the record of what was patched, one JSON file, replaced through
  a temporary file and a rename. The JSON codec is a pair of functions; the name
  \<open>os.CreateTemp\<close> picks and the signing team of the configuration are arguments.
\<close>

record patched_state =
  pt_version :: string
  pt_at :: int
  pt_identity :: string
  pt_requirement :: string

type_synonym multi_state = "patched_state gomap"

datatype state_error =
    ReadState os_error
  | ParseState string
  | MutateState string
  | LocalTeam string
  | StateMkdir os_error
  | EncodeState string
  | StateTemp os_error
  | StateWrite os_error
  | StateClose os_error
  | StateChmod os_error
  | StateRename os_error
  | StateRemove os_error

section \<open>File calls\<close>

text \<open>\<open>os.ReadFile\<close>.\<close>

definition os_read :: "fpath \<Rightarrow> os \<Rightarrow> (os_error, string) result \<times> os" where
  "os_read p w = (let (f, w1) = next_fault w in
     case f of Fault _ \<Rightarrow> (Inl EIO, w1)
     | NoFault \<Rightarrow> (case os_fs w1 p of None \<Rightarrow> (Inl ENOENT, w1)
         | Some (File c) \<Rightarrow> (Inr c, w1) | Some _ \<Rightarrow> (Inl EINVAL, w1)))"

text \<open>
  \<open>os.CreateTemp\<close> with the name it picks, and a write to that file, which can stop half way:
  \<open>part\<close> is what is in the file when it does.
\<close>

definition os_create :: "fpath \<Rightarrow> os \<Rightarrow> os_error option \<times> os" where
  "os_create p w = (let (f, w1) = next_fault w in
     case f of Fault _ \<Rightarrow> (Some EIO, w1)
     | NoFault \<Rightarrow> (if \<not> parent_ok (os_fs w1) p then (Some ENOENT, w1)
                  else if os_fs w1 p \<noteq> None then (Some EEXIST, w1)
                  else (None, os_put ((os_fs w1)(p \<mapsto> File [])) w1)))"

definition os_write :: "fpath \<Rightarrow> string \<Rightarrow> string \<Rightarrow> os \<Rightarrow> os_error option \<times> os" where
  "os_write p data part w = (let (f, w1) = next_fault w in
     case f of Fault _ \<Rightarrow> (Some EIO, os_put ((os_fs w1)(p \<mapsto> File part)) w1)
     | NoFault \<Rightarrow> (None, os_put ((os_fs w1)(p \<mapsto> File data)) w1))"

text \<open>\<open>Close\<close> and \<open>os.Chmod\<close>: they can fail and do not change the contents.\<close>

definition os_touch :: "os \<Rightarrow> os_error option \<times> os" where
  "os_touch w = (let (f, w1) = next_fault w in
     case f of Fault _ \<Rightarrow> (Some EIO, w1) | NoFault \<Rightarrow> (None, w1))"

section \<open>Load, save, update\<close>

record codec =
  enc :: "multi_state \<Rightarrow> (string, string) result"
  dec :: "string \<Rightarrow> (string, multi_state) result"

definition load_unlocked ::
  "codec \<Rightarrow> fpath \<Rightarrow> os \<Rightarrow> (state_error, multi_state) result \<times> os" where
  "load_unlocked c p w = (let (r, w1) = os_read p w in
     (case r of
        Inl e \<Rightarrow> if e = ENOENT then Inr [] else Inl (ReadState e)
      | Inr data \<Rightarrow> (case dec c data of Inl e \<Rightarrow> Inl (ParseState e) | Inr s \<Rightarrow> Inr s), w1))"

definition validate_unlocked :: "string \<Rightarrow> multi_state \<Rightarrow> state_error option" where
  "validate_unlocked team s =
     (let local = trim_space team in
      if local = [] then None
      else map_option (\<lambda>(i, _). LocalTeam i)
             (find (\<lambda>(_, t). contains local (pt_requirement t)) s))"

text \<open>An error after the temporary file exists removes it and ignores that result.\<close>

definition discard_temp :: "fpath \<Rightarrow> state_error \<Rightarrow> os \<Rightarrow> state_error option \<times> os" where
  "discard_temp tmp e w = (let (_, w1) = os_remove tmp w in (Some e, w1))"

definition save_unlocked ::
  "codec \<Rightarrow> string \<Rightarrow> fpath \<Rightarrow> string \<Rightarrow> fpath \<Rightarrow> multi_state \<Rightarrow> os \<Rightarrow> state_error option \<times> os" where
  "save_unlocked c team tmp part p s w =
     (case validate_unlocked team s of Some e \<Rightarrow> (Some e, w)
      | None \<Rightarrow> (let (m, w1) = os_mkdir_all (butlast p) w in
     case m of Some e \<Rightarrow> (Some (StateMkdir e), w1)
      | None \<Rightarrow>
     (case enc c s of Inl e \<Rightarrow> (Some (EncodeState e), w1)
      | Inr data \<Rightarrow> (let (t, w2) = os_create tmp w1 in
     case t of Some e \<Rightarrow> (Some (StateTemp e), w2)
      | None \<Rightarrow> (let (wr, w3) = os_write tmp data part w2 in
     case wr of Some e \<Rightarrow>
          (let (_, w3') = os_touch w3 in discard_temp tmp (StateWrite e) w3')
      | None \<Rightarrow> (let (cl, w4) = os_touch w3 in
     case cl of Some e \<Rightarrow> discard_temp tmp (StateClose e) w4
      | None \<Rightarrow> (let (ch, w5) = os_touch w4 in
     case ch of Some e \<Rightarrow> discard_temp tmp (StateChmod e) w5
      | None \<Rightarrow> (let (rn, w6) = os_rename tmp p w5 in
     case rn of Some e \<Rightarrow> discard_temp tmp (StateRename e) w6
      | None \<Rightarrow> (None, w6)))))))))"

definition remove_unlocked :: "fpath \<Rightarrow> os \<Rightarrow> state_error option \<times> os" where
  "remove_unlocked p w = (let (r, w1) = os_remove p w in
     (case r of None \<Rightarrow> None | Some e \<Rightarrow> if e = ENOENT then None else Some (StateRemove e), w1))"

definition update_state ::
  "codec \<Rightarrow> string \<Rightarrow> fpath \<Rightarrow> string \<Rightarrow> fpath \<Rightarrow> (multi_state \<Rightarrow> (string, multi_state) result) \<Rightarrow>
     os \<Rightarrow> state_error option \<times> os" where
  "update_state c team tmp part p mutate w =
     (let (l, w1) = load_unlocked c p w in
      case l of Inl e \<Rightarrow> (Some e, w1)
      | Inr s \<Rightarrow>
        (case mutate s of Inl e \<Rightarrow> (Some (MutateState e), w1)
         | Inr s' \<Rightarrow> (if s' = [] then remove_unlocked p w1
                     else save_unlocked c team tmp part p s' w1)))"

section \<open>What each call does to the file\<close>

text \<open>A call that leaves the state file as it is, in every state it goes through.\<close>

definition keeps_file :: "fpath \<Rightarrow> os \<Rightarrow> os \<Rightarrow> bool" where
  "keeps_file p w w' \<longleftrightarrow> os_fs w' p = os_fs w p \<and>
     (\<exists>new. os_trail w' = new @ os_trail w \<and> (\<forall>fs\<in>set new. fs p = os_fs w p))"

lemma keeps_file_refl [simp]: "keeps_file p w w"
  by (simp add: keeps_file_def)

lemma keeps_file_trans:
  assumes "keeps_file p u v" and "keeps_file p v w"
  shows "keeps_file p u w"
proof -
  from assms obtain a b where "os_trail v = a @ os_trail u" "\<forall>fs\<in>set a. fs p = os_fs u p"
    "os_trail w = b @ os_trail v" "\<forall>fs\<in>set b. fs p = os_fs v p" "os_fs v p = os_fs u p"
    "os_fs w p = os_fs v p"
    by (auto simp: keeps_file_def)
  then show ?thesis unfolding keeps_file_def by (intro conjI exI [of _ "b @ a"]) auto
qed

lemma os_read_keeps: "os_read q w = (r, w') \<Longrightarrow> keeps_file p w w'"
  by (auto simp: os_read_def keeps_file_def next_fault_def
      split: prod.splits fault.splits list.splits option.splits fnode.splits)

lemma os_touch_keeps: "os_touch w = (r, w') \<Longrightarrow> keeps_file p w w'"
  by (auto simp: os_touch_def keeps_file_def next_fault_def split: prod.splits fault.splits list.splits)

lemma os_create_keeps: "os_create q w = (r, w') \<Longrightarrow> p \<noteq> q \<Longrightarrow> keeps_file p w w'"
  by (auto simp: os_create_def keeps_file_def next_fault_def
      split: prod.splits fault.splits list.splits if_splits)

lemma os_write_keeps: "os_write q d part w = (r, w') \<Longrightarrow> p \<noteq> q \<Longrightarrow> keeps_file p w w'"
  by (auto simp: os_write_def keeps_file_def next_fault_def
      split: prod.splits fault.splits list.splits)

lemma os_write_content: "os_write q d part w = (None, w') \<Longrightarrow> os_fs w' q = Some (File d)"
  by (auto simp: os_write_def split: prod.splits fault.splits)

lemma os_remove_keeps: "os_remove q w = (r, w') \<Longrightarrow> p \<noteq> q \<Longrightarrow> keeps_file p w w'"
  by (cases rule: os_remove_effect) (auto simp: keeps_file_def)

lemma os_mkdir_keeps:
  assumes "os_mkdir_all (butlast p) w = (r, w')" and "p \<noteq> []"
  shows "keeps_file p w w'"
proof -
  have "\<not> prefix p (butlast p)"
    using assms(2) by (metis length_butlast prefix_length_le diff_less length_greater_0_conv
        linorder_not_less zero_less_one)
  then have "p \<notin> set (ancestors (butlast p))" by (simp add: ancestors_iff)
  with assms(1) show ?thesis by (cases rule: os_mkdir_all_effect) (auto simp: keeps_file_def)
qed

lemma discard_temp_keeps: "discard_temp tmp e w = (r, w') \<Longrightarrow> p \<noteq> tmp \<Longrightarrow> keeps_file p w w' \<and> r = Some e"
  by (auto simp: discard_temp_def split: prod.splits dest: os_remove_keeps)

text \<open>A save either fails and leaves the file alone, or replaces it in one step.\<close>

lemma save_unlocked_outcome:
  assumes "save_unlocked c team tmp part p s w = (r, w')" and "p \<noteq> []" and "p \<noteq> tmp"
  obtains (failed) "r \<noteq> None" "keeps_file p w w'"
  | (saved) data u where "r = None" "validate_unlocked team s = None" "enc c s = Inr data"
      "keeps_file p w u" "os_fs w' p = Some (File data)" "os_trail w' = os_fs w' # os_trail u"
proof (cases "validate_unlocked team s")
  case (Some e)
  with assms(1) have "Some e = r" "w = w'" by (simp_all add: save_unlocked_def)
  then show thesis by (intro failed) auto
next
  case v: None
  obtain m w1 where m: "os_mkdir_all (butlast p) w = (m, w1)" by fastforce
  have k1: "keeps_file p w w1" using os_mkdir_keeps [OF m assms(2)] .
  show thesis
  proof (cases m)
    case (Some e)
    with assms(1) v m k1 show thesis by (intro failed) (auto simp: save_unlocked_def)
  next
    case m0: None
    show thesis
    proof (cases "enc c s")
      case (Inl e)
      with assms(1) v m m0 k1 show thesis by (intro failed) (auto simp: save_unlocked_def)
    next
      case (Inr data)
      obtain t w2 where t: "os_create tmp w1 = (t, w2)" by fastforce
      have k2: "keeps_file p w w2" using keeps_file_trans [OF k1 os_create_keeps [OF t assms(3)]] .
      show thesis
      proof (cases t)
        case (Some e)
        with assms(1) v m m0 Inr t k2 show thesis by (intro failed) (auto simp: save_unlocked_def)
      next
        case t0: None
        note sofar = v m m0 Inr t t0
        obtain wr w3 where wr: "os_write tmp data part w2 = (wr, w3)" by fastforce
        have k3: "keeps_file p w w3" using keeps_file_trans [OF k2 os_write_keeps [OF wr assms(3)]] .
        obtain cl w4 where cl: "os_touch w3 = (cl, w4)" by fastforce
        have k4: "keeps_file p w w4" using keeps_file_trans [OF k3 os_touch_keeps [OF cl]] .
        obtain ch w5 where ch: "os_touch w4 = (ch, w5)" by fastforce
        have k5: "keeps_file p w w5" using keeps_file_trans [OF k4 os_touch_keeps [OF ch]] .
        obtain rn w6 where rn: "os_rename tmp p w5 = (rn, w6)" by fastforce
        note steps = sofar wr cl ch rn
        have dropped: thesis if "discard_temp tmp e u = (r, w')" "keeps_file p w u" for e u
          using discard_temp_keeps [OF that(1) assms(3)] keeps_file_trans [OF that(2)]
          by (intro failed) auto
        show thesis
        proof (cases "wr = None \<and> cl = None \<and> ch = None")
          case False
          then consider e where "wr = Some e" | e where "wr = None" "cl = Some e"
            | e where "wr = None" "cl = None" "ch = Some e"
            by (cases wr; cases cl; cases ch) auto
          then show thesis
          proof cases
            case 1
            with assms(1) steps have "discard_temp tmp (StateWrite e) w4 = (r, w')"
              by (simp add: save_unlocked_def)
            then show thesis using k4 by (rule dropped)
          next
            case 2
            with assms(1) steps have "discard_temp tmp (StateClose e) w4 = (r, w')"
              by (simp add: save_unlocked_def)
            then show thesis using k4 by (rule dropped)
          next
            case 3
            with assms(1) steps have "discard_temp tmp (StateChmod e) w5 = (r, w')"
              by (simp add: save_unlocked_def)
            then show thesis using k5 by (rule dropped)
          qed
        next
          case ok: True
          have content: "os_fs w5 tmp = Some (File data)"
            using os_write_content [of tmp data part w2 w3] wr ok cl ch
              os_touch_keeps [of w3 cl w4 tmp] os_touch_keeps [of w4 ch w5 tmp]
            by (simp add: keeps_file_def)
          from rn show thesis
          proof (cases rule: os_rename_effect)
            case (failed e)
            with assms(1) steps ok have "discard_temp tmp (StateRename e) w6 = (r, w')"
              by (simp add: save_unlocked_def)
            moreover have "keeps_file p w5 w6" using failed by (simp add: keeps_file_def)
            ultimately show thesis using dropped keeps_file_trans [OF k5] by blast
          next
            case moved
            with assms(1) steps ok have "r = None" "w' = w6" by (auto simp: save_unlocked_def)
            with moved content sofar k5 show thesis
              by (intro saved [of data w5]) (auto simp: move_tree_def)
          qed
        qed
      qed
    qed
  qed
qed

lemma update_state_outcome:
  assumes "update_state c team tmp part p mutate w = (r, w')" and "p \<noteq> []" and "p \<noteq> tmp"
  obtains (kept) "keeps_file p w w'" "r = None \<Longrightarrow> os_fs w' p = None \<and>
      (\<exists>s w1. load_unlocked c p w = (Inr s, w1) \<and> mutate s = Inr [])"
  | (saved) s s' data u w1 where "r = None" "load_unlocked c p w = (Inr s, w1)" "mutate s = Inr s'" "s' \<noteq> []"
      "validate_unlocked team s' = None" "enc c s' = Inr data" "keeps_file p w u"
      "os_fs w' p = Some (File data)" "os_trail w' = os_fs w' # os_trail u"
  | (removed) s u w1 where "r = None" "load_unlocked c p w = (Inr s, w1)" "mutate s = Inr []"
      "keeps_file p w u" "os_fs w' p = None" "os_trail w' = os_fs w' # os_trail u"
proof -
  obtain l w1 where l: "load_unlocked c p w = (l, w1)" by fastforce
  have k1: "keeps_file p w w1"
    using l by (auto simp: load_unlocked_def split: prod.splits dest: os_read_keeps)
  show thesis
  proof (cases "\<exists>s s'. l = Inr s \<and> mutate s = Inr s'")
    case False
    with assms(1) l k1 show thesis
      by (intro kept) (auto simp: update_state_def split: sum.splits)
  next
    case True
    then obtain s s' where s: "l = Inr s" "mutate s = Inr s'" by blast
    show thesis
    proof (cases "s' = []")
      case nil: True
      obtain q w2 where q: "os_remove p w1 = (q, w2)" by fastforce
      have r: "w' = w2" "r = None \<longleftrightarrow> q = None \<or> q = Some ENOENT"
        using assms(1) l s nil q by (auto simp: update_state_def remove_unlocked_def split: option.splits if_splits)
      from q show thesis
      proof (cases rule: os_remove_effect)
        case (failed e)
        have kk: "keeps_file p w1 w2" using failed by (simp add: keeps_file_def)
        have "q = Some ENOENT \<Longrightarrow> os_fs w1 p = None"
          using q by (auto simp: os_remove_def next_fault_def split: prod.splits fault.splits list.splits if_splits)
        with r failed kk k1 l s nil show thesis
          by (intro kept) (auto intro: keeps_file_trans simp: keeps_file_def)
      next
        case removed
        with r k1 l s nil show thesis by (intro that(3) [of s w1 w1]) auto
      qed
    next
      case False
      with assms(1) l s have sv: "save_unlocked c team tmp part p s' w1 = (r, w')"
        by (simp add: update_state_def)
      from sv assms(2,3) show thesis
      proof (cases rule: save_unlocked_outcome)
        case failed
        with k1 show thesis by (intro kept) (auto intro: keeps_file_trans)
      next
        case (saved data u)
        with l s False keeps_file_trans [OF k1 saved(4)] show thesis by (intro that(2)) auto
      qed
    qed
  qed
qed

text \<open>C6. The state file is replaced atomically. Whatever calls fail, and wherever the program
  is killed: in every state an update goes through, the file is either exactly as it was
  before or exactly what the update left; and an update that reports an error left it as
  it was.\<close>

theorem state_update_atomic:
  assumes "p \<noteq> []" and "p \<noteq> tmp" and "os_trail w = []"
    and "update_state c team tmp part p mutate w = (r, w')"
  shows "(\<forall>fs\<in>set (os_trail w'). fs p = os_fs w p \<or> fs p = os_fs w' p) \<and>
         (r \<noteq> None \<longrightarrow> os_fs w' p = os_fs w p)"
  using assms(4,1,2)
proof (cases rule: update_state_outcome)
  case kept
  with assms(3) show ?thesis by (auto simp: keeps_file_def)
next
  case (saved s s' data u w1)
  with assms(3) show ?thesis by (auto simp: keeps_file_def)
next
  case (removed s u w1)
  with assms(3) show ?thesis by (auto simp: keeps_file_def)
qed

definition demo_state :: multi_state where
  "demo_state = [(''app'', \<lparr>pt_version = ''1'', pt_at = 7, pt_identity = ''me'',
     pt_requirement = ''anchor apple''\<rparr>)]"

definition demo_codec :: codec where
  "demo_codec = \<lparr>enc = (\<lambda>s. if s = demo_state then Inr ''1'' else Inl ''no''),
                dec = (\<lambda>_. Inr demo_state)\<rparr>"

definition state_dir_os :: os where
  "state_dir_os = \<lparr>os_fs = [[''d''] \<mapsto> Dir], os_faults = [], os_trail = []\<rparr>"

definition demo_update :: "state_error option \<times> os" where
  "demo_update = update_state demo_codec ''TEAM'' [''d'', ''t''] [] [''d'', ''s'']
     (\<lambda>_. Inr demo_state) state_dir_os"

lemma demo_update_ok: "fst demo_update = None"
proof -
  have v: "validate_unlocked ''TEAM'' demo_state = None" by code_simp
  have e: "enc demo_codec demo_state = Inr ''1''" "demo_state \<noteq> []"
    by (simp_all add: demo_codec_def demo_state_def)
  have l: "load_unlocked demo_codec [''d'', ''s''] state_dir_os = (Inr [], state_dir_os)"
    by (simp add: load_unlocked_def os_read_def state_dir_os_def)
  have u: "demo_update = save_unlocked demo_codec ''TEAM'' [''d'', ''t''] [] [''d'', ''s''] demo_state state_dir_os"
    by (simp add: demo_update_def update_state_def l e)
  show ?thesis
    unfolding u save_unlocked_def v
    by (simp add: e Let_def os_mkdir_all_def os_create_def os_write_def os_touch_def os_rename_def
        state_dir_os_def ancestors_def parent_ok_def)
qed

lemma state_update_atomic_witness:
  "list_all (\<lambda>fs. fs [''d'', ''s''] = None \<or> fs [''d'', ''s''] = os_fs (snd demo_update) [''d'', ''s''])
     (os_trail (snd demo_update))"
  using state_update_atomic [of "[''d'', ''s'']" "[''d'', ''t'']" state_dir_os demo_codec "''TEAM''" "[]"
      "\<lambda>_. Inr demo_state" "fst demo_update" "snd demo_update"]
  by (simp add: demo_update_def state_dir_os_def list_all_iff)

text \<open>
  What an update stored is what the next load returns, and it never stores a
  designated requirement that names the local signing team: the upgrade check that relies
  on the stored upstream requirement cannot be satisfied by a local signature.\<close>

theorem state_update_load:
  assumes "p \<noteq> []" and "p \<noteq> tmp" and "\<And>s d. enc c s = Inr d \<Longrightarrow> dec c d = Inr s"
    and "os_faults w = []" and "os_faults w2 = []" and "os_fs w2 p = os_fs w' p"
    and "update_state c team tmp part p mutate w = (None, w')"
  shows "\<exists>s0 s. fst (load_unlocked c p w) = Inr s0 \<and> mutate s0 = Inr s \<and>
     fst (load_unlocked c p w2) = Inr s \<and>
     (trim_space team \<noteq> [] \<longrightarrow>
        (\<forall>(i, t)\<in>set s. \<not> contains (trim_space team) (pt_requirement t)))"
  using assms(7,1,2)
proof (cases rule: update_state_outcome)
  case kept
  then obtain s0 w1 where "load_unlocked c p w = (Inr s0, w1)" "mutate s0 = Inr []" "os_fs w' p = None"
    by auto
  with assms(5,6) show ?thesis by (auto simp: load_unlocked_def os_read_def)
next
  case (removed s u w1)
  have "fst (load_unlocked c p w2) = Inr []"
    using assms(5,6) removed by (simp add: load_unlocked_def os_read_def)
  with removed show ?thesis by auto
next
  case (saved s s' data u w1)
  have "fst (load_unlocked c p w2) = Inr s'"
    using assms(3) [OF saved(6)] assms(5,6) saved(8) by (simp add: load_unlocked_def os_read_def)
  moreover have "\<forall>(i, t)\<in>set s'. \<not> contains (trim_space team) (pt_requirement t)" if "trim_space team \<noteq> []"
    using saved(5) that by (auto simp: validate_unlocked_def Let_def find_None_iff)
  ultimately show ?thesis using saved(2,3) by auto
qed

lemma state_update_load_witness:
  "\<exists>s. fst (load_unlocked demo_codec [''d'', ''s''] ((snd demo_update)\<lparr>os_faults := []\<rparr>)) = Inr s"
proof -
  have law: "enc demo_codec s = Inr d \<Longrightarrow> dec demo_codec d = Inr s" for s d
    by (simp add: demo_codec_def split: if_splits)
  have upd: "update_state demo_codec ''TEAM'' [''d'', ''t''] [] [''d'', ''s''] (\<lambda>_. Inr demo_state)
      state_dir_os = (None, snd demo_update)"
    using demo_update_ok by (metis demo_update_def prod.collapse)
  have "os_faults state_dir_os = []" by (simp add: state_dir_os_def)
  then show ?thesis
    using state_update_load [OF _ _ law _ _ _ upd, where ?w2.0 = "(snd demo_update)\<lparr>os_faults := []\<rparr>"]
    by auto
qed

end
