(* ===== verification/Go_Effects.thy ===== *)
theory Go_Effects
  imports Go_Prelude
begin

text \<open>
  Functions with effects: from a state to a result and the new state. A Go function that
  only returns an error is an action; a run of \<open>if err := f(); err != nil { return err }\<close>
  statements is \<open>run_acts\<close>. The state of such a function carries a log of what it did to the
  world; \<open>appends\<close> says which entries an action can add to it, \<open>keeps\<close> which part of the
  state it leaves alone, and both compose.
\<close>

type_synonym ('s, 'e) act = "'s \<Rightarrow> 'e option \<times> 's"

definition and_then :: "('s, 'e) act \<Rightarrow> ('s, 'e) act \<Rightarrow> ('s, 'e) act" where
  "and_then a b s = (case a s of (Some e, s') \<Rightarrow> (Some e, s') | (None, s') \<Rightarrow> b s')"

definition bind_act :: "('s \<Rightarrow> 'r \<times> 's) \<Rightarrow> ('r \<Rightarrow> 's \<Rightarrow> 'q \<times> 's) \<Rightarrow> 's \<Rightarrow> 'q \<times> 's" where
  "bind_act a f s = (case a s of (r, s') \<Rightarrow> f r s')"

text \<open>A call that returns a value and an error, and \<open>if err != nil { return err }\<close> after it.\<close>

definition return_act :: "'r \<Rightarrow> 's \<Rightarrow> 'r \<times> 's" where
  "return_act r s = (r, s)"

definition rbind_act :: "('s \<Rightarrow> ('e, 'a) result \<times> 's) \<Rightarrow> ('a \<Rightarrow> 's \<Rightarrow> ('e, 'b) result \<times> 's) \<Rightarrow>
    's \<Rightarrow> ('e, 'b) result \<times> 's" where
  "rbind_act a f = bind_act a (\<lambda>r. case r of Inl e \<Rightarrow> \<lambda>s. (Inl e, s) | Inr x \<Rightarrow> f x)"

text \<open>\<open>for _, x := range xs { if err := f(x); err != nil { return err } }\<close>\<close>

fun each_act :: "('a \<Rightarrow> 's \<Rightarrow> ('e, unit) result \<times> 's) \<Rightarrow> 'a list \<Rightarrow> 's \<Rightarrow> ('e, unit) result \<times> 's" where
  "each_act f [] = return_act (Inr ())"
| "each_act f (x # xs) = rbind_act (f x) (\<lambda>_. each_act f xs)"

fun run_acts :: "('s, 'e) act list \<Rightarrow> ('s, 'e) act" where
  "run_acts [] s = (None, s)"
| "run_acts (a # as) s = and_then a (run_acts as) s"

lemma and_then_None: "and_then a b s = (None, s') \<longleftrightarrow> (\<exists>s1. a s = (None, s1) \<and> b s1 = (None, s'))"
  by (auto simp: and_then_def split: prod.splits option.splits)

lemma run_acts_append: "run_acts (as @ bs) s = and_then (run_acts as) (run_acts bs) s"
  by (induction as arbitrary: s) (auto simp: and_then_def split: prod.splits option.splits)

lemma rbind_act_Inr:
  "rbind_act a f s = (Inr y, s') \<longleftrightarrow> (\<exists>x s1. a s = (Inr x, s1) \<and> f x s1 = (Inr y, s'))"
  by (auto simp: rbind_act_def bind_act_def split: prod.splits sum.splits)

lemma rbind_act_cases:
  assumes "rbind_act a f s = (r, s')"
  obtains (failed) e where "a s = (Inl e, s')" "r = Inl e"
  | (passed) x s1 where "a s = (Inr x, s1)" "f x s1 = (r, s')"
proof (cases "a s")
  case (Pair x s1)
  with assms failed passed show thesis by (cases x) (simp_all add: rbind_act_def bind_act_def)
qed

lemma bind_act_cases:
  assumes "bind_act a f s = (r, s')"
  obtains x s1 where "a s = (x, s1)" "f x s1 = (r, s')"
  using assms by (cases "a s") (auto simp: bind_act_def)

section \<open>What an action adds to the log\<close>

definition appends :: "('s \<Rightarrow> 'l list) \<Rightarrow> ('l \<Rightarrow> bool) \<Rightarrow> ('s \<Rightarrow> 'r \<times> 's) \<Rightarrow> bool" where
  "appends log P a \<longleftrightarrow> (\<forall>s. \<exists>es. log (snd (a s)) = log s @ es \<and> list_all P es)"

named_theorems appends_intros \<open>which log entries the actions of a component add\<close>

lemma appendsI:
  "(\<And>s. \<exists>es. log (snd (a s)) = log s @ es \<and> list_all P es) \<Longrightarrow> appends log P a"
  by (simp add: appends_def)

lemma appendsE:
  assumes "appends log P a" "a s = (r, s')"
  obtains es where "log s' = log s @ es" "list_all P es"
  using assms by (metis appends_def snd_conv)

lemma appends_mono: "appends log P a \<Longrightarrow> (\<And>l. P l \<Longrightarrow> Q l) \<Longrightarrow> appends log Q a"
  unfolding appends_def by (metis list.pred_mono_strong)

lemma appends_bind [appends_intros]:
  assumes "appends log P a" "\<And>r. appends log P (b r)"
  shows "appends log P (bind_act a b)"
proof (rule appendsI)
  fix s
  obtain r s1 where a: "a s = (r, s1)" by fastforce
  from appendsE [OF assms(1) a] obtain es where es: "log s1 = log s @ es" "list_all P es" .
  obtain fs where "log (snd (b r s1)) = log s1 @ fs" "list_all P fs"
    using assms(2) [of r] by (meson appends_def)
  with es a show "\<exists>es. log (snd (bind_act a b s)) = log s @ es \<and> list_all P es"
    by (auto simp: bind_act_def)
qed

lemma appends_return [appends_intros]: "appends log P (\<lambda>s. (r, s))"
  by (simp add: appends_def)

lemma appends_and_then [appends_intros]:
  assumes "appends log P a" "appends log P b"
  shows "appends log P (and_then a b)"
proof -
  have "and_then a b = bind_act a (\<lambda>r. case r of Some e \<Rightarrow> \<lambda>s. (Some e, s) | None \<Rightarrow> b)"
    by (rule ext) (auto simp: and_then_def bind_act_def split: prod.splits option.splits)
  then show ?thesis
    using assms by (auto intro!: appends_bind appends_return split: option.split)
qed

lemma appends_if [appends_intros]:
  "(c \<Longrightarrow> appends log P a) \<Longrightarrow> (\<not> c \<Longrightarrow> appends log P b) \<Longrightarrow> appends log P (if c then a else b)"
  by simp

lemma appends_case_option [appends_intros]:
  "appends log P a \<Longrightarrow> (\<And>x. appends log P (b x)) \<Longrightarrow> appends log P (case y of None \<Rightarrow> a | Some x \<Rightarrow> b x)"
  by (cases y) simp_all

lemma appends_case_sum [appends_intros]:
  "(\<And>x. appends log P (a x)) \<Longrightarrow> (\<And>x. appends log P (b x)) \<Longrightarrow>
     appends log P (case y of Inl x \<Rightarrow> a x | Inr x \<Rightarrow> b x)"
  by (cases y) simp_all

lemma appends_case_prod [appends_intros]:
  "(\<And>x z. appends log P (a x z)) \<Longrightarrow> appends log P (case y of (x, z) \<Rightarrow> a x z)"
  by (cases y) simp

lemma appends_run_acts [appends_intros]:
  assumes "\<And>a. a \<in> set as \<Longrightarrow> appends log P a"
  shows "appends log P (run_acts as)"
  using assms
proof (induction as)
  case Nil
  have "run_acts [] = (\<lambda>s. (None, s))" by (rule ext) simp
  then show ?case by (simp add: appends_return)
next
  case (Cons a as)
  have "run_acts (a # as) = and_then a (run_acts as)" by (rule ext) simp
  with Cons show ?case by (simp add: appends_and_then)
qed

lemma appends_rbind [appends_intros]:
  "appends lg P a \<Longrightarrow> (\<And>x. appends lg P (f x)) \<Longrightarrow> appends lg P (rbind_act a f)"
  unfolding rbind_act_def by (intro appends_intros) auto

lemma appends_return_act [appends_intros]: "appends lg P (return_act r)"
  unfolding return_act_def by (rule appends_return)

lemma appends_each_act [appends_intros]:
  "(\<And>x. x \<in> set xs \<Longrightarrow> appends lg P (f x)) \<Longrightarrow> appends lg P (each_act f xs)"
  by (induction xs) (auto intro!: appends_return_act appends_rbind)

section \<open>What an action leaves alone\<close>

definition keeps :: "('s \<Rightarrow> 'x) \<Rightarrow> ('s \<Rightarrow> 'r \<times> 's) \<Rightarrow> bool" where
  "keeps proj a \<longleftrightarrow> (\<forall>s. proj (snd (a s)) = proj s)"

lemma keepsD: "keeps proj a \<Longrightarrow> a s = (r, s') \<Longrightarrow> proj s' = proj s"
  by (metis keeps_def snd_conv)

named_theorems keeps_intros \<open>what the actions of a component leave alone\<close>

lemma keeps_return [keeps_intros]: "keeps proj (\<lambda>s. (r, s))"
  by (simp add: keeps_def)

lemma keeps_bind [keeps_intros]: "keeps proj a \<Longrightarrow> (\<And>r. keeps proj (b r)) \<Longrightarrow> keeps proj (bind_act a b)"
  by (auto simp: keeps_def bind_act_def split: prod.splits) (metis snd_conv)

lemma keeps_and_then [keeps_intros]: "keeps proj a \<Longrightarrow> keeps proj b \<Longrightarrow> keeps proj (and_then a b)"
  by (auto simp: keeps_def and_then_def split: prod.splits option.splits) (metis snd_conv)+

lemma keeps_if [keeps_intros]:
  "(c \<Longrightarrow> keeps proj a) \<Longrightarrow> (\<not> c \<Longrightarrow> keeps proj b) \<Longrightarrow> keeps proj (if c then a else b)"
  by simp

lemma keeps_case_option [keeps_intros]:
  "keeps proj a \<Longrightarrow> (\<And>x. keeps proj (b x)) \<Longrightarrow> keeps proj (case y of None \<Rightarrow> a | Some x \<Rightarrow> b x)"
  by (cases y) simp_all

lemma keeps_case_sum [keeps_intros]:
  "(\<And>x. keeps proj (a x)) \<Longrightarrow> (\<And>x. keeps proj (b x)) \<Longrightarrow>
     keeps proj (case y of Inl x \<Rightarrow> a x | Inr x \<Rightarrow> b x)"
  by (cases y) simp_all

lemma keeps_case_prod [keeps_intros]:
  "(\<And>x z. keeps proj (a x z)) \<Longrightarrow> keeps proj (case y of (x, z) \<Rightarrow> a x z)"
  by (cases y) simp

lemma keeps_run_acts [keeps_intros]: "(\<And>a. a \<in> set as \<Longrightarrow> keeps proj a) \<Longrightarrow> keeps proj (run_acts as)"
proof (induction as)
  case Nil
  then show ?case by (simp add: keeps_def)
next
  case (Cons a as)
  have "run_acts (a # as) = and_then a (run_acts as)" by (rule ext) simp
  with Cons show ?case by (simp add: keeps_and_then)
qed

lemma keeps_return_act [keeps_intros]: "keeps proj (return_act r)"
  by (simp add: keeps_def return_act_def)

lemma keeps_rbind [keeps_intros]:
  "keeps proj a \<Longrightarrow> (\<And>x. keeps proj (f x)) \<Longrightarrow> keeps proj (rbind_act a f)"
  unfolding rbind_act_def by (intro keeps_intros) auto

lemma keeps_each_act [keeps_intros]:
  "(\<And>x. x \<in> set xs \<Longrightarrow> keeps proj (f x)) \<Longrightarrow> keeps proj (each_act f xs)"
  by (induction xs) (auto intro!: keeps_return_act keeps_rbind)

end
