(* ===== verification/Hard_Reset.thy ===== *)
theory Hard_Reset
  imports Go_Effects App_Guard State_Store Cmd_Flags
begin

text \<open>
  \<open>internal/hardreset/hardreset.go\<close>: the reset plan of a target and its execution. The
  state is the operating system of \<open>OS_Model\<close> and a log of what was run, removed, renamed
  and written. External commands, the globbing of paths, the end of a chain of symbolic links and
  the scan of the bundle (\<open>bundleidentity.Scan\<close>) are arguments. The command log file, whose
  write errors the code ignores, is left out.
\<close>

section \<open>The plan\<close>

datatype artifact_action = Remove | RemoveSudo | RestoreReal

record artifact =
  at_kind :: string
  at_path :: string
  at_action :: artifact_action
  at_glob :: bool

record reset_plan =
  pl_target :: string
  pl_app :: string
  pl_ids :: "string list"
  pl_tcc_ids :: "string list"
  pl_artifacts :: "artifact list"

text \<open>The fields of \<open>bundleidentity.Entry\<close> the plan reads.\<close>

record identity_entry =
  ie_id :: string
  ie_package :: string
  ie_runtime :: bool

definition sorted_unique :: "string list \<Rightarrow> string list" where
  "sorted_unique values = sort (dedup [] (filter (\<lambda>v. v \<noteq> []) (map trim_space values)))"

definition identity_sets :: "target \<Rightarrow> identity_entry list \<Rightarrow> string list \<times> string list" where
  "identity_sets t entries =
     (sorted_unique (tg_bundle_id t # tg_aliases t @ tg_helpers t @
        map ie_id (filter (\<lambda>e. ie_runtime e \<and> ie_id e \<noteq> []) entries)),
      sorted_unique (tg_bundle_id t # tg_aliases t @
        map ie_id (filter (\<lambda>e. ie_runtime e \<and> ie_id e \<noteq> [] \<and> ie_package e = ''APPL'') entries)))"

definition bundled_cli_tee_paths :: "bundled_cli_tee_spec \<Rightarrow> string list" where
  "bundled_cli_tee_paths tee =
     (if tee_bundled_cli_path tee \<noteq> [] then [tee_bundled_cli_path tee]
      else if tee_app_support_dir tee = [] \<or> tee_bundled_cli_rel tee = [] then []
      else if tee_version_dir tee \<noteq> [] then
        [go_join [tee_app_support_dir tee, tee_version_dir tee, tee_bundled_cli_rel tee]]
      else [go_join [tee_app_support_dir tee, ''*'', tee_bundled_cli_rel tee]])"

text \<open>\<open>paths.Home\<close>: empty when there is no home directory.\<close>

definition home_or_empty :: "go_env \<Rightarrow> string" where
  "home_or_empty env = (case user_home_dir env of None \<Rightarrow> [] | Some h \<Rightarrow> h)"

definition mk_artifact :: "string \<Rightarrow> artifact_action \<Rightarrow> bool \<Rightarrow> string \<Rightarrow> artifact" where
  "mk_artifact kind act glob p = \<lparr>at_kind = kind, at_path = p, at_action = act, at_glob = glob\<rparr>"

definition computer_use_artifacts :: "go_env \<Rightarrow> computer_use_spec \<Rightarrow> artifact list" where
  "computer_use_artifacts env cu =
     (if cu_auth_plugin_path cu \<noteq> []
      then [mk_artifact ''computer_use_auth_plugin'' RemoveSudo False (cu_auth_plugin_path cu)] else []) @
     (if cu_app_path_from_home cu \<noteq> []
      then [mk_artifact ''computer_use_helper'' Remove False
              (go_join [home_or_empty env, cu_app_path_from_home cu])] else []) @
     map (\<lambda>g. mk_artifact ''computer_use_cache_helper'' Remove True (go_join [home_or_empty env, g]))
       (cu_cache_globs cu)"

definition build_artifacts :: "go_env \<Rightarrow> target \<Rightarrow> artifact list" where
  "build_artifacts env t =
     [mk_artifact ''upgrade_staging'' Remove True
        (go_join [state_root env, ''upgrade-staging'', tg_id t @ ''-*''])] @
     (case ext_computer_use (tg_ext t) of None \<Rightarrow> [] | Some cu \<Rightarrow> computer_use_artifacts env cu) @
     (case ext_tee (tg_ext t) of None \<Rightarrow> []
      | Some tee \<Rightarrow> map (\<lambda>p. mk_artifact ''bundled_cli_tee'' RestoreReal (CHR ''*'' \<in> set p) p)
          (bundled_cli_tee_paths tee)) @
     [mk_artifact ''app_bundle'' Remove False (tg_app_path t)]"

definition build_plan :: "go_env \<Rightarrow> target \<Rightarrow> ('e, identity_entry list) result \<Rightarrow> ('e, reset_plan) result" where
  "build_plan env t scan =
     rbind scan (\<lambda>entries.
       Inr \<lparr>pl_target = tg_id t, pl_app = tg_app_path t,
            pl_ids = fst (identity_sets t entries), pl_tcc_ids = snd (identity_sets t entries),
            pl_artifacts = build_artifacts env t\<rparr>)"

section \<open>SQL\<close>

definition quote1 :: char where "quote1 = CHR 0x27"

definition sql_quote :: "string \<Rightarrow> string" where
  "sql_quote v = [quote1] @ replace_all [quote1] [quote1, quote1] v @ [quote1]"

definition sql_string_list :: "string list \<Rightarrow> string" where
  "sql_string_list vs = join '','' (map sql_quote vs)"

definition newline :: string where "newline = [CHR 0x0A]"

definition delete_statement :: "string list \<Rightarrow> string" where
  "delete_statement ids = ''DELETE FROM access WHERE client IN ('' @ sql_string_list ids @ '');'' @
     newline @ ''SELECT changes();'' @ newline"

definition count_statement :: "string list \<Rightarrow> string" where
  "count_statement ids = ''SELECT count(*) FROM access WHERE client IN ('' @ sql_string_list ids @ '');'' @ newline"

text \<open>
  How SQL reads a list of string literals (the argument is the text after the opening
  quote): a doubled quote is a quote, a single one ends the literal, a comma and a quote
  begin the next.
\<close>

fun sql_literal :: "string \<Rightarrow> (string \<times> string) option" where
  "sql_literal [] = None"
| "sql_literal (c # cs) =
     (if c \<noteq> quote1 then map_option (\<lambda>(v, rest). (c # v, rest)) (sql_literal cs)
      else case cs of
        [] \<Rightarrow> Some ([], [])
      | d # ds \<Rightarrow> if d = quote1 then map_option (\<lambda>(v, rest). (quote1 # v, rest)) (sql_literal ds)
                 else Some ([], d # ds))"

lemma sql_literal_shorter: "sql_literal s = Some (v, rest) \<Longrightarrow> length rest < length s"
  by (induction s arbitrary: v rest rule: sql_literal.induct)
     (fastforce split: if_splits list.splits)+

function sql_literals :: "string \<Rightarrow> (string list \<times> string) option" where
  "sql_literals s =
     (case sql_literal s of
        None \<Rightarrow> None
      | Some (v, rest) \<Rightarrow>
          (if prefix ('','' @ [quote1]) rest
           then map_option (\<lambda>(vs, r). (v # vs, r)) (sql_literals (drop 2 rest))
           else Some ([v], rest)))"
  by auto
termination
  by (relation "measure length") (auto dest: sql_literal_shorter)

section \<open>State, log and environment\<close>

datatype dry_note =
    DryTccutil string
  | DryKillall string
  | DryDelete string string "string list"
  | DryCount string "string list"
  | DryArtifact artifact
  | DryState string string

datatype out_line =
    HeaderLine string string
  | IdsLine "string list"
  | TccIdsLine "string list"
  | ArtifactLine artifact
  | DryRunLine dry_note
  | TccSummary nat nat "string list"
  | RestartLine bool string
  | RowsDeleted string string string
  | RowsRemaining string "int option"
  | ArtifactStatus artifact string string
  | StateRemovedLine string string
  | DeferredLine string
  | AftercareLine

datatype reset_event =
    Wrote out_line
  | Ran string "string list" string   \<comment> \<open>program, arguments, standard input\<close>
  | RemovedAll string
  | Renamed string string
  | UpdatedState string

datatype reset_error =
    ScanFailed string
  | NoBundleIds string
  | NoTccIds string
  | WriteFailed
  | TccutilFailed string
  | HomeUnknown
  | RowsRemain string int
  | GlobFailed string
  | StatFailed string
  | ArtifactRemoveFailed string
  | SudoFailed string
  | RestoreFailed string
  | StateFailed state_error

record reset_sys =
  rs_os :: os
  rs_log :: "reset_event list"

record reset_env =
  re_env :: go_env
  re_run :: "string \<Rightarrow> string list \<Rightarrow> string \<Rightarrow> os \<Rightarrow> (string \<times> bool) \<times> os"  \<comment> \<open>output, and whether it succeeded\<close>
  re_glob :: "string \<Rightarrow> filesys \<Rightarrow> string list option"   \<comment> \<open>\<open>None\<close>: a bad pattern\<close>
  re_live :: "fpath \<Rightarrow> filesys \<Rightarrow> bool"       \<comment> \<open>the link at the path leads to something\<close>
  re_codec :: codec
  re_team :: string
  re_temp :: fpath
  re_part :: string

type_synonym reset_act = "(reset_sys, reset_error) act"

definition log_event :: "reset_event \<Rightarrow> reset_sys \<Rightarrow> reset_sys" where
  "log_event ev s = s\<lparr>rs_log := rs_log s @ [ev]\<rparr>"

definition on_os :: "(os \<Rightarrow> 'r \<times> os) \<Rightarrow> reset_sys \<Rightarrow> 'r \<times> reset_sys" where
  "on_os f s = (let (r, w) = f (rs_os s) in (r, s\<lparr>rs_os := w\<rparr>))"

text \<open>A line written to \<open>opts.Out\<close>, which can fail like any other call.\<close>

definition print_line :: "out_line \<Rightarrow> reset_act" where
  "print_line l s = (let (f, w) = next_fault (rs_os s); s1 = s\<lparr>rs_os := w\<rparr> in
     case f of Fault _ \<Rightarrow> (Some WriteFailed, s1) | NoFault \<Rightarrow> (None, log_event (Wrote l) s1))"

definition run_command ::
  "reset_env \<Rightarrow> string \<Rightarrow> string list \<Rightarrow> string \<Rightarrow> reset_sys \<Rightarrow> (string \<times> bool) \<times> reset_sys" where
  "run_command env name args stdin s = on_os (re_run env name args stdin) (log_event (Ran name args stdin) s)"

text \<open>The components of an absolute path.\<close>

definition path_of :: "string \<Rightarrow> fpath" where
  "path_of p = snd (clean p)"

text \<open>\<open>os.Stat\<close>, which follows links: \<open>Inr\<close> says whether there is something.\<close>

definition os_stat :: "reset_env \<Rightarrow> string \<Rightarrow> os \<Rightarrow> (os_error, bool) result \<times> os" where
  "os_stat env p w = (let (f, w1) = next_fault w in
     case f of Fault _ \<Rightarrow> (Inl EIO, w1)
     | NoFault \<Rightarrow> (Inr (case os_fs w1 (path_of p) of
         None \<Rightarrow> False | Some (Symlink _) \<Rightarrow> re_live env (path_of p) (os_fs w1) | Some _ \<Rightarrow> True), w1))"

definition remove_tree :: "string \<Rightarrow> reset_sys \<Rightarrow> os_error option \<times> reset_sys" where
  "remove_tree p s = on_os (os_remove_all (path_of p)) (log_event (RemovedAll p) s)"

definition rename_path :: "string \<Rightarrow> string \<Rightarrow> reset_sys \<Rightarrow> os_error option \<times> reset_sys" where
  "rename_path a b s = on_os (os_rename (path_of a) (path_of b)) (log_event (Renamed a b) s)"

section \<open>The privacy database\<close>

definition is_no_such_bundle :: "string \<Rightarrow> bool" where
  "is_no_such_bundle out = contains ''No such bundle identifier'' out"

text \<open>The loop of \<open>resetTCCUtilAll\<close>: how many were reset, which were not registered.\<close>

fun tccutil_loop ::
  "reset_env \<Rightarrow> string list \<Rightarrow> nat \<Rightarrow> string list \<Rightarrow> reset_sys \<Rightarrow>
     (reset_error, nat \<times> string list) result \<times> reset_sys" where
  "tccutil_loop env [] n unreg = (\<lambda>s. (Inr (n, unreg), s))"
| "tccutil_loop env (b # bs) n unreg =
     bind_act (run_command env ''/usr/bin/tccutil'' [''reset'', ''All'', b] []) (\<lambda>(out, ok).
       if ok then tccutil_loop env bs (Suc n) unreg
       else if is_no_such_bundle out then tccutil_loop env bs n (unreg @ [b])
       else (\<lambda>s. (Inl (TccutilFailed b), s)))"

definition reset_tccutil_all :: "reset_env \<Rightarrow> bool \<Rightarrow> string list \<Rightarrow> reset_act" where
  "reset_tccutil_all env dry ids =
     (if dry then run_acts (map (\<lambda>b. print_line (DryRunLine (DryTccutil b))) ids)
      else bind_act (tccutil_loop env ids 0 []) (\<lambda>r. case r of
        Inl e \<Rightarrow> (\<lambda>s. (Some e, s))
      | Inr (n, unreg) \<Rightarrow> print_line (TccSummary (length ids) n unreg)))"

definition restart_tccd :: "reset_env \<Rightarrow> bool \<Rightarrow> string \<Rightarrow> reset_act" where
  "restart_tccd env dry reason =
     (if dry then print_line (DryRunLine (DryKillall reason))
      else bind_act (run_command env ''/usr/bin/killall'' [''tccd''] []) (\<lambda>(out, ok).
        print_line (RestartLine ok reason)))"

definition user_tcc_database :: "go_env \<Rightarrow> string option" where
  "user_tcc_database env = map_option (\<lambda>h.
     go_join [h, ''Library'', ''Application Support'', ''com.apple.TCC'', ''TCC.db'']) (user_home_dir env)"

definition system_tcc_database :: string where
  "system_tcc_database = ''/Library/Application Support/com.apple.TCC/TCC.db''"

text \<open>
  The body \<open>deleteUserTCCRows\<close> and \<open>deleteSystemTCCRows\<close> share: the user's database is
  edited by \<open>sqlite3\<close>, the system's by \<open>sudo sqlite3\<close>. Only a failed write is an error.
\<close>

definition delete_tcc_rows ::
  "reset_env \<Rightarrow> bool \<Rightarrow> string \<Rightarrow> string \<Rightarrow> string \<Rightarrow> string list \<Rightarrow> string list \<Rightarrow> reset_act" where
  "delete_tcc_rows env dry label db program args ids =
     (if dry then print_line (DryRunLine (DryDelete label db ids))
      else bind_act (on_os (os_stat env db)) (\<lambda>st. case st of
        Inl _ \<Rightarrow> print_line (RowsDeleted label db ''unknown'')
      | Inr there \<Rightarrow>
          if \<not> there then print_line (RowsDeleted label db ''0'')
          else bind_act (run_command env program args (delete_statement ids)) (\<lambda>(out, ok).
            if \<not> ok then print_line (RowsDeleted label db ''error'')
            else print_line (RowsDeleted label db
                   (if trim_space out = [] then ''0'' else trim_space out)))))"

definition delete_user_tcc_rows :: "reset_env \<Rightarrow> bool \<Rightarrow> string list \<Rightarrow> reset_act" where
  "delete_user_tcc_rows env dry ids =
     (case user_tcc_database (re_env env) of
        None \<Rightarrow> (\<lambda>s. (Some HomeUnknown, s))
      | Some db \<Rightarrow> delete_tcc_rows env dry ''user'' db ''/usr/bin/sqlite3''
                    [''-cmd'', ''.timeout 10000'', db] ids)"

definition delete_system_tcc_rows :: "reset_env \<Rightarrow> bool \<Rightarrow> string list \<Rightarrow> reset_act" where
  "delete_system_tcc_rows env dry ids =
     delete_tcc_rows env dry ''system'' system_tcc_database ''/usr/bin/sudo''
       [''/usr/bin/sqlite3'', ''-cmd'', ''.timeout 10000'', system_tcc_database] ids"

text \<open>\<open>fmt.Sscanf(text, "%d", ...)\<close> into a 64-bit \<open>int\<close>: a sign, digits, anything after them.\<close>

definition scan_int :: "string \<Rightarrow> int option" where
  "scan_int s =
     (let neg = (s \<noteq> [] \<and> hd s = CHR ''-'');
          body = (if s \<noteq> [] \<and> (hd s = CHR ''-'' \<or> hd s = CHR ''+'') then tl s else s);
          ds = takeWhile is_digit body;
          n = (if neg then - int (digits_val ds) else int (digits_val ds))
      in if ds = [] \<or> n < - (2 ^ 63) \<or> n \<ge> 2 ^ 63 then None else Some n)"

definition count_tcc_rows ::
  "reset_env \<Rightarrow> string \<Rightarrow> string list \<Rightarrow> reset_sys \<Rightarrow> int option \<times> reset_sys" where
  "count_tcc_rows env db ids =
     bind_act (on_os (os_stat env db)) (\<lambda>st. case st of
        Inl _ \<Rightarrow> (\<lambda>s. (None, s))
      | Inr there \<Rightarrow>
          if \<not> there then (\<lambda>s. (Some 0, s))
          else bind_act (run_command env ''/usr/bin/sqlite3'' [db, count_statement ids] []) (\<lambda>(out, ok).
            if \<not> ok then (\<lambda>s. (None, s))
            else if trim_space out = [] then (\<lambda>s. (Some 0, s))
            else (\<lambda>s. (scan_int (trim_space out), s))))"

definition verify_database :: "reset_env \<Rightarrow> bool \<Rightarrow> string list \<Rightarrow> string \<Rightarrow> string \<Rightarrow> reset_act" where
  "verify_database env dry ids label db =
     (if dry then print_line (DryRunLine (DryCount label ids))
      else bind_act (count_tcc_rows env db ids) (\<lambda>count.
        and_then (print_line (RowsRemaining label count))
          (case count of
             None \<Rightarrow> (\<lambda>s. (None, s))
           | Some n \<Rightarrow> if n > 0 then (\<lambda>s. (Some (RowsRemain label n), s)) else (\<lambda>s. (None, s)))))"

definition verify_no_tcc_rows :: "reset_env \<Rightarrow> bool \<Rightarrow> string list \<Rightarrow> reset_act" where
  "verify_no_tcc_rows env dry ids =
     (case user_tcc_database (re_env env) of
        None \<Rightarrow> (\<lambda>s. (Some HomeUnknown, s))
      | Some db \<Rightarrow> run_acts [verify_database env dry ids ''user'' db,
                             verify_database env dry ids ''system'' system_tcc_database])"

section \<open>Artifacts\<close>

definition artifact_candidates :: "reset_env \<Rightarrow> artifact \<Rightarrow> filesys \<Rightarrow> (reset_error, string list) result" where
  "artifact_candidates env a fs =
     (if \<not> at_glob a then Inr [at_path a]
      else case re_glob env (at_path a) fs of
        None \<Rightarrow> Inl (GlobFailed (at_path a))
      | Some matches \<Rightarrow>
          (if at_action a \<noteq> RestoreReal then Inr (sort (dedup [] matches))
           else case re_glob env (at_path a @ ''.real'') fs of
             None \<Rightarrow> Inl (GlobFailed (at_path a @ ''.real''))
           | Some reals \<Rightarrow> Inr (sort (dedup [] (matches @ map (trim_suffix ''.real'') reals)))))"

text \<open>The check all three actions begin with: nothing there is reported and is no error.\<close>

definition when_present :: "reset_env \<Rightarrow> artifact \<Rightarrow> string \<Rightarrow> string \<Rightarrow> reset_act \<Rightarrow> reset_act" where
  "when_present env a checked p act =
     bind_act (on_os (os_stat env checked)) (\<lambda>st. case st of
       Inl _ \<Rightarrow> (\<lambda>s. (Some (StatFailed checked), s))
     | Inr there \<Rightarrow> if there then act else print_line (ArtifactStatus a p ''missing''))"

definition remove_artifact :: "reset_env \<Rightarrow> artifact \<Rightarrow> string \<Rightarrow> reset_act" where
  "remove_artifact env a p =
     when_present env a p p
       (bind_act (remove_tree p) (\<lambda>r. case r of
          Some _ \<Rightarrow> (\<lambda>s. (Some (ArtifactRemoveFailed p), s))
        | None \<Rightarrow> print_line (ArtifactStatus a p ''removed'')))"

definition remove_artifact_with_sudo :: "reset_env \<Rightarrow> artifact \<Rightarrow> string \<Rightarrow> reset_act" where
  "remove_artifact_with_sudo env a p =
     when_present env a p p
       (bind_act (run_command env ''/usr/bin/sudo'' [''/bin/rm'', ''-rf'', p] []) (\<lambda>(out, ok).
          if ok then print_line (ArtifactStatus a p ''removed'')
          else (\<lambda>s. (Some (SudoFailed p), s))))"

definition restore_real_artifact :: "reset_env \<Rightarrow> artifact \<Rightarrow> string \<Rightarrow> reset_act" where
  "restore_real_artifact env a p =
     when_present env a (p @ ''.real'') p
       (bind_act (remove_tree p) (\<lambda>r. case r of
          Some _ \<Rightarrow> (\<lambda>s. (Some (ArtifactRemoveFailed p), s))
        | None \<Rightarrow> bind_act (rename_path (p @ ''.real'') p) (\<lambda>r. case r of
            Some _ \<Rightarrow> (\<lambda>s. (Some (RestoreFailed p), s))
          | None \<Rightarrow> print_line (ArtifactStatus a p ''restored''))))"

definition reset_artifact :: "reset_env \<Rightarrow> artifact \<Rightarrow> string \<Rightarrow> reset_act" where
  "reset_artifact env a p =
     (case at_action a of
        Remove \<Rightarrow> remove_artifact env a p
      | RemoveSudo \<Rightarrow> remove_artifact_with_sudo env a p
      | RestoreReal \<Rightarrow> restore_real_artifact env a p)"

text \<open>One turn of the loop of \<open>resetArtifacts\<close>.\<close>

definition reset_one :: "reset_env \<Rightarrow> bool \<Rightarrow> artifact \<Rightarrow> reset_act" where
  "reset_one env dry a =
     (if dry then print_line (DryRunLine (DryArtifact a))
      else bind_act (\<lambda>s. (artifact_candidates env a (os_fs (rs_os s)), s)) (\<lambda>c. case c of
        Inl e \<Rightarrow> (\<lambda>s. (Some e, s))
      | Inr [] \<Rightarrow> print_line (ArtifactStatus a (at_path a) ''missing'')
      | Inr (p # ps) \<Rightarrow> run_acts (map (reset_artifact env a) (p # ps))))"

definition reset_artifacts :: "reset_env \<Rightarrow> bool \<Rightarrow> artifact list \<Rightarrow> reset_act" where
  "reset_artifacts env dry as = run_acts (map (reset_one env dry) as)"

definition remove_patch_state :: "reset_env \<Rightarrow> bool \<Rightarrow> string \<Rightarrow> reset_act" where
  "remove_patch_state env dry tid =
     (let file = state_file (re_env env) in
      if dry then print_line (DryRunLine (DryState tid file))
      else bind_act (\<lambda>s. on_os (update_state (re_codec env) (re_team env) (re_temp env) (re_part env)
                                (path_of file) (\<lambda>st. Inr (AList.delete tid st)))
                       (log_event (UpdatedState file) s))
        (\<lambda>r. case r of
           Some e \<Rightarrow> (\<lambda>s. (Some (StateFailed e), s))
         | None \<Rightarrow> print_line (StateRemovedLine tid file)))"

section \<open>The whole reset\<close>

definition execute_plan :: "reset_env \<Rightarrow> bool \<Rightarrow> reset_plan \<Rightarrow> reset_act" where
  "execute_plan env dry plan = run_acts
     [reset_tccutil_all env dry (pl_tcc_ids plan),
      restart_tccd env dry ''before_tcc_db_cleanup'',
      delete_user_tcc_rows env dry (pl_ids plan),
      delete_system_tcc_rows env dry (pl_ids plan),
      restart_tccd env dry ''after_tcc_db_cleanup'',
      verify_no_tcc_rows env dry (pl_ids plan),
      reset_artifacts env dry (pl_artifacts plan),
      remove_patch_state env dry (pl_target plan),
      print_line AftercareLine]"

type_synonym reset_failure = "guard_error + reset_error"

text \<open>
  \<open>defaultMutateBundle\<close>: \<open>running\<close> and \<open>closer\<close> are the app guard's; a deferral by the guard is
  reported and is no error, unless the app was to be closed.
\<close>

definition default_mutate_bundle ::
  "(os \<Rightarrow> bool \<times> os) \<Rightarrow> (os \<Rightarrow> string option \<times> os) \<Rightarrow> string \<Rightarrow> bool \<Rightarrow> bool \<Rightarrow> reset_act \<Rightarrow>
     (reset_sys, reset_failure) act" where
  "default_mutate_bundle running closer tid dry close fn =
     bind_act (mutate_bundle (on_os running) (on_os closer) tid
         (if close then PolicyClose else PolicyDefer) dry fn)
       (\<lambda>r. case r of
          Some (Inl (AppRunning i)) \<Rightarrow>
            if close then (\<lambda>s. (Some (Inl (AppRunning i)), s))
            else bind_act (print_line (DeferredLine tid)) (\<lambda>_ s. (None, s))
        | _ \<Rightarrow> (\<lambda>s. (r, s)))"

definition print_plan :: "reset_plan \<Rightarrow> reset_act" where
  "print_plan plan = run_acts
     ([print_line (HeaderLine (pl_target plan) (pl_app plan)),
       print_line (IdsLine (pl_ids plan)), print_line (TccIdsLine (pl_tcc_ids plan))] @
      map (\<lambda>a. print_line (ArtifactLine a)) (pl_artifacts plan))"

definition hard_reset ::
  "reset_env \<Rightarrow> (os \<Rightarrow> bool \<times> os) \<Rightarrow> (os \<Rightarrow> string option \<times> os) \<Rightarrow> target \<Rightarrow>
     (string, identity_entry list) result \<Rightarrow> bool \<Rightarrow> bool \<Rightarrow> (reset_sys, reset_failure) act" where
  "hard_reset env running closer t scan dry close =
     (case build_plan (re_env env) t scan of
        Inl e \<Rightarrow> (\<lambda>s. (Some (Inr (ScanFailed e)), s))
      | Inr plan \<Rightarrow>
          if pl_ids plan = [] then (\<lambda>s. (Some (Inr (NoBundleIds (tg_id t))), s))
          else if pl_tcc_ids plan = [] then (\<lambda>s. (Some (Inr (NoTccIds (tg_id t))), s))
          else bind_act (print_plan plan) (\<lambda>r. case r of
            Some e \<Rightarrow> (\<lambda>s. (Some (Inr e), s))
          | None \<Rightarrow> default_mutate_bundle running closer (tg_id t) dry close (execute_plan env dry plan)))"

text \<open>\<open>Operation\<close>: the request's flags choose between a dry run, closing and deferring.\<close>

definition hard_reset_operation ::
  "reset_env \<Rightarrow> (os \<Rightarrow> bool \<times> os) \<Rightarrow> (os \<Rightarrow> string option \<times> os) \<Rightarrow> target option \<Rightarrow> flag_values \<Rightarrow>
     (string, identity_entry list) result \<Rightarrow> reset_sys \<Rightarrow> (unit + reset_failure) option \<times> reset_sys" where
  "hard_reset_operation env running closer app flags scan =
     (case app of
        None \<Rightarrow> (\<lambda>s. (Some (Inl ()), s))
      | Some t \<Rightarrow> bind_act (hard_reset env running closer t scan (get_bool flags ''dry-run'')
                             (\<not> get_bool flags ''background''))
                    (\<lambda>r s. (map_option Inr r, s)))"

end
