(* ===== verification/Hard_Reset_Props.thy ===== *)
theory Hard_Reset_Props
  imports Hard_Reset
begin

text \<open>
  What a hard reset guarantees: a dry run only writes, nothing is removed before both
  privacy databases were counted, a completed reset has removed the app and its state
  entry, and no bundle id can break out of the SQL that names it.
\<close>

section \<open>SQL\<close>

lemma other_than_quote [simp]: "CHR '','' \<noteq> quote1" "CHR '')'' \<noteq> quote1"
  by (simp_all add: quote1_def)

lemma replace_quote_Cons:
  "replace_all [quote1] [quote1, quote1] (c # v) =
     (if c = quote1 then [quote1, quote1] else [c]) @ replace_all [quote1] [quote1, quote1] v"
  by (simp add: replace_all_char)

lemma sql_literal_doubled:
  "rest = [] \<or> hd rest \<noteq> quote1 \<Longrightarrow>
     sql_literal (replace_all [quote1] [quote1, quote1] v @ quote1 # rest) = Some (v, rest)"
proof (induction v)
  case Nil
  then show ?case by (cases rest) (simp_all add: replace_all_char)
qed (auto simp: replace_quote_Cons)

declare sql_literals.simps [simp del]

lemma sql_literals_list:
  assumes "rest \<noteq> []" "hd rest \<notin> {quote1, CHR '',''}" "vs \<noteq> []"
  shows "sql_literals (tl (sql_string_list vs @ rest)) = Some (vs, rest)"
  using assms(3)
proof (induction vs rule: induct_list012)
  case (2 v)
  have "tl (sql_string_list [v] @ rest) = replace_all [quote1] [quote1, quote1] v @ quote1 # rest"
    by (simp add: sql_string_list_def sql_quote_def)
  with assms(1,2) show ?case
    by (cases rest) (auto simp: sql_literals.simps [of "_ @ _"] sql_literal_doubled)
next
  case (3 v w vs)
  have q: "sql_string_list (w # vs) = quote1 # tl (sql_string_list (w # vs))"
    by (cases vs) (simp_all add: sql_string_list_def sql_quote_def)
  have "tl (sql_string_list (v # w # vs) @ rest) =
      replace_all [quote1] [quote1, quote1] v @ quote1 # '','' @ sql_string_list (w # vs) @ rest"
    by (simp add: sql_string_list_def sql_quote_def)
  also have "'','' @ sql_string_list (w # vs) @ rest =
      '','' @ quote1 # tl (sql_string_list (w # vs) @ rest)"
    by (metis append_Cons list.sel(3) q)
  finally show ?case
    using 3(2) by (simp add: sql_literals.simps [of "_ @ _"] sql_literal_doubled)
qed simp

lemma drop_past: "drop (length h + 1) (h @ x) = tl x"
  by (simp add: drop_Suc)

text \<open>
  No bundle id can break out of the SQL that names it, whatever quotes it contains: read
  by SQL's literal rule, the client list of the delete and of the count statement is
  exactly the list of ids, and the rest of the statement follows it.\<close>

theorem sql_list_literal:
  assumes "ids \<noteq> []"
  shows "sql_literals (drop (length ''DELETE FROM access WHERE client IN ('' + 1) (delete_statement ids)) =
      Some (ids, '');'' @ newline @ ''SELECT changes();'' @ newline) \<and>
    sql_literals (drop (length ''SELECT count(*) FROM access WHERE client IN ('' + 1) (count_statement ids)) =
      Some (ids, '');'' @ newline)"
  unfolding delete_statement_def count_statement_def drop_past
  by (intro conjI sql_literals_list [OF _ _ assms]) simp_all

lemma sql_list_literal_witness:
  "sql_literals (drop (length ''SELECT count(*) FROM access WHERE client IN ('' + 1)
      (count_statement [[quote1, CHR '')''], ''b''])) = Some ([[quote1, CHR '')''], ''b''], '');'' @ newline)"
  using sql_list_literal [of "[[quote1, CHR '')''], ''b'']"] by blast

section \<open>Dry runs\<close>

definition only_written :: "reset_event \<Rightarrow> bool" where
  "only_written ev \<longleftrightarrow> (\<exists>l. ev = Wrote l)"

abbreviation logs :: "(reset_event \<Rightarrow> bool) \<Rightarrow> (reset_sys \<Rightarrow> 'r \<times> reset_sys) \<Rightarrow> bool" where
  "logs \<equiv> appends rs_log"

lemma print_line_logs: "P (Wrote l) \<Longrightarrow> logs P (print_line l)"
  by (rule appendsI)
     (simp add: print_line_def log_event_def Let_def split: prod.split fault.split)

lemma on_os_logs: "logs P (on_os f)"
  by (rule appendsI) (simp add: on_os_def split: prod.split)

lemma print_line_keeps: "(\<And>s. g s = h (os_fs (rs_os s)) (os_trail (rs_os s))) \<Longrightarrow> keeps g (print_line l)"
  by (simp add: keeps_def print_line_def log_event_def Let_def split: prod.split fault.split)
     (metis next_fault_fs snd_conv)

text \<open>The tree and all states it went through.\<close>

definition tree_of :: "reset_sys \<Rightarrow> filesys \<times> filesys list" where
  "tree_of s = (os_fs (rs_os s), os_trail (rs_os s))"

lemma print_line_tree [keeps_intros]: "keeps tree_of (print_line l)"
  by (rule print_line_keeps [where h = Pair]) (simp add: tree_of_def)

definition writes_only :: "(reset_sys, 'e) act \<Rightarrow> bool" where
  "writes_only a \<longleftrightarrow> logs only_written a \<and> keeps tree_of a"

lemma writes_only_print: "writes_only (print_line l)"
  by (simp add: writes_only_def print_line_tree print_line_logs only_written_def)

lemma writes_only_run_acts: "(\<And>a. a \<in> set as \<Longrightarrow> writes_only a) \<Longrightarrow> writes_only (run_acts as)"
  by (simp add: writes_only_def appends_run_acts keeps_run_acts)

lemma writes_only_prints: "writes_only (run_acts (map (\<lambda>x. print_line (f x)) xs))"
  by (rule writes_only_run_acts) (auto intro: writes_only_print)

lemma writes_only_fail: "writes_only (\<lambda>s. (r, s))"
  by (simp add: writes_only_def appends_return keeps_return)

lemma verify_dry: "writes_only (verify_no_tcc_rows env True ids)"
  by (cases "user_tcc_database (re_env env)")
     (auto simp: verify_no_tcc_rows_def verify_database_def
       intro!: writes_only_fail writes_only_print writes_only_run_acts)

lemma delete_dry: "writes_only (delete_user_tcc_rows env True ids)"
    "writes_only (delete_system_tcc_rows env True ids)"
  by (cases "user_tcc_database (re_env env)";
      simp add: delete_user_tcc_rows_def delete_system_tcc_rows_def delete_tcc_rows_def
        writes_only_fail writes_only_print)+

lemma execute_plan_dry: "writes_only (execute_plan env True plan)"
  unfolding execute_plan_def
proof (rule writes_only_run_acts)
  fix a
  assume "a \<in> set [reset_tccutil_all env True (pl_tcc_ids plan),
      restart_tccd env True ''before_tcc_db_cleanup'',
      delete_user_tcc_rows env True (pl_ids plan), delete_system_tcc_rows env True (pl_ids plan),
      restart_tccd env True ''after_tcc_db_cleanup'', verify_no_tcc_rows env True (pl_ids plan),
      reset_artifacts env True (pl_artifacts plan), remove_patch_state env True (pl_target plan),
      print_line AftercareLine]"
  then show "writes_only a"
    by (auto simp: reset_tccutil_all_def restart_tccd_def reset_artifacts_def reset_one_def [abs_def]
        remove_patch_state_def writes_only_prints writes_only_print verify_dry delete_dry)
qed

lemma print_plan_writes: "writes_only (print_plan plan)"
  unfolding print_plan_def by (rule writes_only_run_acts) (auto intro: writes_only_print)

text \<open>With no failing call, a dry run also returns nil.\<close>

definition succeeds :: "(reset_sys, 'e) act \<Rightarrow> bool" where
  "succeeds a \<longleftrightarrow> (\<forall>s. os_faults (rs_os s) = [] \<longrightarrow>
     fst (a s) = None \<and> os_faults (rs_os (snd (a s))) = [])"

lemma succeeds_print: "succeeds (print_line l)"
  by (simp add: succeeds_def print_line_def log_event_def)

lemma succeeds_run_acts: "(\<And>a. a \<in> set as \<Longrightarrow> succeeds a) \<Longrightarrow> succeeds (run_acts as)"
proof (induction as)
  case (Cons a as)
  then have "succeeds a" "succeeds (run_acts as)" by auto
  then show ?case
    by (auto simp: succeeds_def and_then_def split: prod.splits option.splits)
qed (simp add: succeeds_def)

lemma succeeds_prints: "succeeds (run_acts (map (\<lambda>x. print_line (f x)) xs))"
  by (rule succeeds_run_acts) (auto intro: succeeds_print)

lemma verify_dry_succeeds: "user_tcc_database (re_env env) = Some db \<Longrightarrow> succeeds (verify_no_tcc_rows env True ids)"
  by (auto simp: verify_no_tcc_rows_def verify_database_def
       intro!: succeeds_print succeeds_run_acts)

lemma execute_plan_dry_succeeds:
  assumes "user_tcc_database (re_env env) = Some db"
  shows "succeeds (execute_plan env True plan)"
  unfolding execute_plan_def
proof (rule succeeds_run_acts)
  fix a
  assume "a \<in> set [reset_tccutil_all env True (pl_tcc_ids plan),
      restart_tccd env True ''before_tcc_db_cleanup'',
      delete_user_tcc_rows env True (pl_ids plan), delete_system_tcc_rows env True (pl_ids plan),
      restart_tccd env True ''after_tcc_db_cleanup'', verify_no_tcc_rows env True (pl_ids plan),
      reset_artifacts env True (pl_artifacts plan), remove_patch_state env True (pl_target plan),
      print_line AftercareLine]"
  then show "succeeds a"
    using assms
    by (auto simp: reset_tccutil_all_def restart_tccd_def reset_artifacts_def reset_one_def [abs_def]
        remove_patch_state_def delete_user_tcc_rows_def delete_system_tcc_rows_def delete_tcc_rows_def
        succeeds_prints succeeds_print verify_dry_succeeds)
qed

lemma print_plan_succeeds: "succeeds (print_plan plan)"
  unfolding print_plan_def by (rule succeeds_run_acts) (auto intro: succeeds_print)

lemma default_mutate_dry:
  "default_mutate_bundle running closer tid True close fn s =
     (let (e, s') = fn s in (map_option Inr e, s'))"
  by (auto simp: default_mutate_bundle_def mutate_bundle_def bind_act_def
      split: prod.splits option.splits)

lemma hard_reset_dry:
  "hard_reset env running closer t scan True close =
    (case build_plan (re_env env) t scan of
       Inl e \<Rightarrow> (\<lambda>s. (Some (Inr (ScanFailed e)), s))
     | Inr plan \<Rightarrow>
         if pl_ids plan = [] then (\<lambda>s. (Some (Inr (NoBundleIds (tg_id t))), s))
         else if pl_tcc_ids plan = [] then (\<lambda>s. (Some (Inr (NoTccIds (tg_id t))), s))
         else (\<lambda>s. let (e, s') = run_acts [print_plan plan, execute_plan env True plan] s
                   in (map_option Inr e, s')))"
  by (rule ext)
     (auto simp: hard_reset_def default_mutate_dry bind_act_def and_then_def
       split: sum.split prod.splits option.splits)

text \<open>
  A dry run of a hard reset has no effect: whatever calls fail, and whatever the app
  guard, the commands and the globs would do, the file tree is untouched at every moment
  and nothing is run, removed, renamed or updated, only lines are written; and when no
  write fails, the plan has ids and the home directory is known, it returns nil.\<close>

theorem hard_reset_dry_run:
  assumes "hard_reset env running closer t scan True close s = (r, s')"
  shows "os_fs (rs_os s') = os_fs (rs_os s) \<and> os_trail (rs_os s') = os_trail (rs_os s) \<and>
    (\<exists>ls. rs_log s' = rs_log s @ map Wrote ls) \<and>
    (os_faults (rs_os s) = [] \<and> user_home_dir (re_env env) \<noteq> None \<and>
       (\<exists>plan. build_plan (re_env env) t scan = Inr plan \<and> pl_ids plan \<noteq> [] \<and> pl_tcc_ids plan \<noteq> []) \<longrightarrow>
     r = None)"
proof -
  have w: "writes_only (run_acts [print_plan plan, execute_plan env True plan])" for plan
    by (rule writes_only_run_acts) (auto intro: print_plan_writes execute_plan_dry)
  have ok: "succeeds (run_acts [print_plan plan, execute_plan env True plan])"
    if home: "user_home_dir (re_env env) \<noteq> None" for plan
  proof -
    obtain db where "user_tcc_database (re_env env) = Some db"
      using home by (cases "user_home_dir (re_env env)") (simp_all add: user_tcc_database_def)
    then show ?thesis
      by (intro succeeds_run_acts) (auto intro: print_plan_succeeds execute_plan_dry_succeeds)
  qed
  have all_wrote: "\<exists>ls. es = map Wrote ls" if "list_all only_written es" for es
    using that by (induction es) (auto simp: only_written_def intro: exI [of _ "_ # _"])
  show ?thesis
  proof (cases "\<exists>plan. build_plan (re_env env) t scan = Inr plan \<and> pl_ids plan \<noteq> [] \<and> pl_tcc_ids plan \<noteq> []")
    case False
    with assms have "s' = s" by (auto simp: hard_reset_dry split: sum.splits if_splits)
    with False show ?thesis by (auto intro: exI [of _ "[]"])
  next
    case True
    then obtain plan where plan: "build_plan (re_env env) t scan = Inr plan" "pl_ids plan \<noteq> []"
      "pl_tcc_ids plan \<noteq> []" by blast
    obtain e where e: "run_acts [print_plan plan, execute_plan env True plan] s = (e, s')" "r = map_option Inr e"
      using assms plan by (auto simp: hard_reset_dry simp del: run_acts.simps split: prod.splits)
    obtain es where "rs_log s' = rs_log s @ es" "list_all only_written es"
      using w [of plan] e(1) by (auto simp: writes_only_def elim: appendsE)
    moreover have "tree_of s' = tree_of s"
      using w [of plan] e(1) by (auto simp: writes_only_def dest: keepsD)
    moreover have "e = None" if "os_faults (rs_os s) = []" "user_home_dir (re_env env) \<noteq> None"
      using ok [OF that(2), of plan] that(1) e(1) by (auto simp: succeeds_def dest!: spec [of _ s])
    ultimately show ?thesis using e(2) all_wrote by (fastforce simp: tree_of_def)
  qed
qed

section \<open>Nothing is removed before the databases were counted\<close>

fun destructive :: "reset_event \<Rightarrow> bool" where
  "destructive (Wrote l) = False"
| "destructive (Ran program args stdin) =
     (program = ''/usr/bin/sudo'' \<and> take 1 args = [''/bin/rm''])"
| "destructive (RemovedAll p) = True"
| "destructive (Renamed a b) = True"
| "destructive (UpdatedState p) = True"

definition counted :: "reset_event \<Rightarrow> bool" where
  "counted ev \<longleftrightarrow> (\<exists>label n. ev = Wrote (RowsRemaining label n))"

definition preparing :: "reset_event \<Rightarrow> bool" where
  "preparing ev \<longleftrightarrow> \<not> destructive ev \<and> \<not> counted ev"

lemma log_event_logs: "P ev \<Longrightarrow> logs P a \<Longrightarrow> logs P (\<lambda>s. a (log_event ev s))"
proof (rule appendsI)
  fix s
  assume "P ev" "logs P a"
  moreover from this(2) obtain es where "rs_log (snd (a (log_event ev s))) = rs_log (log_event ev s) @ es"
    "list_all P es" unfolding appends_def by blast
  ultimately show "\<exists>es. rs_log (snd (a (log_event ev s))) = rs_log s @ es \<and> list_all P es"
    by (intro exI [of _ "ev # es"]) (simp add: log_event_def)
qed

lemma run_command_logs: "P (Ran name args stdin) \<Longrightarrow> logs P (run_command env name args stdin)"
  unfolding run_command_def [abs_def] by (intro log_event_logs on_os_logs)

lemma remove_tree_logs: "P (RemovedAll p) \<Longrightarrow> logs P (remove_tree p)"
  unfolding remove_tree_def [abs_def] by (intro log_event_logs on_os_logs)

lemma rename_path_logs: "P (Renamed a b) \<Longrightarrow> logs P (rename_path a b)"
  unfolding rename_path_def [abs_def] by (intro log_event_logs on_os_logs)

lemmas event_logs = appends_intros on_os_logs print_line_logs run_command_logs remove_tree_logs
  rename_path_logs

lemma preparing_simps [simp]:
  "preparing (Wrote l) \<longleftrightarrow> (\<forall>label n. l \<noteq> RowsRemaining label n)"
  "preparing (Ran program args stdin) \<longleftrightarrow> \<not> destructive (Ran program args stdin)"
  "counted (Wrote l) \<longleftrightarrow> (\<exists>label n. l = RowsRemaining label n)"
  "\<not> counted (Ran program args stdin)" "\<not> counted (RemovedAll p)" "\<not> counted (Renamed a b)"
  "\<not> counted (UpdatedState p)"
  by (auto simp: preparing_def counted_def)

lemma tccutil_loop_logs: "logs preparing (tccutil_loop env ids n unreg)"
proof (induction ids arbitrary: n unreg)
  case Nil
  have "tccutil_loop env [] n unreg = (\<lambda>s. (Inr (n, unreg), s))" by simp
  then show ?case by (simp add: appends_return)
next
  case (Cons b bs)
  show ?case
    unfolding tccutil_loop.simps by (intro event_logs Cons) simp_all
qed

lemma preparations_log:
  "logs preparing (reset_tccutil_all env False ids)"
  "logs preparing (restart_tccd env False reason)"
  "logs preparing (delete_user_tcc_rows env False ids)"
  "logs preparing (delete_system_tcc_rows env False ids)"
  unfolding reset_tccutil_all_def restart_tccd_def delete_user_tcc_rows_def
    delete_system_tcc_rows_def delete_tcc_rows_def
  by (intro event_logs tccutil_loop_logs; simp)+

lemma removals_log:
  "logs (\<lambda>ev. \<not> counted ev) (reset_artifacts env False as)"
  "logs (\<lambda>ev. \<not> counted ev) (remove_patch_state env False tid)"
proof -
  have act: "logs (\<lambda>ev. \<not> counted ev) (reset_artifact env a p)" for a p
    unfolding reset_artifact_def remove_artifact_def remove_artifact_with_sudo_def
      restore_real_artifact_def when_present_def
    by (cases "at_action a"; simp only: artifact_action.case; intro event_logs; simp)
  have cand: "logs (\<lambda>ev. \<not> counted ev) (\<lambda>s. (f s, s))" for f :: "reset_sys \<Rightarrow> 'b"
    by (rule appendsI) simp
  have one: "logs (\<lambda>ev. \<not> counted ev) (reset_one env False a)" for a
    unfolding reset_one_def
  proof (intro event_logs cand)
    fix c :: "string list"
    show "logs (\<lambda>ev. \<not> counted ev) (case c of [] \<Rightarrow> print_line (ArtifactStatus a (at_path a) ''missing'')
        | p # ps \<Rightarrow> run_acts (map (reset_artifact env a) (p # ps)))"
      by (cases c) (auto intro!: event_logs act)
  qed simp
  show "logs (\<lambda>ev. \<not> counted ev) (reset_artifacts env False as)"
    unfolding reset_artifacts_def by (auto intro!: event_logs one)
  show "logs (\<lambda>ev. \<not> counted ev) (remove_patch_state env False tid)"
    unfolding remove_patch_state_def Let_def by (simp, intro event_logs log_event_logs; simp)
qed

lemma count_tcc_rows_logs: "logs preparing (count_tcc_rows env db ids)"
  unfolding count_tcc_rows_def by (intro event_logs; simp)

definition remaining :: "reset_event list \<Rightarrow> bool" where
  "remaining es \<longleftrightarrow> (\<exists>label n. Wrote (RowsRemaining label (Some n)) \<in> set es \<and> 0 < n)"

lemma remaining_append [simp]: "remaining (a @ b) \<longleftrightarrow> remaining a \<or> remaining b"
  by (auto simp: remaining_def)

lemma remaining_not_counted: "list_all (\<lambda>ev. \<not> counted ev) es \<Longrightarrow> \<not> remaining es"
  by (auto simp: remaining_def counted_def list_all_iff)

lemma preparing_split:
  assumes "list_all preparing es"
  shows "list_all (\<lambda>ev. \<not> destructive ev) es" "\<not> remaining es"
  using assms by (auto simp: preparing_def list_all_iff intro!: remaining_not_counted)

lemma verify_database_counts:
  assumes "verify_database env False ids label db s = (r, s')"
  obtains es where "rs_log s' = rs_log s @ es" "list_all (\<lambda>ev. \<not> destructive ev) es"
    "r = None \<Longrightarrow> \<exists>n. Wrote (RowsRemaining label n) \<in> set es" "remaining es \<Longrightarrow> r \<noteq> None"
proof -
  obtain count s1 where c: "count_tcc_rows env db ids s = (count, s1)" by fastforce
  from appendsE [OF count_tcc_rows_logs c]
  obtain es where es: "rs_log s1 = rs_log s @ es" "list_all preparing es" .
  obtain q s2 where pr: "print_line (RowsRemaining label count) s1 = (q, s2)" by fastforce
  have s2: "rs_log s2 = rs_log s1 @ (if q = None then [Wrote (RowsRemaining label count)] else [])"
    using pr by (auto simp: print_line_def log_event_def Let_def split: prod.splits fault.splits)
  have r: "s' = s2" "r = (case q of Some e \<Rightarrow> Some e
      | None \<Rightarrow> (case count of None \<Rightarrow> None | Some n \<Rightarrow> if n > 0 then Some (RowsRemain label n) else None))"
    using assms c pr
    by (auto simp: verify_database_def bind_act_def and_then_def split: option.splits if_splits)
  show thesis
  proof (rule that [of "es @ (if q = None then [Wrote (RowsRemaining label count)] else [])"])
    show "list_all (\<lambda>ev. \<not> destructive ev) (es @ (if q = None then [Wrote (RowsRemaining label count)] else []))"
      using preparing_split [OF es(2)] by simp
    show "r = None \<Longrightarrow> \<exists>n. Wrote (RowsRemaining label n) \<in>
        set (es @ (if q = None then [Wrote (RowsRemaining label count)] else []))"
      using r by (auto split: option.splits)
    show "remaining (es @ (if q = None then [Wrote (RowsRemaining label count)] else [])) \<Longrightarrow> r \<noteq> None"
      using preparing_split [OF es(2)] r(2) by (auto simp: remaining_def split: option.splits if_splits)
  qed (use es(1) s2 r(1) in simp)
qed

lemma verify_counts:
  assumes "verify_no_tcc_rows env False ids s = (r, s')"
  obtains es where "rs_log s' = rs_log s @ es" "list_all (\<lambda>ev. \<not> destructive ev) es"
    "r = None \<Longrightarrow> (\<exists>n. Wrote (RowsRemaining ''user'' n) \<in> set es) \<and>
       (\<exists>n. Wrote (RowsRemaining ''system'' n) \<in> set es)" "remaining es \<Longrightarrow> r \<noteq> None"
proof (cases "user_tcc_database (re_env env)")
  case None
  with assms show thesis by (intro that [of "[]"]) (auto simp: verify_no_tcc_rows_def remaining_def)
next
  case (Some db)
  obtain r1 s1 where v1: "verify_database env False ids ''user'' db s = (r1, s1)" by fastforce
  obtain a where a: "rs_log s1 = rs_log s @ a" "list_all (\<lambda>ev. \<not> destructive ev) a"
    "r1 = None \<Longrightarrow> \<exists>n. Wrote (RowsRemaining ''user'' n) \<in> set a" "remaining a \<Longrightarrow> r1 \<noteq> None"
    using verify_database_counts [OF v1] by blast
  show thesis
  proof (cases r1)
    case (Some e)
    with assms v1 \<open>user_tcc_database (re_env env) = Some db\<close> have "r = Some e" "s' = s1"
      by (auto simp: verify_no_tcc_rows_def and_then_def)
    with a show thesis by (intro that [of a]) auto
  next
    case None
    obtain r2 s2 where v2: "verify_database env False ids ''system'' system_tcc_database s1 = (r2, s2)"
      by fastforce
    with None assms v1 \<open>user_tcc_database (re_env env) = Some db\<close> have r: "r = r2" "s' = s2"
      by (auto simp: verify_no_tcc_rows_def and_then_def split: prod.splits option.splits)
    obtain b where b: "rs_log s2 = rs_log s1 @ b" "list_all (\<lambda>ev. \<not> destructive ev) b"
      "r2 = None \<Longrightarrow> \<exists>n. Wrote (RowsRemaining ''system'' n) \<in> set b" "remaining b \<Longrightarrow> r2 \<noteq> None"
      using verify_database_counts [OF v2] by blast
    from a b r None show thesis by (intro that [of "a @ b"]) auto
  qed
qed

text \<open>The three phases of a real run: preparations, verification, removals.\<close>

definition preparations :: "reset_env \<Rightarrow> reset_plan \<Rightarrow> reset_act" where
  "preparations env plan = run_acts
     [reset_tccutil_all env False (pl_tcc_ids plan), restart_tccd env False ''before_tcc_db_cleanup'',
      delete_user_tcc_rows env False (pl_ids plan), delete_system_tcc_rows env False (pl_ids plan),
      restart_tccd env False ''after_tcc_db_cleanup'']"

definition removals :: "reset_env \<Rightarrow> reset_plan \<Rightarrow> reset_act" where
  "removals env plan = run_acts
     [reset_artifacts env False (pl_artifacts plan), remove_patch_state env False (pl_target plan),
      print_line AftercareLine]"

lemma execute_plan_phases:
  "execute_plan env False plan =
     and_then (preparations env plan)
       (and_then (verify_no_tcc_rows env False (pl_ids plan)) (removals env plan))"
proof (rule ext)
  fix s
  have "execute_plan env False plan s = run_acts
     ([reset_tccutil_all env False (pl_tcc_ids plan), restart_tccd env False ''before_tcc_db_cleanup'',
       delete_user_tcc_rows env False (pl_ids plan), delete_system_tcc_rows env False (pl_ids plan),
       restart_tccd env False ''after_tcc_db_cleanup''] @
      verify_no_tcc_rows env False (pl_ids plan) #
      [reset_artifacts env False (pl_artifacts plan), remove_patch_state env False (pl_target plan),
       print_line AftercareLine]) s"
    by (simp add: execute_plan_def)
  also have "\<dots> = and_then (preparations env plan)
       (and_then (verify_no_tcc_rows env False (pl_ids plan)) (removals env plan)) s"
    unfolding run_acts_append preparations_def removals_def
    by (simp add: and_then_def del: run_acts.simps(2) split: prod.splits option.splits)
       (simp add: and_then_def)
  finally show "execute_plan env False plan s = and_then (preparations env plan)
       (and_then (verify_no_tcc_rows env False (pl_ids plan)) (removals env plan)) s" .
qed

lemma preparations_logs: "logs preparing (preparations env plan)"
  unfolding preparations_def by (rule appends_run_acts) (auto intro: preparations_log)

lemma removals_logs: "logs (\<lambda>ev. \<not> counted ev) (removals env plan)"
  unfolding removals_def by (rule appends_run_acts) (auto intro: removals_log print_line_logs)

text \<open>What the log of a real run may look like; \<open>ok\<close>: the run returned nil.\<close>

definition counted_first :: "bool \<Rightarrow> reset_event list \<Rightarrow> bool" where
  "counted_first ok es \<longleftrightarrow> (\<exists>a b. es = a @ b \<and> list_all (\<lambda>ev. \<not> destructive ev) a \<and>
     (b \<noteq> [] \<longrightarrow> (\<exists>n. Wrote (RowsRemaining ''user'' n) \<in> set a) \<and>
               (\<exists>n. Wrote (RowsRemaining ''system'' n) \<in> set a)) \<and>
     (remaining es \<longrightarrow> \<not> ok \<and> b = []))"

lemma counted_first_safe:
  "list_all (\<lambda>ev. \<not> destructive ev) a \<Longrightarrow> (remaining a \<Longrightarrow> \<not> ok) \<Longrightarrow> counted_first ok a"
  unfolding counted_first_def by (intro exI [of _ a] exI [of _ "[]"]) simp

lemma execute_plan_counts:
  assumes "execute_plan env False plan s = (r, s')"
  shows "\<exists>es. rs_log s' = rs_log s @ es \<and> counted_first (r = None) es"
proof -
  obtain r1 s1 where p: "preparations env plan s = (r1, s1)" by fastforce
  obtain a where a: "rs_log s1 = rs_log s @ a" "list_all preparing a"
    using appendsE [OF preparations_logs p] .
  note na = preparing_split [OF a(2)]
  show ?thesis
  proof (cases r1)
    case (Some e)
    with assms p have "s' = s1" by (simp add: execute_plan_phases and_then_def)
    with a na show ?thesis
      by (intro exI [of _ a]) (auto intro: counted_first_safe)
  next
    case None
    obtain r2 s2 where v: "verify_no_tcc_rows env False (pl_ids plan) s1 = (r2, s2)" by fastforce
    from verify_counts [OF v] obtain b where b: "rs_log s2 = rs_log s1 @ b"
      "list_all (\<lambda>ev. \<not> destructive ev) b"
      "r2 = None \<Longrightarrow> (\<exists>n. Wrote (RowsRemaining ''user'' n) \<in> set b) \<and>
         (\<exists>n. Wrote (RowsRemaining ''system'' n) \<in> set b)" "remaining b \<Longrightarrow> r2 \<noteq> None" by blast
    show ?thesis
    proof (cases r2)
      case (Some e)
      with assms p v None have "r = Some e" "s' = s2"
        by (simp_all add: execute_plan_phases and_then_def)
      with a b na show ?thesis
        by (intro exI [of _ "a @ b"]) (auto intro: counted_first_safe)
    next
      case r2: None
      with assms p v None have "removals env plan s2 = (r, s')"
        by (simp add: execute_plan_phases and_then_def)
      from appendsE [OF removals_logs this] obtain c where
        c: "rs_log s' = rs_log s2 @ c" "list_all (\<lambda>ev. \<not> counted ev) c" .
      have "counted_first (r = None) ((a @ b) @ c)"
        unfolding counted_first_def
        using a b na r2 remaining_not_counted [OF c(2)] by (intro exI [of _ "a @ b"] exI [of _ c]) auto
      with a b c show ?thesis by (intro exI [of _ "(a @ b) @ c"]) auto
    qed
  qed
qed

lemma counted_first_written:
  assumes "list_all only_written es" "\<not> remaining es"
  shows "counted_first ok es"
  by (rule counted_first_safe) (use assms in \<open>auto simp: only_written_def list_all_iff\<close>)

lemma counted_first_prefix:
  assumes "list_all only_written es" "\<not> remaining es" "counted_first ok fs"
  shows "counted_first ok (es @ fs)"
proof -
  obtain a b where ab: "fs = a @ b" "list_all (\<lambda>ev. \<not> destructive ev) a"
    "b \<noteq> [] \<longrightarrow> (\<exists>n. Wrote (RowsRemaining ''user'' n) \<in> set a) \<and>
       (\<exists>n. Wrote (RowsRemaining ''system'' n) \<in> set a)" "remaining fs \<longrightarrow> \<not> ok \<and> b = []"
    using assms(3) unfolding counted_first_def by blast
  moreover have "list_all (\<lambda>ev. \<not> destructive ev) es"
    using assms(1) by (auto simp: list_all_iff only_written_def)
  ultimately show ?thesis
    using assms(2) unfolding counted_first_def
    by (intro exI [of _ "es @ a"] exI [of _ b]) auto
qed

lemma writes_no_counts:
  "list_all (\<lambda>ev. only_written ev \<and> \<not> counted ev) es \<Longrightarrow> list_all only_written es \<and> \<not> remaining es"
  by (auto simp: list_all_iff remaining_def counted_def)

lemma print_plan_logs: "logs (\<lambda>ev. only_written ev \<and> \<not> counted ev) (print_plan plan)"
  unfolding print_plan_def
  by (rule appends_run_acts) (auto intro!: print_line_logs simp: only_written_def)

lemma default_mutate_counts:
  assumes fn: "\<And>u q u'. fn u = (q, u') \<Longrightarrow> \<exists>es. rs_log u' = rs_log u @ es \<and> counted_first (q = None) es"
    and run: "default_mutate_bundle running closer tid False close fn s = (r, s')"
  shows "\<exists>es. rs_log s' = rs_log s @ es \<and> counted_first (r = None) es"
proof -
  have none: "counted_first ok []" for ok
    by (rule counted_first_safe) (simp_all add: remaining_def)
  have called: "\<exists>es. rs_log u' = rs_log u @ es \<and> counted_first (map_option Inr q = None) es"
    if "fn u = (q, u')" for u q u' using fn [OF that] by simp
  show ?thesis
  proof (cases close)
    case True
    obtain c s1 where c: "on_os closer s = (c, s1)" by fastforce
    then have log: "rs_log s1 = rs_log s" by (auto simp: on_os_def split: prod.splits)
    show ?thesis
    proof (cases c)
      case (Some e)
      with run True c have "s' = s1"
        by (auto simp: default_mutate_bundle_def mutate_bundle_def bind_act_def)
      with log show ?thesis by (intro exI [of _ "[]"] conjI none) simp
    next
      case None
      obtain q u where q: "fn s1 = (q, u)" by fastforce
      with run True c None have "r = map_option Inr q" "s' = u"
        by (auto simp: default_mutate_bundle_def mutate_bundle_def bind_act_def split: option.splits)
      with called [OF q] log show ?thesis by simp
    qed
  next
    case False
    obtain live s1 where c: "on_os running s = (live, s1)" by fastforce
    then have log: "rs_log s1 = rs_log s" by (auto simp: on_os_def split: prod.splits)
    show ?thesis
    proof (cases live)
      case True
      obtain q u where q: "print_line (DeferredLine tid) s1 = (q, u)" by fastforce
      have "logs (\<lambda>ev. only_written ev \<and> \<not> counted ev) (print_line (DeferredLine tid))"
        by (rule print_line_logs) (simp add: only_written_def)
      from appendsE [OF this q] obtain es where es: "rs_log u = rs_log s1 @ es"
        "list_all (\<lambda>ev. only_written ev \<and> \<not> counted ev) es" .
      from run False c True q have "s' = u"
        by (auto simp: default_mutate_bundle_def mutate_bundle_def bind_act_def)
      with es log writes_no_counts [OF es(2)] show ?thesis by (auto intro!: counted_first_written)
    next
      case live: False
      obtain q u where q: "fn s1 = (q, u)" by fastforce
      with run False c live have "r = map_option Inr q" "s' = u"
        by (auto simp: default_mutate_bundle_def mutate_bundle_def bind_act_def split: option.splits)
      with called [OF q] log show ?thesis by simp
    qed
  qed
qed


section \<open>A completed reset\<close>

lemma call_frames:
  "os_read p w = (r, w1) \<Longrightarrow> os_fs w1 q = os_fs w q"
  "os_create p w = (r', w1) \<Longrightarrow> q \<noteq> p \<Longrightarrow> os_fs w1 q = os_fs w q"
  "os_write p d part w = (r', w1) \<Longrightarrow> q \<noteq> p \<Longrightarrow> os_fs w1 q = os_fs w q"
  "os_touch w = (r', w1) \<Longrightarrow> os_fs w1 q = os_fs w q"
  "os_remove p w = (r', w1) \<Longrightarrow> q \<noteq> p \<Longrightarrow> os_fs w1 q = os_fs w q"
  using os_read_keeps [of p w r w1 q] os_create_keeps [of p w r' w1 q] os_write_keeps [of p d part w r' w1 q]
    os_touch_keeps [of w r' w1 q] os_remove_keeps [of p w r' w1 q]
  by (auto simp: keeps_file_def)

lemma os_mkdir_frame: "os_mkdir_all p w = (r, w1) \<Longrightarrow> q \<notin> set (ancestors p) \<Longrightarrow> os_fs w1 q = os_fs w q"
  by (cases rule: os_mkdir_all_effect) auto

lemma os_rename_frame:
  "os_rename a b w = (r, w1) \<Longrightarrow> \<not> prefix a q \<Longrightarrow> \<not> prefix b q \<Longrightarrow> os_fs w1 q = os_fs w q"
  by (cases rule: os_rename_effect) (auto simp: move_tree_def)

lemma save_frame:
  assumes "save_unlocked c team tmp part p st w = (r, w')"
    and "q \<notin> set (ancestors (butlast p))" "\<not> prefix p q" "\<not> prefix tmp q"
  shows "os_fs w' q = os_fs w q"
proof -
  from assms(4) have "q \<noteq> tmp" by auto
  note frames = call_frames [where q = q] os_mkdir_frame [OF _ assms(2)] os_rename_frame [OF _ assms(4,3)]
  show ?thesis
    using assms(1) \<open>q \<noteq> tmp\<close>
    by (simp add: save_unlocked_def discard_temp_def Let_def
        split: option.splits sum.splits prod.splits) (auto dest!: frames)
qed

lemma update_state_frame:
  assumes "update_state c team tmp part p m w = (r, w')"
    and "q \<notin> set (ancestors (butlast p))" "\<not> prefix p q" "\<not> prefix tmp q"
  shows "os_fs w' q = os_fs w q"
proof -
  obtain l w1 where l: "load_unlocked c p w = (l, w1)" by fastforce
  then have 1: "os_fs w1 q = os_fs w q"
    by (auto simp: load_unlocked_def split: prod.splits dest!: call_frames)
  have "os_fs w' q = os_fs w1 q"
    using assms l
    by (auto simp: update_state_def remove_unlocked_def split: sum.splits if_splits prod.splits
        dest!: save_frame [where q = q] call_frames(5) [where q = q])
  with 1 show ?thesis by simp
qed

text \<open>The entry is gone from the state file: any later load that does not fail shows it.\<close>

definition entry_gone :: "codec \<Rightarrow> fpath \<Rightarrow> string \<Rightarrow> filesys \<Rightarrow> bool" where
  "entry_gone c p tid fs \<longleftrightarrow> (\<forall>w. os_faults w = [] \<longrightarrow> os_fs w p = fs p \<longrightarrow>
     (\<exists>st. fst (load_unlocked c p w) = Inr st \<and> tid \<notin> fst ` set st))"

lemma delete_entry_gone:
  assumes "update_state c team tmp part p (\<lambda>st. Inr (AList.delete tid st)) w = (None, w')"
    and "p \<noteq> []" "p \<noteq> tmp" "\<And>s d. enc c s = Inr d \<Longrightarrow> dec c d = Inr s"
  shows "entry_gone c p tid (os_fs w')"
  unfolding entry_gone_def
proof (intro allI impI)
  fix w2 :: os
  assume w2: "os_faults w2 = []" "os_fs w2 p = os_fs w' p"
  from assms(1-3) show "\<exists>st. fst (load_unlocked c p w2) = Inr st \<and> tid \<notin> fst ` set st"
  proof (cases rule: update_state_outcome)
    case kept
    then have "os_fs w' p = None" by simp
    with w2 show ?thesis by (simp add: load_unlocked_def os_read_def)
  next
    case removed
    with w2 show ?thesis by (simp add: load_unlocked_def os_read_def)
  next
    case (saved st st' data u w1)
    then have "tid \<notin> fst ` set st'" by (auto simp: AList.delete_eq)
    with w2 saved(8) assms(4) [OF saved(6)] show ?thesis by (simp add: load_unlocked_def os_read_def)
  qed
qed

text \<open>Nothing is left at a path but, perhaps, a symbolic link that leads nowhere.\<close>

definition cleared :: "fpath \<Rightarrow> filesys \<Rightarrow> bool" where
  "cleared p fs \<longleftrightarrow> fs p = None \<or> (\<exists>l. fs p = Some (Symlink l))"

lemma print_line_fs: "print_line l s = (r, s') \<Longrightarrow> os_fs (rs_os s') = os_fs (rs_os s)"
  using keepsD [OF print_line_tree] by (fastforce simp: tree_of_def)

lemma remove_artifact_clears:
  assumes "remove_artifact env a p s = (None, s')"
  shows "cleared (path_of p) (os_fs (rs_os s'))"
proof -
  obtain st s1 where st: "on_os (os_stat env p) s = (st, s1)" by fastforce
  then have stat: "os_stat env p (rs_os s) = (st, rs_os s1)" by (auto simp: on_os_def split: prod.splits)
  show ?thesis
  proof (cases st)
    case (Inl e)
    with assms st show ?thesis by (simp add: remove_artifact_def when_present_def bind_act_def)
  next
    case (Inr there)
    show ?thesis
    proof (cases there)
      case False
      with assms st Inr have pr: "print_line (ArtifactStatus a p ''missing'') s1 = (None, s')"
        by (simp add: remove_artifact_def when_present_def bind_act_def)
      have "cleared (path_of p) (os_fs (rs_os s1))"
        using stat Inr False
        by (auto simp: os_stat_def cleared_def split: prod.splits fault.splits option.splits fnode.splits)
      with print_line_fs [OF pr] show ?thesis by simp
    next
      case True
      obtain q s2 where q: "remove_tree p s1 = (q, s2)" by fastforce
      with assms st Inr True have "q = None" and pr: "print_line (ArtifactStatus a p ''removed'') s2 = (None, s')"
        by (auto simp: remove_artifact_def when_present_def bind_act_def split: option.splits)
      with q have "os_remove_all (path_of p) (rs_os s1) = (None, rs_os s2)"
        by (auto simp: remove_tree_def on_os_def log_event_def split: prod.splits)
      then have "os_fs (rs_os s2) (path_of p) = None"
        by (cases rule: os_remove_all_effect) (auto simp: drop_tree_def)
      with print_line_fs [OF pr] show ?thesis by (simp add: cleared_def)
    qed
  qed
qed

lemma reset_artifacts_clear_app:
  assumes "reset_artifacts env False (build_artifacts e t) s = (None, s')"
  shows "cleared (path_of (tg_app_path t)) (os_fs (rs_os s'))"
proof -
  let ?a = "mk_artifact ''app_bundle'' Remove False (tg_app_path t)"
  obtain as where "build_artifacts e t = as @ [?a]" by (simp add: build_artifacts_def)
  with assms obtain s1 where "run_acts [reset_one env False ?a] s1 = (None, s')"
    by (auto simp: reset_artifacts_def run_acts_append and_then_None simp del: run_acts.simps)
  then have "remove_artifact env ?a (tg_app_path t) s1 = (None, s')"
    by (simp add: and_then_None reset_one_def bind_act_def artifact_candidates_def mk_artifact_def
        reset_artifact_def)
  then show ?thesis by (rule remove_artifact_clears)
qed

lemma removals_done:
  assumes "removals env plan s = (None, s')" "pl_artifacts plan = build_artifacts (re_env env) t"
    and "path_of (state_file (re_env env)) = sf" "sf \<noteq> []" "sf \<noteq> re_temp env"
    and "\<not> prefix (path_of (tg_app_path t)) (butlast sf)" "\<not> prefix sf (path_of (tg_app_path t))"
    and "\<not> prefix (re_temp env) (path_of (tg_app_path t))"
    and "\<And>st d. enc (re_codec env) st = Inr d \<Longrightarrow> dec (re_codec env) d = Inr st"
  shows "cleared (path_of (tg_app_path t)) (os_fs (rs_os s')) \<and>
    entry_gone (re_codec env) sf (pl_target plan) (os_fs (rs_os s'))"
proof -
  let ?app = "path_of (tg_app_path t)"
  obtain s1 s2 where 1: "reset_artifacts env False (pl_artifacts plan) s = (None, s1)"
    and 2: "remove_patch_state env False (pl_target plan) s1 = (None, s2)"
    and 3: "print_line AftercareLine s2 = (None, s')"
    using assms(1) by (auto simp: removals_def and_then_None)
  have gone: "cleared ?app (os_fs (rs_os s1))"
    using reset_artifacts_clear_app 1 assms(2) by metis
  obtain s3 where upd: "update_state (re_codec env) (re_team env) (re_temp env) (re_part env) sf
      (\<lambda>st. Inr (AList.delete (pl_target plan) st)) (rs_os s1) = (None, rs_os s3)"
    and pr: "print_line (StateRemovedLine (pl_target plan) (state_file (re_env env))) s3 = (None, s2)"
  proof -
    obtain r w where u: "update_state (re_codec env) (re_team env) (re_temp env) (re_part env) sf
      (\<lambda>st. Inr (AList.delete (pl_target plan) st)) (rs_os s1) = (r, w)" by fastforce
    have "r = None" "print_line (StateRemovedLine (pl_target plan) (state_file (re_env env)))
        ((log_event (UpdatedState (state_file (re_env env))) s1)\<lparr>rs_os := w\<rparr>) = (None, s2)"
      using 2 u assms(3)
      by (auto simp: remove_patch_state_def Let_def bind_act_def on_os_def log_event_def split: option.splits)
    with u show thesis
      by (intro that [of "(log_event (UpdatedState (state_file (re_env env))) s1)\<lparr>rs_os := w\<rparr>"]) simp_all
  qed
  have fs: "os_fs (rs_os s') = os_fs (rs_os s3)"
    using print_line_fs [OF 3] print_line_fs [OF pr] by simp
  have "os_fs (rs_os s3) ?app = os_fs (rs_os s1) ?app"
    by (rule update_state_frame [OF upd]) (use assms(6-8) in \<open>simp_all add: ancestors_iff\<close>)
  with gone fs delete_entry_gone [OF upd assms(4,5,9)] show ?thesis by (simp add: cleared_def)
qed

lemma default_mutate_completes:
  assumes "default_mutate_bundle running closer tid False close fn s = (None, s')"
  obtains (called) u where "fn u = (None, s')"
  | (deferred) es where "rs_log s' = rs_log s @ es" "Wrote AftercareLine \<notin> set es"
proof (cases close)
  case True
  obtain c s1 where c: "on_os closer s = (c, s1)" by fastforce
  with assms True have "c = None" "fn s1 = (None, s')"
    by (auto simp: default_mutate_bundle_def mutate_bundle_def bind_act_def
        split: option.splits prod.splits sum.splits guard_error.splits if_splits)
  then show thesis using called by blast
next
  case False
  obtain live s1 where c: "on_os running s = (live, s1)" by fastforce
  then have log: "rs_log s1 = rs_log s" by (auto simp: on_os_def split: prod.splits)
  show thesis
  proof (cases live)
    case live: False
    with assms False c have "fn s1 = (None, s')"
      by (auto simp: default_mutate_bundle_def mutate_bundle_def bind_act_def
          split: option.splits prod.splits sum.splits guard_error.splits if_splits)
    then show thesis using called by blast
  next
    case True
    obtain q u where q: "print_line (DeferredLine tid) s1 = (q, u)" by fastforce
    from appendsE [OF print_line_logs [of "\<lambda>ev. ev \<noteq> Wrote AftercareLine"] q] obtain es where
      "rs_log u = rs_log s1 @ es" "list_all (\<lambda>ev. ev \<noteq> Wrote AftercareLine) es" by auto
    moreover from assms False c True q have "s' = u"
      by (auto simp: default_mutate_bundle_def mutate_bundle_def bind_act_def)
    ultimately show thesis using log by (intro deferred) (auto simp: list_all_iff)
  qed
qed


section \<open>A concrete reset\<close>

definition reset_home :: go_env where
  "reset_home = \<lparr>env_home = ''/h'', env_xdg_config = [], env_xdg_state = [], env_xdg_cache = []\<rparr>"

definition reset_target :: target where
  "reset_target = demo_target\<lparr>tg_app_path := ''/A.app'', tg_bundle_id := ''x''\<rparr>"

definition reset_world :: reset_env where
  "reset_world = \<lparr>re_env = reset_home, re_run = (\<lambda>_ _ _ w. (([], True), w)), re_glob = (\<lambda>_ _. Some []),
     re_live = (\<lambda>_ _. False), re_codec = demo_codec, re_team = [], re_temp = [''t''], re_part = []\<rparr>"

definition reset_start :: reset_sys where
  "reset_start = \<lparr>rs_os = \<lparr>os_fs = [[''A.app''] \<mapsto> Dir], os_faults = [], os_trail = []\<rparr>, rs_log = []\<rparr>"

definition demo_reset :: "bool \<Rightarrow> reset_failure option \<times> reset_sys" where
  "demo_reset dry = hard_reset reset_world (\<lambda>w. (False, w)) (\<lambda>w. (None, w)) reset_target (Inr []) dry True reset_start"

lemma demo_plan:
  "build_plan (re_env reset_world) reset_target (Inr [] :: (string, identity_entry list) result) = Inr \<lparr>pl_target = ''demo'', pl_app = ''/A.app'',
     pl_ids = [''x''], pl_tcc_ids = [''x''], pl_artifacts =
       [mk_artifact ''upgrade_staging'' Remove True ''/h/.local/state/clyde/upgrade-staging/demo-*'',
        mk_artifact ''app_bundle'' Remove False ''/A.app'']\<rparr>"
  by code_simp

lemma demo_paths:
  "user_tcc_database (re_env reset_world) = Some ''/h/Library/Application Support/com.apple.TCC/TCC.db''"
  "path_of ''/h/Library/Application Support/com.apple.TCC/TCC.db'' =
     [''h'', ''Library'', ''Application Support'', ''com.apple.TCC'', ''TCC.db'']"
  "path_of system_tcc_database = [''Library'', ''Application Support'', ''com.apple.TCC'', ''TCC.db'']"
  "path_of (state_file (re_env reset_world)) = [''h'', ''.local'', ''state'', ''clyde'', ''desktop-via-clyde-state.json'']"
  "path_of ''/A.app'' = [''A.app'']" "tg_app_path reset_target = ''/A.app''"
  by code_simp+

lemma demo_world:
  "re_run reset_world = (\<lambda>_ _ _ w. (([], True), w))" "re_glob reset_world = (\<lambda>_ _. Some [])"
  "re_codec reset_world = demo_codec" "re_temp reset_world = [''t'']"
  by (simp_all add: reset_world_def)

lemma demo_os_calls:
  "os_faults w = [] \<Longrightarrow> os_fs w (path_of p) = None \<Longrightarrow> os_stat reset_world p w = (Inr False, w)"
  "os_faults w = [] \<Longrightarrow> os_fs w (path_of p) = Some Dir \<Longrightarrow> os_stat reset_world p w = (Inr True, w)"
  "os_faults (rs_os s) = [] \<Longrightarrow> print_line l s = (None, log_event (Wrote l) s)"
  by (simp_all add: os_stat_def print_line_def)

lemma demo_reset_runs:
  "fst (demo_reset False) = None \<and> Wrote AftercareLine \<in> set (rs_log (snd (demo_reset False)))"
  by (simp add: demo_reset_def hard_reset_def demo_plan bind_act_def print_plan_def and_then_def demo_os_calls reset_start_def log_event_def
    default_mutate_bundle_def mutate_bundle_def on_os_def execute_plan_def reset_tccutil_all_def run_command_def demo_world
    restart_tccd_def delete_user_tcc_rows_def delete_system_tcc_rows_def delete_tcc_rows_def demo_paths
    verify_no_tcc_rows_def verify_database_def count_tcc_rows_def reset_artifacts_def reset_one_def artifact_candidates_def mk_artifact_def
    reset_artifact_def remove_artifact_def when_present_def remove_tree_def os_remove_all_def os_put_def drop_tree_def
    remove_patch_state_def update_state_def load_unlocked_def os_read_def remove_unlocked_def os_remove_def Let_def)
text \<open>The witnesses of the three properties of a run.\<close>

lemma hard_reset_dry_run_witness:
  "fst (demo_reset True) = None \<and> os_fs (rs_os (snd (demo_reset True))) = [[''A.app''] \<mapsto> Dir]"
proof -
  have "os_faults (rs_os reset_start) = []" "user_home_dir (re_env reset_world) \<noteq> None"
    by (simp_all add: reset_start_def reset_world_def reset_home_def user_home_dir_def)
  then show ?thesis
    using hard_reset_dry_run [of reset_world "\<lambda>w. (False, w)" "\<lambda>w. (None, w)" reset_target "Inr []" True
        reset_start "fst (demo_reset True)" "snd (demo_reset True)"] demo_plan
    by (simp add: demo_reset_def) (simp add: reset_start_def)
qed



end
