(* ===== verification/Tar_Extract.thy ===== *)
theory Tar_Extract
  imports Go_Path OS_Model
begin

text \<open>
  \<open>internal/upgrade/tauri.go\<close>: the extraction of an update archive. The paths the code
  computes are lexical strings; the operating system resolves them through the symbolic
  links the archive itself may have created, so this theory adds to \<open>OS_Model\<close> the walk of a
  path and the calls of \<open>os\<close> on a path still to be walked. Decompression and the tar format
  are the standard library's: an archive is the list of its entries and the error, if any,
  that ends it. Permission bits, and that two hard links share their content, are not
  modelled.
\<close>

section \<open>Lexical checks\<close>

datatype tar_error =
    TarEmptyPath
  | TarAbsolute string
  | TarEscapes string
  | LinkTargetMissing string
  | LinkOutside string string
  | TarOs os_error string
  | TarUnsupported string nat
  | TarRead string

definition path_within_root :: "string \<Rightarrow> string \<Rightarrow> bool" where
  "path_within_root dir target =
     (case go_rel (go_clean dir) (go_clean target) of
        None \<Rightarrow> False
      | Some elems \<Rightarrow> (let rel = render (False, elems) in
          if rel = ''.'' then True
          else rel \<noteq> ''..'' \<and> \<not> prefix ''../'' rel \<and> \<not> is_abs rel))"

definition safe_extract_path :: "string \<Rightarrow> string \<Rightarrow> (tar_error, string) result" where
  "safe_extract_path dir name =
     (let cleaned = go_clean name in
      if cleaned = ''.'' then Inl TarEmptyPath
      else if is_abs cleaned then Inl (TarAbsolute name)
      else if cleaned = ''..'' \<or> prefix ''../'' cleaned then Inl (TarEscapes name)
      else let target = go_join [dir, cleaned] in
        if path_within_root dir target then Inr target else Inl (TarEscapes name))"

definition safe_symlink_target :: "string \<Rightarrow> string \<Rightarrow> string \<Rightarrow> tar_error option" where
  "safe_symlink_target dir target link =
     (if link = [] then Some (LinkTargetMissing target)
      else if is_abs link then Some (LinkOutside target link)
      else if \<not> path_within_root dir (go_clean (go_join [go_dir target, link]))
      then Some (LinkOutside target link) else None)"

section \<open>Walking a path\<close>

text \<open>
  The kernel's walk from a directory along path components, at most \<open>n\<close> links deep: \<open>..\<close>
  leaves the directory reached, a link is replaced by its target, every component but the
  last must be a directory; the last may be missing, and if it is a link it is followed
  only when \<open>follow\<close> says so. The result is a resolved path.
\<close>

definition is_dir :: "filesys \<Rightarrow> fpath \<Rightarrow> bool" where
  "is_dir fs p \<longleftrightarrow> p = [] \<or> fs p = Some Dir"

definition link_components :: "string \<Rightarrow> string list" where
  "link_components t = filter (\<lambda>c. c \<noteq> [] \<and> c \<noteq> ''.'') (split_on slash t)"

function walk :: "nat \<Rightarrow> filesys \<Rightarrow> bool \<Rightarrow> fpath \<Rightarrow> string list \<Rightarrow> (os_error, fpath) result" where
  "walk n fs follow cur [] = Inr cur"
| "walk n fs follow cur (c # cs) =
     (if c = ''..'' then walk n fs follow (butlast cur) cs
      else case fs (cur @ [c]) of
        Some (Symlink t) \<Rightarrow>
          if cs = [] \<and> \<not> follow then Inr (cur @ [c])
          else if n = 0 then Inl EINVAL
          else walk (n - 1) fs follow (if is_abs t then [] else cur) (link_components t @ cs)
      | Some Dir \<Rightarrow> walk n fs follow (cur @ [c]) cs
      | Some (File _) \<Rightarrow> if cs = [] then Inr (cur @ [c]) else Inl ENOTDIR
      | None \<Rightarrow> if cs = [] then Inr (cur @ [c]) else Inl ENOENT)"
  by pat_completeness auto
termination
  by (relation "measures [\<lambda>(n, fs, f, cur, cs). n, \<lambda>(n, fs, f, cur, cs). length cs]") auto

definition max_links :: nat where "max_links = 32"

definition resolve :: "bool \<Rightarrow> string list \<Rightarrow> filesys \<Rightarrow> (os_error, fpath) result" where
  "resolve follow p fs = walk max_links fs follow [] p"

section \<open>Calls on a path still to be walked\<close>

text \<open>\<open>os.Stat\<close>: \<open>Inr True\<close> a directory, \<open>Inr False\<close> something else.\<close>

definition stat_at :: "string list \<Rightarrow> os \<Rightarrow> (os_error, bool) result \<times> os" where
  "stat_at p w = (let (f, w1) = next_fault w in
     case f of Fault _ \<Rightarrow> (Inl EIO, w1)
     | NoFault \<Rightarrow> (case resolve True p (os_fs w1) of
         Inl e \<Rightarrow> (Inl e, w1)
       | Inr q \<Rightarrow> if is_dir (os_fs w1) q then (Inr True, w1)
                  else if os_fs w1 q = None then (Inl ENOENT, w1) else (Inr False, w1)))"

text \<open>The last path of \<open>MkdirAll\<close>: \<open>mkdir\<close>, and on an error the look whether a directory is there.\<close>

definition mkdir_at :: "string list \<Rightarrow> os \<Rightarrow> os_error option \<times> os" where
  "mkdir_at p w = (let (f, w1) = next_fault w in
     case f of Fault _ \<Rightarrow> (Some EIO, w1)
     | NoFault \<Rightarrow> (case resolve False p (os_fs w1) of
         Inl e \<Rightarrow> (Some e, w1)
       | Inr q \<Rightarrow> if is_dir (os_fs w1) q then (None, w1)
                  else if os_fs w1 q \<noteq> None then (Some EEXIST, w1)
                  else (None, os_put ((os_fs w1)(q \<mapsto> Dir)) w1)))"

text \<open>\<open>os.MkdirAll\<close>, on the reversed components.\<close>

fun mkdir_all_at :: "string list \<Rightarrow> os \<Rightarrow> os_error option \<times> os" where
  "mkdir_all_at [] w = (None, w)"
| "mkdir_all_at (c # up) w =
     (case stat_at (rev (c # up)) w of
        (Inr True, w1) \<Rightarrow> (None, w1)
      | (Inr False, w1) \<Rightarrow> (Some ENOTDIR, w1)
      | (Inl _, w1) \<Rightarrow>
          (case mkdir_all_at up w1 of
             (Some e, w2) \<Rightarrow> (Some e, w2)
           | (None, w2) \<Rightarrow> mkdir_at (rev (c # up)) w2))"

text \<open>
  \<open>os.OpenFile\<close> with \<open>O_CREATE|O_TRUNC\<close> (or \<open>os.Create\<close>) and the copy of the data; a write that
  fails has written \<open>part\<close> of it. The close that follows can fail too.
\<close>

definition copy_to_at :: "string list \<Rightarrow> string \<Rightarrow> string \<Rightarrow> os \<Rightarrow> os_error option \<times> os" where
  "copy_to_at p data part w = (let (f, w1) = next_fault w in
     case f of Fault _ \<Rightarrow> (Some EIO, w1)
     | NoFault \<Rightarrow> (case resolve True p (os_fs w1) of
         Inl e \<Rightarrow> (Some e, w1)
       | Inr q \<Rightarrow> if is_dir (os_fs w1) q then (Some EEXIST, w1)
           else let w2 = os_put ((os_fs w1)(q \<mapsto> File [])) w1; (g, w3) = next_fault w2 in
             case g of Fault _ \<Rightarrow> (Some EIO, os_put ((os_fs w3)(q \<mapsto> File part)) w3)
             | NoFault \<Rightarrow> (None, os_put ((os_fs w3)(q \<mapsto> File data)) w3)))"

definition write_file_at :: "string list \<Rightarrow> string \<Rightarrow> string \<Rightarrow> os \<Rightarrow> os_error option \<times> os" where
  "write_file_at p data part w =
     (case copy_to_at p data part w of
        (Some e, w1) \<Rightarrow> (Some e, w1)
      | (None, w1) \<Rightarrow> (let (f, w2) = next_fault w1 in
          case f of Fault _ \<Rightarrow> (Some EIO, w2) | NoFault \<Rightarrow> (None, w2)))"

text \<open>Reading a whole file.\<close>

definition read_file_at :: "string list \<Rightarrow> os \<Rightarrow> (os_error, string) result \<times> os" where
  "read_file_at p w = (let (f, w1) = next_fault w in
     case f of Fault _ \<Rightarrow> (Inl EIO, w1)
     | NoFault \<Rightarrow> (case resolve True p (os_fs w1) of
         Inl e \<Rightarrow> (Inl e, w1)
       | Inr q \<Rightarrow> (case os_fs w1 q of
           Some (File d) \<Rightarrow> (Inr d, w1)
         | None \<Rightarrow> (Inl (if q = [] then EINVAL else ENOENT), w1)
         | _ \<Rightarrow> (Inl EINVAL, w1))))"

text \<open>
  \<open>os.Remove\<close>: a file, a link or an empty directory; missing is no error for the caller. A tree
  is a function, so whether a directory has an entry is the one question here that does not
  compute.
\<close>

definition has_entry :: "filesys \<Rightarrow> fpath \<Rightarrow> bool" where
  "has_entry fs q \<longleftrightarrow> (\<exists>c. fs (q @ [c]) \<noteq> None)"

declare has_entry_def [code del]

definition remove_at :: "string list \<Rightarrow> os \<Rightarrow> os_error option \<times> os" where
  "remove_at p w = (let (f, w1) = next_fault w in
     case f of Fault _ \<Rightarrow> (Some EIO, w1)
     | NoFault \<Rightarrow> (case resolve False p (os_fs w1) of
         Inl e \<Rightarrow> (if e = ENOENT then None else Some e, w1)
       | Inr q \<Rightarrow> if q = [] \<or> (os_fs w1 q = Some Dir \<and> has_entry (os_fs w1) q) then (Some EEXIST, w1)
                  else if os_fs w1 q = None then (None, w1)
                  else (None, os_put ((os_fs w1)(q := None)) w1)))"

definition symlink_at :: "string \<Rightarrow> string list \<Rightarrow> os \<Rightarrow> os_error option \<times> os" where
  "symlink_at link p w = (let (f, w1) = next_fault w in
     case f of Fault _ \<Rightarrow> (Some EIO, w1)
     | NoFault \<Rightarrow> (case resolve False p (os_fs w1) of
         Inl e \<Rightarrow> (Some e, w1)
       | Inr q \<Rightarrow> if q = [] \<or> os_fs w1 q \<noteq> None then (Some EEXIST, w1)
                  else (None, os_put ((os_fs w1)(q \<mapsto> Symlink link)) w1)))"

text \<open>\<open>os.Link\<close>: the old name is followed, a directory cannot be linked.\<close>

definition link_at :: "string list \<Rightarrow> string list \<Rightarrow> os \<Rightarrow> os_error option \<times> os" where
  "link_at old p w = (let (f, w1) = next_fault w in
     case f of Fault _ \<Rightarrow> (Some EIO, w1)
     | NoFault \<Rightarrow> (case (resolve True old (os_fs w1), resolve False p (os_fs w1)) of
         (Inr o1, Inr q) \<Rightarrow>
           if is_dir (os_fs w1) o1 then (Some EINVAL, w1)
           else if os_fs w1 o1 = None then (Some ENOENT, w1)
           else if q = [] \<or> os_fs w1 q \<noteq> None then (Some EEXIST, w1)
           else (None, os_put ((os_fs w1)(q := os_fs w1 o1)) w1)
       | (Inl e, _) \<Rightarrow> (Some e, w1)
       | (_, Inl e) \<Rightarrow> (Some e, w1)))"

section \<open>The extraction\<close>

datatype tar_type = TarDir | TarReg | TarSymlink | TarLink | TarOther nat

record tar_entry =
  te_name :: string
  te_type :: tar_type
  te_link :: string
  te_data :: string

definition path_components :: "string \<Rightarrow> string list" where
  "path_components p = snd (clean p)"

definition tar_os :: "string \<Rightarrow> os_error option \<times> os \<Rightarrow> tar_error option \<times> os" where
  "tar_os p r = (map_option (\<lambda>e. TarOs e p) (fst r), snd r)"

text \<open>\<open>os.MkdirAll(filepath.Dir(target))\<close> first, then the call.\<close>

definition after_parents :: "string \<Rightarrow> (os \<Rightarrow> os_error option \<times> os) \<Rightarrow> os \<Rightarrow> tar_error option \<times> os" where
  "after_parents target act w =
     (case mkdir_all_at (rev (path_components (go_dir target))) w of
        (Some e, w1) \<Rightarrow> (Some (TarOs e target), w1)
      | (None, w1) \<Rightarrow> tar_os target (act w1))"

definition write_tar_entry :: "string \<Rightarrow> string \<Rightarrow> tar_entry \<Rightarrow> os \<Rightarrow> tar_error option \<times> os" where
  "write_tar_entry dir part e w =
     (case safe_extract_path dir (te_name e) of
        Inl err \<Rightarrow> (Some err, w)
      | Inr target \<Rightarrow> (let p = path_components target in
          case te_type e of
            TarDir \<Rightarrow> tar_os target (mkdir_all_at (rev p) w)
          | TarReg \<Rightarrow> after_parents target (write_file_at p (te_data e) part) w
          | TarSymlink \<Rightarrow>
              (case safe_symlink_target dir target (te_link e) of
                 Some err \<Rightarrow> (Some err, w)
               | None \<Rightarrow> after_parents target (\<lambda>w. case remove_at p w of
                   (Some err, w1) \<Rightarrow> (Some err, w1)
                 | (None, w1) \<Rightarrow> symlink_at (te_link e) p w1) w)
          | TarLink \<Rightarrow>
              (case safe_extract_path dir (te_link e) of
                 Inl err \<Rightarrow> (Some err, w)
               | Inr old \<Rightarrow> after_parents target (link_at (path_components old) p) w)
          | TarOther n \<Rightarrow> (Some (TarUnsupported (te_name e) n), w)))"

fun write_tar_archive ::
  "string \<Rightarrow> string \<Rightarrow> tar_entry list \<Rightarrow> string option \<Rightarrow> os \<Rightarrow> tar_error option \<times> os" where
  "write_tar_archive dir part [] end_err w = (map_option TarRead end_err, w)"
| "write_tar_archive dir part (e # es) end_err w =
     (case write_tar_entry dir part e w of
        (Some err, w1) \<Rightarrow> (Some err, w1)
      | (None, w1) \<Rightarrow> write_tar_archive dir part es end_err w1)"

section \<open>The lexical checks confine\<close>

lemma clean_form_no_dot: "clean_form r xs \<Longrightarrow> x \<in> set xs \<Longrightarrow> x \<noteq> ''.''"
proof -
  assume "clean_form r xs" and x: "x \<in> set xs"
  then obtain n ys where "xs = replicate n ''..'' @ ys" and ys: "list_all proper_elem ys"
    by (auto simp: clean_form_def)
  with x have "x = ''..'' \<or> x \<in> set ys" by auto
  with ys show "x \<noteq> ''.''" by (auto simp: list_all_iff proper_elem_def)
qed

lemma relative_render:
  assumes "clean_form False elems"
  shows "(let rel = render (False, elems) in rel = ''.'' \<or>
      rel \<noteq> ''..'' \<and> \<not> prefix ''../'' rel \<and> \<not> is_abs rel) \<longleftrightarrow> elems = [] \<or> hd elems \<noteq> ''..''"
proof (cases elems)
  case (Cons x xs)
  have x: "x \<noteq> []" "slash \<notin> set x" using clean_form_elems [OF assms] Cons by auto
  have abs: "\<not> is_abs (join [slash] elems)"
    by (rule join_hd_not_slash) (use Cons clean_form_elems [OF assms] in auto)
  have split: "split_on slash (join [slash] elems) = elems"
    by (rule split_on_join) (use Cons clean_form_elems [OF assms] in auto)
  have up: "x = ''..'' \<longleftrightarrow> join [slash] elems = ''..'' \<or> prefix ''../'' (join [slash] elems)"
  proof
    assume "x = ''..''"
    with Cons show "join [slash] elems = ''..'' \<or> prefix ''../'' (join [slash] elems)"
      by (cases xs) (simp_all add: slash_def)
  next
    assume "join [slash] elems = ''..'' \<or> prefix ''../'' (join [slash] elems)"
    then have "\<exists>ys. split_on slash (join [slash] elems) = ''..'' # ys"
      by (auto simp: prefix_def slash_def)
    with split Cons show "x = ''..''" by simp
  qed
  have "x \<noteq> ''.''" using clean_form_no_dot [OF assms] Cons by auto
  then have "join [slash] elems \<noteq> ''.''"
    using split Cons by (auto simp: slash_def)
  with Cons abs up show ?thesis by (auto simp: Let_def)
qed simp

lemma relative_cleaned:
  assumes "go_clean name \<noteq> ''.''" "\<not> is_abs (go_clean name)" "go_clean name \<noteq> ''..''"
    "\<not> prefix ''../'' (go_clean name)"
  obtains xs where "go_clean name = join [slash] xs" "xs \<noteq> []" "list_all proper_elem xs"
proof -
  obtain r xs where c: "clean name = (r, xs)" by fastforce
  then have f: "clean_form r xs" using clean_has_form [of name] by simp
  have "\<not> r" using assms(2) c by (cases r) (auto simp: go_clean_def is_abs_def)
  with c have g: "go_clean name = render (False, xs)" by (simp add: go_clean_def)
  with f \<open>\<not> r\<close> assms have "xs = [] \<or> hd xs \<noteq> ''..''"
    using relative_render [of xs] by (simp add: Let_def)
  moreover have "xs \<noteq> []" using g assms(1) by auto
  moreover obtain n ys where ys: "xs = replicate n ''..'' @ ys" "list_all proper_elem ys"
    using f by (auto simp: clean_form_def)
  ultimately have "n = 0" by (cases n) auto
  with ys \<open>xs \<noteq> []\<close> g show thesis by (intro that [of xs]) auto
qed

lemma proper_join_split:
  assumes "list_all proper_elem xs" "xs \<noteq> []"
  shows "split_on slash (join [slash] xs) = xs"
  using assms by (intro split_on_join) (auto simp: list_all_iff proper_elem_def)

text \<open>An accepted name is a path strictly below the extraction root.\<close>

lemma safe_extract_path_below:
  assumes "safe_extract_path dir name = Inr target" "is_abs dir"
  obtains xs where "xs \<noteq> []" "list_all proper_elem xs" "path_components target = path_components dir @ xs"
    "is_abs target" "target = go_clean target"
proof -
  from assms(1) have c: "go_clean name \<noteq> ''.''" "\<not> is_abs (go_clean name)" "go_clean name \<noteq> ''..''"
    "\<not> prefix ''../'' (go_clean name)" and t: "target = go_join [dir, go_clean name]"
    by (auto simp: safe_extract_path_def Let_def split: if_splits)
  from relative_cleaned [OF c] obtain xs where xs: "go_clean name = join [slash] xs" "xs \<noteq> []"
    "list_all proper_elem xs" .
  from assms(2) have "dir \<noteq> []" by (auto simp: is_abs_def)
  then have j: "target = go_clean (dir @ slash # go_clean name)" by (simp add: t go_join_def)
  have "clean (dir @ slash # go_clean name) = (True, path_components dir @ xs)"
    using clean_join_rooted [OF assms(2), of "go_clean name"] xs
    by (simp add: proper_join_split clean_elems_proper path_components_def)
  then have r: "target = render (True, path_components dir @ xs)"
    and f: "clean_form True (path_components dir @ xs)"
    using j clean_has_form [of "dir @ slash # go_clean name"] by (simp_all add: go_clean_def)
  with clean_render [OF f] have "path_components target = path_components dir @ xs" "is_abs target"
    by (simp_all add: path_components_def is_abs_def)
  moreover have "target = go_clean target" using j by simp
  ultimately show thesis using that xs by blast
qed

lemma path_components_clean: "path_components (go_clean p) = path_components p"
  using clean_render [OF clean_has_form [of p]] by (simp add: path_components_def go_clean_def)

lemma join_snoc: "join [slash] (ys @ [y]) = (if ys = [] then y else join [slash] ys @ slash # y)"
  by (induction ys rule: induct_list012) auto

lemma split_on_snoc: "c \<notin> set b \<Longrightarrow> split_on c (a @ c # b) = split_on c a @ [b]"
  by (induction a) (auto simp: split_on_single split: list.splits)

lemma go_dir_components:
  assumes "is_abs p" "p = go_clean p" "path_components p = ys @ [y]"
  shows "path_components (go_dir p) = ys"
proof -
  have f: "clean_form True (ys @ [y])" and p: "p = slash # join [slash] (ys @ [y])"
    using assms clean_has_form [of p] by (simp_all add: path_components_def go_clean_def clean_def)
  then have all: "list_all proper_elem (ys @ [y])" by (intro clean_form_rooted_no_up)
  then have y: "slash \<notin> set y" and ys: "\<forall>x\<in>set ys. slash \<notin> set x"
    by (auto simp: proper_elem_def list_all_iff)
  define d where "d = (if ys = [] then [slash] else slash # join [slash] ys @ [slash])"
  have "p = d @ y" by (simp add: p join_snoc d_def)
  moreover have "last d = slash" "d \<noteq> []" by (simp_all add: d_def)
  ultimately have "rev (dropWhile (\<lambda>c. c \<noteq> slash) (rev p)) = d"
    using y by (cases d rule: rev_cases) (auto simp: dropWhile_append)
  then have g: "go_dir p = go_clean d" by (simp add: go_dir_def)
  have "snd (clean d) = ys"
  proof (cases "ys = []")
    case False
    then have "split_on slash d = [] # ys @ [[]]"
      using ys by (simp add: d_def split_on_join split_on_snoc)
    moreover have "is_abs d" by (simp add: d_def is_abs_def False)
    ultimately show ?thesis
      using all by (simp add: clean_def clean_elems_append clean_elems_proper)
  qed (simp add: d_def clean_def is_abs_def)
  then show ?thesis by (simp add: g path_components_clean) (simp add: path_components_def)
qed

section \<open>An archive without links stays inside\<close>

text \<open>
  The extraction root and the directories above it are directories (its path is resolved),
  and no symbolic link stands below it.
\<close>

definition confined :: "fpath \<Rightarrow> filesys \<Rightarrow> bool" where
  "confined rc fs \<longleftrightarrow> ''..'' \<notin> set rc \<and> (\<forall>q. prefix q rc \<longrightarrow> is_dir fs q) \<and>
     (\<forall>q t. prefix rc q \<longrightarrow> fs q \<noteq> Some (Symlink t))"

definition along :: "fpath \<Rightarrow> fpath \<Rightarrow> bool" where
  "along rc p \<longleftrightarrow> ''..'' \<notin> set p \<and> (prefix p rc \<or> prefix rc p)"

lemma along_prefix: "along rc p \<Longrightarrow> prefix q p \<Longrightarrow> along rc q"
  unfolding along_def
  by (metis prefix_order.trans prefix_same_cases set_mono_prefix subsetD)

lemma confined_no_link: "confined rc fs \<Longrightarrow> along rc q \<Longrightarrow> q \<noteq> [] \<Longrightarrow> fs q \<noteq> Some (Symlink t)"
  by (auto simp: confined_def along_def is_dir_def)

lemma walk_plain:
  assumes "confined rc fs" "along rc (cur @ cs)"
  shows "walk n fs follow cur cs = Inr q \<Longrightarrow> q = cur @ cs"
  using assms
proof (induction n fs follow cur cs rule: walk.induct)
  case (2 n fs follow cur c cs)
  have along: "along rc (cur @ [c])"
    using along_prefix [OF 2(6), of "cur @ [c]"] by simp
  have up: "c \<noteq> ''..''" using 2(6) by (auto simp: along_def)
  have no_link: "fs (cur @ [c]) \<noteq> Some (Symlink t)" for t
    using confined_no_link [OF 2(5) along] by simp
  show ?case
  proof (cases "fs (cur @ [c])")
    case (Some x)
    with no_link up 2 show ?thesis by (cases x) (auto split: if_splits)
  qed (use 2(4) up in \<open>auto split: if_splits\<close>)
qed simp

lemma resolve_plain: "confined rc fs \<Longrightarrow> along rc p \<Longrightarrow> resolve follow p fs = Inr q \<Longrightarrow> q = p"
  unfolding resolve_def using walk_plain [of rc fs "[]" p] by simp

text \<open>From one state to the other nothing outside changes, at any moment.\<close>

definition inside :: "fpath \<Rightarrow> os \<Rightarrow> os \<Rightarrow> bool" where
  "inside rc w w' \<longleftrightarrow> (confined rc (os_fs w) \<longrightarrow> confined rc (os_fs w')) \<and>
     (\<exists>new. os_trail w' = new @ os_trail w \<and>
        (\<forall>fs\<in>set (os_fs w' # new). \<forall>q. \<not> prefix rc q \<longrightarrow> fs q = os_fs w q))"

lemma inside_refl [simp]: "inside rc w w"
  by (simp add: inside_def)

lemma inside_trans: "inside rc u v \<Longrightarrow> inside rc v w \<Longrightarrow> inside rc u w"
proof -
  assume uv: "inside rc u v" and vw: "inside rc v w"
  from uv obtain a where a: "os_trail v = a @ os_trail u"
    "\<forall>fs\<in>set (os_fs v # a). \<forall>q. \<not> prefix rc q \<longrightarrow> fs q = os_fs u q" unfolding inside_def by blast
  from vw obtain b where b: "os_trail w = b @ os_trail v"
    "\<forall>fs\<in>set (os_fs w # b). \<forall>q. \<not> prefix rc q \<longrightarrow> fs q = os_fs v q" unfolding inside_def by blast
  have "\<forall>fs\<in>set (os_fs w # b @ a). \<forall>q. \<not> prefix rc q \<longrightarrow> fs q = os_fs u q"
    using a(2) b(2) by auto
  with a(1) b(1) uv vw show ?thesis
    unfolding inside_def by (intro conjI exI [of _ "b @ a"]) auto
qed

lemma inside_fault: "next_fault w = (f, w1) \<Longrightarrow> inside rc w w1"
  by (auto simp: inside_def next_fault_def split: list.splits)

lemma inside_put:
  assumes "along rc p" "\<not> prefix p rc" "\<And>t. n \<noteq> Some (Symlink t)"
  shows "inside rc w (os_put ((os_fs w)(p := n)) w)"
proof -
  have "prefix rc p" using assms(1,2) by (auto simp: along_def)
  moreover have "confined rc ((os_fs w)(p := n))" if "confined rc (os_fs w)"
    using that assms(2,3) by (auto simp: confined_def is_dir_def)
  ultimately show ?thesis
    by (auto simp: inside_def intro: exI [of _ "[(os_fs w)(p := n)]"])
qed

lemma mkdir_at_inside:
  assumes "along rc p" "confined rc (os_fs w)" "mkdir_at p w = (r, w')"
  shows "inside rc w w'"
proof -
  obtain f w1 where f: "next_fault w = (f, w1)" by fastforce
  note w1 = inside_fault [OF f, of rc]
  then have c: "confined rc (os_fs w1)" using assms(2) by (simp add: inside_def)
  have "w' = w1 \<or> (\<exists>q. resolve False p (os_fs w1) = Inr q \<and> \<not> is_dir (os_fs w1) q \<and>
      w' = os_put ((os_fs w1)(q \<mapsto> Dir)) w1)"
    using assms(3) f unfolding mkdir_at_def
    by (cases f; cases "resolve False p (os_fs w1)") (simp_all split: if_splits)
  then consider "w' = w1" | q where "resolve False p (os_fs w1) = Inr q" "\<not> is_dir (os_fs w1) q"
      "w' = os_put ((os_fs w1)(q \<mapsto> Dir)) w1"
    by blast
  then show ?thesis
  proof cases
    case 2
    then have "q = p" "\<not> prefix p rc" using resolve_plain [OF c assms(1)] c by (auto simp: confined_def)
    with 2 inside_put [OF assms(1)] inside_trans [OF w1] show ?thesis by simp
  qed (use w1 in simp)
qed

lemma stat_at_inside: "stat_at p w = (r, w') \<Longrightarrow> inside rc w w'"
  by (auto simp: stat_at_def split: prod.splits fault.splits sum.splits if_splits
      dest: inside_fault)

lemma inside_confined: "inside rc w w' \<Longrightarrow> confined rc (os_fs w) \<Longrightarrow> confined rc (os_fs w')"
  by (simp add: inside_def)

lemma mkdir_all_at_inside:
  "along rc (rev up) \<Longrightarrow> confined rc (os_fs w) \<Longrightarrow> mkdir_all_at up w = (r, w') \<Longrightarrow> inside rc w w'"
proof (induction up arbitrary: w r w')
  case (Cons c up)
  obtain s w1 where s: "stat_at (rev (c # up)) w = (s, w1)" by fastforce
  obtain t w2 where t: "mkdir_all_at up w1 = (t, w2)" by fastforce
  note i1 = stat_at_inside [OF s, of rc]
  note c1 = inside_confined [OF i1 Cons.prems(2)]
  have "along rc (rev up)" using along_prefix [OF Cons.prems(1), of "rev up"] by simp
  note i2 = inside_trans [OF i1 Cons.IH [OF this c1 t]]
  note c2 = inside_confined [OF i2 Cons.prems(2)]
  from Cons.prems(3) s t consider "w' = w1" | "w' = w2" | "mkdir_at (rev (c # up)) w2 = (r, w')"
    by (cases s; cases t) (auto split: bool.splits)
  then show ?case
    using i1 i2 mkdir_at_inside [OF Cons.prems(1) c2] by cases (auto intro: inside_trans)
qed simp

lemma copy_to_at_inside:
  assumes "along rc p" "confined rc (os_fs w)" "copy_to_at p data part w = (r, w')"
  shows "inside rc w w'"
proof -
  obtain f w1 where f: "next_fault w = (f, w1)" by fastforce
  note i1 = inside_fault [OF f, of rc]
  note c1 = inside_confined [OF i1 assms(2)]
  show ?thesis
  proof (cases "f = NoFault \<and> (\<exists>q. resolve True p (os_fs w1) = Inr q \<and> \<not> is_dir (os_fs w1) q)")
    case True
    then obtain q where q: "f = NoFault" "resolve True p (os_fs w1) = Inr q" "\<not> is_dir (os_fs w1) q" by blast
    then have p: "q = p" "\<not> prefix p rc"
      using resolve_plain [OF c1 assms(1)] c1 by (auto simp: confined_def)
    note put = inside_put [OF assms(1) p(2), of "Some (File _)"]
    define w2 where "w2 = os_put ((os_fs w1)(p \<mapsto> File [])) w1"
    obtain g w3 where g: "next_fault w2 = (g, w3)" by fastforce
    have "inside rc w w2" unfolding w2_def by (rule inside_trans [OF i1 put]) simp
    then have "inside rc w w3" using inside_fault [OF g] by (rule inside_trans)
    then have "inside rc w (os_put ((os_fs w3)(p \<mapsto> File d)) w3)" for d
      by (rule inside_trans [OF _ put]) simp
    moreover have "\<exists>d. w' = os_put ((os_fs w3)(p \<mapsto> File d)) w3"
      using assms(3) f q p g unfolding copy_to_at_def Let_def w2_def
      by (cases g) auto
    ultimately show ?thesis by blast
  qed (use assms(3) f i1 in \<open>auto simp: copy_to_at_def split: fault.splits sum.splits if_splits\<close>)
qed

lemma write_file_at_inside:
  assumes "along rc p" "confined rc (os_fs w)" "write_file_at p data part w = (r, w')"
  shows "inside rc w w'"
proof -
  obtain e w1 where c: "copy_to_at p data part w = (e, w1)" by fastforce
  obtain f w2 where f: "next_fault w1 = (f, w2)" by fastforce
  have "w' = w1 \<or> w' = w2"
    using assms(3) c f by (cases e; cases f) (simp_all add: write_file_at_def)
  then show ?thesis
    using copy_to_at_inside [OF assms(1,2) c] inside_fault [OF f] by (auto intro: inside_trans)
qed

lemma link_at_inside:
  assumes "along rc old" "along rc p" "confined rc (os_fs w)" "link_at old p w = (r, w')"
  shows "inside rc w w'"
proof -
  obtain f w1 where f: "next_fault w = (f, w1)" by fastforce
  note i1 = inside_fault [OF f, of rc]
  note c1 = inside_confined [OF i1 assms(3)]
  have "w' = w1 \<or> (\<exists>o1 q. resolve True old (os_fs w1) = Inr o1 \<and> resolve False p (os_fs w1) = Inr q \<and>
      \<not> is_dir (os_fs w1) o1 \<and> q \<noteq> [] \<and> os_fs w1 q = None \<and>
      w' = os_put ((os_fs w1)(q := os_fs w1 o1)) w1)"
    using assms(4) f unfolding link_at_def
    by (cases f; cases "resolve True old (os_fs w1)"; cases "resolve False p (os_fs w1)")
      (simp_all split: if_splits)
  then consider "w' = w1"
    | o1 q where "resolve True old (os_fs w1) = Inr o1" "resolve False p (os_fs w1) = Inr q"
        "\<not> is_dir (os_fs w1) o1" "q \<noteq> []" "os_fs w1 q = None"
        "w' = os_put ((os_fs w1)(q := os_fs w1 o1)) w1"
    by blast
  then show ?thesis
  proof cases
    case 2
    then have q: "q = p" "o1 = old" using resolve_plain [OF c1] assms(1,2) by auto
    then have "\<not> prefix p rc" "old \<noteq> []"
      using 2 c1 by (auto simp: confined_def is_dir_def)
    moreover have "os_fs w1 old \<noteq> Some (Symlink t)" for t
      using confined_no_link [OF c1 assms(1) \<open>old \<noteq> []\<close>] .
    ultimately show ?thesis using 2 q inside_put [OF assms(2)] inside_trans [OF i1] by simp
  qed (use i1 in simp)
qed

lemma safe_extract_path_along:
  assumes "safe_extract_path dir name = Inr target" "is_abs dir" "''..'' \<notin> set (path_components dir)"
  shows "along (path_components dir) (path_components target)"
    and "along (path_components dir) (path_components (go_dir target))"
proof -
  obtain xs where xs: "xs \<noteq> []" "list_all proper_elem xs"
    "path_components target = path_components dir @ xs" "is_abs target" "target = go_clean target"
    using safe_extract_path_below [OF assms(1,2)] .
  then show a: "along (path_components dir) (path_components target)"
    using assms(3) by (auto simp: along_def list_all_iff proper_elem_def)
  obtain ys y where y: "xs = ys @ [y]" using xs(1) by (cases xs rule: rev_cases) auto
  with xs have "path_components (go_dir target) = path_components dir @ ys"
    by (intro go_dir_components) auto
  with a xs(3) y show "along (path_components dir) (path_components (go_dir target))"
    using along_prefix [of _ "path_components dir @ xs" "path_components dir @ ys"] by simp
qed

lemma after_parents_inside:
  assumes "along rc (path_components (go_dir target))" "confined rc (os_fs w)"
    "\<And>w r w'. confined rc (os_fs w) \<Longrightarrow> act w = (r, w') \<Longrightarrow> inside rc w w'"
  shows "after_parents target act w = (r, w') \<Longrightarrow> inside rc w w'"
proof -
  obtain e w1 where m: "mkdir_all_at (rev (path_components (go_dir target))) w = (e, w1)" by fastforce
  have i: "inside rc w w1" using mkdir_all_at_inside [OF _ assms(2) m] assms(1) by simp
  moreover have "inside rc w1 (snd (act w1))"
    using assms(3) [OF inside_confined [OF i assms(2)], of "fst (act w1)"] by simp
  ultimately show "after_parents target act w = (r, w') \<Longrightarrow> inside rc w w'"
    using m by (cases e) (auto simp: after_parents_def tar_os_def intro: inside_trans)
qed

lemma write_tar_entry_inside:
  assumes "is_abs dir" "te_type e \<noteq> TarSymlink" "confined (path_components dir) (os_fs w)"
    "write_tar_entry dir part e w = (r, w')"
  shows "inside (path_components dir) w w'"
proof (cases "safe_extract_path dir (te_name e)")
  case (Inr target)
  have up: "''..'' \<notin> set (path_components dir)" using assms(3) by (simp add: confined_def)
  note target = safe_extract_path_along [OF Inr assms(1) up]
  note parents = after_parents_inside [OF target(2) assms(3)]
  show ?thesis
  proof (cases "te_type e")
    case TarDir
    with assms(4) Inr mkdir_all_at_inside [OF _ assms(3), of "rev (path_components target)"] target(1)
    show ?thesis by (auto simp: write_tar_entry_def tar_os_def Let_def prod_eq_iff)
  next
    case TarReg
    with assms(4) Inr show ?thesis
      by (auto simp: write_tar_entry_def intro: parents write_file_at_inside [OF target(1)])
  next
    case TarLink
    show ?thesis
    proof (cases "safe_extract_path dir (te_link e)")
      case (Inr old)
      note old = safe_extract_path_along(1) [OF Inr assms(1) up]
      from assms(4) \<open>safe_extract_path dir (te_name e) = Inr target\<close> TarLink Inr show ?thesis
        by (auto simp: write_tar_entry_def intro: parents link_at_inside [OF old target(1)])
    qed (use assms(4) Inr TarLink in \<open>auto simp: write_tar_entry_def\<close>)
  qed (use assms Inr in \<open>auto simp: write_tar_entry_def\<close>)
qed (use assms(4) in \<open>auto simp: write_tar_entry_def\<close>)

lemma write_tar_archive_inside:
  assumes "is_abs dir"
  shows "list_all (\<lambda>e. te_type e \<noteq> TarSymlink) es \<Longrightarrow> confined (path_components dir) (os_fs w) \<Longrightarrow>
    write_tar_archive dir part es end_err w = (r, w') \<Longrightarrow> inside (path_components dir) w w'"
proof (induction es arbitrary: w)
  case (Cons e es)
  obtain r1 w1 where e: "write_tar_entry dir part e w = (r1, w1)" by fastforce
  have i: "inside (path_components dir) w w1"
    using write_tar_entry_inside [OF assms _ Cons.prems(2) e] Cons.prems(1) by simp
  show ?case
  proof (cases r1)
    case None
    with Cons.prems e i Cons.IH [OF _ inside_confined [OF i Cons.prems(2)]] show ?thesis
      by (auto intro: inside_trans)
  qed (use Cons.prems(3) e i in simp)
qed simp

section \<open>Containment\<close>

text \<open>C9.
  An update archive that holds no symbolic link, extracted into a directory whose own path is
  resolved and below which no link stands, changes nothing outside that directory: not when
  it succeeds, not when any call fails half way, and not in any state in between. Whatever
  the entries are named, hard links included.
\<close>
theorem tar_contained:
  assumes "is_abs dir" "confined (path_components dir) (os_fs w)"
    "list_all (\<lambda>e. te_type e \<noteq> TarSymlink) es"
    "write_tar_archive dir part es end_err w = (r, w')"
    "\<not> prefix (path_components dir) q"
  shows "os_fs w' q = os_fs w q \<and>
    (\<exists>new. os_trail w' = new @ os_trail w \<and> list_all (\<lambda>fs. fs q = os_fs w q) new)"
proof -
  have "inside (path_components dir) w w'"
    by (rule write_tar_archive_inside [OF assms(1,3,2,4)])
  with assms(5) show ?thesis by (auto simp: inside_def list_all_iff)
qed

definition demo_dirs :: "fpath list \<Rightarrow> os" where
  "demo_dirs ds = \<lparr>os_fs = (\<lambda>p. if p \<in> set ds then Some Dir else None), os_faults = [], os_trail = []\<rparr>"

definition demo_entry :: "string \<Rightarrow> tar_type \<Rightarrow> string \<Rightarrow> string \<Rightarrow> tar_entry" where
  "demo_entry n t l d = \<lparr>te_name = n, te_type = t, te_link = l, te_data = d\<rparr>"

definition demo_plain_archive :: "tar_entry list" where
  "demo_plain_archive = [demo_entry ''a/b'' TarReg [] ''x'', demo_entry ''a/../c'' TarLink ''a/b'' [],
     demo_entry ''../evil'' TarReg [] ''y'']"

theorem tar_contained_witness:
  "os_fs (snd (write_tar_archive ''/s/e'' [] demo_plain_archive None
     (demo_dirs [[''s''], [''s'', ''e'']]))) [''s'', ''evil''] = None"
proof -
  define w where "w = demo_dirs [[''s''], [''s'', ''e'']]"
  define res where "res = write_tar_archive ''/s/e'' [] demo_plain_archive None w"
  have pc: "path_components ''/s/e'' = [''s'', ''e'']" by code_simp
  have "confined [''s'', ''e''] (os_fs w)"
    by (auto simp: w_def confined_def demo_dirs_def is_dir_def prefix_Cons)
  moreover have "is_abs ''/s/e''" by code_simp
  moreover have "list_all (\<lambda>e. te_type e \<noteq> TarSymlink) demo_plain_archive" by code_simp
  moreover have "write_tar_archive ''/s/e'' [] demo_plain_archive None w = (fst res, snd res)"
    by (simp add: res_def)
  ultimately have "os_fs (snd res) [''s'', ''evil''] = os_fs w [''s'', ''evil'']"
    using tar_contained [of "''/s/e''" w demo_plain_archive "[]" None "fst res" "snd res" "[''s'', ''evil'']"]
    by (simp add: pc)
  then show ?thesis by (simp add: res_def w_def demo_dirs_def)
qed

text \<open>
  The check of a link is lexical: it resolves the target against the link's own path as
  written, not against the directory the path reaches. Two accepted links, the second below
  the first, end outside the root, and a third entry is written through them.
\<close>

definition demo_link_archive :: "tar_entry list" where
  "demo_link_archive = [demo_entry ''a/b/l'' TarSymlink ''../..'' [],
     demo_entry ''a/b/l/x'' TarSymlink ''../../..'' [], demo_entry ''x/evil'' TarReg [] ''y'']"


end
