(* ===== verification/Go_Base64.thy ===== *)
theory Go_Base64
  imports Go_Strings
begin

text \<open>
  \<open>encoding/base64\<close>'s \<open>StdEncoding\<close>: the decoder the program calls, which skips line breaks and
  ignores the unused low bits of the last digit, and the encoder, which the program never
  calls and which says what the decoder is for.
\<close>

definition b64_alphabet :: string where
  "b64_alphabet = ''ABCDEFGHIJKLMNOPQRSTUVWXYZabcdefghijklmnopqrstuvwxyz0123456789+/''"

definition b64_char :: "nat \<Rightarrow> char" where
  "b64_char n = b64_alphabet ! n"

definition b64_value :: "char \<Rightarrow> nat option" where
  "b64_value c = (let n = (of_char c :: nat) in
     if 65 \<le> n \<and> n \<le> 90 then Some (n - 65)
     else if 97 \<le> n \<and> n \<le> 122 then Some (n - 71)
     else if 48 \<le> n \<and> n \<le> 57 then Some (n + 4)
     else if n = 43 then Some 62
     else if n = 47 then Some 63
     else None)"

definition b64_pad :: char where "b64_pad = CHR ''=''"

definition sextets :: "nat \<Rightarrow> nat \<Rightarrow> nat \<Rightarrow> nat \<Rightarrow> string" where
  "sextets x y z u =
     [char_of (x * 4 + y div 16), char_of (y mod 16 * 16 + z div 4), char_of (z mod 4 * 64 + u)]"

text \<open>
  One quantum of four digits after the other; padding ends the input, and a quantum cut
  short is corrupt.
\<close>

fun b64_quanta :: "string \<Rightarrow> string option" where
  "b64_quanta [] = Some []"
| "b64_quanta (a # b # c # d # rest) =
     (case (b64_value a, b64_value b) of
        (Some x, Some y) \<Rightarrow>
          (case b64_value c of
             Some z \<Rightarrow>
               (case b64_value d of
                  Some u \<Rightarrow> map_option (\<lambda>bs. sextets x y z u @ bs) (b64_quanta rest)
                | None \<Rightarrow> if d = b64_pad \<and> rest = [] then Some (take 2 (sextets x y z 0)) else None)
           | None \<Rightarrow> if c = b64_pad \<and> d = b64_pad \<and> rest = [] then Some (take 1 (sextets x y 0 0)) else None)
      | _ \<Rightarrow> None)"
| "b64_quanta _ = None"

definition line_break :: "char \<Rightarrow> bool" where
  "line_break c \<longleftrightarrow> c = CHR 0x0A \<or> c = CHR 0x0D"

definition b64_decode :: "string \<Rightarrow> string option" where
  "b64_decode s = b64_quanta (filter (\<lambda>c. \<not> line_break c) s)"

fun b64_encode :: "string \<Rightarrow> string" where
  "b64_encode [] = []"
| "b64_encode [a] = (let x = of_char a in [b64_char (x div 4), b64_char (x mod 4 * 16), b64_pad, b64_pad])"
| "b64_encode [a, b] = (let x = of_char a; y = of_char b in
     [b64_char (x div 4), b64_char (x mod 4 * 16 + y div 16), b64_char (y mod 16 * 4), b64_pad])"
| "b64_encode (a # b # c # rest) = (let x = of_char a; y = of_char b; z = of_char c in
     [b64_char (x div 4), b64_char (x mod 4 * 16 + y div 16), b64_char (y mod 16 * 4 + z div 64),
      b64_char (z mod 64)] @ b64_encode rest)"

section \<open>Digits\<close>

lemma alphabet_values: "map b64_value b64_alphabet = map Some [0..<64]"
  unfolding b64_alphabet_def b64_value_def Let_def by (simp add: upt_rec)

lemma alphabet_printable:
  "list_all (\<lambda>c. \<not> line_break c \<and> 33 \<le> (of_char c :: nat) \<and> (of_char c :: nat) \<le> 126) b64_alphabet"
  unfolding b64_alphabet_def line_break_def by simp

lemma b64_digit:
  assumes "n < 64"
  shows "b64_value (b64_char n) = Some n" "\<not> line_break (b64_char n)"
    "33 \<le> (of_char (b64_char n) :: nat)" "(of_char (b64_char n) :: nat) \<le> 126"
proof -
  have len: "length b64_alphabet = 64" by (simp add: b64_alphabet_def)
  with assms have "map b64_value b64_alphabet ! n = map Some [0..<64] ! n"
    by (simp only: alphabet_values)
  with len assms show "b64_value (b64_char n) = Some n" by (simp add: b64_char_def)
  from len assms have "b64_char n \<in> set b64_alphabet" by (simp add: b64_char_def)
  with alphabet_printable show "\<not> line_break (b64_char n)"
    "33 \<le> (of_char (b64_char n) :: nat)" "(of_char (b64_char n) :: nat) \<le> 126"
    unfolding list_all_iff by blast+
qed

lemma of_char_less: "(of_char c :: nat) < 256"
  using of_char_of [of "of_char c"] by (metis of_char_mod_256 mod_less_divisor zero_less_numeral)

lemma digit_bounds:
  shows "(of_char a :: nat) div 4 < 64"
    and "(of_char a :: nat) mod 4 * 16 + of_char b div 16 < 64"
    and "(of_char a :: nat) mod 16 * 4 + of_char b div 64 < 64"
    and "(of_char a :: nat) mod 4 * 16 < 64"
    and "(of_char a :: nat) mod 16 * 4 < 64"
proof -
  have d: "x div 4 < 64" "x div 16 < 16" "x div 64 < 4" if "x < 256" for x :: nat
    using that by linarith+
  have m: "x mod 4 < 4" "x mod 16 < 16" for x :: nat by simp_all
  note a = m [of "of_char a"] d [OF of_char_less, of a] and b = d [OF of_char_less, of b]
  show "(of_char a :: nat) div 4 < 64" by (rule a)
  show "(of_char a :: nat) mod 4 * 16 + of_char b div 16 < 64" using a(1) b(2) by linarith
  show "(of_char a :: nat) mod 16 * 4 + of_char b div 64 < 64" using a(2) b(3) by linarith
  show "(of_char a :: nat) mod 4 * 16 < 64" using a(1) by linarith
  show "(of_char a :: nat) mod 16 * 4 < 64" using a(2) by linarith
qed

section \<open>Encoding then decoding\<close>

lemma sextets_bytes:
  assumes "x < 256" "y < 256" "z < 256"
  shows "sextets (x div 4) (x mod 4 * 16 + y div 16) (y mod 16 * 4 + z div 64) (z mod 64)
     = [char_of x, char_of y, char_of (z :: nat)]"
proof -
  have "(x mod 4 * 16 + y div 16) div 16 = x mod 4" "(x mod 4 * 16 + y div 16) mod 16 = y div 16"
    "(y mod 16 * 4 + z div 64) div 4 = y mod 16" "(y mod 16 * 4 + z div 64) mod 4 = z div 64"
    using assms by auto
  then show ?thesis unfolding sextets_def by (simp add: mult.commute)
qed

lemma b64_pad_value: "b64_value b64_pad = None" "\<not> line_break b64_pad"
  by code_simp+

lemma b64_quanta_encode: "b64_quanta (b64_encode bs) = Some bs"
proof (induction bs rule: b64_encode.induct)
  case (2 a)
  from sextets_bytes [of "of_char a" 0 0] show ?case
    by (simp add: Let_def digit_bounds b64_digit b64_pad_value sextets_def of_char_less)
next
  case (3 a b)
  from sextets_bytes [of "of_char a" "of_char b" 0] show ?case
    by (simp add: Let_def digit_bounds b64_digit b64_pad_value sextets_def of_char_less)
next
  case (4 a b c rest)
  with sextets_bytes [of "of_char a" "of_char b" "of_char c"] show ?case
    by (simp add: Let_def digit_bounds b64_digit of_char_less)
qed simp

text \<open>The encoding is printable: no white space and no line break in it.\<close>

lemma b64_encode_printable:
  "c \<in> set (b64_encode bs) \<Longrightarrow> \<not> line_break c \<and> 33 \<le> (of_char c :: nat) \<and> (of_char c :: nat) \<le> 126"
proof (induction bs rule: b64_encode.induct)
  case (2 a)
  then show ?case
    by (auto simp: Let_def digit_bounds b64_digit b64_pad_value) (simp_all add: b64_pad_def)
next
  case (3 a b)
  then show ?case
    by (auto simp: Let_def digit_bounds b64_digit b64_pad_value) (simp_all add: b64_pad_def)
next
  case (4 a b c rest)
  then show ?case by (auto simp: Let_def digit_bounds b64_digit)
qed simp

lemma b64_decode_encode [simp]: "b64_decode (b64_encode bs) = Some bs"
proof -
  have "filter (\<lambda>c. \<not> line_break c) (b64_encode bs) = b64_encode bs"
    using b64_encode_printable by (simp add: filter_id_conv)
  then show ?thesis by (simp add: b64_decode_def b64_quanta_encode)
qed

section \<open>Trimming printable text\<close>

text \<open>
  No white space of Go contains a printable character, so trimming leaves printable text
  alone and never empties a string that has a printable character.
\<close>

definition printable :: "char \<Rightarrow> bool" where
  "printable c \<longleftrightarrow> 33 \<le> (of_char c :: nat) \<and> (of_char c :: nat) \<le> 126"

lemma go_spaces_unprintable:
  "list_all (\<lambda>t. t \<noteq> [] \<and> list_all (\<lambda>c. \<not> printable c) t) (go_spaces @ map rev go_spaces)"
  by code_simp

lemma b64_encode_text: "c \<in> set (b64_encode bs) \<Longrightarrow> \<not> line_break c \<and> printable c"
  using b64_encode_printable by (simp add: printable_def)

lemma trim_printable: "list_all printable s \<Longrightarrow> trim_space s = s"
proof -
  assume s: "list_all printable s"
  have "strip_front toks r = None"
    if toks: "set toks \<subseteq> set (go_spaces @ map rev go_spaces)" and r: "set r = set s" for toks r
  proof -
    have "\<not> prefix t r" if t: "t \<in> set toks" for t
    proof
      assume "prefix t r"
      then obtain u where u: "r = t @ u" by (auto simp: prefix_def)
      from t toks have "t \<in> set (go_spaces @ map rev go_spaces)" by blast
      with go_spaces_unprintable have t': "t \<noteq> [] \<and> list_all (\<lambda>c. \<not> printable c) t"
        unfolding list_all_iff [of _ "go_spaces @ map rev go_spaces"] by blast
      then have "hd t \<in> set t" by simp
      moreover have "hd t \<in> set s" using \<open>hd t \<in> set t\<close> u r by auto
      ultimately show False using s t' unfolding list_all_iff by blast
    qed
    then show ?thesis by (auto simp: strip_front_def find_None_iff split: option.splits)
  qed
  then show ?thesis by (intro trim_space_plain) auto
qed

lemma strip_all_parts: "\<exists>ts. set ts \<subseteq> set toks \<and> s = concat ts @ strip_all toks s"
proof (induction toks s rule: strip_all.induct)
  case (1 toks s)
  show ?case
  proof (cases "strip_front toks s")
    case None
    then show ?thesis by (intro exI [of _ "[]"]) (simp add: strip_all_fix)
  next
    case (Some r)
    then obtain t where "find (\<lambda>t. t \<noteq> [] \<and> prefix t s) toks = Some t" "r = drop (length t) s"
      by (auto simp: strip_front_def split: option.splits)
    then have t: "t \<in> set toks" "s = t @ r"
      by (auto simp: find_Some_iff prefix_def)
    from 1 [OF Some] obtain ts where "set ts \<subseteq> set toks" "r = concat ts @ strip_all toks r"
      by blast
    moreover have "strip_all toks s = strip_all toks r" using Some by (simp add: strip_all.simps [of toks s])
    ultimately show ?thesis using t by (intro exI [of _ "t # ts"]) auto
  qed
qed

lemma strip_all_keeps:
  assumes "set toks \<subseteq> set (go_spaces @ map rev go_spaces)" "c \<in> set s" "printable c"
  shows "c \<in> set (strip_all toks s)"
proof -
  obtain ts where ts: "set ts \<subseteq> set toks" "s = concat ts @ strip_all toks s"
    using strip_all_parts by blast
  have "c \<notin> set t" if "t \<in> set ts" for t
  proof -
    have "t \<in> set (go_spaces @ map rev go_spaces)" using that ts(1) assms(1) by blast
    with go_spaces_unprintable assms(3) show ?thesis unfolding list_all_iff by blast
  qed
  then have "c \<notin> set (concat ts)" by auto
  with ts(2) assms(2) show ?thesis by (metis UnE set_append)
qed

lemma trim_space_not_empty:
  assumes "c \<in> set s" "printable c"
  shows "trim_space s \<noteq> []"
proof -
  have "c \<in> set (trim_left s)" unfolding trim_left_def by (rule strip_all_keeps) (use assms in auto)
  then have "c \<in> set (strip_all (map rev go_spaces) (rev (trim_left s)))"
    by (intro strip_all_keeps) (use assms in auto)
  then have "c \<in> set (trim_space s)" by (simp add: trim_space_def trim_right_def)
  then show ?thesis by auto
qed

end
