(* ===== verification/Minisign.thy ===== *)
theory Minisign
  imports Go_Base64
begin

text \<open>
  \<open>internal/upgrade/minisign.go\<close>: the verification of a minisign signature file. A file and a
  key are byte strings; \<open>ed25519.Verify\<close> and \<open>blake2b.Sum512\<close> are the parameters \<open>vf\<close> and
  \<open>b2\<close>, of which only the documented lengths are used: a digest has 64 bytes, a signature
  of another length than 64 is refused, and a public key of another length than 32 panics,
  which is the value \<open>VerifyPanic\<close> here.
\<close>

section \<open>Lines\<close>

definition lf :: char where "lf = CHR 0x0A"
definition cr :: char where "cr = CHR 0x0D"

definition trim_right_cr :: "string \<Rightarrow> string" where
  "trim_right_cr s = rev (dropWhile (\<lambda>c. c = cr) (rev s))"

definition minisign_lines :: "string \<Rightarrow> string list" where
  "minisign_lines v =
     filter (\<lambda>l. trim_space l \<noteq> []) (map trim_right_cr (split_on lf (replace_all [cr, lf] [lf] v)))"

section \<open>Decoding\<close>

datatype minisign_error =
    KeyEmpty
  | KeyBase64
  | KeySize nat
  | KeyAlgorithm string
  | SigLines nat
  | SigBlobBase64
  | SigBlobSize nat
  | SigAlgorithm string
  | CommentPrefixMissing
  | GlobalBase64
  | GlobalSize nat
  | KeyIdMismatch
  | AlgorithmMismatch string string
  | PayloadUnverified
  | CommentUnverified
  | DigestSize nat
  | VerifyPanic

record minisign_signature =
  ms_blob :: string
  ms_key_id :: string
  ms_sig :: string
  ms_algorithm :: string
  ms_comment :: string
  ms_global :: string

definition legacy_algorithm :: string where "legacy_algorithm = ''Ed''"
definition prehash_algorithm :: string where "prehash_algorithm = ''ED''"
definition comment_prefix :: string where "comment_prefix = ''trusted comment: ''"

lemmas minisign_constants = legacy_algorithm_def prehash_algorithm_def comment_prefix_def

definition last_non_empty_line :: "string \<Rightarrow> (minisign_error, string) result" where
  "last_non_empty_line v = (let ls = minisign_lines v in
     if ls = [] then Inl KeyEmpty else Inr (trim_space (last ls)))"

definition parse_trusted_comment :: "string \<Rightarrow> (minisign_error, string) result" where
  "parse_trusted_comment line =
     (if \<not> prefix comment_prefix line then Inl CommentPrefixMissing
      else Inr (trim_prefix comment_prefix line))"

definition decode_public_key :: "string \<Rightarrow> (minisign_error, string \<times> string) result" where
  "decode_public_key v = rbind (last_non_empty_line v) (\<lambda>line.
     case b64_decode line of
       None \<Rightarrow> Inl KeyBase64
     | Some d \<Rightarrow>
         if length d \<noteq> 42 then Inl (KeySize (length d))
         else if take 2 d \<noteq> legacy_algorithm then Inl (KeyAlgorithm (take 2 d))
         else Inr (drop 10 d, take 8 (drop 2 d)))"

definition decode_signature :: "string \<Rightarrow> (minisign_error, minisign_signature) result" where
  "decode_signature file = (let ls = minisign_lines file in
     if length ls \<noteq> 4 then Inl (SigLines (length ls))
     else case b64_decode (trim_space (ls ! 1)) of
       None \<Rightarrow> Inl SigBlobBase64
     | Some blob \<Rightarrow>
         if length blob \<noteq> 74 then Inl (SigBlobSize (length blob))
         else if take 2 blob \<noteq> prehash_algorithm \<and> take 2 blob \<noteq> legacy_algorithm
         then Inl (SigAlgorithm (take 2 blob))
         else rbind (parse_trusted_comment (ls ! 2)) (\<lambda>comment.
           case b64_decode (trim_space (ls ! 3)) of
             None \<Rightarrow> Inl GlobalBase64
           | Some g \<Rightarrow>
               if length g \<noteq> 64 then Inl (GlobalSize (length g))
               else Inr \<lparr>ms_blob = blob, ms_key_id = take 8 (drop 2 blob), ms_sig = drop 10 blob,
                         ms_algorithm = take 2 blob, ms_comment = comment, ms_global = g\<rparr>))"

definition signature_algorithm :: "string \<Rightarrow> (minisign_error, string) result" where
  "signature_algorithm file = rbind (decode_signature file) (\<lambda>s. Inr (ms_algorithm s))"

section \<open>Verification\<close>

type_synonym ed25519 = "string \<Rightarrow> string \<Rightarrow> string \<Rightarrow> bool"

definition ed25519_verify :: "ed25519 \<Rightarrow> string \<Rightarrow> string \<Rightarrow> string \<Rightarrow> (minisign_error, bool) result" where
  "ed25519_verify vf pk msg sg =
     (if length pk \<noteq> 32 then Inl VerifyPanic else Inr (length sg = 64 \<and> vf pk msg sg))"

definition verify_message ::
  "ed25519 \<Rightarrow> string \<Rightarrow> string \<Rightarrow> string \<Rightarrow> string \<Rightarrow> (minisign_error, unit) result" where
  "verify_message vf key_line msg file expected =
     rbind (decode_public_key key_line) (\<lambda>(pk, key_id).
     rbind (decode_signature file) (\<lambda>s.
       if ms_key_id s \<noteq> key_id then Inl KeyIdMismatch
       else if ms_algorithm s \<noteq> expected then Inl (AlgorithmMismatch (ms_algorithm s) expected)
       else rbind (ed25519_verify vf pk msg (ms_sig s)) (\<lambda>ok.
         if \<not> ok then Inl PayloadUnverified
         else rbind (ed25519_verify vf pk (ms_sig s @ ms_comment s) (ms_global s)) (\<lambda>ok2.
           if \<not> ok2 then Inl CommentUnverified else Inr ()))))"

definition verify_digest ::
  "ed25519 \<Rightarrow> string \<Rightarrow> string \<Rightarrow> string \<Rightarrow> (minisign_error, unit) result" where
  "verify_digest vf key_line digest file =
     (if length digest \<noteq> 64 then Inl (DigestSize (length digest))
      else verify_message vf key_line digest file prehash_algorithm)"

definition verify_minisign ::
  "ed25519 \<Rightarrow> (string \<Rightarrow> string) \<Rightarrow> string \<Rightarrow> string \<Rightarrow> string \<Rightarrow> (minisign_error, unit) result" where
  "verify_minisign vf b2 key_line data file =
     rbind (signature_algorithm file) (\<lambda>alg.
       if alg = prehash_algorithm then verify_digest vf key_line (b2 data) file
       else if alg = legacy_algorithm then verify_message vf key_line data file legacy_algorithm
       else Inl (SigAlgorithm alg))"

section \<open>What a decoded value looks like\<close>

lemma decode_public_key_lengths:
  "decode_public_key v = Inr (pk, key_id) \<Longrightarrow> length pk = 32 \<and> length key_id = 8"
  by (auto simp: decode_public_key_def rbind_Inr_iff split: option.splits if_splits)

lemma decode_signature_fields:
  assumes "decode_signature file = Inr s"
  shows "length (ms_blob s) = 74" "ms_blob s = ms_algorithm s @ ms_key_id s @ ms_sig s"
    "length (ms_key_id s) = 8" "length (ms_sig s) = 64" "length (ms_global s) = 64"
    "ms_algorithm s \<in> {legacy_algorithm, prehash_algorithm}"
proof -
  from assms obtain blob where blob: "length blob = 74" "ms_blob s = blob"
    "ms_key_id s = take 8 (drop 2 blob)" "ms_sig s = drop 10 blob" "ms_algorithm s = take 2 blob"
    "length (ms_global s) = 64" "take 2 blob \<in> {legacy_algorithm, prehash_algorithm}"
    by (auto simp: decode_signature_def rbind_Inr_iff Let_def split: option.splits if_splits)
  then show "length (ms_blob s) = 74" "length (ms_key_id s) = 8" "length (ms_sig s) = 64"
    "length (ms_global s) = 64" "ms_algorithm s \<in> {legacy_algorithm, prehash_algorithm}"
    by simp_all
  have "drop 10 blob = drop 8 (drop 2 blob)" by simp
  with blob show "ms_blob s = ms_algorithm s @ ms_key_id s @ ms_sig s"
    by (metis append_take_drop_id)
qed

lemma algorithms_differ [simp]: "prehash_algorithm \<noteq> legacy_algorithm" "legacy_algorithm \<noteq> prehash_algorithm"
  by (simp_all add: minisign_constants)

lemma verify_message_iff:
  "verify_message vf key_line msg file expected = Inr () \<longleftrightarrow>
     (\<exists>pk s. decode_public_key key_line = Inr (pk, ms_key_id s) \<and> decode_signature file = Inr s \<and>
        ms_algorithm s = expected \<and> vf pk msg (ms_sig s) \<and> vf pk (ms_sig s @ ms_comment s) (ms_global s))"
  by (auto simp: verify_message_def rbind_Inr_iff ed25519_verify_def
      dest: decode_public_key_lengths decode_signature_fields(4,5) split: if_splits)

text \<open>The bytes the payload signature is checked against.\<close>

definition signed_bytes :: "(string \<Rightarrow> string) \<Rightarrow> string \<Rightarrow> string \<Rightarrow> string" where
  "signed_bytes b2 alg data = (if alg = prehash_algorithm then b2 data else data)"

lemma verify_minisign_iff:
  assumes "length (b2 data) = 64"
  shows "verify_minisign vf b2 key_line data file = Inr () \<longleftrightarrow>
     (\<exists>pk s. decode_public_key key_line = Inr (pk, ms_key_id s) \<and> decode_signature file = Inr s \<and>
        vf pk (signed_bytes b2 (ms_algorithm s) data) (ms_sig s) \<and>
        vf pk (ms_sig s @ ms_comment s) (ms_global s))"
proof (cases "decode_signature file")
  case (Inr s)
  then have "ms_algorithm s \<in> {legacy_algorithm, prehash_algorithm}"
    by (rule decode_signature_fields)
  with Inr assms show ?thesis
    by (auto simp: verify_minisign_def signature_algorithm_def verify_digest_def verify_message_iff
        signed_bytes_def)
qed (simp add: verify_minisign_def signature_algorithm_def)

section \<open>The file format\<close>

text \<open>What the minisign tool writes: four lines, ended by LF or CRLF.\<close>

definition render_lines :: "string \<Rightarrow> string list \<Rightarrow> string" where
  "render_lines eol ls = concat (map (\<lambda>l. l @ eol) ls)"

definition text_line :: "string \<Rightarrow> bool" where
  "text_line l \<longleftrightarrow> lf \<notin> set l \<and> cr \<notin> set l"

definition line_end :: "string \<Rightarrow> bool" where
  "line_end eol \<longleftrightarrow> eol = [lf] \<or> eol = [cr, lf]"

lemma lf_cr [simp]: "lf \<noteq> cr" "cr \<noteq> lf"
  by (simp_all add: lf_def cr_def)

lemma replace_all_line:
  assumes "text_line l" "line_end eol"
  shows "replace_all [cr, lf] [lf] (l @ eol @ rest) = l @ lf # replace_all [cr, lf] [lf] rest"
  using assms(1)
proof (induction l)
  case Nil
  then show ?case using assms(2) by (auto simp: line_end_def)
next
  case (Cons c l)
  then show ?case by (auto simp: text_line_def)
qed

lemma trim_right_cr_text: "text_line l \<Longrightarrow> trim_right_cr l = l"
  by (cases l rule: rev_cases) (auto simp: trim_right_cr_def text_line_def)

lemma minisign_lines_render:
  assumes "list_all (\<lambda>l. text_line l \<and> trim_space l \<noteq> []) ls" "line_end eol"
  shows "minisign_lines (render_lines eol ls) = ls"
proof -
  have "replace_all [cr, lf] [lf] (render_lines eol ls) = render_lines [lf] ls"
    using assms by (induction ls) (auto simp: render_lines_def replace_all_line)
  moreover have "split_on lf (render_lines [lf] ls) = ls @ [[]]"
    using assms(1) by (induction ls) (auto simp: render_lines_def split_on_append text_line_def)
  moreover have "map trim_right_cr ls = ls"
    using assms(1) by (intro map_idI) (auto simp: list_all_iff trim_right_cr_text)
  moreover have "filter (\<lambda>l. trim_space l \<noteq> []) ls = ls"
    using assms(1) by (simp add: filter_id_conv list_all_iff)
  ultimately show ?thesis by (simp add: minisign_lines_def trim_right_cr_def)
qed

lemma b64_text: "text_line (b64_encode bs)"
  using b64_encode_text [of _ bs] by (auto simp: text_line_def line_break_def lf_def cr_def)

lemma b64_trim [simp]: "trim_space (b64_encode bs) = b64_encode bs"
  using b64_encode_text [of _ bs] by (intro trim_printable) (auto simp: list_all_iff)

lemma b64_encode_Nil: "b64_encode bs = [] \<longleftrightarrow> bs = []"
  by (cases bs rule: b64_encode.cases) (auto simp: Let_def)

definition render_key :: "string \<Rightarrow> string \<Rightarrow> string \<Rightarrow> string \<Rightarrow> string" where
  "render_key eol comment key_id pk =
     render_lines eol [comment, b64_encode (legacy_algorithm @ key_id @ pk)]"

definition render_signature :: "string \<Rightarrow> string \<Rightarrow> minisign_signature \<Rightarrow> string" where
  "render_signature eol untrusted s =
     render_lines eol [untrusted, b64_encode (ms_blob s), comment_prefix @ ms_comment s,
       b64_encode (ms_global s)]"

definition signature_ok :: "minisign_signature \<Rightarrow> bool" where
  "signature_ok s \<longleftrightarrow> length (ms_key_id s) = 8 \<and> length (ms_sig s) = 64 \<and> length (ms_global s) = 64 \<and>
     ms_algorithm s \<in> {legacy_algorithm, prehash_algorithm} \<and>
     ms_blob s = ms_algorithm s @ ms_key_id s @ ms_sig s \<and> text_line (ms_comment s)"

definition comment_line :: "string \<Rightarrow> bool" where
  "comment_line l \<longleftrightarrow> text_line l \<and> trim_space l \<noteq> []"

lemma prefix_line:
  assumes "text_line c"
  shows "comment_line (comment_prefix @ c)"
proof -
  have "text_line (comment_prefix @ c)"
    using assms by (simp add: text_line_def comment_prefix_def lf_def cr_def)
  moreover have "CHR ''t'' \<in> set (comment_prefix @ c)" "printable CHR ''t''"
    by (simp_all add: comment_prefix_def printable_def)
  ultimately show ?thesis using trim_space_not_empty by (simp add: comment_line_def)
qed

lemma decode_render_signature:
  assumes "signature_ok s" "comment_line untrusted" "line_end eol"
  shows "decode_signature (render_signature eol untrusted s) = Inr s"
proof -
  have l: "length (ms_blob s) = 74"
    using assms(1) by (auto simp: signature_ok_def minisign_constants)
  have "minisign_lines (render_signature eol untrusted s) =
      [untrusted, b64_encode (ms_blob s), comment_prefix @ ms_comment s, b64_encode (ms_global s)]"
    unfolding render_signature_def
    using assms l prefix_line [of "ms_comment s"]
    by (intro minisign_lines_render) (auto simp: comment_line_def b64_text b64_encode_Nil signature_ok_def)
  moreover have "take 2 (ms_blob s) = ms_algorithm s" "drop 10 (ms_blob s) = ms_sig s"
    "take 8 (drop 2 (ms_blob s)) = ms_key_id s"
    using assms(1) by (auto simp: signature_ok_def minisign_constants)
  moreover have "ms_algorithm s = prehash_algorithm \<or> ms_algorithm s = legacy_algorithm"
    "length (ms_global s) = 64"
    using assms(1) by (auto simp: signature_ok_def)
  ultimately show ?thesis using l
    by (auto simp: decode_signature_def Let_def parse_trusted_comment_def trim_prefix_def
        numeral_2_eq_2 numeral_3_eq_3)
qed

lemma decode_render_key:
  assumes "comment_line c" "line_end eol" "length key_id = 8" "length pk = 32"
  shows "decode_public_key (render_key eol c key_id pk) = Inr (pk, key_id)"
proof -
  have "minisign_lines (render_key eol c key_id pk) = [c, b64_encode (legacy_algorithm @ key_id @ pk)]"
    unfolding render_key_def
    using assms by (intro minisign_lines_render) (auto simp: comment_line_def b64_text b64_encode_Nil)
  with assms(3,4) show ?thesis
    by (simp add: decode_public_key_def last_non_empty_line_def legacy_algorithm_def)
qed

section \<open>The decoder as the inverse of the format\<close>

text \<open>The interface the format rests on: what is written is what is read.\<close>

locale file_format =
  fixes writes :: "'x \<Rightarrow> string"
    and reads :: "string \<Rightarrow> ('e, 'x) result"
    and fine :: "'x \<Rightarrow> bool"
  assumes reads_writes: "fine x \<Longrightarrow> reads (writes x) = Inr x"
begin

lemma writes_inj: "fine x \<Longrightarrow> fine y \<Longrightarrow> writes x = writes y \<longleftrightarrow> x = y"
  using reads_writes by (metis Inr_inject)

end

lemma untrusted_comment_line: "comment_line ''untrusted comment: x''"
  using trim_space_not_empty [of "CHR ''x''" "''untrusted comment: x''"]
  by (simp add: comment_line_def text_line_def lf_def cr_def printable_def)

interpretation signature_format:
  file_format "render_signature [lf] ''untrusted comment: x''" decode_signature signature_ok
  by unfold_locales (simp add: decode_render_signature untrusted_comment_line line_end_def)

section \<open>Properties\<close>

text \<open>C15.
  A signature file in the format the minisign tool writes, with either line ending and
  whatever comments on one line, is read back to exactly the fields it was written from, and
  it is accepted for the archive's bytes and a public key in the tool's format exactly when
  the key ids agree, the signature verifies for the bytes (their BLAKE2b digest when the
  file says so) and the trusted comment's signature verifies for signature and comment
  together.
\<close>
theorem minisign_reads_format:
  assumes "signature_ok s" "comment_line untrusted" "comment_line c" "line_end eol" "line_end eol2"
    "length key_id = 8" "length pk = 32" "length (b2 data) = 64"
  shows "decode_signature (render_signature eol untrusted s) = Inr s \<and>
    (verify_minisign vf b2 (render_key eol2 c key_id pk) data (render_signature eol untrusted s) = Inr () \<longleftrightarrow>
       ms_key_id s = key_id \<and> vf pk (signed_bytes b2 (ms_algorithm s) data) (ms_sig s) \<and>
       vf pk (ms_sig s @ ms_comment s) (ms_global s))"
  using decode_render_signature [OF assms(1,2,4)] decode_render_key [OF assms(3,5,6,7)]
  by (auto simp: verify_minisign_iff [of b2 data, OF assms(8)])

definition demo_signature :: minisign_signature where
  "demo_signature = \<lparr>ms_blob = ''ED'' @ replicate 8 CHR ''k'' @ replicate 64 CHR ''s'',
     ms_key_id = replicate 8 CHR ''k'', ms_sig = replicate 64 CHR ''s'', ms_algorithm = ''ED'',
     ms_comment = ''c'', ms_global = replicate 64 CHR ''g''\<rparr>"

definition demo_verify :: ed25519 where
  "demo_verify pk msg sg \<longleftrightarrow> hd pk = CHR ''p'' \<and> (hd msg, hd sg) \<in> {(CHR ''d'', CHR ''s''), (CHR ''s'', CHR ''g'')}"

theorem minisign_reads_format_witness:
  "verify_minisign demo_verify (\<lambda>d. replicate 64 CHR ''d'')
     (render_key [lf] ''k'' (replicate 8 CHR ''k'') (replicate 32 CHR ''p'')) ''archive''
     (render_signature [cr, lf] ''u'' demo_signature) = Inr ()"
proof -
  have ok: "signature_ok demo_signature"
    by (simp add: signature_ok_def demo_signature_def minisign_constants text_line_def lf_def cr_def)
  have line: "comment_line [x]" if "x \<in> {CHR ''u'', CHR ''k''}" for x
    using that trim_space_not_empty [of x "[x]"]
    by (auto simp: comment_line_def text_line_def lf_def cr_def printable_def)
  show ?thesis
    using minisign_reads_format [of demo_signature "''u''" "''k''" "[cr, lf]" "[lf]" "replicate 8 CHR ''k''"
        "replicate 32 CHR ''p''" "\<lambda>d. replicate 64 CHR ''d''" "''archive''" demo_verify] ok
    by (simp add: line line_end_def)
      (simp add: demo_signature_def demo_verify_def signed_bytes_def minisign_constants)
qed

text \<open>
  No key and no file, however malformed, makes the verification panic: every slice is taken
  of a value whose length has been checked and the key handed to \<open>ed25519.Verify\<close> always has
  32 bytes.
\<close>
theorem minisign_no_panic: "verify_minisign vf b2 key_line data file \<noteq> Inl VerifyPanic"
proof -
  have "decode_public_key v \<noteq> Inl VerifyPanic" for v
    by (auto simp: decode_public_key_def last_non_empty_line_def rbind_Inl_iff Let_def
        split: option.splits if_splits)
  moreover have dec: "decode_signature v \<noteq> Inl VerifyPanic" for v
    by (auto simp: decode_signature_def parse_trusted_comment_def rbind_Inl_iff Let_def
        split: option.splits if_splits)
  ultimately have "verify_message vf k m f a \<noteq> Inl VerifyPanic" for k m f a
    by (auto simp: verify_message_def rbind_Inl_iff ed25519_verify_def
        dest: decode_public_key_lengths split: if_splits)
  with dec show ?thesis
    by (auto simp: verify_minisign_def verify_digest_def signature_algorithm_def rbind_Inl_iff
        split: if_splits)
qed

end
