(* ===== verification/Upgrade_Manifest.thy ===== *)
theory Upgrade_Manifest
  imports Targets Config_Paths Tar_Extract Minisign
begin

text \<open>
  The pure half of \<open>internal/upgrade\<close> (\<open>upgrade.go\<close>, \<open>tauri.go\<close>): which release of a manifest
  is taken, the URLs asked for, the names of archive and staging directory, and the messages.
  What \<open>json.Unmarshal\<close> and \<open>xml.Unmarshal\<close> make of a body is the argument of the parsers: the
  record the code decodes into, or the error text.
\<close>

section \<open>Manifests\<close>

record update_manifest =
  um_url :: string
  um_name :: string
  um_signature :: string
  um_format :: string

record path_json_manifest =
  pj_url :: string
  pj_name :: string

record sparkle_item =
  si_title :: string
  si_version :: string
  si_short_version :: string
  si_hardware :: string
  si_enclosure_url :: string

record squirrel_release =
  sq_version :: string
  sq_to_name :: string
  sq_to_version :: string
  sq_to_url :: string

record tauri_manifest =
  tm_version :: string
  tm_url :: string
  tm_signature :: string
  tm_format :: string

datatype manifest_error =
    PathJsonParse string
  | SparkleParse string
  | SparkleNoEnclosure
  | SquirrelParse string
  | SquirrelNoUpdate
  | TauriParse string
  | TauriVersionMissing
  | TauriFormat string

fun first_non_empty :: "string list \<Rightarrow> string" where
  "first_non_empty [] = []"
| "first_non_empty (v # vs) = (let t = trim_space v in if t \<noteq> [] then t else first_non_empty vs)"

definition unsigned_manifest :: "string \<Rightarrow> string \<Rightarrow> update_manifest" where
  "unsigned_manifest url name = \<lparr>um_url = url, um_name = name, um_signature = [], um_format = []\<rparr>"

definition parse_path_json :: "(string, path_json_manifest) result \<Rightarrow> (manifest_error, update_manifest) result" where
  "parse_path_json decoded =
     (case decoded of Inl e \<Rightarrow> Inl (PathJsonParse e)
      | Inr m \<Rightarrow> Inr (unsigned_manifest (pj_url m) (pj_name m)))"

definition sparkle_usable :: "sparkle_item \<Rightarrow> bool" where
  "sparkle_usable i \<longleftrightarrow> si_enclosure_url i \<noteq> [] \<and>
     \<not> (si_hardware i \<noteq> [] \<and> \<not> contains ''arm64'' (to_lower (si_hardware i)))"

definition parse_sparkle :: "(string, sparkle_item list) result \<Rightarrow> (manifest_error, update_manifest) result" where
  "parse_sparkle decoded =
     (case decoded of Inl e \<Rightarrow> Inl (SparkleParse e)
      | Inr items \<Rightarrow> (case find sparkle_usable items of
          None \<Rightarrow> Inl SparkleNoEnclosure
        | Some i \<Rightarrow> Inr (unsigned_manifest (si_enclosure_url i)
            (first_non_empty [si_version i, si_short_version i, si_title i]))))"

definition parse_squirrel :: "(string, squirrel_release list) result \<Rightarrow> (manifest_error, update_manifest) result" where
  "parse_squirrel decoded =
     (case decoded of Inl e \<Rightarrow> Inl (SquirrelParse e)
      | Inr releases \<Rightarrow> (case find (\<lambda>r. sq_to_url r \<noteq> []) releases of
          None \<Rightarrow> Inl SquirrelNoUpdate
        | Some r \<Rightarrow> Inr (unsigned_manifest (sq_to_url r)
            (first_non_empty [sq_to_version r, sq_version r, sq_to_name r]))))"

definition parse_tauri :: "(string, tauri_manifest) result \<Rightarrow> (manifest_error, update_manifest) result" where
  "parse_tauri decoded =
     (case decoded of Inl e \<Rightarrow> Inl (TauriParse e)
      | Inr m \<Rightarrow>
          (let version = trim_space (tm_version m); format = trim_space (tm_format m) in
           if version = [] then Inl TauriVersionMissing
           else if format \<noteq> ''app'' then Inl (TauriFormat format)
           else Inr \<lparr>um_url = trim_space (tm_url m), um_name = version,
                     um_signature = trim_space (tm_signature m), um_format = format\<rparr>))"

section \<open>Requests\<close>

definition split_tauri_platform :: "string \<Rightarrow> string \<times> string" where
  "split_tauri_platform p =
     (case cut (CHR ''-'') (rev p) of None \<Rightarrow> (p, []) | Some (a, b) \<Rightarrow> (rev b, rev a))"

text \<open>\<open>url.PathEscape\<close>.\<close>

definition path_unescaped :: "char \<Rightarrow> bool" where
  "path_unescaped c \<longleftrightarrow> (let n = (of_char c :: nat) in
     48 \<le> n \<and> n \<le> 57 \<or> 65 \<le> n \<and> n \<le> 90 \<or> 97 \<le> n \<and> n \<le> 122) \<or> c \<in> set ''-_.~$&+:=@''"

definition hex_digit :: "string \<Rightarrow> nat \<Rightarrow> char" where
  "hex_digit digits n = digits ! n"

definition hex_byte :: "string \<Rightarrow> char \<Rightarrow> string" where
  "hex_byte digits c = [hex_digit digits (of_char c div 16), hex_digit digits (of_char c mod 16)]"

definition path_escape :: "string \<Rightarrow> string" where
  "path_escape v = concat (map (\<lambda>c. if path_unescaped c then [c]
     else CHR ''%'' # hex_byte ''0123456789ABCDEF'' c) v)"

definition hex_encode :: "string \<Rightarrow> string" where
  "hex_encode bs = concat (map (hex_byte ''0123456789abcdef'') bs)"

definition brace :: "string \<Rightarrow> string" where
  "brace key = CHR ''{'' # key @ ''}''"

text \<open>The map is the list in the order the range loop visits it.\<close>

definition render_updater_template :: "string \<Rightarrow> string gomap \<Rightarrow> string" where
  "render_updater_template tmpl values =
     foldl (\<lambda>s (key, value). replace_all (brace key) (path_escape value) s) tmpl values"

definition render_user_agent :: "string \<Rightarrow> string \<Rightarrow> string" where
  "render_user_agent tmpl version = replace_all ''{version}'' version tmpl"

definition placeholder_commit :: string where
  "placeholder_commit = replicate 64 CHR ''0''"

definition path_json_endpoint :: "updater_spec \<Rightarrow> string \<Rightarrow> string \<Rightarrow> string" where
  "path_json_endpoint u version channel = render_updater_template (up_url_template u)
     [(''platform'', up_platform u), (''product'', up_product u), (''version'', version),
      (''commit'', placeholder_commit), (''channel'', channel)]"

definition tauri_endpoint :: "updater_spec \<Rightarrow> string \<Rightarrow> string" where
  "tauri_endpoint u version = (let (target, arch) = split_tauri_platform (up_platform u) in
     render_updater_template (up_url_template u)
       [(''target'', target), (''arch'', arch), (''version'', version), (''platform'', up_platform u)])"

section \<open>Names\<close>

definition tauri_archive_name :: "target \<Rightarrow> string" where
  "tauri_archive_name t =
     (let b0 = trim_space (tg_exec_name t);
          b1 = (if b0 = [] then go_base (tg_app_path t) else b0);
          b2 = trim_suffix ''.app'' (go_base b1);
          b3 = (if b2 = [] \<or> b2 = ''.'' \<or> b2 = [slash] then ''update'' else b2)
      in b3 @ ''.app.tar.gz'')"

text \<open>\<open>archiveName\<close>: the argument is the path of the parsed URL, if it parses.\<close>

definition archive_name :: "target \<Rightarrow> (string, string) result \<Rightarrow> string" where
  "archive_name t url_path =
     (case url_path of Inl _ \<Rightarrow> tg_id t @ ''.zip''
      | Inr p \<Rightarrow> (let b = go_base p in
          if b \<noteq> ''.'' \<and> b \<noteq> [slash] \<and> b \<noteq> [] then b else tg_id t @ ''.zip''))"

definition is_tauri :: "target \<Rightarrow> bool" where
  "is_tauri t \<longleftrightarrow> up_kind (tg_updater t) = kind_tauri"

definition manifest_archive_name :: "target \<Rightarrow> (string, string) result \<Rightarrow> string" where
  "manifest_archive_name t url_path =
     (if is_tauri t then tauri_archive_name t else archive_name t url_path)"

definition archive_accept :: "target \<Rightarrow> string" where
  "archive_accept t = (if is_tauri t then ''application/gzip'' else ''application/zip'')"

definition staging_dir_path :: "go_env \<Rightarrow> target \<Rightarrow> string \<Rightarrow> nat \<Rightarrow> string" where
  "staging_dir_path genv t version unix =
     go_join [state_root genv, ''upgrade-staging'', tg_id t @ ''-'' @ version @ ''-'' @ nat_str unix]"

definition no_update_message :: "string \<Rightarrow> string \<Rightarrow> string" where
  "no_update_message tid channel =
     (if channel = [] then ''target='' @ tid @ '' no update available; nothing to do''
      else ''target='' @ tid @ '' no update available on '' @ channel @ '' channel; nothing to do'')"

section \<open>Templates\<close>

text \<open>
  A template is text without braces and placeholders. Whatever the order in which the map is
  visited, every placeholder of a listed key becomes the escaped value, once, and nothing
  else changes: an escaped value has no brace, so no replacement makes a placeholder.
\<close>

datatype segment = Lit string | Var string

fun segment_text :: "segment \<Rightarrow> string" where
  "segment_text (Lit s) = s"
| "segment_text (Var k) = brace k"

definition no_brace :: "string \<Rightarrow> bool" where
  "no_brace s \<longleftrightarrow> CHR ''{'' \<notin> set s \<and> CHR ''}'' \<notin> set s"

fun segment_ok :: "segment \<Rightarrow> bool" where
  "segment_ok (Lit s) = no_brace s"
| "segment_ok (Var k) = no_brace k"

fun fill :: "string gomap \<Rightarrow> segment \<Rightarrow> segment" where
  "fill m (Lit s) = Lit s"
| "fill m (Var k) = (case map_of m k of Some v \<Rightarrow> Lit (path_escape v) | None \<Rightarrow> Var k)"

definition template_text :: "segment list \<Rightarrow> string" where
  "template_text segs = concat (map segment_text segs)"

lemma hex_byte_no_brace: "no_brace (hex_byte ''0123456789ABCDEF'' c)"
proof -
  have d: "no_brace [hex_digit ''0123456789ABCDEF'' n]" if "n < 16" for n
  proof -
    have "hex_digit ''0123456789ABCDEF'' n \<in> set ''0123456789ABCDEF''"
      unfolding hex_digit_def by (rule nth_mem) (use that in simp)
    then show ?thesis by (auto simp: no_brace_def)
  qed
  have "(of_char c :: nat) div 16 < 16" using of_char_less [of c] by linarith
  with d [of "of_char c div 16"] d [of "of_char c mod 16"] show ?thesis
    by (simp add: hex_byte_def no_brace_def)
qed

lemma path_escape_no_brace: "no_brace (path_escape v)"
proof -
  have b: "\<not> path_unescaped CHR ''{''" "\<not> path_unescaped CHR ''}''" by code_simp+
  have "no_brace (if path_unescaped c then [c] else CHR ''%'' # hex_byte ''0123456789ABCDEF'' c)" for c
  proof (cases "path_unescaped c")
    case True
    with b have "c \<noteq> CHR ''{''" "c \<noteq> CHR ''}''" by metis+
    with True show ?thesis by (simp add: no_brace_def)
  qed (use hex_byte_no_brace [of c] in \<open>simp add: no_brace_def\<close>)
  then show ?thesis unfolding path_escape_def no_brace_def by (induction v) simp_all
qed

lemma replace_all_lit: "no_brace s \<Longrightarrow> replace_all (brace k) v (s @ rest) = s @ replace_all (brace k) v rest"
  by (induction s) (auto simp: no_brace_def brace_def)

lemma replace_all_other:
  assumes "no_brace k" "no_brace k'" "k \<noteq> k'"
  shows "replace_all (brace k) v (brace k' @ rest) = brace k' @ replace_all (brace k) v rest"
proof -
  have "\<not> prefix (k @ ''}'') (k' @ ''}'' @ rest)"
  proof
    assume "prefix (k @ ''}'') (k' @ ''}'' @ rest)"
    then obtain r where "k' @ ''}'' @ rest = k @ ''}'' @ r" by (auto simp: prefix_def)
    then have "cut (CHR ''}'') (k' @ CHR ''}'' # rest) = cut (CHR ''}'') (k @ CHR ''}'' # r)" by simp
    moreover have "cut (CHR ''}'') (x @ CHR ''}'' # y) = Some (x, y)" if "no_brace x" for x y
      using that by (simp add: cut_Some_iff no_brace_def)
    ultimately show False using assms by simp
  qed
  moreover have "replace_all (brace k) v (k' @ ''}'' @ rest) = k' @ ''}'' @ replace_all (brace k) v rest"
    using replace_all_lit [OF assms(2), of k v "''}'' @ rest"] by (simp add: brace_def)
  ultimately show ?thesis by (simp add: brace_def)
qed

lemma replace_all_var: "replace_all (brace k) v (brace k @ rest) = v @ replace_all (brace k) v rest"
  by (simp add: brace_def)

lemma replace_template:
  assumes "list_all segment_ok segs" "no_brace k"
  shows "replace_all (brace k) (path_escape v) (template_text segs) = template_text (map (fill [(k, v)]) segs)"
  using assms(1)
proof (induction segs)
  case (Cons s segs)
  then show ?case
    by (cases s) (auto simp: template_text_def replace_all_lit replace_all_var
        replace_all_other [OF assms(2)])
qed (simp add: template_text_def)

lemma fill_ok: "segment_ok s \<Longrightarrow> segment_ok (fill m s)"
  by (cases s) (auto simp: path_escape_no_brace split: option.splits)

lemma fill_fill: "fill m (fill [(k, v)] s) = fill ((k, v) # m) s"
  by (cases s) auto

text \<open>
  The URL of an update request is the template with every placeholder replaced by the escaped
  value, whatever the order in which Go visits the map of values.
\<close>
theorem template_filled:
  assumes "list_all segment_ok segs" "list_all (\<lambda>(k, v). no_brace k) m"
  shows "render_updater_template (template_text segs) m = template_text (map (fill m) segs)"
  using assms
proof (induction m arbitrary: segs)
  case Nil
  have "fill [] s = s" for s by (cases s) auto
  then show ?case by (simp add: render_updater_template_def)
next
  case (Cons kv m)
  obtain k v where kv: "kv = (k, v)" by fastforce
  have "list_all segment_ok (map (fill [(k, v)]) segs)"
    using Cons.prems(1) by (auto simp: list_all_iff fill_ok)
  with Cons kv show ?case
    by (simp add: render_updater_template_def replace_template fill_fill comp_def)
qed

theorem template_filled_witness:
  "render_updater_template ''u/{version}/{platform}''
     [(''platform'', ''{version}''), (''version'', ''1 2'')] = ''u/1%202/%7Bversion%7D''"
proof -
  define segs where "segs = [Lit ''u/'', Var ''version'', Lit ''/'', Var ''platform'']"
  have "render_updater_template (template_text segs) [(''platform'', ''{version}''), (''version'', ''1 2'')]
      = template_text (map (fill [(''platform'', ''{version}''), (''version'', ''1 2'')]) segs)"
    by (rule template_filled) (simp_all add: segs_def no_brace_def)
  moreover have "template_text segs = ''u/{version}/{platform}''"
    by (simp add: segs_def template_text_def brace_def)
  moreover have "template_text (map (fill [(''platform'', ''{version}''), (''version'', ''1 2'')]) segs) =
      ''u/1%202/%7Bversion%7D''"
    unfolding segs_def by code_simp
  ultimately show ?thesis by simp
qed

section \<open>Staging names\<close>

text \<open>
  A version without a slash gives a staging directory directly below \<open>upgrade-staging\<close>. The
  version is whatever the manifest says: nothing checks it.
\<close>

lemma staging_dir_below:
  assumes "is_abs (state_root genv)" "slash \<notin> set (tg_id t)" "slash \<notin> set version"
  shows "path_components (staging_dir_path genv t version unix) =
     path_components (state_root genv) @ [''upgrade-staging'', tg_id t @ ''-'' @ version @ ''-'' @ nat_str unix]"
proof -
  define n where "n = tg_id t @ ''-'' @ version @ ''-'' @ nat_str unix"
  have digit: "char_of (48 + n) \<noteq> slash" if "n < 10" for n :: nat
  proof
    assume "char_of (48 + n) = slash"
    then have "(48 + n) mod 256 = (of_char slash :: nat)" by (metis of_char_of)
    with that show False by (simp add: slash_def)
  qed
  have digits: "slash \<notin> set (nat_str n)" for n
  proof (induction n rule: nat_str.induct)
    case (1 n)
    then show ?case
      using digit [of n] digit [of "n mod 10"] by (auto simp: nat_str.simps [of n])
  qed
  have "CHR ''-'' \<in> set n" by (simp add: n_def)
  moreover have "CHR ''-'' \<in> set v \<Longrightarrow> v \<noteq> ''..'' \<and> v \<noteq> ''.''" for v by auto
  ultimately have "n \<noteq> ''..''" "n \<noteq> ''.''" by blast+
  then have "proper_elem n"
    using assms(2,3) digits [of unix] by (simp add: proper_elem_def slash_def n_def)
  then have elems: "list_all proper_elem [''upgrade-staging'', n]"
    by (simp add: proper_elem_def slash_def)
  have "state_root genv \<noteq> []" using assms(1) by (auto simp: is_abs_def)
  then have "staging_dir_path genv t version unix =
      go_clean (state_root genv @ slash # join [slash] [''upgrade-staging'', n])"
    by (simp add: staging_dir_path_def go_join_def n_def)
  moreover have "clean (state_root genv @ slash # join [slash] [''upgrade-staging'', n]) =
      (True, path_components (state_root genv) @ [''upgrade-staging'', n])"
    by (simp only: clean_join_rooted [OF assms(1)] proper_join_split [OF elems list.distinct(2)]
        clean_elems_proper [OF elems] path_components_def rev_rev_ident)
  ultimately show ?thesis unfolding n_def [symmetric]
    by (metis path_components_clean path_components_def snd_conv)
qed

end
