(* ===== verification/Upgrade_Flow.thy ===== *)
theory Upgrade_Flow
  imports Upgrade_Manifest Bundle_Mutate Go_Effects
begin

text \<open>
  The effectful half of \<open>internal/upgrade\<close>: \<open>Run\<close> and \<open>CheckAvailable\<close> with everything they
  call in the package, and \<open>ReadInfoPlist\<close> of \<open>internal/patch/info.go\<close>. The state is the
  operating system of \<open>OS_Model\<close> and a log of what was noted, fetched and done. HTTP, the
  decoders of JSON, XML and property lists, \<open>gzip\<close> and \<open>tar\<close>, \<open>ditto\<close>, the clock, the random
  source, the process checks and the patch flow (\<open>patch.Patch\<close>, \<open>PrepareForSwap\<close>,
  \<open>FinalizeAfterSwap\<close>) are the fields of \<open>up_env\<close>. The value \<open>PrepareForSwap\<close> hands to
  \<open>FinalizeAfterSwap\<close> is left out: both are functions of the state.
\<close>

section \<open>State, environment, errors\<close>

datatype up_event =
    Noted string
  | MarkedSkipped string
  | Fetched string string string   \<comment> \<open>endpoint, user agent, accept\<close>
  | TrustChecked
  | MadeStaging string
  | RemovedStaging string
  | Downloaded string string       \<comment> \<open>URL, archive path\<close>
  | ExtractedTar string            \<comment> \<open>the bytes of the archive\<close>
  | RanDitto string string
  | SwapStarted string
  | PatchedClean

record up_sys =
  us_os :: os
  us_log :: "up_event list"

record http_response =
  hr_status :: int
  hr_body :: string
  hr_read_error :: "string option"

record info_plist =
  ip_executable :: string
  ip_version :: string
  ip_identifier :: string
  ip_sparkle_key :: string

record up_options =
  uo_channel :: string
  uo_dry_run :: bool
  uo_migrate_keychain :: bool
  uo_close :: bool

record up_env =
  ev_genv :: go_env
  ev_plist :: "string \<Rightarrow> (string, info_plist) result"
  ev_trust_ca :: "os \<Rightarrow> string option \<times> os"
  ev_request :: "string \<Rightarrow> string option"          \<comment> \<open>why a request cannot be built\<close>
  ev_http :: "string \<Rightarrow> string \<Rightarrow> string \<Rightarrow> os \<Rightarrow> (string, http_response) result \<times> os"
  ev_path_json :: "string \<Rightarrow> (string, path_json_manifest) result"
  ev_sparkle :: "string \<Rightarrow> (string, sparkle_item list) result"
  ev_squirrel :: "string \<Rightarrow> (string, squirrel_release list) result"
  ev_tauri :: "string \<Rightarrow> (string, tauri_manifest) result"
  ev_query :: "string \<Rightarrow> (string, string \<Rightarrow> string \<Rightarrow> string) result"  \<comment> \<open>the URL with a query parameter set\<close>
  ev_random :: "(string, string) result"
  ev_url_path :: "string \<Rightarrow> (string, string) result"
  ev_unix :: nat
  ev_unix_nano :: nat
  ev_part :: string                                \<comment> \<open>what a failed write leaves\<close>
  ev_verify :: ed25519
  ev_blake2b :: "string \<Rightarrow> string"
  ev_untar :: "string \<Rightarrow> (string, tar_entry list \<times> string option) result"
  ev_ditto :: "string \<Rightarrow> string \<Rightarrow> os \<Rightarrow> string option \<times> os"
  ev_glob :: "string \<Rightarrow> filesys \<Rightarrow> string list option"
  ev_running :: "os \<Rightarrow> bool \<times> os"
  ev_ensure_closed :: "os \<Rightarrow> string option \<times> os"
  ev_device :: "filesys \<Rightarrow> fpath \<Rightarrow> (os_error, nat option) result"
  ev_copy :: "string \<Rightarrow> os \<Rightarrow> string option \<times> os"
  ev_prepare :: "up_options \<Rightarrow> fpath \<Rightarrow> os \<Rightarrow> string option \<times> os"
  ev_finalize :: "up_options \<Rightarrow> os \<Rightarrow> string option \<times> os"
  ev_patch :: "up_options \<Rightarrow> os \<Rightarrow> string option \<times> os"

datatype plist_error = PlistRead os_error | PlistParse string | PlistNoVersion

type_synonym staged_error = "guard_error + (guard_error + unit) stage_error"

datatype upgrade_error =
    ChannelFailed channel_error
  | BundleStat os_error
  | BundleVersion plist_error
  | TrustRequired string
  | NoUpdate
  | ManifestRequest string
  | ManifestFetch string
  | ManifestStatus int string
  | ManifestRead string
  | ManifestParse manifest_error
  | SparkleUrl channel_error
  | SquirrelUrl string
  | DeviceId string
  | UnsupportedKind string string
  | MissingFields update_manifest
  | PatchedStat os_error
  | CleanPatchFailed string
  | StagingDir os_error
  | DownloadRequest string
  | DownloadFailed string
  | DownloadStatus int
  | DownloadFile os_error
  | DownloadBody string
  | SignatureMissing
  | SignatureBase64
  | SignatureParse minisign_error
  | SignatureRead os_error
  | SignatureRejected minisign_error
  | ExtractDir os_error
  | ArchiveOpen os_error
  | GzipOpen string
  | ExtractFailed tar_error
  | DittoFailed string
  | ExpectedStat os_error
  | GlobFailed
  | NoAppFound
  | ManyAppsFound "string list"
  | StagedFailed staged_error
  | FinalizeFailed string

datatype up_done = SkippedRun string | PatchedInPlace | UpgradedTo string

type_synonym 'a up_act = "up_sys \<Rightarrow> (upgrade_error, 'a) result \<times> up_sys"

text \<open>The lifting of calls on the operating system.\<close>

definition on_os :: "(os \<Rightarrow> 'r \<times> os) \<Rightarrow> up_sys \<Rightarrow> 'r \<times> up_sys" where
  "on_os f s = (let (r, w) = f (us_os s) in (r, s\<lparr>us_os := w\<rparr>))"

definition log_event :: "up_event \<Rightarrow> up_sys \<Rightarrow> unit \<times> up_sys" where
  "log_event e s = ((), s\<lparr>us_log := us_log s @ [e]\<rparr>)"

definition note_msg :: "string \<Rightarrow> up_sys \<Rightarrow> unit \<times> up_sys" where
  "note_msg msg = log_event (Noted msg)"

definition note_then :: "string \<Rightarrow> (up_sys \<Rightarrow> 'r \<times> up_sys) \<Rightarrow> up_sys \<Rightarrow> 'r \<times> up_sys" where
  "note_then msg a = bind_act (note_msg msg) (\<lambda>_. a)"

definition logging :: "up_event \<Rightarrow> (up_sys \<Rightarrow> 'r \<times> up_sys) \<Rightarrow> up_sys \<Rightarrow> 'r \<times> up_sys" where
  "logging e a = bind_act (log_event e) (\<lambda>_. a)"

definition skip_run :: "string \<Rightarrow> up_done up_act" where
  "skip_run msg = note_then msg (logging (MarkedSkipped msg) (return_act (Inr (SkippedRun msg))))"

section \<open>The installed version\<close>

definition read_info_plist ::
  "(string \<Rightarrow> (string, info_plist) result) \<Rightarrow> string \<Rightarrow> os \<Rightarrow> (plist_error, info_plist) result \<times> os" where
  "read_info_plist decode path w =
     (let (r, w1) = read_file_at (path_components path) w in
      (case r of Inl e \<Rightarrow> Inl (PlistRead e)
       | Inr data \<Rightarrow> (case decode data of Inl e \<Rightarrow> Inl (PlistParse e)
           | Inr info \<Rightarrow> if ip_version info = [] then Inl PlistNoVersion else Inr info), w1))"

definition read_bundle_version :: "up_env \<Rightarrow> target \<Rightarrow> string up_act" where
  "read_bundle_version env t =
     bind_act (on_os (read_info_plist (ev_plist env) (info_plist_path (tg_app_path t))))
       (\<lambda>r. return_act (case r of Inl e \<Rightarrow> Inl (BundleVersion e) | Inr i \<Rightarrow> Inr (trim_space (ip_version i))))"

record bundle_version =
  bv_current :: string
  bv_missing :: bool

definition missing_version :: string where "missing_version = ''0.0.0''"

definition resolve_bundle_version :: "up_env \<Rightarrow> target \<Rightarrow> bundle_version up_act" where
  "resolve_bundle_version env t =
     bind_act (on_os (stat_at (path_components (tg_app_path t)))) (\<lambda>r.
       case r of
         Inl e \<Rightarrow> return_act (if e = ENOENT then Inr \<lparr>bv_current = missing_version, bv_missing = True\<rparr>
                            else Inl (BundleStat e))
       | Inr _ \<Rightarrow> rbind_act (read_bundle_version env t)
           (\<lambda>v. return_act (Inr \<lparr>bv_current = v, bv_missing = False\<rparr>)))"

definition note_bundle_version :: "target \<Rightarrow> string \<Rightarrow> bundle_version \<Rightarrow> 'r up_act \<Rightarrow> 'r up_act" where
  "note_bundle_version t channel st rest =
     note_then (''target='' @ tg_id t @ '' current version='' @ bv_current st @
         (if channel = [] then [] else '' channel='' @ channel) @ '' updater='' @ up_kind (tg_updater t))
       (if bv_missing st
        then note_then (''target='' @ tg_id t @ '' app missing at '' @ tg_app_path t @ ''; installing latest bundle'') rest
        else rest)"

section \<open>Fetching the manifest\<close>

text \<open>\<open>io.ReadAll(io.LimitReader(body, limit))\<close>: an error past the limit is never seen.\<close>

definition read_limited :: "int \<Rightarrow> http_response \<Rightarrow> (string, string) result" where
  "read_limited limit resp =
     (if limit \<le> int (length (hr_body resp)) then Inr (take (nat limit) (hr_body resp))
      else case hr_read_error resp of Some e \<Rightarrow> Inl e | None \<Rightarrow> Inr (hr_body resp))"

definition manifest_body :: "int \<Rightarrow> (string, http_response) result \<Rightarrow> (upgrade_error, string) result" where
  "manifest_body limit r =
     (case r of Inl e \<Rightarrow> Inl (ManifestFetch e)
      | Inr resp \<Rightarrow>
          if hr_status resp = 204 then Inl NoUpdate
          else if hr_status resp < 200 \<or> hr_status resp > 299
          then Inl (ManifestStatus (hr_status resp) (take 1024 (hr_body resp)))
          else (case read_limited limit resp of Inl e \<Rightarrow> Inl (ManifestRead e) | Inr b \<Rightarrow> Inr b))"

definition fetch_url :: "up_env \<Rightarrow> string \<Rightarrow> string \<Rightarrow> string \<Rightarrow> int \<Rightarrow> string up_act" where
  "fetch_url env endpoint ua accept limit =
     (case ev_request env endpoint of
        Some e \<Rightarrow> return_act (Inl (ManifestRequest e))
      | None \<Rightarrow> logging (Fetched endpoint ua accept)
          (bind_act (on_os (ev_http env endpoint ua accept)) (\<lambda>r. return_act (manifest_body limit r))))"

definition parsed :: "(manifest_error, update_manifest) result \<Rightarrow> (upgrade_error, update_manifest) result" where
  "parsed r = (case r of Inl e \<Rightarrow> Inl (ManifestParse e) | Inr m \<Rightarrow> Inr m)"

definition json_type :: string where "json_type = ''application/json''"

definition fetch_path_json :: "up_env \<Rightarrow> target \<Rightarrow> string \<Rightarrow> string \<Rightarrow> update_manifest up_act" where
  "fetch_path_json env t current channel =
     rbind_act (fetch_url env (path_json_endpoint (tg_updater t) current channel)
         (render_user_agent (up_user_agent (tg_updater t)) current) json_type 65536)
       (\<lambda>body. return_act (parsed (parse_path_json (ev_path_json env body))))"

definition fetch_sparkle :: "up_env \<Rightarrow> target \<Rightarrow> string \<Rightarrow> update_manifest up_act" where
  "fetch_sparkle env t channel =
     (case url_with_channel (tg_updater t) channel of
        Inl e \<Rightarrow> return_act (Inl (SparkleUrl e))
      | Inr endpoint \<Rightarrow>
          rbind_act (fetch_url env endpoint (render_user_agent (up_user_agent (tg_updater t)) [])
              ''application/xml'' 2097152)
            (\<lambda>body. return_act (parsed (parse_sparkle (ev_sparkle env body)))))"

definition generated_device_id :: "up_env \<Rightarrow> (upgrade_error, string) result" where
  "generated_device_id env =
     (case ev_random env of Inl e \<Rightarrow> Inl (DeviceId e) | Inr bs \<Rightarrow> Inr (''desktop-via-clyde-'' @ hex_encode bs))"

definition squirrel_endpoint :: "up_env \<Rightarrow> updater_spec \<Rightarrow> (upgrade_error, string) result" where
  "squirrel_endpoint env u =
     (case ev_query env (up_url u) of
        Inl e \<Rightarrow> Inl (SquirrelUrl e)
      | Inr set_param \<Rightarrow> rbind (generated_device_id env) (\<lambda>dev.
          Inr (set_param (if up_device_id_param u = [] then ''device_id'' else up_device_id_param u) dev)))"

definition fetch_squirrel :: "up_env \<Rightarrow> target \<Rightarrow> update_manifest up_act" where
  "fetch_squirrel env t =
     rbind_act (return_act (squirrel_endpoint env (tg_updater t))) (\<lambda>endpoint.
       rbind_act (fetch_url env endpoint (render_user_agent (up_user_agent (tg_updater t)) []) json_type 65536)
         (\<lambda>body. return_act (parsed (parse_squirrel (ev_squirrel env body)))))"

definition fetch_tauri :: "up_env \<Rightarrow> target \<Rightarrow> string \<Rightarrow> update_manifest up_act" where
  "fetch_tauri env t current =
     rbind_act (fetch_url env (tauri_endpoint (tg_updater t) current)
         (render_user_agent (up_user_agent (tg_updater t)) current) json_type 65536)
       (\<lambda>body. return_act (parsed (parse_tauri (ev_tauri env body))))"

definition fetch_manifest :: "up_env \<Rightarrow> target \<Rightarrow> string \<Rightarrow> string \<Rightarrow> update_manifest up_act" where
  "fetch_manifest env t current channel =
     (let kind = up_kind (tg_updater t) in
      if kind = kind_http_path_json then fetch_path_json env t current channel
      else if kind = kind_sparkle then fetch_sparkle env t channel
      else if kind = kind_squirrel then fetch_squirrel env t
      else if kind = kind_tauri then fetch_tauri env t current
      else return_act (Inl (UnsupportedKind (tg_id t) kind)))"

section \<open>Staging, download, verification\<close>

definition make_staging_dir :: "up_env \<Rightarrow> target \<Rightarrow> string \<Rightarrow> string up_act" where
  "make_staging_dir env t version =
     (let dir = staging_dir_path (ev_genv env) t version (ev_unix env) in
      bind_act (on_os (mkdir_all_at (rev (path_components dir)))) (\<lambda>r.
        case r of Some e \<Rightarrow> return_act (Inl (StagingDir e))
        | None \<Rightarrow> logging (MadeStaging dir) (return_act (Inr dir))))"

text \<open>\<open>io.Copy\<close> from a body that may break off: what arrived is written first.\<close>

definition save_body :: "up_env \<Rightarrow> string \<Rightarrow> http_response \<Rightarrow> unit up_act" where
  "save_body env path resp =
     bind_act (on_os (copy_to_at (path_components path) (hr_body resp) (ev_part env))) (\<lambda>r.
       case r of Some e \<Rightarrow> return_act (Inl (DownloadFile e))
       | None \<Rightarrow> (case hr_read_error resp of
           Some e \<Rightarrow> return_act (Inl (DownloadBody e))
         | None \<Rightarrow> note_then (''downloaded '' @ nat_str (length (hr_body resp)) @ '' bytes'') (return_act (Inr ()))))"

definition download_archive :: "up_env \<Rightarrow> string \<Rightarrow> string \<Rightarrow> string \<Rightarrow> bool \<Rightarrow> unit up_act" where
  "download_archive env url path accept dry =
     note_then (''downloading '' @ url @ '' -> '' @ path)
       (if dry then return_act (Inr ())
        else case ev_request env url of
          Some e \<Rightarrow> return_act (Inl (DownloadRequest e))
        | None \<Rightarrow> logging (Downloaded url path)
            (bind_act (on_os (ev_http env url ''desktop-via-clyde/upgrade'' accept)) (\<lambda>r.
               case r of Inl e \<Rightarrow> return_act (Inl (DownloadFailed e))
               | Inr resp \<Rightarrow>
                   if hr_status resp < 200 \<or> hr_status resp > 299
                   then return_act (Inl (DownloadStatus (hr_status resp)))
                   else save_body env path resp)))"

text \<open>The check of the bytes of the archive against the decoded signature file.\<close>

definition archive_signed :: "up_env \<Rightarrow> target \<Rightarrow> string \<Rightarrow> string \<Rightarrow> string \<Rightarrow> (upgrade_error, unit) result" where
  "archive_signed env t alg file data =
     (case (if alg = prehash_algorithm
            then verify_digest (ev_verify env) (up_minisign_key (tg_updater t)) (ev_blake2b env data) file
            else if alg = legacy_algorithm
            then verify_minisign (ev_verify env) (ev_blake2b env) (up_minisign_key (tg_updater t)) data file
            else Inl (SigAlgorithm alg)) of
        Inl e \<Rightarrow> Inl (SignatureRejected e) | Inr u \<Rightarrow> Inr u)"

definition verify_tauri_archive :: "up_env \<Rightarrow> target \<Rightarrow> update_manifest \<Rightarrow> string \<Rightarrow> bool \<Rightarrow> unit up_act" where
  "verify_tauri_archive env t m path dry =
     note_then (''target='' @ tg_id t @ '' verify minisign signature for '' @ path)
       (if um_signature m = [] then return_act (Inl SignatureMissing)
        else if dry then return_act (Inr ())
        else case b64_decode (um_signature m) of
          None \<Rightarrow> return_act (Inl SignatureBase64)
        | Some file \<Rightarrow> (case signature_algorithm file of
            Inl e \<Rightarrow> return_act (Inl (SignatureParse e))
          | Inr alg \<Rightarrow> bind_act (on_os (read_file_at (path_components path))) (\<lambda>r.
              return_act (case r of Inl e \<Rightarrow> Inl (SignatureRead e)
                | Inr data \<Rightarrow> archive_signed env t alg file data))))"

definition verify_archive :: "up_env \<Rightarrow> target \<Rightarrow> update_manifest \<Rightarrow> string \<Rightarrow> bool \<Rightarrow> unit up_act" where
  "verify_archive env t m path dry =
     (if is_tauri t then verify_tauri_archive env t m path dry else return_act (Inr ()))"

section \<open>Extraction\<close>

definition single_extracted_app :: "string list option \<Rightarrow> (upgrade_error, string) result" where
  "single_extracted_app found =
     (case found of None \<Rightarrow> Inl GlobFailed
      | Some [] \<Rightarrow> Inl NoAppFound
      | Some [a] \<Rightarrow> Inr a
      | Some as \<Rightarrow> Inl (ManyAppsFound as))"

text \<open>What both extractors end with: the expected name, else the one \<open>.app\<close> there is.\<close>

definition find_extracted :: "up_env \<Rightarrow> target \<Rightarrow> string \<Rightarrow> string up_act" where
  "find_extracted env t dir =
     (let expected = go_join [dir, go_base (tg_app_path t)] in
      bind_act (on_os (stat_at (path_components expected))) (\<lambda>r.
        case r of Inr _ \<Rightarrow> return_act (Inr expected)
        | Inl e \<Rightarrow> if e \<noteq> ENOENT then return_act (Inl (ExpectedStat e))
            else rbind_act (\<lambda>s. (single_extracted_app (ev_glob env (go_join [dir, ''*.app'']) (os_fs (us_os s))), s))
              (\<lambda>a. note_then (''target='' @ tg_id t @ '' extracted app root '' @ go_base a @
                  '' differs from configured app name '' @ go_base (tg_app_path t)) (return_act (Inr a)))))"

definition make_extract_dir :: "string \<Rightarrow> unit up_act" where
  "make_extract_dir dir = bind_act (on_os (mkdir_all_at (rev (path_components dir))))
     (\<lambda>r. return_act (case r of Some e \<Rightarrow> Inl (ExtractDir e) | None \<Rightarrow> Inr ()))"

definition write_tar_gz :: "up_env \<Rightarrow> string \<Rightarrow> string \<Rightarrow> unit up_act" where
  "write_tar_gz env path dir =
     rbind_act (bind_act (on_os (read_file_at (path_components path)))
         (\<lambda>r. return_act (case r of Inl e \<Rightarrow> Inl (ArchiveOpen e) | Inr d \<Rightarrow> Inr d))) (\<lambda>data.
       case ev_untar env data of
         Inl e \<Rightarrow> return_act (Inl (GzipOpen e))
       | Inr (entries, end_err) \<Rightarrow> logging (ExtractedTar data)
           (bind_act (on_os (write_tar_archive dir (ev_part env) entries end_err))
             (\<lambda>r. return_act (case r of Some e \<Rightarrow> Inl (ExtractFailed e) | None \<Rightarrow> Inr ()))))"

definition extract_dir_of :: "string \<Rightarrow> string" where
  "extract_dir_of staging = go_join [staging, ''extracted'']"

definition extract_tar_gz :: "up_env \<Rightarrow> target \<Rightarrow> string \<Rightarrow> string \<Rightarrow> bool \<Rightarrow> string up_act" where
  "extract_tar_gz env t path staging dry =
     (let dir = extract_dir_of staging in
      if dry then return_act (Inr (go_join [dir, go_base (tg_app_path t)]))
      else rbind_act (make_extract_dir dir) (\<lambda>_.
        rbind_act (write_tar_gz env path dir) (\<lambda>_. find_extracted env t dir)))"

definition extract_zip :: "up_env \<Rightarrow> target \<Rightarrow> string \<Rightarrow> string \<Rightarrow> bool \<Rightarrow> string up_act" where
  "extract_zip env t path staging dry =
     (let dir = extract_dir_of staging in
      if dry then return_act (Inr (go_join [dir, go_base (tg_app_path t)]))
      else rbind_act (make_extract_dir dir) (\<lambda>_.
        rbind_act (logging (RanDitto path dir) (bind_act (on_os (ev_ditto env path dir))
            (\<lambda>r. return_act (case r of Some e \<Rightarrow> Inl (DittoFailed e) | None \<Rightarrow> Inr ()))))
          (\<lambda>_. find_extracted env t dir)))"

definition extract_archive :: "up_env \<Rightarrow> target \<Rightarrow> string \<Rightarrow> string \<Rightarrow> bool \<Rightarrow> string up_act" where
  "extract_archive env t path staging dry =
     (if is_tauri t then extract_tar_gz env t path staging dry else extract_zip env t path staging dry)"

section \<open>The staged mutation\<close>

definition mutation_policy :: "up_options \<Rightarrow> policy" where
  "mutation_policy opts = (if uo_close opts then PolicyClose else PolicyDefer)"

definition guard_then ::
  "up_env \<Rightarrow> target \<Rightarrow> up_options \<Rightarrow> (os \<Rightarrow> 'e option \<times> os) \<Rightarrow> os \<Rightarrow> (guard_error + 'e) option \<times> os" where
  "guard_then env t opts fn =
     mutate_bundle (ev_running env) (ev_ensure_closed env) (tg_id t) (mutation_policy opts) (uo_dry_run opts) fn"

definition staged_mutation :: "up_env \<Rightarrow> target \<Rightarrow> up_options \<Rightarrow> string \<Rightarrow> os \<Rightarrow> staged_error option \<times> os" where
  "staged_mutation env t opts adopt =
     guard_then env t opts (\<lambda>w.
       staged_swap adopt (ev_device env (os_fs w)) (path_components (state_root (ev_genv env)))
         (sanitize_path_component (tg_id t) @ ''-'' @ nat_str (ev_unix_nano env))
         (path_components (tg_app_path t)) (ev_copy env (trim_space adopt)) (ev_prepare env opts)
         (Some (guard_then env t opts (\<lambda>w. (None, w)))) (Some (ev_finalize env opts)) (uo_dry_run opts) w)"

fun is_app_running :: "staged_error \<Rightarrow> bool" where
  "is_app_running (Inl (AppRunning _)) = True"
| "is_app_running (Inr (PreCommitFailed (Inl (AppRunning _)))) = True"
| "is_app_running _ = False"

definition run_staged_upgrade :: "up_env \<Rightarrow> target \<Rightarrow> up_options \<Rightarrow> string \<Rightarrow> unit up_act" where
  "run_staged_upgrade env t opts adopt = logging (SwapStarted adopt)
     (bind_act (on_os (staged_mutation env t opts adopt)) (\<lambda>r.
        case r of Some e \<Rightarrow> return_act (Inl (StagedFailed e))
        | None \<Rightarrow> if \<not> uo_dry_run opts then return_act (Inr ())
            else bind_act (on_os (ev_finalize env opts))
              (\<lambda>r. return_act (case r of Some e \<Rightarrow> Inl (FinalizeFailed e) | None \<Rightarrow> Inr ()))))"

section \<open>Run and CheckAvailable\<close>

definition handle_current_version :: "up_env \<Rightarrow> target \<Rightarrow> string \<Rightarrow> up_options \<Rightarrow> up_done up_act" where
  "handle_current_version env t current opts =
     bind_act (on_os (stat_at (path_components (real_binary_path (tg_app_path t) (tg_exec_name t))))) (\<lambda>r.
       case r of
         Inr _ \<Rightarrow> skip_run (''target='' @ tg_id t @ '' already on version '' @ current @ ''; nothing to do'')
       | Inl e \<Rightarrow> if e \<noteq> ENOENT then return_act (Inl (PatchedStat e))
           else note_then (''target='' @ tg_id t @ '' already on version '' @ current @ ''; patching clean bundle'')
             (logging PatchedClean (bind_act (on_os (ev_patch env opts)) (\<lambda>r.
                return_act (case r of Some e \<Rightarrow> Inl (CleanPatchFailed e) | None \<Rightarrow> Inr PatchedInPlace)))))"

definition deferred_message :: "target \<Rightarrow> string" where
  "deferred_message t = ''deferred: target='' @ tg_id t @ '' app running at mutation time; retry when closed''"

text \<open>\<open>errors.Is(err, appguard.ErrAppRunning)\<close>, and what \<open>Run\<close> makes of the staged upgrade.\<close>

fun app_running_error :: "upgrade_error \<Rightarrow> bool" where
  "app_running_error (StagedFailed e) = is_app_running e"
| "app_running_error _ = False"

definition after_swap :: "target \<Rightarrow> string \<Rightarrow> (upgrade_error, unit) result \<Rightarrow> up_done up_act" where
  "after_swap t name r =
     (case r of
        Inl e \<Rightarrow> if app_running_error e then skip_run (deferred_message t) else return_act (Inl e)
      | Inr _ \<Rightarrow> note_then (''target='' @ tg_id t @ '' upgrade to '' @ name @ '' complete'')
          (return_act (Inr (UpgradedTo name))))"

definition install_staged ::
  "up_env \<Rightarrow> target \<Rightarrow> up_options \<Rightarrow> update_manifest \<Rightarrow> string \<Rightarrow> up_done up_act" where
  "install_staged env t opts m staging =
     (let path = go_join [staging, manifest_archive_name t (ev_url_path env (um_url m))];
          dry = uo_dry_run opts in
      rbind_act (download_archive env (um_url m) path (archive_accept t) dry) (\<lambda>_.
      rbind_act (verify_archive env t m path dry) (\<lambda>_.
      rbind_act (extract_archive env t path staging dry) (\<lambda>app.
        bind_act (run_staged_upgrade env t opts app) (after_swap t (um_name m))))))"

text \<open>The deferred \<open>os.RemoveAll(staging)\<close>, whose error is ignored.\<close>

definition remove_staging :: "bool \<Rightarrow> string \<Rightarrow> 'r up_act \<Rightarrow> 'r up_act" where
  "remove_staging dry staging a = bind_act a (\<lambda>r.
     if dry then return_act r
     else logging (RemovedStaging staging)
       (bind_act (on_os (os_remove_all (path_components staging))) (\<lambda>_. return_act r)))"

definition upgrade_to :: "up_env \<Rightarrow> target \<Rightarrow> up_options \<Rightarrow> bundle_version \<Rightarrow> update_manifest \<Rightarrow> up_done up_act" where
  "upgrade_to env t opts st m =
     note_then (''target='' @ tg_id t @ '' manifest: name='' @ um_name m @ '' url='' @ um_url m)
       (if um_url m = [] \<or> um_name m = [] then return_act (Inl (MissingFields m))
        else if \<not> bv_missing st \<and> um_name m = bv_current st
        then handle_current_version env t (bv_current st) opts
        else rbind_act (make_staging_dir env t (um_name m)) (\<lambda>staging.
          remove_staging (uo_dry_run opts) staging (install_staged env t opts m staging)))"

definition require_trust :: "up_env \<Rightarrow> bool \<Rightarrow> unit up_act" where
  "require_trust env dry =
     (if dry then return_act (Inr ())
      else logging TrustChecked (bind_act (on_os (ev_trust_ca env))
        (\<lambda>r. return_act (case r of Some e \<Rightarrow> Inl (TrustRequired e) | None \<Rightarrow> Inr ()))))"

definition run_upgrade :: "up_env \<Rightarrow> target \<Rightarrow> up_options \<Rightarrow> up_done up_act" where
  "run_upgrade env t opts =
     (case resolve_channel (tg_updater t) (uo_channel opts) of
        Inl e \<Rightarrow> return_act (Inl (ChannelFailed e))
      | Inr channel \<Rightarrow>
          rbind_act (resolve_bundle_version env t) (\<lambda>st.
          note_bundle_version t channel st (
          rbind_act (require_trust env (uo_dry_run opts)) (\<lambda>_.
          bind_act (fetch_manifest env t (bv_current st) channel) (\<lambda>r.
            case r of
              Inl e \<Rightarrow> if e = NoUpdate then skip_run (no_update_message (tg_id t) channel)
                       else return_act (Inl e)
            | Inr m \<Rightarrow> upgrade_to env t opts st m)))))"

definition check_available :: "up_env \<Rightarrow> target \<Rightarrow> string \<Rightarrow> update_check up_act" where
  "check_available env t override =
     (case resolve_channel (tg_updater t) override of
        Inl e \<Rightarrow> return_act (Inl (ChannelFailed e))
      | Inr channel \<Rightarrow>
          rbind_act (resolve_bundle_version env t) (\<lambda>st.
          bind_act (fetch_manifest env t (bv_current st) channel) (\<lambda>r.
            return_act (case r of
              Inl e \<Rightarrow> if e = NoUpdate
                then Inr \<lparr>uc_current = bv_current st, uc_available = [], uc_update = False\<rparr> else Inl e
            | Inr m \<Rightarrow> Inr \<lparr>uc_current = bv_current st, uc_available = um_name m,
                uc_update = bv_missing st \<or> um_name m \<noteq> [] \<and> um_name m \<noteq> bv_current st\<rparr>))))"

end
