(* ===== verification/Go_Regexp.thy ===== *)
theory Go_Regexp
  imports Go_Strings
begin

text \<open>
  The part of Go's \<open>regexp\<close> the code uses: sequences of literals, greedy repetitions of a
  class of characters, the shortest repetition of any character, alternatives of literals
  and an optional character, with the leftmost-first choice Go makes. A pattern is run with
  a continuation, the rest of the pattern, and backtracks when the continuation fails; every
  pattern of the code starts with a literal, so an empty match does not arise. Matching is on
  bytes, which for these patterns (all literals are ASCII) is matching on runes.
\<close>

datatype piece =
    Exactly string
  | Many "char \<Rightarrow> bool"          \<comment> \<open>\<open>[class]*\<close>\<close>
  | Shortest                       \<comment> \<open>\<open>.*?\<close> under \<open>(?s)\<close>\<close>
  | OneOf "string list"            \<comment> \<open>\<open>(?:a|b)\<close>\<close>
  | Optional char                  \<comment> \<open>\<open>c?\<close>\<close>

fun piece_weight :: "piece \<Rightarrow> nat" where
  "piece_weight (OneOf ws) = Suc (length ws)"
| "piece_weight _ = 1"

function re_run :: "piece list \<Rightarrow> (string \<Rightarrow> 'r option) \<Rightarrow> string \<Rightarrow> 'r option" where
  "re_run [] k s = k s"
| "re_run (Exactly w # ps) k s = (if prefix w s then re_run ps k (drop (length w) s) else None)"
| "re_run (Many p # ps) k [] = re_run ps k []"
| "re_run (Many p # ps) k (c # s) =
     (if p c then (case re_run (Many p # ps) k s of Some r \<Rightarrow> Some r | None \<Rightarrow> re_run ps k (c # s))
      else re_run ps k (c # s))"
| "re_run (Shortest # ps) k [] = re_run ps k []"
| "re_run (Shortest # ps) k (c # s) =
     (case re_run ps k (c # s) of Some r \<Rightarrow> Some r | None \<Rightarrow> re_run (Shortest # ps) k s)"
| "re_run (OneOf [] # ps) k s = None"
| "re_run (OneOf (w # ws) # ps) k s =
     (case (if prefix w s then re_run ps k (drop (length w) s) else None) of
        Some r \<Rightarrow> Some r | None \<Rightarrow> re_run (OneOf ws # ps) k s)"
| "re_run (Optional c # ps) k s =
     (case (if prefix [c] s then re_run ps k (drop 1 s) else None) of
        Some r \<Rightarrow> Some r | None \<Rightarrow> re_run ps k s)"
  by pat_completeness auto
termination
  by (relation "measures [\<lambda>(ps, k, s). sum_list (map piece_weight ps), \<lambda>(ps, k, s). length s]") auto

text \<open>The input after a match at the very start.\<close>

definition re_match :: "piece list \<Rightarrow> string \<Rightarrow> string option" where
  "re_match ps s = re_run ps Some s"

text \<open>\<open>re.MatchString\<close>\<close>

fun re_contains :: "piece list \<Rightarrow> string \<Rightarrow> bool" where
  "re_contains ps [] = (re_match ps [] \<noteq> None)"
| "re_contains ps (c # s) = (re_match ps (c # s) \<noteq> None \<or> re_contains ps s)"

text \<open>
  \<open>re.FindStringSubmatch\<close> of a pattern with one group: the text of the group in the leftmost
  match.
\<close>

definition re_group :: "piece list \<Rightarrow> piece list \<Rightarrow> piece list \<Rightarrow> string \<Rightarrow> string option" where
  "re_group bs grp as s =
     re_run bs (\<lambda>s1. re_run grp (\<lambda>s2. re_run as (\<lambda>_. Some (take (length s1 - length s2) s1)) s2) s1) s"

fun re_find_group :: "piece list \<Rightarrow> piece list \<Rightarrow> piece list \<Rightarrow> string \<Rightarrow> string option" where
  "re_find_group b g a [] = re_group b g a []"
| "re_find_group b g a (c # s) =
     (case re_group b g a (c # s) of Some v \<Rightarrow> Some v | None \<Rightarrow> re_find_group b g a s)"

text \<open>\<open>re.ReplaceAllStringFunc\<close> (and \<open>ReplaceAllString\<close> of a text without \<open>$\<close>).\<close>

function re_replace :: "piece list \<Rightarrow> (string \<Rightarrow> string) \<Rightarrow> string \<Rightarrow> string" where
  "re_replace ps f [] = []"
| "re_replace ps f (c # s) =
     (case re_match ps (c # s) of
        None \<Rightarrow> c # re_replace ps f s
      | Some r \<Rightarrow> if length r \<le> length s then f (take (Suc (length s) - length r) (c # s)) @ re_replace ps f r
                 else c # re_replace ps f s)"
  by pat_completeness auto
termination
  by (relation "measure (\<lambda>(ps, f, s). length s)") auto

section \<open>Deterministic pieces\<close>

text \<open>
  When what follows starts with a character outside the class, a greedy repetition takes
  the whole run: giving characters back cannot make a literal match that starts with a
  character outside the class.
\<close>

lemma re_run_Many:
  assumes "list_all p a" "\<not> p c" "\<And>x y. p x \<Longrightarrow> re_run ps k (x # y) = None"
  shows "re_run (Many p # ps) k (a @ c # s) = re_run ps k (c # s)"
  using assms(1,2) by (induction a) (auto simp: assms(3) split: option.split)

lemma re_run_Many_stuck:
  assumes "\<And>y. re_run ps k y = None"
  shows "re_run (Many p # ps) k s = None"
  by (induction s) (auto simp: assms)

lemma re_run_Exactly: "re_run (Exactly w # ps) k (w @ s) = re_run ps k s"
  by simp

lemma re_run_Exactly_Cons:
  "re_run (Exactly (c # w) # ps) k (d # s) = (if c = d \<and> prefix w s then re_run ps k (drop (length w) s) else None)"
  by simp

text \<open>A shortest repetition ends at the first place where the rest matches.\<close>

lemma re_run_Shortest:
  assumes "\<And>x y. suffix (x # y) a \<Longrightarrow> re_run ps k (x # y @ s) = None"
  shows "re_run (Shortest # ps) k (a @ s) = re_run (Shortest # ps) k s"
  using assms
proof (induction a)
  case (Cons x a)
  have "re_run ps k (x # a @ s) = None" using Cons.prems [of x a] by simp
  moreover have "re_run (Shortest # ps) k (a @ s) = re_run (Shortest # ps) k s"
    by (rule Cons.IH) (use Cons.prems in \<open>auto intro: suffix_ConsI\<close>)
  ultimately show ?case by simp
qed simp

lemma re_run_Shortest_here: "re_run ps k s = Some r \<Longrightarrow> re_run (Shortest # ps) k s = Some r"
  by (cases s) simp_all

section \<open>Searching past text without a match\<close>

definition no_match :: "piece list \<Rightarrow> string \<Rightarrow> string \<Rightarrow> bool" where
  "no_match ps a b \<longleftrightarrow> (\<forall>x y. suffix (x # y) a \<longrightarrow> re_match ps (x # y @ b) = None)"

lemma no_match_Nil [simp]: "no_match ps [] b"
  by (simp add: no_match_def)

lemma no_match_Cons: "no_match ps (x # a) b \<longleftrightarrow> re_match ps (x # a @ b) = None \<and> no_match ps a b"
  by (auto simp: no_match_def suffix_Cons)

lemma re_replace_skip: "no_match ps a b \<Longrightarrow> re_replace ps f (a @ b) = a @ re_replace ps f b"
  by (induction a) (auto simp: no_match_Cons)

lemma re_contains_skip: "no_match ps a b \<Longrightarrow> re_contains ps (a @ b) = re_contains ps b"
  by (induction a) (auto simp: no_match_Cons)

lemma re_replace_hit:
  assumes "re_match ps (m @ s) = Some s" "m \<noteq> []"
  shows "re_replace ps f (m @ s) = f m @ re_replace ps f s"
  using assms by (cases m) auto

end
