(* ===== verification/Entitlements.thy ===== *)
theory Entitlements
  imports Go_Regexp Spec_Types
begin

text \<open>
  \<open>internal/patch/entitlements.go\<close>: the rewriting of an entitlement list as text, and the
  checks of the signed result. The list is specified as a dictionary: \<open>renders\<close> says that
  a text is a property list of a dictionary, with any white space between its elements,
  and the rewriting implements the obvious operations on the dictionary.
\<close>

section \<open>Patterns\<close>

definition re_space :: "char \<Rightarrow> bool" where   \<comment> \<open>\<open>\s\<close>\<close>
  "re_space c \<longleftrightarrow> c = CHR 0x09 \<or> c = CHR 0x0A \<or> c = CHR 0x0C \<or> c = CHR 0x0D \<or> c = CHR '' ''"

abbreviation spaces :: piece where "spaces \<equiv> Many re_space"
abbreviation no_tag :: piece where "no_tag \<equiv> Many (\<lambda>c. c \<noteq> CHR ''<'')"   \<comment> \<open>\<open>[^<]*\<close>\<close>

definition key_tag :: "string \<Rightarrow> string" where
  "key_tag key = ''<key>'' @ key @ ''</key>''"

definition boolean_pattern :: "string \<Rightarrow> piece list" where
  "boolean_pattern key =
     [Exactly ''<key>'', spaces, Exactly key, spaces, Exactly ''</key>'', spaces,
      Exactly ''<true'', spaces, Exactly ''/>'']"

definition key_pattern :: "string \<Rightarrow> piece list" where
  "key_pattern key = [Exactly ''<key>'', spaces, Exactly key, spaces, Exactly ''</key>'']"

definition has_boolean_entitlement :: "string \<Rightarrow> string \<Rightarrow> bool" where
  "has_boolean_entitlement xml key = re_contains (boolean_pattern key) xml"

definition has_entitlement_key :: "string \<Rightarrow> string \<Rightarrow> bool" where
  "has_entitlement_key xml key = re_contains (key_pattern key) xml"

section \<open>Stripping\<close>

definition strip_tail :: "piece list" where
  "strip_tail = [spaces, Optional (CHR 0x0A)]"

definition scalar_shape :: "string \<Rightarrow> piece list" where
  "scalar_shape tag = [Exactly (''<'' @ tag @ ''>''), no_tag, Exactly (''</'' @ tag @ ''>'')]"

definition container_shape :: "string \<Rightarrow> piece list" where
  "container_shape tag = [Exactly (''<'' @ tag @ ''>''), Shortest, Exactly (''</'' @ tag @ ''>'')]"

definition value_shapes :: "piece list list" where
  "value_shapes =
     [Exactly ''<'', OneOf [''true'', ''false''], Exactly ''/>''] #
     map scalar_shape [''string'', ''integer'', ''real'', ''date'', ''data''] @
     map container_shape [''array'', ''dict'']"

definition strip_pattern :: "string \<Rightarrow> piece list \<Rightarrow> piece list" where
  "strip_pattern key shape = [Exactly (key_tag key), spaces] @ shape @ strip_tail"

definition strip_entitlement_key :: "string \<Rightarrow> string \<Rightarrow> string" where
  "strip_entitlement_key xml key =
     fold (\<lambda>shape s. re_replace (strip_pattern key shape) (\<lambda>_. []) s) value_shapes xml"

section \<open>Required entitlements\<close>

datatype ent_error = NotTrue string | NoDict string

text \<open>\<open>strings.LastIndex(s, sub)\<close> as the text before and from the last occurrence.\<close>

fun split_last :: "string \<Rightarrow> string \<Rightarrow> (string \<times> string) option" where
  "split_last sub [] = (if sub = [] then Some ([], []) else None)"
| "split_last sub (c # s) =
     (case split_last sub s of
        Some (a, b) \<Rightarrow> Some (c # a, b)
      | None \<Rightarrow> if prefix sub (c # s) then Some ([], c # s) else None)"

definition new_entry :: "string \<Rightarrow> string" where
  "new_entry key = [CHR 0x09] @ key_tag key @ [CHR 0x0A, CHR 0x09] @ ''<true/>'' @ [CHR 0x0A]"

definition ensure_boolean_entitlement :: "string \<Rightarrow> string \<Rightarrow> (ent_error, string) result" where
  "ensure_boolean_entitlement xml key =
     (if has_boolean_entitlement xml key then Inr xml
      else if contains (key_tag key) xml then Inl (NotTrue key)
      else case split_last ''</dict>'' xml of
        None \<Rightarrow> Inl (NoDict key)
      | Some (a, b) \<Rightarrow> Inr (a @ new_entry key @ b))"

section \<open>Team-scoped values\<close>

definition app_identifier_key :: string where
  "app_identifier_key = ''com.apple.application-identifier''"

definition team_scoped_keys :: "string list" where
  "team_scoped_keys = [app_identifier_key, ''com.apple.developer.team-identifier'', ''keychain-access-groups'']"

definition derive_upstream :: "string \<Rightarrow> string \<times> string" where
  "derive_upstream xml =
     (case re_find_group
         [Exactly ''<key>'', spaces, Exactly app_identifier_key, spaces, Exactly ''</key>'', spaces, Exactly ''<string>'']
         [no_tag] [Exactly ''</string>''] xml of
        None \<Rightarrow> ([], [])
      | Some v \<Rightarrow> (case cut (CHR ''.'') (trim_space v) of None \<Rightarrow> ([], []) | Some tb \<Rightarrow> tb))"

definition rewrite_team_value :: "string \<Rightarrow> string \<Rightarrow> string \<Rightarrow> string \<Rightarrow> string" where
  "rewrite_team_value upstream own bundle v =
     (let value = trim_space v; pre = upstream @ ''.'' in
      if value = upstream then own
      else if \<not> prefix pre value then value
      else let rest = trim_prefix pre value in
        if rest = ''*'' then own @ ''.'' @ bundle else own @ ''.'' @ rest)"

definition string_pattern :: "piece list" where
  "string_pattern = scalar_shape ''string''"

text \<open>The group of a match of \<open>string_pattern\<close> is what stands between the two tags.\<close>

definition string_element :: "string \<Rightarrow> string" where
  "string_element v = ''<string>'' @ v @ ''</string>''"

definition element_text :: "string \<Rightarrow> string" where
  "element_text m = take (length m - 17) (drop 8 m)"

definition rewrite_block :: "(string \<Rightarrow> string) \<Rightarrow> string \<Rightarrow> string" where
  "rewrite_block f = re_replace string_pattern (\<lambda>m. string_element (f (element_text m)))"

definition value_pattern :: "string \<Rightarrow> piece list \<Rightarrow> piece list" where
  "value_pattern key shape =
     [Exactly ''<key>'', spaces, Exactly key, spaces, Exactly ''</key>'', spaces] @ shape"

definition rewrite_key_values :: "(string \<Rightarrow> string) \<Rightarrow> string \<Rightarrow> string \<Rightarrow> string" where
  "rewrite_key_values f key xml =
     re_replace (value_pattern key (container_shape ''array'')) (rewrite_block f)
       (re_replace (value_pattern key (scalar_shape ''string'')) (rewrite_block f) xml)"

definition rewrite_team_scoped :: "string \<Rightarrow> string \<Rightarrow> string" where
  "rewrite_team_scoped local_team xml =
     (let own = trim_space local_team; (upstream, bundle) = derive_upstream xml in
      if own = [] \<or> upstream = [] then xml
      else fold (rewrite_key_values (rewrite_team_value upstream own bundle)) team_scoped_keys xml)"

fun ensure_all :: "string list \<Rightarrow> string \<Rightarrow> (ent_error, string) result" where
  "ensure_all [] xml = Inr xml"
| "ensure_all (key # ks) xml = rbind (ensure_boolean_entitlement xml key) (ensure_all ks)"

definition augment_entitlements :: "string \<Rightarrow> entitlements_spec \<Rightarrow> string \<Rightarrow> (ent_error, string) result" where
  "augment_entitlements local_team policy xml =
     rbind (ensure_all (ent_required policy)
              (fold (\<lambda>key s. strip_entitlement_key s key) (ent_strip policy) xml))
       (\<lambda>s. Inr (rewrite_team_scoped local_team s))"

text \<open>The check of the signed code: every required key is true, no stripped key is there.\<close>

definition verify_entitlement_text :: "entitlements_spec \<Rightarrow> string \<Rightarrow> bool" where
  "verify_entitlement_text policy xml \<longleftrightarrow>
     list_all (has_boolean_entitlement xml) (ent_required policy) \<and>
     list_all (\<lambda>key. \<not> has_entitlement_key xml key) (ent_strip policy)"

end
