(* ===== verification/Entitlement_Dict.thy ===== *)
theory Entitlement_Dict
  imports Entitlements
begin

text \<open>
  The dictionary an entitlement list stands for, the texts that render it, and what the
  pattern searches and replacements of \<open>Entitlements\<close> do on such a text: one lemma per
  operation, from the text to the dictionary.
\<close>

section \<open>Dictionaries and their texts\<close>

datatype ent_value = Truth bool | Scalar string string | Strings "string list"

type_synonym ent_dict = "(string \<times> ent_value) list"

definition scalar_tags :: "string list" where
  "scalar_tags = [''string'', ''integer'', ''real'', ''date'', ''data'']"

definition plain_text :: "string \<Rightarrow> bool" where
  "plain_text v \<longleftrightarrow> list_all (\<lambda>c. c \<noteq> CHR ''<'') v"

definition plain_key :: "string \<Rightarrow> bool" where
  "plain_key k \<longleftrightarrow> list_all (\<lambda>c. c \<noteq> CHR ''<'' \<and> \<not> re_space c) k"

definition white :: "string \<Rightarrow> bool" where
  "white = list_all re_space"

inductive strings_text :: "string list \<Rightarrow> string \<Rightarrow> bool" where
  strings_end: "white w \<Longrightarrow> strings_text [] w"
| strings_next: "white w \<Longrightarrow> plain_text v \<Longrightarrow> strings_text vs b \<Longrightarrow> strings_text (v # vs) (w @ string_element v @ b)"

inductive value_text :: "ent_value \<Rightarrow> string \<Rightarrow> bool" where
  text_true: "value_text (Truth True) ''<true/>''"
| text_false: "value_text (Truth False) ''<false/>''"
| text_scalar: "tag \<in> set scalar_tags \<Longrightarrow> plain_text v \<Longrightarrow>
    value_text (Scalar tag v) (''<'' @ tag @ ''>'' @ v @ ''</'' @ tag @ ''>'')"
| text_strings: "strings_text vs b \<Longrightarrow> value_text (Strings vs) (''<array>'' @ b @ ''</array>'')"

inductive items_text :: "ent_dict \<Rightarrow> string \<Rightarrow> bool" where
  items_end: "white w \<Longrightarrow> items_text [] w"
| items_next: "white w \<Longrightarrow> plain_key k \<Longrightarrow> white w2 \<Longrightarrow> value_text v t \<Longrightarrow> items_text d b \<Longrightarrow>
    items_text ((k, v) # d) (w @ key_tag k @ w2 @ t @ b)"

text \<open>Every \<open><\<close> of the text is followed, still in the text, by another character than \<open>c\<close>.\<close>

fun no_start :: "char \<Rightarrow> string \<Rightarrow> bool" where
  "no_start c (a # b # s) \<longleftrightarrow> (a = CHR ''<'' \<longrightarrow> b \<noteq> c) \<and> no_start c (b # s)"
| "no_start c [a] \<longleftrightarrow> a \<noteq> CHR ''<''"
| "no_start c [] \<longleftrightarrow> True"

definition renders :: "ent_dict \<Rightarrow> string \<Rightarrow> bool" where
  "renders d xml \<longleftrightarrow> (\<exists>pre b post. xml = pre @ b @ ''</dict>'' @ post \<and> items_text d b \<and>
     no_start (CHR ''k'') pre \<and> no_start (CHR ''k'') post \<and> \<not> contains ''</dict>'' post)"

section \<open>Tags\<close>

lemma no_start_append [simp]: "no_start c a \<Longrightarrow> no_start c b \<Longrightarrow> no_start c (a @ b)"
proof (induction a rule: induct_list012)
  case (2 x)
  then show ?case by (cases b) simp_all
next
  case (3 x y zs)
  then show ?case by simp
qed simp

lemma no_start_plain: "list_all (\<lambda>c. c \<noteq> CHR ''<'') a \<Longrightarrow> no_start c a"
  by (induction a rule: induct_list012) simp_all

lemma white_no_tag: "white w \<Longrightarrow> list_all (\<lambda>c. c \<noteq> CHR ''<'') w"
  unfolding white_def by (erule list.pred_mono_strong) (auto simp only: re_space_def char.inject simp_thms)

lemma no_start_white: "white w \<Longrightarrow> no_start c w"
  by (rule no_start_plain, rule white_no_tag)

lemma plain_key_text: "plain_key k \<Longrightarrow> plain_text k"
  by (auto simp: plain_key_def plain_text_def list_all_iff)

lemma no_start_text: "plain_text v \<Longrightarrow> no_start c v"
  by (simp add: plain_text_def no_start_plain)

lemma no_start_Cons [simp]: "a \<noteq> CHR ''<'' \<Longrightarrow> no_start c (a # s) \<longleftrightarrow> no_start c s"
  by (cases s) simp_all

lemma no_start_skip: "list_all (\<lambda>c. c \<noteq> CHR ''<'') a \<Longrightarrow> no_start c (a @ s) \<longleftrightarrow> no_start c s"
  by (induction a) simp_all

lemma no_start_skips [simp]: "plain_text v \<Longrightarrow> no_start c (v @ s) \<longleftrightarrow> no_start c s"
  "white w \<Longrightarrow> no_start c (w @ s) \<longleftrightarrow> no_start c s"
  by (simp_all add: no_start_skip plain_text_def white_no_tag)

lemma no_start_not_prefix:
  assumes "no_start c a" "suffix s a" "s \<noteq> []"
  shows "\<not> prefix (CHR ''<'' # c # w) (s @ b)"
proof -
  have "no_start c s" using assms(1,2)
    by (induction a rule: induct_list012) (auto simp: suffix_Cons)
  with assms(3) show ?thesis by (cases s rule: remdups_adj.cases) auto
qed

lemma no_match_no_start:
  assumes "no_start c a"
  shows "no_match (Exactly (CHR ''<'' # c # w) # ps) a b"
proof -
  have "\<not> prefix (CHR ''<'' # c # w) (x # y @ b)" if "suffix (x # y) a" for x y
    using no_start_not_prefix [OF assms that, of w b] by simp
  then show ?thesis
    unfolding no_match_def re_match_def by (intro allI impI) (simp only: re_run.simps if_False)
qed


section \<open>Keys\<close>

lemma re_space_tag [simp]: "\<not> re_space (CHR ''<'')" "\<not> re_space (CHR ''>'')"
  by (simp_all add: re_space_def)

lemma re_run_Many_none [simp]: "\<not> p c \<Longrightarrow> re_run (Many p # ps) k (c # s) = re_run ps k (c # s)"
  by simp

lemma prefix_plain: "plain_text w \<Longrightarrow> prefix w (k @ CHR ''<'' # y) \<longleftrightarrow> prefix w k"
proof (induction w arbitrary: k)
  case (Cons a w)
  then show ?case by (cases k) (auto simp: plain_text_def)
qed simp

lemma spaces_plain:
  assumes "plain_key k"
  shows "re_run (spaces # ps) kk (k @ CHR ''<'' # y) = re_run ps kk (k @ CHR ''<'' # y)"
  using assms by (cases k) (simp_all add: plain_key_def)

lemma key_run:
  assumes k: "plain_key k" and key: "plain_key key"
  shows "re_run (Exactly ''<key>'' # spaces # Exactly key # spaces # Exactly ''</key>'' # ps) kk (key_tag k @ x) =
    (if k = key then re_run ps kk x else None)"
proof -
  have "re_run (Exactly ''<key>'' # spaces # Exactly key # spaces # Exactly ''</key>'' # ps) kk (key_tag k @ x) =
      re_run (spaces # Exactly key # spaces # Exactly ''</key>'' # ps) kk (k @ CHR ''<'' # ''/key>'' @ x)"
    by (simp add: key_tag_def)
  also have "\<dots> = re_run (Exactly key # spaces # Exactly ''</key>'' # ps) kk (k @ CHR ''<'' # ''/key>'' @ x)"
    by (rule spaces_plain [OF k])
  also have "\<dots> = (if k = key then re_run ps kk x else None)"
  proof (cases "prefix key k")
    case True
    then obtain z where z: "k = key @ z" by (auto simp: prefix_def)
    then have pz: "plain_key z" using k by (simp add: plain_key_def)
    have "re_run (Exactly key # spaces # Exactly ''</key>'' # ps) kk (k @ CHR ''<'' # ''/key>'' @ x) =
        re_run (spaces # Exactly ''</key>'' # ps) kk (z @ CHR ''<'' # ''/key>'' @ x)"
      by (simp add: z del: re_run.simps(3-9))
    also have "\<dots> = re_run (Exactly ''</key>'' # ps) kk (z @ CHR ''<'' # ''/key>'' @ x)"
      by (rule spaces_plain [OF pz])
    also have "\<dots> = (if z = [] then re_run ps kk x else None)"
      using pz by (cases z) (auto simp: plain_key_def)
    finally show ?thesis by (simp add: z)
  next
    case False
    with prefix_plain [OF plain_key_text [OF key], of k] show ?thesis by auto
  qed
  finally show ?thesis .
qed

lemma key_tag_prefix:
  assumes "plain_text k" "plain_text key"
  shows "prefix (key_tag key) (key_tag k @ x) \<longleftrightarrow> k = key"
proof -
  have "prefix (key @ ''</key>'') (k @ ''</key>'' @ x) \<longleftrightarrow> k = key"
    using assms
  proof (induction key arbitrary: k)
    case Nil
    then show ?case by (cases k) (auto simp: plain_text_def)
  next
    case (Cons a key)
    then show ?case by (cases k) (auto simp: plain_text_def)
  qed
  then show ?thesis by (simp add: key_tag_def)
qed

section \<open>Values\<close>

datatype shape_kind = KTruth | KScalar string | KContainer string

fun shape_of :: "shape_kind \<Rightarrow> piece list" where
  "shape_of KTruth = [Exactly ''<'', OneOf [''true'', ''false''], Exactly ''/>'']"
| "shape_of (KScalar tag) = scalar_shape tag"
| "shape_of (KContainer tag) = container_shape tag"

fun fits :: "shape_kind \<Rightarrow> ent_value \<Rightarrow> bool" where
  "fits KTruth (Truth _) = True"
| "fits (KScalar tag) (Scalar tag' _) = (tag = tag')"
| "fits (KContainer tag) (Strings _) = (tag = ''array'')"
| "fits _ _ = False"

definition shape_kinds :: "shape_kind list" where
  "shape_kinds = KTruth # map KScalar scalar_tags @ map KContainer [''array'', ''dict'']"

lemma value_shapes_kinds: "value_shapes = map shape_of shape_kinds"
  by (simp add: value_shapes_def shape_kinds_def scalar_tags_def)

lemma scalar_run:
  assumes "plain_text v"
  shows "re_run (no_tag # Exactly (CHR ''<'' # w) # ps) kk (v @ CHR ''<'' # y) =
    re_run (Exactly (CHR ''<'' # w) # ps) kk (CHR ''<'' # y)"
  using assms by (intro re_run_Many) (simp_all add: plain_text_def)

lemma no_match_append: "no_match ps (a @ b) s \<longleftrightarrow> no_match ps a (b @ s) \<and> no_match ps b s"
  by (induction a) (auto simp: no_match_Cons)

lemma no_match_plain: "plain_text a \<Longrightarrow> no_match (Exactly (CHR ''<'' # c # w) # ps) a b"
  by (rule no_match_no_start [OF no_start_text])

lemma no_match_white: "white a \<Longrightarrow> no_match (Exactly (CHR ''<'' # c # w) # ps) a b"
  by (rule no_match_no_start [OF no_start_white])

lemmas no_match_simps = no_match_append no_match_Cons no_match_plain no_match_white re_match_def

lemma strings_no_array: "strings_text vs b \<Longrightarrow> no_match [Exactly ''</array>''] b s"
  by (induction rule: strings_text.induct) (simp_all add: no_match_simps string_element_def)

lemma strings_no_start: "strings_text vs b \<Longrightarrow> no_start (CHR ''k'') b"
  by (induction rule: strings_text.induct)
     (simp_all add: string_element_def no_start_white)

lemma array_run:
  assumes "strings_text vs b" "re_run ps kk rest = Some r"
  shows "re_run (Shortest # Exactly ''</array>'' # ps) kk (b @ ''</array>'' @ rest) = Some r"
proof -
  have "\<not> prefix ''</array>'' (x # y @ ''</array>'' @ rest)" if "suffix (x # y) b" for x y
    using strings_no_array [OF assms(1), of "''</array>'' @ rest"] that
    unfolding no_match_def re_match_def by (auto simp del: prefix_Cons split: if_splits)
  then have "re_run (Exactly ''</array>'' # ps) kk (x # y @ ''</array>'' @ rest) = None" if "suffix (x # y) b" for x y
    using that by (simp only: re_run.simps if_False)
  then have "re_run (Shortest # Exactly ''</array>'' # ps) kk (b @ ''</array>'' @ rest) =
      re_run (Shortest # Exactly ''</array>'' # ps) kk (''</array>'' @ rest)"
    by (rule re_run_Shortest)
  also have "\<dots> = Some r"
    by (rule re_run_Shortest_here) (use assms(2) in simp)
  finally show ?thesis .
qed

lemma shape_run:
  assumes kind: "kind \<in> set shape_kinds" and v: "value_text v t" and rest: "re_run ps kk rest = Some r"
  shows "re_run (shape_of kind @ ps) kk (t @ rest) = (if fits kind v then Some r else None)"
  using v
proof cases
  case (text_scalar tag u)
  have run: "re_run (no_tag # Exactly (CHR ''<'' # w) # ps) kk (u @ CHR ''<'' # y) =
      re_run (Exactly (CHR ''<'' # w) # ps) kk (CHR ''<'' # y)" for w y
    by (rule scalar_run [OF text_scalar(4)])
  show ?thesis
    using kind text_scalar(3) rest
    by (auto simp: text_scalar(1,2) shape_kinds_def scalar_tags_def scalar_shape_def container_shape_def run
        simp del: re_run.simps(3,4))
next
  case (text_strings vs b)
  then show ?thesis
    using kind rest array_run [OF text_strings(3) rest]
    by (auto simp: shape_kinds_def scalar_tags_def scalar_shape_def container_shape_def simp del: re_run.simps(5,6))
qed (use kind rest in \<open>auto simp: shape_kinds_def scalar_tags_def scalar_shape_def container_shape_def\<close>)


lemma value_no_start: "value_text v t \<Longrightarrow> no_start (CHR ''k'') t"
proof (induction rule: value_text.induct)
  case (text_scalar tag v)
  then show ?case by (auto simp: scalar_tags_def)
next
  case (text_strings vs b)
  then show ?case using strings_no_start [OF text_strings.hyps] by simp
qed simp_all

lemma value_starts: "value_text v t \<Longrightarrow> \<exists>t'. t = CHR ''<'' # t'"
  by (cases rule: value_text.cases) auto

section \<open>Items\<close>

definition item_text :: "string \<Rightarrow> string \<Rightarrow> string \<Rightarrow> string" where
  "item_text k w t = key_tag k @ w @ t"

text \<open>No pattern that starts with the tag of a key matches inside an item.\<close>

definition key_first :: "piece list \<Rightarrow> bool" where
  "key_first ps \<longleftrightarrow> (\<exists>w qs. ps = Exactly (''<key>'' @ w) # qs)"

lemma key_first_patterns [simp]:
  "key_first (Exactly (key_tag key) # ps)" "key_first (strip_pattern key shape)"
  "key_first (value_pattern key shape)" "key_first (boolean_pattern key)" "key_first (key_pattern key)"
  by (auto simp: key_first_def key_tag_def strip_pattern_def value_pattern_def boolean_pattern_def key_pattern_def)

lemma no_match_key_first:
  assumes "key_first ps" "no_start (CHR ''k'') a"
  shows "no_match ps a b"
  using assms no_match_no_start [OF assms(2)] by (auto simp: key_first_def)

lemma item_miss:
  assumes "key_first ps" "plain_key k" "white w" "value_text v t"
    and "re_match ps (item_text k w t @ rest) = None"
  shows "no_match ps (item_text k w t) rest"
proof -
  have "no_start (CHR ''k'') (''key>'' @ k @ ''</key>'' @ w @ t)"
    using assms by (simp add: plain_key_text value_no_start)
  from no_match_key_first [OF assms(1) this, of rest] assms(5) show ?thesis
    by (simp add: item_text_def key_tag_def no_match_Cons)
qed

text \<open>Searching a rendered dictionary is searching its items.\<close>

lemma re_contains_none: "no_match ps a [] \<Longrightarrow> re_match ps [] = None \<Longrightarrow> \<not> re_contains ps a"
  by (induction a) (auto simp: no_match_Cons)

lemma re_contains_items:
  assumes "items_text d b" "key_first ps" "no_start (CHR ''k'') x"
    and "\<And>k v w t rest. plain_key k \<Longrightarrow> white w \<Longrightarrow> value_text v t \<Longrightarrow>
      re_match ps (item_text k w t @ rest) \<noteq> None \<longleftrightarrow> P (k, v)"
  shows "re_contains ps (b @ x) \<longleftrightarrow> list_ex P d"
  using assms(1)
proof (induction rule: items_text.induct)
  case (items_end w)
  have "no_match ps (w @ x) []"
    by (rule no_match_key_first [OF assms(2)]) (simp add: items_end assms(3))
  moreover have "re_match ps [] = None"
    using assms(2) by (auto simp: key_first_def re_match_def)
  ultimately show ?case by (simp add: re_contains_none)
next
  case (items_next w k w2 v t d b)
  have w: "no_match ps w s" for s
    by (rule no_match_key_first [OF assms(2)]) (simp add: items_next(1) no_start_white)
  have split: "(w @ key_tag k @ w2 @ t @ b) @ x = w @ item_text k w2 t @ b @ x"
    by (simp add: item_text_def)
  show ?case
  proof (cases "P (k, v)")
    case True
    then have "re_match ps (item_text k w2 t @ b @ x) \<noteq> None"
      using assms(4) items_next by blast
    then have "re_contains ps (item_text k w2 t @ b @ x)"
      by (cases "item_text k w2 t @ b @ x") auto
    with True show ?thesis unfolding split by (simp add: re_contains_skip [OF w])
  next
    case False
    then have "re_match ps (item_text k w2 t @ b @ x) = None"
      using assms(4) items_next by blast
    from item_miss [OF assms(2) items_next(2-4) this] False items_next.IH show ?thesis
      unfolding split by (simp add: re_contains_skip [OF w] re_contains_skip)
  qed
qed


lemma white_run:
  assumes "white w" "value_text v t"
  shows "re_run (spaces # Exactly (CHR ''<'' # u) # ps) kk (w @ t @ rest) = re_run (Exactly (CHR ''<'' # u) # ps) kk (t @ rest)"
proof -
  obtain t' where t: "t = CHR ''<'' # t'" using value_starts [OF assms(2)] by blast
  show ?thesis unfolding t append_Cons
    by (rule re_run_Many) (use assms(1) in \<open>auto simp: white_def\<close>)
qed

lemma boolean_match:
  assumes "plain_key key" "plain_key k" "white w" "value_text v t"
  shows "re_match (boolean_pattern key) (item_text k w t @ rest) \<noteq> None \<longleftrightarrow> k = key \<and> v = Truth True"
proof -
  have "re_match (boolean_pattern key) (item_text k w t @ rest) =
      (if k = key then re_run [Exactly ''<true'', spaces, Exactly ''/>''] Some (t @ rest) else None)"
    by (simp add: boolean_pattern_def item_text_def re_match_def key_run [OF assms(2,1)]
        white_run [OF assms(3,4)] del: re_run.simps)
  moreover have "re_run [Exactly ''<true'', spaces, Exactly ''/>''] Some (t @ rest) \<noteq> None \<longleftrightarrow> v = Truth True"
    using assms(4)
  proof cases
    case (text_scalar tag u)
    then show ?thesis by (auto simp: scalar_tags_def)
  qed (auto simp: re_space_def)
  ultimately show ?thesis by simp
qed

lemma key_match:
  assumes "plain_key key" "plain_key k"
  shows "re_match (key_pattern key) (item_text k w t @ rest) \<noteq> None \<longleftrightarrow> k = key"
  by (simp add: key_pattern_def item_text_def re_match_def key_run [OF assms(2,1)] del: re_run.simps(2-9))

lemma contains_re: "w \<noteq> [] \<Longrightarrow> contains w s \<longleftrightarrow> re_contains [Exactly w] s"
  by (induction s) (auto simp: re_match_def)

text \<open>What the text after the items may be, and the three searches of the code.\<close>

definition dict_end :: "string \<Rightarrow> bool" where
  "dict_end x \<longleftrightarrow> no_start (CHR ''k'') x \<and> (\<exists>y. x = CHR ''<'' # y)"

lemma has_boolean_items:
  assumes "items_text d b" "plain_key key" "dict_end x"
  shows "has_boolean_entitlement (b @ x) key \<longleftrightarrow> (key, Truth True) \<in> set d"
  unfolding has_boolean_entitlement_def
  by (subst re_contains_items [OF assms(1), where P = "\<lambda>(k, v). k = key \<and> v = Truth True"])
     (use assms boolean_match in \<open>auto simp: dict_end_def list_ex_iff\<close>)

lemma key_ex: "list_ex (\<lambda>(k, v). k = key) d \<longleftrightarrow> key \<in> fst ` set d"
  by (induction d) auto

lemma has_key_items:
  assumes "items_text d b" "plain_key key" "dict_end x"
  shows "has_entitlement_key (b @ x) key \<longleftrightarrow> key \<in> fst ` set d"
  unfolding has_entitlement_key_def
  by (subst re_contains_items [OF assms(1), where P = "\<lambda>(k, v). k = key"])
     (use assms key_match in \<open>auto simp: dict_end_def key_ex\<close>)

lemma contains_key_items:
  assumes "items_text d b" "plain_key key" "dict_end x"
  shows "contains (key_tag key) (b @ x) \<longleftrightarrow> key \<in> fst ` set d"
proof -
  have "re_match [Exactly (key_tag key)] (item_text k w t @ rest) \<noteq> None \<longleftrightarrow> k = key"
    if "plain_key k" for k w t rest
    using key_tag_prefix [OF plain_key_text [OF that] plain_key_text [OF assms(2)], of "w @ t @ rest"]
    by (simp add: re_match_def item_text_def)
  then have "re_contains [Exactly (key_tag key)] (b @ x) \<longleftrightarrow> list_ex (\<lambda>(k, v). k = key) d"
    by (intro re_contains_items) (use assms in \<open>auto simp: dict_end_def\<close>)
  moreover have "key_tag key \<noteq> []" by (simp add: key_tag_def)
  ultimately show ?thesis by (simp add: contains_re key_ex)
qed

section \<open>Stripping a dictionary\<close>

definition drop_white :: "string \<Rightarrow> string" where
  "drop_white = dropWhile re_space"

lemma strip_tail_run:
  assumes "\<exists>u y. x = u @ CHR ''<'' # y \<and> white u"
  shows "re_run strip_tail Some x = Some (drop_white x)"
proof -
  obtain u y where x: "x = u @ CHR ''<'' # y" "white u" using assms by blast
  then have "drop_white x = CHR ''<'' # y"
    by (simp add: drop_white_def white_def dropWhile_append list_all_iff)
  moreover have "re_run strip_tail Some (u @ CHR ''<'' # y) = Some (CHR ''<'' # y)"
    using x(2) by (induction u) (auto simp: strip_tail_def white_def)
  ultimately show ?thesis using x(1) by simp
qed

lemma items_lead:
  assumes "items_text d b" "dict_end x"
  shows "\<exists>u y. b @ x = u @ CHR ''<'' # y \<and> white u"
  using assms
proof cases
  case (items_next w k w2 v t d b)
  have "w @ key_tag k @ w2 @ t @ b' = w @ CHR ''<'' # (''key>'' @ k @ ''</key>'' @ w2 @ t @ b')" for b'
    by (simp add: key_tag_def)
  with items_next(2,3) show ?thesis by (metis append.assoc)
qed (auto simp: dict_end_def)


inductive_cases items_emptyE: "items_text [] b"
inductive_cases items_consE: "items_text (it # d) b"

lemma white_append: "white u \<Longrightarrow> white w \<Longrightarrow> white (u @ w)"
  by (simp add: white_def)

lemma items_white: "white u \<Longrightarrow> items_text d b \<Longrightarrow> items_text d (u @ b)"
proof (cases d)
  case Nil
  assume "white u" "items_text d b"
  with Nil show ?thesis by (auto elim!: items_emptyE intro: items_end white_append)
next
  case (Cons it d')
  assume u: "white u" and "items_text d b"
  with Cons obtain w k w2 v t b' where i: "it = (k, v)" "b = w @ key_tag k @ w2 @ t @ b'" "white w"
    "plain_key k" "white w2" "value_text v t" "items_text d' b'"
    by (auto elim!: items_consE)
  from items_next [OF white_append [OF u i(3)] i(4-7)] show ?thesis
    by (simp add: Cons i(1,2))
qed

lemma drop_white_append: "white u \<Longrightarrow> drop_white (u @ CHR ''<'' # y) = CHR ''<'' # y"
  by (simp add: drop_white_def white_def dropWhile_append list_all_iff)

lemma items_drop_white:
  assumes "items_text d b" "dict_end x"
  shows "\<exists>b'. drop_white (b @ x) = b' @ x \<and> items_text d b'"
proof (cases d)
  case Nil
  with assms show ?thesis
    by (auto elim!: items_emptyE simp: dict_end_def drop_white_append white_def intro!: exI [of _ "[]"] items_end)
next
  case (Cons it d')
  with assms(1) obtain w k w2 v t b' where i: "it = (k, v)" "b = w @ key_tag k @ w2 @ t @ b'" "white w"
    "plain_key k" "white w2" "value_text v t" "items_text d' b'"
    by (auto elim!: items_consE)
  have "drop_white (b @ x) = ([] @ key_tag k @ w2 @ t @ b') @ x"
    using i(3) by (simp add: i(2) key_tag_def drop_white_append)
  moreover have "items_text d ([] @ key_tag k @ w2 @ t @ b')"
    unfolding Cons i(1) by (rule items_next) (use i in \<open>simp_all add: white_def\<close>)
  ultimately show ?thesis by blast
qed

lemma strip_match:
  assumes "kind \<in> set shape_kinds" "plain_key key" "plain_key k" "white w" "value_text v t"
    and rest: "\<exists>u y. rest = u @ CHR ''<'' # y \<and> white u"
  shows "re_match (strip_pattern key (shape_of kind)) (item_text k w t @ rest) =
    (if k = key \<and> fits kind v then Some (drop_white rest) else None)"
proof -
  obtain u ps where sh: "shape_of kind = Exactly (CHR ''<'' # u) # ps"
    by (cases kind) (auto simp: scalar_shape_def container_shape_def)
  have "re_match (strip_pattern key (shape_of kind)) (item_text k w t @ rest) =
      (if k = key then re_run (spaces # shape_of kind @ strip_tail) Some (w @ t @ rest) else None)"
    using key_tag_prefix [OF plain_key_text [OF assms(3)] plain_key_text [OF assms(2)], of "w @ t @ rest"]
    by (auto simp: re_match_def strip_pattern_def item_text_def simp del: re_run.simps(3-9))
  also have "re_run (spaces # shape_of kind @ strip_tail) Some (w @ t @ rest) =
      re_run (shape_of kind @ strip_tail) Some (t @ rest)"
    by (simp add: sh white_run [OF assms(4,5)] del: re_run.simps)
  also have "\<dots> = (if fits kind v then Some (drop_white rest) else None)"
    by (rule shape_run [OF assms(1,5) strip_tail_run [OF rest]])
  finally show ?thesis by simp
qed

lemma strip_pass:
  assumes "kind \<in> set shape_kinds" "plain_key key" "dict_end x"
  shows "items_text d b \<Longrightarrow> \<exists>b'. re_replace (strip_pattern key (shape_of kind)) (\<lambda>_. []) (b @ x) =
      b' @ re_replace (strip_pattern key (shape_of kind)) (\<lambda>_. []) x \<and>
    items_text (filter (\<lambda>(k, v). \<not> (k = key \<and> fits kind v)) d) b'"
proof (induction "length d" arbitrary: d b)
  case 0
  then have "white b" "d = []" by (auto elim: items_emptyE)
  moreover from \<open>white b\<close> have "no_match (strip_pattern key (shape_of kind)) b x"
    by (intro no_match_key_first) (simp_all add: no_start_white)
  ultimately show ?case by (auto simp: re_replace_skip intro: items_end)
next
  case (Suc n)
  let ?ps = "strip_pattern key (shape_of kind)"
  from Suc(2) obtain it d' where d: "d = it # d'" "n = length d'" by (cases d) auto
  with Suc(3) obtain w k w2 v t c where i: "it = (k, v)" "b = w @ key_tag k @ w2 @ t @ c" "white w"
    "plain_key k" "white w2" "value_text v t" "items_text d' c"
    by (auto elim!: items_consE)
  have b: "b @ x = w @ item_text k w2 t @ c @ x" by (simp add: i(2) item_text_def)
  have w: "no_match ?ps w s" for s
    by (rule no_match_key_first) (simp_all add: i(3) no_start_white)
  have m: "re_match ?ps (item_text k w2 t @ c @ x) =
      (if k = key \<and> fits kind v then Some (drop_white (c @ x)) else None)"
    by (rule strip_match [OF assms(1,2) i(4-6) items_lead [OF i(7) assms(3)]])
  show ?case
  proof (cases "k = key \<and> fits kind v")
    case False
    obtain b' where b': "re_replace ?ps (\<lambda>_. []) (c @ x) = b' @ re_replace ?ps (\<lambda>_. []) x"
      "items_text (filter (\<lambda>(k, v). \<not> (k = key \<and> fits kind v)) d') b'"
      using Suc(1) [OF d(2) i(7)] by blast
    have miss: "no_match ?ps (item_text k w2 t) (c @ x)"
      by (rule item_miss) (use m False i in auto)
    have "re_replace ?ps (\<lambda>_. []) (b @ x) = (w @ key_tag k @ w2 @ t @ b') @ re_replace ?ps (\<lambda>_. []) x"
      unfolding b by (simp add: re_replace_skip [OF w] re_replace_skip [OF miss] b'(1)) (simp add: item_text_def)
    moreover have "items_text (filter (\<lambda>(k, v). \<not> (k = key \<and> fits kind v)) d) (w @ key_tag k @ w2 @ t @ b')"
      using False i(3-6) b'(2) by (auto simp: d(1) i(1) intro: items_next)
    ultimately show ?thesis by blast
  next
    case True
    obtain c' where c': "drop_white (c @ x) = c' @ x" "items_text d' c'"
      using items_drop_white [OF i(7) assms(3)] by blast
    obtain b' where b': "re_replace ?ps (\<lambda>_. []) (c' @ x) = b' @ re_replace ?ps (\<lambda>_. []) x"
      "items_text (filter (\<lambda>(k, v). \<not> (k = key \<and> fits kind v)) d') b'"
      using Suc(1) [OF d(2) c'(2)] by blast
    obtain e where e: "c @ x = e @ c' @ x"
      using c'(1) by (metis drop_white_def takeWhile_dropWhile_id)
    have "re_match ?ps ((item_text k w2 t @ e) @ c' @ x) = Some (c' @ x)"
      using m True c'(1) by (simp add: e)
    then have "re_replace ?ps (\<lambda>_. []) ((item_text k w2 t @ e) @ c' @ x) = re_replace ?ps (\<lambda>_. []) (c' @ x)"
      by (subst re_replace_hit) (simp_all add: item_text_def key_tag_def)
    then have "re_replace ?ps (\<lambda>_. []) (b @ x) = (w @ b') @ re_replace ?ps (\<lambda>_. []) x"
      unfolding b by (simp add: re_replace_skip [OF w] e b'(1))
    moreover have "items_text (filter (\<lambda>(k, v). \<not> (k = key \<and> fits kind v)) d) (w @ b')"
      using True b'(2) i(3) by (simp add: d(1) i(1) items_white)
    ultimately show ?thesis by blast
  qed
qed


lemma replace_end:
  assumes "key_first ps" "dict_end x"
  shows "re_replace ps f x = x"
  using re_replace_skip [OF no_match_key_first [OF assms(1), of x "[]"], of f] assms(2)
  by (simp add: dict_end_def)

lemma strip_kinds:
  assumes "set kinds \<subseteq> set shape_kinds" "plain_key key" "dict_end x" "items_text d b"
  shows "\<exists>b'. fold (\<lambda>shape s. re_replace (strip_pattern key shape) (\<lambda>_. []) s) (map shape_of kinds) (b @ x) = b' @ x \<and>
    items_text (filter (\<lambda>(k, v). \<not> (k = key \<and> list_ex (\<lambda>kind. fits kind v) kinds)) d) b'"
  using assms(1,4)
proof (induction kinds arbitrary: d b)
  case Nil
  have "filter (\<lambda>(k, v). True) d = d" by (simp add: case_prod_unfold)
  with Nil show ?case by simp
next
  case (Cons kind kinds)
  then have kind: "kind \<in> set shape_kinds" and sub: "set kinds \<subseteq> set shape_kinds" by auto
  obtain b1 where b1: "re_replace (strip_pattern key (shape_of kind)) (\<lambda>_. []) (b @ x) = b1 @ x"
    "items_text (filter (\<lambda>(k, v). \<not> (k = key \<and> fits kind v)) d) b1"
    using strip_pass [OF kind assms(2,3) Cons.prems(2)] replace_end [OF _ assms(3)] by auto
  have "filter (\<lambda>(k, v). \<not> (k = key \<and> list_ex (\<lambda>kind. fits kind v) kinds))
      (filter (\<lambda>(k, v). \<not> (k = key \<and> fits kind v)) d) =
      filter (\<lambda>(k, v). \<not> (k = key \<and> list_ex (\<lambda>kind. fits kind v) (kind # kinds))) d"
    by (auto simp: filter_filter intro!: filter_cong)
  with Cons.IH [OF sub b1(2)] b1(1) show ?case by simp
qed

lemma some_kind: "value_text v t \<Longrightarrow> list_ex (\<lambda>kind. fits kind v) shape_kinds"
  by (cases rule: value_text.cases) (auto simp: shape_kinds_def scalar_tags_def)

lemma items_values: "items_text d b \<Longrightarrow> it \<in> set d \<Longrightarrow> plain_key (fst it) \<and> (\<exists>t. value_text (snd it) t)"
  by (induction rule: items_text.induct) auto

definition strip_dict :: "string \<Rightarrow> ent_dict \<Rightarrow> ent_dict" where
  "strip_dict key d = filter (\<lambda>(k, v). k \<noteq> key) d"

lemma strip_items:
  assumes "plain_key key" "dict_end x" "items_text d b"
  shows "\<exists>b'. strip_entitlement_key (b @ x) key = b' @ x \<and> items_text (strip_dict key d) b'"
proof -
  have "filter (\<lambda>(k, v). \<not> (k = key \<and> list_ex (\<lambda>kind. fits kind v) shape_kinds)) d = strip_dict key d"
    unfolding strip_dict_def
    by (rule filter_cong) (use items_values [OF assms(3)] some_kind in fastforce)+
  with strip_kinds [OF _ assms, of shape_kinds] show ?thesis
    by (simp add: strip_entitlement_key_def value_shapes_kinds)
qed

section \<open>Ensuring a key\<close>

definition ensure_dict :: "string \<Rightarrow> ent_dict \<Rightarrow> (ent_error, ent_dict) result" where
  "ensure_dict key d =
     (if (key, Truth True) \<in> set d then Inr d
      else if key \<in> fst ` set d then Inl (NotTrue key) else Inr (d @ [(key, Truth True)]))"

lemma items_snoc:
  assumes "items_text d b" "plain_key key" "white w" "white w2" "white u" "value_text v t"
  shows "items_text (d @ [(key, v)]) (b @ w @ key_tag key @ w2 @ t @ u)"
  using assms(1)
proof (induction rule: items_text.induct)
  case (items_end w0)
  have "items_text [(key, v)] ((w0 @ w) @ key_tag key @ w2 @ t @ u)"
    by (rule items_next) (use assms items_end in \<open>simp_all add: white_append items_text.items_end\<close>)
  then show ?case by simp
next
  case (items_next w0 k w1 v0 t0 d b)
  have "items_text ((k, v0) # d @ [(key, v)]) (w0 @ key_tag k @ w1 @ t0 @ b @ w @ key_tag key @ w2 @ t @ u)"
    by (rule items_text.items_next) (use items_next in simp_all)
  then show ?case by simp
qed

lemma split_last_none: "sub \<noteq> [] \<Longrightarrow> \<not> contains sub s \<Longrightarrow> split_last sub s = None"
  by (induction s) auto

lemma split_last_dict:
  assumes "\<not> contains ''</dict>'' post"
  shows "split_last ''</dict>'' (a @ ''</dict>'' @ post) = Some (a, ''</dict>'' @ post)"
proof -
  have "split_last ''</dict>'' (''</dict>'' @ post) = Some ([], ''</dict>'' @ post)"
    using split_last_none [OF _ assms] by simp
  then show ?thesis by (induction a) auto
qed

lemma ensure_items:
  assumes "plain_key key" "no_start (CHR ''k'') post" "\<not> contains ''</dict>'' post" "items_text d b"
    "no_start (CHR ''k'') pre"
  shows "case ensure_dict key d of
      Inl e \<Rightarrow> ensure_boolean_entitlement (pre @ b @ ''</dict>'' @ post) key = Inl e
    | Inr d' \<Rightarrow> \<exists>b'. ensure_boolean_entitlement (pre @ b @ ''</dict>'' @ post) key = Inr (pre @ b' @ ''</dict>'' @ post) \<and>
        items_text d' b'"
proof -
  have x: "dict_end (''</dict>'' @ post)" using assms(2) by (simp add: dict_end_def)
  have h: "has_boolean_entitlement (pre @ b @ ''</dict>'' @ post) key \<longleftrightarrow> (key, Truth True) \<in> set d"
    using has_boolean_items [OF assms(4,1) x] re_contains_skip [OF no_match_key_first [OF _ assms(5)]]
    by (simp add: has_boolean_entitlement_def)
  have c: "contains (key_tag key) (pre @ b @ ''</dict>'' @ post) \<longleftrightarrow> key \<in> fst ` set d"
    using contains_key_items [OF assms(4,1) x] re_contains_skip [OF no_match_key_first [OF _ assms(5)]]
    by (subst contains_re, simp add: key_tag_def, subst (asm) contains_re, simp add: key_tag_def) simp
  have s: "split_last ''</dict>'' (pre @ b @ ''</dict>'' @ post) = Some (pre @ b, ''</dict>'' @ post)"
    using split_last_dict [OF assms(3), of "pre @ b"] by simp
  have "items_text (d @ [(key, Truth True)])
      (b @ [CHR 0x09] @ key_tag key @ [CHR 0x0A, CHR 0x09] @ ''<true/>'' @ [CHR 0x0A])"
    by (rule items_snoc [OF assms(4,1)]) (simp_all add: white_def re_space_def value_text.text_true)
  then have "items_text (d @ [(key, Truth True)]) (b @ new_entry key)"
    by (simp only: new_entry_def)
  with assms(4) h c s show ?thesis
    by (auto simp: ensure_dict_def ensure_boolean_entitlement_def intro!: exI [of _ "b @ new_entry key"])
qed

end
