(* ===== verification/Entitlement_Props.thy ===== *)
theory Entitlement_Props
  imports Entitlement_Dict
begin

text \<open>
  The rewriting of entitlements refines the operations on dictionaries, and its result passes
  the check that follows the signing.
\<close>

section \<open>Rewriting values\<close>

definition map_strings :: "(string \<Rightarrow> string) \<Rightarrow> ent_value \<Rightarrow> ent_value" where
  "map_strings f v =
     (case v of Scalar tag u \<Rightarrow> Scalar tag (if tag = ''string'' then f u else u)
      | Strings us \<Rightarrow> Strings (map f us) | Truth b \<Rightarrow> Truth b)"

definition keeps_plain :: "(string \<Rightarrow> string) \<Rightarrow> bool" where
  "keeps_plain f \<longleftrightarrow> (\<forall>u. plain_text u \<longrightarrow> plain_text (f u))"

lemma string_match:
  assumes "plain_text u"
  shows "re_match string_pattern (string_element u @ rest) = Some rest"
  by (simp add: re_match_def string_pattern_def scalar_shape_def string_element_def scalar_run [OF assms]
      del: re_run.simps(3,4))

lemma element_text [simp]: "element_text (string_element u) = u"
  by (simp add: element_text_def string_element_def)

lemma rewrite_skip: "no_start (CHR ''s'') a \<Longrightarrow> rewrite_block f (a @ s) = a @ rewrite_block f s"
  unfolding rewrite_block_def
  by (rule re_replace_skip) (simp add: string_pattern_def scalar_shape_def no_match_no_start)

lemma rewrite_element:
  assumes "plain_text u"
  shows "rewrite_block f (string_element u @ s) = string_element (f u) @ rewrite_block f s"
proof -
  have ne: "string_element u \<noteq> []" by (simp add: string_element_def)
  show ?thesis
    unfolding rewrite_block_def by (simp only: re_replace_hit [OF string_match [OF assms] ne] element_text)
qed

lemma rewrite_end: "no_start (CHR ''s'') a \<Longrightarrow> rewrite_block f a = a"
  using rewrite_skip [of a f "[]"] by (simp add: rewrite_block_def)

lemma rewrite_strings:
  assumes "strings_text us b" "keeps_plain f"
  shows "\<exists>b'. (\<forall>s. rewrite_block f (b @ s) = b' @ rewrite_block f s) \<and> strings_text (map f us) b'"
  using assms(1)
proof (induction rule: strings_text.induct)
  case (strings_end w)
  then show ?case by (auto simp: rewrite_skip no_start_white intro: strings_text.strings_end)
next
  case (strings_next w u us b)
  then obtain b' where b': "\<And>s. rewrite_block f (b @ s) = b' @ rewrite_block f s" "strings_text (map f us) b'"
    by auto
  have "rewrite_block f ((w @ string_element u @ b) @ s) = (w @ string_element (f u) @ b') @ rewrite_block f s" for s
    using strings_next(1,2) by (simp add: rewrite_skip no_start_white rewrite_element b'(1))
  moreover have "strings_text (map f (u # us)) (w @ string_element (f u) @ b')"
    using strings_next(1,2) b'(2) assms(2) by (auto simp: keeps_plain_def intro: strings_text.strings_next)
  ultimately show ?case by blast
qed

definition string_kinds :: "shape_kind list" where
  "string_kinds = [KScalar ''string'', KContainer ''array'']"

lemma rewrite_item:
  assumes "plain_key k" "white w" "value_text v t" "keeps_plain f" "kind \<in> set string_kinds" "fits kind v"
  shows "\<exists>t'. rewrite_block f (item_text k w t) = item_text k w t' \<and> value_text (map_strings f v) t'"
proof -
  have lead: "no_start (CHR ''s'') (key_tag k @ w)"
    using assms(1,2) by (simp add: key_tag_def plain_key_text no_start_white)
  have item: "rewrite_block f (item_text k w t) = key_tag k @ w @ rewrite_block f t"
    using rewrite_skip [OF lead, of f t] by (simp add: item_text_def)
  from assms(3) show ?thesis
  proof cases
    case (text_scalar tag u)
    then have "tag = ''string''" using assms(5,6) by (auto simp: string_kinds_def)
    moreover have "rewrite_block f (string_element u) = string_element (f u)"
      using rewrite_element [OF text_scalar(4), of f "[]"] by (simp add: rewrite_block_def)
    ultimately show ?thesis
      using text_scalar assms(4) item value_text.text_scalar [of tag "f u"]
      by (auto simp: map_strings_def keeps_plain_def item_text_def string_element_def)
  next
    case (text_strings us b)
    obtain b' where b': "\<And>s. rewrite_block f (b @ s) = b' @ rewrite_block f s" "strings_text (map f us) b'"
      using rewrite_strings [OF text_strings(3) assms(4)] by blast
    have "rewrite_block f (''<array>'' @ b @ ''</array>'') = ''<array>'' @ b' @ ''</array>''"
      using rewrite_skip [of "''<array>''" f] rewrite_end [of "''</array>''" f] by (simp add: b'(1))
    with item text_strings value_text.text_strings [OF b'(2)] show ?thesis
      by (auto simp: map_strings_def item_text_def)
  qed (use assms(5,6) in \<open>auto simp: string_kinds_def\<close>)
qed

lemma value_match:
  assumes "kind \<in> set string_kinds" "plain_key key" "plain_key k" "white w" "value_text v t"
  shows "re_match (value_pattern key (shape_of kind)) (item_text k w t @ rest) =
    (if k = key \<and> fits kind v then Some rest else None)"
proof -
  have kind: "kind \<in> set shape_kinds"
    using assms(1) by (auto simp: string_kinds_def shape_kinds_def scalar_tags_def)
  obtain u ps where sh: "shape_of kind = Exactly (CHR ''<'' # u) # ps"
    by (cases kind) (auto simp: scalar_shape_def container_shape_def)
  have "re_match (value_pattern key (shape_of kind)) (item_text k w t @ rest) =
      (if k = key then re_run (shape_of kind) Some (t @ rest) else None)"
    by (simp add: re_match_def value_pattern_def item_text_def key_run [OF assms(3,2)] sh
        white_run [OF assms(4,5)] del: re_run.simps)
  with shape_run [OF kind assms(5), of "[]" Some rest rest] show ?thesis by simp
qed

definition rewrite_dict :: "shape_kind list \<Rightarrow> (string \<Rightarrow> string) \<Rightarrow> string \<Rightarrow> ent_dict \<Rightarrow> ent_dict" where
  "rewrite_dict kinds f key =
     map (\<lambda>(k, v). (k, if k = key \<and> list_ex (\<lambda>kind. fits kind v) kinds then map_strings f v else v))"

lemma rewrite_pass:
  assumes "kind \<in> set string_kinds" "plain_key key" "dict_end x" "keeps_plain f"
  shows "items_text d b \<Longrightarrow> \<exists>b'. re_replace (value_pattern key (shape_of kind)) (rewrite_block f) (b @ x) = b' @ x \<and>
    items_text (rewrite_dict [kind] f key d) b'"
proof (induction rule: items_text.induct)
  case (items_end w)
  have "no_match (value_pattern key (shape_of kind)) w x"
    by (rule no_match_key_first) (simp_all add: no_start_white items_end)
  with items_end show ?case
    using replace_end [OF _ assms(3)]
    by (auto simp: re_replace_skip rewrite_dict_def intro: items_text.items_end)
next
  case (items_next w k w2 v t d b)
  let ?ps = "value_pattern key (shape_of kind)"
  let ?g = "rewrite_block f"
  obtain b' where b': "re_replace ?ps ?g (b @ x) = b' @ x" "items_text (rewrite_dict [kind] f key d) b'"
    using items_next.IH by blast
  have w: "no_match ?ps w s" for s
    by (rule no_match_key_first) (simp_all add: no_start_white items_next)
  have b: "(w @ key_tag k @ w2 @ t @ b) @ x = w @ item_text k w2 t @ b @ x"
    by (simp add: item_text_def)
  have m: "re_match ?ps (item_text k w2 t @ b @ x) = (if k = key \<and> fits kind v then Some (b @ x) else None)"
    by (rule value_match [OF assms(1,2) items_next(2-4)])
  have "\<exists>t'. re_replace ?ps ?g (item_text k w2 t @ b @ x) = item_text k w2 t' @ b' @ x \<and>
      value_text (if k = key \<and> fits kind v then map_strings f v else v) t'"
  proof (cases "k = key \<and> fits kind v")
    case True
    obtain t' where t': "?g (item_text k w2 t) = item_text k w2 t'" "value_text (map_strings f v) t'"
      using rewrite_item [OF items_next(2-4) assms(4,1)] True by blast
    have hit: "re_match ?ps (item_text k w2 t @ b @ x) = Some (b @ x)" using m True by simp
    have "re_replace ?ps ?g (item_text k w2 t @ b @ x) = ?g (item_text k w2 t) @ re_replace ?ps ?g (b @ x)"
      by (rule re_replace_hit [OF hit]) (simp add: item_text_def key_tag_def)
    with t' b'(1) True show ?thesis by auto
  next
    case False
    have miss: "no_match ?ps (item_text k w2 t) (b @ x)"
      by (rule item_miss) (use m False items_next in auto)
    have "re_replace ?ps ?g (item_text k w2 t @ b @ x) = item_text k w2 t @ b' @ x"
      by (simp add: re_replace_skip [OF miss] b'(1))
    with False items_next(4) show ?thesis by auto
  qed
  then obtain t' where t': "re_replace ?ps ?g (item_text k w2 t @ b @ x) = item_text k w2 t' @ b' @ x"
    "value_text (if k = key \<and> fits kind v then map_strings f v else v) t'" by blast
  have "re_replace ?ps ?g ((w @ key_tag k @ w2 @ t @ b) @ x) = (w @ key_tag k @ w2 @ t' @ b') @ x"
    unfolding b by (simp add: re_replace_skip [OF w] t'(1)) (simp add: item_text_def)
  moreover have "items_text (rewrite_dict [kind] f key ((k, v) # d)) (w @ key_tag k @ w2 @ t' @ b')"
    using items_text.items_next [OF items_next(1-3) t'(2) b'(2)] by (simp add: rewrite_dict_def)
  ultimately show ?case by blast
qed


lemma fits_map_strings [simp]: "fits kind (map_strings f v) = fits kind v"
  by (cases "(kind, v)" rule: fits.cases) (simp_all add: map_strings_def)

lemma fits_disjoint: "fits (KScalar tag) v \<Longrightarrow> \<not> fits (KContainer tag') v"
  by (cases v) simp_all

lemma rewrite_key_items:
  assumes "plain_key key" "dict_end x" "keeps_plain f" "items_text d b" "no_start (CHR ''k'') pre"
  shows "\<exists>b'. rewrite_key_values f key (pre @ b @ x) = pre @ b' @ x \<and> items_text (rewrite_dict string_kinds f key d) b'"
proof -
  have kinds: "KScalar ''string'' \<in> set string_kinds" "KContainer ''array'' \<in> set string_kinds"
    by (simp_all add: string_kinds_def)
  obtain b1 where b1: "re_replace (value_pattern key (scalar_shape ''string'')) (rewrite_block f) (b @ x) = b1 @ x"
    "items_text (rewrite_dict [KScalar ''string''] f key d) b1"
    using rewrite_pass [OF kinds(1) assms(1-4)] by auto
  obtain b2 where b2: "re_replace (value_pattern key (container_shape ''array'')) (rewrite_block f) (b1 @ x) = b2 @ x"
    "items_text (rewrite_dict [KContainer ''array''] f key (rewrite_dict [KScalar ''string''] f key d)) b2"
    using rewrite_pass [OF kinds(2) assms(1-3) b1(2)] by auto
  have "rewrite_dict [KContainer ''array''] f key (rewrite_dict [KScalar ''string''] f key d) =
      rewrite_dict string_kinds f key d"
    by (auto simp: rewrite_dict_def string_kinds_def dest: fits_disjoint)
  moreover have "rewrite_key_values f key (pre @ b @ x) = pre @ b2 @ x"
    by (simp add: rewrite_key_values_def re_replace_skip [OF no_match_key_first [OF _ assms(5)]] b1(1) b2(1))
  ultimately show ?thesis using b2(2) by metis
qed

section \<open>The upstream team\<close>

definition derive_dict :: "ent_dict \<Rightarrow> string \<times> string" where
  "derive_dict d =
     (case find (\<lambda>(k, v). k = app_identifier_key \<and> fits (KScalar ''string'') v) d of
        Some (_, Scalar _ u) \<Rightarrow> (case cut (CHR ''.'') (trim_space u) of None \<Rightarrow> ([], []) | Some tb \<Rightarrow> tb)
      | _ \<Rightarrow> ([], []))"

lemma find_group_skip:
  assumes "no_start (CHR ''k'') a"
  shows "re_find_group (Exactly ''<key>'' # bs) g as (a @ b) = re_find_group (Exactly ''<key>'' # bs) g as b"
proof -
  have np: "\<not> prefix ''<key>'' (s @ b)" if "suffix s a" "s \<noteq> []" for s
    using no_start_not_prefix [OF assms that, of "''ey>''" b] by simp
  have "suffix s a \<Longrightarrow> re_find_group (Exactly ''<key>'' # bs) g as (s @ b) = re_find_group (Exactly ''<key>'' # bs) g as b" for s
  proof (induction s)
    case (Cons c s)
    have "\<not> prefix ''<key>'' (c # s @ b)" using np [OF Cons.prems] by simp
    then have "re_group (Exactly ''<key>'' # bs) g as (c # s @ b) = None"
      unfolding re_group_def by (simp only: re_run.simps if_False)
    with Cons suffix_ConsD [OF Cons.prems] show ?case by simp
  qed simp
  then show ?thesis by simp
qed

abbreviation identifier_pattern :: "piece list" where
  "identifier_pattern \<equiv> [Exactly ''<key>'', spaces, Exactly app_identifier_key, spaces, Exactly ''</key>'',
     spaces, Exactly ''<string>'']"

lemma plain_identifier: "plain_key app_identifier_key"
  by (simp add: plain_key_def app_identifier_key_def re_space_def)

lemma group_item:
  assumes "plain_key k" "white w" "value_text v t"
  shows "re_group identifier_pattern [no_tag] [Exactly ''</string>''] (item_text k w t @ rest) =
    (case v of Scalar tag u \<Rightarrow> if k = app_identifier_key \<and> tag = ''string'' then Some u else None | _ \<Rightarrow> None)"
proof -
  define gr where "gr = (\<lambda>s1 s2. re_run [Exactly ''</string>''] (\<lambda>_ :: string. Some (take (length s1 - length s2) (s1 :: string))) s2)"
  have g: "re_group identifier_pattern [no_tag] [Exactly ''</string>''] (item_text k w t @ rest) =
      (if k = app_identifier_key then re_run [Exactly ''<string>''] (\<lambda>s1. re_run [no_tag] (gr s1) s1) (t @ rest) else None)"
    by (simp add: re_group_def item_text_def key_run [OF assms(1) plain_identifier]
        white_run [OF assms(2,3)] gr_def del: re_run.simps)
  from assms(3) show ?thesis
  proof cases
    case (text_scalar tag u)
    have "re_run [no_tag] (gr s1) (u @ CHR ''<'' # ''/string>'' @ rest) = gr s1 (CHR ''<'' # ''/string>'' @ rest)" for s1
      using re_run_Many [of "\<lambda>c. c \<noteq> CHR ''<''" u "CHR ''<''" "[]" "gr s1"] text_scalar(4)
      by (simp add: plain_text_def gr_def)
    moreover have "gr (u @ CHR ''<'' # ''/string>'' @ rest) (CHR ''<'' # ''/string>'' @ rest) = Some u"
      by (simp add: gr_def)
    ultimately show ?thesis
      using text_scalar g by (auto simp: scalar_tags_def simp del: re_run.simps(3,4))
  qed (use g in auto)
qed

lemma group_items:
  assumes "no_start (CHR ''k'') x"
  shows "items_text d b \<Longrightarrow> re_find_group identifier_pattern [no_tag] [Exactly ''</string>''] (b @ x) =
    (case find (\<lambda>(k, v). k = app_identifier_key \<and> fits (KScalar ''string'') v) d of
       Some (_, Scalar _ u) \<Rightarrow> Some u | _ \<Rightarrow> None)"
proof (induction rule: items_text.induct)
  case (items_end w)
  have "re_find_group identifier_pattern [no_tag] [Exactly ''</string>''] ((w @ x) @ []) = None"
    using items_end assms by (subst find_group_skip) (simp_all add: re_group_def)
  then show ?case by simp
next
  case (items_next w k w2 v t d b)
  let ?find = "re_find_group identifier_pattern [no_tag] [Exactly ''</string>'']"
  have s: "?find ((w @ key_tag k @ w2 @ t @ b) @ x) = ?find (item_text k w2 t @ b @ x)"
    using find_group_skip [of w] items_next(1) by (simp add: item_text_def no_start_white)
  have tail: "?find (''key>'' @ k @ ''</key>'' @ w2 @ t @ b @ x) = ?find (b @ x)"
    using find_group_skip [of "''key>'' @ k @ ''</key>'' @ w2 @ t"] items_next
    by (simp add: plain_key_text value_no_start)
  have g: "?find (item_text k w2 t @ b @ x) =
      (case re_group identifier_pattern [no_tag] [Exactly ''</string>''] (item_text k w2 t @ b @ x) of
         Some u \<Rightarrow> Some u | None \<Rightarrow> ?find (''key>'' @ k @ ''</key>'' @ w2 @ t @ b @ x))"
    by (simp add: item_text_def key_tag_def split: option.split)
  show ?case
    unfolding s g tail group_item [OF items_next(2-4)] items_next.IH by (cases v) auto
qed

lemma derive_items:
  assumes "items_text d b" "no_start (CHR ''k'') pre" "no_start (CHR ''k'') x"
  shows "derive_upstream (pre @ b @ x) = derive_dict d"
  unfolding derive_upstream_def derive_dict_def
  by (simp only: find_group_skip [OF assms(2)] group_items [OF assms(3,1)])
     (auto split: option.split prod.split ent_value.split)


section \<open>The whole rewriting\<close>

definition rewrite_team_dict :: "string \<Rightarrow> ent_dict \<Rightarrow> ent_dict" where
  "rewrite_team_dict local_team d =
     (let own = trim_space local_team; (upstream, bundle) = derive_dict d in
      if own = [] \<or> upstream = [] then d
      else fold (rewrite_dict string_kinds (rewrite_team_value upstream own bundle)) team_scoped_keys d)"

fun ensure_all_dict :: "string list \<Rightarrow> ent_dict \<Rightarrow> (ent_error, ent_dict) result" where
  "ensure_all_dict [] d = Inr d"
| "ensure_all_dict (key # ks) d = rbind (ensure_dict key d) (ensure_all_dict ks)"

definition augment_dict :: "string \<Rightarrow> entitlements_spec \<Rightarrow> ent_dict \<Rightarrow> (ent_error, ent_dict) result" where
  "augment_dict local_team policy d =
     rbind (ensure_all_dict (ent_required policy) (fold strip_dict (ent_strip policy) d))
       (\<lambda>d. Inr (rewrite_team_dict local_team d))"

text \<open>A text that renders a dictionary, as its three parts.\<close>

definition renders_in :: "string \<Rightarrow> string \<Rightarrow> ent_dict \<Rightarrow> string \<Rightarrow> bool" where
  "renders_in pre post d xml \<longleftrightarrow> (\<exists>b. xml = pre @ b @ ''</dict>'' @ post \<and> items_text d b) \<and>
     no_start (CHR ''k'') pre \<and> no_start (CHR ''k'') post \<and> \<not> contains ''</dict>'' post"

lemma renders_iff: "renders d xml \<longleftrightarrow> (\<exists>pre post. renders_in pre post d xml)"
  by (auto simp: renders_def renders_in_def)

lemma renders_inE:
  assumes "renders_in pre post d xml"
  obtains b where "xml = pre @ b @ ''</dict>'' @ post" "items_text d b" "no_start (CHR ''k'') pre"
    "no_start (CHR ''k'') post" "\<not> contains ''</dict>'' post" "dict_end (''</dict>'' @ post)"
  using assms by (auto simp: renders_in_def dict_end_def)

lemma strip_renders:
  assumes "list_all plain_key keys" "renders_in pre post d xml"
  shows "renders_in pre post (fold strip_dict keys d) (fold (\<lambda>key s. strip_entitlement_key s key) keys xml)"
  using assms
proof (induction keys arbitrary: d xml)
  case (Cons key keys)
  from Cons.prems(2) obtain b where r: "xml = pre @ b @ ''</dict>'' @ post" "items_text d b" "no_start (CHR ''k'') pre"
    "no_start (CHR ''k'') post" "\<not> contains ''</dict>'' post" "dict_end (''</dict>'' @ post)" by (rule renders_inE)
  obtain b' where b': "strip_entitlement_key (b @ ''</dict>'' @ post) key = b' @ ''</dict>'' @ post"
    "items_text (strip_dict key d) b'"
    using strip_items [OF _ r(6,2), of key] Cons.prems(1) by auto
  have "fold (\<lambda>shape s. re_replace (strip_pattern key shape) (\<lambda>_. []) s) shapes (pre @ y) =
      pre @ fold (\<lambda>shape s. re_replace (strip_pattern key shape) (\<lambda>_. []) s) shapes y" for shapes y
    by (induction shapes arbitrary: y) (simp_all add: re_replace_skip [OF no_match_key_first [OF _ r(3)]])
  then have "strip_entitlement_key xml key = pre @ b' @ ''</dict>'' @ post"
    using b'(1) by (simp add: r(1) strip_entitlement_key_def)
  with b'(2) r have "renders_in pre post (strip_dict key d) (strip_entitlement_key xml key)"
    by (auto simp: renders_in_def)
  with Cons show ?case by simp
qed simp

lemma ensure_renders:
  assumes "list_all plain_key keys" "renders_in pre post d xml"
  shows "case ensure_all_dict keys d of
      Inl e \<Rightarrow> ensure_all keys xml = Inl e
    | Inr d' \<Rightarrow> \<exists>xml'. ensure_all keys xml = Inr xml' \<and> renders_in pre post d' xml'"
  using assms
proof (induction keys arbitrary: d xml)
  case (Cons key keys)
  from Cons.prems(2) obtain b where r: "xml = pre @ b @ ''</dict>'' @ post" "items_text d b" "no_start (CHR ''k'') pre"
    "no_start (CHR ''k'') post" "\<not> contains ''</dict>'' post" "dict_end (''</dict>'' @ post)" by (rule renders_inE)
  have key: "plain_key key" using Cons.prems(1) by simp
  show ?case
  proof (cases "ensure_dict key d")
    case (Inl e)
    with ensure_items [OF key r(4,5,2,3)] r(1) show ?thesis by simp
  next
    case (Inr d1)
    with ensure_items [OF key r(4,5,2,3)] r(1) obtain b1 where
      b1: "ensure_boolean_entitlement xml key = Inr (pre @ b1 @ ''</dict>'' @ post)" "items_text d1 b1" by auto
    then have "renders_in pre post d1 (pre @ b1 @ ''</dict>'' @ post)"
      using r by (auto simp: renders_in_def)
    from Cons.IH [OF _ this] Cons.prems(1) Inr b1(1) show ?thesis by (simp split: sum.splits)
  qed
qed simp

lemma trim_space_subset: "set (trim_space s) \<subseteq> set s"
  unfolding trim_space_def trim_left_def
  by (meson order_trans set_mono_prefix set_mono_suffix strip_all_suffix trim_right_prefix)

lemma rewrite_team_plain:
  assumes "plain_text own" "plain_text bundle"
  shows "keeps_plain (rewrite_team_value upstream own bundle)"
proof -
  have sub: "plain_text v \<Longrightarrow> set u \<subseteq> set v \<Longrightarrow> plain_text u" for u v
    by (auto simp: plain_text_def list_all_iff)
  have drop: "set (drop n (trim_space v)) \<subseteq> set v" for n v
    using trim_space_subset [of v] set_drop_subset [of n "trim_space v"] by blast
  show ?thesis
    unfolding keeps_plain_def rewrite_team_value_def Let_def trim_prefix_def
    using assms sub [OF _ trim_space_subset] sub [OF _ drop]
    by (auto simp: plain_text_def [of "own @ x" for x])
       (auto simp: plain_text_def)
qed

lemma derive_plain:
  assumes "items_text d b" "derive_dict d = (upstream, bundle)"
  shows "plain_text bundle"
proof (cases "find (\<lambda>(k, v). k = app_identifier_key \<and> fits (KScalar ''string'') v) d")
  case (Some it)
  then have it: "it \<in> set d" "fits (KScalar ''string'') (snd it)" by (auto simp: find_Some_iff)
      (metis nth_mem)
  then obtain u where u: "snd it = Scalar ''string'' u" by (cases "snd it") auto
  with items_values [OF assms(1) it(1)] have "plain_text u" by (auto elim: value_text.cases)
  then have "plain_text (trim_space u)"
    using trim_space_subset [of u] by (auto simp: plain_text_def list_all_iff)
  then show ?thesis
    using assms(2) Some u
    by (auto simp: derive_dict_def cut_Some_iff plain_text_def split: option.splits prod.splits)
qed (use assms(2) in \<open>simp add: derive_dict_def plain_text_def\<close>)

lemma rewrite_renders:
  assumes "list_all plain_key keys" "keeps_plain f" "renders_in pre post d xml"
  shows "renders_in pre post (fold (rewrite_dict string_kinds f) keys d) (fold (rewrite_key_values f) keys xml)"
  using assms(1,3)
proof (induction keys arbitrary: d xml)
  case (Cons key keys)
  from Cons.prems(2) obtain b where r: "xml = pre @ b @ ''</dict>'' @ post" "items_text d b" "no_start (CHR ''k'') pre"
    "no_start (CHR ''k'') post" "\<not> contains ''</dict>'' post" "dict_end (''</dict>'' @ post)" by (rule renders_inE)
  obtain b' where "rewrite_key_values f key xml = pre @ b' @ ''</dict>'' @ post"
    "items_text (rewrite_dict string_kinds f key d) b'"
    using rewrite_key_items [OF _ r(6) assms(2) r(2,3), of key] Cons.prems(1) r(1) by auto
  with r have "renders_in pre post (rewrite_dict string_kinds f key d) (rewrite_key_values f key xml)"
    by (auto simp: renders_in_def)
  with Cons show ?case by simp
qed simp

lemma team_renders:
  assumes "plain_text local_team" "renders_in pre post d xml"
  shows "renders_in pre post (rewrite_team_dict local_team d) (rewrite_team_scoped local_team xml)"
proof -
  from assms(2) obtain b where r: "xml = pre @ b @ ''</dict>'' @ post" "items_text d b" "no_start (CHR ''k'') pre"
    "no_start (CHR ''k'') post" "\<not> contains ''</dict>'' post" "dict_end (''</dict>'' @ post)" by (rule renders_inE)
  obtain upstream bid where t: "derive_dict d = (upstream, bid)" by fastforce
  have u: "derive_upstream xml = (upstream, bid)"
    using derive_items [OF r(2,3), of "''</dict>'' @ post"] r(6) t by (simp add: r(1) dict_end_def)
  have own: "plain_text (trim_space local_team)"
    using assms(1) trim_space_subset [of local_team] by (auto simp: plain_text_def list_all_iff)
  have keys: "list_all plain_key team_scoped_keys"
    by (simp add: team_scoped_keys_def plain_identifier) (simp add: plain_key_def re_space_def)
  show ?thesis
    using rewrite_renders [OF keys rewrite_team_plain [OF own derive_plain [OF r(2) t]] assms(2)] assms(2)
    by (simp add: rewrite_team_dict_def rewrite_team_scoped_def Let_def t u)
qed

lemma augment_renders:
  assumes r: "renders_in pre post d xml" and keys: "list_all plain_key (ent_strip policy)"
    "list_all plain_key (ent_required policy)" "plain_text local_team"
  shows "case augment_dict local_team policy d of
      Inl e \<Rightarrow> augment_entitlements local_team policy xml = Inl e
    | Inr d' \<Rightarrow> \<exists>xml'. augment_entitlements local_team policy xml = Inr xml' \<and> renders_in pre post d' xml'"
proof (cases "ensure_all_dict (ent_required policy) (fold strip_dict (ent_strip policy) d)")
  case (Inl e)
  with ensure_renders [OF keys(2) strip_renders [OF keys(1) r]] show ?thesis
    by (simp add: augment_dict_def augment_entitlements_def)
next
  case (Inr d1)
  with ensure_renders [OF keys(2) strip_renders [OF keys(1) r]] obtain xml1 where
    x: "ensure_all (ent_required policy)
      (fold (\<lambda>key s. strip_entitlement_key s key) (ent_strip policy) xml) = Inr xml1" "renders_in pre post d1 xml1"
    by auto
  with Inr team_renders [OF keys(3) x(2)] show ?thesis
    by (simp add: augment_dict_def augment_entitlements_def)
qed


section \<open>The check after signing\<close>

lemma renders_search:
  assumes "renders d xml" "plain_key key"
  shows "has_boolean_entitlement xml key \<longleftrightarrow> (key, Truth True) \<in> set d"
    and "has_entitlement_key xml key \<longleftrightarrow> key \<in> fst ` set d"
proof -
  obtain pre post where "renders_in pre post d xml" using assms(1) by (auto simp: renders_iff)
  then obtain b where r: "xml = pre @ b @ ''</dict>'' @ post" "items_text d b" "no_start (CHR ''k'') pre"
    "no_start (CHR ''k'') post" "\<not> contains ''</dict>'' post" "dict_end (''</dict>'' @ post)" by (rule renders_inE)
  have skip: "re_contains ps xml = re_contains ps (b @ ''</dict>'' @ post)" if "key_first ps" for ps
    unfolding r(1) by (rule re_contains_skip [OF no_match_key_first [OF that r(3)]])
  show "has_boolean_entitlement xml key \<longleftrightarrow> (key, Truth True) \<in> set d"
    using has_boolean_items [OF r(2) assms(2) r(6)] by (simp add: has_boolean_entitlement_def skip)
  show "has_entitlement_key xml key \<longleftrightarrow> key \<in> fst ` set d"
    using has_key_items [OF r(2) assms(2) r(6)] by (simp add: has_entitlement_key_def skip)
qed

lemma rewrite_team_dict_keys: "fst ` set (rewrite_team_dict local_team d) = fst ` set d"
proof -
  have "fst ` set (rewrite_dict kinds f key d) = fst ` set d" for kinds f key d
    by (force simp: rewrite_dict_def image_iff)
  then have "fst ` set (fold (rewrite_dict kinds f) keys d) = fst ` set d" for kinds f keys
    by (induction keys arbitrary: d) simp_all
  then show ?thesis by (cases "derive_dict d") (simp add: rewrite_team_dict_def Let_def)
qed

lemma rewrite_team_dict_truth:
  assumes "(key, Truth b) \<in> set d"
  shows "(key, Truth b) \<in> set (rewrite_team_dict local_team d)"
proof -
  have "(key, Truth b) \<in> set (rewrite_dict kinds f k d)" if "(key, Truth b) \<in> set d" for kinds f k d
    using that by (force simp: rewrite_dict_def map_strings_def image_iff)
  then have "(key, Truth b) \<in> set (fold (rewrite_dict kinds f) keys d)" for kinds f keys
    using assms by (induction keys arbitrary: d) simp_all
  then show ?thesis using assms by (cases "derive_dict d") (simp add: rewrite_team_dict_def Let_def)
qed

lemma ensure_all_dict_sound:
  "ensure_all_dict keys d = Inr d' \<Longrightarrow>
     set d \<subseteq> set d' \<and> (\<forall>key\<in>set keys. (key, Truth True) \<in> set d') \<and> fst ` set d' = fst ` set d \<union> set keys"
proof (induction keys arbitrary: d)
  case (Cons key keys)
  then obtain d1 where d1: "ensure_dict key d = Inr d1" "ensure_all_dict keys d1 = Inr d'"
    by (auto simp: rbind_Inr_iff)
  then have "set d \<subseteq> set d1" "(key, Truth True) \<in> set d1" "fst ` set d1 = insert key (fst ` set d)"
    by (force simp: ensure_dict_def split: if_splits)+
  with Cons.IH [OF d1(2)] show ?case by auto
qed simp

lemma strip_dict_keys: "fst ` set (fold strip_dict keys d) = fst ` set d - set keys"
  by (induction keys arbitrary: d) (auto simp: strip_dict_def)

text \<open>
  The rewritten entitlements pass the check made on the signed code, every required key true
  and no stripped key left, exactly when the policy does not both strip and require a key.
\<close>
theorem augment_verified:
  assumes "renders d xml" "list_all plain_key (ent_strip policy)" "list_all plain_key (ent_required policy)"
    "plain_text local_team" "augment_entitlements local_team policy xml = Inr xml'"
  shows "verify_entitlement_text policy xml' \<longleftrightarrow> set (ent_strip policy) \<inter> set (ent_required policy) = {}"
proof -
  obtain pre post where "renders_in pre post d xml" using assms(1) by (auto simp: renders_iff)
  from augment_renders [OF this assms(2-4)] assms(5) obtain d' where
    d': "augment_dict local_team policy d = Inr d'" "renders d' xml'"
    by (auto simp: renders_iff split: sum.splits)
  then obtain d1 where d1: "ensure_all_dict (ent_required policy) (fold strip_dict (ent_strip policy) d) = Inr d1"
    "d' = rewrite_team_dict local_team d1"
    by (auto simp: augment_dict_def rbind_Inr_iff)
  note sound = ensure_all_dict_sound [OF d1(1)]
  have "list_all (has_boolean_entitlement xml') (ent_required policy)"
    using sound rewrite_team_dict_truth renders_search(1) [OF d'(2)] assms(3)
    by (auto simp: d1(2) list_all_iff)
  moreover have "fst ` set d' = fst ` set d - set (ent_strip policy) \<union> set (ent_required policy)"
    using sound by (simp add: d1(2) rewrite_team_dict_keys strip_dict_keys)
  then have "list_all (\<lambda>key. \<not> has_entitlement_key xml' key) (ent_strip policy) \<longleftrightarrow>
      set (ent_strip policy) \<inter> set (ent_required policy) = {}"
    using renders_search(2) [OF d'(2)] assms(2) by (auto simp: list_all_iff)
  ultimately show ?thesis by (simp add: verify_entitlement_text_def)
qed


section \<open>Instances\<close>

definition demo_policy :: entitlements_spec where
  "demo_policy = \<lparr>ent_strip = [''a''], ent_required = [''q'']\<rparr>"

definition demo_dict :: ent_dict where
  "demo_dict = [(app_identifier_key, Scalar ''string'' ''UP.x''), (''a'', Truth True),
     (''keychain-access-groups'', Strings [''UP.*'', ''other''])]"

definition demo_text :: string where
  "demo_text = ''<plist><dict>'' @
     (key_tag app_identifier_key @ string_element ''UP.x'' @
      key_tag ''a'' @ '' '' @ ''<true/>'' @
      key_tag ''keychain-access-groups'' @ ''<array>'' @ string_element ''UP.*'' @ string_element ''other'' @ ''</array>'') @
     ''</dict>'' @ ''</plist>''"

lemma demo_renders: "renders demo_dict demo_text"
proof -
  have strings: "strings_text [''UP.*'', ''other''] ([] @ string_element ''UP.*'' @ [] @ string_element ''other'' @ [])"
    by (intro strings_text.intros) (simp_all add: white_def plain_text_def)
  have id: "value_text (Scalar ''string'' ''UP.x'') (string_element ''UP.x'')"
    using text_scalar [of "''string''" "''UP.x''"] by (simp add: scalar_tags_def plain_text_def string_element_def)
  have "items_text demo_dict ([] @ key_tag app_identifier_key @ [] @ string_element ''UP.x'' @
      [] @ key_tag ''a'' @ '' '' @ ''<true/>'' @
      [] @ key_tag ''keychain-access-groups'' @ [] @
        (''<array>'' @ ([] @ string_element ''UP.*'' @ [] @ string_element ''other'' @ []) @ ''</array>'') @ [])"
    unfolding demo_dict_def
    by (intro items_text.intros text_true text_strings strings id plain_identifier)
       (simp_all add: white_def plain_key_def re_space_def)
  then show ?thesis
    unfolding renders_def
    by (intro exI [of _ "''<plist><dict>''"] exI [of _ "''</plist>''"] exI) (auto simp: demo_text_def)
qed

lemma demo_keys: "list_all plain_key (ent_strip demo_policy)" "list_all plain_key (ent_required demo_policy)"
  "plain_text ''ME''"
  by (simp_all add: demo_policy_def plain_key_def plain_text_def re_space_def)

definition demo_result :: ent_dict where
  "demo_result = [(app_identifier_key, Scalar ''string'' ''ME.x''),
     (''keychain-access-groups'', Strings [''ME.x'', ''other'']), (''q'', Truth True)]"


theorem augment_verified_witness:
  "\<exists>xml'. augment_entitlements ''ME'' demo_policy demo_text = Inr xml' \<and> verify_entitlement_text demo_policy xml'"
proof -
  have "augment_dict ''ME'' demo_policy demo_dict = Inr demo_result" by code_simp
  then obtain xml' where x: "augment_entitlements ''ME'' demo_policy demo_text = Inr xml'"
    using demo_renders augment_renders [OF _ demo_keys] by (fastforce simp: renders_iff)
  moreover have "verify_entitlement_text demo_policy xml'"
    using augment_verified [OF demo_renders demo_keys x] by (simp add: demo_policy_def)
  ultimately show ?thesis by blast
qed

end
