(* ===== verification/Injector_Policy.thy ===== *)
theory Injector_Policy
  imports Config_Apps
begin

text \<open>
  \<open>EncodeInjectorPolicy\<close> of \<open>internal/devsign/devsign.go\<close>: the launch policy as the NUL-separated
  records the injected library reads, with the reader of \<open>injector/clyde_inject.c\<close> as its
  specification.
\<close>

datatype injector_error = EmptyKey string | EmptyValue | UnsupportedEnv string | UnsupportedArg string

definition nul :: char where "nul = CHR 0x00"

definition redirect_port_key :: string where "redirect_port_key = ''DVC_CLYDE_REDIRECT_PORT''"

definition policy_record :: "string list \<Rightarrow> string" where
  "policy_record vs = concat (map (\<lambda>v. v @ [nul]) vs)"

definition env_record :: "env_action \<Rightarrow> (injector_error, string) result" where
  "env_record a =
     (let key = trim_space (env_key a); act = to_lower (trim_space (env_act a)) in
      if act = ''set'' then
        (if key = [] then Inl (EmptyKey ''set'') else Inr (policy_record [''set'', key, env_value a]))
      else if act = ''unset'' then
        (if key = [] then Inl (EmptyKey ''unset'') else Inr (policy_record [''unset'', key]))
      else Inl (UnsupportedEnv (env_act a)))"

definition arg_record :: "arg_action \<Rightarrow> (injector_error, string) result" where
  "arg_record a =
     (if to_lower (trim_space (arg_act a)) = ''append'' then
        (if arg_value a = [] then Inl EmptyValue else Inr (policy_record [''append-argv'', arg_value a]))
      else Inl (UnsupportedArg (arg_act a)))"

definition port_record :: "launch_policy_spec \<Rightarrow> string" where
  "port_record p =
     (if lp_proxy_port p > 0 \<and> \<not> list_ex (\<lambda>a. trim_space (env_key a) = redirect_port_key) (lp_environment p)
      then policy_record [''set'', redirect_port_key, int_str (lp_proxy_port p)] else [])"

definition encode_injector_policy :: "launch_policy_spec \<Rightarrow> (injector_error, string) result" where
  "encode_injector_policy p =
     rbind (mapM env_record (lp_environment p)) (\<lambda>es.
     rbind (mapM arg_record (lp_arguments p)) (\<lambda>as.
       Inr (concat es @ port_record p @ concat as)))"

section \<open>The reader\<close>

text \<open>
  \<open>next_token\<close>: the bytes up to the next NUL; bytes after the last NUL are no token. \<open>apply_policy\<close>
  performs the records in order and stops at the first it does not understand or cannot
  complete. The result lists what it performs.
\<close>

datatype injector_action = SetEnv string string | UnsetEnv string | AppendArg string

fun tokens :: "string \<Rightarrow> string list" where
  "tokens [] = []"
| "tokens (c # s) =
     (if c = nul then [] # tokens s
      else case tokens s of [] \<Rightarrow> [] | t # ts \<Rightarrow> (c # t) # ts)"

fun perform :: "string list \<Rightarrow> injector_action list" where
  "perform (k # a # b # ts) =
     (if k = ''set'' then SetEnv a b # perform ts
      else if k = ''unset'' then UnsetEnv a # perform (b # ts)
      else if k = ''append-argv'' then AppendArg a # perform (b # ts)
      else [])"
| "perform [k, a] =
     (if k = ''unset'' then [UnsetEnv a] else if k = ''append-argv'' then [AppendArg a] else [])"
| "perform [k] = []"
| "perform [] = []"

definition read_injector_policy :: "string \<Rightarrow> injector_action list" where
  "read_injector_policy data = perform (tokens data)"

text \<open>What the policy of the configuration asks for.\<close>

definition env_action_of :: "env_action \<Rightarrow> injector_action" where
  "env_action_of a =
     (if to_lower (trim_space (env_act a)) = ''set'' then SetEnv (trim_space (env_key a)) (env_value a)
      else UnsetEnv (trim_space (env_key a)))"

definition wanted_actions :: "launch_policy_spec \<Rightarrow> injector_action list" where
  "wanted_actions p =
     map env_action_of (lp_environment p) @
     (if lp_proxy_port p > 0 \<and> \<not> list_ex (\<lambda>a. trim_space (env_key a) = redirect_port_key) (lp_environment p)
      then [SetEnv redirect_port_key (int_str (lp_proxy_port p))] else []) @
     map (\<lambda>a. AppendArg (arg_value a)) (lp_arguments p)"

definition nul_free :: "launch_policy_spec \<Rightarrow> bool" where
  "nul_free p \<longleftrightarrow>
     list_all (\<lambda>a. nul \<notin> set (env_key a) \<and> nul \<notin> set (env_value a)) (lp_environment p) \<and>
     list_all (\<lambda>a. nul \<notin> set (arg_value a)) (lp_arguments p)"

section \<open>Reading what was written\<close>

lemma tokens_append: "nul \<notin> set v \<Longrightarrow> tokens (v @ nul # s) = v # tokens s"
  by (induction v) auto

lemma tokens_record: "list_all (\<lambda>v. nul \<notin> set v) vs \<Longrightarrow> tokens (policy_record vs @ s) = vs @ tokens s"
  by (induction vs) (simp_all add: policy_record_def tokens_append)

text \<open>A text of complete records: performing it first changes nothing for what follows.\<close>

definition does :: "string \<Rightarrow> injector_action list \<Rightarrow> bool" where
  "does data acts \<longleftrightarrow> (\<forall>s. perform (tokens (data @ s)) = acts @ perform (tokens s))"

lemma does_Nil: "does [] []"
  by (simp add: does_def)

lemma does_append: "does a xs \<Longrightarrow> does b ys \<Longrightarrow> does (a @ b) (xs @ ys)"
  by (simp add: does_def)

lemma does_concat: "list_all2 does ds acts \<Longrightarrow> does (concat ds) (concat acts)"
  by (induction rule: list_all2_induct) (simp_all add: does_Nil does_append)

lemma perform_pair:
  "k = ''unset'' \<Longrightarrow> perform (k # a # ts) = UnsetEnv a # perform ts"
  "k = ''append-argv'' \<Longrightarrow> perform (k # a # ts) = AppendArg a # perform ts"
  by (cases ts; simp)+

lemma does_records:
  "nul \<notin> set k \<Longrightarrow> nul \<notin> set v \<Longrightarrow> does (policy_record [''set'', k, v]) [SetEnv k v]"
  "nul \<notin> set k \<Longrightarrow> does (policy_record [''unset'', k]) [UnsetEnv k]"
  "nul \<notin> set v \<Longrightarrow> does (policy_record [''append-argv'', v]) [AppendArg v]"
  by (simp_all add: does_def tokens_record perform_pair nul_def)

lemma trim_no_nul: "nul \<notin> set s \<Longrightarrow> nul \<notin> set (trim_space s)"
  unfolding trim_space_def trim_left_def
  by (meson in_mono set_mono_prefix set_mono_suffix strip_all_suffix trim_right_prefix)

lemma env_record_does:
  assumes "env_record a = Inr d" "nul \<notin> set (env_key a)" "nul \<notin> set (env_value a)"
  shows "does d [env_action_of a]"
  using assms trim_no_nul [OF assms(2)]
  by (auto simp: env_record_def env_action_of_def Let_def split: if_splits intro: does_records)

lemma arg_record_does:
  assumes "arg_record a = Inr d" "nul \<notin> set (arg_value a)"
  shows "does d [AppendArg (arg_value a)]"
  using assms by (auto simp: arg_record_def split: if_splits intro: does_records)

lemma nat_str_no_nul: "nul \<notin> set (nat_str n)"
proof (induction n rule: nat_str.induct)
  case (1 n)
  have "char_of (48 + m) \<noteq> nul" if "m < 10" for m :: nat
  proof
    assume "char_of (48 + m) = nul"
    then have "(48 + m) mod 256 = (of_char nul :: nat)" by (metis of_char_of)
    with that show False by (simp add: nul_def)
  qed
  from 1 this [of n] this [of "n mod 10"] show ?case by (auto simp: nat_str.simps [of n])
qed

lemma int_str_no_nul: "nul \<notin> set (int_str n)"
  using nat_str_no_nul by (simp add: int_str_def nul_def)

lemma port_record_does:
  "does (port_record p) (if lp_proxy_port p > 0 \<and>
      \<not> list_ex (\<lambda>a. trim_space (env_key a) = redirect_port_key) (lp_environment p)
    then [SetEnv redirect_port_key (int_str (lp_proxy_port p))] else [])"
  using int_str_no_nul
  by (simp add: port_record_def does_Nil does_records redirect_port_key_def nul_def)

text \<open>C16.
  The injected library performs exactly the actions of the launch policy, in order, from the
  file the encoder writes, whenever the encoder accepts the policy and no key or value holds
  a NUL byte.
\<close>
theorem injector_policy_read_back:
  assumes "encode_injector_policy p = Inr data" "nul_free p"
  shows "read_injector_policy data = wanted_actions p"
proof -
  obtain es as where m: "mapM env_record (lp_environment p) = Inr es"
    "mapM arg_record (lp_arguments p) = Inr as" and data: "data = concat es @ port_record p @ concat as"
    using assms(1) by (auto simp: encode_injector_policy_def rbind_Inr_iff)
  have e: "list_all2 does es (map (\<lambda>a. [env_action_of a]) (lp_environment p))"
    using m(1) assms(2) unfolding mapM_Inr_iff nul_free_def
    by (auto simp: list_all2_conv_all_nth list_all_length intro!: env_record_does)
  have a: "list_all2 does as (map (\<lambda>a. [AppendArg (arg_value a)]) (lp_arguments p))"
    using m(2) assms(2) unfolding mapM_Inr_iff nul_free_def
    by (auto simp: list_all2_conv_all_nth list_all_length intro!: arg_record_does)
  from does_append [OF does_concat [OF e] does_append [OF port_record_does [of p] does_concat [OF a]]]
  have "does data (wanted_actions p)"
    unfolding data wanted_actions_def concat_map_singleton .
  then show ?thesis by (simp add: does_def read_injector_policy_def) (metis append_Nil2 perform.simps(4) tokens.simps(1))
qed

definition demo_policy :: launch_policy_spec where
  "demo_policy = \<lparr>lp_proxy_host = ''h'', lp_proxy_port = 80, lp_ca_certificate = ''/c'',
     lp_no_proxy = ''n'', lp_working_dir = ''/w'', lp_ignore_signal = [],
     lp_environment = [\<lparr>env_act = ''set'', env_key = ''K'', env_value = ''v''\<rparr>,
       \<lparr>env_act = ''unset'', env_key = ''U'', env_value = []\<rparr>],
     lp_arguments = [\<lparr>arg_act = ''append'', arg_value = ''--x''\<rparr>], lp_preflights = []\<rparr>"

lemma demo_policy_encoded:
  "\<exists>data. encode_injector_policy demo_policy = Inr data"
proof -
  have "(case encode_injector_policy demo_policy of Inl _ \<Rightarrow> False | Inr _ \<Rightarrow> True)" by code_simp
  then show ?thesis by (auto split: sum.splits)
qed

lemma demo_policy_nul_free: "nul_free demo_policy"
  by code_simp

lemma injector_policy_read_back_witness:
  "\<exists>data. encode_injector_policy demo_policy = Inr data \<and>
     read_injector_policy data =
       [SetEnv ''K'' ''v'', UnsetEnv ''U'', SetEnv redirect_port_key ''80'', AppendArg ''--x'']"
proof -
  obtain data where d: "encode_injector_policy demo_policy = Inr data"
    using demo_policy_encoded by blast
  have "wanted_actions demo_policy =
      [SetEnv ''K'' ''v'', UnsetEnv ''U'', SetEnv redirect_port_key ''80'', AppendArg ''--x'']"
    by code_simp
  with d injector_policy_read_back [OF d demo_policy_nul_free] show ?thesis by simp
qed

end
