(* ===== verification/Injector_Config.thy ===== *)
theory Injector_Config
  imports Injector_Policy Config_Facts
begin

text \<open>
  The launch policies the loader accepts (\<open>internal/config/load.go\<close>) against those
  \<open>EncodeInjectorPolicy\<close> of \<open>internal/devsign/devsign.go\<close> can write.
\<close>

section \<open>What the loader leaves of an action\<close>

definition env_trimmed :: "env_action \<Rightarrow> bool" where
  "env_trimmed a \<longleftrightarrow>
     env_act a \<in> {''set'', ''unset''} \<and> env_key a \<noteq> [] \<and> trim_space (env_key a) = env_key a"

lemma trimmed_env_action: "normalize_env_action path ia = Inr a \<Longrightarrow> env_trimmed a"
  by (cases ia) (auto simp: normalize_env_action_def Let_def guard_simps env_trimmed_def)

lemma literal_actions:
  "to_lower (trim_space ''set'') = ''set''" "to_lower (trim_space ''unset'') = ''unset''"
  "to_lower (trim_space ''append'') = ''append''" "to_lower (trim_space ''prepend'') = ''prepend''"
  by code_simp+

lemma env_record_accepts:
  assumes "env_trimmed a"
  shows "\<exists>d. env_record a = Inr d"
  using assms by (auto simp: env_trimmed_def env_record_def Let_def literal_actions)

lemma arg_record_accepts:
  assumes "arg_action_ok a"
  shows "(\<exists>d. arg_record a = Inr d) \<longleftrightarrow> arg_act a = ''append''"
  using assms by (auto simp: arg_action_ok_def arg_record_def literal_actions)

lemma mapM_defined: "(\<exists>ys. mapM f xs = Inr ys) \<longleftrightarrow> list_all (\<lambda>x. \<exists>y. f x = Inr y) xs"
  by (induction xs) (auto split: sum.splits)

lemma normalized_launch_parts:
  assumes "normalize_launch_policy env path p = Inr p'"
  shows "list_all env_trimmed (lp_environment p')"
    and "list_all arg_action_ok (lp_arguments p')"
  using assms
  by (auto simp: normalize_launch_policy_def Let_def guard_simps
      intro: mapM_all trimmed_env_action normalize_arg_action_ok)

section \<open>Which of them can be injected\<close>

text \<open>
  Of the launch policies the loader accepts, the injector's encoder accepts exactly those whose
  arguments are all appended: a policy with a \<open>prepend\<close> argument loads and then fails every
  development-signed patch of the app.
\<close>
theorem prepend_not_injectable:
  assumes "normalize_launch_policy env path p = Inr p'"
  shows "(\<exists>data. encode_injector_policy p' = Inr data) \<longleftrightarrow>
    list_all (\<lambda>a. arg_act a = ''append'') (lp_arguments p')"
proof -
  note parts = normalized_launch_parts [OF assms]
  have e: "\<exists>es. mapM env_record (lp_environment p') = Inr es"
    unfolding mapM_defined using parts(1) by (auto simp: list_all_iff intro!: env_record_accepts)
  have a: "(\<exists>as. mapM arg_record (lp_arguments p') = Inr as) \<longleftrightarrow>
      list_all (\<lambda>a. arg_act a = ''append'') (lp_arguments p')"
    unfolding mapM_defined using parts(2) arg_record_accepts by (auto simp: list_all_iff)
  have "(\<exists>data. encode_injector_policy p' = Inr data) \<longleftrightarrow>
      (\<exists>as. mapM arg_record (lp_arguments p') = Inr as)"
    using e by (auto simp: encode_injector_policy_def rbind_Inr_iff)
  with a show ?thesis by simp
qed

definition demo_launch_policy :: launch_policy_spec where
  "demo_launch_policy = \<lparr>lp_proxy_host = ''h'', lp_proxy_port = 8080, lp_ca_certificate = ''/c'',
     lp_no_proxy = ''n'', lp_working_dir = ''/w'', lp_ignore_signal = [],
     lp_environment = [\<lparr>env_act = ''set'', env_key = ''K'', env_value = ''v''\<rparr>],
     lp_arguments = [\<lparr>arg_act = ''prepend'', arg_value = ''x''\<rparr>], lp_preflights = []\<rparr>"

definition demo_go_env :: go_env where
  "demo_go_env = \<lparr>env_home = ''/h'', env_xdg_config = [], env_xdg_state = [], env_xdg_cache = []\<rparr>"

lemma demo_launch_policy_loads:
  "normalize_launch_policy demo_go_env ''p'' demo_launch_policy = Inr demo_launch_policy"
  by code_simp

lemma prepend_not_injectable_witness:
  "\<not> (\<exists>data. encode_injector_policy demo_launch_policy = Inr data)"
  using prepend_not_injectable [OF demo_launch_policy_loads]
  by (simp add: demo_launch_policy_def)

end
