(* ===== verification/Patch_World.thy ===== *)
theory Patch_World
  imports Go_Effects Tar_Extract Registry Config_Paths Entitlements State_Store Targets
begin

text \<open>
  What the patch flow acts on (\<open>internal/patch/runner.go\<close>): the file tree, the rest of the world
  (\<open>'w\<close>: keychains, the trust store, running programs), and the trace of the runner, which
  \<open>traceAction\<close> and \<open>traceCommand\<close> write, extended by the commands that were really started.
  External programs, the extension hooks, the property list and JSON codecs and the clock are
  fields of the environment. The lines shown to the user are not modelled.
\<close>

section \<open>Calls on paths\<close>

definition with_path :: "bool \<Rightarrow> string list \<Rightarrow> (fpath \<Rightarrow> filesys \<Rightarrow> (os_error, filesys option) result) \<Rightarrow>
    os \<Rightarrow> os_error option \<times> os" where
  "with_path follow p act w = (let (f, w1) = next_fault w in
     case f of Fault _ \<Rightarrow> (Some EIO, w1)
     | NoFault \<Rightarrow> (case resolve follow p (os_fs w1) of
         Inl e \<Rightarrow> (Some e, w1)
       | Inr q \<Rightarrow> (case act q (os_fs w1) of
           Inl e \<Rightarrow> (Some e, w1)
         | Inr None \<Rightarrow> (None, w1)
         | Inr (Some fs) \<Rightarrow> (None, os_put fs w1))))"

text \<open>\<open>os.Chmod\<close>: permission bits are not modelled, the call can fail.\<close>

definition chmod_at :: "string list \<Rightarrow> os \<Rightarrow> os_error option \<times> os" where
  "chmod_at p = with_path True p (\<lambda>q fs. if is_dir fs q \<or> fs q \<noteq> None then Inr None else Inl ENOENT)"

text \<open>\<open>os.Rename\<close> on paths still to be walked; the last component is not followed.\<close>

definition rename_at :: "string list \<Rightarrow> string list \<Rightarrow> os \<Rightarrow> os_error option \<times> os" where
  "rename_at a b = with_path False a (\<lambda>qa fs.
     case resolve False b fs of
       Inl e \<Rightarrow> Inl e
     | Inr qb \<Rightarrow>
         if qa = [] \<or> fs qa = None then Inl ENOENT
         else if qb = [] \<or> fs qb = Some Dir then Inl EEXIST
         else if prefix qa qb then Inl EINVAL
         else if fs qa = Some Dir \<and> fs qb \<noteq> None then Inl ENOTDIR
         else Inr (Some (move_tree qa qb fs)))"

text \<open>\<open>os.RemoveAll\<close>: a path that does not resolve is nothing to remove.\<close>

definition remove_all_at :: "string list \<Rightarrow> os \<Rightarrow> os_error option \<times> os" where
  "remove_all_at p w = (let (f, w1) = next_fault w in
     case resolve False p (os_fs w1) of
       Inl e \<Rightarrow> (case f of Fault _ \<Rightarrow> (Some EIO, w1)
                | NoFault \<Rightarrow> (if e = ENOENT then None else Some e, w1))
     | Inr q \<Rightarrow> (case f of Fault keep \<Rightarrow> (Some EIO, os_put (drop_tree q keep (os_fs w1)) w1)
                | NoFault \<Rightarrow> (None, os_put (drop_tree q [] (os_fs w1)) w1)))"

section \<open>State, environment, errors\<close>

datatype exec_error = ExitStatus int | Signaled int | ExecFailed string

datatype patch_error =
    Plain string
  | OsFailed string os_error
  | CmdFailed string exec_error
  | EntFailed ent_error
  | HookFailed "string dispatch_error"
  | Within string patch_error

datatype pw_event =
    TraceAction string string string
  | TraceCommand string string "string list"
  | Executed string "string list" bool            \<comment> \<open>whether it succeeded\<close>

type_synonym 'w world = "os \<times> 'w"

record 'w pw_sys =
  pw_os :: os
  pw_ext :: 'w
  pw_log :: "pw_event list"

type_synonym ('w, 'a) pw_act = "'w pw_sys \<Rightarrow> (patch_error, 'a) result \<times> 'w pw_sys"

record patch_options =
  po_dry_run :: bool
  po_migrate :: bool
  po_close :: bool
  po_override :: string
  po_final :: string

record plist_info =
  pi_executable :: string
  pi_version :: string
  pi_identifier :: string

record signature =
  sg_identifier :: string
  sg_team :: string

text \<open>An entry of the walk over a bundle, in the order \<open>filepath.WalkDir\<close> visits.\<close>

datatype walk_node =
    WFile string
  | WOther string
  | WDir string "walk_node list"
  | WUnreadable string                             \<comment> \<open>a directory that cannot be listed\<close>

record 'w pw_env =
  pe_genv :: go_env
  pe_identity :: string                            \<comment> \<open>\<open>signing.identity\<close> of the configuration\<close>
  pe_team :: string                                \<comment> \<open>\<open>signing.team_id\<close>\<close>
  pe_exec :: "string \<Rightarrow> string list \<Rightarrow> 'w world \<Rightarrow> exec_error option \<times> 'w world"
  pe_output :: "string \<Rightarrow> string list \<Rightarrow> 'w world \<Rightarrow> (exec_error, string) result \<times> 'w world"
  pe_combined :: "string \<Rightarrow> string list \<Rightarrow> 'w world \<Rightarrow> (exec_error option \<times> string) \<times> 'w world"
  pe_listing :: "string \<Rightarrow> filesys \<Rightarrow> walk_node list"
  pe_glob :: "string \<Rightarrow> filesys \<Rightarrow> string list option"
  pe_eval_links :: "string \<Rightarrow> filesys \<Rightarrow> string option"   \<comment> \<open>\<open>filepath.EvalSymlinks\<close>\<close>
  pe_plist :: "string \<Rightarrow> (string, plist_info) result"
  pe_bundle_plist :: "string \<Rightarrow> (string, string \<times> string \<times> string) result"
  pe_policy_json :: "launch_policy_spec \<Rightarrow> (string, string) result"
  pe_tmp :: string                                 \<comment> \<open>\<open>os.TempDir()\<close>\<close>
  pe_nano :: nat
  pe_temp_dir :: string                            \<comment> \<open>the directory \<open>os.MkdirTemp\<close> makes\<close>
  pe_part :: string                                \<comment> \<open>what a failed write leaves\<close>
  pe_shim :: string
  pe_injector :: string
  pe_smoke_source :: string
  pe_certificate :: "string \<Rightarrow> (string, string \<times> string) result"   \<comment> \<open>common name, SHA-256\<close>
  pe_pre_launch :: "(patch_options \<Rightarrow> (target \<times> 'w world) hook) gomap"
  pe_post_patch :: "(patch_options \<Rightarrow> target \<Rightarrow> 'w world hook) gomap"
  pe_post_bundle :: "(patch_options \<Rightarrow> target \<Rightarrow> 'w world hook) gomap"
  pe_mutations :: "(patch_options \<Rightarrow> target \<Rightarrow> 'w world hook) gomap"
  pe_verifications :: "(patch_options \<Rightarrow> target \<Rightarrow> 'w world hook) gomap"
  pe_codec :: codec                                \<comment> \<open>the JSON of the state file\<close>
  pe_state_tmp :: fpath                            \<comment> \<open>the name \<open>os.CreateTemp\<close> picks beside it\<close>
  pe_now :: int
  pe_discover :: "'w world \<Rightarrow> bool \<times> 'w world"     \<comment> \<open>\<open>CredentialsDiscoverer\<close>\<close>
  pe_generate :: "'w world \<Rightarrow> 'w world"            \<comment> \<open>\<open>AssetGenerator\<close>\<close>
  pe_running :: "'w world \<Rightarrow> bool \<times> 'w world"
  pe_ensure_closed :: "'w world \<Rightarrow> string option \<times> 'w world"
  pe_unquarantine :: "string \<Rightarrow> 'w world \<Rightarrow> 'w world"

definition on_world :: "('w world \<Rightarrow> 'r \<times> 'w world) \<Rightarrow> 'w pw_sys \<Rightarrow> 'r \<times> 'w pw_sys" where
  "on_world f s = (let (r, (w, x)) = f (pw_os s, pw_ext s) in (r, s\<lparr>pw_os := w, pw_ext := x\<rparr>))"

definition on_files :: "(os \<Rightarrow> 'r \<times> os) \<Rightarrow> 'w pw_sys \<Rightarrow> 'r \<times> 'w pw_sys" where
  "on_files f = on_world (\<lambda>(w, x). let (r, w') = f w in (r, (w', x)))"

definition trace_event :: "pw_event \<Rightarrow> 'w pw_sys \<Rightarrow> unit \<times> 'w pw_sys" where
  "trace_event e s = ((), s\<lparr>pw_log := pw_log s @ [e]\<rparr>)"

definition tracing :: "pw_event \<Rightarrow> ('w pw_sys \<Rightarrow> 'r \<times> 'w pw_sys) \<Rightarrow> 'w pw_sys \<Rightarrow> 'r \<times> 'w pw_sys" where
  "tracing e a = bind_act (trace_event e) (\<lambda>_. a)"

definition nil_act :: "('w, unit) pw_act" where
  "nil_act = return_act (Inr ())"

definition fail_act :: "patch_error \<Rightarrow> ('w, 'a) pw_act" where
  "fail_act e = return_act (Inl e)"

text \<open>\<open>fmt.Errorf("what: %w", err)\<close>\<close>

definition labelled :: "string \<Rightarrow> ('w, 'a) pw_act \<Rightarrow> ('w, 'a) pw_act" where
  "labelled what a = bind_act a (\<lambda>r. return_act (case r of Inl e \<Rightarrow> Inl (Within what e) | Inr x \<Rightarrow> Inr x))"

definition file_call :: "string \<Rightarrow> (os \<Rightarrow> os_error option \<times> os) \<Rightarrow> ('w, unit) pw_act" where
  "file_call what f = bind_act (on_files f) (\<lambda>r. return_act (case r of Some e \<Rightarrow> Inl (OsFailed what e) | None \<Rightarrow> Inr ()))"

text \<open>\<open>os.Stat\<close> with the three cases the code tells apart: there, not there, another error.\<close>

definition stat_path :: "string \<Rightarrow> 'w pw_sys \<Rightarrow> (os_error, bool) result \<times> 'w pw_sys" where
  "stat_path p = on_files (stat_at (path_components p))"

definition exists_path :: "string \<Rightarrow> string \<Rightarrow> ('w, bool) pw_act" where
  "exists_path what p = bind_act (stat_path p) (\<lambda>r. return_act
     (case r of Inr _ \<Rightarrow> Inr True | Inl e \<Rightarrow> if e = ENOENT then Inr False else Inl (OsFailed what e)))"

text \<open>\<open>os.ReadFile\<close>, \<open>os.WriteFile\<close> and \<open>os.MkdirAll\<close> on a path given as text.\<close>

definition read_path :: "string \<Rightarrow> string \<Rightarrow> ('w, string) pw_act" where
  "read_path what p = bind_act (on_files (read_file_at (path_components p)))
     (\<lambda>r. return_act (case r of Inl e \<Rightarrow> Inl (OsFailed what e) | Inr d \<Rightarrow> Inr d))"

definition write_path :: "'w pw_env \<Rightarrow> string \<Rightarrow> string \<Rightarrow> string \<Rightarrow> ('w, unit) pw_act" where
  "write_path env what p data = file_call what (write_file_at (path_components p) data (pe_part env))"

definition mkdir_path :: "string \<Rightarrow> string \<Rightarrow> ('w, unit) pw_act" where
  "mkdir_path what p = file_call what (mkdir_all_at (rev (path_components p)))"

text \<open>Statements in turn, up to the first that fails; and one whose error is dropped.\<close>

definition in_turn :: "('w, unit) pw_act list \<Rightarrow> ('w, unit) pw_act" where
  "in_turn as = each_act (\<lambda>a. a) as"

definition best_effort :: "('w, 'a) pw_act \<Rightarrow> ('w, unit) pw_act" where
  "best_effort a = bind_act a (\<lambda>_. nil_act)"

section \<open>The runner\<close>

text \<open>A program that is started leaves an \<open>Executed\<close> entry once it has returned.\<close>

definition started :: "string \<Rightarrow> string list \<Rightarrow> ('w world \<Rightarrow> 'r \<times> 'w world) \<Rightarrow> ('r \<Rightarrow> bool) \<Rightarrow>
    'w pw_sys \<Rightarrow> 'r \<times> 'w pw_sys" where
  "started name args f ok =
     bind_act (on_world f) (\<lambda>r. bind_act (trace_event (Executed name args (ok r))) (\<lambda>_. return_act r))"

definition runner_run :: "'w pw_env \<Rightarrow> bool \<Rightarrow> string \<Rightarrow> string list \<Rightarrow> ('w, unit) pw_act" where
  "runner_run env dry name args =
     tracing (TraceCommand ''run_command'' name args)
       (if dry then nil_act
        else bind_act (started name args (pe_exec env name args) (\<lambda>r. r = None)) (\<lambda>r. return_act
          (case r of Some e \<Rightarrow> Inl (CmdFailed name e) | None \<Rightarrow> Inr ())))"

text \<open>\<open>exec.Command(...).Output()\<close>, outside the runner: also in a dry run.\<close>

definition exec_output :: "'w pw_env \<Rightarrow> string \<Rightarrow> string list \<Rightarrow> ('w, string) pw_act" where
  "exec_output env name args =
     bind_act (started name args (pe_output env name args) (\<lambda>r. \<not> isl r)) (\<lambda>r. return_act
       (case r of Inl e \<Rightarrow> Inl (CmdFailed name e) | Inr out \<Rightarrow> Inr out))"

definition runner_capture :: "'w pw_env \<Rightarrow> bool \<Rightarrow> string \<Rightarrow> string list \<Rightarrow> ('w, string) pw_act" where
  "runner_capture env dry name args =
     tracing (TraceCommand ''run_command_with_captured_stdout'' name args)
       (if dry then return_act (Inr []) else exec_output env name args)"

text \<open>\<open>exec.Command(...).CombinedOutput()\<close>: the output is there when the command failed, too.\<close>

definition exec_combined :: "'w pw_env \<Rightarrow> string \<Rightarrow> string list \<Rightarrow>
    'w pw_sys \<Rightarrow> (exec_error option \<times> string) \<times> 'w pw_sys" where
  "exec_combined env name args = started name args (pe_combined env name args) (\<lambda>r. fst r = None)"

definition codesign :: string where "codesign = ''/usr/bin/codesign''"

end
