(* ===== verification/Bundle_Identity.thy ===== *)
theory Bundle_Identity
  imports Patch_World "HOL-Library.Product_Lexorder"
begin

text \<open>
  \<open>internal/bundleidentity/bundleidentity.go\<close>: the bundles an app contains, whether they hold
  running code, and what \<open>codesign -dv\<close> says of them; with the walk over a directory tree
  that this package and \<open>internal/patch/macho.go\<close> share.
\<close>

section \<open>Walking a bundle\<close>

text \<open>
  \<open>filepath.WalkDir\<close>: what the callback is called with, in order. \<open>enter\<close> is what it says about
  a directory: enter, \<open>SkipDir\<close>, or an error that ends the walk.
\<close>

datatype visit = VisitFile string bool | VisitFailed string   \<comment> \<open>whether the file is regular\<close>

fun visits :: "(string \<Rightarrow> bool option) \<Rightarrow> string \<Rightarrow> walk_node list \<Rightarrow> visit list" where
  "visits enter dir [] = []"
| "visits enter dir (WFile x # ns) = VisitFile (go_join [dir, x]) True # visits enter dir ns"
| "visits enter dir (WOther x # ns) = VisitFile (go_join [dir, x]) False # visits enter dir ns"
| "visits enter dir (WDir x kids # ns) =
     (case enter (go_join [dir, x]) of
        None \<Rightarrow> [VisitFailed (go_join [dir, x])]
      | Some True \<Rightarrow> visits enter (go_join [dir, x]) kids @ visits enter dir ns
      | Some False \<Rightarrow> visits enter dir ns)"
| "visits enter dir (WUnreadable x # ns) =
     (case enter (go_join [dir, x]) of
        Some False \<Rightarrow> visits enter dir ns
      | _ \<Rightarrow> [VisitFailed (go_join [dir, x])])"

text \<open>A loop over the visits that collects results; a failed visit ends it.\<close>

fun collect_visits :: "(string \<Rightarrow> bool \<Rightarrow> 'a list \<Rightarrow> ('w, 'a list) pw_act) \<Rightarrow> visit list \<Rightarrow> 'a list \<Rightarrow>
    ('w, 'a list) pw_act" where
  "collect_visits f [] acc = return_act (Inr acc)"
| "collect_visits f (VisitFailed p # vs) acc = fail_act (Plain p)"
| "collect_visits f (VisitFile p regular # vs) acc =
     rbind_act (f p regular acc) (\<lambda>acc'. collect_visits f vs acc')"

definition listing :: "'w pw_env \<Rightarrow> string \<Rightarrow> 'w pw_sys \<Rightarrow> walk_node list \<times> 'w pw_sys" where
  "listing env p = on_files (\<lambda>w. (pe_listing env p (os_fs w), w))"

definition rel_path :: "string \<Rightarrow> string \<Rightarrow> string option" where
  "rel_path base target = map_option (\<lambda>es. render (False, es)) (go_rel base target)"

definition go_ext :: "string \<Rightarrow> string" where
  "go_ext p = (let r = takeWhile (\<lambda>c. c \<noteq> slash) (rev p) in
     if CHR ''.'' \<in> set r then rev (takeWhile (\<lambda>c. c \<noteq> CHR ''.'') r @ ''.'') else [])"

section \<open>Signatures and paths\<close>

definition signature_line :: "signature \<Rightarrow> string \<Rightarrow> signature" where
  "signature_line sig line =
     (case cut (CHR ''='') (trim_space line) of
        None \<Rightarrow> sig
      | Some (key, v) \<Rightarrow>
          if key = ''Identifier'' then sig\<lparr>sg_identifier := trim_space v\<rparr>
          else if key = ''TeamIdentifier'' then sig\<lparr>sg_team := trim_space v\<rparr> else sig)"

definition parse_signature :: "string \<Rightarrow> signature" where
  "parse_signature text =
     foldl signature_line \<lparr>sg_identifier = [], sg_team = []\<rparr> (split_on (CHR 0x0A) text)"

definition read_signature :: "'w pw_env \<Rightarrow> string \<Rightarrow> ('w, signature) pw_act" where
  "read_signature env path =
     bind_act (exec_combined env codesign [''-dv'', path]) (\<lambda>(e, out). return_act
       (case e of None \<Rightarrow> Inr (parse_signature (trim_space out)) | Some x \<Rightarrow> Inl (CmdFailed codesign x)))"

definition same_path :: "string \<Rightarrow> string \<Rightarrow> bool" where
  "same_path l r \<longleftrightarrow> go_clean l = go_clean r"

definition is_preserved :: "string \<Rightarrow> string list \<Rightarrow> bool" where
  "is_preserved rel preserved =
     (let r = go_clean rel in list_ex (\<lambda>p. r = go_clean p \<or> prefix (go_clean p @ ''/'') r) preserved)"

definition path_depth :: "string \<Rightarrow> nat" where
  "path_depth p = (if p = ''.'' \<or> p = [] then 0 else count_list p slash)"

section \<open>Entries\<close>

record bundle_entry =
  be_root :: string
  be_relative :: string
  be_info :: string
  be_id :: string
  be_type :: string
  be_executable :: string
  be_runtime :: bool
  be_identifier :: string
  be_team :: string
  be_error :: "patch_error option"

definition bundle_extensions :: "string list" where
  "bundle_extensions = [''.app'', ''.framework'', ''.xpc'', ''.bundle'']"

text \<open>\<open>bundleRootForInfoPlist\<close>: up from the directory to the first with a bundle's extension.\<close>


fun bundle_root_above :: "bool \<Rightarrow> string list \<Rightarrow> string option" where
  "bundle_root_above rooted [] = None"
| "bundle_root_above rooted (c # up) =
     (let path = render (rooted, rev (c # up)) in
      if go_ext path \<in> set bundle_extensions then Some path else bundle_root_above rooted up)"

definition bundle_root_for_info :: "string \<Rightarrow> string option" where
  "bundle_root_for_info info = (let (rooted, es) = clean (go_dir info) in bundle_root_above rooted (rev es))"

definition executable_candidates :: "string \<Rightarrow> string \<Rightarrow> string \<Rightarrow> string list option \<Rightarrow> string list" where
  "executable_candidates bundle_root info exec versioned =
     [go_join [bundle_root, ''Contents'', ''MacOS'', exec], go_join [bundle_root, exec],
      go_join [bundle_root, ''Versions'', ''Current'', exec]] @
     (case versioned of None \<Rightarrow> [] | Some ps \<Rightarrow> ps) @
     (if go_base (go_dir info) = ''Resources'' then [go_join [go_dir (go_dir info), exec]] else [])"

text \<open>The first candidate that is there and is not a directory decides.\<close>

fun some_file :: "string list \<Rightarrow> 'w pw_sys \<Rightarrow> bool \<times> 'w pw_sys" where
  "some_file [] = return_act False"
| "some_file (p # ps) = bind_act (stat_path p) (\<lambda>r. if r = Inr False then return_act True else some_file ps)"

definition has_runtime_executable :: "'w pw_env \<Rightarrow> string \<Rightarrow> string \<Rightarrow> string \<Rightarrow> 'w pw_sys \<Rightarrow> bool \<times> 'w pw_sys" where
  "has_runtime_executable env bundle_root info executable =
     (let exec = trim_space executable in
      if exec = [] then return_act False
      else bind_act (on_files (\<lambda>w. (pe_glob env (go_join [bundle_root, ''Versions'', ''*'', exec]) (os_fs w), w)))
        (\<lambda>versioned. some_file (executable_candidates bundle_root info exec versioned)))"

definition read_entry :: "'w pw_env \<Rightarrow> string \<Rightarrow> string \<Rightarrow> string \<Rightarrow> ('w, bundle_entry) pw_act" where
  "read_entry env scan_root bundle_root info =
     rbind_act (read_path ''read Info.plist'' info) (\<lambda>data.
       case pe_bundle_plist env data of
         Inl e \<Rightarrow> fail_act (Within ''parse Info.plist'' (Plain e))
       | Inr (bundle_id, package, exec) \<Rightarrow> (case rel_path scan_root bundle_root of
           None \<Rightarrow> fail_act (Plain ''relativize bundle root'')
         | Some rel \<Rightarrow> bind_act (has_runtime_executable env bundle_root info exec) (\<lambda>runs.
             return_act (Inr \<lparr>be_root = bundle_root, be_relative = rel, be_info = info,
               be_id = trim_space bundle_id, be_type = trim_space package, be_executable = trim_space exec,
               be_runtime = runs, be_identifier = [], be_team = [], be_error = None\<rparr>))))"

definition with_signature :: "'w pw_env \<Rightarrow> bool \<Rightarrow> bundle_entry \<Rightarrow> ('w, bundle_entry) pw_act" where
  "with_signature env include entry =
     (if \<not> include then return_act (Inr entry)
      else bind_act (read_signature env (be_root entry)) (\<lambda>r. return_act (Inr (case r of
          Inl e \<Rightarrow> entry\<lparr>be_error := Some e\<rparr>
        | Inr sig \<Rightarrow> entry\<lparr>be_identifier := sg_identifier sig, be_team := sg_team sig\<rparr>))))"

text \<open>One visit of the scan: a file \<open>Info.plist\<close> whose bundle has not been seen.\<close>

definition scan_visit :: "'w pw_env \<Rightarrow> bool \<Rightarrow> string \<Rightarrow> string \<Rightarrow> bool \<Rightarrow> bundle_entry list \<Rightarrow>
    ('w, bundle_entry list) pw_act" where
  "scan_visit env include scan_root path regular acc =
     (if go_base path \<noteq> ''Info.plist'' then return_act (Inr acc)
      else case bundle_root_for_info path of
        None \<Rightarrow> return_act (Inr acc)
      | Some bundle_root \<Rightarrow>
          if go_clean bundle_root \<in> be_root ` set acc then return_act (Inr acc)
          else rbind_act (read_entry env scan_root (go_clean bundle_root) path) (\<lambda>entry.
            rbind_act (with_signature env include entry) (\<lambda>signed. return_act (Inr (acc @ [signed])))))"

definition scan_bundles :: "'w pw_env \<Rightarrow> bool \<Rightarrow> string \<Rightarrow> ('w, bundle_entry list) pw_act" where
  "scan_bundles env include path =
     (let scan_root = go_clean path in
      bind_act (stat_path scan_root) (\<lambda>r. case r of
        Inl e \<Rightarrow> if e = ENOENT then return_act (Inr []) else fail_act (OsFailed ''stat bundle identity root'' e)
      | Inr False \<Rightarrow> fail_act (Plain ''bundle identity root is not a directory'')
      | Inr True \<Rightarrow> bind_act (listing env scan_root) (\<lambda>nodes.
          rbind_act (labelled ''walk bundle identities''
              (collect_visits (scan_visit env include scan_root) (visits (\<lambda>_. Some True) scan_root nodes) []))
            (\<lambda>entries. return_act (Inr (sort_key (\<lambda>e. (be_relative e, be_id e)) entries))))))"

definition runtime_nested_entries :: "bundle_entry list \<Rightarrow> string \<Rightarrow> string list \<Rightarrow> bundle_entry list" where
  "runtime_nested_entries entries path preserved =
     sort_key (\<lambda>e. (- int (path_depth (be_relative e)), be_relative e))
       (filter (\<lambda>e. be_runtime e \<and> \<not> same_path (be_root e) (go_clean path) \<and>
                    \<not> is_preserved (be_relative e) preserved) entries)"

end
