(* ===== verification/Dev_Sign.thy ===== *)
theory Dev_Sign
  imports Patch_World Injector_Policy
begin

text \<open>
  Development signing and the injector: \<open>internal/signing/signing.go\<close>,
  \<open>internal/devsign/devsign.go\<close>, \<open>internal/devsign/mitmtrust.go\<close> and
  \<open>internal/devpreflight/devpreflight.go\<close>. \<open>dry\<close> is the dry-run flag of the runner.
\<close>

section \<open>Signing identities and arguments\<close>

definition runtime_entitlements_args :: "string \<Rightarrow> string \<Rightarrow> string \<Rightarrow> string list" where
  "runtime_entitlements_args identity ent_file code_path =
     [''--force'', ''--sign'', identity, ''--options'', ''runtime'', ''--entitlements'', ent_file, code_path]"

definition runtime_args :: "string \<Rightarrow> string \<Rightarrow> string list" where
  "runtime_args identity code_path = [''--force'', ''--sign'', identity, ''--options'', ''runtime'', code_path]"

definition is_hex_upper :: "char \<Rightarrow> bool" where
  "is_hex_upper c \<longleftrightarrow> is_digit c \<or> (CHR ''A'' \<le> c \<and> c \<le> CHR ''F'')"

text \<open>
  \<open>^\s*\d+\)\s+([0-9A-F]{40})\s+"([^"]+)"\s*$\<close> on one line: every class is disjoint from what
  follows it, so each repetition takes all it can.
\<close>

definition identity_line :: "string \<Rightarrow> (string \<times> string) option" where
  "identity_line line =
     (let a = dropWhile re_space line; b = dropWhile is_digit a;
          c = drop 1 b; d = dropWhile re_space c; hash = take 40 d;
          e = drop 40 d; f = dropWhile re_space e; g = drop 1 f;
          name = takeWhile (\<lambda>x. x \<noteq> CHR 0x22) g; h = drop (length name) g
      in if a \<noteq> b \<and> take 1 b = '')'' \<and> c \<noteq> d \<and> length hash = 40 \<and> list_all is_hex_upper hash \<and>
            e \<noteq> f \<and> take 1 f = [CHR 0x22] \<and> name \<noteq> [] \<and> take 1 h = [CHR 0x22] \<and>
            list_all re_space (drop 1 h)
         then Some (hash, name) else None)"

text \<open>
  \<open>bufio.Scanner\<close>: the lines without their end, a trailing empty one is none, and a line that
  does not fit the 64 KiB buffer ends the scan with an error.
\<close>

definition drop_cr :: "string \<Rightarrow> string" where
  "drop_cr l = (if l \<noteq> [] \<and> last l = CHR 0x0D then butlast l else l)"

definition scan_lines :: "string \<Rightarrow> string list" where
  "scan_lines s = (let ls = split_on (CHR 0x0A) s in if last ls = [] then butlast ls else ls)"

fun find_identity :: "string \<Rightarrow> string list \<Rightarrow> (bool, string) result" where
  "find_identity wanted [] = Inl False"
| "find_identity wanted (l # ls) =
     (if int (length l) \<ge> 65536 then Inl True
      else case identity_line (drop_cr l) of
        Some (hash, name) \<Rightarrow> if name = wanted then Inr hash else find_identity wanted ls
      | None \<Rightarrow> find_identity wanted ls)"

definition resolve_identity :: "'w pw_env \<Rightarrow> bool \<Rightarrow> ('w, string) pw_act" where
  "resolve_identity env dry =
     (if dry then return_act (Inr (pe_identity env))
      else rbind_act (labelled ''security find-identity''
          (exec_output env ''/usr/bin/security'' [''find-identity'', ''-v'', ''-p'', ''codesigning'']))
        (\<lambda>out. return_act (case find_identity (pe_identity env) (scan_lines out) of
            Inr hash \<Rightarrow> Inr hash
          | Inl too_long \<Rightarrow> Inl (Plain (if too_long then ''scan security find-identity output''
              else ''no codesigning identity matches'')))))"

section \<open>Assets and paths\<close>

definition asset_checks :: "development_signing_spec \<Rightarrow> (string \<times> string) list" where
  "asset_checks policy =
     [(''provisioning profile (profile_path)'', ds_profile_path policy),
      (''signing identity p12 (p12_path)'', ds_p12_path policy),
      (''p12 password file (p12_password_file)'', ds_p12_password_file policy)] @
     (if ds_proxy_injection policy \<and> trim_space (ds_injector_path policy) \<noteq> []
      then [(''injector dylib override (injector_dylib_path)'', ds_injector_path policy)] else [])"

fun missing_of :: "(string \<times> string) list \<Rightarrow> 'w pw_sys \<Rightarrow> (string \<times> string) list \<times> 'w pw_sys" where
  "missing_of [] = return_act []"
| "missing_of ((label, path) # rest) =
     (if trim_space path = [] then bind_act (missing_of rest) (\<lambda>ms. return_act ((label, ''(unset)'') # ms))
      else bind_act (stat_path path) (\<lambda>r. bind_act (missing_of rest) (\<lambda>ms.
        return_act (if isl r then (label, path) # ms else ms))))"

definition missing_assets :: "development_signing_spec \<Rightarrow> 'w pw_sys \<Rightarrow> (string \<times> string) list \<times> 'w pw_sys" where
  "missing_assets policy = missing_of (asset_checks policy)"

definition injector_dir :: "'w pw_env \<Rightarrow> target \<Rightarrow> string list" where
  "injector_dir env t = [state_root (pe_genv env), ''dev-signing'', ''injectors'', tg_id t]"

definition injector_path :: "'w pw_env \<Rightarrow> target \<Rightarrow> string" where
  "injector_path env t = go_join (injector_dir env t @ [''c.dylib''])"

definition injector_policy_path :: "'w pw_env \<Rightarrow> target \<Rightarrow> string" where
  "injector_policy_path env t = go_join (injector_dir env t @ [''policy.bin''])"

definition app_local_injector_path :: "target \<Rightarrow> string" where
  "app_local_injector_path t = go_join [macos_dir (tg_app_path t), ''c.dylib'']"

section \<open>The smoke test\<close>

text \<open>
  The environment variables of the smoke runs are arguments of the program run: they stand in
  front of the command as \<open>env\<close> would take them.
\<close>

definition run_smoke_host :: "'w pw_env \<Rightarrow> string \<Rightarrow> string \<Rightarrow> string \<Rightarrow> string list \<Rightarrow> ('w, unit) pw_act" where
  "run_smoke_host env host dylib policy extra =
     bind_act (exec_combined env host (extra @ [''DYLD_INSERT_LIBRARIES='' @ dylib,
         ''DVC_CLYDE_INJECT_POLICY='' @ policy]))
       (\<lambda>(e, _). case e of Some x \<Rightarrow> fail_act (Within ''run injector smoke host'' (CmdFailed host x))
                          | None \<Rightarrow> nil_act)"

definition sentinel_policy :: string where
  "sentinel_policy = policy_record [''set'', ''DVC_INJECT_SMOKE_SET'', ''ok''] @
     policy_record [''unset'', ''DVC_INJECT_SMOKE_REMOVE''] @
     policy_record [''append-argv'', ''--dvc-inject-smoke-arg'']"

definition smoke_steps :: "'w pw_env \<Rightarrow> string \<Rightarrow> string \<Rightarrow> string \<Rightarrow> ('w, unit) pw_act" where
  "smoke_steps env dir dylib policy =
     (let src = go_join [dir, ''host.c'']; host_dir = go_join [dir, ''FakeApp.app'', ''Contents'', ''MacOS''];
          host = go_join [host_dir, ''host'']; sentinel = go_join [dir, ''sentinel-policy.bin''];
          clang = [''clang'', ''-Wall'', ''-Wextra'', ''-Werror'', ''-o'', host, src]
      in in_turn
        [mkdir_path ''create injector smoke host dir'' host_dir,
         write_path env ''write injector smoke host source'' src (pe_smoke_source env),
         bind_act (exec_combined env ''/usr/bin/xcrun'' clang)
           (\<lambda>(e, _). case e of Some x \<Rightarrow> fail_act (Within ''compile injector smoke host'' (CmdFailed ''/usr/bin/xcrun'' x))
                              | None \<Rightarrow> nil_act),
         run_smoke_host env host dylib policy [],
         write_path env ''write injector smoke policy'' sentinel sentinel_policy,
         run_smoke_host env host dylib sentinel
           [''DVC_INJECT_SMOKE_MODE=sentinel'', ''DVC_INJECT_SMOKE_REMOVE=present'']])"

text \<open>\<open>os.MkdirTemp\<close>, and the deferred \<open>os.RemoveAll\<close>.\<close>

definition make_temp_dir :: "'w pw_env \<Rightarrow> string \<Rightarrow> ('w, string) pw_act" where
  "make_temp_dir env what =
     rbind_act (file_call what (mkdir_at (path_components (pe_temp_dir env))))
       (\<lambda>_. return_act (Inr (pe_temp_dir env)))"

definition then_remove :: "string \<Rightarrow> ('w, 'a) pw_act \<Rightarrow> ('w, 'a) pw_act" where
  "then_remove dir a = bind_act a (\<lambda>r. bind_act (on_files (remove_all_at (path_components dir))) (\<lambda>_. return_act r))"

definition smoke_test_injector :: "'w pw_env \<Rightarrow> string \<Rightarrow> string \<Rightarrow> ('w, unit) pw_act" where
  "smoke_test_injector env dylib policy =
     rbind_act (make_temp_dir env ''create injector smoke dir'')
       (\<lambda>dir. then_remove dir (smoke_steps env dir dylib policy))"

section \<open>Installing the injector\<close>

definition write_injector_policy :: "'w pw_env \<Rightarrow> bool \<Rightarrow> target \<Rightarrow> ('w, unit) pw_act" where
  "write_injector_policy env dry t =
     (if dry then nil_act
      else case encode_injector_policy (tg_launch t) of
        Inl _ \<Rightarrow> fail_act (Plain ''injector policy'')
      | Inr data \<Rightarrow> in_turn
          [mkdir_path ''create injector policy dir'' (go_dir (injector_policy_path env t)),
           write_path env ''write injector policy'' (injector_policy_path env t) data])"

definition stage_injector_dylib :: "'w pw_env \<Rightarrow> bool \<Rightarrow> target \<Rightarrow> string \<Rightarrow> ('w, unit) pw_act" where
  "stage_injector_dylib env dry t temp =
     (let override = trim_space (ds_injector_path (tg_devsign t));
          copy = labelled ''stage injector override'' (runner_run env dry ''/bin/cp'' [''-f'', override, temp])
      in if dry then (if override \<noteq> [] then copy else nil_act)
         else rbind_act (mkdir_path ''create injector dir'' (go_dir temp)) (\<lambda>_.
           if override \<noteq> [] then copy
           else if pe_injector env = [] then fail_act (Plain ''embedded injector is empty'')
           else in_turn [write_path env ''write embedded injector'' temp (pe_injector env),
                         file_call ''chmod embedded injector'' (chmod_at (path_components temp))]))"

definition sign_injector :: "'w pw_env \<Rightarrow> bool \<Rightarrow> string \<Rightarrow> ('w, unit) pw_act" where
  "sign_injector env dry dylib =
     rbind_act (labelled ''resolve injector signing identity'' (resolve_identity env dry))
       (\<lambda>identity. labelled ''sign external injector'' (runner_run env dry codesign (runtime_args identity dylib)))"

definition verify_injector :: "'w pw_env \<Rightarrow> bool \<Rightarrow> target \<Rightarrow> string \<Rightarrow> ('w, unit) pw_act" where
  "verify_injector env dry t dylib =
     rbind_act (labelled ''verify external injector signature''
         (runner_run env dry codesign [''--verify'', ''--strict'', ''--verbose=2'', dylib]))
       (\<lambda>_. if dry then nil_act
            else labelled ''smoke-test external injector''
              (smoke_test_injector env dylib (injector_policy_path env t)))"

definition remove_app_local_injector :: "'w pw_env \<Rightarrow> bool \<Rightarrow> target \<Rightarrow> ('w, unit) pw_act" where
  "remove_app_local_injector env dry t =
     labelled ''remove stale app-local injector''
       (runner_run env dry ''/bin/rm'' [''-f'', app_local_injector_path t])"

definition plist_buddy :: "'w pw_env \<Rightarrow> bool \<Rightarrow> target \<Rightarrow> string \<Rightarrow> ('w, unit) pw_act" where
  "plist_buddy env dry t command =
     runner_run env dry ''/usr/libexec/PlistBuddy'' [''-c'', command, info_plist_path (tg_app_path t)]"

definition set_injector_environment :: "'w pw_env \<Rightarrow> bool \<Rightarrow> target \<Rightarrow> ('w, unit) pw_act" where
  "set_injector_environment env dry t = in_turn
     [best_effort (plist_buddy env dry t ''Delete :LSEnvironment''),
      labelled ''add LSEnvironment dict'' (plist_buddy env dry t ''Add :LSEnvironment dict''),
      labelled ''set DYLD_INSERT_LIBRARIES'' (plist_buddy env dry t
        (''Add :LSEnvironment:DYLD_INSERT_LIBRARIES string '' @ injector_path env t)),
      labelled ''set DVC_CLYDE_INJECT_POLICY'' (plist_buddy env dry t
        (''Add :LSEnvironment:DVC_CLYDE_INJECT_POLICY string '' @ injector_policy_path env t))]"

definition install_injector :: "'w pw_env \<Rightarrow> bool \<Rightarrow> target \<Rightarrow> ('w, unit) pw_act" where
  "install_injector env dry t =
     (let dest = injector_path env t; temp = dest @ ''.tmp'' in in_turn
        [write_injector_policy env dry t,
         stage_injector_dylib env dry t temp,
         sign_injector env dry temp,
         verify_injector env dry t temp,
         (if dry then nil_act
          else file_call ''rename injector into place'' (rename_at (path_components temp) (path_components dest))),
         remove_app_local_injector env dry t,
         set_injector_environment env dry t])"

definition apply_proxy_injection :: "'w pw_env \<Rightarrow> bool \<Rightarrow> target \<Rightarrow> ('w, unit) pw_act" where
  "apply_proxy_injection env dry t =
     (if ds_proxy_injection (tg_devsign t) then install_injector env dry t else nil_act)"

section \<open>The development-signing overlay\<close>

text \<open>\<open>renderEntitlements\<close>: the template \<open>dev-entitlements.plist.tmpl\<close>, executed.\<close>

definition quote :: char where "quote = CHR 0x22"
definition newline :: string where "newline = [CHR 0x0A]"

definition true_entry :: "string \<Rightarrow> string" where
  "true_entry key = ''<key>'' @ key @ ''</key><true/>''"

definition render_entitlements :: "string \<Rightarrow> string \<Rightarrow> bool \<Rightarrow> string" where
  "render_entitlements team bundle_id injection =
     concat (map (\<lambda>l. l @ newline)
       ([''<?xml version='' @ [quote] @ ''1.0'' @ [quote] @ '' encoding='' @ [quote] @ ''UTF-8'' @ [quote] @ ''?>'',
         ''<!DOCTYPE plist PUBLIC '' @ [quote] @ ''-//Apple//DTD PLIST 1.0//EN'' @ [quote] @ '' '' @ [quote] @
           ''http://www.apple.com/DTDs/PropertyList-1.0.dtd'' @ [quote] @ ''>'',
         ''<plist version='' @ [quote] @ ''1.0'' @ [quote] @ ''><dict>'',
         ''<key>com.apple.application-identifier</key><string>'' @ team @ ''.'' @ bundle_id @ ''</string>'',
         ''<key>com.apple.developer.team-identifier</key><string>'' @ team @ ''</string>'',
         ''<key>keychain-access-groups</key><array><string>'' @ team @ ''.*</string></array>''] @
        map true_entry [''com.apple.security.cs.allow-jit'', ''com.apple.security.cs.allow-unsigned-executable-memory'',
          ''com.apple.security.cs.disable-library-validation'', ''com.apple.security.automation.apple-events''] @
        (if injection then [true_entry ''com.apple.security.cs.allow-dyld-environment-variables''] else []) @
        [''</dict></plist>'']))"

definition write_development_entitlements :: "'w pw_env \<Rightarrow> bool \<Rightarrow> target \<Rightarrow> string \<Rightarrow> ('w, string) pw_act" where
  "write_development_entitlements env dry t team =
     (let ent_file = go_join [pe_tmp env, ''dvc-devsign-'' @ tg_id t @ ''-ent.plist''] in
      if dry then return_act (Inr ent_file)
      else rbind_act (write_path env ''write development entitlements'' ent_file
             (render_entitlements team (tg_bundle_id t) (ds_proxy_injection (tg_devsign t))))
        (\<lambda>_. return_act (Inr ent_file)))"

record dev_plan =
  dp_rcodesign :: string
  dp_p12_args :: "string list"
  dp_ent_file :: string

definition home_dir :: "go_env \<Rightarrow> string" where
  "home_dir env = (case user_home_dir env of None \<Rightarrow> [] | Some h \<Rightarrow> h)"

definition apply_nested_mutations :: "'w pw_env \<Rightarrow> bool \<Rightarrow> target \<Rightarrow> ('w, dev_plan) pw_act" where
  "apply_nested_mutations env dry t =
     (let policy = tg_devsign t; team = trim_space (pe_team env) in
      if team = [] then fail_act (Plain ''development signing requires a configured signing team_id'')
      else rbind_act (in_turn
          [labelled ''remove *.app.in cruft'' (runner_run env dry ''/usr/bin/find''
             [tg_app_path t, ''-name'', ''*.app.in'', ''-exec'', ''/bin/rm'', ''-rf'', ''{}'', ''+'']),
           labelled ''embed provisioning profile'' (runner_run env dry ''/bin/cp''
             [''-f'', ds_profile_path policy, go_join [tg_app_path t, ''Contents'', ''embedded.provisionprofile'']]),
           if ds_proxy_injection policy then install_injector env dry t else nil_act]) (\<lambda>_.
        rbind_act (write_development_entitlements env dry t team) (\<lambda>ent_file.
          return_act (Inr \<lparr>dp_rcodesign = go_join [home_dir (pe_genv env), ''.cargo/bin/rcodesign''],
            dp_p12_args = [''--p12-file'', ds_p12_path policy, ''--p12-password-file'', ds_p12_password_file policy],
            dp_ent_file = ent_file\<rparr>))))"

definition reseal_args :: "target \<Rightarrow> dev_plan \<Rightarrow> string list" where
  "reseal_args t plan =
     [''sign''] @ dp_p12_args plan @ [''--shallow''] @
     (case ext_computer_use (tg_ext t) of
        Some cu \<Rightarrow> if trim_space (cu_bundled_app_path cu) \<noteq> [] then [''--exclude'', cu_bundled_app_path cu] else []
      | None \<Rightarrow> []) @
     [''--entitlements-xml-file'', dp_ent_file plan, ''--code-signature-flags'', ''runtime'', tg_app_path t]"

definition reseal :: "'w pw_env \<Rightarrow> bool \<Rightarrow> target \<Rightarrow> dev_plan option \<Rightarrow> ('w, unit) pw_act" where
  "reseal env dry t plan = (case plan of
     None \<Rightarrow> fail_act (Plain ''development signing reseal plan is nil'')
   | Some p \<Rightarrow> in_turn
       [labelled ''reseal bundle'' (runner_run env dry (dp_rcodesign p) (reseal_args t p)),
        best_effort (runner_run env dry ''/usr/bin/xattr'' [''-dr'', ''com.apple.quarantine'', tg_app_path t])])"

section \<open>Trust in the proxy's certificate\<close>

record mitm_status =
  mt_required :: bool
  mt_cert_path :: string
  mt_common_name :: string
  mt_fingerprint :: string
  mt_matched :: "string list"
  mt_stale :: "(string \<times> string list) list"

definition requires_trusted_ca :: "target \<Rightarrow> bool" where
  "requires_trusted_ca t \<longleftrightarrow> ds_enabled (tg_devsign t) \<and> ds_proxy_injection (tg_devsign t)"

definition login_keychain_path :: "go_env \<Rightarrow> string" where
  "login_keychain_path env = (case user_home_dir env of None \<Rightarrow> []
     | Some h \<Rightarrow> (let home = trim_space h in
         if home = [] then [] else go_join [home, ''Library/Keychains/login.keychain-db'']))"

definition system_keychain :: string where "system_keychain = ''/Library/Keychains/System.keychain''"

definition trust_keychain_paths :: "go_env \<Rightarrow> string list" where
  "trust_keychain_paths env =
     (let login = login_keychain_path env in
      if login \<noteq> [] \<and> login \<noteq> system_keychain then [system_keychain, login] else [system_keychain])"

definition load_ca_certificate :: "'w pw_env \<Rightarrow> string \<Rightarrow> ('w, string \<times> string) pw_act" where
  "load_ca_certificate env path =
     rbind_act (read_path ''read launch policy CA certificate'' path) (\<lambda>body. return_act
       (case pe_certificate env body of
          Inl e \<Rightarrow> Inl (Plain e)
        | Inr (cn, fp) \<Rightarrow> (let name = trim_space cn in
            if name = [] then Inl (Plain ''empty subject common name'') else Inr (name, fp))))"

definition is_security_not_found :: "string \<Rightarrow> bool" where
  "is_security_not_found output = (let lower = to_lower (trim_space output) in
     contains ''could not be found'' lower \<or> contains ''specified item could not be found'' lower \<or>
     contains ''no matching'' lower)"

definition trust_search_output :: "'w pw_env \<Rightarrow> string \<Rightarrow> string \<Rightarrow> ('w, string) pw_act" where
  "trust_search_output env keychain cn =
     bind_act (exec_combined env ''/usr/bin/security'' [''find-certificate'', ''-c'', cn, ''-Z'', keychain])
       (\<lambda>(e, output). return_act (case e of
          None \<Rightarrow> Inr output
        | Some x \<Rightarrow> if is_security_not_found output then Inr []
                   else Inl (Within ''security find-certificate'' (CmdFailed ''/usr/bin/security'' x))))"

definition hash_label :: string where "hash_label = ''SHA-256 hash:''"

definition fingerprint_line :: "string \<Rightarrow> string list" where
  "fingerprint_line line = (let trimmed = trim_space line in
     if prefix hash_label trimmed
     then (let v = to_lower (filter (\<lambda>c. c \<noteq> CHR '':'') (trim_space (drop (length hash_label) trimmed)))
           in if v \<noteq> [] then [v] else [])
     else [])"

definition parse_fingerprints :: "string \<Rightarrow> string list" where
  "parse_fingerprints output = concat (map fingerprint_line (split_on (CHR 0x0A) output))"

definition keychain_fingerprints :: "'w pw_env \<Rightarrow> string \<Rightarrow> string \<Rightarrow> ('w, string list) pw_act" where
  "keychain_fingerprints env keychain cn =
     rbind_act (trust_search_output env keychain cn)
       (\<lambda>out. return_act (Inr (if out = [] then [] else parse_fingerprints out)))"

text \<open>The loop over the keychains sorts each into matched, stale or neither.\<close>

definition sort_keychain :: "string \<Rightarrow> string list \<Rightarrow> mitm_status \<Rightarrow> mitm_status" where
  "sort_keychain keychain fps st =
     (if fps = [] then st
      else if mt_fingerprint st \<in> set fps then st\<lparr>mt_matched := mt_matched st @ [keychain]\<rparr>
      else st\<lparr>mt_stale := mt_stale st @ [(keychain, fps)]\<rparr>)"

fun sort_keychains :: "'w pw_env \<Rightarrow> string list \<Rightarrow> mitm_status \<Rightarrow> ('w, mitm_status) pw_act" where
  "sort_keychains env [] st = return_act (Inr st)"
| "sort_keychains env (k # ks) st =
     rbind_act (keychain_fingerprints env k (mt_common_name st))
       (\<lambda>fps. sort_keychains env ks (sort_keychain k fps st))"

definition mitm_trust_status :: "'w pw_env \<Rightarrow> target \<Rightarrow> ('w, mitm_status) pw_act" where
  "mitm_trust_status env t =
     (if \<not> requires_trusted_ca t
      then return_act (Inr \<lparr>mt_required = False, mt_cert_path = [], mt_common_name = [],
        mt_fingerprint = [], mt_matched = [], mt_stale = []\<rparr>)
      else let path = trim_space (lp_ca_certificate (tg_launch t)) in
        if path = [] then fail_act (Plain ''launch policy CA certificate is empty'')
        else rbind_act (load_ca_certificate env path) (\<lambda>(cn, fp).
          sort_keychains env (trust_keychain_paths (pe_genv env))
            \<lparr>mt_required = True, mt_cert_path = path, mt_common_name = cn, mt_fingerprint = fp,
             mt_matched = [], mt_stale = []\<rparr>))"

definition mitm_trusted :: "mitm_status \<Rightarrow> bool" where
  "mitm_trusted st \<longleftrightarrow> mt_matched st \<noteq> []"

text \<open>\<open>TrustedMITMCADrift\<close> looks a second time; an empty message means no drift.\<close>

definition drift_message :: "go_env \<Rightarrow> mitm_status \<Rightarrow> string" where
  "drift_message genv st =
     (let ca = ''launch policy CA '' @ mt_cert_path st @ '' ('' @ mt_common_name st @ '') is '';
          want = ''; want sha256 '' @ mt_fingerprint st in
      if mt_stale st \<noteq> []
      then ca @ ''trusted with a stale fingerprint in '' @ join '' or '' (map fst (mt_stale st)) @ want
      else ca @ ''not trusted in '' @ join '' or '' (trust_keychain_paths genv) @ want)"

fun error_text :: "patch_error \<Rightarrow> string" where
  "error_text (Plain m) = m"
| "error_text (Within m e) = m @ '': '' @ error_text e"
| "error_text (OsFailed m _) = m @ '': ...''"
| "error_text (CmdFailed m _) = m @ '': ...''"
| "error_text _ = ''...''"

definition trusted_ca_drift :: "'w pw_env \<Rightarrow> target \<Rightarrow> 'w pw_sys \<Rightarrow> string \<times> 'w pw_sys" where
  "trusted_ca_drift env t = bind_act (mitm_trust_status env t) (\<lambda>r. return_act (case r of
     Inl e \<Rightarrow> error_text e
   | Inr st \<Rightarrow> if \<not> mt_required st \<or> mitm_trusted st then [] else drift_message (pe_genv env) st))"

definition ensure_trusted_ca :: "'w pw_env \<Rightarrow> target \<Rightarrow> ('w, unit) pw_act" where
  "ensure_trusted_ca env t =
     rbind_act (mitm_trust_status env t) (\<lambda>st.
       if \<not> mt_required st \<or> mitm_trusted st then nil_act
       else bind_act (trusted_ca_drift env t) (\<lambda>drift.
         if drift = [] then nil_act else fail_act (Within drift (Plain ''CA is not trusted''))))"

section \<open>The preflight warning\<close>

definition preflight_warn :: "'w pw_env \<Rightarrow> bool \<Rightarrow> target \<Rightarrow> 'w pw_sys \<Rightarrow> unit \<times> 'w pw_sys" where
  "preflight_warn env dry t =
     (let policy = tg_devsign t in
      if \<not> ds_enabled policy then return_act ()
      else bind_act (missing_assets policy) (\<lambda>missing.
        if missing = [] then return_act ()
        else bind_act (on_world (pe_discover env)) (\<lambda>found.
          if found \<and> ds_auto_generate policy \<and> \<not> dry
          then on_world (\<lambda>w. ((), pe_generate env w)) else return_act ())))"

end
