(* ===== verification/Nested_Signing.thy ===== *)
theory Nested_Signing
  imports Bundle_Identity Dev_Sign
begin

text \<open>
  Which code objects of a bundle are signed, in which order and with which entitlements:
  \<open>internal/patch/macho.go\<close>, \<open>internal/patch/nested_signing.go\<close>, \<open>nestedCodeSignPaths\<close> and
  \<open>stepResign\<close> of \<open>internal/patch/patch.go\<close>, and the entitlement files of
  \<open>internal/patch/entitlements.go\<close>.
\<close>

section \<open>Mach-O discovery\<close>

definition byte_list :: "nat list \<Rightarrow> string" where
  "byte_list ns = map char_of ns"

definition macho_magics :: "string list" where
  "macho_magics = map byte_list
     [[0xfe, 0xed, 0xfa, 0xce], [0xce, 0xfa, 0xed, 0xfe], [0xfe, 0xed, 0xfa, 0xcf], [0xcf, 0xfa, 0xed, 0xfe],
      [0xca, 0xfe, 0xba, 0xbe], [0xbe, 0xba, 0xfe, 0xca], [0xca, 0xfe, 0xba, 0xbf], [0xbf, 0xba, 0xfe, 0xca]]"

definition is_macho_file :: "string \<Rightarrow> ('w, bool) pw_act" where
  "is_macho_file path =
     rbind_act (read_path ''open possible Mach-O file'' path)
       (\<lambda>data. return_act (Inr (take 4 data \<in> set macho_magics)))"

text \<open>\<open>skipMachODir\<close>: enter, skip, or fail when the path cannot be made relative.\<close>

definition enter_macho_dir :: "string \<Rightarrow> string list \<Rightarrow> string \<Rightarrow> bool option" where
  "enter_macho_dir base_dir preserved path =
     (if path = base_dir then Some True
      else if go_ext (go_base path) = ''.dSYM'' then Some False
      else map_option (\<lambda>rel. \<not> is_preserved rel preserved) (rel_path base_dir path))"

definition contains_clean_path :: "string list \<Rightarrow> string \<Rightarrow> bool" where
  "contains_clean_path vs needle \<longleftrightarrow> list_ex (\<lambda>v. go_clean v = needle) vs"

definition macho_sign_path :: "string \<Rightarrow> string list \<Rightarrow> string list \<Rightarrow> string \<Rightarrow> bool \<Rightarrow> string list \<Rightarrow>
    ('w, string list) pw_act" where
  "macho_sign_path base_dir excluded preserved path regular acc =
     (let p = go_clean path in
      if \<not> regular \<or> contains_clean_path excluded p then return_act (Inr acc)
      else case rel_path base_dir p of
        None \<Rightarrow> fail_act (Plain ''relativize'')
      | Some rel \<Rightarrow>
          if is_preserved rel preserved then return_act (Inr acc)
          else rbind_act (is_macho_file p) (\<lambda>m. return_act (Inr (if m then acc @ [p] else acc))))"

definition discover_macho_paths :: "'w pw_env \<Rightarrow> target \<Rightarrow> ('w, string list) pw_act" where
  "discover_macho_paths env t =
     (let base_dir = go_clean (tg_app_path t);
          excluded = [go_clean (main_binary_path (tg_app_path t) (tg_exec_name t)),
                      go_clean (real_binary_path (tg_app_path t) (tg_exec_name t))] in
      bind_act (stat_path base_dir) (\<lambda>r. case r of
        Inl e \<Rightarrow> if e = ENOENT then return_act (Inr []) else fail_act (OsFailed ''stat Mach-O code root'' e)
      | Inr False \<Rightarrow> fail_act (Plain ''Mach-O code root is not a directory'')
      | Inr True \<Rightarrow> bind_act (listing env base_dir) (\<lambda>nodes.
          rbind_act (labelled ''walk Mach-O code objects''
              (collect_visits (macho_sign_path base_dir excluded (tg_preserved t))
                (visits (enter_macho_dir base_dir (tg_preserved t)) base_dir nodes) []))
            (\<lambda>ps. return_act (Inr (sort ps))))))"

section \<open>The paths to sign\<close>

definition slash_count :: "string \<Rightarrow> nat" where
  "slash_count p = count_list p slash"

text \<open>The \<open>seen\<close> loop: the first path of every object, the object being what the links lead to.\<close>

fun unseen :: "(string \<Rightarrow> string) \<Rightarrow> string list \<Rightarrow> string list \<Rightarrow> string list" where
  "unseen key seen [] = []"
| "unseen key seen (p # ps) =
     (if key p \<in> set seen then unseen key seen ps else p # unseen key (key p # seen) ps)"

definition dedupe_code_paths :: "(string \<Rightarrow> string option) \<Rightarrow> string list \<Rightarrow> string list" where
  "dedupe_code_paths eval_links items =
     sort_key (\<lambda>p. (- int (slash_count p), p))
       (unseen (\<lambda>p. case eval_links p of None \<Rightarrow> p | Some q \<Rightarrow> go_clean q) [] (map go_clean items))"

definition nested_code_sign_paths :: "'w pw_env \<Rightarrow> target \<Rightarrow> ('w, string list) pw_act" where
  "nested_code_sign_paths env t =
     rbind_act (labelled ''scan runtime bundle identities'' (scan_bundles env False (tg_app_path t))) (\<lambda>entries.
     rbind_act (discover_macho_paths env t) (\<lambda>machos.
     bind_act (on_files (\<lambda>w. (os_fs w, w))) (\<lambda>fs. return_act (Inr (dedupe_code_paths (\<lambda>p. pe_eval_links env p fs)
       (map (\<lambda>rel. go_join [tg_app_path t, rel]) (tg_nested t) @
        map be_root (runtime_nested_entries entries (tg_app_path t) (tg_preserved t)) @ machos))))))"

section \<open>Entitlement files\<close>

definition empty_entitlements :: string where
  "empty_entitlements = ''<?xml version='' @ [quote] @ ''1.0'' @ [quote] @ '' encoding='' @ [quote] @
     ''UTF-8'' @ [quote] @ ''?><plist version='' @ [quote] @ ''1.0'' @ [quote] @ ''><dict></dict></plist>''"

text \<open>
  The label is walked rune by rune: a continuation byte belongs to the rune before it, every
  other byte is a rune of its own. The two dashes that end the name are trimmed.
\<close>

definition is_label_char :: "char \<Rightarrow> bool" where
  "is_label_char c \<longleftrightarrow> is_digit c \<or> c = CHR ''-'' \<or> c = CHR ''_'' \<or>
     (CHR ''a'' \<le> c \<and> c \<le> CHR ''z'') \<or> (CHR ''A'' \<le> c \<and> c \<le> CHR ''Z'')"

definition safe_temp_label :: "string \<Rightarrow> string" where
  "safe_temp_label label =
     trim_chars {CHR ''-''} (map (\<lambda>c. if is_label_char c then c else CHR ''-'')
       (filter (\<lambda>c. \<not> ((128 :: nat) \<le> of_char c \<and> of_char c < (192 :: nat))) label))"

definition temp_entitlements_path :: "'w pw_env \<Rightarrow> string \<Rightarrow> string" where
  "temp_entitlements_path env label =
     go_join [pe_tmp env, ''dvc-'' @ safe_temp_label label @ ''-ent.'' @ nat_str (pe_nano env) @ ''.plist'']"

definition entitlements_text :: "bool \<Rightarrow> (patch_error, string) result \<Rightarrow> (patch_error, string) result" where
  "entitlements_text allow_empty r =
     (case r of
        Inl e \<Rightarrow> if allow_empty then Inr empty_entitlements else Inl (Within ''codesign -d --entitlements failed'' e)
      | Inr out \<Rightarrow> if out \<noteq> [] then Inr out
                  else if allow_empty then Inr empty_entitlements
                  else Inl (Plain ''codesign produced empty entitlements blob''))"

definition read_entitlements_args :: "string \<Rightarrow> string list" where
  "read_entitlements_args path = [''-d'', ''--entitlements'', ''-'', ''--xml'', path]"

definition write_augmented_entitlements ::
  "'w pw_env \<Rightarrow> bool \<Rightarrow> bool \<Rightarrow> string \<Rightarrow> string \<Rightarrow> entitlements_spec \<Rightarrow> ('w, string) pw_act" where
  "write_augmented_entitlements env dry allow_empty label src policy =
     (let dest = temp_entitlements_path env label in
      if dry then return_act (Inr dest)
      else bind_act (exec_output env codesign (read_entitlements_args src)) (\<lambda>r.
        case entitlements_text allow_empty r of
          Inl e \<Rightarrow> fail_act e
        | Inr out \<Rightarrow> (case augment_entitlements (pe_team env) policy out of
            Inl e \<Rightarrow> fail_act (Within ''augment entitlements'' (EntFailed e))
          | Inr text \<Rightarrow> rbind_act (write_path env ''write augmented entitlements'' dest text)
              (\<lambda>_. return_act (Inr dest)))))"

section \<open>Signing\<close>

definition nested_needs_propagation :: "target \<Rightarrow> bool" where
  "nested_needs_propagation t \<longleftrightarrow>
     ent_required (tg_entitlements t) \<noteq> [] \<and> ds_proxy_injection (tg_devsign t)"

definition nested_entitlements_policy :: "target \<Rightarrow> entitlements_spec" where
  "nested_entitlements_policy t = \<lparr>ent_strip = [], ent_required = ent_required (tg_entitlements t)\<rparr>"

definition nested_code_sign_args :: "string \<Rightarrow> string \<Rightarrow> string \<Rightarrow> string list" where
  "nested_code_sign_args identity ent_file code_path =
     (if go_ext (go_clean code_path) = ''.app'' \<and> ent_file \<noteq> []
      then runtime_entitlements_args identity ent_file code_path
      else [''--force'', ''--sign'', identity, ''--options'', ''runtime'',
            ''--preserve-metadata=entitlements'', code_path])"

definition resolve_nested_args ::
  "'w pw_env \<Rightarrow> bool \<Rightarrow> target \<Rightarrow> string \<Rightarrow> string \<Rightarrow> string \<Rightarrow> ('w, string list \<times> string) pw_act" where
  "resolve_nested_args env dry t identity ent_file code_path =
     (if \<not> nested_needs_propagation t
      then return_act (Inr (nested_code_sign_args identity ent_file code_path, []))
      else rbind_act (labelled ''nested entitlements'' (write_augmented_entitlements env dry True
               (''target='' @ tg_id t @ '' nested '' @ go_base code_path) code_path (nested_entitlements_policy t)))
        (\<lambda>f. return_act (Inr (runtime_entitlements_args identity f code_path, f))))"

definition sign_one_nested ::
  "'w pw_env \<Rightarrow> bool \<Rightarrow> target \<Rightarrow> string \<Rightarrow> string \<Rightarrow> string \<Rightarrow> ('w, unit) pw_act" where
  "sign_one_nested env dry t identity ent_file code_path =
     tracing (TraceAction ''sign_nested_code'' (tg_id t) code_path)
       (rbind_act (resolve_nested_args env dry t identity ent_file code_path) (\<lambda>(args, nested_file).
          bind_act (runner_run env dry codesign args) (\<lambda>r.
          bind_act (if nested_file \<noteq> [] \<and> \<not> dry
                    then best_effort (file_call ''cleanup'' (remove_at (path_components nested_file))) else nil_act)
            (\<lambda>_. return_act (case r of Inl e \<Rightarrow> Inl (Within ''sign nested code object'' e) | Inr u \<Rightarrow> Inr u)))))"

text \<open>In a real run a missing object is skipped, and a path that cannot be looked at is an error.\<close>

definition resign_nested_path ::
  "'w pw_env \<Rightarrow> bool \<Rightarrow> target \<Rightarrow> string \<Rightarrow> string \<Rightarrow> string \<Rightarrow> ('w, unit) pw_act" where
  "resign_nested_path env dry t identity ent_file code_path =
     rbind_act (if dry then return_act (Inr True) else exists_path ''stat nested code object'' code_path)
       (\<lambda>there. if there then sign_one_nested env dry t identity ent_file code_path else nil_act)"

definition step_resign_nested :: "'w pw_env \<Rightarrow> bool \<Rightarrow> target \<Rightarrow> string \<Rightarrow> string \<Rightarrow> ('w, unit) pw_act" where
  "step_resign_nested env dry t identity ent_file =
     rbind_act (nested_code_sign_paths env t)
       (\<lambda>ps. each_act (resign_nested_path env dry t identity ent_file) ps)"

definition resign_outer :: "'w pw_env \<Rightarrow> bool \<Rightarrow> string \<Rightarrow> string \<Rightarrow> string \<Rightarrow> string \<Rightarrow> ('w, unit) pw_act" where
  "resign_outer env dry what identity ent_file path =
     labelled what (runner_run env dry codesign (runtime_entitlements_args identity ent_file path))"

definition step_resign :: "'w pw_env \<Rightarrow> bool \<Rightarrow> target \<Rightarrow> string \<Rightarrow> ('w, unit) pw_act" where
  "step_resign env dry t ent_file =
     rbind_act (labelled ''resolve signing identity'' (resolve_identity env dry)) (\<lambda>identity.
       tracing (TraceAction ''sign_bundle'' (tg_id t) (tg_app_path t)) (in_turn
         [step_resign_nested env dry t identity ent_file,
          resign_outer env dry ''sign .real'' identity ent_file (real_binary_path (tg_app_path t) (tg_exec_name t)),
          resign_outer env dry ''sign shim'' identity ent_file (main_binary_path (tg_app_path t) (tg_exec_name t)),
          resign_outer env dry ''seal outer bundle'' identity ent_file (tg_app_path t)]))"

end
