(* ===== verification/Keychain_Access.thy ===== *)
theory Keychain_Access
  imports Patch_World
begin

text \<open>
  \<open>internal/patch/keychain.go\<close>: the keychain items of an app, read before the bundle changes
  and stored again with the patched app among the trusted applications.
\<close>

record keychain_item =
  ki_service :: string
  ki_account :: string
  ki_value :: string

definition security_tool :: string where "security_tool = ''/usr/bin/security''"

definition run_security :: "'w pw_env \<Rightarrow> string list \<Rightarrow> ('w, string) pw_act" where
  "run_security env args =
     bind_act (exec_combined env security_tool args) (\<lambda>(e, out). return_act
       (case e of None \<Rightarrow> Inr out | Some x \<Rightarrow> Inl (CmdFailed security_tool x)))"

definition acct_label :: string where
  "acct_label = [CHR 0x22] @ ''acct'' @ [CHR 0x22]"

definition account_line :: "string \<Rightarrow> string option" where
  "account_line line = (let trimmed = trim_space line in
     if \<not> prefix acct_label trimmed then None
     else map_option (\<lambda>(_, v). trim_suffix [CHR 0x22] (trim_prefix [CHR 0x22] (trim_space v)))
            (cut (CHR ''='') trimmed))"

fun first_account :: "string list \<Rightarrow> string" where
  "first_account [] = []"
| "first_account (l # ls) = (case account_line l of Some v \<Rightarrow> v | None \<Rightarrow> first_account ls)"

definition parse_account_from_attrs :: "string \<Rightarrow> string" where
  "parse_account_from_attrs out = first_account (split_on (CHR 0x0A) out)"

definition trim_newlines :: "string \<Rightarrow> string" where   \<comment> \<open>\<open>bytes.TrimRight(pw, "\n")\<close>\<close>
  "trim_newlines s = rev (dropWhile (\<lambda>c. c = CHR 0x0A) (rev s))"

definition find_item_args :: "string \<Rightarrow> string list" where
  "find_item_args svc = [''find-generic-password'', ''-s'', svc]"

definition account_of :: "string \<Rightarrow> string \<Rightarrow> string" where
  "account_of svc attrs = (let a = parse_account_from_attrs attrs in if a = [] then svc else a)"

fun capture_items :: "'w pw_env \<Rightarrow> string list \<Rightarrow> ('w, keychain_item list) pw_act" where
  "capture_items env [] = return_act (Inr [])"
| "capture_items env (svc # svcs) =
     bind_act (run_security env (find_item_args svc)) (\<lambda>r. case r of
       Inl _ \<Rightarrow> capture_items env svcs
     | Inr attrs \<Rightarrow> (let account = account_of svc attrs in
         rbind_act (labelled ''read password'' (run_security env (find_item_args svc @ [''-a'', account, ''-w''])))
           (\<lambda>pw. rbind_act (capture_items env svcs) (\<lambda>items. return_act
              (Inr (\<lparr>ki_service = svc, ki_account = account, ki_value = trim_newlines pw\<rparr> # items))))))"

definition delete_item_args :: "keychain_item \<Rightarrow> string list" where
  "delete_item_args i = [''delete-generic-password'', ''-s'', ki_service i, ''-a'', ki_account i]"

definition add_item_args :: "string \<Rightarrow> keychain_item \<Rightarrow> string list" where
  "add_item_args app i = [''add-generic-password'', ''-s'', ki_service i, ''-a'', ki_account i,
     ''-w'', ki_value i, ''-T'', app, ''-A'']"

text \<open>Both calls are made for every item; the errors are joined.\<close>

definition errors_of :: "string \<Rightarrow> (patch_error, 'a) result \<Rightarrow> patch_error list" where
  "errors_of what r = (case r of Inl e \<Rightarrow> [Within what e] | Inr _ \<Rightarrow> [])"

fun regrant_items :: "'w pw_env \<Rightarrow> string \<Rightarrow> keychain_item list \<Rightarrow> 'w pw_sys \<Rightarrow> patch_error list \<times> 'w pw_sys" where
  "regrant_items env app [] = return_act []"
| "regrant_items env app (i # is) =
     bind_act (run_security env (delete_item_args i)) (\<lambda>d.
     bind_act (run_security env (add_item_args app i)) (\<lambda>a.
     bind_act (regrant_items env app is) (\<lambda>es.
       return_act (errors_of ''delete'' d @ errors_of ''add'' a @ es))))"

definition restore_keychain_access ::
  "'w pw_env \<Rightarrow> patch_options \<Rightarrow> target \<Rightarrow> keychain_item list \<Rightarrow> 'w pw_sys \<Rightarrow> unit \<times> 'w pw_sys" where
  "restore_keychain_access env opts t captured =
     (if \<not> po_migrate opts \<or> po_dry_run opts \<or> captured = [] then return_act ()
      else bind_act (regrant_items env (tg_app_path t) captured) (\<lambda>_. return_act ()))"

text \<open>\<open>KeychainMigrate\<close>\<close>

definition keychain_migrate :: "'w pw_env \<Rightarrow> patch_options \<Rightarrow> target \<Rightarrow> ('w, unit) pw_act" where
  "keychain_migrate env opts t =
     (if po_dry_run opts then nil_act
      else rbind_act (labelled ''keychain capture'' (capture_items env (tg_keychain t))) (\<lambda>items.
        if items = [] then nil_act
        else bind_act (regrant_items env (tg_app_path t) items) (\<lambda>es.
          case es of [] \<Rightarrow> nil_act | e # _ \<Rightarrow> fail_act (Within ''restore keychain access'' e))))"

end
