(* ===== verification/Patch_Flow.thy ===== *)
theory Patch_Flow
  imports Nested_Signing Keychain_Access Bundle_Mutate
begin

text \<open>
  The patch of one app: \<open>internal/patch/patch.go\<close>, \<open>patch_staged.go\<close>, \<open>signing_pipeline.go\<close>,
  \<open>devsign_verify.go\<close>, and the hooks of \<open>hooks.go\<close> run by it. \<open>dry\<close> is the dry-run flag the
  runner was made with.
\<close>

abbreviation main_binary :: "target \<Rightarrow> string" where
  "main_binary t \<equiv> main_binary_path (tg_app_path t) (tg_exec_name t)"
abbreviation real_binary :: "target \<Rightarrow> string" where
  "real_binary t \<equiv> real_binary_path (tg_app_path t) (tg_exec_name t)"

section \<open>Reading the bundle\<close>

definition load_info_plist :: "'w pw_env \<Rightarrow> bool \<Rightarrow> target \<Rightarrow> ('w, plist_info) pw_act" where
  "load_info_plist env dry t =
     (let p = info_plist_path (tg_app_path t) in
      bind_act (stat_path p) (\<lambda>r. case r of
        Inl e \<Rightarrow> if dry then return_act (Inr \<lparr>pi_executable = tg_exec_name t,
                   pi_version = ''0.0.0-dry-run'', pi_identifier = tg_bundle_id t\<rparr>)
                 else fail_act (OsFailed ''info plist not found'' e)
      | Inr _ \<Rightarrow> rbind_act (read_path ''read'' p) (\<lambda>data. return_act (case pe_plist env data of
          Inl e \<Rightarrow> Inl (Within ''parse'' (Plain e))
        | Inr info \<Rightarrow> if pi_version info = [] then Inl (Plain ''missing CFBundleVersion'') else Inr info))))"

definition designated_prefix :: string where "designated_prefix = ''designated => ''"

fun designated_line :: "string list \<Rightarrow> string option" where
  "designated_line [] = None"
| "designated_line (l # ls) = (let line = trim_space l in
     if prefix designated_prefix line then Some (trim_space (drop (length designated_prefix) line))
     else designated_line ls)"

definition parse_designated :: "string \<Rightarrow> (patch_error, string) result" where
  "parse_designated out = (let text = trim_space out in
     if text = [] then Inl (Plain ''codesign produced empty DR blob'')
     else case designated_line (split_on (CHR 0x0A) text) of
       Some dr \<Rightarrow> Inr dr | None \<Rightarrow> Inl (Plain ''no designated => line in codesign output''))"

definition requirement_args :: "string \<Rightarrow> string list" where
  "requirement_args p = [''--display'', ''--requirements'', ''-'', p]"

definition designated_requirement :: "'w pw_env \<Rightarrow> string \<Rightarrow> ('w, string) pw_act" where
  "designated_requirement env p =
     rbind_act (labelled ''codesign --display --requirements -'' (exec_output env codesign (requirement_args p)))
       (\<lambda>out. return_act (parse_designated out))"

definition identifies_local_team :: "'w pw_env \<Rightarrow> string \<Rightarrow> bool" where
  "identifies_local_team env dr \<longleftrightarrow> trim_space (pe_team env) \<noteq> [] \<and> contains (trim_space (pe_team env)) dr"

definition real_binary_exists :: "target \<Rightarrow> ('w, bool) pw_act" where
  "real_binary_exists t = exists_path ''stat real binary'' (real_binary t)"

text \<open>The state file, as \<open>State_Store\<close> models it.\<close>

definition state_path :: "'w pw_env \<Rightarrow> fpath" where
  "state_path env = path_components (state_file (pe_genv env))"

definition recorded_requirement :: "'w pw_env \<Rightarrow> multi_state \<Rightarrow> string \<Rightarrow> string option" where
  "recorded_requirement env ms tid = (case map_of ms tid of
     None \<Rightarrow> None
   | Some entry \<Rightarrow> (let r = trim_space (pt_requirement entry) in
       if r \<noteq> [] \<and> \<not> identifies_local_team env r then Some r else None))"

definition capture_requirement :: "'w pw_env \<Rightarrow> string \<Rightarrow> ('w, string) pw_act" where
  "capture_requirement env src =
     bind_act (designated_requirement env src) (\<lambda>r. return_act (Inr (case r of
       Inl _ \<Rightarrow> [] | Inr dr \<Rightarrow> if identifies_local_team env dr then [] else dr)))"

definition resolve_original_dr :: "'w pw_env \<Rightarrow> bool \<Rightarrow> target \<Rightarrow> ('w, string) pw_act" where
  "resolve_original_dr env dry t =
     bind_act (on_files (load_unlocked (pe_codec env) (state_path env))) (\<lambda>l. case l of
       Inl _ \<Rightarrow> fail_act (Plain ''load state.json'')
     | Inr ms \<Rightarrow> (case recorded_requirement env ms (tg_id t) of
         Some r \<Rightarrow> return_act (Inr r)
       | None \<Rightarrow> rbind_act (real_binary_exists t) (\<lambda>real.
           let src = (if real then real_binary t else main_binary t) in
           if dry
           then rbind_act (exists_path ''stat upstream executable'' src)
                  (\<lambda>there. if there then capture_requirement env src else return_act (Inr []))
           else capture_requirement env src)))"

section \<open>Steps of the standard strategy\<close>

definition step_extract_entitlements :: "'w pw_env \<Rightarrow> bool \<Rightarrow> target \<Rightarrow> ('w, string) pw_act" where
  "step_extract_entitlements env dry t =
     bind_act (stat_path (real_binary t)) (\<lambda>r.
       write_augmented_entitlements env dry False (''target='' @ tg_id t @ '' entitlements'')
         (if isl r then main_binary t else real_binary t) (tg_entitlements t))"

definition step_move_to_real :: "bool \<Rightarrow> target \<Rightarrow> ('w, unit) pw_act" where
  "step_move_to_real dry t =
     (if dry then nil_act
      else bind_act (stat_path (real_binary t)) (\<lambda>r. case r of
        Inr _ \<Rightarrow> nil_act
      | Inl _ \<Rightarrow> file_call ''rename'' (rename_at (path_components (main_binary t)) (path_components (real_binary t)))))"

definition step_embed_profile :: "'w pw_env \<Rightarrow> bool \<Rightarrow> target \<Rightarrow> ('w, unit) pw_act" where
  "step_embed_profile env dry t =
     (let dest = go_join [tg_app_path t, ''Contents'', ''embedded.provisionprofile''] in
      if tg_profile t = [] then labelled ''remove stale provisioning profile'' (runner_run env dry ''/bin/rm'' [''-f'', dest])
      else labelled ''copy provisioning profile''
             (runner_run env dry ''/bin/cp'' [''-f'', go_clean (tg_profile t), dest]))"

text \<open>
  The pre-launch hooks get the target by pointer: what they make of it is what the next steps
  work on, also when a hook fails.
\<close>

definition pre_launch_hook :: "'w pw_env \<Rightarrow> patch_options \<Rightarrow> string \<Rightarrow> target \<Rightarrow> ('w, target) pw_act" where
  "pre_launch_hook env opts capability t =
     on_world (\<lambda>w. let (e, (t', w')) = run_hook (map (\<lambda>(n, h). (n, h opts)) (pe_pre_launch env)) capability (t, w)
                   in (case e of Some x \<Rightarrow> Inl (HookFailed x) | None \<Rightarrow> Inr t', w'))"

fun pre_launch_hooks :: "'w pw_env \<Rightarrow> patch_options \<Rightarrow> string list \<Rightarrow> target \<Rightarrow> ('w, target) pw_act" where
  "pre_launch_hooks env opts [] t = return_act (Inr t)"
| "pre_launch_hooks env opts (c # cs) t =
     rbind_act (labelled ''run pre-launch-policy hook'' (pre_launch_hook env opts c t)) (pre_launch_hooks env opts cs)"

definition step_pre_launch_policy :: "'w pw_env \<Rightarrow> patch_options \<Rightarrow> target \<Rightarrow> ('w, target) pw_act" where
  "step_pre_launch_policy env opts t =
     pre_launch_hooks env opts (pre_launch_policy_hook_capabilities (tg_ext t)) t"

definition step_install_shim :: "'w pw_env \<Rightarrow> bool \<Rightarrow> target \<Rightarrow> ('w, unit) pw_act" where
  "step_install_shim env dry t =
     (let policy_path = launch_policy_path (tg_app_path t) (tg_exec_name t) in
      if dry then nil_act
      else if pe_shim env = [] then fail_act (Plain ''embedded shim is empty'')
      else rbind_act (in_turn
          [write_path env ''write shim'' (main_binary t) (pe_shim env),
           file_call ''chmod shim'' (chmod_at (path_components (main_binary t)))]) (\<lambda>_.
        case pe_policy_json env (tg_launch t) of
          Inl e \<Rightarrow> fail_act (Within ''encode launch policy'' (Plain e))
        | Inr text \<Rightarrow> in_turn
            [mkdir_path ''create launch policy dir'' (go_dir policy_path),
             write_path env ''write launch policy'' policy_path text]))"

definition maybe_apply_proxy_injection :: "'w pw_env \<Rightarrow> bool \<Rightarrow> target \<Rightarrow> ('w, unit) pw_act" where
  "maybe_apply_proxy_injection env dry t =
     (if \<not> ds_proxy_injection (tg_devsign t) \<or> ds_enabled (tg_devsign t) then nil_act
      else labelled ''install proxy injector'' (apply_proxy_injection env dry t))"

section \<open>Preserved nested code\<close>

definition copy_tree :: "'w pw_env \<Rightarrow> bool \<Rightarrow> string \<Rightarrow> string \<Rightarrow> ('w, unit) pw_act" where
  "copy_tree env dry src dest = runner_run env dry ''/usr/bin/rsync'' [''-a'', src @ ''/'', dest @ ''/'']"

definition copy_file :: "'w pw_env \<Rightarrow> bool \<Rightarrow> string \<Rightarrow> string \<Rightarrow> ('w, unit) pw_act" where
  "copy_file env dry src dest = runner_run env dry ''/bin/cp'' [''-p'', src, dest]"

definition is_directory :: "string \<Rightarrow> string \<Rightarrow> ('w, bool) pw_act" where
  "is_directory what p = bind_act (stat_path p) (\<lambda>r. return_act (case r of Inl e \<Rightarrow> Inl (OsFailed what e) | Inr d \<Rightarrow> Inr d))"

definition stage_preserved_path :: "'w pw_env \<Rightarrow> bool \<Rightarrow> target \<Rightarrow> string \<Rightarrow> string \<Rightarrow> ('w, unit) pw_act" where
  "stage_preserved_path env dry t stage rel =
     (let src = go_join [tg_app_path t, rel]; dest = go_join [stage, rel] in
      if dry then labelled ''stage preserved nested code file'' (copy_file env dry src dest)
      else rbind_act (is_directory ''stat preserved nested code source'' src) (\<lambda>dir.
           rbind_act (mkdir_path ''create preserved nested code staging parent'' (go_dir dest)) (\<lambda>_.
             labelled ''stage preserved nested code''
               (if dir then copy_tree env dry src dest else copy_file env dry src dest))))"

text \<open>The staging directory, and whether there is one to remove when the caller returns.\<close>

definition stage_preserved :: "'w pw_env \<Rightarrow> bool \<Rightarrow> target \<Rightarrow> ('w, string \<times> bool) pw_act" where
  "stage_preserved env dry t =
     (if tg_preserved t = [] then return_act (Inr ([], False))
      else if dry then (let stage = go_join [pe_tmp env, ''desktop-via-clyde-preserved-code'', tg_id t] in
        rbind_act (each_act (stage_preserved_path env dry t stage) (tg_preserved t))
          (\<lambda>_. return_act (Inr (stage, False))))
      else rbind_act (make_temp_dir env ''create preserved nested code temp dir'') (\<lambda>stage.
        bind_act (each_act (stage_preserved_path env dry t stage) (tg_preserved t)) (\<lambda>r. case r of
          Inl e \<Rightarrow> then_remove stage (fail_act e)
        | Inr _ \<Rightarrow> return_act (Inr (stage, True)))))"

definition restore_preserved_path :: "'w pw_env \<Rightarrow> bool \<Rightarrow> target \<Rightarrow> string \<Rightarrow> string \<Rightarrow> ('w, unit) pw_act" where
  "restore_preserved_path env dry t stage rel =
     (let src = go_join [stage, rel]; dest = go_join [tg_app_path t, rel] in
      tracing (TraceAction ''restore_preserved_nested_code'' (tg_id t) dest)
       (if dry then nil_act
        else rbind_act (is_directory ''stat preserved nested code source'' src) (\<lambda>dir.
          if dir then in_turn
            [file_call ''remove preserved nested code destination'' (remove_all_at (path_components dest)),
             labelled ''restore preserved nested code directory'' (copy_tree env dry src dest)]
          else in_turn
            [mkdir_path ''create preserved nested code parent'' (go_dir dest),
             labelled ''restore preserved nested code file'' (copy_file env dry src dest)])))"

definition step_restore_preserved :: "'w pw_env \<Rightarrow> bool \<Rightarrow> target \<Rightarrow> string \<Rightarrow> ('w, unit) pw_act" where
  "step_restore_preserved env dry t stage = each_act (restore_preserved_path env dry t stage) (tg_preserved t)"

section \<open>Signing plans\<close>

datatype plan_kind = Standard | Development

record signing_plan =
  sp_kind :: plan_kind
  sp_dev :: "dev_plan option"
  sp_entitlements :: string

fun kind_name :: "plan_kind \<Rightarrow> string" where
  "kind_name Standard = ''standard''"
| "kind_name Development = ''development''"

definition seal_before_finalize :: "signing_plan \<Rightarrow> bool" where
  "seal_before_finalize plan \<longleftrightarrow> sp_kind plan = Standard"

definition fresh_plan :: "plan_kind \<Rightarrow> signing_plan" where
  "fresh_plan k = \<lparr>sp_kind = k, sp_dev = None, sp_entitlements = []\<rparr>"

definition select_plan :: "target \<Rightarrow> 'w pw_sys \<Rightarrow> signing_plan \<times> 'w pw_sys" where
  "select_plan t =
     (if \<not> ds_enabled (tg_devsign t) then return_act (fresh_plan Standard)
      else bind_act (missing_assets (tg_devsign t)) (\<lambda>missing.
        return_act (fresh_plan (if missing = [] then Development else Standard))))"

definition note_fallback :: "target \<Rightarrow> 'w pw_sys \<Rightarrow> unit \<times> 'w pw_sys" where
  "note_fallback t = (if \<not> ds_enabled (tg_devsign t) then return_act ()
     else bind_act (missing_assets (tg_devsign t)) (\<lambda>_. return_act ()))"

definition standard_steps :: "'w pw_env \<Rightarrow> patch_options \<Rightarrow> bool \<Rightarrow> target \<Rightarrow> string \<Rightarrow> ('w, target \<times> string) pw_act" where
  "standard_steps env opts dry t stage =
     rbind_act (labelled ''extract entitlements'' (step_extract_entitlements env dry t)) (\<lambda>ent_file.
     rbind_act (labelled ''move binary to .real'' (step_move_to_real dry t)) (\<lambda>_.
     rbind_act (labelled ''run pre-launch-policy hooks'' (step_pre_launch_policy env opts t)) (\<lambda>t'.
     rbind_act (in_turn
       [labelled ''install shim'' (step_install_shim env dry t'),
        maybe_apply_proxy_injection env dry t',
        labelled ''restore preserved nested code'' (step_restore_preserved env dry t' stage),
        labelled ''embed provisioning profile'' (step_embed_profile env dry t')])
       (\<lambda>_. return_act (Inr (t', ent_file))))))"

definition prepare_standard :: "'w pw_env \<Rightarrow> patch_options \<Rightarrow> bool \<Rightarrow> target \<Rightarrow> ('w, target \<times> signing_plan) pw_act" where
  "prepare_standard env opts dry t =
     bind_act (note_fallback t) (\<lambda>_.
     rbind_act (labelled ''stage preserved nested code'' (stage_preserved env dry t)) (\<lambda>(stage, made).
       let steps = rbind_act (standard_steps env opts dry t stage)
             (\<lambda>(t', ent_file). return_act (Inr (t', (fresh_plan Standard)\<lparr>sp_entitlements := ent_file\<rparr>)))
       in if made then then_remove stage steps else steps))"

definition prepare_development :: "'w pw_env \<Rightarrow> bool \<Rightarrow> target \<Rightarrow> ('w, target \<times> signing_plan) pw_act" where
  "prepare_development env dry t =
     rbind_act (labelled ''apply development signing'' (apply_nested_mutations env dry t))
       (\<lambda>p. return_act (Inr (t, (fresh_plan Development)\<lparr>sp_dev := Some p\<rparr>)))"

definition prepare_signing ::
  "'w pw_env \<Rightarrow> patch_options \<Rightarrow> bool \<Rightarrow> signing_plan \<Rightarrow> target \<Rightarrow> ('w, target \<times> signing_plan) pw_act" where
  "prepare_signing env opts dry plan t =
     tracing (TraceAction ''prepare_signing_strategy'' (tg_id t) (kind_name (sp_kind plan)))
       (case sp_kind plan of
          Standard \<Rightarrow> prepare_standard env opts dry t
        | Development \<Rightarrow> prepare_development env dry t)"

definition seal_plan :: "'w pw_env \<Rightarrow> bool \<Rightarrow> target \<Rightarrow> signing_plan \<Rightarrow> ('w, unit) pw_act" where
  "seal_plan env dry t plan =
     tracing (TraceAction ''seal_signing_strategy'' (tg_id t) (kind_name (sp_kind plan)))
       (case sp_kind plan of
          Standard \<Rightarrow> rbind_act (labelled ''re-sign'' (step_resign env dry t (sp_entitlements plan))) (\<lambda>_.
            if dry then nil_act
            else on_world (\<lambda>w. (Inr (), pe_unquarantine env (tg_app_path t) w)))
        | Development \<Rightarrow> labelled ''reseal development-signed bundle'' (reseal env dry t (sp_dev plan)))"

section \<open>Verification\<close>

definition verify_args :: "string \<Rightarrow> string list" where
  "verify_args p = [''--verify'', ''--verbose=2'', p]"

definition verify_nested_path :: "'w pw_env \<Rightarrow> target \<Rightarrow> string \<Rightarrow> ('w, unit) pw_act" where
  "verify_nested_path env t rel =
     (let p = go_join [tg_app_path t, rel] in
      rbind_act (exists_path ''stat nested code object'' p) (\<lambda>there.
        if there then labelled ''verify nested code object'' (runner_run env False codesign (verify_args p))
        else nil_act))"

definition entry_problem :: "string \<Rightarrow> string list \<Rightarrow> bundle_entry \<Rightarrow> patch_error option" where
  "entry_problem team preserved e =
     (if \<not> be_runtime e \<or> is_preserved (be_relative e) preserved then None
      else case be_error e of
        Some x \<Rightarrow> Some (Within ''signature read failed'' x)
      | None \<Rightarrow> if be_team e \<noteq> team then Some (Plain ''runtime bundle signed by another team'') else None)"

fun first_problem :: "('a \<Rightarrow> patch_error option) \<Rightarrow> 'a list \<Rightarrow> (patch_error, unit) result" where
  "first_problem f [] = Inr ()"
| "first_problem f (x # xs) = (case f x of Some e \<Rightarrow> Inl e | None \<Rightarrow> first_problem f xs)"

definition verify_runtime_teams :: "'w pw_env \<Rightarrow> target \<Rightarrow> ('w, unit) pw_act" where
  "verify_runtime_teams env t =
     rbind_act (labelled ''scan runtime bundle identities'' (scan_bundles env True (tg_app_path t)))
       (\<lambda>entries. return_act (first_problem (entry_problem (trim_space (pe_team env)) (tg_preserved t)) entries))"

definition verify_boolean :: "'w pw_env \<Rightarrow> bool \<Rightarrow> string \<Rightarrow> string list \<Rightarrow> ('w, unit) pw_act" where
  "verify_boolean env dry path required =
     (if required = [] \<or> dry then nil_act
      else rbind_act (labelled ''read entitlements'' (runner_capture env dry codesign (read_entitlements_args path)))
        (\<lambda>out. return_act (first_problem (\<lambda>key. if has_boolean_entitlement out key then None
           else Some (Plain ''missing required entitlement'')) required)))"

definition verify_absent :: "'w pw_env \<Rightarrow> bool \<Rightarrow> string \<Rightarrow> string list \<Rightarrow> ('w, unit) pw_act" where
  "verify_absent env dry path absent =
     (if absent = [] \<or> dry then nil_act
      else rbind_act (labelled ''read entitlements'' (runner_capture env dry codesign (read_entitlements_args path)))
        (\<lambda>out. return_act (first_problem (\<lambda>key. if has_entitlement_key out key
           then Some (Plain ''still has stripped entitlement'') else None) absent)))"

definition verify_policy :: "'w pw_env \<Rightarrow> bool \<Rightarrow> string \<Rightarrow> entitlements_spec \<Rightarrow> ('w, unit) pw_act" where
  "verify_policy env dry path policy =
     rbind_act (verify_boolean env dry path (ent_required policy))
       (\<lambda>_. verify_absent env dry path (ent_strip policy))"

definition verify_required_entitlements :: "'w pw_env \<Rightarrow> bool \<Rightarrow> target \<Rightarrow> ('w, unit) pw_act" where
  "verify_required_entitlements env dry t =
     (if dry then nil_act
      else rbind_act (verify_policy env dry (main_binary t) (tg_entitlements t)) (\<lambda>_.
           rbind_act (real_binary_exists t) (\<lambda>there.
             if there then verify_policy env dry (real_binary t) (tg_entitlements t) else nil_act)))"

definition signal_by_name :: "string \<Rightarrow> int option" where
  "signal_by_name name =
     (if name = ''SIGKILL'' then Some 9 else if name = ''SIGTERM'' then Some 15
      else if name = ''SIGINT'' then Some 2 else None)"

fun exec_cause :: "patch_error \<Rightarrow> exec_error option" where
  "exec_cause (CmdFailed _ e) = Some e"
| "exec_cause (Within _ e) = exec_cause e"
| "exec_cause _ = None"

definition ignore_shim_error :: "target \<Rightarrow> patch_error \<Rightarrow> bool" where
  "ignore_shim_error t err \<longleftrightarrow>
     lp_ignore_signal (tg_launch t) \<noteq> [] \<and>
     (case exec_cause err of Some (Signaled n) \<Rightarrow> signal_by_name (lp_ignore_signal (tg_launch t)) = Some n | _ \<Rightarrow> False)"

definition shim_dry_run :: "'w pw_env \<Rightarrow> target \<Rightarrow> ('w, unit) pw_act" where
  "shim_dry_run env t =
     bind_act (runner_capture env False (main_binary t) [''--clyde-dry-run'']) (\<lambda>r. return_act (case r of
       Inr _ \<Rightarrow> Inr ()
     | Inl e \<Rightarrow> if ignore_shim_error t e then Inr () else Inl (Within ''shim dry-run'' e)))"

definition step_verify :: "'w pw_env \<Rightarrow> bool \<Rightarrow> target \<Rightarrow> ('w, unit) pw_act" where
  "step_verify env dry t =
     (if dry then nil_act
      else in_turn
       [each_act (verify_nested_path env t) (tg_nested t),
        labelled ''verify app bundle'' (runner_run env dry codesign (verify_args (tg_app_path t))),
        verify_runtime_teams env t,
        verify_required_entitlements env dry t,
        shim_dry_run env t])"

definition verify_external_injector :: "'w pw_env \<Rightarrow> bool \<Rightarrow> target \<Rightarrow> ('w, unit) pw_act" where
  "verify_external_injector env dry t =
     bind_act (stat_path (app_local_injector_path t)) (\<lambda>r. case r of
       Inr _ \<Rightarrow> fail_act (Plain ''stale app-local injector remains'')
     | Inl e \<Rightarrow> if e \<noteq> ENOENT then fail_act (OsFailed ''stat stale app-local injector'' e)
        else rbind_act (is_directory ''stat external injector'' (injector_path env t)) (\<lambda>_.
             rbind_act (is_directory ''stat injector policy'' (injector_policy_path env t)) (\<lambda>_. in_turn
              [labelled ''verify external injector'' (runner_run env dry codesign
                 [''--verify'', ''--strict'', ''--verbose=2'', injector_path env t]),
               labelled ''smoke-test external injector''
                 (smoke_test_injector env (injector_path env t) (injector_policy_path env t))])))"

definition deep_verify_args :: "string \<Rightarrow> string list" where
  "deep_verify_args p = [''--verify'', ''--deep'', ''--strict'', p]"

definition step_verify_development :: "'w pw_env \<Rightarrow> bool \<Rightarrow> target \<Rightarrow> ('w, unit) pw_act" where
  "step_verify_development env dry t =
     (if dry then nil_act
      else in_turn
       [labelled ''verify development-signed bundle'' (runner_run env dry codesign (deep_verify_args (tg_app_path t))),
        if ds_proxy_injection (tg_devsign t) then verify_external_injector env dry t else nil_act])"

definition verify_plan :: "'w pw_env \<Rightarrow> bool \<Rightarrow> target \<Rightarrow> signing_plan \<Rightarrow> ('w, unit) pw_act" where
  "verify_plan env dry t plan =
     tracing (TraceAction ''verify_signing_strategy'' (tg_id t) (kind_name (sp_kind plan)))
       (case sp_kind plan of
          Standard \<Rightarrow> step_verify env dry t
        | Development \<Rightarrow> step_verify_development env dry t)"

section \<open>Recording the patch\<close>

definition new_state :: "'w pw_env \<Rightarrow> string \<Rightarrow> string \<Rightarrow> patched_state" where
  "new_state env version dr = \<lparr>pt_version = version, pt_at = pe_now env, pt_identity = pe_identity env,
     pt_requirement = dr\<rparr>"

definition step_write_state :: "'w pw_env \<Rightarrow> bool \<Rightarrow> target \<Rightarrow> string \<Rightarrow> string \<Rightarrow> ('w, unit) pw_act" where
  "step_write_state env dry t version dr =
     tracing (TraceAction ''write_patch_state'' (tg_id t) (tg_app_path t))
       (if dry then nil_act
        else bind_act (on_files (update_state (pe_codec env) (pe_team env) (pe_state_tmp env) (pe_part env)
               (state_path env) (\<lambda>ms. Inr (AList.update (tg_id t) (new_state env version dr) ms))))
          (\<lambda>r. return_act (case r of Some _ \<Rightarrow> Inl (Plain ''save state file'') | None \<Rightarrow> Inr ())))"

section \<open>The two halves\<close>

definition run_lifecycle ::
  "(patch_options \<Rightarrow> target \<Rightarrow> 'w world hook) gomap \<Rightarrow> patch_options \<Rightarrow> target \<Rightarrow> string \<Rightarrow> ('w, unit) pw_act" where
  "run_lifecycle hooks opts t what =
     on_world (\<lambda>w. let (e, w') = run_named_hooks (map (\<lambda>(n, h). (n, h opts t)) hooks) w
                   in (case e of Some x \<Rightarrow> Inl (Within what (Plain x)) | None \<Rightarrow> Inr (), w'))"

definition run_post_patch :: "'w pw_env \<Rightarrow> patch_options \<Rightarrow> target \<Rightarrow> string \<Rightarrow> ('w, unit) pw_act" where
  "run_post_patch env opts t capability =
     on_world (\<lambda>w. let (e, w') = run_hook (map (\<lambda>(n, h). (n, h opts t)) (pe_post_patch env)) capability w
                   in (case e of Some x \<Rightarrow> Inl (Within ''run post-patch hook'' (HookFailed x)) | None \<Rightarrow> Inr (), w'))"

definition work_target :: "target \<Rightarrow> patch_options \<Rightarrow> target" where
  "work_target t opts = (if po_override opts \<noteq> [] then t\<lparr>tg_app_path := po_override opts\<rparr> else t)"

definition final_target :: "target \<Rightarrow> patch_options \<Rightarrow> target" where
  "final_target t opts =
     (if po_final opts \<noteq> [] then t\<lparr>tg_app_path := po_final opts\<rparr>
      else if po_override opts \<noteq> [] then t\<lparr>tg_app_path := po_override opts\<rparr> else t)"

definition patch_bundle_steps :: "'w pw_env \<Rightarrow> patch_options \<Rightarrow> target \<Rightarrow> ('w, target \<times> signing_plan) pw_act" where
  "patch_bundle_steps env opts t =
     (let dry = po_dry_run opts in
      bind_act (select_plan t) (\<lambda>plan0.
      rbind_act (prepare_signing env opts dry plan0 t) (\<lambda>(t', plan).
      rbind_act (run_lifecycle (pe_mutations env) (opts\<lparr>po_close := False, po_override := []\<rparr>) t'
          ''run bundle extension mutations'') (\<lambda>_.
      rbind_act (if seal_before_finalize plan then seal_plan env dry t' plan else nil_act)
        (\<lambda>_. return_act (Inr (t', plan)))))))"

record prepared_bundle =
  pb_target :: target
  pb_captured :: "keychain_item list"
  pb_version :: string
  pb_dr :: string
  pb_plan :: "signing_plan option"

definition prepare_checks :: "'w pw_env \<Rightarrow> patch_options \<Rightarrow> target \<Rightarrow> target \<Rightarrow> ('w, unit) pw_act" where
  "prepare_checks env opts t work =
     bind_act (preflight_warn env (po_dry_run opts) t) (\<lambda>_.
       if po_dry_run opts then nil_act
       else rbind_act (is_directory ''bundle not found'' (tg_app_path work))
              (\<lambda>_. labelled ''verify MITM CA trust before patch'' (ensure_trusted_ca env t)))"

definition prepare_bundle :: "'w pw_env \<Rightarrow> patch_options \<Rightarrow> target \<Rightarrow> ('w, prepared_bundle) pw_act" where
  "prepare_bundle env opts t =
     (let work = work_target t opts; dry = po_dry_run opts in
      rbind_act (prepare_checks env opts t work) (\<lambda>_.
      rbind_act (load_info_plist env dry work) (\<lambda>info.
      rbind_act (resolve_original_dr env dry work) (\<lambda>dr.
      rbind_act (if \<not> po_migrate opts \<or> dry then return_act (Inr [])
                 else labelled ''keychain capture'' (capture_items env (tg_keychain t))) (\<lambda>captured.
      rbind_act (patch_bundle_steps env opts work) (\<lambda>(work', plan).
        return_act (Inr \<lparr>pb_target = work', pb_captured = captured, pb_version = pi_version info,
          pb_dr = dr, pb_plan = Some plan\<rparr>)))))))"

definition finalize_checks :: "'w pw_env \<Rightarrow> patch_options \<Rightarrow> target \<Rightarrow> signing_plan \<Rightarrow> ('w, unit) pw_act" where
  "finalize_checks env opts t plan =
     (let dry = po_dry_run opts in in_turn
       [run_lifecycle (pe_post_bundle env) opts t ''run post-bundle hooks'',
        each_act (run_post_patch env opts t) (post_patch_hook_capabilities (tg_ext t)),
        (if seal_before_finalize plan then nil_act else seal_plan env dry t plan),
        run_lifecycle (pe_verifications env) opts t ''verify bundle extensions'',
        labelled ''verify'' (verify_plan env dry t plan)])"

definition finalize_bundle :: "'w pw_env \<Rightarrow> patch_options \<Rightarrow> prepared_bundle \<Rightarrow> target \<Rightarrow> ('w, unit) pw_act" where
  "finalize_bundle env opts prepared t =
     rbind_act (finalize_checks env opts t
         (case pb_plan prepared of Some p \<Rightarrow> p | None \<Rightarrow> fresh_plan Standard)) (\<lambda>_.
     rbind_act (labelled ''write state''
         (step_write_state env (po_dry_run opts) t (pb_version prepared) (pb_dr prepared))) (\<lambda>_.
     bind_act (restore_keychain_access env opts t (pb_captured prepared)) (\<lambda>_. nil_act)))"

section \<open>The operations\<close>

datatype patch_done = Patched | Deferred

definition patch_body :: "'w pw_env \<Rightarrow> patch_options \<Rightarrow> target \<Rightarrow> ('w, unit) pw_act" where
  "patch_body env opts t =
     rbind_act (prepare_bundle env opts t) (\<lambda>prepared. finalize_bundle env opts prepared (final_target t opts))"

definition as_error :: "('w, unit) pw_act \<Rightarrow> 'w pw_sys \<Rightarrow> patch_error option \<times> 'w pw_sys" where
  "as_error a s = (let (r, s') = a s in (case r of Inl e \<Rightarrow> Some e | Inr _ \<Rightarrow> None, s'))"

definition patch_app :: "'w pw_env \<Rightarrow> target \<Rightarrow> patch_options \<Rightarrow> 'w pw_sys \<Rightarrow>
    (guard_error + patch_error, patch_done) result \<times> 'w pw_sys" where
  "patch_app env t opts =
     bind_act (mutate_bundle (on_world (pe_running env)) (on_world (pe_ensure_closed env)) (tg_id t)
         (if po_close opts then PolicyClose else PolicyDefer) (po_dry_run opts) (as_error (patch_body env opts t)))
       (\<lambda>r. return_act (case r of
          None \<Rightarrow> Inr Patched
        | Some (Inl (AppRunning i)) \<Rightarrow> Inr Deferred
        | Some e \<Rightarrow> Inl e))"

text \<open>
  \<open>PrepareForSwap\<close> and \<open>FinalizeAfterSwap\<close> are the two halves with the target an upgrade
  passes: the staged copy before the swap, the installed app after it.
\<close>

definition prepare_for_swap :: "'w pw_env \<Rightarrow> target \<Rightarrow> patch_options \<Rightarrow> ('w, prepared_bundle) pw_act" where
  "prepare_for_swap env t opts = prepare_bundle env opts t"

definition finalize_after_swap :: "'w pw_env \<Rightarrow> prepared_bundle \<Rightarrow> target \<Rightarrow> patch_options \<Rightarrow> ('w, unit) pw_act" where
  "finalize_after_swap env prepared t opts = finalize_bundle env opts prepared (final_target t opts)"

text \<open>
  \<open>Operation\<close>: a missing app is installed by the upgrade operation instead; \<open>upgrade\<close> is what is
  registered for \<open>app.upgrade\<close>.
\<close>

record op_flags =
  of_dry_run :: bool
  of_migrate :: bool
  of_background :: bool

definition should_upgrade_missing :: "target \<Rightarrow> bool \<Rightarrow> 'w pw_sys \<Rightarrow> bool \<times> 'w pw_sys" where
  "should_upgrade_missing t dry =
     (if dry then return_act False
      else bind_act (stat_path (tg_app_path t)) (\<lambda>r. return_act (r = Inl ENOENT)))"

datatype 'e operation_error =
    NoAppTarget
  | UpgradeNotRegistered
  | UpgradeFailed 'e
  | PatchFailed "guard_error + patch_error"

definition patch_operation ::
  "'w pw_env \<Rightarrow> (target \<Rightarrow> op_flags \<Rightarrow> 'w pw_sys \<Rightarrow> 'e option \<times> 'w pw_sys) option \<Rightarrow> target option \<Rightarrow> op_flags \<Rightarrow>
    'w pw_sys \<Rightarrow> 'e operation_error option \<times> 'w pw_sys" where
  "patch_operation env upgrade app flags = (case app of
     None \<Rightarrow> return_act (Some NoAppTarget)
   | Some t \<Rightarrow> bind_act (should_upgrade_missing t (of_dry_run flags)) (\<lambda>missing.
       if missing then (case upgrade of
           None \<Rightarrow> return_act (Some UpgradeNotRegistered)
         | Some h \<Rightarrow> bind_act (h t flags) (\<lambda>e. return_act (map_option UpgradeFailed e)))
       else bind_act (patch_app env t \<lparr>po_dry_run = of_dry_run flags, po_migrate = of_migrate flags,
              po_close = \<not> of_background flags, po_override = [], po_final = []\<rparr>)
            (\<lambda>r. return_act (case r of Inl e \<Rightarrow> Some (PatchFailed e) | Inr _ \<Rightarrow> None))))"

definition keychain_migrate_operation :: "'w pw_env \<Rightarrow> target option \<Rightarrow> op_flags \<Rightarrow>
    'w pw_sys \<Rightarrow> 'e operation_error option \<times> 'w pw_sys" where
  "keychain_migrate_operation env app flags = (case app of
     None \<Rightarrow> return_act (Some NoAppTarget)
   | Some t \<Rightarrow> bind_act (keychain_migrate env \<lparr>po_dry_run = of_dry_run flags, po_migrate = True,
         po_close = False, po_override = [], po_final = []\<rparr> t)
       (\<lambda>r. return_act (case r of Inl e \<Rightarrow> Some (PatchFailed (Inr e)) | Inr _ \<Rightarrow> None)))"

end
