(* ===== verification/Patch_Logic.thy ===== *)
theory Patch_Logic
  imports Patch_Flow
begin

text \<open>
  What the actions of the patch flow add to the trace (\<open>appends pw_log\<close>) and leave alone
  (\<open>keeps\<close>), for the building blocks of \<open>Patch_World\<close>.
\<close>

lemma appends_case_bool [appends_intros]:
  "appends lg P a \<Longrightarrow> appends lg P b \<Longrightarrow> appends lg P (case y of True \<Rightarrow> a | False \<Rightarrow> b)"
  by (cases y) simp_all

lemma keeps_case_bool [keeps_intros]:
  "keeps f a \<Longrightarrow> keeps f b \<Longrightarrow> keeps f (case y of True \<Rightarrow> a | False \<Rightarrow> b)"
  by (cases y) simp_all

lemma appends_case_list [appends_intros]:
  "appends lg P a \<Longrightarrow> (\<And>x xs. appends lg P (b x xs)) \<Longrightarrow> appends lg P (case y of [] \<Rightarrow> a | x # xs \<Rightarrow> b x xs)"
  by (cases y) simp_all

lemma appends_case_kind [appends_intros]:
  "appends lg P a \<Longrightarrow> appends lg P b \<Longrightarrow> appends lg P (case k of Standard \<Rightarrow> a | Development \<Rightarrow> b)"
  by (cases k) simp_all

lemma keeps_case_kind [keeps_intros]:
  "keeps lg a \<Longrightarrow> keeps lg b \<Longrightarrow> keeps lg (case k of Standard \<Rightarrow> a | Development \<Rightarrow> b)"
  by (cases k) simp_all

section \<open>The trace\<close>

lemma appends_on_world [appends_intros]: "appends pw_log P (on_world f)"
  by (simp add: appends_def on_world_def split: prod.split)

lemma appends_on_files [appends_intros]: "appends pw_log P (on_files f)"
  unfolding on_files_def by (rule appends_on_world)

lemma appends_trace_event: "P e \<Longrightarrow> appends pw_log P (trace_event e)"
  by (simp add: appends_def trace_event_def)

lemma appends_tracing [appends_intros]:
  "P e \<Longrightarrow> appends pw_log P a \<Longrightarrow> appends pw_log P (tracing e a)"
  unfolding tracing_def by (intro appends_intros appends_trace_event)

lemma appends_nil_act [appends_intros]: "appends lg P nil_act"
  unfolding nil_act_def by (intro appends_intros)

lemma appends_fail_act [appends_intros]: "appends lg P (fail_act e)"
  unfolding fail_act_def by (intro appends_intros)

lemma appends_labelled [appends_intros]: "appends lg P a \<Longrightarrow> appends lg P (labelled what a)"
  unfolding labelled_def by (intro appends_intros)

lemma appends_file_call [appends_intros]: "appends pw_log P (file_call what f)"
  unfolding file_call_def by (intro appends_intros)

lemma appends_stat_path [appends_intros]: "appends pw_log P (stat_path p)"
  unfolding stat_path_def by (intro appends_intros)

lemma appends_exists_path [appends_intros]: "appends pw_log P (exists_path what p)"
  unfolding exists_path_def by (intro appends_intros)

lemma appends_read_path [appends_intros]: "appends pw_log P (read_path what p)"
  unfolding read_path_def by (intro appends_intros)

lemma appends_write_path [appends_intros]: "appends pw_log P (write_path env what p d)"
  unfolding write_path_def by (intro appends_intros)

lemma appends_mkdir_path [appends_intros]: "appends pw_log P (mkdir_path what p)"
  unfolding mkdir_path_def by (intro appends_intros)

lemma appends_in_turn [appends_intros]:
  "appends lg P (in_turn [])"
  "appends lg P a \<Longrightarrow> appends lg P (in_turn as) \<Longrightarrow> appends lg P (in_turn (a # as))"
  by (simp_all add: in_turn_def appends_return_act appends_rbind)

lemma appends_best_effort [appends_intros]: "appends lg P a \<Longrightarrow> appends lg P (best_effort a)"
  unfolding best_effort_def by (intro appends_intros)

lemma appends_started [appends_intros]:
  "(\<And>b. P (Executed name args b)) \<Longrightarrow> appends pw_log P (started name args f ok)"
  unfolding started_def by (intro appends_intros appends_trace_event)

lemma appends_runner_run [appends_intros]:
  "P (TraceCommand ''run_command'' name args) \<Longrightarrow> (\<And>b. \<not> dry \<Longrightarrow> P (Executed name args b)) \<Longrightarrow>
     appends pw_log P (runner_run env dry name args)"
  unfolding runner_run_def by (intro appends_intros)

lemma appends_exec_output [appends_intros]:
  "(\<And>b. P (Executed name args b)) \<Longrightarrow> appends pw_log P (exec_output env name args)"
  unfolding exec_output_def by (intro appends_intros)

lemma appends_runner_capture [appends_intros]:
  "P (TraceCommand ''run_command_with_captured_stdout'' name args) \<Longrightarrow>
     (\<And>b. \<not> dry \<Longrightarrow> P (Executed name args b)) \<Longrightarrow> appends pw_log P (runner_capture env dry name args)"
  unfolding runner_capture_def by (intro appends_intros)

lemma appends_exec_combined [appends_intros]:
  "(\<And>b. P (Executed name args b)) \<Longrightarrow> appends pw_log P (exec_combined env name args)"
  unfolding exec_combined_def by (intro appends_intros)

lemma appends_then_remove [appends_intros]: "appends pw_log P a \<Longrightarrow> appends pw_log P (then_remove dir a)"
  unfolding then_remove_def by (intro appends_intros)

lemma appends_make_temp_dir [appends_intros]: "appends pw_log P (make_temp_dir env what)"
  unfolding make_temp_dir_def by (intro appends_intros)

lemma appends_is_directory [appends_intros]: "appends pw_log P (is_directory what p)"
  unfolding is_directory_def by (intro appends_intros)

section \<open>The file tree\<close>

text \<open>The tree, and every state it went through.\<close>

definition tree_of :: "'w pw_sys \<Rightarrow> filesys \<times> filesys list" where
  "tree_of s = (os_fs (pw_os s), os_trail (pw_os s))"

definition reads_only :: "(os \<Rightarrow> 'r \<times> os) \<Rightarrow> bool" where
  "reads_only f \<longleftrightarrow> (\<forall>w. os_fs (snd (f w)) = os_fs w \<and> os_trail (snd (f w)) = os_trail w)"

lemma keeps_on_files [keeps_intros]: "reads_only f \<Longrightarrow> keeps tree_of (on_files f)"
  by (auto simp: keeps_def on_files_def on_world_def tree_of_def reads_only_def split: prod.splits)
     (metis snd_conv)+

lemma keeps_on_world [keeps_intros]:
  "(\<And>w. fst (snd (f w)) = fst w) \<Longrightarrow> keeps tree_of (on_world f)"
  by (auto simp: keeps_def on_world_def tree_of_def split: prod.splits) (metis fst_conv snd_conv)+

lemma reads_only_stat_at [keeps_intros]: "reads_only (stat_at p)"
  by (auto simp: reads_only_def stat_at_def Let_def next_fault_def split: list.splits fault.splits sum.splits prod.splits)

lemma reads_only_read_file_at [keeps_intros]: "reads_only (read_file_at p)"
  by (auto simp: reads_only_def read_file_at_def Let_def next_fault_def
      split: list.splits fault.splits sum.splits prod.splits option.splits fnode.splits)

lemma reads_only_pure [keeps_intros]: "reads_only (\<lambda>w. (f w, w))"
  by (simp add: reads_only_def)

lemma reads_only_load [keeps_intros]: "reads_only (load_unlocked c p)"
  by (auto simp: reads_only_def load_unlocked_def os_read_def Let_def next_fault_def
      split: list.splits fault.splits sum.splits prod.splits option.splits fnode.splits)

lemma keeps_trace_event [keeps_intros]: "keeps tree_of (trace_event e)"
  by (simp add: keeps_def trace_event_def tree_of_def)

lemma keeps_tracing [keeps_intros]: "keeps tree_of a \<Longrightarrow> keeps tree_of (tracing e a)"
  unfolding tracing_def by (intro keeps_intros)

lemma keeps_nil_act [keeps_intros]: "keeps f nil_act"
  unfolding nil_act_def by (intro keeps_intros)

lemma keeps_fail_act [keeps_intros]: "keeps f (fail_act e)"
  unfolding fail_act_def by (intro keeps_intros)

lemma keeps_labelled [keeps_intros]: "keeps f a \<Longrightarrow> keeps f (labelled what a)"
  unfolding labelled_def by (intro keeps_intros)

lemma keeps_stat_path [keeps_intros]: "keeps tree_of (stat_path p)"
  unfolding stat_path_def by (intro keeps_intros)

lemma keeps_exists_path [keeps_intros]: "keeps tree_of (exists_path what p)"
  unfolding exists_path_def by (intro keeps_intros)

lemma keeps_read_path [keeps_intros]: "keeps tree_of (read_path what p)"
  unfolding read_path_def by (intro keeps_intros)

lemma keeps_in_turn [keeps_intros]:
  "keeps f (in_turn [])"
  "keeps f a \<Longrightarrow> keeps f (in_turn as) \<Longrightarrow> keeps f (in_turn (a # as))"
  by (simp_all add: in_turn_def keeps_return_act keeps_rbind)

lemma keeps_best_effort [keeps_intros]: "keeps f a \<Longrightarrow> keeps f (best_effort a)"
  unfolding best_effort_def by (intro keeps_intros)

lemma keeps_runner_run_dry [keeps_intros]: "keeps tree_of (runner_run env True name args)"
  unfolding runner_run_def by (simp add: keeps_intros)

lemma keeps_exec_output [keeps_intros]:
  "(\<And>w. fst (snd (pe_output env name args w)) = fst w) \<Longrightarrow> keeps tree_of (exec_output env name args)"
  unfolding exec_output_def started_def by (intro keeps_intros)

lemma keeps_is_directory [keeps_intros]: "keeps tree_of (is_directory what p)"
  unfolding is_directory_def by (intro keeps_intros)

section \<open>Results\<close>

lemma labelled_Inr: "labelled what a s = (Inr x, s') \<longleftrightarrow> a s = (Inr x, s')"
  by (auto simp: labelled_def bind_act_def return_act_def split: prod.splits sum.splits)

lemma tracing_run: "tracing e a s = a (s\<lparr>pw_log := pw_log s @ [e]\<rparr>)"
  by (simp add: tracing_def bind_act_def trace_event_def)

lemma in_turn_Nil: "in_turn [] = nil_act"
  by (simp add: in_turn_def nil_act_def)

lemma in_turn_Cons: "in_turn (a # as) = rbind_act a (\<lambda>_. in_turn as)"
  by (simp add: in_turn_def)

end
