(* ===== verification/Patch_Trace.thy ===== *)
theory Patch_Trace
  imports Patch_Logic
begin

text \<open>
  Which trace entries the patch can add before it records its result. The contract names what
  an entry may be; it holds for the entries of a dry run and for those of a real run, so that
  every step is gone through once.
\<close>

locale patch_events =
  fixes P :: "pw_event \<Rightarrow> bool" and dry :: bool
  assumes command_ok: "P (TraceCommand kind name args)"
    and action_ok: "kind \<noteq> ''write_patch_state'' \<Longrightarrow> P (TraceAction kind tid path)"
    and executed_ok: "\<not> dry \<Longrightarrow> P (Executed name args b)"
    and requirement_ok: "P (Executed codesign (requirement_args path) b)"
begin

lemma run_ok: "appends pw_log P (runner_run env dry name args)"
  by (rule appends_runner_run) (auto intro: command_ok executed_ok)

lemma capture_ok: "appends pw_log P (runner_capture env dry name args)"
  by (rule appends_runner_capture) (auto intro: command_ok executed_ok)

lemma output_ok: "\<not> dry \<Longrightarrow> appends pw_log P (exec_output env name args)"
  by (rule appends_exec_output) (auto intro: executed_ok)

lemma combined_ok: "\<not> dry \<Longrightarrow> appends pw_log P (exec_combined env name args)"
  by (rule appends_exec_combined) (auto intro: executed_ok)

lemmas basics = appends_intros run_ok capture_ok output_ok combined_ok

lemma traced_ok: "kind \<noteq> ''write_patch_state'' \<Longrightarrow> appends pw_log P a \<Longrightarrow>
    appends pw_log P (tracing (TraceAction kind tid path) a)"
  by (intro appends_intros action_ok)

subsection \<open>Signing and development signing\<close>

lemma identity_ok: "appends pw_log P (resolve_identity env dry)"
  unfolding resolve_identity_def by (intro basics) auto

lemma missing_of_ok: "appends pw_log P (missing_of xs)"
  by (induction xs rule: missing_of.induct) (auto intro!: basics)

lemma missing_ok: "appends pw_log P (missing_assets policy)"
  unfolding missing_assets_def by (rule missing_of_ok)

lemma smoke_ok:
  assumes "\<not> dry"
  shows "appends pw_log P (smoke_test_injector env dylib policy)"
  unfolding smoke_test_injector_def smoke_steps_def run_smoke_host_def Let_def
  by (intro basics assms)

lemma install_injector_ok: "appends pw_log P (install_injector env dry t)"
  unfolding install_injector_def write_injector_policy_def stage_injector_dylib_def sign_injector_def
    verify_injector_def remove_app_local_injector_def set_injector_environment_def plist_buddy_def Let_def
  by (intro basics identity_ok smoke_ok; assumption?)

lemma apply_nested_ok: "appends pw_log P (apply_nested_mutations env dry t)"
  unfolding apply_nested_mutations_def write_development_entitlements_def Let_def
  by (intro basics install_injector_ok; assumption?)

lemma reseal_ok: "appends pw_log P (reseal env dry t plan)"
  unfolding reseal_def by (intro basics)

lemma augmented_ok: "appends pw_log P (write_augmented_entitlements env dry allow label src policy)"
  unfolding write_augmented_entitlements_def Let_def by (intro basics; assumption?)

lemma proxy_ok: "appends pw_log P (maybe_apply_proxy_injection env dry t)"
  unfolding maybe_apply_proxy_injection_def apply_proxy_injection_def
  by (intro basics install_injector_ok)

subsection \<open>The scan and the nested code\<close>

lemma collect_ok:
  "(\<And>p r acc. appends pw_log P (f p r acc)) \<Longrightarrow> appends pw_log P (collect_visits f vs acc)"
  by (induction f vs acc rule: collect_visits.induct) (auto intro!: basics)

lemma some_file_ok: "appends pw_log P (some_file ps)"
  by (induction ps) (auto intro!: basics)

lemma scan_ok:
  assumes "include \<Longrightarrow> \<not> dry"
  shows "appends pw_log P (scan_bundles env include path)"
proof -
  have signed: "appends pw_log P (with_signature env include e)" for e
    unfolding with_signature_def read_signature_def by (intro basics) (use assms in auto)
  show ?thesis
    unfolding scan_bundles_def scan_visit_def read_entry_def has_runtime_executable_def listing_def Let_def
    by (intro basics collect_ok signed some_file_ok)
qed

lemma nested_paths_ok: "appends pw_log P (nested_code_sign_paths env t)"
  unfolding nested_code_sign_paths_def discover_macho_paths_def macho_sign_path_def is_macho_file_def
    listing_def Let_def
  by (intro basics collect_ok scan_ok) simp

lemma resign_ok: "appends pw_log P (step_resign env dry t ent_file)"
  unfolding step_resign_def step_resign_nested_def resign_nested_path_def sign_one_nested_def
    resolve_nested_args_def resign_outer_def
  by (intro traced_ok basics identity_ok nested_paths_ok augmented_ok) simp_all

subsection \<open>The two strategies\<close>

lemma preserved_ok: "appends pw_log P (stage_preserved env dry t)"
  "appends pw_log P (step_restore_preserved env dry t stage)"
  unfolding stage_preserved_def stage_preserved_path_def step_restore_preserved_def
    restore_preserved_path_def copy_tree_def copy_file_def Let_def
  by (intro traced_ok basics; simp)+

lemma pre_launch_hooks_ok: "appends pw_log P (pre_launch_hooks env opts cs t)"
  by (induction env opts cs t rule: pre_launch_hooks.induct)
     (auto simp: pre_launch_hook_def intro!: basics)

lemma standard_ok: "appends pw_log P (prepare_standard env opts dry t)"
  unfolding prepare_standard_def note_fallback_def standard_steps_def step_extract_entitlements_def
    step_move_to_real_def step_pre_launch_policy_def step_install_shim_def step_embed_profile_def Let_def
  by (intro basics missing_ok preserved_ok augmented_ok pre_launch_hooks_ok proxy_ok)

lemma prepare_signing_ok: "appends pw_log P (prepare_signing env opts dry plan t)"
  unfolding prepare_signing_def prepare_development_def
  by (intro traced_ok basics standard_ok apply_nested_ok) simp

lemma seal_ok: "appends pw_log P (seal_plan env dry t plan)"
  unfolding seal_plan_def by (intro traced_ok basics resign_ok reseal_ok) simp

lemma select_ok: "appends pw_log P (select_plan t)"
  unfolding select_plan_def by (intro basics missing_ok)

subsection \<open>The two halves\<close>

lemma trust_ok:
  assumes "\<not> dry"
  shows "appends pw_log P (ensure_trusted_ca env t)"
proof -
  have sorted: "appends pw_log P (sort_keychains env ks st)" for ks st
    by (induction env ks st rule: sort_keychains.induct)
       (auto simp: keychain_fingerprints_def trust_search_output_def intro!: basics assms)
  have status: "appends pw_log P (mitm_trust_status env t)"
    unfolding mitm_trust_status_def load_ca_certificate_def Let_def by (intro basics sorted)
  show ?thesis
    unfolding ensure_trusted_ca_def trusted_ca_drift_def by (intro basics status)
qed

lemma preflight_ok: "appends pw_log P (preflight_warn env dry t)"
  unfolding preflight_warn_def Let_def by (intro basics missing_ok)

lemma capture_items_ok: "\<not> dry \<Longrightarrow> appends pw_log P (capture_items env svcs)"
  by (induction env svcs rule: capture_items.induct) (auto simp: run_security_def Let_def intro!: basics)

lemma original_dr_ok: "appends pw_log P (resolve_original_dr env dry t)"
proof -
  have "appends pw_log P (capture_requirement env src)" for src
    unfolding capture_requirement_def designated_requirement_def
    by (intro basics appends_exec_output requirement_ok)
  then show ?thesis
    unfolding resolve_original_dr_def real_binary_exists_def Let_def by (intro basics)
qed

lemma prepare_ok:
  assumes "po_dry_run opts = dry"
  shows "appends pw_log P (prepare_bundle env opts t)"
  unfolding prepare_bundle_def prepare_checks_def load_info_plist_def patch_bundle_steps_def run_lifecycle_def
    assms Let_def
  by (intro basics preflight_ok trust_ok original_dr_ok capture_items_ok select_ok prepare_signing_ok seal_ok) auto

lemma verify_ok: "appends pw_log P (verify_plan env dry t plan)"
  unfolding verify_plan_def step_verify_def step_verify_development_def verify_nested_path_def
    verify_runtime_teams_def verify_required_entitlements_def verify_policy_def verify_boolean_def
    verify_absent_def shim_dry_run_def verify_external_injector_def real_binary_exists_def Let_def
  by (intro traced_ok basics scan_ok smoke_ok appends_runner_run appends_runner_capture command_ok executed_ok; simp)

lemma finalize_checks_ok:
  assumes "po_dry_run opts = dry"
  shows "appends pw_log P (finalize_checks env opts t plan)"
  unfolding finalize_checks_def run_lifecycle_def run_post_patch_def assms Let_def
  by (intro basics seal_ok verify_ok)

end

end
