(* ===== verification/Patch_Props.thy ===== *)
theory Patch_Props
  imports Patch_Trace App_Guard
begin

text \<open>
  What the patch promises: its record is written only for a bundle that was sealed and then
  verified, with nothing but looks at the bundle in between.
\<close>

section \<open>Recorded only when verified\<close>

fun records_patch :: "pw_event \<Rightarrow> bool" where
  "records_patch (TraceAction kind tid path) \<longleftrightarrow> kind = ''write_patch_state''"
| "records_patch _ \<longleftrightarrow> False"

interpretation real_run: patch_events "\<lambda>e. \<not> records_patch e" False
  by unfold_locales (auto simp: codesign_def)

text \<open>Commands that only look at the bundle, and those that seal it.\<close>

fun looks :: "pw_event \<Rightarrow> bool" where
  "looks (Executed name args ok) \<longleftrightarrow>
     name = codesign \<and> args \<noteq> [] \<and> hd args \<in> {''-d'', ''-dv'', ''--verify''} \<or>
     args = [''--clyde-dry-run''] \<or> name = ''/usr/bin/xcrun'' \<or>
     list_ex (prefix ''DYLD_INSERT_LIBRARIES='') args"
| "looks (TraceCommand kind name args) \<longleftrightarrow> True"
| "looks (TraceAction kind tid path) \<longleftrightarrow> False"

fun uses_keychain :: "pw_event \<Rightarrow> bool" where
  "uses_keychain (Executed name args ok) \<longleftrightarrow> name = security_tool"
| "uses_keychain _ \<longleftrightarrow> False"

definition passed :: "string list \<Rightarrow> pw_event" where
  "passed args = Executed codesign args True"

lemma runner_run_Inr:
  assumes "runner_run env False name args s = (Inr u, s')"
  shows "pw_log s' = pw_log s @ [TraceCommand ''run_command'' name args, Executed name args True]"
  using assms
  by (auto simp: runner_run_def tracing_run started_def bind_act_def return_act_def on_world_def trace_event_def
      split: prod.splits option.splits)

lemma looks_verify: "appends pw_log looks (runner_run env dry codesign (''--verify'' # args))"
  by (rule appends_runner_run) (simp_all add: codesign_def)

lemma looks_capture:
  "appends pw_log looks (runner_capture env dry codesign (read_entitlements_args p))"
  "appends pw_log looks (runner_capture env dry name [''--clyde-dry-run''])"
  by (rule appends_runner_capture; simp add: codesign_def read_entitlements_args_def)+

lemma collect_appends:
  "(\<And>p r acc. appends pw_log P (f p r acc)) \<Longrightarrow> appends pw_log P (collect_visits f vs acc)"
  by (induction f vs acc rule: collect_visits.induct) (auto intro!: appends_intros)

lemma some_file_appends: "appends pw_log P (some_file ps)"
  by (induction ps) (auto intro!: appends_intros)

lemma looks_scan: "appends pw_log looks (scan_bundles env include path)"
proof -
  have "appends pw_log looks (with_signature env include e)" for e
    unfolding with_signature_def read_signature_def by (intro appends_intros) (simp add: codesign_def)
  then show ?thesis
    unfolding scan_bundles_def scan_visit_def read_entry_def has_runtime_executable_def listing_def Let_def
    by (intro appends_intros collect_appends some_file_appends)
qed

lemma looks_smoke: "appends pw_log looks (smoke_test_injector env dylib policy)"
  unfolding smoke_test_injector_def smoke_steps_def run_smoke_host_def Let_def
  by (intro appends_intros) simp_all

lemmas looks_intros = appends_intros looks_verify looks_capture looks_scan looks_smoke

lemma looks_entitlements: "appends pw_log looks (verify_required_entitlements env dry t)"
  unfolding verify_required_entitlements_def verify_policy_def verify_boolean_def verify_absent_def
    real_binary_exists_def
  by (intro looks_intros)

text \<open>A verification that succeeds has verified the app, and has only looked.\<close>

fun app_verification :: "plan_kind \<Rightarrow> string \<Rightarrow> string list" where
  "app_verification Standard p = verify_args p"
| "app_verification Development p = deep_verify_args p"

lemma looks_nested: "appends pw_log looks (each_act (verify_nested_path env t) rels)"
  unfolding verify_nested_path_def verify_args_def Let_def by (intro looks_intros)

lemma looks_after:
  "appends pw_log looks (in_turn [verify_runtime_teams env t, verify_required_entitlements env False t, shim_dry_run env t])"
  "appends pw_log looks (in_turn [if c then verify_external_injector env False t else nil_act])"
  unfolding verify_runtime_teams_def shim_dry_run_def verify_external_injector_def
  by (intro looks_intros looks_entitlements)+

lemma after_verification:
  assumes "runner_run env False codesign args s = (Inr u, s1)" "appends pw_log looks a" "a s1 = (r, s2)"
  obtains look where "pw_log s2 = pw_log s @ [TraceCommand ''run_command'' codesign args, passed args] @ look"
    "list_all looks look"
  using runner_run_Inr [OF assms(1)] appendsE [OF assms(2,3)] that by (auto simp: passed_def)

lemma verify_plan_Inr:
  assumes "verify_plan env False t plan s = (Inr u, s')"
  obtains a look where
    "pw_log s' = pw_log s @ a @ [passed (app_verification (sp_kind plan) (tg_app_path t))] @ look"
    "list_all looks look"
proof (cases "sp_kind plan")
  case Standard
  let ?s0 = "s\<lparr>pw_log := pw_log s @ [TraceAction ''verify_signing_strategy'' (tg_id t) (kind_name (sp_kind plan))]\<rparr>"
  from assms Standard obtain s1 s2 where
    n: "each_act (verify_nested_path env t) (tg_nested t) ?s0 = (Inr (), s1)"
    and v: "runner_run env False codesign (verify_args (tg_app_path t)) s1 = (Inr (), s2)"
    and l: "in_turn [verify_runtime_teams env t, verify_required_entitlements env False t, shim_dry_run env t] s2 = (Inr u, s')"
    by (auto simp: verify_plan_def step_verify_def tracing_run in_turn_Cons rbind_act_Inr labelled_Inr)
  obtain es where "pw_log s1 = pw_log ?s0 @ es" using appendsE [OF looks_nested n] .
  moreover from after_verification [OF v looks_after(1) l] obtain look where
    "pw_log s' = pw_log s1 @ [TraceCommand ''run_command'' codesign (verify_args (tg_app_path t)), passed (verify_args (tg_app_path t))] @ look"
    "list_all looks look" .
  ultimately show thesis
    using Standard that [of "TraceAction ''verify_signing_strategy'' (tg_id t) (kind_name (sp_kind plan)) # es @
      [TraceCommand ''run_command'' codesign (verify_args (tg_app_path t))]" look] by simp
next
  case Development
  let ?s0 = "s\<lparr>pw_log := pw_log s @ [TraceAction ''verify_signing_strategy'' (tg_id t) (kind_name (sp_kind plan))]\<rparr>"
  from assms Development obtain s2 where
    v: "runner_run env False codesign (deep_verify_args (tg_app_path t)) ?s0 = (Inr (), s2)"
    and l: "in_turn [if ds_proxy_injection (tg_devsign t) then verify_external_injector env False t else nil_act] s2 = (Inr u, s')"
    by (auto simp: verify_plan_def step_verify_development_def tracing_run in_turn_Cons rbind_act_Inr labelled_Inr)
  from after_verification [OF v looks_after(2) l] obtain look where
    "pw_log s' = pw_log ?s0 @ [TraceCommand ''run_command'' codesign (deep_verify_args (tg_app_path t)), passed (deep_verify_args (tg_app_path t))] @ look"
    "list_all looks look" .
  with Development that [of "[TraceAction ''verify_signing_strategy'' (tg_id t) (kind_name (sp_kind plan)),
      TraceCommand ''run_command'' codesign (deep_verify_args (tg_app_path t))]" look] show thesis by simp
qed

text \<open>The command that seals the whole bundle.\<close>

fun seals :: "plan_kind \<Rightarrow> target \<Rightarrow> pw_event \<Rightarrow> bool" where
  "seals Standard t e \<longleftrightarrow> (\<exists>identity ent_file. e = passed (runtime_entitlements_args identity ent_file (tg_app_path t)))"
| "seals Development t e \<longleftrightarrow> (\<exists>name plan. e = Executed name (reseal_args t plan) True)"

text \<open>When an action succeeds, an entry of a kind is among those it has added.\<close>

definition leaves :: "(pw_event \<Rightarrow> bool) \<Rightarrow> ('w, 'a) pw_act \<Rightarrow> bool" where
  "leaves Q a \<longleftrightarrow> (\<forall>s x s'. a s = (Inr x, s') \<longrightarrow> (\<exists>es. pw_log s' = pw_log s @ es \<and> list_ex Q es))"

interpretation any_run: patch_events "\<lambda>_. True" False
  by unfold_locales auto

lemma leaves_then:
  assumes "leaves Q a" and "\<And>x. appends pw_log (\<lambda>_. True) (f x)"
  shows "leaves Q (rbind_act a f)"
  unfolding leaves_def
proof (intro allI impI)
  fix s x s'
  assume "rbind_act a f s = (Inr x, s')"
  then obtain y s1 where y: "a s = (Inr y, s1)" "f y s1 = (Inr x, s')" by (auto simp: rbind_act_Inr)
  with assms(1) obtain es where "pw_log s1 = pw_log s @ es" "list_ex Q es" unfolding leaves_def by blast
  moreover obtain fs where "pw_log s' = pw_log s1 @ fs" using appendsE [OF assms(2) y(2)] .
  ultimately show "\<exists>es. pw_log s' = pw_log s @ es \<and> list_ex Q es" by auto
qed

lemma leaves_after:
  assumes "appends pw_log (\<lambda>_. True) a" and "\<And>x. leaves Q (f x)"
  shows "leaves Q (rbind_act a f)"
  unfolding leaves_def
proof (intro allI impI)
  fix s x s'
  assume "rbind_act a f s = (Inr x, s')"
  then obtain y s1 where y: "a s = (Inr y, s1)" "f y s1 = (Inr x, s')" by (auto simp: rbind_act_Inr)
  obtain fs where "pw_log s1 = pw_log s @ fs" using appendsE [OF assms(1) y(1)] .
  moreover from assms(2) y(2) obtain es where "pw_log s' = pw_log s1 @ es" "list_ex Q es"
    unfolding leaves_def by blast
  ultimately show "\<exists>es. pw_log s' = pw_log s @ es \<and> list_ex Q es" by auto
qed

lemma leaves_labelled: "leaves Q a \<Longrightarrow> leaves Q (labelled what a)"
  by (simp add: leaves_def labelled_Inr)

lemma leaves_tracing:
  assumes "leaves Q a"
  shows "leaves Q (tracing e a)"
  unfolding leaves_def tracing_run
proof (intro allI impI)
  fix s x s'
  assume "a (s\<lparr>pw_log := pw_log s @ [e]\<rparr>) = (Inr x, s')"
  with assms obtain es where "pw_log s' = pw_log (s\<lparr>pw_log := pw_log s @ [e]\<rparr>) @ es" "list_ex Q es"
    unfolding leaves_def by blast
  then show "\<exists>es. pw_log s' = pw_log s @ es \<and> list_ex Q es" by (intro exI [of _ "e # es"]) simp
qed

lemma leaves_run: "Q (Executed name args True) \<Longrightarrow> leaves Q (runner_run env False name args)"
  unfolding leaves_def by (auto dest!: runner_run_Inr)

lemma leaves_first: "leaves Q a \<Longrightarrow> appends pw_log (\<lambda>_. True) (in_turn as) \<Longrightarrow> leaves Q (in_turn (a # as))"
  unfolding in_turn_Cons by (rule leaves_then)

lemma leaves_later: "appends pw_log (\<lambda>_. True) a \<Longrightarrow> leaves Q (in_turn as) \<Longrightarrow> leaves Q (in_turn (a # as))"
  unfolding in_turn_Cons by (rule leaves_after)

lemma resign_leaves: "leaves (seals Standard t) (step_resign env False t ent_file)"
proof -
  have outer: "leaves (seals Standard t) (resign_outer env False what identity ent_file (tg_app_path t))" for what identity
    unfolding resign_outer_def by (intro leaves_labelled leaves_run) (auto simp: passed_def)
  have nested: "appends pw_log (\<lambda>_. True) (step_resign_nested env False t identity ent_file)" for identity
    unfolding step_resign_nested_def resign_nested_path_def sign_one_nested_def resolve_nested_args_def
    by (intro any_run.basics any_run.nested_paths_ok any_run.augmented_ok TrueI)
  show ?thesis
    unfolding step_resign_def
    by (intro leaves_after leaves_tracing leaves_later leaves_first outer nested)
       (auto simp: resign_outer_def intro!: any_run.basics any_run.identity_ok)
qed

lemma reseal_leaves: "leaves (seals Development t) (reseal env False t plan)"
proof (cases plan)
  case None
  then show ?thesis by (simp add: leaves_def reseal_def fail_act_def return_act_def)
next
  case (Some p)
  have "leaves (seals Development t) (labelled what (runner_run env False (dp_rcodesign p) (reseal_args t p)))" for what
    by (intro leaves_labelled leaves_run) auto
  then show ?thesis unfolding reseal_def Some option.case
    by (intro leaves_first) (auto intro!: any_run.basics)
qed

lemma seal_leaves: "leaves (seals (sp_kind plan) t) (seal_plan env False t plan)"
proof (cases "sp_kind plan")
  case Standard
  have "leaves (seals Standard t) (rbind_act (labelled ''re-sign'' (step_resign env False t (sp_entitlements plan)))
      (\<lambda>_. on_world (\<lambda>w. (Inr (), pe_unquarantine env (tg_app_path t) w))))"
    by (intro leaves_then leaves_labelled resign_leaves appends_on_world)
  with Standard show ?thesis by (simp add: seal_plan_def leaves_tracing)
next
  case Development
  then show ?thesis by (simp add: seal_plan_def leaves_tracing leaves_labelled reseal_leaves)
qed

section \<open>The record\<close>

text \<open>
  The hooks before the launch policy is written may change the target, but not where the app
  is (\<open>codexclishim\<close>, the one that is registered, changes the launch policy).
\<close>

definition hooks_keep_path :: "'w pw_env \<Rightarrow> bool" where
  "hooks_keep_path env \<longleftrightarrow> (\<forall>(n, h)\<in>set (pe_pre_launch env). \<forall>opts t w.
     tg_app_path (fst (snd (h opts (t, w)))) = tg_app_path t)"

lemma pre_launch_path:
  assumes "hooks_keep_path env" "pre_launch_hooks env opts cs t s = (Inr t', s')"
  shows "tg_app_path t' = tg_app_path t"
  using assms(2)
proof (induction cs arbitrary: t s)
  case Nil
  then show ?case by (simp add: return_act_def)
next
  case (Cons c cs)
  then obtain t1 s1 where h: "pre_launch_hook env opts c t s = (Inr t1, s1)"
    and rest: "pre_launch_hooks env opts cs t1 s1 = (Inr t', s')"
    by (auto simp: rbind_act_Inr labelled_Inr)
  from h obtain hk e where hk: "map_of (map (\<lambda>(n, h). (n, h opts)) (pe_pre_launch env)) c = Some hk"
    and t1: "t1 = fst (snd (hk (t, (pw_os s, pw_ext s))))"
    by (auto simp: pre_launch_hook_def on_world_def run_hook_def Let_def split: prod.splits option.splits)
  from hk obtain h0 where "(c, h0) \<in> set (pe_pre_launch env)" "hk = h0 opts"
    by (auto dest!: map_of_SomeD)
  with assms(1) t1 have "tg_app_path t1 = tg_app_path t" unfolding hooks_keep_path_def by fastforce
  with Cons.IH [OF rest] show ?case by simp
qed

lemma prepare_signing_Inr:
  assumes "hooks_keep_path env" "prepare_signing env opts dry plan t s = (Inr (t', plan'), s')"
  shows "sp_kind plan' = sp_kind plan" "tg_app_path t' = tg_app_path t"
proof -
  have std: "sp_kind plan' = Standard \<and> tg_app_path t' = tg_app_path t"
    if "prepare_standard env opts dry t s0 = (Inr (t', plan'), s')" for s0
  proof -
    from that obtain stage made s1 where
      "(if made then then_remove stage (rbind_act (standard_steps env opts dry t stage)
           (\<lambda>(t', ent_file). return_act (Inr (t', (fresh_plan Standard)\<lparr>sp_entitlements := ent_file\<rparr>))))
        else rbind_act (standard_steps env opts dry t stage)
           (\<lambda>(t', ent_file). return_act (Inr (t', (fresh_plan Standard)\<lparr>sp_entitlements := ent_file\<rparr>)))) s1
       = (Inr (t', plan'), s')"
      by (auto simp: prepare_standard_def bind_act_def rbind_act_Inr labelled_Inr Let_def split: prod.splits)
    then obtain u v s2 where "standard_steps env opts dry t stage s1 = (Inr (t', u), s2)"
      "plan' = (fresh_plan Standard)\<lparr>sp_entitlements := u\<rparr>"
      by (auto simp: then_remove_def bind_act_def return_act_def rbind_act_Inr split: if_splits prod.splits)
    then show ?thesis
      by (auto simp: standard_steps_def rbind_act_Inr labelled_Inr return_act_def step_pre_launch_policy_def
          fresh_plan_def dest!: pre_launch_path [OF assms(1)])
  qed
  have "sp_kind plan' = sp_kind plan \<and> tg_app_path t' = tg_app_path t"
    using assms(2) std
    by (auto simp: prepare_signing_def tracing_run prepare_development_def rbind_act_Inr labelled_Inr
        return_act_def fresh_plan_def split: plan_kind.splits)
  then show "sp_kind plan' = sp_kind plan" "tg_app_path t' = tg_app_path t" by simp_all
qed

lemma appends_some:
  assumes "appends lg P a" "a s = (r, s')"
  shows "\<exists>es. lg s' = lg s @ es \<and> list_all P es"
  using appendsE [OF assms] by blast

lemma patch_bundle_steps_Inr:
  assumes "patch_bundle_steps env opts t s = (Inr (t', plan), s')" "\<not> po_dry_run opts" "hooks_keep_path env"
  shows "tg_app_path t' = tg_app_path t"
    "sp_kind plan = Standard \<Longrightarrow> \<exists>es. pw_log s' = pw_log s @ es \<and> list_ex (seals Standard t) es"
proof -
  obtain plan0 s1 where p0: "select_plan t s = (plan0, s1)" by fastforce
  with assms(1,2) obtain s2 s3 where
    p: "prepare_signing env opts False plan0 t s1 = (Inr (t', plan), s2)"
    and m: "run_lifecycle (pe_mutations env) (opts\<lparr>po_close := False, po_override := []\<rparr>) t'
          ''run bundle extension mutations'' s2 = (Inr (), s3)"
    and l: "(if seal_before_finalize plan then seal_plan env False t' plan else nil_act) s3 = (Inr (), s')"
    by (auto simp: patch_bundle_steps_def bind_act_def rbind_act_Inr return_act_def Let_def split: prod.splits)
  show path: "tg_app_path t' = tg_app_path t" using prepare_signing_Inr [OF assms(3) p] by simp
  assume std: "sp_kind plan = Standard"
  obtain e1 e2 e3 where "pw_log s1 = pw_log s @ e1" "pw_log s2 = pw_log s1 @ e2" "pw_log s3 = pw_log s2 @ e3"
    using appends_some [OF any_run.select_ok p0] appends_some [OF any_run.prepare_signing_ok p]
      appends_some [OF appends_on_world m [unfolded run_lifecycle_def]] by blast
  moreover from l std have "seal_plan env False t' plan s3 = (Inr (), s')" by (simp add: seal_before_finalize_def)
  then obtain e4 where "pw_log s' = pw_log s3 @ e4" "list_ex (seals Standard t') e4"
    using seal_leaves [of plan t' env] std unfolding leaves_def by metis
  moreover have "seals Standard t' = seals Standard t" using path by (intro ext) simp
  ultimately show "\<exists>es. pw_log s' = pw_log s @ es \<and> list_ex (seals Standard t) es" by auto
qed

lemma prepare_bundle_Inr:
  assumes "prepare_bundle env opts t s = (Inr prepared, s')" "\<not> po_dry_run opts" "hooks_keep_path env"
  obtains plan where "pb_plan prepared = Some plan"
    "sp_kind plan = Standard \<Longrightarrow> \<exists>es. pw_log s' = pw_log s @ es \<and> list_ex (seals Standard (work_target t opts)) es"
proof -
  let ?work = "work_target t opts"
  from assms(1,2) obtain s1 s2 s3 s4 info dr cap t' plan where
    c: "prepare_checks env opts t ?work s = (Inr (), s1)"
      "load_info_plist env False ?work s1 = (Inr info, s2)"
      "resolve_original_dr env False ?work s2 = (Inr dr, s3)"
      "(if \<not> po_migrate opts then return_act (Inr [])
        else labelled ''keychain capture'' (capture_items env (tg_keychain t))) s3 = (Inr cap, s4)"
    and b: "patch_bundle_steps env opts ?work s4 = (Inr (t', plan), s')" and pl: "pb_plan prepared = Some plan"
    by (auto simp: prepare_bundle_def rbind_act_Inr return_act_def Let_def split: prod.splits)
  have a: "appends pw_log (\<lambda>_. True) (prepare_checks env opts t ?work)"
    "appends pw_log (\<lambda>_. True) (load_info_plist env False ?work)"
    "appends pw_log (\<lambda>_. True) (if \<not> po_migrate opts then return_act (Inr [])
        else labelled ''keychain capture'' (capture_items env (tg_keychain t)))"
    using assms(2) unfolding prepare_checks_def load_info_plist_def Let_def
    by (auto intro!: any_run.basics any_run.preflight_ok any_run.trust_ok any_run.capture_items_ok)
  obtain e where "pw_log s4 = pw_log s @ e"
    using appends_some [OF a(1) c(1)] appends_some [OF a(2) c(2)]
      appends_some [OF any_run.original_dr_ok c(3)] appends_some [OF a(3) c(4)] by auto
  with patch_bundle_steps_Inr(2) [OF b assms(2,3)] pl show thesis by (intro that) auto
qed

lemma finalize_checks_Inr:
  assumes "finalize_checks env opts t plan s = (Inr u, s')" "\<not> po_dry_run opts"
  obtains pre look where
    "pw_log s' = pw_log s @ pre @ [passed (app_verification (sp_kind plan) (tg_app_path t))] @ look"
    "list_all looks look" "sp_kind plan = Development \<Longrightarrow> list_ex (seals Development t) pre"
proof -
  from assms obtain s1 s2 s3 s4 where
    c: "run_lifecycle (pe_post_bundle env) opts t ''run post-bundle hooks'' s = (Inr (), s1)"
      "each_act (run_post_patch env opts t) (post_patch_hook_capabilities (tg_ext t)) s1 = (Inr (), s2)"
      "(if seal_before_finalize plan then nil_act else seal_plan env False t plan) s2 = (Inr (), s3)"
      "run_lifecycle (pe_verifications env) opts t ''verify bundle extensions'' s3 = (Inr (), s4)"
    and v: "verify_plan env False t plan s4 = (Inr (), s')"
    by (auto simp: finalize_checks_def in_turn_Cons in_turn_Nil rbind_act_Inr labelled_Inr return_act_def Let_def nil_act_def)
  have hooks: "appends pw_log (\<lambda>_. True) (run_lifecycle hooks opts t what)"
    "appends pw_log (\<lambda>_. True) (run_post_patch env opts t cap)" for hooks what cap
    unfolding run_lifecycle_def run_post_patch_def by (intro appends_intros)+
  obtain e1 e2 e4 where e: "pw_log s1 = pw_log s @ e1" "pw_log s2 = pw_log s1 @ e2" "pw_log s4 = pw_log s3 @ e4"
    using appends_some [OF hooks(1) c(1)] appends_some [OF appends_each_act [OF hooks(2)] c(2)]
      appends_some [OF hooks(1) c(4)] by blast
  obtain e3 where e3: "pw_log s3 = pw_log s2 @ e3" "sp_kind plan = Development \<Longrightarrow> list_ex (seals Development t) e3"
  proof (cases "sp_kind plan")
    case Standard
    with c(3) that [of "[]"] show thesis by (simp add: seal_before_finalize_def nil_act_def return_act_def)
  next
    case Development
    with c(3) have "seal_plan env False t plan s2 = (Inr (), s3)" by (simp add: seal_before_finalize_def)
    with seal_leaves [of plan t env] Development that show thesis unfolding leaves_def by metis
  qed
  from v obtain a look where
    "pw_log s' = pw_log s4 @ a @ [passed (app_verification (sp_kind plan) (tg_app_path t))] @ look" "list_all looks look"
    by (rule verify_plan_Inr)
  with e e3 show thesis by (intro that [of "e1 @ e2 @ e3 @ e4 @ a" look]) auto
qed

lemma write_state_log:
  "appends pw_log (\<lambda>e. e = TraceAction ''write_patch_state'' (tg_id t) (tg_app_path t)) (step_write_state env dry t v dr)"
  unfolding step_write_state_def by (intro appends_intros) simp

lemma keychain_log: "appends pw_log uses_keychain (restore_keychain_access env opts t items)"
proof -
  have "appends pw_log uses_keychain (regrant_items env app items)" for app items
    by (induction items) (auto simp: run_security_def intro!: appends_intros)
  then show ?thesis unfolding restore_keychain_access_def by (intro appends_intros)
qed

lemma patch_app_cases:
  assumes "patch_app env t opts s = (r, s')" "\<not> po_dry_run opts"
  obtains (kept) "pw_log s' = pw_log s" "r \<noteq> Inr Patched"
  | (ran) q s1 where "patch_body env opts t s1 = (q, s')" "pw_log s1 = pw_log s" "r = Inr Patched \<Longrightarrow> q = Inr ()"
proof -
  have world: "pw_log s2 = pw_log s1" if "on_world f s1 = (x, s2)" for f :: "_ \<Rightarrow> 'x \<times> _" and s1 s2 x
    using that by (auto simp: on_world_def split: prod.splits)
  obtain m where m: "mutate_bundle (on_world (pe_running env)) (on_world (pe_ensure_closed env)) (tg_id t)
         (if po_close opts then PolicyClose else PolicyDefer) False (as_error (patch_body env opts t)) s = (m, s')"
    and r: "r = Inr Patched \<Longrightarrow> m = None"
    using assms by (auto simp: patch_app_def bind_act_def return_act_def split: prod.splits option.splits sum.splits guard_error.splits)
  have body: thesis if "as_error (patch_body env opts t) s1 = (e, s')" "m = map_option Inr e" "pw_log s1 = pw_log s" for s1 e
    using that ran r by (auto simp: as_error_def split: prod.splits sum.splits)
  show thesis
  proof (cases "po_close opts")
    case True
    obtain e s1 where c: "on_world (pe_ensure_closed env) s = (e, s1)" by fastforce
    show thesis
    proof (cases e)
      case None
      with m c True obtain e' where "as_error (patch_body env opts t) s1 = (e', s')" "m = map_option Inr e'"
        by (auto simp: mutate_bundle_def Let_def split: prod.splits)
      with body world [OF c] show thesis by blast
    next
      case (Some x)
      with m c True world [OF c] r show thesis by (intro kept) (auto simp: mutate_bundle_def)
    qed
  next
    case False
    obtain live s1 where c: "on_world (pe_running env) s = (live, s1)" by fastforce
    show thesis
    proof (cases live)
      case True
      with m c False world [OF c] r show thesis by (intro kept) (auto simp: mutate_bundle_def)
    next
      case live: False
      with m c False obtain e' where "as_error (patch_body env opts t) s1 = (e', s')" "m = map_option Inr e'"
        by (auto simp: mutate_bundle_def Let_def split: prod.splits)
      with body world [OF c] show thesis by blast
    qed
  qed
qed

definition unrecorded :: "pw_event list \<Rightarrow> bool" where
  "unrecorded es \<longleftrightarrow> list_all (\<lambda>e. \<not> records_patch e) es"

lemma patch_body_cases:
  assumes "patch_body env opts t s = (q, s')" "\<not> po_dry_run opts" "hooks_keep_path env" "po_final opts = []"
  obtains (stopped) es where "pw_log s' = pw_log s @ es" "unrecorded es" "q \<noteq> Inr ()"
  | (written) k pre look post where
      "pw_log s' = pw_log s @ pre @ [passed (app_verification k (tg_app_path (final_target t opts)))] @ look @
         [TraceAction ''write_patch_state'' (tg_id t) (tg_app_path (final_target t opts))] @ post"
      "list_ex (seals k (final_target t opts)) pre" "list_all looks look" "list_all uses_keychain post"
proof -
  let ?t = "final_target t opts"
  have dry: "po_dry_run opts = False" using assms(2) by simp
  obtain p s1 where p: "prepare_bundle env opts t s = (p, s1)" by fastforce
  from appendsE [OF real_run.prepare_ok [OF dry] p]
  obtain e1 where e1: "pw_log s1 = pw_log s @ e1" "unrecorded e1" unfolding unrecorded_def .
  show thesis
  proof (cases p)
    case (Inl x)
    with assms(1) p e1 show thesis by (intro stopped [of e1]) (auto simp: patch_body_def rbind_act_def bind_act_def)
  next
    case prepared: (Inr pb)
    obtain plan where plan: "pb_plan pb = Some plan"
      and std: "sp_kind plan = Standard \<Longrightarrow> \<exists>es. pw_log s1 = pw_log s @ es \<and> list_ex (seals Standard (work_target t opts)) es"
      by (rule prepare_bundle_Inr [OF p [unfolded prepared] assms(2,3)]) blast
    have wt: "work_target t opts = ?t" using assms(4) by (simp add: work_target_def final_target_def)
    obtain c s2 where c: "finalize_checks env opts ?t plan s1 = (c, s2)" by fastforce
    from appendsE [OF real_run.finalize_checks_ok [OF dry] c]
    obtain e2 where e2: "pw_log s2 = pw_log s1 @ e2" "unrecorded e2" unfolding unrecorded_def .
    have fin: "finalize_bundle env opts pb ?t s1 = (q, s')"
      using assms(1) p prepared by (simp add: patch_body_def rbind_act_def bind_act_def)
    show thesis
    proof (cases c)
      case (Inl x)
      with fin c plan e1 e2 show thesis
        by (intro stopped [of "e1 @ e2"]) (auto simp: finalize_bundle_def rbind_act_def bind_act_def unrecorded_def)
    next
      case (Inr u)
      obtain pre look where
        v: "pw_log s2 = pw_log s1 @ pre @ [passed (app_verification (sp_kind plan) (tg_app_path ?t))] @ look"
        "list_all looks look" and dev: "sp_kind plan = Development \<Longrightarrow> list_ex (seals Development ?t) pre"
        by (rule finalize_checks_Inr [OF c [unfolded Inr] assms(2)]) blast
      obtain w s3 where w: "labelled ''write state'' (step_write_state env False ?t (pb_version pb) (pb_dr pb)) s2 = (w, s3)"
        by fastforce
      have log3: "pw_log s3 = pw_log s2 @ [TraceAction ''write_patch_state'' (tg_id t) (tg_app_path ?t)]"
        using w by (auto simp: labelled_def step_write_state_def tracing_run bind_act_def return_act_def on_files_def
            on_world_def final_target_def split: prod.splits option.splits if_splits)
      obtain post where post: "pw_log s' = pw_log s3 @ post" "list_all uses_keychain post"
      proof (cases w)
        case (Inl x)
        with fin c Inr plan w dry that [of "[]"] show thesis
          by (auto simp: finalize_bundle_def rbind_act_def bind_act_def)
      next
        case wr: (Inr y)
        obtain s4 where k: "restore_keychain_access env opts ?t (pb_captured pb) s3 = ((), s4)"
          by (cases "restore_keychain_access env opts ?t (pb_captured pb) s3") auto
        with fin c Inr plan w wr dry have "s' = s4"
          by (auto simp: finalize_bundle_def rbind_act_def bind_act_def nil_act_def return_act_def)
        with appendsE [OF keychain_log k] that show thesis by blast
      qed
      have sealed: "list_ex (seals (sp_kind plan) ?t) (e1 @ pre)"
        using std dev e1(1) wt by (cases "sp_kind plan") auto
      from written [of "e1 @ pre" "sp_kind plan" look post] show thesis
        using e1(1) v post log3 sealed by simp
    qed
  qed
qed

text \<open>C1.
  A patch is recorded only for a bundle that was sealed and then verified: in every run of the
  patch, whatever the external programs, the hooks and the file system do, when the record is
  written (or the patch reports success) the trace has a successful seal of the app, later a
  successful \<open>codesign --verify\<close> of the app, and between that and the record nothing but commands
  that look at the bundle; after the record only the keychain is touched.
\<close>
theorem patch_records_verified:
  assumes "patch_app env t opts s = (r, s')" "\<not> po_dry_run opts" "po_final opts = []"
    and "hooks_keep_path env" "pw_log s = []"
    and "r = Inr Patched \<or> list_ex records_patch (pw_log s')"
  shows "\<exists>k pre look post.
    pw_log s' = pre @ [passed (app_verification k (tg_app_path (final_target t opts)))] @ look @
      [TraceAction ''write_patch_state'' (tg_id t) (tg_app_path (final_target t opts))] @ post \<and>
    list_ex (seals k (final_target t opts)) pre \<and> list_all looks look \<and> list_all uses_keychain post"
  using assms(1,2)
proof (cases rule: patch_app_cases)
  case kept
  with assms(5,6) show ?thesis by simp
next
  case (ran q s1)
  from ran(1) assms(2,4,3) show ?thesis
  proof (cases rule: patch_body_cases)
    case (stopped es)
    with ran assms(5,6) show ?thesis by (auto simp: unrecorded_def list_ex_iff list_all_iff)
  next
    case (written k pre look post)
    with ran(2) assms(5) show ?thesis by (intro exI [of _ k] exI [of _ pre] exI [of _ look] exI [of _ post]) simp
  qed
qed

text \<open>A run of the development strategy, small enough to be evaluated.\<close>

text \<open>No run below removes a path, but the evaluator wants an equation for every constant.\<close>

lemma has_entry_code [code]: "has_entry fs q = Code.abort (STR ''has_entry'') (\<lambda>_. has_entry fs q)"
  by simp

definition demo_patch_target :: target where
  "demo_patch_target = demo_target\<lparr>tg_id := ''a'', tg_app_path := ''/'', tg_exec_name := ''x'',
     tg_devsign := \<lparr>ds_enabled = True, ds_profile_path = ''/'', ds_p12_path = ''/'', ds_p12_password_file = ''/'',
       ds_injector_path = [], ds_proxy_injection = False, ds_auto_generate = False\<rparr>\<rparr>"

definition demo_patch_os :: os where
  "demo_patch_os = \<lparr>os_fs = map_of [([''Contents''], Dir), ([''Contents'', ''Info.plist''], File ''1'')],
     os_faults = [], os_trail = []\<rparr>"

definition demo_xml :: string where
  "demo_xml = ''<plist><dict></dict></plist>''"

definition demo_patch_env :: "unit pw_env" where
  "demo_patch_env = \<lparr>pe_genv = \<lparr>env_home = ''/'', env_xdg_config = [], env_xdg_state = [], env_xdg_cache = []\<rparr>,
     pe_identity = ''me'', pe_team = ''T'',
     pe_exec = (\<lambda>_ _ w. (None, w)),
     pe_output = (\<lambda>name args w. (Inr (if name = ''/usr/bin/security'' then
        ''  1) AAAAAAAAAABBBBBBBBBBCCCCCCCCCCDDDDDDDDDD '' @ [quote] @ ''me'' @ [quote] else demo_xml), w)),
     pe_combined = (\<lambda>_ _ w. ((None, []), w)),
     pe_listing = (\<lambda>_ _. []), pe_glob = (\<lambda>_ _. None), pe_eval_links = (\<lambda>_ _. None),
     pe_plist = (\<lambda>_. Inr \<lparr>pi_executable = ''x'', pi_version = ''1'', pi_identifier = ''i''\<rparr>),
     pe_bundle_plist = (\<lambda>_. Inl []), pe_policy_json = (\<lambda>_. Inr ''{}''), pe_tmp = ''/'', pe_nano = 7,
     pe_temp_dir = ''/tmp/t'', pe_part = [], pe_shim = ''shim'', pe_injector = [], pe_smoke_source = [],
     pe_certificate = (\<lambda>_. Inl []), pe_pre_launch = [], pe_post_patch = [], pe_post_bundle = [],
     pe_mutations = [], pe_verifications = [],
     pe_codec = \<lparr>enc = (\<lambda>_. Inr ''s''), dec = (\<lambda>_. Inr [])\<rparr>, pe_state_tmp = [''.local'', ''state'', ''clyde'', ''t''], pe_now = 0,
     pe_discover = (\<lambda>w. (False, w)), pe_generate = (\<lambda>w. w), pe_running = (\<lambda>w. (False, w)),
     pe_ensure_closed = (\<lambda>w. (None, w)), pe_unquarantine = (\<lambda>_ w. w)\<rparr>"

definition demo_patch_sys :: "unit pw_sys" where
  "demo_patch_sys = \<lparr>pw_os = demo_patch_os, pw_ext = (), pw_log = []\<rparr>"

definition demo_options :: patch_options where
  "demo_options = \<lparr>po_dry_run = False, po_migrate = False, po_close = False, po_override = [], po_final = []\<rparr>"

definition demo_patch :: "(guard_error + patch_error, patch_done) result \<times> unit pw_sys" where
  "demo_patch = patch_app demo_patch_env demo_patch_target demo_options demo_patch_sys"

lemma demo_patch_done: "fst demo_patch = Inr Patched"
  by code_simp

lemma patch_records_verified_witness:
  "\<exists>k pre look post. pw_log (snd demo_patch) = pre @ [passed (app_verification k ''/'')] @ look @
      [TraceAction ''write_patch_state'' ''a'' ''/''] @ post \<and>
    list_ex (seals k demo_patch_target) pre \<and> list_all looks look \<and> list_all uses_keychain post"
proof -
  have t: "final_target demo_patch_target demo_options = demo_patch_target" "tg_id demo_patch_target = ''a''"
    "tg_app_path demo_patch_target = ''/''"
    by (simp_all add: final_target_def demo_options_def demo_patch_target_def)
  have h: "\<not> po_dry_run demo_options" "po_final demo_options = []" "hooks_keep_path demo_patch_env"
    "pw_log demo_patch_sys = []"
    by (simp_all add: demo_options_def hooks_keep_path_def demo_patch_env_def demo_patch_sys_def)
  have run: "patch_app demo_patch_env demo_patch_target demo_options demo_patch_sys = (fst demo_patch, snd demo_patch)"
    by (simp add: demo_patch_def)
  show ?thesis using patch_records_verified [OF run h disjI1 [OF demo_patch_done]] unfolding t .
qed

end
