(* ===== verification/Patch_Dry.thy ===== *)
theory Patch_Dry
  imports Patch_Props
begin

text \<open>
  A dry run: it goes through every step of the patch, starts no program but the one that
  prints the designated requirement, and leaves the file tree alone.
\<close>

fun dry_entry :: "pw_event \<Rightarrow> bool" where
  "dry_entry (Executed name args ok) \<longleftrightarrow> name = codesign \<and> (\<exists>p. args = requirement_args p)"
| "dry_entry _ \<longleftrightarrow> True"

interpretation dry_run: patch_events dry_entry True
  by unfold_locales auto

text \<open>
  What the run relies on: a hook that is told it is a dry run leaves the files alone, so does
  \<open>codesign --display\<close>, and so does looking for App Store credentials.
\<close>

definition files_kept :: "('w world \<Rightarrow> 'r \<times> 'w world) \<Rightarrow> bool" where
  "files_kept f \<longleftrightarrow> (\<forall>w. fst (snd (f w)) = fst w)"

definition lifecycle_kept :: "patch_options \<Rightarrow> (patch_options \<Rightarrow> target \<Rightarrow> 'w world hook) gomap \<Rightarrow> bool" where
  "lifecycle_kept opts hooks \<longleftrightarrow> list_all (\<lambda>(n, h). \<forall>t. files_kept (h opts t)) hooks"

lemma files_keptD: "files_kept f \<Longrightarrow> fst (snd (f w)) = fst w"
  by (simp only: files_kept_def)

lemma kept_call: "fst (snd (f w)) = fst w \<Longrightarrow> fst (snd (let (e, w') = f w in (g e, w'))) = fst w"
  by (cases "f w") simp

definition pre_launch_kept :: "patch_options \<Rightarrow> 'w pw_env \<Rightarrow> bool" where
  "pre_launch_kept opts env \<longleftrightarrow>
     list_all (\<lambda>(n, h). \<forall>t. files_kept (\<lambda>w. let (e, t', w') = h opts (t, w) in (e, w'))) (pe_pre_launch env)"

definition dry_world :: "'w pw_env \<Rightarrow> bool" where
  "dry_world env \<longleftrightarrow>
     (\<forall>opts. po_dry_run opts \<longrightarrow>
        lifecycle_kept opts (pe_post_patch env) \<and> lifecycle_kept opts (pe_post_bundle env) \<and>
        lifecycle_kept opts (pe_mutations env) \<and> lifecycle_kept opts (pe_verifications env) \<and>
        pre_launch_kept opts env) \<and>
     (\<forall>p. files_kept (pe_output env codesign (requirement_args p))) \<and> files_kept (pe_discover env)"

lemma keeps_case_list [keeps_intros]:
  "keeps f a \<Longrightarrow> (\<And>x xs. keeps f (b x xs)) \<Longrightarrow> keeps f (case y of [] \<Rightarrow> a | x # xs \<Rightarrow> b x xs)"
  by (cases y) simp_all

lemma keeps_runner_capture_dry [keeps_intros]: "keeps tree_of (runner_capture env True name args)"
  unfolding runner_capture_def by (simp add: keeps_intros)

lemma keeps_missing_assets [keeps_intros]: "keeps tree_of (missing_assets policy)"
proof -
  have "keeps tree_of (missing_of xs)" for xs
    by (induction xs rule: missing_of.induct) (auto intro!: keeps_intros)
  then show ?thesis unfolding missing_assets_def .
qed

lemma keeps_identity_dry [keeps_intros]: "keeps tree_of (resolve_identity env True)"
  unfolding resolve_identity_def by (simp add: keeps_intros)

lemma keeps_install_injector_dry [keeps_intros]: "keeps tree_of (install_injector env True t)"
  unfolding install_injector_def write_injector_policy_def stage_injector_dylib_def sign_injector_def
    verify_injector_def remove_app_local_injector_def set_injector_environment_def plist_buddy_def Let_def if_True
  by (intro keeps_intros)

lemma keeps_collect:
  "(\<And>p r acc. keeps tree_of (f p r acc)) \<Longrightarrow> keeps tree_of (collect_visits f vs acc)"
  by (induction f vs acc rule: collect_visits.induct) (auto intro!: keeps_intros)

lemma keeps_some_file: "keeps tree_of (some_file ps)"
  by (induction ps) (auto intro!: keeps_intros)

lemma keeps_nested_paths [keeps_intros]: "keeps tree_of (nested_code_sign_paths env t)"
  unfolding nested_code_sign_paths_def discover_macho_paths_def macho_sign_path_def is_macho_file_def
    scan_bundles_def scan_visit_def with_signature_def read_entry_def has_runtime_executable_def
    listing_def Let_def not_False_eq_True if_True
  by (intro keeps_intros keeps_collect keeps_some_file)

lemma keeps_resign_dry [keeps_intros]: "keeps tree_of (step_resign env True t ent_file)"
  unfolding step_resign_def step_resign_nested_def resign_nested_path_def sign_one_nested_def
    resolve_nested_args_def resign_outer_def write_augmented_entitlements_def Let_def if_True
    not_True_eq_False simp_thms if_False
  by (intro keeps_intros)

lemma keeps_preserved_dry [keeps_intros]:
  "keeps tree_of (stage_preserved env True t)" "keeps tree_of (step_restore_preserved env True t stage)"
  unfolding stage_preserved_def stage_preserved_path_def step_restore_preserved_def
    restore_preserved_path_def copy_tree_def copy_file_def Let_def if_True
  by (intro keeps_intros)+

text \<open>The hooks.\<close>

lemma run_in_order_kept:
  "\<forall>(n, h)\<in>set hs. files_kept h \<Longrightarrow> files_kept (run_in_order hs)"
proof (induction hs)
  case Nil
  then show ?case by (simp add: files_kept_def)
next
  case (Cons nh hs)
  obtain n h where nh: "nh = (n, h)" by fastforce
  have "files_kept h" "files_kept (run_in_order hs)" using Cons nh by auto
  then have h: "fst (snd (h w)) = fst w" and rest: "fst (snd (run_in_order hs w)) = fst w" for w
    using files_keptD by blast+
  show ?case
    unfolding files_kept_def nh
  proof (intro allI)
    fix w
    show "fst (snd (run_in_order ((n, h) # hs) w)) = fst w"
      using h [of w] rest by (cases "h w") (auto split: option.split)
  qed
qed

lemma map_of_hook: "map_of (map (\<lambda>(n, h). (n, f h)) hooks) n = Some g \<Longrightarrow> \<exists>h. (n, h) \<in> set hooks \<and> g = f h"
  by (auto dest!: map_of_SomeD)

lemma lifecycle_hooks_kept:
  assumes "lifecycle_kept opts hooks"
  shows "files_kept (run_named_hooks (map (\<lambda>(n, h). (n, h opts t)) hooks))"
proof -
  let ?hs = "map (\<lambda>(n, h). (n, h opts t)) hooks"
  have "files_kept (the (map_of ?hs n))" if "n \<in> fst ` set ?hs" for n
  proof -
    from that obtain h where h: "map_of ?hs n = Some h"
      using map_of_eq_None_iff [of ?hs n] by blast
    from map_of_hook [OF h] assms show ?thesis unfolding h by (auto simp: lifecycle_kept_def list_all_iff)
  qed
  then have "\<forall>(n, h)\<in>set (map (\<lambda>n. (n, the (map_of ?hs n))) (sorted_keys ?hs)). files_kept h"
    by (auto simp: image_image)
  from run_in_order_kept [OF this] show ?thesis by (simp add: run_named_hooks_def [abs_def])
qed

lemma keeps_lifecycle:
  assumes "lifecycle_kept opts hooks"
  shows "keeps tree_of (run_lifecycle hooks opts t what)"
  unfolding run_lifecycle_def
  by (intro keeps_on_world kept_call files_keptD lifecycle_hooks_kept assms)

lemma keeps_post_patch:
  assumes "lifecycle_kept opts (pe_post_patch env)"
  shows "keeps tree_of (run_post_patch env opts t cap)"
  unfolding run_post_patch_def
proof (intro keeps_on_world kept_call)
  fix w
  show "fst (snd (run_hook (map (\<lambda>(n, h). (n, h opts t)) (pe_post_patch env)) cap w)) = fst w"
  proof (cases "map_of (map (\<lambda>(n, h). (n, h opts t)) (pe_post_patch env)) cap")
    case None
    then show ?thesis by (simp add: run_hook_def)
  next
    case (Some h)
    from map_of_hook [OF Some] assms have "files_kept h" by (auto simp: lifecycle_kept_def list_all_iff)
    from kept_call [of h w "map_option HandlerFailed", OF files_keptD [OF this]] Some show ?thesis by (simp add: run_hook_def)
  qed
qed

lemma keeps_pre_launch:
  assumes "dry_world env" "po_dry_run opts"
  shows "keeps tree_of (pre_launch_hooks env opts cs t)"
proof (induction cs arbitrary: t)
  case Nil
  show ?case by (simp add: keeps_intros)
next
  case (Cons c cs)
  have "keeps tree_of (pre_launch_hook env opts c t)"
    unfolding pre_launch_hook_def
  proof (rule keeps_on_world)
    fix w
    show "fst (snd (let (e, t', w') = run_hook (map (\<lambda>(n, h). (n, h opts)) (pe_pre_launch env)) c (t, w)
        in (case e of None \<Rightarrow> Inr t' | Some x \<Rightarrow> Inl (HookFailed x), w'))) = fst w"
    proof (cases "map_of (map (\<lambda>(n, h). (n, h opts)) (pe_pre_launch env)) c")
      case None
      then show ?thesis by (simp add: run_hook_def)
    next
      case (Some h)
      from map_of_hook [OF Some] obtain h0 where "(c, h0) \<in> set (pe_pre_launch env)" and h: "h = h0 opts" by blast
      with assms have "files_kept (\<lambda>w. let (e, t', w') = h (t, w) in (e, w'))"
        unfolding dry_world_def pre_launch_kept_def list_all_iff h by blast
      from files_keptD [OF this, of w] have "fst (snd (snd (h (t, w)))) = fst w"
        by (cases "h (t, w)") auto
      with Some show ?thesis by (cases "h (t, w)") (auto simp: run_hook_def)
    qed
  qed
  with Cons.IH show ?case by (auto intro!: keeps_intros)
qed

section \<open>The halves of the patch\<close>

lemma keeps_rbind_Inr:
  assumes "keeps f a" "\<And>x s s'. a s = (Inr x, s') \<Longrightarrow> keeps f (g x)"
  shows "keeps f (rbind_act a g)"
  unfolding keeps_def
proof (intro allI)
  fix s
  obtain r s1 where a: "a s = (r, s1)" by fastforce
  have one: "f s1 = f s" using keepsD [OF assms(1) a] .
  show "f (snd (rbind_act a g s)) = f s"
  proof (cases r)
    case (Inl e)
    with a one show ?thesis by (simp add: rbind_act_def bind_act_def)
  next
    case (Inr x)
    have "f (snd (g x s1)) = f s1" using assms(2) [OF a [unfolded Inr]] by (simp add: keeps_def)
    with a Inr one show ?thesis by (simp add: rbind_act_def bind_act_def)
  qed
qed

lemma keeps_standard_dry:
  assumes "dry_world env" "po_dry_run opts"
  shows "keeps tree_of (prepare_standard env opts True t)"
proof -
  have staged: "\<not> snd x" if "labelled what (stage_preserved env True t) s = (Inr x, s')" for x s s' what
    using that by (auto simp: labelled_Inr stage_preserved_def return_act_def rbind_act_Inr Let_def split: if_splits)
  have steps: "keeps tree_of (standard_steps env opts True t stage)" for stage
    unfolding standard_steps_def step_extract_entitlements_def write_augmented_entitlements_def
      step_move_to_real_def step_pre_launch_policy_def step_install_shim_def step_embed_profile_def
      maybe_apply_proxy_injection_def apply_proxy_injection_def Let_def if_True
    by (intro keeps_intros keeps_pre_launch [OF assms])
  have rest: "keeps tree_of (case x of (stage, made) \<Rightarrow>
       let steps = rbind_act (standard_steps env opts True t stage)
             (\<lambda>(t', ent_file). return_act (Inr (t', (fresh_plan Standard)\<lparr>sp_entitlements := ent_file\<rparr>)))
       in if made then then_remove stage steps else steps)" if "\<not> snd x" for x :: "string \<times> bool"
    using that by (cases x) (auto intro!: keeps_intros steps)
  show ?thesis
    unfolding prepare_standard_def note_fallback_def
    by (intro keeps_bind keeps_rbind_Inr rest; (rule keeps_intros | erule staged)+)
qed

lemma keeps_prepare_signing_dry:
  assumes "dry_world env" "po_dry_run opts"
  shows "keeps tree_of (prepare_signing env opts True plan t)"
  unfolding prepare_signing_def prepare_development_def apply_nested_mutations_def
    write_development_entitlements_def Let_def if_True
  by (intro keeps_intros keeps_standard_dry assms)

lemma keeps_seal_dry: "keeps tree_of (seal_plan env True t plan)"
  unfolding seal_plan_def reseal_def if_True by (intro keeps_intros)

lemma keeps_original_dr:
  assumes "dry_world env"
  shows "keeps tree_of (resolve_original_dr env True t)"
proof -
  have "fst (snd (pe_output env codesign (requirement_args p) w)) = fst w" for p w
    using assms by (intro files_keptD) (simp add: dry_world_def)
  then have "keeps tree_of (capture_requirement env src)" for src
    unfolding capture_requirement_def designated_requirement_def by (intro keeps_intros)
  then show ?thesis
    unfolding resolve_original_dr_def real_binary_exists_def Let_def if_True by (intro keeps_intros)
qed

lemma keeps_preflight:
  assumes "dry_world env"
  shows "keeps tree_of (preflight_warn env True t)"
proof -
  have "fst (snd (pe_discover env w)) = fst w" for w using assms by (intro files_keptD) (simp add: dry_world_def)
  then show ?thesis
    unfolding preflight_warn_def Let_def not_True_eq_False simp_thms if_False by (intro keeps_intros)
qed

lemma keeps_body_dry:
  assumes "dry_world env" "po_dry_run opts"
  shows "keeps tree_of (patch_body env opts t)"
proof -
  have dry: "po_dry_run opts = True" using assms(2) by simp
  have kept: "lifecycle_kept opts (pe_post_patch env)" "lifecycle_kept opts (pe_post_bundle env)"
    "lifecycle_kept (opts\<lparr>po_close := False, po_override := []\<rparr>) (pe_mutations env)"
    "lifecycle_kept opts (pe_verifications env)"
    using assms by (auto simp: dry_world_def)
  have "keeps tree_of (prepare_bundle env opts t)"
    unfolding prepare_bundle_def prepare_checks_def load_info_plist_def patch_bundle_steps_def select_plan_def
      Let_def dry if_True simp_thms
    by (intro keeps_intros keeps_preflight keeps_original_dr keeps_prepare_signing_dry keeps_seal_dry
        keeps_lifecycle kept assms)
  moreover have "keeps tree_of (finalize_bundle env opts prepared u)" for prepared u
    unfolding finalize_bundle_def finalize_checks_def verify_plan_def step_verify_def step_verify_development_def
      step_write_state_def restore_keychain_access_def Let_def dry if_True simp_thms
    by (intro keeps_intros keeps_seal_dry keeps_lifecycle keeps_post_patch kept)
  ultimately show ?thesis unfolding patch_body_def by (intro keeps_intros)
qed

text \<open>C8.
  A dry run of the patch is one: it starts no program but the one that prints the designated
  requirement, and the file tree is the same afterwards and was never changed in between,
  whichever files cannot be read; the hooks and that program are relied on not to change files.
\<close>
theorem patch_dry_run_inert:
  assumes "dry_world env" "po_dry_run opts" "patch_app env t opts s = (r, s')"
  shows "tree_of s' = tree_of s \<and> (\<exists>es. pw_log s' = pw_log s @ es \<and> list_all dry_entry es)"
proof
  obtain q where q: "patch_body env opts t s = (q, s')"
    using assms(2,3) by (auto simp: patch_app_def bind_act_def return_act_def mutate_bundle_def as_error_def Let_def
        split: prod.splits if_splits)
  show "tree_of s' = tree_of s" using keepsD [OF keeps_body_dry [OF assms(1,2)] q] .
  have dry: "po_dry_run opts = True" using assms(2) by simp
  have "appends pw_log dry_entry (finalize_bundle env opts prepared u)" for prepared u
    unfolding finalize_bundle_def step_write_state_def restore_keychain_access_def dry
    by (intro appends_intros dry_run.finalize_checks_ok dry) simp_all
  then have "appends pw_log dry_entry (patch_body env opts t)"
    unfolding patch_body_def by (intro appends_intros dry_run.prepare_ok dry)
  from appendsE [OF this q] show "\<exists>es. pw_log s' = pw_log s @ es \<and> list_all dry_entry es" by blast
qed

lemma patch_dry_run_inert_witness:
  "tree_of (snd (patch_app demo_patch_env demo_patch_target (demo_options\<lparr>po_dry_run := True\<rparr>) demo_patch_sys)) =
     tree_of demo_patch_sys \<and>
   (\<exists>es. pw_log (snd (patch_app demo_patch_env demo_patch_target (demo_options\<lparr>po_dry_run := True\<rparr>) demo_patch_sys)) =
     [] @ es \<and> list_all dry_entry es)"
proof -
  have w: "dry_world demo_patch_env"
    by (simp add: dry_world_def lifecycle_kept_def pre_launch_kept_def files_kept_def demo_patch_env_def)
  have l: "pw_log demo_patch_sys = []" by (simp add: demo_patch_sys_def)
  show ?thesis
    using patch_dry_run_inert [OF w _ prod.collapse [symmetric], of "demo_options\<lparr>po_dry_run := True\<rparr>" demo_patch_target demo_patch_sys]
    unfolding l by simp
qed

end
