(* ===== verification/Vendor_Binary.thy ===== *)
theory Vendor_Binary
  imports Patch_Props
begin

text \<open>
  Where the vendor's executable is while the standard strategy moves it aside and writes the
  shim in its place, whatever calls on files fail.
\<close>

section \<open>Paths in a bundle\<close>

lemma split_on_proper: "list_all proper_elem es \<Longrightarrow> es \<noteq> [] \<Longrightarrow> split_on slash (join [slash] es) = es"
  by (rule split_on_join) (auto simp: list_all_iff proper_elem_def)

lemma join_abs: "is_abs a \<Longrightarrow> es \<noteq> [] \<Longrightarrow> join [slash] (a # es) = a @ slash # join [slash] es"
  by (cases es) simp_all

lemma components_join:
  assumes "is_abs a" "list_all proper_elem es"
  shows "path_components (go_join (a # es)) = path_components a @ es" "is_abs (go_join (a # es))"
    "go_clean (go_join (a # es)) = go_join (a # es)"
proof -
  have a: "a \<noteq> []" using assms(1) by (auto simp: is_abs_def)
  have c: "clean (join [slash] (a # es)) = (True, path_components a @ es)"
  proof (cases "es = []")
    case True
    with assms(1) show ?thesis by (simp add: path_components_def clean_def)
  next
    case False
    with assms show ?thesis
      by (simp add: join_abs clean_join_rooted split_on_proper clean_elems_proper path_components_def)
  qed
  have j: "go_join (a # es) = go_clean (join [slash] (a # es))" using a by (simp add: go_join_def)
  show "path_components (go_join (a # es)) = path_components a @ es"
    unfolding j path_components_clean by (simp add: path_components_def c)
  show "is_abs (go_join (a # es))"
    unfolding j go_clean_def c by (simp add: is_abs_def)
  show "go_clean (go_join (a # es)) = go_join (a # es)" unfolding j by simp
qed

definition macos_path :: "target \<Rightarrow> fpath" where
  "macos_path t = path_components (tg_app_path t) @ [''Contents'', ''MacOS'']"

definition resources_path :: "target \<Rightarrow> fpath" where
  "resources_path t = path_components (tg_app_path t) @ [''Contents'', ''Resources'']"

text \<open>An absolute app path, and an executable name that is one path component with its suffixes.\<close>

definition plain_names :: "target \<Rightarrow> bool" where
  "plain_names t \<longleftrightarrow> is_abs (tg_app_path t) \<and> proper_elem (tg_exec_name t) \<and>
     ''..'' \<notin> set (path_components (tg_app_path t))"

lemma proper_suffix: "proper_elem x \<Longrightarrow> slash \<notin> set y \<Longrightarrow> 2 \<le> length y \<Longrightarrow> proper_elem (x @ y)"
proof -
  assume a: "proper_elem x" "slash \<notin> set y" "2 \<le> length y"
  then have "x \<noteq> []" by (simp add: proper_elem_def)
  with a(3) have "3 \<le> length (x @ y)" by (cases x) auto
  then have ne: "x @ y \<noteq> z" if "length z < 3" for z using that by auto
  have "x @ y \<noteq> []" "x @ y \<noteq> ''.''" "x @ y \<noteq> ''..''" by (rule ne, simp)+
  with a show ?thesis by (simp add: proper_elem_def)
qed

lemma proper_literals: "proper_elem ''Contents''" "proper_elem ''MacOS''" "proper_elem ''Resources''"
  by (simp_all add: proper_elem_def slash_def)

lemma bundle_components:
  assumes "plain_names t"
  shows "path_components (main_binary t) = macos_path t @ [tg_exec_name t]"
    "path_components (real_binary t) = macos_path t @ [tg_exec_name t @ ''.real'']"
    "path_components (launch_policy_path (tg_app_path t) (tg_exec_name t)) =
       resources_path t @ [tg_exec_name t @ ''.launch-policy.json'']"
    "path_components (go_dir (launch_policy_path (tg_app_path t) (tg_exec_name t))) = resources_path t"
proof -
  have abs: "is_abs (tg_app_path t)" and x: "proper_elem (tg_exec_name t)" using assms by (auto simp: plain_names_def)
  have m: "is_abs (macos_dir (tg_app_path t))" "path_components (macos_dir (tg_app_path t)) = macos_path t"
    "is_abs (resources_dir (tg_app_path t))" "path_components (resources_dir (tg_app_path t)) = resources_path t"
    using components_join [OF abs, of "[''Contents'', ''MacOS'']"] components_join [OF abs, of "[''Contents'', ''Resources'']"]
    by (simp_all add: macos_dir_def resources_dir_def macos_path_def resources_path_def proper_literals)
  have s: "proper_elem (tg_exec_name t @ ''.real'')" "proper_elem (tg_exec_name t @ ''.launch-policy.json'')"
    using x by (auto intro!: proper_suffix simp: slash_def)
  show "path_components (main_binary t) = macos_path t @ [tg_exec_name t]"
    "path_components (real_binary t) = macos_path t @ [tg_exec_name t @ ''.real'']"
    "path_components (launch_policy_path (tg_app_path t) (tg_exec_name t)) =
       resources_path t @ [tg_exec_name t @ ''.launch-policy.json'']"
    using components_join(1) [OF m(1)] components_join(1) [OF m(3)] x s m
    by (simp_all add: main_binary_path_def real_binary_path_def launch_policy_path_def)
  have "launch_policy_path (tg_app_path t) (tg_exec_name t) =
      go_join (resources_dir (tg_app_path t) # [tg_exec_name t @ ''.launch-policy.json''])"
    by (simp add: launch_policy_path_def)
  with components_join [OF m(3), of "[tg_exec_name t @ ''.launch-policy.json'']"] s(2) m(4)
  show "path_components (go_dir (launch_policy_path (tg_app_path t) (tg_exec_name t))) = resources_path t"
    by (intro go_dir_components [where y = "tg_exec_name t @ ''.launch-policy.json''"]) simp_all
qed

section \<open>What the calls change\<close>

text \<open>From one state to the other a property holds at every moment, relative to the start.\<close>

definition throughout :: "(filesys \<Rightarrow> bool) \<Rightarrow> os \<Rightarrow> os \<Rightarrow> bool" where
  "throughout Q w w' \<longleftrightarrow> (\<exists>new. os_trail w' = new @ os_trail w \<and> (\<forall>fs\<in>set (os_fs w' # new). Q fs))"

lemma throughout_same: "os_fs w' = os_fs w \<Longrightarrow> os_trail w' = os_trail w \<Longrightarrow> Q (os_fs w) \<Longrightarrow> throughout Q w w'"
  by (simp add: throughout_def)

lemma throughout_put: "throughout Q w w' \<Longrightarrow> Q fs \<Longrightarrow> throughout Q w (os_put fs w')"
  unfolding throughout_def by auto

lemma throughout_trans: "throughout Q u v \<Longrightarrow> throughout Q v w \<Longrightarrow> throughout Q u w"
proof -
  assume a: "throughout Q u v" and b: "throughout Q v w"
  from a obtain x where "os_trail v = x @ os_trail u" "\<forall>fs\<in>set (os_fs v # x). Q fs" unfolding throughout_def by blast
  moreover from b obtain y where "os_trail w = y @ os_trail v" "\<forall>fs\<in>set (os_fs w # y). Q fs" unfolding throughout_def by blast
  ultimately show ?thesis unfolding throughout_def by (intro exI [of _ "y @ x"]) auto
qed

lemma throughout_last: "throughout Q w w' \<Longrightarrow> Q (os_fs w')"
  by (auto simp: throughout_def)

lemma throughout_mono: "throughout Q w w' \<Longrightarrow> (\<And>fs. Q fs \<Longrightarrow> R fs) \<Longrightarrow> throughout R w w'"
  unfolding throughout_def by auto

lemma next_fault_same: "next_fault w = (f, w1) \<Longrightarrow> os_fs w1 = os_fs w \<and> os_trail w1 = os_trail w"
  by (auto simp: next_fault_def split: list.splits)

text \<open>A write along a path without links changes that path and nothing else.\<close>

lemma copy_to_at_only:
  assumes "confined rc (os_fs w)" "along rc p" "copy_to_at p data part w = (r, w')"
  shows "throughout (\<lambda>fs. \<forall>q. q \<noteq> p \<longrightarrow> fs q = os_fs w q) w w'" (is "throughout ?Q w w'")
    and "r = None \<Longrightarrow> os_fs w' p = Some (File data)"
proof -
  obtain f w1 where f: "next_fault w = (f, w1)" by fastforce
  note s1 = next_fault_same [OF f]
  have t1: "throughout ?Q w w1" using s1 by (intro throughout_same) auto
  have "throughout ?Q w w' \<and> (r = None \<longrightarrow> os_fs w' p = Some (File data))"
  proof (cases "f = NoFault \<and> (\<exists>q. resolve True p (os_fs w1) = Inr q \<and> \<not> is_dir (os_fs w1) q)")
    case True
    then obtain q where q: "f = NoFault" "resolve True p (os_fs w1) = Inr q" "\<not> is_dir (os_fs w1) q" by blast
    have p: "q = p" using resolve_plain [OF _ assms(2) q(2)] assms(1) s1 by simp
    define w2 where "w2 = os_put ((os_fs w1)(p \<mapsto> File [])) w1"
    obtain g w3 where g: "next_fault w2 = (g, w3)" by fastforce
    note s3 = next_fault_same [OF g]
    have "throughout ?Q w w2" unfolding w2_def using t1 s1 by (intro throughout_put) auto
    then have t3: "throughout ?Q w w3" using s3 by (auto simp: throughout_def)
    have "throughout ?Q w (os_put ((os_fs w3)(p \<mapsto> File d)) w3)" for d
      using t3 throughout_last [OF t3] by (intro throughout_put) auto
    moreover have "\<exists>d. w' = os_put ((os_fs w3)(p \<mapsto> File d)) w3 \<and> (r = None \<longrightarrow> d = data)"
      using assms(3) f q p g unfolding copy_to_at_def Let_def w2_def by (cases g) auto
    ultimately show ?thesis by auto
  qed (use assms(3) f t1 in \<open>auto simp: copy_to_at_def split: fault.splits sum.splits if_splits\<close>)
  then show "throughout ?Q w w'" "r = None \<Longrightarrow> os_fs w' p = Some (File data)" by simp_all
qed

lemma write_file_at_only:
  assumes "confined rc (os_fs w)" "along rc p" "write_file_at p data part w = (r, w')"
  shows "throughout (\<lambda>fs. \<forall>q. q \<noteq> p \<longrightarrow> fs q = os_fs w q) w w'" (is "throughout ?Q w w'")
    and "r = None \<Longrightarrow> os_fs w' p = Some (File data)"
proof -
  obtain e w1 where c: "copy_to_at p data part w = (e, w1)" by fastforce
  obtain f w2 where f: "next_fault w1 = (f, w2)" by fastforce
  have w': "(w' = w1 \<and> r \<noteq> None) \<or> (w' = w2 \<and> e = None)"
    using assms(3) c f by (cases e; cases f) (auto simp: write_file_at_def)
  note t1 = copy_to_at_only [OF assms(1,2) c]
  have "throughout ?Q w w2" using t1(1) next_fault_same [OF f] by (auto simp: throughout_def)
  with t1(1) w' show "throughout ?Q w w'" by auto
  assume "r = None"
  with w' t1(2) next_fault_same [OF f] show "os_fs w' p = Some (File data)" by auto
qed

text \<open>A rename along such paths either changes nothing or moves a file.\<close>

lemma rename_at_file:
  assumes "confined rc (os_fs w)" "along rc a" "along rc b" "os_fs w a = Some (File v)" "rename_at a b w = (r, w')"
  obtains (failed) "r \<noteq> None" "os_fs w' = os_fs w" "os_trail w' = os_trail w"
  | (moved) "r = None" "os_fs w' = move_tree a b (os_fs w)" "os_trail w' = os_fs w' # os_trail w" "\<not> prefix a b"
proof -
  obtain f w1 where f: "next_fault w = (f, w1)" by fastforce
  note s = next_fault_same [OF f]
  have pa: "resolve False a (os_fs w) = Inr q \<Longrightarrow> q = a" for q by (rule resolve_plain [OF assms(1,2)])
  have pb: "resolve False b (os_fs w) = Inr q \<Longrightarrow> q = b" for q by (rule resolve_plain [OF assms(1,3)])
  show thesis
    using assms(4,5) f s pa pb failed moved
    by (auto simp: rename_at_def with_path_def split: fault.splits sum.splits option.splits if_splits)
qed

lemma file_call_run:
  assumes "file_call what f s = (r, s')"
  obtains x where "f (pw_os s) = (x, pw_os s')" "r = (case x of Some e \<Rightarrow> Inl (OsFailed what e) | None \<Rightarrow> Inr ())"
  using assms by (auto simp: file_call_def on_files_def on_world_def bind_act_def return_act_def split: prod.splits)

lemma stat_path_run:
  assumes "stat_path p s = (r, s')"
  shows "stat_at (path_components p) (pw_os s) = (r, pw_os s')"
  using assms by (auto simp: stat_path_def on_files_def on_world_def split: prod.splits)

lemma stat_at_same: "stat_at p w = (r, w') \<Longrightarrow> os_fs w' = os_fs w \<and> os_trail w' = os_trail w"
  using reads_only_stat_at [of p] unfolding reads_only_def by (metis snd_conv)

text \<open>A file that is there is found, unless the call fails.\<close>

lemma walk_reaches:
  assumes "confined rc fs" "along rc (cur @ cs)" "fs (cur @ cs) \<noteq> None"
    "\<And>c d. c \<noteq> [] \<Longrightarrow> d \<noteq> [] \<Longrightarrow> cs = c @ d \<Longrightarrow> fs (cur @ c) = Some Dir" "cs \<noteq> []"
  shows "walk n fs follow cur cs = Inr (cur @ cs)"
  using assms
proof (induction cs arbitrary: cur)
  case (Cons c cs)
  have up: "c \<noteq> ''..''" using Cons.prems(2) by (auto simp: along_def)
  have al: "along rc (cur @ [c])" using along_prefix [OF Cons.prems(2), of "cur @ [c]"] by simp
  have nl: "fs (cur @ [c]) \<noteq> Some (Symlink u)" for u using confined_no_link [OF Cons.prems(1) al] by simp
  show ?case
  proof (cases "cs = []")
    case True
    with Cons.prems(3) up nl show ?thesis by (auto split: option.split fnode.split)
  next
    case False
    have d: "fs (cur @ [c]) = Some Dir" using Cons.prems(4) [of "[c]" cs] False by simp
    have "walk n fs follow (cur @ [c]) cs = Inr ((cur @ [c]) @ cs)"
    proof (rule Cons.IH [OF Cons.prems(1)])
      show "along rc ((cur @ [c]) @ cs)" "fs ((cur @ [c]) @ cs) \<noteq> None" using Cons.prems(2,3) by simp_all
      show "fs ((cur @ [c]) @ x) = Some Dir" if "x \<noteq> []" "y \<noteq> []" "cs = x @ y" for x y
        using Cons.prems(4) [of "c # x" y] that by simp
    qed (use False in simp)
    with d up show ?thesis by simp
  qed
qed simp

lemma resolve_reaches:
  assumes "confined rc fs" "fs (rc @ [x]) \<noteq> None" "x \<noteq> ''..''"
  shows "resolve follow (rc @ [x]) fs = Inr (rc @ [x])"
proof -
  have "fs c = Some Dir" if "c \<noteq> []" "d \<noteq> []" "rc @ [x] = c @ d" for c d
  proof -
    from that have "prefix c rc" by (cases d rule: rev_cases) auto
    with assms(1) that(1) show ?thesis by (auto simp: confined_def is_dir_def)
  qed
  moreover have "along rc (rc @ [x])" using assms(1,3) by (auto simp: along_def confined_def)
  ultimately show ?thesis
    unfolding resolve_def using walk_reaches [OF assms(1), of "[]" "rc @ [x]"] assms(2) by simp
qed

section \<open>The vendor's executable\<close>

abbreviation main_at :: "target \<Rightarrow> fpath" where "main_at t \<equiv> macos_path t @ [tg_exec_name t]"
abbreviation real_at :: "target \<Rightarrow> fpath" where "real_at t \<equiv> macos_path t @ [tg_exec_name t @ ''.real'']"

definition vendor_there :: "string \<Rightarrow> target \<Rightarrow> filesys \<Rightarrow> bool" where
  "vendor_there v t fs \<longleftrightarrow> fs (main_at t) = Some (File v) \<or> fs (real_at t) = Some (File v)"

text \<open>The two directories the steps write to are directories without symbolic links.\<close>

definition plain_bundle :: "target \<Rightarrow> filesys \<Rightarrow> bool" where
  "plain_bundle t fs \<longleftrightarrow> confined (macos_path t) fs \<and> confined (resources_path t) fs"

lemma exec_no_up: "plain_names t \<Longrightarrow> tg_exec_name t \<noteq> ''..'' \<and> tg_exec_name t @ ''.real'' \<noteq> ''..''"
  using proper_suffix [of "tg_exec_name t" "''.real''"] by (auto simp: plain_names_def proper_elem_def slash_def)

lemma along_macos: "plain_names t \<Longrightarrow> along (macos_path t) (main_at t) \<and> along (macos_path t) (real_at t)"
  using exec_no_up [of t] by (auto simp: along_def plain_names_def macos_path_def)

lemma plain_bundle_change:
  assumes "plain_bundle t fs" "\<And>q. q \<noteq> main_at t \<Longrightarrow> q \<noteq> real_at t \<Longrightarrow> \<not> prefix (main_at t) q \<Longrightarrow> \<not> prefix (real_at t) q \<Longrightarrow> fs' q = fs q"
    and "\<And>q u. prefix (main_at t) q \<or> prefix (real_at t) q \<Longrightarrow> fs' q \<noteq> Some (Symlink u)"
  shows "plain_bundle t fs'"
proof -
  have apart: "fs' q = fs q" if "prefix q (macos_path t) \<or> prefix q (resources_path t) \<or> prefix (resources_path t) q" for q
  proof (rule assms(2))
    have "\<not> prefix (macos_path t @ [x]) q" for x
    proof
      assume p: "prefix (macos_path t @ [x]) q"
      have l: "length (macos_path t) = length (resources_path t)" by (simp add: macos_path_def resources_path_def)
      from that p have "prefix (resources_path t) q"
        using prefix_length_le [OF p] l by (auto dest: prefix_length_le)
      moreover have "prefix (macos_path t) q" using p by (rule append_prefixD)
      ultimately have "macos_path t = resources_path t" using l by (metis order_refl prefix_length_prefix prefix_order.antisym)
      then show False by (simp add: macos_path_def resources_path_def)
    qed
    then show "\<not> prefix (main_at t) q" "\<not> prefix (real_at t) q" "q \<noteq> main_at t" "q \<noteq> real_at t" by auto
  qed
  have dirs: "is_dir fs' q \<longleftrightarrow> is_dir fs q" if "prefix q (macos_path t) \<or> prefix q (resources_path t)" for q
    using apart [of q] that by (auto simp: is_dir_def)
  have links: "fs' q \<noteq> Some (Symlink u)" if "prefix (macos_path t) q" for q u
  proof (cases "prefix (main_at t) q \<or> prefix (real_at t) q")
    case False
    then have "fs' q = fs q" by (intro assms(2)) auto
    moreover have "fs q \<noteq> Some (Symlink u)" using assms(1) that by (simp add: plain_bundle_def confined_def)
    ultimately show ?thesis by simp
  qed (rule assms(3))
  have res: "fs' q \<noteq> Some (Symlink u)" if "prefix (resources_path t) q" for q u
    using assms(1) that apart [of q] by (simp add: plain_bundle_def confined_def)
  show ?thesis
    unfolding plain_bundle_def confined_def
  proof (intro conjI allI impI)
    show "''..'' \<notin> set (macos_path t)" "''..'' \<notin> set (resources_path t)"
      using assms(1) by (simp_all add: plain_bundle_def confined_def)
    show "is_dir fs' q" if "prefix q (macos_path t)" for q
      using that dirs [of q] assms(1) by (simp add: plain_bundle_def confined_def)
    show "is_dir fs' q" if "prefix q (resources_path t)" for q
      using that dirs [of q] assms(1) by (simp add: plain_bundle_def confined_def)
  qed (use links res in auto)
qed

lemma real_not_main: "real_at t \<noteq> main_at t" "\<not> prefix (main_at t) (real_at t)" "\<not> prefix (real_at t) (main_at t)"
  by auto

text \<open>Moving the executable aside: the vendor's file is at one of the two places at every moment.\<close>

lemma move_keeps_vendor:
  assumes "plain_names t" "plain_bundle t (os_fs (pw_os s))"
    and "os_fs (pw_os s) (real_at t) = None \<and> os_fs (pw_os s) (main_at t) = Some (File v) \<or>
         os_fs (pw_os s) (real_at t) = Some (File v) \<and> fst (next_fault (pw_os s)) = NoFault"
    and "step_move_to_real False t s = (r, s')"
  shows "throughout (vendor_there v t) (pw_os s) (pw_os s')" "plain_bundle t (os_fs (pw_os s'))"
    "r = Inr () \<Longrightarrow> os_fs (pw_os s') (real_at t) = Some (File v)"
proof -
  let ?fs = "os_fs (pw_os s)"
  note paths = bundle_components [OF assms(1)]
  have here: "vendor_there v t ?fs" using assms(3) by (auto simp: vendor_there_def)
  obtain x s1 where st: "stat_path (real_binary t) s = (x, s1)" by fastforce
  have stat: "stat_at (real_at t) (pw_os s) = (x, pw_os s1)" using stat_path_run [OF st] paths by simp
  note same = stat_at_same [OF stat]
  have mac: "confined (macos_path t) ?fs" using assms(2) by (simp add: plain_bundle_def)
  have "throughout (vendor_there v t) (pw_os s) (pw_os s') \<and> plain_bundle t (os_fs (pw_os s')) \<and>
     (r = Inr () \<longrightarrow> os_fs (pw_os s') (real_at t) = Some (File v))"
  proof (cases x)
    case (Inr y)
    have "?fs (real_at t) \<noteq> None"
    proof
      assume none: "?fs (real_at t) = None"
      obtain f w1 where f: "next_fault (pw_os s) = (f, w1)" by fastforce
      have "q = real_at t" if "resolve True (real_at t) ?fs = Inr q" for q
        using resolve_plain [OF mac _ that] along_macos [OF assms(1)] by simp
      with stat Inr none f next_fault_same [OF f] show False
        by (auto simp: stat_at_def is_dir_def split: fault.splits sum.splits if_splits)
    qed
    with assms(3) have real: "?fs (real_at t) = Some (File v)" by auto
    have "s' = s1" "r = Inr ()" using assms(4) st Inr
      by (auto simp: step_move_to_real_def bind_act_def nil_act_def return_act_def)
    with same here real assms(2) show ?thesis by (auto intro: throughout_same)
  next
    case (Inl e)
    have fresh: "?fs (real_at t) = None \<and> ?fs (main_at t) = Some (File v)"
    proof (rule ccontr)
      assume "\<not> ?thesis"
      with assms(3) have real: "?fs (real_at t) = Some (File v)" "fst (next_fault (pw_os s)) = NoFault" by auto
      obtain w1 where f: "next_fault (pw_os s) = (NoFault, w1)" using real(2) by (cases "next_fault (pw_os s)") auto
      have "resolve True (real_at t) ?fs = Inr (real_at t)"
        using real(1) exec_no_up [OF assms(1)] by (intro resolve_reaches [OF mac]) auto
      with stat Inl f next_fault_same [OF f] real(1) show False by (auto simp: stat_at_def is_dir_def)
    qed
    have "file_call ''rename'' (rename_at (main_at t) (real_at t)) s1 = (r, s')"
      using assms(4) st Inl paths by (simp add: step_move_to_real_def bind_act_def)
    from file_call_run [OF this] obtain y where
      mv: "rename_at (main_at t) (real_at t) (pw_os s1) = (y, pw_os s')"
      and r: "r = (case y of Some e \<Rightarrow> Inl (OsFailed ''rename'' e) | None \<Rightarrow> Inr ())" by blast
    from same mac fresh have "confined (macos_path t) (os_fs (pw_os s1))" "os_fs (pw_os s1) (main_at t) = Some (File v)" by auto
    from this(1) conjunct1 [OF along_macos [OF assms(1)]] conjunct2 [OF along_macos [OF assms(1)]] this(2) mv show ?thesis
    proof (cases rule: rename_at_file)
      case failed
      with r same here assms(2) show ?thesis by (auto intro: throughout_same)
    next
      case moved
      have real: "os_fs (pw_os s') (real_at t) = Some (File v)"
        using moved(2) same fresh by (simp add: move_tree_def)
      have "plain_bundle t (os_fs (pw_os s'))"
      proof (rule plain_bundle_change [OF assms(2)])
        show "os_fs (pw_os s') q = ?fs q" if "\<not> prefix (main_at t) q" "\<not> prefix (real_at t) q" for q
          using that moved(2) same by (simp add: move_tree_def)
        have "prefix (macos_path t) (main_at t @ u)" for u by (simp add: prefix_def)
        then have "?fs (main_at t @ u) \<noteq> Some (Symlink l)" for u l
          using mac unfolding confined_def by blast
        then show "os_fs (pw_os s') q \<noteq> Some (Symlink u)" if "prefix (main_at t) q \<or> prefix (real_at t) q" for q u
          using that moved(2) same by (auto simp: move_tree_def)
      qed
      moreover have "throughout (vendor_there v t) (pw_os s) (pw_os s')"
        using moved(2,3) same real by (auto simp: throughout_def vendor_there_def)
      ultimately show ?thesis using real by simp
    qed
  qed
  then show "throughout (vendor_there v t) (pw_os s) (pw_os s')" "plain_bundle t (os_fs (pw_os s'))"
    "r = Inr () \<Longrightarrow> os_fs (pw_os s') (real_at t) = Some (File v)" by simp_all
qed

text \<open>Writing the shim and the launch policy.\<close>

lemma inside_throughout:
  "inside rc w w' \<Longrightarrow> throughout (\<lambda>fs. \<forall>q. \<not> prefix rc q \<longrightarrow> fs q = os_fs w q) w w'"
  unfolding inside_def throughout_def by blast

lemma chmod_at_same:
  assumes "chmod_at p w = (r, w')"
  shows "os_fs w' = os_fs w \<and> os_trail w' = os_trail w"
proof -
  obtain f w1 where f: "next_fault w = (f, w1)" by fastforce
  with assms next_fault_same [OF f] show ?thesis
    by (auto simp: chmod_at_def with_path_def split: fault.splits sum.splits if_splits)
qed

lemma not_in_resources: "\<not> prefix (resources_path t) (macos_path t @ u)"
proof
  assume p: "prefix (resources_path t) (macos_path t @ u)"
  have q: "prefix (macos_path t) (macos_path t @ u)" by simp
  have l: "length (resources_path t) = length (macos_path t)" by (simp add: macos_path_def resources_path_def)
  have "resources_path t = macos_path t"
    by (rule prefix_order.antisym [OF prefix_length_prefix [OF p q] prefix_length_prefix [OF q p]]) (simp_all only: l order_refl)
  then show False by (simp add: macos_path_def resources_path_def)
qed

lemma outside_resources: "\<not> prefix (resources_path t) (main_at t)" "\<not> prefix (resources_path t) (real_at t)"
  by (rule not_in_resources)+

lemma main_not_above: "\<not> prefix (main_at t) (resources_path t)"
  by (rule notI) (use not_in_resources in \<open>auto dest: prefix_length_le simp: macos_path_def resources_path_def\<close>)

text \<open>\<open>settled\<close>: the vendor's file is at its place, and the shim's when the step has come that far.\<close>

definition settled :: "string \<Rightarrow> target \<Rightarrow> os \<Rightarrow> os \<Rightarrow> bool" where
  "settled v t w w' \<longleftrightarrow> throughout (\<lambda>fs. fs (real_at t) = Some (File v)) w w' \<and> confined (resources_path t) (os_fs w')"

lemma settled_trans: "settled v t a b \<Longrightarrow> settled v t b c \<Longrightarrow> settled v t a c"
  unfolding settled_def by (blast intro: throughout_trans)

lemma settled_resources:
  assumes "inside (resources_path t) w w'" "settled v t w0 w"
  shows "settled v t w w'" "os_fs w' (main_at t) = os_fs w (main_at t)"
proof -
  have real: "os_fs w (real_at t) = Some (File v)" and conf: "confined (resources_path t) (os_fs w)"
    using assms(2) throughout_last unfolding settled_def by blast+
  have "throughout (\<lambda>fs. fs (real_at t) = Some (File v)) w w'"
    by (rule throughout_mono [OF inside_throughout [OF assms(1)]]) (metis outside_resources(2) real)
  with inside_confined [OF assms(1) conf] show "settled v t w w'" by (simp add: settled_def)
  show "os_fs w' (main_at t) = os_fs w (main_at t)"
    using throughout_last [OF inside_throughout [OF assms(1)]] outside_resources(1) by blast
qed

lemma install_shim_settled:
  assumes "plain_names t" "plain_bundle t (os_fs (pw_os s))" "os_fs (pw_os s) (real_at t) = Some (File v)"
    and "step_install_shim env False t s = (r, s')"
  shows "settled v t (pw_os s) (pw_os s')" "r = Inr () \<Longrightarrow> os_fs (pw_os s') (main_at t) = Some (File (pe_shim env))"
proof -
  let ?fs = "os_fs (pw_os s)"
  note paths = bundle_components [OF assms(1)]
  have start: "settled v t (pw_os s) (pw_os s)"
    using assms(2,3) by (simp add: settled_def plain_bundle_def throughout_same)
  have mac: "confined (macos_path t) ?fs" using assms(2) by (simp add: plain_bundle_def)
  have "settled v t (pw_os s) (pw_os s') \<and> (r = Inr () \<longrightarrow> os_fs (pw_os s') (main_at t) = Some (File (pe_shim env)))"
  proof (cases "pe_shim env = []")
    case True
    with assms(4) start show ?thesis by (auto simp: step_install_shim_def fail_act_def return_act_def)
  next
    case False
    obtain r1 s1 where w1: "write_path env ''write shim'' (main_binary t) (pe_shim env) s = (r1, s1)" by fastforce
    from file_call_run [OF this [unfolded write_path_def]] obtain x1 where
      x1: "write_file_at (main_at t) (pe_shim env) (pe_part env) (pw_os s) = (x1, pw_os s1)"
      and r1: "r1 = (case x1 of Some e \<Rightarrow> Inl (OsFailed ''write shim'' e) | None \<Rightarrow> Inr ())" using paths by metis
    note only = write_file_at_only [OF mac conjunct1 [OF along_macos [OF assms(1)]] x1]
    have set1: "settled v t (pw_os s) (pw_os s1)"
    proof -
      have t: "throughout (\<lambda>fs. fs (real_at t) = Some (File v)) (pw_os s) (pw_os s1)"
        by (rule throughout_mono [OF only(1)]) (use assms(3) in auto)
      have "os_fs (pw_os s1) q = ?fs q" if "prefix q (resources_path t) \<or> prefix (resources_path t) q" for q
      proof -
        have "q \<noteq> main_at t" using that main_not_above outside_resources(1) by blast
        with throughout_last [OF only(1)] show ?thesis by blast
      qed
      then have "confined (resources_path t) (os_fs (pw_os s1))"
        using assms(2) unfolding plain_bundle_def confined_def is_dir_def by metis
      with t show ?thesis by (simp add: settled_def)
    qed
    show ?thesis
    proof (cases r1)
      case (Inl e)
      with assms(4) False w1 set1 show ?thesis
        by (auto simp: step_install_shim_def in_turn_Cons rbind_act_def bind_act_def Let_def)
    next
      case (Inr u)
      then have shim: "os_fs (pw_os s1) (main_at t) = Some (File (pe_shim env))"
        using only(2) r1 by (auto split: option.splits)
      obtain r2 s2 where w2: "file_call ''chmod shim'' (chmod_at (path_components (main_binary t))) s1 = (r2, s2)" by fastforce
      from file_call_run [OF this] obtain x2 where x2: "chmod_at (path_components (main_binary t)) (pw_os s1) = (x2, pw_os s2)" by blast
      have set2: "settled v t (pw_os s) (pw_os s2)" "os_fs (pw_os s2) (main_at t) = Some (File (pe_shim env))"
        using chmod_at_same [OF x2] set1 shim by (auto simp: settled_def throughout_def)
      let ?rest = "case pe_policy_json env (tg_launch t) of
          Inl e \<Rightarrow> fail_act (Within ''encode launch policy'' (Plain e))
        | Inr json \<Rightarrow> in_turn
            [mkdir_path ''create launch policy dir'' (go_dir (launch_policy_path (tg_app_path t) (tg_exec_name t))),
             write_path env ''write launch policy'' (launch_policy_path (tg_app_path t) (tg_exec_name t)) json]"
      have run: "(case r2 of Inl e \<Rightarrow> (Inl e, s2) | Inr u \<Rightarrow> ?rest s2) = (r, s')"
        using assms(4) False w1 Inr w2
        by (auto simp: step_install_shim_def in_turn_Cons in_turn_Nil nil_act_def return_act_def rbind_act_def
            bind_act_def Let_def split: sum.splits prod.splits)
      show ?thesis
      proof (cases "\<exists>u json. r2 = Inr u \<and> pe_policy_json env (tg_launch t) = Inr json")
        case False
        then have "s' = s2" using run by (auto simp: fail_act_def return_act_def split: sum.splits)
        with set2 show ?thesis by simp
      next
        case True
        then obtain json where json: "pe_policy_json env (tg_launch t) = Inr json" and r2: "r2 = Inr ()" by auto
        obtain r3 s3 where w3: "mkdir_path ''create launch policy dir'' (go_dir (launch_policy_path (tg_app_path t) (tg_exec_name t))) s2 = (r3, s3)"
          by fastforce
        from file_call_run [OF this [unfolded mkdir_path_def]] obtain x3 where
          x3: "mkdir_all_at (rev (resources_path t)) (pw_os s2) = (x3, pw_os s3)" using paths by metis
        have up: "''..'' \<notin> set (resources_path t)" using assms(2) by (simp add: plain_bundle_def confined_def)
        have "inside (resources_path t) (pw_os s2) (pw_os s3)"
          using mkdir_all_at_inside [OF _ _ x3] set2(1) up by (simp add: settled_def along_def)
        note set3 = settled_resources [OF this set2(1)]
        note s03 = settled_trans [OF set2(1) set3(1)]
        show ?thesis
        proof (cases r3)
          case (Inl e)
          with run r2 json w3 s03 show ?thesis by (auto simp: in_turn_Cons rbind_act_def bind_act_def)
        next
          case (Inr u)
          obtain r4 s4 where w4: "write_path env ''write launch policy'' (launch_policy_path (tg_app_path t) (tg_exec_name t)) json s3 = (r4, s4)"
            by fastforce
          from file_call_run [OF this [unfolded write_path_def]] obtain x4 where
            x4: "write_file_at (resources_path t @ [tg_exec_name t @ ''.launch-policy.json'']) json (pe_part env) (pw_os s3) = (x4, pw_os s4)"
            using paths by metis
          have pe: "proper_elem (tg_exec_name t @ ''.launch-policy.json'')"
            using assms(1) by (auto intro!: proper_suffix simp: slash_def plain_names_def)
          then have "along (resources_path t) (resources_path t @ [tg_exec_name t @ ''.launch-policy.json''])"
            using up by (auto simp: along_def proper_elem_def)
          then have "inside (resources_path t) (pw_os s3) (pw_os s4)"
            using write_file_at_inside [OF _ _ x4] set3(1) by (simp add: settled_def)
          note set4 = settled_resources [OF this s03]
          have "s' = s4" using run r2 json w3 Inr w4
            by (auto simp: in_turn_Cons in_turn_Nil nil_act_def return_act_def rbind_act_def bind_act_def split: sum.splits)
          with settled_trans [OF s03 set4(1)] set4(2) set3(2) set2(2) show ?thesis by simp
        qed
      qed
    qed
  qed
  then show "settled v t (pw_os s) (pw_os s')" "r = Inr () \<Longrightarrow> os_fs (pw_os s') (main_at t) = Some (File (pe_shim env))"
    by simp_all
qed

section \<open>The two steps\<close>

text \<open>The part of the standard strategy that replaces the executable.\<close>

definition replace_executable :: "'w pw_env \<Rightarrow> patch_options \<Rightarrow> target \<Rightarrow> ('w, unit) pw_act" where
  "replace_executable env opts t = rbind_act (step_move_to_real False t) (\<lambda>_.
     rbind_act (step_pre_launch_policy env opts t) (step_install_shim env False))"


text \<open>C29.
  It is lost, and without an error, when a patched bundle is patched again and the look at
  \<open>.real\<close> fails for another reason than that it is not there: the step takes every failure of
  \<open>os.Stat\<close> for a missing file and renames the shim over the vendor's executable.
\<close>
theorem stat_failure_loses_vendor:
  assumes "plain_names t" "plain_bundle t (os_fs (pw_os s))"
    and "os_fs (pw_os s) (real_at t) = Some (File v)" "os_fs (pw_os s) (main_at t) = Some (File shim)"
    and "os_faults (pw_os s) = [Fault k]" "step_move_to_real False t s = (r, s')"
  shows "r = Inr () \<and> os_fs (pw_os s') (real_at t) = Some (File shim) \<and> os_fs (pw_os s') (main_at t) = None"
proof -
  let ?w = "(pw_os s)\<lparr>os_faults := []\<rparr>"
  note paths = bundle_components [OF assms(1)]
  have mac: "confined (macos_path t) (os_fs ?w)" using assms(2) by (simp add: plain_bundle_def)
  have st: "stat_path (real_binary t) s = (Inl EIO, s\<lparr>pw_os := ?w\<rparr>)"
    using assms(5) by (simp add: stat_path_def on_files_def on_world_def stat_at_def next_fault_def)
  have reach: "resolve False (main_at t) (os_fs ?w) = Inr (main_at t)" "resolve False (real_at t) (os_fs ?w) = Inr (real_at t)"
    by (rule resolve_reaches [OF mac]; use assms(3,4) exec_no_up [OF assms(1)] in simp)+
  have "rename_at (main_at t) (real_at t) ?w = (None, os_put (move_tree (main_at t) (real_at t) (os_fs ?w)) ?w)"
    using reach assms(3,4) by (simp add: rename_at_def with_path_def)
  with assms(6) st paths show ?thesis
    using assms(4) by (auto simp: step_move_to_real_def bind_act_def file_call_def on_files_def on_world_def
        return_act_def move_tree_def)
qed

section \<open>An example\<close>

definition shim_target :: target where
  "shim_target = demo_target\<lparr>tg_id := ''a'', tg_app_path := ''/'', tg_exec_name := ''x''\<rparr>"

definition shim_os :: "(fpath \<times> fnode) list \<Rightarrow> fault list \<Rightarrow> os" where
  "shim_os entries faults = \<lparr>os_fs = map_of (entries @ [([''Contents''], Dir), ([''Contents'', ''MacOS''], Dir),
     ([''Contents'', ''Resources''], Dir)]), os_faults = faults, os_trail = []\<rparr>"

lemma shim_paths: "path_components (tg_app_path shim_target) = []"
  by code_simp

lemma shim_names: "plain_names shim_target"
  unfolding plain_names_def shim_paths by (simp add: shim_target_def is_abs_def proper_elem_def slash_def)

lemma shim_plain:
  assumes "list_all (\<lambda>(p, n). \<exists>d. n = File d) entries" "list_all (\<lambda>(p, n). length p = 3) entries"
  shows "plain_bundle shim_target (os_fs (shim_os entries faults))"
proof -
  have r: "macos_path shim_target = [''Contents'', ''MacOS'']" "resources_path shim_target = [''Contents'', ''Resources'']"
    by (simp_all add: macos_path_def resources_path_def shim_paths)
  have l: "os_fs (shim_os entries faults) q \<noteq> Some (Symlink u)" for q u
    using assms(1) by (auto simp: shim_os_def list_all_iff map_add_def split: option.splits dest!: map_of_SomeD)
  have d: "is_dir (os_fs (shim_os entries faults)) q" if "q \<in> {[], [''Contents''], [''Contents'', ''MacOS''], [''Contents'', ''Resources'']}" for q
  proof -
    have "map_of entries q = None" if "length q \<noteq> 3" for q
      using assms(2) that by (auto simp: map_of_eq_None_iff list_all_iff)
    with that show ?thesis by (auto simp: is_dir_def shim_os_def map_add_def)
  qed
  have p: "prefix q [''Contents'', y] \<Longrightarrow> q \<in> {[], [''Contents''], [''Contents'', y]}" for q y
    by (auto simp: prefix_Cons)
  have "is_dir (os_fs (shim_os entries faults)) q" if "prefix q [''Contents'', ''MacOS''] \<or> prefix q [''Contents'', ''Resources'']" for q
    using that d p by blast
  then show "plain_bundle shim_target (os_fs (shim_os entries faults))"
    unfolding plain_bundle_def confined_def r using l by simp
qed

definition fresh_sys :: "unit pw_sys" where
  "fresh_sys = \<lparr>pw_os = shim_os [([''Contents'', ''MacOS'', ''x''], File ''v'')] [], pw_ext = (), pw_log = []\<rparr>"

definition patched_sys :: "unit pw_sys" where
  "patched_sys = \<lparr>pw_os = shim_os [([''Contents'', ''MacOS'', ''x''], File ''shim''),
     ([''Contents'', ''MacOS'', ''x.real''], File ''v'')] [Fault []], pw_ext = (), pw_log = []\<rparr>"

lemma shim_places: "main_at shim_target = [''Contents'', ''MacOS'', ''x'']"
  "real_at shim_target = [''Contents'', ''MacOS'', ''x.real'']"
  by (simp_all add: macos_path_def shim_paths) (simp_all add: shim_target_def)


lemma stat_failure_loses_vendor_witness:
  "os_fs (pw_os (snd (step_move_to_real False shim_target patched_sys))) (real_at shim_target) = Some (File ''shim'')"
proof -
  have p: "plain_bundle shim_target (os_fs (pw_os patched_sys))"
    unfolding patched_sys_def pw_sys.simps by (rule shim_plain) simp_all
  have f: "os_fs (pw_os patched_sys) (real_at shim_target) = Some (File ''v'')"
    "os_fs (pw_os patched_sys) (main_at shim_target) = Some (File ''shim'')"
    "os_faults (pw_os patched_sys) = [Fault []]"
    unfolding shim_places by (simp_all add: patched_sys_def shim_os_def)
  show ?thesis
    using stat_failure_loses_vendor [OF shim_names p f prod.collapse [symmetric]] by blast
qed

end
