(* ===== verification/Signing_Order.thy ===== *)
theory Signing_Order
  imports Patch_Props
begin

text \<open>
  The order in which code is signed: a signature covers what is inside, so nothing may be
  signed before something it contains.
\<close>

section \<open>The order of the paths\<close>

lemma set_unseen: "set (unseen key seen ps) \<subseteq> set ps"
  by (induction key seen ps rule: unseen.induct) auto

lemma distinct_unseen_keys: "distinct (map key (unseen key seen ps)) \<and> key ` set (unseen key seen ps) \<inter> set seen = {}"
  by (induction key seen ps rule: unseen.induct) auto

lemma covered_unseen: "p \<in> set ps \<Longrightarrow> key p \<in> set seen \<or> (\<exists>q\<in>set (unseen key seen ps). key q = key p)"
  by (induction key seen ps rule: unseen.induct) auto

text \<open>What is below a path has more separators.\<close>

definition inside_out :: "string list \<Rightarrow> bool" where
  "inside_out ps \<longleftrightarrow> sorted_wrt (\<lambda>p q. \<not> prefix (p @ ''/'') q) ps"

lemma slash_count_below: "prefix (p @ ''/'') q \<Longrightarrow> slash_count p < slash_count q"
  by (auto simp: slash_count_def prefix_def slash_def)

lemma dedupe_inside_out: "inside_out (dedupe_code_paths links items)"
proof -
  let ?ps = "dedupe_code_paths links items"
  have "sorted (map (\<lambda>p. (- int (slash_count p), p)) ?ps)"
    unfolding dedupe_code_paths_def by (rule sorted_sort_key)
  then have "sorted_wrt (\<lambda>p q. (- int (slash_count p), p) \<le> (- int (slash_count q), q)) ?ps"
    by (simp add: sorted_map)
  then show ?thesis
    unfolding inside_out_def
    by (rule sorted_wrt_mono_rel [rotated]) (auto dest: slash_count_below)
qed

lemma dedupe_distinct: "distinct (dedupe_code_paths links items)"
proof -
  have "distinct (unseen key [] ps)" for key :: "string \<Rightarrow> string" and ps
    using distinct_unseen_keys [of key "[]" ps] by (simp add: distinct_map)
  then show ?thesis by (simp add: dedupe_code_paths_def)
qed

section \<open>What is signed\<close>

fun signed_path :: "pw_event \<Rightarrow> string list" where
  "signed_path (Executed name args True) =
     (if name = codesign \<and> args \<noteq> [] \<and> hd args = ''--force'' then [last args] else [])"
| "signed_path _ = []"

lemma signed_path_other: "x \<noteq> ''--force'' \<or> name \<noteq> codesign \<Longrightarrow> signed_path (Executed name (x # xs) b) = []"
  by (cases b) auto

definition signed_paths :: "pw_event list \<Rightarrow> string list" where
  "signed_paths es = concat (map signed_path es)"

lemma signed_paths_simps [simp]:
  "signed_paths [] = []" "signed_paths (e # es) = signed_path e @ signed_paths es"
  "signed_paths (as @ bs) = signed_paths as @ signed_paths bs"
  by (simp_all add: signed_paths_def)

text \<open>\<open>signs ps a\<close>: when the action succeeds it has signed just these paths, in this order.\<close>

definition signs :: "string list \<Rightarrow> ('w, 'a) pw_act \<Rightarrow> bool" where
  "signs ps a \<longleftrightarrow> (\<forall>s x s'. a s = (Inr x, s') \<longrightarrow> (\<exists>es. pw_log s' = pw_log s @ es \<and> signed_paths es = ps))"

lemma signsE:
  assumes "signs ps a" "a s = (Inr x, s')"
  obtains es where "pw_log s' = pw_log s @ es" "signed_paths es = ps"
  using assms unfolding signs_def by blast

lemma signs_none:
  assumes "appends pw_log (\<lambda>e. signed_path e = []) a"
  shows "signs [] a"
  unfolding signs_def
proof (intro allI impI)
  fix s x s'
  assume "a s = (Inr x, s')"
  with assms obtain es where "pw_log s' = pw_log s @ es" "list_all (\<lambda>e. signed_path e = []) es" by (rule appendsE)
  moreover from this(2) have "signed_paths es = []" by (induction es) simp_all
  ultimately show "\<exists>es. pw_log s' = pw_log s @ es \<and> signed_paths es = []" by blast
qed

lemma signs_rbind:
  assumes "signs ps a" "\<And>x. signs qs (f x)"
  shows "signs (ps @ qs) (rbind_act a f)"
  unfolding signs_def
proof (intro allI impI)
  fix s x s'
  assume "rbind_act a f s = (Inr x, s')"
  then obtain y s1 where y: "a s = (Inr y, s1)" "f y s1 = (Inr x, s')" by (auto simp: rbind_act_Inr)
  from signsE [OF assms(1) y(1)] obtain es where "pw_log s1 = pw_log s @ es" "signed_paths es = ps" .
  moreover from signsE [OF assms(2) y(2)] obtain fs where "pw_log s' = pw_log s1 @ fs" "signed_paths fs = qs" .
  ultimately show "\<exists>es. pw_log s' = pw_log s @ es \<and> signed_paths es = ps @ qs" by auto
qed

lemma signs_labelled: "signs ps a \<Longrightarrow> signs ps (labelled what a)"
  by (simp add: signs_def labelled_Inr)

lemma signs_tracing:
  assumes "signs ps a" "signed_path e = []"
  shows "signs ps (tracing e a)"
  unfolding signs_def tracing_run
proof (intro allI impI)
  fix s x s'
  assume "a (s\<lparr>pw_log := pw_log s @ [e]\<rparr>) = (Inr x, s')"
  from signsE [OF assms(1) this] obtain es where "pw_log s' = (pw_log s @ [e]) @ es" "signed_paths es = ps" by auto
  with assms(2) show "\<exists>es. pw_log s' = pw_log s @ es \<and> signed_paths es = ps" by (intro exI [of _ "e # es"]) simp
qed

lemma signs_run: "signs (signed_path (Executed name args True)) (runner_run env False name args)"
  unfolding signs_def by (auto dest!: runner_run_Inr)

lemma signs_sign: "signs [p] (runner_run env False codesign (''--force'' # args @ [p]))"
  using signs_run [of codesign "''--force'' # args @ [p]"] by simp

lemma nested_args_last:
  "\<exists>as. nested_code_sign_args identity ent_file p = ''--force'' # as @ [p]"
  "\<exists>as. runtime_entitlements_args identity ent_file p = ''--force'' # as @ [p]"
  by (auto simp: nested_code_sign_args_def runtime_entitlements_args_def)

text \<open>One nested object: whatever its entitlements, one signature of its path.\<close>

lemma resolve_args_last:
  assumes "resolve_nested_args env False t identity ent_file p s = (Inr (args, f), s')"
  shows "\<exists>as. args = ''--force'' # as @ [p]"
  using assms nested_args_last
  by (auto simp: resolve_nested_args_def return_act_def rbind_act_Inr split: if_splits)

lemma sign_one_signs: "signs [p] (sign_one_nested env False t identity ent_file p)"
proof -
  let ?tail = "\<lambda>(args, nested_file). bind_act (runner_run env False codesign args) (\<lambda>r.
          bind_act (if nested_file \<noteq> [] \<and> \<not> False
                    then best_effort (file_call ''cleanup'' (remove_at (path_components nested_file))) else nil_act)
            (\<lambda>_. return_act (case r of Inl e \<Rightarrow> Inl (Within ''sign nested code object'' e) | Inr u \<Rightarrow> Inr u)))"
  have quiet: "appends pw_log (\<lambda>e. signed_path e = []) (resolve_nested_args env False t identity ent_file p)"
    unfolding resolve_nested_args_def write_augmented_entitlements_def Let_def
    by (intro appends_intros) (simp_all add: read_entitlements_args_def signed_path_other)
  have "signs [p] (rbind_act (resolve_nested_args env False t identity ent_file p) ?tail)"
    unfolding signs_def
  proof (intro allI impI)
    fix s x s'
    assume "rbind_act (resolve_nested_args env False t identity ent_file p) ?tail s = (Inr x, s')"
    then obtain args f s1 where r: "resolve_nested_args env False t identity ent_file p s = (Inr (args, f), s1)"
      and tl: "?tail (args, f) s1 = (Inr x, s')" by (auto simp: rbind_act_Inr)
    from signsE [OF signs_none [OF quiet] r] obtain es where es: "pw_log s1 = pw_log s @ es" "signed_paths es = []" .
    obtain q s2 where q: "runner_run env False codesign args s1 = (q, s2)" by fastforce
    with tl have inr: "q = Inr ()" and log: "pw_log s' = pw_log s2"
      by (auto simp: bind_act_def return_act_def best_effort_def nil_act_def file_call_def on_files_def on_world_def
          split: sum.splits prod.splits if_splits)
    from runner_run_Inr [OF q [unfolded inr]] have
      "pw_log s2 = pw_log s1 @ [TraceCommand ''run_command'' codesign args, Executed codesign args True]" .
    with es log resolve_args_last [OF r] show "\<exists>es. pw_log s' = pw_log s @ es \<and> signed_paths es = [p]"
      by (intro exI [of _ "es @ [TraceCommand ''run_command'' codesign args, Executed codesign args True]"]) auto
  qed
  then show ?thesis unfolding sign_one_nested_def by (intro signs_tracing) simp_all
qed

lemma resign_path_signs:
  assumes "resign_nested_path env False t identity ent_file p s = (Inr u, s')"
  obtains es where "pw_log s' = pw_log s @ es" "signed_paths es = [p] \<or> signed_paths es = []"
proof -
  from assms obtain b s1 where x: "exists_path ''stat nested code object'' p s = (Inr b, s1)"
    and y: "(if b then sign_one_nested env False t identity ent_file p else nil_act) s1 = (Inr u, s')"
    by (auto simp: resign_nested_path_def rbind_act_Inr)
  from signsE [OF signs_none [OF appends_exists_path] x] obtain es where es: "pw_log s1 = pw_log s @ es" "signed_paths es = []" .
  show thesis
  proof (cases b)
    case True
    with y have "sign_one_nested env False t identity ent_file p s1 = (Inr u, s')" by simp
    from signsE [OF sign_one_signs this] obtain fs where "pw_log s' = pw_log s1 @ fs" "signed_paths fs = [p]" .
    with es that [of "es @ fs"] show thesis by simp
  next
    case False
    with y es that [of es] show thesis by (simp add: nil_act_def return_act_def)
  qed
qed

lemma resign_each_signs:
  "each_act (resign_nested_path env False t identity ent_file) ps s = (Inr u, s') \<Longrightarrow>
     \<exists>es. pw_log s' = pw_log s @ es \<and> subseq (signed_paths es) ps"
proof (induction ps arbitrary: s)
  case Nil
  then show ?case by (auto simp: return_act_def intro!: exI [of _ "[]"])
next
  case (Cons p ps)
  then obtain v s1 where a: "resign_nested_path env False t identity ent_file p s = (Inr v, s1)"
    and b: "each_act (resign_nested_path env False t identity ent_file) ps s1 = (Inr u, s')"
    by (auto simp: rbind_act_Inr)
  from a obtain es where es: "pw_log s1 = pw_log s @ es" "signed_paths es = [p] \<or> signed_paths es = []"
    by (rule resign_path_signs)
  from Cons.IH [OF b] obtain fs where fs: "pw_log s' = pw_log s1 @ fs" "subseq (signed_paths fs) ps" by blast
  from es(2) fs(2) have "subseq (signed_paths (es @ fs)) (p # ps)" by auto
  with es fs show ?case by (intro exI [of _ "es @ fs"]) simp
qed

lemma subseq_keeps: "subseq qs ps \<Longrightarrow> sorted_wrt R ps \<and> distinct ps \<Longrightarrow> sorted_wrt R qs \<and> distinct qs \<and> set qs \<subseteq> set ps"
  by (induction rule: list_emb.induct) auto

lemma nested_paths_quiet: "appends pw_log (\<lambda>e. signed_path e = []) (nested_code_sign_paths env t)"
proof -
  have "appends pw_log (\<lambda>e. signed_path e = []) (scan_bundles env False path)" for path
    unfolding scan_bundles_def scan_visit_def with_signature_def read_entry_def has_runtime_executable_def
      listing_def Let_def
    by (intro appends_intros collect_appends some_file_appends)
       simp
  then show ?thesis
    unfolding nested_code_sign_paths_def discover_macho_paths_def macho_sign_path_def is_macho_file_def
      listing_def Let_def
    by (intro appends_intros collect_appends)
qed

lemma nested_paths_sorted:
  assumes "nested_code_sign_paths env t s = (Inr ps, s')"
  shows "inside_out ps" "distinct ps"
  using assms dedupe_inside_out dedupe_distinct
  by (auto simp: nested_code_sign_paths_def rbind_act_Inr bind_act_def return_act_def on_files_def on_world_def Let_def)

lemma resign_outer_signs: "signs [p] (resign_outer env False what identity ent_file p)"
  unfolding resign_outer_def runtime_entitlements_args_def
  using signs_sign [of p env "[''--sign'', identity, ''--options'', ''runtime'', ''--entitlements'', ent_file]"]
  by (intro signs_labelled) simp


section \<open>An example\<close>

definition nested_target :: target where
  "nested_target = demo_patch_target\<lparr>tg_nested := [''A'', ''A/B'']\<rparr>"

definition nested_sys :: "unit pw_sys" where
  "nested_sys = \<lparr>pw_os = \<lparr>os_fs = map_of [([''A''], Dir), ([''A'', ''B''], File ''b'')], os_faults = [], os_trail = []\<rparr>,
     pw_ext = (), pw_log = []\<rparr>"

definition nested_run :: "(patch_error, unit) result \<times> unit pw_sys" where
  "nested_run = step_resign demo_patch_env False nested_target ''/e'' nested_sys"

lemma nested_run_done: "fst nested_run = Inr ()"
  by code_simp


end
