(* ===== verification/Go_Runes.thy ===== *)
theory Go_Runes
  imports Go_Strings
begin

text \<open>
  Ranging over a Go string by code points: the decoding of UTF-8 as the language defines it
  (a byte that starts no valid sequence counts as one code point, U+FFFD), \<open>unicode.IsDigit\<close>,
  and \<open>strings.Fields\<close>.
\<close>

section \<open>Code points\<close>

definition byte_val :: "char \<Rightarrow> int" where
  "byte_val c = of_char c"

definition continuation :: "char \<Rightarrow> bool" where
  "continuation c \<longleftrightarrow> 128 \<le> byte_val c \<and> byte_val c < 192"

definition tail_bits :: "char \<Rightarrow> int" where
  "tail_bits c = byte_val c - 128"

text \<open>
  The code point a string starts with and how many bytes it takes. The second byte of some
  sequences is restricted further, which rules out overlong forms, surrogates and values
  above U+10FFFF.
\<close>

definition replacement_rune :: int where "replacement_rune = 65533"

definition decode_two :: "char \<Rightarrow> string \<Rightarrow> int \<times> nat" where
  "decode_two a s = (case s of
     b # _ \<Rightarrow> if continuation b then (64 * (byte_val a - 192) + tail_bits b, 2) else (replacement_rune, 1)
   | _ \<Rightarrow> (replacement_rune, 1))"

definition decode_three :: "char \<Rightarrow> string \<Rightarrow> int \<times> nat" where
  "decode_three a s = (case s of
     b # c # _ \<Rightarrow>
       if continuation b \<and> continuation c \<and> (byte_val a = 224 \<longrightarrow> 160 \<le> byte_val b) \<and>
          (byte_val a = 237 \<longrightarrow> byte_val b < 160)
       then (4096 * (byte_val a - 224) + 64 * tail_bits b + tail_bits c, 3) else (replacement_rune, 1)
   | _ \<Rightarrow> (replacement_rune, 1))"

definition decode_four :: "char \<Rightarrow> string \<Rightarrow> int \<times> nat" where
  "decode_four a s = (case s of
     b # c # d # _ \<Rightarrow>
       if continuation b \<and> continuation c \<and> continuation d \<and> (byte_val a = 240 \<longrightarrow> 144 \<le> byte_val b) \<and>
          (byte_val a = 244 \<longrightarrow> byte_val b < 144)
       then (262144 * (byte_val a - 240) + 4096 * tail_bits b + 64 * tail_bits c + tail_bits d, 4)
       else (replacement_rune, 1)
   | _ \<Rightarrow> (replacement_rune, 1))"

definition decode_rune :: "char \<Rightarrow> string \<Rightarrow> int \<times> nat" where
  "decode_rune a s =
     (let v = byte_val a in
      if v < 128 then (v, 1)
      else if 194 \<le> v \<and> v < 224 then decode_two a s
      else if 224 \<le> v \<and> v < 240 then decode_three a s
      else if 240 \<le> v \<and> v < 245 then decode_four a s
      else (replacement_rune, 1))"

function runes :: "string \<Rightarrow> int list" where
  "runes [] = []"
| "runes (a # s) = (let (r, n) = decode_rune a s in r # runes (drop (n - 1) s))"
  by pat_completeness auto
termination
  by (relation "measure length") auto

text \<open>The decimal digits of Unicode: blocks of ten code points, and the mathematical digits.\<close>

definition digit_blocks :: "int list" where
  "digit_blocks =
     [0x30, 0x660, 0x6F0, 0x7C0, 0x966, 0x9E6, 0xA66, 0xAE6, 0xB66, 0xBE6, 0xC66, 0xCE6, 0xD66, 0xDE6,
      0xE50, 0xED0, 0xF20, 0x1040, 0x1090, 0x17E0, 0x1810, 0x1946, 0x19D0, 0x1A80, 0x1A90, 0x1B50,
      0x1BB0, 0x1C40, 0x1C50, 0xA620, 0xA8D0, 0xA900, 0xA9D0, 0xA9F0, 0xAA50, 0xABF0, 0xFF10,
      0x104A0, 0x10D30, 0x11066, 0x110F0, 0x11136, 0x111D0, 0x112F0, 0x11450, 0x114D0, 0x11650,
      0x116C0, 0x11730, 0x118E0, 0x11950, 0x11C50, 0x11D50, 0x11DA0, 0x11F50, 0x16A60, 0x16AC0,
      0x16B50, 0x1D7CE, 0x1D7D8, 0x1D7E2, 0x1D7EC, 0x1D7F6, 0x1E140, 0x1E2F0, 0x1E4F0, 0x1E950, 0x1FBF0]"

definition is_digit_rune :: "int \<Rightarrow> bool" where
  "is_digit_rune r \<longleftrightarrow> list_ex (\<lambda>b. b \<le> r \<and> r < b + 10) digit_blocks"

definition ascii :: "string \<Rightarrow> bool" where
  "ascii s \<longleftrightarrow> list_all (\<lambda>c. byte_val c < 128) s"

lemma runes_ascii: "ascii s \<Longrightarrow> runes s = map byte_val s"
  by (induction s) (simp_all add: ascii_def decode_rune_def Let_def)

lemma is_digit_rune_ascii: "r < 128 \<Longrightarrow> is_digit_rune r \<longleftrightarrow> 48 \<le> r \<and> r < 58"
  by (auto simp: is_digit_rune_def digit_blocks_def)

lemma byte_val_nat: "byte_val c = int (of_char c)"
  by (simp add: byte_val_def of_nat_of_char)

lemma is_digit_byte: "is_digit c \<longleftrightarrow> 48 \<le> byte_val c \<and> byte_val c < 58"
  by (auto simp: is_digit_def byte_val_nat less_eq_char_def)

text \<open>A byte of ASCII is always a code point of its own.\<close>

lemma decode_rune_skips:
  assumes "decode_rune a s = (r, n)"
  shows "list_all continuation (take (n - 1) s)"
proof (cases s)
  case Nil
  then show ?thesis by simp
next
  case (Cons b s1)
  with assms show ?thesis
    by (cases s1; cases "tl s1")
       (auto simp: decode_rune_def decode_two_def decode_three_def decode_four_def Let_def split: if_splits)
qed

lemma ascii_byte_rune: "c \<in> set s \<Longrightarrow> byte_val c < 128 \<Longrightarrow> byte_val c \<in> set (runes s)"
proof (induction s rule: runes.induct)
  case 1
  then show ?case by simp
next
  case (2 a s)
  obtain r n where rn: "decode_rune a s = (r, n)" by fastforce
  show ?case
  proof (cases "c = a")
    case True
    with 2(3) rn show ?thesis by (auto simp: decode_rune_def Let_def)
  next
    case False
    with 2(2) have "c \<in> set (take (n - 1) s) \<or> c \<in> set (drop (n - 1) s)"
      by (metis Un_iff append_take_drop_id set_ConsD set_append)
    moreover have "c \<notin> set (take (n - 1) s)"
      using decode_rune_skips [OF rn] 2(3) by (auto simp: list_all_iff continuation_def)
    ultimately show ?thesis using 2(1) [OF rn [symmetric] refl] 2(3) rn by simp
  qed
qed

section \<open>Fields\<close>

text \<open>\<open>strings.Fields\<close>: the words between runs of white space.\<close>

fun take_word :: "string \<Rightarrow> string \<times> string" where
  "take_word [] = ([], [])"
| "take_word (c # s) =
     (if strip_front go_spaces (c # s) \<noteq> None then ([], c # s)
      else let (w, rest) = take_word s in (c # w, rest))"

lemma take_word_parts: "take_word s = (w, rest) \<Longrightarrow> s = w @ rest"
  by (induction s arbitrary: w rest) (auto split: if_splits prod.splits)

lemma trim_left_suffix: "suffix (trim_left s) s"
  by (simp add: trim_left_def strip_all_suffix)

function go_fields :: "string \<Rightarrow> string list" where
  "go_fields s = (let (w, rest) = take_word (trim_left s) in if w = [] then [] else w # go_fields rest)"
  by pat_completeness auto
termination
proof (relation "measure length")
  fix s x w rest
  assume x: "x = take_word (trim_left s)" "(w, rest) = x" "w \<noteq> []"
  from x have "trim_left s = w @ rest" using take_word_parts by metis
  with x(3) suffix_length_le [OF trim_left_suffix, of s] show "(rest, s) \<in> measure length"
    by (cases w) auto
qed simp

declare go_fields.simps [simp del]

end
