(* ===== verification/Codex_Version.thy ===== *)
theory Codex_Version
  imports Go_Runes
begin

text \<open>
  The versions of \<open>internal/codexcli/build_identity.go\<close>: the choice of the latest stable release
  from the tags of the repository, and the identity of one build, whose parts are all in the
  version the built programs report. SHA-256 is an argument.
\<close>

section \<open>Release versions\<close>

datatype rust_version = RustVersion (rv_major: int) (rv_minor: int) (rv_patch: int)

definition rust_older :: "rust_version \<Rightarrow> rust_version \<Rightarrow> bool" where
  "rust_older v u \<longleftrightarrow>
     (if rv_major v \<noteq> rv_major u then rv_major v < rv_major u
      else if rv_minor v \<noteq> rv_minor u then rv_minor v < rv_minor u
      else rv_patch v < rv_patch u)"

instantiation rust_version :: linorder
begin

definition less_rust_version :: "rust_version \<Rightarrow> rust_version \<Rightarrow> bool" where
  "less_rust_version = rust_older"

definition less_eq_rust_version :: "rust_version \<Rightarrow> rust_version \<Rightarrow> bool" where
  "less_eq_rust_version v u \<longleftrightarrow> v = u \<or> v < u"

instance
  by standard
     (auto simp: less_eq_rust_version_def less_rust_version_def rust_older_def rust_version.expand split: if_splits)

end

definition version_text :: "rust_version \<Rightarrow> string" where
  "version_text v = int_str (rv_major v) @ ''.'' @ int_str (rv_minor v) @ ''.'' @ int_str (rv_patch v)"

definition parse_version_part :: "string \<Rightarrow> int option" where
  "parse_version_part s = (if s = [] \<or> \<not> list_all is_digit_rune (runes s) then None else atoi s)"

definition tag_prefix :: string where "tag_prefix = ''refs/tags/rust-v''"

definition parse_stable_rust_tag :: "string \<Rightarrow> rust_version option" where
  "parse_stable_rust_tag ref0 =
     (let ref = trim_suffix ''^{}'' ref0 in
      if \<not> prefix tag_prefix ref then None
      else case split_on (CHR ''.'') (drop (length tag_prefix) ref) of
        [a, b, c] \<Rightarrow> (case (parse_version_part a, parse_version_part b, parse_version_part c) of
            (Some x, Some y, Some z) \<Rightarrow> Some (RustVersion x y z)
          | _ \<Rightarrow> None)
      | _ \<Rightarrow> None)"

definition line_feed :: char where "line_feed = CHR 0x0A"

definition tag_of_line :: "string \<Rightarrow> rust_version option" where
  "tag_of_line line = (case go_fields line of _ # ref # _ \<Rightarrow> parse_stable_rust_tag ref | _ \<Rightarrow> None)"

fun latest_of :: "rust_version option \<Rightarrow> string list \<Rightarrow> rust_version option" where
  "latest_of best [] = best"
| "latest_of best (line # lines) =
     (case tag_of_line line of
        None \<Rightarrow> latest_of best lines
      | Some v \<Rightarrow> latest_of (case best of None \<Rightarrow> Some v | Some b \<Rightarrow> if b < v then Some v else Some b) lines)"

definition select_latest_stable :: "string \<Rightarrow> rust_version option" where
  "select_latest_stable output = latest_of None (split_on line_feed output)"

definition stable_tags :: "string \<Rightarrow> rust_version list" where
  "stable_tags output = List.map_filter tag_of_line (split_on line_feed output)"

lemma latest_of_Some:
  "latest_of (Some b) lines = Some (Max (insert b (set (List.map_filter tag_of_line lines))))"
proof (induction lines arbitrary: b)
  case (Cons line lines)
  show ?case
  proof (cases "tag_of_line line")
    case (Some v)
    have "Max (insert b (insert v X)) = Max (insert (max b v) X)" if "finite X" for X
      using that by (cases "X = {}") (simp_all add: Max_insert ac_simps)
    with Some Cons [of v] Cons [of b] show ?thesis
      by (auto simp: map_filter_simps max_def)
  qed (use Cons in \<open>simp add: map_filter_simps\<close>)
qed (simp add: map_filter_simps)

text \<open>
  The release chosen is the greatest version among all well-formed stable tags of the listing,
  in whatever order they are listed; there is none exactly when no line has such a tag.
\<close>
theorem latest_stable_is_max:
  "select_latest_stable output =
     (if stable_tags output = [] then None else Some (Max (set (stable_tags output))))"
proof -
  have "latest_of None lines =
      (case List.map_filter tag_of_line lines of [] \<Rightarrow> None | v # vs \<Rightarrow> Some (Max (set (v # vs))))" for lines
    by (induction lines) (auto simp: map_filter_simps latest_of_Some split: option.splits)
  then show ?thesis by (auto simp: select_latest_stable_def stable_tags_def split: list.splits)
qed

section \<open>The identity of a build\<close>

record build_identity =
  bi_base :: string
  bi_version :: string
  bi_tree_stamp :: string
  bi_head :: string
  bi_tree :: string
  bi_hash :: string

definition short_tree :: "string \<Rightarrow> string" where
  "short_tree tree = (if length tree \<ge> 12 then take 12 tree else tree)"

definition hex_digit :: "nat \<Rightarrow> char" where
  "hex_digit n = ''0123456789abcdef'' ! n"

definition hex_encode :: "string \<Rightarrow> string" where
  "hex_encode s = concat (map (\<lambda>c. [hex_digit (nat (byte_val c div 16)), hex_digit (nat (byte_val c mod 16))]) s)"

definition build_hash :: "(string \<Rightarrow> string) \<Rightarrow> string list \<Rightarrow> string" where
  "build_hash sha256 vs = take 12 (hex_encode (sha256 (concat (map (\<lambda>v. v @ [CHR 0x00]) vs))))"

definition new_build_identity :: "(string \<Rightarrow> string) \<Rightarrow> string \<Rightarrow> string \<Rightarrow> string \<Rightarrow> string \<Rightarrow>
    string \<Rightarrow> string \<Rightarrow> string \<Rightarrow> build_identity" where
  "new_build_identity sha256 base head tree target mode variant command =
     (let stamp = short_tree tree;
          hash = build_hash sha256 [base, head, tree, target, mode, variant, command]
      in \<lparr>bi_base = base,
          bi_version = base @ ''-main.'' @ head @ ''+tree.'' @ stamp @ ''.build.'' @ hash,
          bi_tree_stamp = stamp, bi_head = head, bi_tree = tree, bi_hash = hash\<rparr>)"

text \<open>\<open>strings.Cut\<close> with a separator of several bytes.\<close>

fun cut_at :: "string \<Rightarrow> string \<Rightarrow> (string \<times> string) option" where
  "cut_at sep [] = (if sep = [] then Some ([], []) else None)"
| "cut_at sep (c # s) =
     (if prefix sep (c # s) then Some ([], drop (length sep) (c # s))
      else case cut_at sep s of None \<Rightarrow> None | Some (a, b) \<Rightarrow> Some (c # a, b))"

definition is_stable_semver :: "string \<Rightarrow> bool" where
  "is_stable_semver s =
     (let parts = split_on (CHR ''.'') s in length parts = 3 \<and> list_all (\<lambda>p. parse_version_part p \<noteq> None) parts)"

definition is_lower_hex :: "int \<Rightarrow> bool" where
  "is_lower_hex r \<longleftrightarrow> is_digit_rune r \<or> 97 \<le> r \<and> r \<le> 102"

definition is_hex_identifier :: "string \<Rightarrow> nat \<Rightarrow> bool" where
  "is_hex_identifier s n \<longleftrightarrow> length s = n \<and> list_all is_lower_hex (runes s)"

datatype version_error = NoMain | BadBase | NoTree | BadHead | NoBuild | BadTree | BadHash

definition validate_stamped :: "string \<Rightarrow> version_error option" where
  "validate_stamped v =
     (case cut_at ''-main.'' v of None \<Rightarrow> Some NoMain
      | Some (base, rest) \<Rightarrow>
        if \<not> is_stable_semver base then Some BadBase
        else case cut_at ''+tree.'' rest of None \<Rightarrow> Some NoTree
        | Some (head, metadata) \<Rightarrow>
          if \<not> is_hex_identifier head 12 then Some BadHead
          else case cut_at ''.build.'' metadata of None \<Rightarrow> Some NoBuild
          | Some (tree, hash) \<Rightarrow>
            if \<not> is_hex_identifier tree 12 then Some BadTree
            else if \<not> is_hex_identifier hash 12 then Some BadHash else None)"

section \<open>Which identities are accepted\<close>

lemma cut_at_parts: "cut_at sep s = Some (a, b) \<Longrightarrow> s = a @ sep @ b"
proof (induction s arbitrary: a)
  case Nil
  then show ?case by (auto split: if_splits)
next
  case (Cons c s)
  then show ?case by (auto split: if_splits option.splits simp: prefix_def)
qed

text \<open>A separator is found where it was put when its first byte does not occur before.\<close>

lemma cut_at_first: "x \<notin> set a \<Longrightarrow> cut_at (x # xs) (a @ (x # xs) @ b) = Some (a, b)"
proof (induction a)
  case Nil
  then show ?case by (simp add: prefix_def)
next
  case (Cons c a)
  then have "\<not> prefix (x # xs) ((c # a) @ (x # xs) @ b)" by auto
  with Cons show ?case by simp
qed

lemma hex_runes_no:
  assumes "is_hex_identifier s n" "byte_val c < 128" "\<not> is_lower_hex (byte_val c)"
  shows "c \<notin> set s"
  using assms ascii_byte_rune [of c s] by (auto simp: is_hex_identifier_def list_all_iff)

lemma hex_plain:
  assumes "is_hex_identifier s n"
  shows "CHR ''-'' \<notin> set s" "CHR ''+'' \<notin> set s" "CHR ''.'' \<notin> set s"
  using hex_runes_no [OF assms, of "CHR ''-''"] hex_runes_no [OF assms, of "CHR ''+''"]
    hex_runes_no [OF assms, of "CHR ''.''"]
  by (simp_all add: byte_val_def is_lower_hex_def is_digit_rune_ascii)

lemma split_on_covers: "c \<in> set s \<Longrightarrow> c \<noteq> x \<Longrightarrow> \<exists>p\<in>set (split_on x s). c \<in> set p"
proof (induction s)
  case (Cons d s)
  then show ?case by (cases "split_on x s") auto
qed simp

lemma semver_plain:
  assumes "is_stable_semver s" "byte_val c < 128" "\<not> is_digit_rune (byte_val c)" "c \<noteq> CHR ''.''"
  shows "c \<notin> set s"
proof
  assume "c \<in> set s"
  then obtain p where p: "p \<in> set (split_on (CHR ''.'') s)" "c \<in> set p"
    using split_on_covers assms(4) by blast
  with assms(1) have "list_all is_digit_rune (runes p)"
    by (auto simp: is_stable_semver_def Let_def list_all_iff parse_version_part_def split: if_splits)
  with ascii_byte_rune [OF p(2) assms(2)] assms(3) show False by (simp add: list_all_iff)
qed

lemma semver_marks:
  assumes "is_stable_semver s"
  shows "CHR ''-'' \<notin> set s" "CHR ''+'' \<notin> set s"
  using semver_plain [OF assms, of "CHR ''-''"] semver_plain [OF assms, of "CHR ''+''"]
  by (simp_all add: byte_val_def is_digit_rune_ascii)

lemma byte_val_range: "0 \<le> byte_val c" "byte_val c < 256"
  unfolding byte_val_def by (metis of_char_mod_256 pos_mod_sign pos_mod_bound zero_less_numeral)+

lemma hex_digit_lower:
  assumes "n < 16"
  shows "byte_val (hex_digit n) < 128 \<and> is_lower_hex (byte_val (hex_digit n))"
proof -
  have "\<forall>n\<in>set [0..<16]. byte_val (hex_digit n) < 128 \<and> is_lower_hex (byte_val (hex_digit n))"
    by code_simp
  with assms show ?thesis by simp
qed

lemma byte_nibbles: "nat (byte_val c div 16) < 16" "nat (byte_val c mod 16) < 16"
  using byte_val_range [of c] by linarith+

lemma hex_encode_lower: "c \<in> set (hex_encode s) \<Longrightarrow> byte_val c < 128 \<and> is_lower_hex (byte_val c)"
  using hex_digit_lower byte_nibbles by (auto simp: hex_encode_def)

lemma length_hex_encode: "length (hex_encode s) = 2 * length s"
  by (induction s) (simp_all add: hex_encode_def)

lemma build_hash_hex:
  assumes "\<And>x. length (sha256 x) = 32"
  shows "is_hex_identifier (build_hash sha256 vs) 12"
proof -
  have "ascii (build_hash sha256 vs)" "list_all (\<lambda>c. is_lower_hex (byte_val c)) (build_hash sha256 vs)"
    using hex_encode_lower by (auto simp: build_hash_def ascii_def list_all_iff dest!: in_set_takeD)
  with assms show ?thesis
    by (simp add: is_hex_identifier_def runes_ascii list_all_length)
       (simp add: build_hash_def length_hex_encode)
qed

lemma unique_split: "a @ x # u = a' @ x # u' \<Longrightarrow> x \<notin> set a \<Longrightarrow> x \<notin> set a' \<Longrightarrow> a = a' \<and> u = u'"
proof (induction a arbitrary: a')
  case Nil
  then show ?case by (cases a') auto
next
  case (Cons y a)
  then show ?case by (cases a') auto
qed

text \<open>A version text reads in one way only when one of the readings is well-formed.\<close>

definition stamped_text :: "string \<Rightarrow> string \<Rightarrow> string \<Rightarrow> string \<Rightarrow> string" where
  "stamped_text b h t x = b @ ''-main.'' @ h @ ''+tree.'' @ t @ ''.build.'' @ x"

definition stamp_parts_ok :: "string \<Rightarrow> string \<Rightarrow> string \<Rightarrow> string \<Rightarrow> bool" where
  "stamp_parts_ok b h t x \<longleftrightarrow> is_stable_semver b \<and> is_hex_identifier h 12 \<and> is_hex_identifier t 12 \<and>
     is_hex_identifier x 12"

lemma split_at_mark:
  assumes "a @ x # u = a' @ x # u'" "x \<notin> set a'" "count_list u' x \<le> count_list u x"
  shows "a = a' \<and> u = u'"
proof -
  from arg_cong [OF assms(1), of "\<lambda>s. count_list s x"] have
    "count_list a x + count_list u x = count_list a' x + count_list u' x" by simp
  moreover have "count_list a' x = 0" using assms(2) by simp
  ultimately have "count_list a x = 0" using assms(3) by linarith
  with unique_split [OF assms(1)] assms(2) show ?thesis by (simp add: count_list_0_iff)
qed

lemma separator_marks:
  "CHR ''-'' \<notin> set ''main.''" "CHR ''-'' \<notin> set ''+tree.''" "CHR ''-'' \<notin> set ''.build.''"
  "CHR ''+'' \<notin> set ''tree.''" "CHR ''+'' \<notin> set ''.build.''"
  by simp_all

lemma version_reads_once:
  assumes e: "stamped_text b h t x = stamped_text b' h' t' x'" and ok: "stamp_parts_ok b' h' t' x'"
  shows "b = b' \<and> h = h' \<and> t = t' \<and> x = x'"
proof -
  from ok have ok: "is_stable_semver b'" "is_hex_identifier h' 12" "is_hex_identifier t' 12" "is_hex_identifier x' 12"
    by (simp_all add: stamp_parts_ok_def)
  note no = semver_marks [OF ok(1)] hex_plain [OF ok(2)] hex_plain [OF ok(3)] hex_plain [OF ok(4)]
  let ?u3 = "''build.'' @ x'" and ?u2 = "''tree.'' @ t' @ ''.build.'' @ x'"
  let ?u1 = "''main.'' @ h' @ ''+tree.'' @ t' @ ''.build.'' @ x'"
  have c: "count_list ?u1 (CHR ''-'') = 0" "count_list ?u2 (CHR ''+'') = 0"
    "count_list ?u3 (CHR ''.'') \<le> count_list (''build.'' @ x) (CHR ''.'')"
    using no separator_marks by (simp_all only: count_list_append count_notin add_0 le_add1 add_0_right not_False_eq_True)
  have 1: "b = b' \<and> ''main.'' @ h @ ''+tree.'' @ t @ ''.build.'' @ x = ?u1"
    by (rule split_at_mark [of b "CHR ''-''"])
      (use e c(1) no in \<open>simp_all only: stamped_text_def append_Cons append_Nil le0 not_False_eq_True\<close>)
  then have e1: "h @ ''+tree.'' @ t @ ''.build.'' @ x = h' @ ''+tree.'' @ t' @ ''.build.'' @ x'"
    by (simp only: same_append_eq)
  have 2: "h = h' \<and> ''tree.'' @ t @ ''.build.'' @ x = ?u2"
    by (rule split_at_mark [of h "CHR ''+''"])
      (use e1 c(2) no in \<open>simp_all only: append_Cons append_Nil le0 not_False_eq_True\<close>)
  then have e2: "t @ ''.build.'' @ x = t' @ ''.build.'' @ x'" by (simp only: same_append_eq)
  have "t = t' \<and> ''build.'' @ x = ?u3"
    by (rule split_at_mark [of t "CHR ''.''"])
      (use e2 c(3) no in \<open>simp_all only: append_Cons append_Nil not_False_eq_True\<close>)
  with 1 2 show ?thesis by (simp only: same_append_eq simp_thms)
qed

lemma stamped_text_cuts:
  assumes "stamp_parts_ok b h t x"
  shows "validate_stamped (stamped_text b h t x) = None"
proof -
  from assms have ok: "is_stable_semver b" "is_hex_identifier h 12" "is_hex_identifier t 12" "is_hex_identifier x 12"
    by (simp_all add: stamp_parts_ok_def)
  have c: "cut_at ''-main.'' (stamped_text b h t x) = Some (b, h @ ''+tree.'' @ t @ ''.build.'' @ x)"
    "cut_at ''+tree.'' (h @ ''+tree.'' @ t @ ''.build.'' @ x) = Some (h, t @ ''.build.'' @ x)"
    "cut_at ''.build.'' (t @ ''.build.'' @ x) = Some (t, x)"
    unfolding stamped_text_def
    by (rule cut_at_first, simp add: semver_marks [OF ok(1)] hex_plain [OF ok(2)] hex_plain [OF ok(3)])+
  show ?thesis unfolding validate_stamped_def c option.case prod.case using ok by simp
qed

lemma validate_stampedD:
  assumes "validate_stamped v = None"
  obtains b h t x where "v = stamped_text b h t x" "stamp_parts_ok b h t x"
proof -
  from assms obtain b r h m t x where c: "cut_at ''-main.'' v = Some (b, r)" "cut_at ''+tree.'' r = Some (h, m)"
      "cut_at ''.build.'' m = Some (t, x)" and ok: "stamp_parts_ok b h t x"
    by (auto simp: validate_stamped_def stamp_parts_ok_def split: option.splits if_splits)
  from cut_at_parts [OF c(1)] cut_at_parts [OF c(2)] cut_at_parts [OF c(3)]
  have "v = stamped_text b h t x" unfolding stamped_text_def by (simp only: append_assoc)
  with ok that show thesis by blast
qed

lemma validate_stamped_text: "validate_stamped (stamped_text b h t x) = None \<longleftrightarrow> stamp_parts_ok b h t x"
  using stamped_text_cuts version_reads_once by (metis validate_stampedD)

lemma identity_text:
  "bi_version (new_build_identity sha256 base head tree target mode variant command) =
     stamped_text base head (short_tree tree) (build_hash sha256 [base, head, tree, target, mode, variant, command])"
  unfolding new_build_identity_def stamped_text_def Let_def by (simp only: build_identity.simps)

text \<open>
  A build identity is accepted for stamping exactly when its base is a stable release, its
  head a hexadecimal identifier of twelve bytes and so the beginning of its tree.
\<close>
theorem build_identity_accepted:
  assumes "\<And>x. length (sha256 x) = 32"
  shows "validate_stamped (bi_version (new_build_identity sha256 base head tree target mode variant command)) = None
    \<longleftrightarrow> is_stable_semver base \<and> is_hex_identifier head 12 \<and> is_hex_identifier (short_tree tree) 12"
  unfolding identity_text validate_stamped_text stamp_parts_ok_def using build_hash_hex [OF assms] by simp

lemma build_identity_accepted_witness:
  "validate_stamped (bi_version (new_build_identity (\<lambda>_. replicate 32 (CHR ''a'')) ''0.41.0'' ''0123456789ab''
     ''fedcba98765432100123'' ''t'' ''release'' ''v'' ''codex'')) = None"
proof -
  have "is_stable_semver ''0.41.0'' \<and> is_hex_identifier ''0123456789ab'' 12 \<and>
      is_hex_identifier (short_tree ''fedcba98765432100123'') 12" by code_simp
  then show ?thesis
    using build_identity_accepted [of "\<lambda>_. replicate 32 (CHR ''a'')" "''0.41.0''" "''0123456789ab''"
      "''fedcba98765432100123''" "''t''" "''release''" "''v''" "''codex''"] by simp
qed

text \<open>
  The version of an accepted identity can be read in one way only: two builds that report the
  same version have the same base, head, tree stamp and hash of the build inputs.
\<close>
theorem build_identity_readable:
  assumes "validate_stamped (bi_version (new_build_identity sha base head tree target mode variant command)) = None"
    and "bi_version (new_build_identity sha base head tree target mode variant command) =
         bi_version (new_build_identity sha base' head' tree' target' mode' variant' command')"
  shows "base' = base \<and> head' = head \<and> short_tree tree' = short_tree tree \<and>
    build_hash sha [base', head', tree', target', mode', variant', command'] =
    build_hash sha [base, head, tree, target, mode, variant, command]"
  using assms version_reads_once unfolding identity_text validate_stamped_text by metis

lemma build_identity_readable_witness:
  "short_tree ''fedcba98765432100123'' = short_tree ''fedcba987654aaaaaaaa''"
proof -
  let ?i = "\<lambda>tree. new_build_identity (\<lambda>_. replicate 32 (CHR ''a'')) ''0.41.0'' ''0123456789ab'' tree
    ''t'' ''release'' ''v'' ''codex''"
  have v: "validate_stamped (bi_version (?i ''fedcba987654aaaaaaaa'')) = None"
    and e: "bi_version (?i ''fedcba987654aaaaaaaa'') = bi_version (?i ''fedcba98765432100123'')"
    by code_simp+
  from build_identity_readable [OF v e] show ?thesis by blast
qed

text \<open>
  The check of a hexadecimal identifier lets every decimal digit of Unicode pass: six Arabic
  digits are twelve bytes.
\<close>

lemma hex_identifier_accepts_arabic:
  "is_hex_identifier (concat (replicate 6 [CHR 0xD9, CHR 0xA1])) 12"
  by code_simp

end
