(* ===== verification/Codex_Stamp.thy ===== *)
theory Codex_Stamp
  imports Codex_Version
begin

text \<open>
  Stamping a Cargo manifest with the version of a build
  (\<open>internal/codexcli/build_identity.go\<close>: \<open>stampPackageVersionInTable\<close>, \<open>stampedVersionLine\<close>,
  \<open>isTomlVersionAssignment\<close>), and \<open>readTomlPackageVersion\<close>, which reads the stamp of the previous
  build back. Both work on the lines of the text, not on TOML.
\<close>

section \<open>Lines\<close>

text \<open>\<open>strings.SplitAfter\<close> at one byte: every piece but the last ends in it.\<close>

fun split_after :: "char \<Rightarrow> string \<Rightarrow> string list" where
  "split_after c [] = [[]]"
| "split_after c (x # s) =
     (if x = c then [x] # split_after c s
      else case split_after c s of [] \<Rightarrow> [[x]] | l # ls \<Rightarrow> (x # l) # ls)"

definition carriage_return :: string where "carriage_return = [CHR 0x0D]"

definition line_text :: "string \<Rightarrow> string" where
  "line_text line = trim_space (trim_suffix carriage_return (trim_suffix [line_feed] line))"

definition is_table_line :: "string \<Rightarrow> bool" where
  "is_table_line t \<longleftrightarrow> prefix ''['' t \<and> suffix '']'' t"

definition is_version_assignment :: "string \<Rightarrow> bool" where
  "is_version_assignment t = (case cut (CHR ''='') t of None \<Rightarrow> False
     | Some (left, _) \<Rightarrow> trim_space left \<in> {''version'', ''version.workspace''})"

section \<open>Quoting\<close>

text \<open>
  \<open>strconv.Quote\<close>: quotes, backslashes and the control characters of ASCII are escaped. Text
  outside ASCII is left as it is, which is right for the printable text of a version.
\<close>

definition double_quote :: char where "double_quote = CHR 0x22"
definition backslash :: char where "backslash = CHR 0x5C"

definition quote_char :: "char \<Rightarrow> string" where
  "quote_char c =
     (if c = double_quote \<or> c = backslash then [backslash, c]
      else if c = CHR 0x07 then backslash # ''a'' else if c = CHR 0x08 then backslash # ''b''
      else if c = CHR 0x0C then backslash # ''f'' else if c = line_feed then backslash # ''n''
      else if c = CHR 0x0D then backslash # ''r'' else if c = CHR 0x09 then backslash # ''t''
      else if c = CHR 0x0B then backslash # ''v''
      else if byte_val c < 32 \<or> byte_val c = 127 then backslash # ''x'' @ hex_encode [c]
      else [c])"

definition go_quote :: "string \<Rightarrow> string" where
  "go_quote s = [double_quote] @ concat (map quote_char s) @ [double_quote]"

text \<open>
  \<open>strconv.Unquote\<close>: a literal in backquotes or double quotes. In double quotes the escapes of
  one letter and the two-digit \<open>x\<close> form are read; a literal with any other escape (octal, or a
  code point) reads as no version here, as in the files the program writes there is none.
\<close>

definition hex_value :: "char \<Rightarrow> nat option" where
  "hex_value c = (let v = nat (byte_val c) in
     if 48 \<le> v \<and> v \<le> 57 then Some (v - 48) else if 97 \<le> v \<and> v \<le> 102 then Some (v - 87)
     else if 65 \<le> v \<and> v \<le> 70 then Some (v - 55) else None)"

definition unescape_letter :: "char \<Rightarrow> char option" where
  "unescape_letter c = map_of
     [(double_quote, double_quote), (backslash, backslash), (CHR ''a'', CHR 0x07), (CHR ''b'', CHR 0x08),
      (CHR ''f'', CHR 0x0C), (CHR ''n'', line_feed), (CHR ''r'', CHR 0x0D), (CHR ''t'', CHR 0x09),
      (CHR ''v'', CHR 0x0B)] c"

fun unquote_body :: "string \<Rightarrow> string option" where
  "unquote_body [] = None"
| "unquote_body (c # s) =
     (if c = double_quote then (if s = [] then Some [] else None)
      else if c = line_feed then None
      else if c \<noteq> backslash then map_option (Cons c) (unquote_body s)
      else case s of
        [] \<Rightarrow> None
      | d # s1 \<Rightarrow> (case unescape_letter d of
          Some x \<Rightarrow> map_option (Cons x) (unquote_body s1)
        | None \<Rightarrow> (case s1 of
            a # b # s2 \<Rightarrow> (case (d = CHR ''x'', hex_value a, hex_value b) of
                (True, Some m, Some n) \<Rightarrow> map_option (Cons (char_of (16 * m + n))) (unquote_body s2)
              | _ \<Rightarrow> None)
          | _ \<Rightarrow> None)))"

definition back_quote :: char where "back_quote = CHR 0x60"

definition go_unquote :: "string \<Rightarrow> string option" where
  "go_unquote s =
     (case s of [] \<Rightarrow> None
      | q # body \<Rightarrow>
        if q = double_quote then unquote_body body
        else if q = back_quote \<and> suffix [back_quote] body \<and> back_quote \<notin> set (butlast body)
        then Some (filter (\<lambda>c. c \<noteq> CHR 0x0D) (butlast body))
        else None)"

section \<open>The stamp\<close>

datatype stamp_error = TableNotFound | VersionNotFound

text \<open>The indentation and the line ending stay.\<close>

definition indentation :: "string \<Rightarrow> string" where
  "indentation line = takeWhile (\<lambda>c. c = CHR 0x20 \<or> c = CHR 0x09) line"

definition stamped_version_line :: "string \<Rightarrow> string \<Rightarrow> string" where
  "stamped_version_line line0 version =
     (let e1 = (if suffix [line_feed] line0 then [line_feed] else []); l1 = trim_suffix [line_feed] line0;
          e2 = (if suffix carriage_return l1 then carriage_return else []); l2 = trim_suffix carriage_return l1
      in indentation l2 @ ''version = '' @ go_quote version @ e2 @ e1)"

text \<open>The loop over the lines, which ends with the first assignment in the table.\<close>

fun stamp_lines :: "string \<Rightarrow> string \<Rightarrow> bool \<Rightarrow> bool \<Rightarrow> string list \<Rightarrow> (stamp_error, string list) result" where
  "stamp_lines header version in_table found [] = Inl (if found then VersionNotFound else TableNotFound)"
| "stamp_lines header version in_table found (line # lines) =
     (let t = line_text line in
      if is_table_line t then
        (if in_table then Inl VersionNotFound
         else rbind (stamp_lines header version (t = header) (found \<or> t = header) lines) (\<lambda>ls. Inr (line # ls)))
      else if \<not> in_table \<or> \<not> is_version_assignment t then
        rbind (stamp_lines header version in_table found lines) (\<lambda>ls. Inr (line # ls))
      else Inr (stamped_version_line line version # lines))"

definition stamp_text :: "string \<Rightarrow> string \<Rightarrow> string \<Rightarrow> (stamp_error, string) result" where
  "stamp_text header version data =
     rbind (stamp_lines header version False False (split_after line_feed data)) (\<lambda>ls. Inr (concat ls))"

section \<open>Reading the version\<close>

fun read_lines :: "string \<Rightarrow> bool \<Rightarrow> string list \<Rightarrow> string option" where
  "read_lines header in_table [] = None"
| "read_lines header in_table (line # lines) =
     (let t = trim_space (trim_suffix carriage_return line) in
      if is_table_line t then read_lines header (t = header) lines
      else if \<not> in_table then read_lines header in_table lines
      else case cut (CHR ''='') t of
        None \<Rightarrow> read_lines header in_table lines
      | Some (left, right) \<Rightarrow>
          if trim_space left \<noteq> ''version'' then read_lines header in_table lines
          else go_unquote (trim_space right))"

definition read_toml_version :: "string \<Rightarrow> string \<Rightarrow> string option" where
  "read_toml_version header data = read_lines header False (split_on line_feed data)"

section \<open>Lines of a text\<close>

fun lines_ok :: "string list \<Rightarrow> bool" where
  "lines_ok [] \<longleftrightarrow> False"
| "lines_ok [l] \<longleftrightarrow> line_feed \<notin> set l"
| "lines_ok (l # ls) \<longleftrightarrow> l \<noteq> [] \<and> last l = line_feed \<and> line_feed \<notin> set (butlast l) \<and> lines_ok ls"

lemma concat_split_after: "concat (split_after c s) = s"
proof (induction s)
  case (Cons x s)
  then show ?case by (cases "split_after c s") auto
qed simp

lemma lines_ok_Cons: "ls \<noteq> [] \<Longrightarrow>
    lines_ok (l # ls) \<longleftrightarrow> l \<noteq> [] \<and> last l = line_feed \<and> line_feed \<notin> set (butlast l) \<and> lines_ok ls"
  by (cases ls) simp_all

lemma lines_ok_split_after: "lines_ok (split_after line_feed s)"
proof (induction s)
  case (Cons x s)
  obtain l ls where s: "split_after line_feed s = l # ls"
    using Cons by (cases "split_after line_feed s") auto
  with Cons show ?case by (cases ls) auto
qed simp

lemma trim_line_feed: "line_feed \<notin> set l \<Longrightarrow> trim_suffix [line_feed] l = l"
  by (auto simp: trim_suffix_def suffix_def)

lemma trim_suffix_last: "last s \<noteq> c \<Longrightarrow> trim_suffix [c] s = s"
  by (auto simp: trim_suffix_def suffix_def)

lemma split_on_lines: "lines_ok ls \<Longrightarrow> split_on line_feed (concat ls) = map (trim_suffix [line_feed]) ls"
proof (induction ls rule: lines_ok.induct)
  case (2 l)
  then show ?case by (simp add: split_on_single trim_line_feed)
next
  case (3 l l' ls)
  then have "l = butlast l @ [line_feed]" "line_feed \<notin> set (butlast l)"
    using append_butlast_last_id [of l] by simp_all
  then obtain m where "l = m @ [line_feed]" "line_feed \<notin> set m" by blast
  with 3 show ?case by (simp add: split_on_append)
qed simp

section \<open>What the stamped line is read as\<close>

definition plain_version :: "string \<Rightarrow> bool" where
  "plain_version v \<longleftrightarrow> list_all (\<lambda>c. quote_char c = [c]) v"

lemma quote_special:
  "quote_char double_quote \<noteq> [double_quote]" "quote_char backslash \<noteq> [backslash]"
  "quote_char line_feed \<noteq> [line_feed]"
  by (simp_all add: quote_char_def double_quote_def backslash_def line_feed_def)

lemma plain_version_no: "plain_version v \<Longrightarrow> c \<in> {double_quote, backslash, line_feed} \<Longrightarrow> c \<notin> set v"
  using quote_special unfolding plain_version_def list_all_iff by blast

lemma quote_plain: "plain_version v \<Longrightarrow> go_quote v = double_quote # v @ [double_quote]"
  unfolding go_quote_def plain_version_def by (induction v) auto

lemma unquote_body_plain: "plain_version v \<Longrightarrow> unquote_body (v @ [double_quote]) = Some v"
proof (induction v)
  case (Cons c v)
  moreover have "c \<notin> {double_quote, backslash, line_feed}"
    using plain_version_no [OF Cons.prems] by auto
  ultimately show ?case by (simp add: plain_version_def)
qed simp

lemma unquote_plain: "plain_version v \<Longrightarrow> go_unquote (double_quote # v @ [double_quote]) = Some v"
  by (simp add: go_unquote_def unquote_body_plain)

definition visible :: "char \<Rightarrow> bool" where
  "visible c \<longleftrightarrow> 32 < byte_val c \<and> byte_val c < 127"

lemma strip_front_other: "list_all (\<lambda>t. t \<noteq> [] \<and> hd t \<noteq> c) toks \<Longrightarrow> strip_front toks (c # s) = None"
  unfolding strip_front_def option.case_eq_if
  by (auto simp: find_None_iff list_all_iff prefix_Cons)

lemma spaces_not_visible:
  "list_all (\<lambda>t. t \<noteq> [] \<and> \<not> visible (hd t)) go_spaces"
  "list_all (\<lambda>t. t \<noteq> [] \<and> \<not> visible (hd t)) (map rev go_spaces)"
  by code_simp+

lemma visible_no_strip:
  assumes "visible c"
  shows "strip_front go_spaces (c # s) = None" "strip_front (map rev go_spaces) (c # s) = None"
  using spaces_not_visible assms by (auto intro!: strip_front_other simp: list_all_iff)

lemma strip_front_blank: "c = CHR 0x20 \<or> c = CHR 0x09 \<Longrightarrow> strip_front go_spaces (c # s) = Some s"
proof -
  have two: "go_spaces = [CHR 0x20] # [CHR 0x09] # drop 2 go_spaces" by (simp add: go_spaces_def)
  assume "c = CHR 0x20 \<or> c = CHR 0x09"
  then show ?thesis unfolding strip_front_def by (subst two) (elim disjE; simp)
qed

lemma trim_space_between:
  assumes "list_all (\<lambda>c. c = CHR 0x20 \<or> c = CHR 0x09) a" "visible x" "visible y"
  shows "trim_space (a @ x # s @ [y]) = x # s @ [y]"
proof -
  have "trim_left (a @ x # s @ [y]) = x # s @ [y]"
    using assms(1)
  proof (induction a)
    case Nil
    then show ?case by (simp add: trim_left_def strip_all_fix visible_no_strip [OF assms(2)])
  next
    case (Cons c a)
    then have "c = CHR 0x20 \<or> c = CHR 0x09" by simp
    then have "strip_front go_spaces (c # a @ x # s @ [y]) = Some (a @ x # s @ [y])"
      by (rule strip_front_blank)
    with Cons show ?case by (simp add: trim_left_def strip_all.simps)
  qed
  moreover have "trim_right (x # s @ [y]) = x # s @ [y]"
    by (simp add: trim_right_def strip_all_fix visible_no_strip [OF assms(3)])
  ultimately show ?thesis by (simp add: trim_space_def)
qed

definition version_assignment :: "string \<Rightarrow> string" where
  "version_assignment v = ''version = '' @ double_quote # v @ [double_quote]"

lemma stamped_line_text:
  assumes "plain_version v"
  shows "line_text (stamped_version_line line v) = version_assignment v"
proof -
  define e2 where "e2 = (if suffix carriage_return (trim_suffix [line_feed] line) then carriage_return else [])"
  define e1 where "e1 = (if suffix [line_feed] line then [line_feed] else [])"
  define ind where "ind = indentation (trim_suffix carriage_return (trim_suffix [line_feed] line))"
  have s: "stamped_version_line line v = ind @ version_assignment v @ e2 @ e1"
    using quote_plain [OF assms]
    by (simp add: stamped_version_line_def Let_def ind_def e1_def e2_def version_assignment_def)
  have q: "version_assignment v = ''version = '' @ double_quote # v @ [double_quote]" by (simp add: version_assignment_def)
  have ends: "version_assignment v \<noteq> []" "last (version_assignment v) = double_quote" by (simp_all add: q)
  have "last (ind @ version_assignment v @ e2) \<noteq> line_feed"
    using ends by (simp add: e2_def carriage_return_def line_feed_def double_quote_def)
  then have "trim_suffix [line_feed] (ind @ version_assignment v @ e2 @ e1) = ind @ version_assignment v @ e2"
    using trim_suffix_append [of "[line_feed]" "ind @ version_assignment v @ e2"]
    by (simp add: e1_def trim_suffix_last)
  moreover have "last (ind @ version_assignment v) \<noteq> CHR 0x0D"
    using ends by (simp add: double_quote_def)
  then have "trim_suffix carriage_return (ind @ version_assignment v @ e2) = ind @ version_assignment v"
    using trim_suffix_append [of carriage_return "ind @ version_assignment v"]
    by (simp add: e2_def carriage_return_def trim_suffix_last)
  moreover have "list_all (\<lambda>c. c = CHR 0x20 \<or> c = CHR 0x09) ind"
    by (auto simp: ind_def indentation_def list_all_iff dest!: set_takeWhileD)
  then have "trim_space (ind @ version_assignment v) = version_assignment v"
    using trim_space_between [of ind "CHR ''v''" double_quote "''ersion = '' @ double_quote # v"]
    by (simp add: q visible_def byte_val_def double_quote_def)
  ultimately show ?thesis by (simp add: line_text_def s)
qed

lemma version_assignment_read:
  assumes "plain_version v"
  shows "\<not> is_table_line (version_assignment v)"
    and "cut (CHR ''='') (version_assignment v) = Some (''version '', CHR 0x20 # double_quote # v @ [double_quote])"
    and "trim_space ''version '' = ''version''"
    and "go_unquote (trim_space (CHR 0x20 # double_quote # v @ [double_quote])) = Some v"
proof -
  show "\<not> is_table_line (version_assignment v)" by (simp add: is_table_line_def version_assignment_def)
  show "cut (CHR ''='') (version_assignment v) = Some (''version '', CHR 0x20 # double_quote # v @ [double_quote])"
    by (simp add: version_assignment_def)
  show "trim_space ''version '' = ''version''" by code_simp
  have "trim_space ([CHR 0x20] @ double_quote # v @ [double_quote]) = double_quote # v @ [double_quote]"
    by (rule trim_space_between) (simp_all add: visible_def byte_val_def double_quote_def)
  then show "go_unquote (trim_space (CHR 0x20 # double_quote # v @ [double_quote])) = Some v"
    using unquote_plain [OF assms] by simp
qed

section \<open>The stamp is read back\<close>

lemma stamped_line_ends:
  assumes "plain_version v"
  shows "line_feed \<notin> set l \<Longrightarrow> line_feed \<notin> set (stamped_version_line l v)"
    and "l \<noteq> [] \<Longrightarrow> last l = line_feed \<Longrightarrow> line_feed \<notin> set (butlast (stamped_version_line l v)) \<and>
           stamped_version_line l v \<noteq> [] \<and> last (stamped_version_line l v) = line_feed"
proof -
  have no: "line_feed \<notin> set (ind @ ''version = '' @ go_quote v @ e)"
    if "line_feed \<notin> set ind" "line_feed \<notin> set e" for ind e
    using that plain_version_no [OF assms, of line_feed] quote_plain [OF assms]
    by (auto simp: line_feed_def double_quote_def)
  have ind: "line_feed \<notin> set (indentation x)" for x
    by (auto simp: indentation_def line_feed_def dest!: set_takeWhileD)
  have cr: "line_feed \<notin> set carriage_return" by (simp add: carriage_return_def line_feed_def)
  show "line_feed \<notin> set l \<Longrightarrow> line_feed \<notin> set (stamped_version_line l v)"
    using no [OF ind] cr by (auto simp: stamped_version_line_def Let_def suffix_def)
  assume "l \<noteq> []" "last l = line_feed"
  then have "suffix [line_feed] l" by (metis append_butlast_last_id suffixI)
  with no [OF ind] cr show "line_feed \<notin> set (butlast (stamped_version_line l v)) \<and>
      stamped_version_line l v \<noteq> [] \<and> last (stamped_version_line l v) = line_feed"
    by (auto simp: stamped_version_line_def Let_def butlast_append)
qed

lemma stamp_lines_effect:
  assumes "stamp_lines header v in_table found lines = Inr lines'"
  shows "\<exists>pre line post. lines = pre @ line # post \<and> lines' = pre @ stamped_version_line line v # post"
  using assms
proof (induction lines arbitrary: in_table found lines')
  case (Cons line lines)
  show ?case
  proof (cases "lines' = stamped_version_line line v # lines")
    case True
    then show ?thesis by (metis append_Nil)
  next
    case False
    with Cons.prems obtain i f ls where "stamp_lines header v i f lines = Inr ls" "lines' = line # ls"
      by (auto simp: Let_def rbind_Inr_iff split: if_splits)
    with Cons.IH show ?thesis by (metis append_Cons)
  qed
qed simp

lemma stamp_lines_ok:
  assumes "plain_version v" "lines_ok (pre @ line # post)"
  shows "lines_ok (pre @ stamped_version_line line v # post)"
  using assms(2)
proof (induction pre)
  case Nil
  then show ?case
    by (cases "post = []") (auto simp: lines_ok_Cons stamped_line_ends [OF assms(1)])
next
  case (Cons l pre)
  then show ?case by (simp add: lines_ok_Cons)
qed

lemma read_stamped_lines:
  assumes "plain_version v" "stamp_lines header v in_table found lines = Inr lines'"
  shows "read_lines header in_table (map (trim_suffix [line_feed]) lines') = Some v"
  using assms(2)
proof (induction lines arbitrary: in_table found lines')
  case (Cons line lines)
  note read = version_assignment_read [OF assms(1)]
  have line: "trim_space (trim_suffix carriage_return (trim_suffix [line_feed] l)) = line_text l" for l
    by (simp add: line_text_def)
  from Cons.prems consider
      (table) ls where "is_table_line (line_text line)" "lines' = line # ls"
        "stamp_lines header v (line_text line = header) (found \<or> line_text line = header) lines = Inr ls"
    | (skip) ls where "\<not> is_table_line (line_text line)" "\<not> in_table \<or> \<not> is_version_assignment (line_text line)"
        "lines' = line # ls" "stamp_lines header v in_table found lines = Inr ls"
    | (here) "in_table" "lines' = stamped_version_line line v # lines"
    by (auto simp: Let_def rbind_Inr_iff split: if_splits)
  then show ?case
  proof cases
    case table
    with Cons.IH [OF table(3)] show ?thesis by (simp add: line Let_def)
  next
    case skip
    with Cons.IH [OF skip(4)] show ?thesis
      by (auto simp: line Let_def is_version_assignment_def split: option.splits)
  next
    case here
    with read show ?thesis by (simp add: line Let_def stamped_line_text [OF assms(1)])
  qed
qed simp

text \<open>
  A manifest that was stamped differs from the one before in one line, and the version read
  from its table afterwards is the stamped one, whatever else the file holds and with
  either line ending.
\<close>
theorem stamp_reads_back:
  assumes "stamp_text header version data = Inr data'" "plain_version version"
  shows "read_toml_version header data' = Some version \<and>
    (\<exists>pre line post. data = pre @ line @ post \<and> data' = pre @ stamped_version_line line version @ post)"
proof -
  from assms(1) obtain ls where ls: "stamp_lines header version False False (split_after line_feed data) = Inr ls"
    "data' = concat ls" by (auto simp: stamp_text_def rbind_Inr_iff)
  from stamp_lines_effect [OF ls(1)] obtain pre line post where
    p: "split_after line_feed data = pre @ line # post" "ls = pre @ stamped_version_line line version # post" by blast
  have "lines_ok ls"
    using stamp_lines_ok [OF assms(2), of pre line post] lines_ok_split_after [of data] p by simp
  then have "read_toml_version header data' = Some version"
    using read_stamped_lines [OF assms(2) ls(1)] by (simp add: read_toml_version_def ls(2) split_on_lines)
  moreover have "data = concat pre @ line @ concat post"
    using concat_split_after [of line_feed data] p(1) by simp
  ultimately show ?thesis using ls(2) p(2) by auto
qed

definition demo_manifest :: string where
  "demo_manifest = ''[workspace]'' @ [line_feed] @ ''[package]'' @ [line_feed] @ ''  version.workspace = true'' @
     [line_feed] @ ''name = 1''"

lemma stamp_reads_back_witness:
  "\<exists>data'. stamp_text ''[package]'' ''1.2.3-main.ab'' demo_manifest = Inr data' \<and>
     read_toml_version ''[package]'' data' = Some ''1.2.3-main.ab''"
proof -
  have "\<not> isl (stamp_text ''[package]'' ''1.2.3-main.ab'' demo_manifest)" by code_simp
  then obtain data' where "stamp_text ''[package]'' ''1.2.3-main.ab'' demo_manifest = Inr data'"
    by (cases "stamp_text ''[package]'' ''1.2.3-main.ab'' demo_manifest") auto
  moreover have "plain_version ''1.2.3-main.ab''" by code_simp
  ultimately show ?thesis using stamp_reads_back by blast
qed

end
