(* ===== verification/Codex_Python.thy ===== *)
theory Codex_Python
  imports Codex_Version Go_Effects Go_Path "HOL-Library.Product_Lexorder"
begin

text \<open>
  The choice of a Python interpreter (\<open>internal/codexcli/python.go\<close>): the requirement of the
  project, the commands found on the search path, and the one that is taken. Listing a
  directory and asking an interpreter for its version are arguments.
\<close>

section \<open>Versions\<close>

datatype python_version = PythonVersion (py_major: int) (py_minor: int)

definition python_older :: "python_version \<Rightarrow> python_version \<Rightarrow> bool" where
  "python_older v u \<longleftrightarrow>
     (if py_major v \<noteq> py_major u then py_major v < py_major u else py_minor v < py_minor u)"

instantiation python_version :: linorder
begin

definition less_python_version :: "python_version \<Rightarrow> python_version \<Rightarrow> bool" where
  "less_python_version = python_older"

definition less_eq_python_version :: "python_version \<Rightarrow> python_version \<Rightarrow> bool" where
  "less_eq_python_version v u \<longleftrightarrow> v = u \<or> v < u"

instance
  by standard
     (auto simp: less_eq_python_version_def less_python_version_def python_older_def python_version.expand split: if_splits)

end

definition at_least :: "python_version \<Rightarrow> python_version \<Rightarrow> bool" where
  "at_least v u \<longleftrightarrow> \<not> v < u"

text \<open>The first match of \<open>>=\s*(\d+)\.(\d+)\<close>.\<close>

definition blank :: "char \<Rightarrow> bool" where
  "blank c \<longleftrightarrow> c \<in> {CHR 0x20, CHR 0x09, CHR 0x0A, CHR 0x0C, CHR 0x0D}"

definition requirement_here :: "string \<Rightarrow> (string \<times> string) option" where
  "requirement_here s =
     (if \<not> prefix ''>='' s then None
      else let r = dropWhile blank (drop 2 s); a = takeWhile is_digit r; r1 = dropWhile is_digit r in
        if a = [] \<or> r1 = [] \<or> hd r1 \<noteq> CHR ''.'' then None
        else let b = takeWhile is_digit (tl r1) in if b = [] then None else Some (a, b))"

fun find_requirement :: "string \<Rightarrow> (string \<times> string) option" where
  "find_requirement [] = None"
| "find_requirement (c # s) =
     (case requirement_here (c # s) of Some m \<Rightarrow> Some m | None \<Rightarrow> find_requirement s)"

datatype python_error = UnsupportedSpec string | BadNumber string | NoPython python_version

definition number_or :: "string \<Rightarrow> (python_error, int) result" where
  "number_or s = (case atoi s of None \<Rightarrow> Inl (BadNumber s) | Some n \<Rightarrow> Inr n)"

definition parse_requires_python :: "string \<Rightarrow> (python_error, python_version) result" where
  "parse_requires_python s =
     (case find_requirement s of
        None \<Rightarrow> Inl (UnsupportedSpec s)
      | Some (a, b) \<Rightarrow> rbind (number_or a) (\<lambda>m. rbind (number_or b) (\<lambda>n. Inr (PythonVersion m n))))"

definition parse_python_version :: "string \<Rightarrow> (python_error, python_version) result" where
  "parse_python_version s =
     (case split_on (CHR ''.'') s of
        [a, b] \<Rightarrow> rbind (number_or a) (\<lambda>m. rbind (number_or b) (\<lambda>n. Inr (PythonVersion m n)))
      | _ \<Rightarrow> Inl (UnsupportedSpec s))"

section \<open>Candidates\<close>

text \<open>\<open>^python3(?:\.\d+)?$\<close>\<close>

definition python3 :: string where "python3 = ''python3''"

definition is_python_command :: "string \<Rightarrow> bool" where
  "is_python_command name \<longleftrightarrow>
     name = python3 \<or>
     (prefix (python3 @ ''.'') name \<and> length name > 8 \<and> list_all is_digit (drop 8 name))"

text \<open>The path list is split at colons; an empty path has no elements.\<close>

definition split_path_list :: "string \<Rightarrow> string list" where
  "split_path_list v = (if v = [] then [] else split_on (CHR '':'') v)"

text \<open>
  \<open>comparePythonCandidateNames\<close>: \<open>python3\<close> before every other name, the others as texts; the sort is
  stable, and the names are distinct.
\<close>

definition candidate_key :: "string \<Rightarrow> bool \<times> string" where
  "candidate_key name = (name \<noteq> python3, name)"

definition discover_candidates :: "(string \<Rightarrow> string list option) \<Rightarrow> string \<Rightarrow> string list" where
  "discover_candidates read_dir path =
     sort_key candidate_key
       (dedup [] (concat (map (\<lambda>d. if d = [] then [] else case read_dir d of None \<Rightarrow> []
          | Some names \<Rightarrow> filter is_python_command names) (split_path_list path))))"

section \<open>The choice\<close>

text \<open>The first loop asks the candidates in order until \<open>python3\<close> is found good enough.\<close>

fun ask_python3 :: "(string \<Rightarrow> 's \<Rightarrow> python_version option \<times> 's) \<Rightarrow> python_version \<Rightarrow> string list \<Rightarrow>
    's \<Rightarrow> bool \<times> 's" where
  "ask_python3 lookup req [] s = (False, s)"
| "ask_python3 lookup req (c # cs) s =
     (case lookup c s of
        (None, s1) \<Rightarrow> ask_python3 lookup req cs s1
      | (Some v, s1) \<Rightarrow> if c = python3 \<and> at_least v req then (True, s1) else ask_python3 lookup req cs s1)"

text \<open>The second asks all of them again and keeps the best.\<close>

fun ask_best :: "(string \<Rightarrow> 's \<Rightarrow> python_version option \<times> 's) \<Rightarrow> python_version \<Rightarrow> string list \<Rightarrow>
    (string \<times> python_version) option \<Rightarrow> 's \<Rightarrow> (string \<times> python_version) option \<times> 's" where
  "ask_best lookup req [] best s = (best, s)"
| "ask_best lookup req (c # cs) best s =
     (case lookup c s of
        (None, s1) \<Rightarrow> ask_best lookup req cs best s1
      | (Some v, s1) \<Rightarrow>
          ask_best lookup req cs
            (if \<not> at_least v req then best
             else case best of None \<Rightarrow> Some (c, v) | Some (_, b) \<Rightarrow> if b < v then Some (c, v) else best) s1)"

definition resolve_python :: "(string \<Rightarrow> 's \<Rightarrow> python_version option \<times> 's) \<Rightarrow> python_version \<Rightarrow>
    string list \<Rightarrow> 's \<Rightarrow> (python_error, string) result \<times> 's" where
  "resolve_python lookup req cs =
     (if cs = [] then return_act (Inl (NoPython req))
      else bind_act (ask_python3 lookup req cs) (\<lambda>good.
        if good then return_act (Inr python3)
        else bind_act (ask_best lookup req cs None) (\<lambda>best. return_act
          (case best of None \<Rightarrow> Inl (NoPython req) | Some (c, _) \<Rightarrow> Inr c))))"

section \<open>The choice is the best there is\<close>

definition good_python :: "(string \<Rightarrow> python_version option) \<Rightarrow> python_version \<Rightarrow> string \<Rightarrow> python_version \<Rightarrow> bool" where
  "good_python ver req c v \<longleftrightarrow> ver c = Some v \<and> req \<le> v"

lemma ask_python3_iff:
  assumes "\<And>c s. fst (lookup c s) = ver c"
  shows "fst (ask_python3 lookup req cs s) \<longleftrightarrow> python3 \<in> set cs \<and> (\<exists>v. good_python ver req python3 v)"
proof (induction cs arbitrary: s)
  case (Cons c cs)
  obtain r s1 where l: "lookup c s = (r, s1)" by fastforce
  with assms [of c s] have r: "ver c = r" by simp
  from Cons [of s1] l r show ?case
    by (cases r) (auto simp: good_python_def at_least_def not_less)
qed simp

lemma ask_best_max:
  assumes "\<And>c s. fst (lookup c s) = ver c" and "best = None \<or> (\<exists>c v. best = Some (c, v) \<and> good_python ver req c v)"
  shows "case fst (ask_best lookup req cs best s) of
      None \<Rightarrow> best = None \<and> (\<forall>c\<in>set cs. \<forall>v. \<not> good_python ver req c v)
    | Some (c, v) \<Rightarrow> good_python ver req c v \<and> (c \<in> set cs \<or> best = Some (c, v)) \<and>
        (\<forall>d\<in>set cs. \<forall>u. good_python ver req d u \<longrightarrow> u \<le> v) \<and> (\<forall>d u. best = Some (d, u) \<longrightarrow> u \<le> v)"
  using assms(2)
proof (induction cs arbitrary: best s)
  case Nil
  then show ?case by (auto split: option.split)
next
  case (Cons c cs)
  obtain r s1 where l: "lookup c s = (r, s1)" by fastforce
  with assms(1) [of c s] have r: "r = ver c" by simp
  show ?case
  proof (cases "\<exists>v. good_python ver req c v")
    case False
    then have "ask_best lookup req (c # cs) best s = ask_best lookup req cs best s1"
      using l r by (auto simp: good_python_def at_least_def not_less split: option.splits)
    with Cons.IH [OF Cons.prems, of s1] False show ?thesis by (auto split: option.splits)
  next
    case True
    then obtain v where v: "ver c = Some v" "req \<le> v" by (auto simp: good_python_def)
    define best' where "best' = (case best of None \<Rightarrow> Some (c, v) | Some (_, b) \<Rightarrow> if b < v then Some (c, v) else best)"
    have run: "ask_best lookup req (c # cs) best s = ask_best lookup req cs best' s1"
      using l r v by (simp add: best'_def at_least_def not_less)
    obtain d u where d: "best' = Some (d, u)" "good_python ver req d u" "v \<le> u"
      "(d, u) = (c, v) \<or> best = Some (d, u)" "\<forall>e w. best = Some (e, w) \<longrightarrow> w \<le> u"
    proof (cases "best = None \<or> (\<exists>d b. best = Some (d, b) \<and> b < v)")
      case True
      with v that [of c v] show thesis by (auto simp: best'_def good_python_def)
    next
      case False
      then obtain d b where "best = Some (d, b)" "\<not> b < v" by (cases best) auto
      with Cons.prems that [of d b] show thesis by (auto simp: best'_def not_less)
    qed
    with Cons.IH [of best' s1] run v show ?thesis
      by (fastforce simp: good_python_def split: option.splits)
  qed
qed

text \<open>
  The interpreter taken for packaging meets the requirement of the project; it is \<open>python3\<close> when
  that is good enough, else one with the greatest version of all candidates; and none is
  taken exactly when no candidate meets the requirement. An interpreter is relied on to
  report the same version both times it is asked.
\<close>
theorem python_choice:
  assumes "\<And>c s. fst (lookup c s) = ver c"
  shows "case fst (resolve_python lookup req cs s) of
      Inl _ \<Rightarrow> (\<forall>c\<in>set cs. \<forall>v. \<not> good_python ver req c v)
    | Inr c \<Rightarrow> c \<in> set cs \<and> (\<exists>v. good_python ver req c v \<and>
        (c \<noteq> python3 \<longrightarrow> (\<forall>d\<in>set cs. \<forall>u. good_python ver req d u \<longrightarrow> d \<noteq> python3 \<and> u \<le> v)))"
proof -
  obtain good s1 where a: "ask_python3 lookup req cs s = (good, s1)" by fastforce
  with ask_python3_iff [where lookup = lookup, OF assms, of req cs s]
  have good: "good \<longleftrightarrow> python3 \<in> set cs \<and> (\<exists>v. good_python ver req python3 v)" by simp
  obtain best s2 where b: "ask_best lookup req cs None s1 = (best, s2)" by fastforce
  with ask_best_max [where lookup = lookup, OF assms, of None req cs s1]
  have best: "case best of None \<Rightarrow> \<forall>c\<in>set cs. \<forall>v. \<not> good_python ver req c v
      | Some (c, v) \<Rightarrow> good_python ver req c v \<and> c \<in> set cs \<and> (\<forall>d\<in>set cs. \<forall>u. good_python ver req d u \<longrightarrow> u \<le> v)"
    by (auto split: option.splits)
  show ?thesis
  proof (cases "cs = [] \<or> good")
    case True
    with a good show ?thesis by (auto simp: resolve_python_def bind_act_def return_act_def)
  next
    case False
    with a b best good show ?thesis
      by (auto simp: resolve_python_def bind_act_def return_act_def split: option.splits)
  qed
qed

definition demo_versions :: "string \<Rightarrow> python_version option" where
  "demo_versions = map_of [(python3, PythonVersion 3 9), (''python3.11'', PythonVersion 3 11),
     (''python3.12'', PythonVersion 3 12)]"

lemma python_choice_witness:
  "fst (resolve_python (\<lambda>c s. (demo_versions c, s)) (PythonVersion 3 10)
     [python3, ''python3.11'', ''python3.12''] ()) = Inr ''python3.12'' \<and>
   good_python demo_versions (PythonVersion 3 10) ''python3.12'' (PythonVersion 3 12)"
proof -
  have r: "fst (resolve_python (\<lambda>c s. (demo_versions c, s)) (PythonVersion 3 10)
     [python3, ''python3.11'', ''python3.12''] ()) = Inr ''python3.12''"
    and v: "demo_versions ''python3.12'' = Some (PythonVersion 3 12)" by code_simp+
  from python_choice [where lookup = "\<lambda>c s. (demo_versions c, s)" and ver = demo_versions and req = "PythonVersion 3 10"
      and cs = "[python3, ''python3.11'', ''python3.12'']" and s = "()", OF fst_conv] r v
  show ?thesis by (auto simp: good_python_def)
qed

end
