(* ===== verification/Codex_Cache.thy ===== *)
theory Codex_Cache
  imports Patch_World
begin

text \<open>
  The pruning of the Cargo target cache (\<open>internal/codexcli/build_identity.go\<close>). The directory
  listings are arguments; the order in which Go walks a map, and what \<open>sort.Slice\<close> makes of
  equal times, are permutations given from outside. A time counts from Go's zero time.
\<close>

section \<open>Names of artifacts\<close>

text \<open>\<open>^(.*)-([0-9a-fA-F]{8,})(\..*)?$\<close>: the greedy prefix makes the last possible dash the split.\<close>

definition hash_char :: "char \<Rightarrow> bool" where
  "hash_char c \<longleftrightarrow> CHR ''0'' \<le> c \<and> c \<le> CHR ''9'' \<or> CHR ''a'' \<le> c \<and> c \<le> CHR ''f'' \<or> CHR ''A'' \<le> c \<and> c \<le> CHR ''F''"

definition hash_tail :: "string \<Rightarrow> string option" where
  "hash_tail s =
     (let h = takeWhile hash_char s; r = dropWhile hash_char s in
      if length h \<ge> 8 \<and> (r = [] \<or> (hd r = CHR ''.'' \<and> CHR 0x0A \<notin> set r)) then Some h else None)"

fun parse_artifact_name :: "string \<Rightarrow> (string \<times> string) option" where
  "parse_artifact_name [] = None"
| "parse_artifact_name (c # s) =
     (case parse_artifact_name s of
        Some (b, h) \<Rightarrow> if c = CHR 0x0A then None else Some (c # b, h)
      | None \<Rightarrow> if c = CHR ''-'' then map_option (Pair []) (hash_tail s) else None)"

section \<open>Variants\<close>

record variant =
  va_paths :: "string list"
  va_time :: int

definition no_variant :: variant where "no_variant = \<lparr>va_paths = [], va_time = 0\<rparr>"

type_synonym variant_groups = "(string \<times> (string \<times> variant) list) list"

text \<open>One entry of the listing: its name, and its time when \<open>Info\<close> succeeds.\<close>

definition add_artifact :: "string \<Rightarrow> string \<times> int option \<Rightarrow> variant_groups \<Rightarrow> variant_groups" where
  "add_artifact dir e groups =
     (case (parse_artifact_name (fst e), snd e) of
        (Some (b, h), Some time) \<Rightarrow>
          (let by_hash = (case map_of groups b of None \<Rightarrow> [] | Some m \<Rightarrow> m);
               v = (case map_of by_hash h of None \<Rightarrow> no_variant | Some v \<Rightarrow> v);
               v' = v\<lparr>va_paths := va_paths v @ [go_join [dir, fst e]], va_time := max (va_time v) time\<rparr>
           in AList.update b (AList.update h v' by_hash) groups)
      | _ \<Rightarrow> groups)"

definition group_artifacts :: "string \<Rightarrow> (string \<times> int option) list \<Rightarrow> variant_groups" where
  "group_artifacts dir entries = fold (add_artifact dir) entries []"

text \<open>\<open>removeStaleVariants\<close>: all but the \<open>keep\<close> newest.\<close>

definition newest_first :: "(variant list \<Rightarrow> variant list) \<Rightarrow> (string \<times> variant) list \<Rightarrow> variant list" where
  "newest_first shuffle by_hash = sort_key (\<lambda>v. - va_time v) (shuffle (map snd by_hash))"

definition stale_variants :: "(variant list \<Rightarrow> variant list) \<Rightarrow> nat \<Rightarrow> (string \<times> variant) list \<Rightarrow> variant list" where
  "stale_variants shuffle keep by_hash =
     (if length by_hash \<le> keep then [] else drop keep (newest_first shuffle by_hash))"

section \<open>The removal\<close>

text \<open>The paths of a variant are all tried; the variant counts when all went.\<close>

fun remove_paths :: "string list \<Rightarrow> 'w pw_sys \<Rightarrow> bool \<times> 'w pw_sys" where
  "remove_paths [] = return_act True"
| "remove_paths (p # ps) =
     bind_act (on_files (remove_all_at (path_components p))) (\<lambda>r.
     bind_act (remove_paths ps) (\<lambda>ok. return_act (r = None \<and> ok)))"

fun remove_variants :: "variant list \<Rightarrow> 'w pw_sys \<Rightarrow> nat \<times> 'w pw_sys" where
  "remove_variants [] = return_act 0"
| "remove_variants (v # vs) =
     bind_act (remove_paths (va_paths v)) (\<lambda>ok.
     bind_act (remove_variants vs) (\<lambda>n. return_act (if ok then Suc n else n)))"

record 'w cargo_env =
  ca_read_dir :: "string \<Rightarrow> filesys \<Rightarrow> (string \<times> bool) list option"          \<comment> \<open>name, is a directory\<close>
  ca_infos :: "string \<Rightarrow> filesys \<Rightarrow> (string \<times> int option) list option"
  ca_groups :: "variant_groups \<Rightarrow> variant_groups"
  ca_shuffle :: "variant list \<Rightarrow> variant list"

definition files_now :: "'w pw_sys \<Rightarrow> filesys \<times> 'w pw_sys" where
  "files_now = on_files (\<lambda>w. (os_fs w, w))"

definition doomed_in :: "'w cargo_env \<Rightarrow> string \<Rightarrow> nat \<Rightarrow> filesys \<Rightarrow> variant list" where
  "doomed_in ca dir keep fs =
     (case ca_infos ca dir fs of
        None \<Rightarrow> []
      | Some entries \<Rightarrow> concat (map (\<lambda>(_, by_hash). stale_variants (ca_shuffle ca) keep by_hash)
          (ca_groups ca (group_artifacts dir entries))))"

definition prune_artifact_dir :: "'w cargo_env \<Rightarrow> string \<Rightarrow> nat \<Rightarrow> 'w pw_sys \<Rightarrow> nat \<times> 'w pw_sys" where
  "prune_artifact_dir ca dir keep =
     bind_act files_now (\<lambda>fs. remove_variants (doomed_in ca dir keep fs))"

text \<open>\<open>isDir\<close>: a failed \<open>os.Stat\<close> is no.\<close>

definition is_dir_path :: "string \<Rightarrow> 'w pw_sys \<Rightarrow> bool \<times> 'w pw_sys" where
  "is_dir_path p = bind_act (stat_path p) (\<lambda>r. return_act (r = Inr True))"

definition has_deps :: "string \<Rightarrow> 'w pw_sys \<Rightarrow> bool \<times> 'w pw_sys" where
  "has_deps p = is_dir_path (go_join [p, ''deps''])"

fun sub_profiles :: "string \<Rightarrow> (string \<times> bool) list \<Rightarrow> 'w pw_sys \<Rightarrow> string list \<times> 'w pw_sys" where
  "sub_profiles parent [] = return_act []"
| "sub_profiles parent ((name, dir) # es) =
     (if \<not> dir then sub_profiles parent es
      else bind_act (has_deps (go_join [parent, name])) (\<lambda>yes.
           bind_act (sub_profiles parent es) (\<lambda>ps.
             return_act (if yes then go_join [parent, name] # ps else ps))))"

fun top_profiles :: "'w cargo_env \<Rightarrow> string \<Rightarrow> (string \<times> bool) list \<Rightarrow> 'w pw_sys \<Rightarrow> string list \<times> 'w pw_sys" where
  "top_profiles ca cache [] = return_act []"
| "top_profiles ca cache ((name, dir) # es) =
     (if \<not> dir then top_profiles ca cache es
      else let p = go_join [cache, name] in
        bind_act (has_deps p) (\<lambda>yes.
        bind_act files_now (\<lambda>fs.
        bind_act (case ca_read_dir ca p fs of None \<Rightarrow> return_act [] | Some subs \<Rightarrow> sub_profiles p subs) (\<lambda>ps.
        bind_act (top_profiles ca cache es) (\<lambda>qs. return_act ((if yes then [p] else []) @ ps @ qs))))))"

definition profile_dirs :: "'w cargo_env \<Rightarrow> string \<Rightarrow> 'w pw_sys \<Rightarrow> string list \<times> 'w pw_sys" where
  "profile_dirs ca cache = bind_act files_now (\<lambda>fs. case ca_read_dir ca cache fs of
     None \<Rightarrow> return_act [] | Some es \<Rightarrow> top_profiles ca cache es)"

fun prune_dirs :: "'w cargo_env \<Rightarrow> nat \<Rightarrow> string list \<Rightarrow> 'w pw_sys \<Rightarrow> nat \<times> 'w pw_sys" where
  "prune_dirs ca keep [] = return_act 0"
| "prune_dirs ca keep (d # ds) =
     bind_act (prune_artifact_dir ca d keep) (\<lambda>n.
     bind_act (prune_dirs ca keep ds) (\<lambda>m. return_act (n + m)))"

definition artifact_dirs :: "string \<Rightarrow> string list" where
  "artifact_dirs p = map (\<lambda>sub. go_join [p, sub]) [''deps'', ''.fingerprint'', ''build'', ''incremental'']"

definition prune_target_cache :: "'w cargo_env \<Rightarrow> bool \<Rightarrow> string \<Rightarrow> int \<Rightarrow> 'w pw_sys \<Rightarrow> unit \<times> 'w pw_sys" where
  "prune_target_cache ca dry cache keep =
     (if dry then return_act ()
      else bind_act (profile_dirs ca cache) (\<lambda>ps.
           bind_act (prune_dirs ca (nat (max 1 keep)) (concat (map artifact_dirs ps))) (\<lambda>_. return_act ())))"

section \<open>What stays\<close>

text \<open>Every artifact of the listing is in its group, under its name and hash, with its time.\<close>

definition artifacts_of :: "(string \<times> int option) list \<Rightarrow> string \<Rightarrow> string \<Rightarrow> (string \<times> int) list" where
  "artifacts_of entries b h =
     List.map_filter (\<lambda>(name, time). case (parse_artifact_name name, time) of
       (Some bh, Some t) \<Rightarrow> if bh = (b, h) then Some (name, t) else None | _ \<Rightarrow> None) entries"

definition variant_of :: "string \<Rightarrow> (string \<times> int) list \<Rightarrow> variant" where
  "variant_of dir as = \<lparr>va_paths = map (\<lambda>(name, _). go_join [dir, name]) as, va_time = fold (\<lambda>(_, t) m. max m t) as 0\<rparr>"

definition groups_hold :: "string \<Rightarrow> (string \<times> int option) list \<Rightarrow> variant_groups \<Rightarrow> bool" where
  "groups_hold dir entries groups \<longleftrightarrow> go_map_ok groups \<and>
     (\<forall>b. (case map_of groups b of None \<Rightarrow> True | Some m \<Rightarrow> go_map_ok m) \<and>
        (\<forall>h. Option.bind (map_of groups b) (\<lambda>m. map_of m h) =
           (let as = artifacts_of entries b h in if as = [] then None else Some (variant_of dir as))))"

lemma artifacts_of_snoc:
  "artifacts_of (es @ [e]) b h = artifacts_of es b h @
     (case (parse_artifact_name (fst e), snd e) of
        (Some bh, Some t) \<Rightarrow> if bh = (b, h) then [(fst e, t)] else [] | _ \<Rightarrow> [])"
  by (cases e) (auto simp: artifacts_of_def map_filter_def split: option.splits)

lemma variant_of_snoc:
  "variant_of dir (as @ [(name, time)]) =
     \<lparr>va_paths = va_paths (variant_of dir as) @ [go_join [dir, name]],
      va_time = max (va_time (variant_of dir as)) time\<rparr>"
  by (simp add: variant_of_def)

lemma variant_of_Nil: "variant_of dir [] = no_variant"
  by (simp add: variant_of_def no_variant_def)

lemma add_artifact_skip:
  "parse_artifact_name (fst e) = None \<or> snd e = None \<Longrightarrow> add_artifact dir e groups = groups"
  by (auto simp: add_artifact_def split: option.splits)

lemma add_artifact_holds:
  assumes "groups_hold dir es groups"
  shows "groups_hold dir (es @ [e]) (add_artifact dir e groups)"
proof (cases "parse_artifact_name (fst e) = None \<or> snd e = None")
  case True
  then have "artifacts_of (es @ [e]) b h = artifacts_of es b h" for b h
    by (auto simp: artifacts_of_snoc split: option.splits)
  with assms True show ?thesis by (simp add: groups_hold_def add_artifact_skip)
next
  case False
  then obtain b h time where e: "parse_artifact_name (fst e) = Some (b, h)" "snd e = Some time" by auto
  define by_hash where "by_hash = (case map_of groups b of None \<Rightarrow> [] | Some m \<Rightarrow> m)"
  define v where "v = (case map_of by_hash h of None \<Rightarrow> no_variant | Some v \<Rightarrow> v)"
  define v' where "v' = v\<lparr>va_paths := va_paths v @ [go_join [dir, fst e]], va_time := max (va_time v) time\<rparr>"
  have add: "add_artifact dir e groups = AList.update b (AList.update h v' by_hash) groups"
    by (simp add: add_artifact_def e by_hash_def v_def v'_def Let_def)
  have ok: "go_map_ok groups" "go_map_ok by_hash"
    using assms by (auto simp: groups_hold_def by_hash_def go_map_ok_def split: option.splits)
  have old: "map_of by_hash k = (let as = artifacts_of es b k in if as = [] then None else Some (variant_of dir as))" for k
  proof -
    from assms have "Option.bind (map_of groups b) (\<lambda>m. map_of m k) =
      (let as = artifacts_of es b k in if as = [] then None else Some (variant_of dir as))"
      unfolding groups_hold_def by blast
    then show ?thesis by (cases "map_of groups b") (simp_all add: by_hash_def)
  qed
  have "v = variant_of dir (artifacts_of es b h)"
    using old [of h] by (auto simp: v_def variant_of_Nil Let_def split: option.splits if_splits)
  then have new: "v' = variant_of dir (artifacts_of es b h @ [(fst e, time)])"
    by (simp add: v'_def variant_of_snoc)
  have arts: "artifacts_of (es @ [e]) c k = artifacts_of es c k @ (if (c, k) = (b, h) then [(fst e, time)] else [])" for c k
    using e by (auto simp: artifacts_of_snoc)
  have maps: "go_map_ok (AList.update b (AList.update h v' by_hash) groups)" "go_map_ok (AList.update h v' by_hash)"
    using ok by (simp_all add: go_map_ok_def distinct_update)
  have "(case map_of (add_artifact dir e groups) c of None \<Rightarrow> True | Some m \<Rightarrow> go_map_ok m)" for c
    using assms maps(2) by (simp add: add update_conv' groups_hold_def)
  moreover have "Option.bind (map_of (add_artifact dir e groups) c) (\<lambda>m. map_of m k) =
      (let as = artifacts_of (es @ [e]) c k in if as = [] then None else Some (variant_of dir as))" for c k
  proof (cases "c = b")
    case True
    then show ?thesis using old [of k] new by (simp add: add update_conv' arts Let_def)
  next
    case other: False
    then show ?thesis using assms by (simp add: add update_conv' arts groups_hold_def)
  qed
  ultimately show ?thesis using maps(1) unfolding groups_hold_def add by blast
qed

lemma group_artifacts_hold: "groups_hold dir entries (group_artifacts dir entries)"
proof (induction entries rule: rev_induct)
  case Nil
  show ?case by (simp add: groups_hold_def group_artifacts_def artifacts_of_def go_map_ok_def map_filter_simps)
next
  case (snoc e es)
  from add_artifact_holds [OF this] show ?case by (simp add: group_artifacts_def)
qed

lemma newer_than_stale:
  assumes "mset ws = mset vs" "sorted (map (\<lambda>v. - va_time v) ws)" "v \<in> set (drop keep ws)"
  shows "Suc keep \<le> length (filter (\<lambda>u. va_time v \<le> va_time u) vs)"
proof -
  from assms(3) obtain j where j: "j < length ws - keep" "v = ws ! (keep + j)"
    by (auto simp: in_set_conv_nth)
  define i where "i = keep + j"
  with j have i: "keep \<le> i" "i < length ws" "v = ws ! i" by simp_all
  have "{..i} \<subseteq> {j. j < length ws \<and> va_time v \<le> va_time (ws ! j)}"
    using sorted_nth_mono [OF assms(2)] i by force
  then have "Suc i \<le> length (filter (\<lambda>u. va_time v \<le> va_time u) ws)"
    using card_mono [of "{j. j < length ws \<and> va_time v \<le> va_time (ws ! j)}" "{..i}"]
    by (simp add: length_filter_conv_card)
  moreover have "length (filter (\<lambda>u. va_time v \<le> va_time u) ws) = length (filter (\<lambda>u. va_time v \<le> va_time u) vs)"
    using assms(1) by (metis mset_filter size_mset)
  ultimately show ?thesis using i(1) by simp
qed

lemma stale_has_newer:
  assumes "\<And>vs. mset (shuffle vs) = mset vs" "go_map_ok by_hash" "v \<in> set (stale_variants shuffle keep by_hash)"
  shows "\<exists>h. map_of by_hash h = Some v \<and>
    keep \<le> card {k. k \<noteq> h \<and> (\<exists>u. map_of by_hash k = Some u \<and> va_time v \<le> va_time u)}"
proof -
  let ?ws = "newest_first shuffle by_hash"
  have ms: "mset ?ws = mset (map snd by_hash)" by (simp add: newest_first_def assms(1))
  have v: "v \<in> set (drop keep ?ws)" using assms(3) by (simp add: stale_variants_def split: if_splits)
  then have "v \<in> set (map snd by_hash)" by (metis in_set_dropD ms mset_eq_setD)
  then obtain h where h: "(h, v) \<in> set by_hash" by auto
  have dist: "distinct (map fst by_hash)" using assms(2) by (simp add: go_map_ok_def)
  let ?new = "filter (\<lambda>x. va_time v \<le> va_time (snd x)) by_hash"
  have "sorted (map (\<lambda>v. - va_time v) ?ws)" by (simp add: newest_first_def)
  from newer_than_stale [OF ms this v] have n: "Suc keep \<le> length ?new"
    by (simp add: filter_map o_def)
  have "distinct (map fst ?new)" using dist by (simp add: distinct_map_filter)
  then have "card (fst ` set ?new) = length ?new"
    by (metis distinct_card length_map set_map)
  then have "length ?new - 1 \<le> card (fst ` set ?new - {h})" by (simp add: card_Diff_singleton_if del: set_filter)
  with n have le: "keep \<le> card (fst ` set ?new - {h})" by (simp del: set_filter)
  have "{k. k \<noteq> h \<and> (\<exists>u. map_of by_hash k = Some u \<and> va_time v \<le> va_time u)} = fst ` set ?new - {h}"
    using dist by (force simp: image_iff)
  with le have "keep \<le> card {k. k \<noteq> h \<and> (\<exists>u. map_of by_hash k = Some u \<and> va_time v \<le> va_time u)}"
    by (simp only:)
  moreover have "map_of by_hash h = Some v" using h dist by simp
  ultimately show ?thesis by blast
qed

text \<open>
  The pruning of a directory removes whole variants of artifacts, and a variant only when there
  are as many others of the same base name that are at least as new as there are variants to
  keep: the newest of a crate is never removed, whatever the order Go walks its maps in.
\<close>
theorem prune_keeps_newest:
  assumes "\<And>m. mset (ca_groups ca m) = mset m" "\<And>vs. mset (ca_shuffle ca vs) = mset vs"
    and "ca_infos ca dir fs = Some entries" "v \<in> set (doomed_in ca dir keep fs)"
  shows "\<exists>b h. artifacts_of entries b h \<noteq> [] \<and> v = variant_of dir (artifacts_of entries b h) \<and>
    keep \<le> card {k. k \<noteq> h \<and> artifacts_of entries b k \<noteq> [] \<and>
      va_time v \<le> va_time (variant_of dir (artifacts_of entries b k))}"
proof -
  let ?groups = "group_artifacts dir entries"
  have "set (ca_groups ca ?groups) = set ?groups" using assms(1) by (metis mset_eq_setD)
  with assms(3,4) obtain b by_hash where m: "(b, by_hash) \<in> set ?groups"
    and v: "v \<in> set (stale_variants (ca_shuffle ca) keep by_hash)"
    by (auto simp: doomed_in_def)
  note hold = group_artifacts_hold [of dir entries]
  from m hold have b: "map_of ?groups b = Some by_hash" by (simp add: groups_hold_def go_map_ok_def)
  with hold have ok: "go_map_ok by_hash"
    and art: "map_of by_hash k = (let as = artifacts_of entries b k in if as = [] then None else Some (variant_of dir as))" for k
  proof -
    from hold have "case map_of ?groups b of None \<Rightarrow> True | Some m \<Rightarrow> go_map_ok m" unfolding groups_hold_def by blast
    with b show "go_map_ok by_hash" by simp
    from hold have "Option.bind (map_of ?groups b) (\<lambda>m. map_of m k) =
      (let as = artifacts_of entries b k in if as = [] then None else Some (variant_of dir as))" for k
      unfolding groups_hold_def by blast
    with b show "map_of by_hash k = (let as = artifacts_of entries b k in if as = [] then None else Some (variant_of dir as))" for k
      by simp
  qed
  from stale_has_newer [OF assms(2) ok v] obtain h where h: "map_of by_hash h = Some v"
    "keep \<le> card {k. k \<noteq> h \<and> (\<exists>u. map_of by_hash k = Some u \<and> va_time v \<le> va_time u)}" by blast
  have "{k. k \<noteq> h \<and> (\<exists>u. map_of by_hash k = Some u \<and> va_time v \<le> va_time u)} =
      {k. k \<noteq> h \<and> artifacts_of entries b k \<noteq> [] \<and> va_time v \<le> va_time (variant_of dir (artifacts_of entries b k))}"
    by (auto simp: art Let_def)
  with h art [of h] show ?thesis by (auto simp: Let_def split: if_splits)
qed

definition demo_cargo :: "unit cargo_env" where
  "demo_cargo = \<lparr>ca_read_dir = (\<lambda>_ _. None), ca_infos = (\<lambda>_ _. Some [(''a-00000001.d'', Some 5), (''a-00000002.d'', Some 7),
     (''a-00000001.rlib'', Some 6), (''b-00000003'', Some 1)]), ca_groups = (\<lambda>m. m), ca_shuffle = rev\<rparr>"

lemma prune_keeps_newest_witness:
  "\<exists>v b h. v \<in> set (doomed_in demo_cargo ''/d'' 1 Map.empty) \<and>
     va_paths v = [''/d/a-00000001.d'', ''/d/a-00000001.rlib''] \<and>
     v = variant_of ''/d'' (artifacts_of [(''a-00000001.d'', Some 5), (''a-00000002.d'', Some 7),
       (''a-00000001.rlib'', Some 6), (''b-00000003'', Some 1)] b h)"
proof -
  let ?v = "\<lparr>va_paths = [''/d/a-00000001.d'', ''/d/a-00000001.rlib''], va_time = 6\<rparr>"
  have v: "?v \<in> set (doomed_in demo_cargo ''/d'' 1 Map.empty)" by code_simp
  have e: "ca_infos demo_cargo ''/d'' Map.empty = Some [(''a-00000001.d'', Some 5), (''a-00000002.d'', Some 7),
       (''a-00000001.rlib'', Some 6), (''b-00000003'', Some 1)]" by (simp add: demo_cargo_def)
  have "mset (ca_groups demo_cargo m) = mset m" "mset (ca_shuffle demo_cargo vs) = mset vs" for m vs
    by (simp_all add: demo_cargo_def)
  from prune_keeps_newest [OF this e v] obtain b h where "?v = variant_of ''/d'' (artifacts_of
      [(''a-00000001.d'', Some 5), (''a-00000002.d'', Some 7), (''a-00000001.rlib'', Some 6), (''b-00000003'', Some 1)] b h)"
    by blast
  then have "?v \<in> set (doomed_in demo_cargo ''/d'' 1 Map.empty) \<and>
     va_paths ?v = [''/d/a-00000001.d'', ''/d/a-00000001.rlib''] \<and>
     ?v = variant_of ''/d'' (artifacts_of [(''a-00000001.d'', Some 5), (''a-00000002.d'', Some 7),
       (''a-00000001.rlib'', Some 6), (''b-00000003'', Some 1)] b h)" by (intro conjI [OF v] conjI variant.select_convs)
  then show ?thesis by (intro exI)
qed

end
