(* ===== verification/Runner_Wait.thy ===== *)
theory Runner_Wait
  imports Patch_World
begin

text \<open>
  The long-running commands of \<open>internal/patch/runner.go\<close>: the environment a command gets, and
  \<open>RunWithHeartbeat\<close>, which waits for a command while it reports that it still runs and ends it
  when the context is cancelled.
\<close>

section \<open>The environment of a command\<close>

definition entry_key :: "string \<Rightarrow> string" where
  "entry_key entry = (case cut (CHR ''='') entry of None \<Rightarrow> entry | Some (k, _) \<Rightarrow> k)"

definition env_entry :: "string \<Rightarrow> string \<Rightarrow> string" where
  "env_entry k v = k @ ''='' @ v"

text \<open>\<open>mergedEnv\<close>: \<open>None\<close> is Go's nil, with which a command inherits the environment.\<close>

definition merged_env :: "(string \<times> string) list \<Rightarrow> string list \<Rightarrow> string list option" where
  "merged_env overrides base =
     (if overrides = [] then None
      else Some (map (\<lambda>e. case map_of overrides (entry_key e) of
                   Some v \<Rightarrow> env_entry (entry_key e) v | None \<Rightarrow> e) base @
             map (\<lambda>k. env_entry k (the (map_of overrides k)))
               (filter (\<lambda>k. k \<notin> entry_key ` set base) (sorted_keys overrides))))"

definition command_env :: "(string \<times> string) list \<Rightarrow> string list \<Rightarrow> string list" where
  "command_env overrides base = (case merged_env overrides base of None \<Rightarrow> base | Some es \<Rightarrow> es)"

text \<open>What a process finds in its environment: of several entries of one name the last counts.\<close>

fun lookup_env :: "string list \<Rightarrow> string \<Rightarrow> string option" where
  "lookup_env [] k = None"
| "lookup_env (e # es) k =
     (case lookup_env es k of
        Some v \<Rightarrow> Some v
      | None \<Rightarrow> (case cut (CHR ''='') e of Some (k', v) \<Rightarrow> if k' = k then Some v else None | None \<Rightarrow> None))"

lemma lookup_env_append:
  "lookup_env (a @ b) k = (case lookup_env b k of Some v \<Rightarrow> Some v | None \<Rightarrow> lookup_env a k)"
  by (induction a) (auto split: option.splits)

lemma cut_env_entry: "CHR ''='' \<notin> set k \<Longrightarrow> cut (CHR ''='') (env_entry k v) = Some (k, v)"
  by (simp add: cut_Some_iff env_entry_def)

lemma entry_key_no_sep: "CHR ''='' \<notin> set (entry_key e)"
  by (auto simp: entry_key_def cut_Some_iff cut_None_iff split: option.splits)

lemma lookup_env_absent: "k \<notin> entry_key ` set es \<Longrightarrow> lookup_env es k = None"
  by (induction es) (auto simp: entry_key_def split: option.splits)

lemma lookup_env_new:
  assumes "list_all (\<lambda>k. CHR ''='' \<notin> set k) ks"
  shows "lookup_env (map (\<lambda>k. env_entry k (f k)) ks) k = (if k \<in> set ks then Some (f k) else None)"
  using assms by (induction ks) (auto simp: cut_env_entry split: option.splits)

lemma lookup_env_replaced:
  "lookup_env (map (\<lambda>e. case map_of ov (entry_key e) of Some v \<Rightarrow> env_entry (entry_key e) v | None \<Rightarrow> e) base) k =
     (case map_of ov k of
        Some v \<Rightarrow> if k \<in> entry_key ` set base then Some v else None
      | None \<Rightarrow> lookup_env base k)"
proof (induction base)
  case (Cons e base)
  have key: "cut (CHR ''='') e = Some (k', v') \<Longrightarrow> entry_key e = k'" for k' v'
    by (simp add: entry_key_def)
  have new: "cut (CHR ''='') (env_entry (entry_key e) v) = Some (entry_key e, v)" for v
    by (rule cut_env_entry [OF entry_key_no_sep])
  show ?case
    by (cases "map_of ov (entry_key e)"; cases "map_of ov k"; cases "entry_key e = k")
       (auto simp: Cons new split: option.splits dest: key)
qed (simp split: option.split)

text \<open>
  A command finds every override with the value of the override and everything else as in the
  environment of the program, whatever entries that environment has and also when one name
  is there several times.
\<close>
theorem overrides_win:
  assumes "list_all (\<lambda>(k, _). CHR ''='' \<notin> set k) overrides"
  shows "lookup_env (command_env overrides base) k =
    (case map_of overrides k of Some v \<Rightarrow> Some v | None \<Rightarrow> lookup_env base k)"
proof (cases "overrides = []")
  case False
  let ?new = "filter (\<lambda>k. k \<notin> entry_key ` set base) (sorted_keys overrides)"
  have no: "list_all (\<lambda>k. CHR ''='' \<notin> set k) ?new"
    using assms by (auto simp: list_all_iff)
  have dom: "k \<in> fst ` set overrides \<longleftrightarrow> map_of overrides k \<noteq> None"
    by (simp add: map_of_eq_None_iff)
  show ?thesis
    unfolding command_env_def merged_env_def using False lookup_env_absent [of k base]
    by (auto simp: lookup_env_append lookup_env_new [OF no] lookup_env_replaced dom split: option.splits)
qed (simp add: command_env_def merged_env_def)

lemma overrides_win_witness:
  "lookup_env (command_env [(''A'', ''1''), (''N'', ''2'')] [''A=0'', ''B=x'', ''A=9'']) ''A'' = Some ''1'' \<and>
   lookup_env (command_env [(''A'', ''1''), (''N'', ''2'')] [''A=0'', ''B=x'', ''A=9'']) ''B'' = Some ''x''"
  using overrides_win [of "[(''A'', ''1''), (''N'', ''2'')]" "[''A=0'', ''B=x'', ''A=9'']" "''A''"]
    overrides_win [of "[(''A'', ''1''), (''N'', ''2'')]" "[''A=0'', ''B=x'', ''A=9'']" "''B''"]
  by simp

section \<open>Waiting for a command\<close>

text \<open>
  The command is a process that ends by itself or is killed; the goroutine of the runner sends
  the result of \<open>Wait\<close> into a channel; \<open>exec.CommandContext\<close> kills the process when the context
  is cancelled; and the runner selects. A signal to the process group reaches the command
  only if it leads a group of its own, which \<open>RunWithHeartbeat\<close>, unlike the variant with a
  directory, does not ask for.
\<close>

datatype wait_result = WaitOk | WaitFailed exec_error | WaitCancelled
datatype group_signal = SigTerm | SigKill
datatype wait_pc = AwaitDone | AwaitGrace | AwaitKilled | WaitOver wait_result

record wait_state =
  rw_own_group :: bool
  rw_alive :: bool
  rw_exit :: "exec_error option option"     \<comment> \<open>how the process ended: \<open>Some None\<close> is success\<close>
  rw_killed :: bool
  rw_interrupted :: bool                    \<comment> \<open>killed by the watcher of the context\<close>
  rw_ctx :: bool
  rw_sent :: bool
  rw_done :: "exec_error option option"
  rw_pc :: wait_pc
  rw_beats :: nat
  rw_signals :: "group_signal list"

definition wait_start :: "bool \<Rightarrow> wait_state" where
  "wait_start own = \<lparr>rw_own_group = own, rw_alive = True, rw_exit = None, rw_killed = False,
     rw_interrupted = False, rw_ctx = False, rw_sent = False, rw_done = None, rw_pc = AwaitDone,
     rw_beats = 0, rw_signals = []\<rparr>"

definition of_wait :: "exec_error option \<Rightarrow> wait_result" where
  "of_wait r = (case r of None \<Rightarrow> WaitOk | Some e \<Rightarrow> WaitFailed e)"

definition context_error :: exec_error where "context_error = ExecFailed ''context''"

text \<open>What the kernel and Go's \<open>os/exec\<close> do.\<close>

inductive exec_step :: "wait_state \<Rightarrow> wait_state \<Rightarrow> bool" where
  rw_watch: "rw_ctx s \<Longrightarrow> rw_alive s \<Longrightarrow> exec_step s (s\<lparr>rw_killed := True, rw_interrupted := True\<rparr>)"
| rw_die: "rw_alive s \<Longrightarrow> rw_killed s \<Longrightarrow>
    exec_step s (s\<lparr>rw_alive := False, rw_exit := Some (Some (Signaled 9))\<rparr>)"
| rw_wait: "rw_exit s = Some r \<Longrightarrow> \<not> rw_sent s \<Longrightarrow>
    exec_step s (s\<lparr>rw_sent := True,
      rw_done := Some (if r = None \<and> rw_interrupted s then Some context_error else r)\<rparr>)"

text \<open>The \<open>select\<close> of \<open>RunWithHeartbeat\<close>: the result, the ticker, the context.\<close>

inductive select_step :: "wait_state \<Rightarrow> wait_state \<Rightarrow> bool" where
  rw_receive: "rw_pc s = AwaitDone \<Longrightarrow> rw_done s = Some r \<Longrightarrow>
    select_step s (s\<lparr>rw_pc := WaitOver (of_wait r), rw_done := None\<rparr>)"
| rw_beat: "rw_pc s = AwaitDone \<Longrightarrow> select_step s (s\<lparr>rw_beats := Suc (rw_beats s)\<rparr>)"
| rw_cancelled: "rw_pc s = AwaitDone \<Longrightarrow> rw_ctx s \<Longrightarrow>
    select_step s (s\<lparr>rw_pc := AwaitGrace, rw_signals := rw_signals s @ [SigTerm]\<rparr>)"

text \<open>\<open>cancelStartedCommand\<close> after its first signal: the result, or the end of the grace period.\<close>

inductive cancel_step :: "wait_state \<Rightarrow> wait_state \<Rightarrow> bool" where
  rw_grace_done: "rw_pc s = AwaitGrace \<Longrightarrow> rw_done s = Some r \<Longrightarrow>
    cancel_step s (s\<lparr>rw_pc := WaitOver WaitCancelled, rw_done := None\<rparr>)"
| rw_grace_over: "rw_pc s = AwaitGrace \<Longrightarrow>
    cancel_step s (s\<lparr>rw_pc := AwaitKilled, rw_signals := rw_signals s @ [SigKill],
      rw_killed := (rw_killed s \<or> rw_own_group s)\<rparr>)"
| rw_kill_done: "rw_pc s = AwaitKilled \<Longrightarrow> rw_done s = Some r \<Longrightarrow>
    cancel_step s (s\<lparr>rw_pc := WaitOver WaitCancelled, rw_done := None\<rparr>)"

definition own_step :: "wait_state \<Rightarrow> wait_state \<Rightarrow> bool" where
  "own_step s t \<longleftrightarrow> exec_step s t \<or> select_step s t \<or> cancel_step s t"

lemmas own_step_intros = own_step_def [THEN iffD2, OF disjI1]
  own_step_def [THEN iffD2, OF disjI2, OF disjI1] own_step_def [THEN iffD2, OF disjI2, OF disjI2]

text \<open>What others do: the command ends, in whatever way, and the context is cancelled.\<close>

inductive other_step :: "wait_state \<Rightarrow> wait_state \<Rightarrow> bool" where
  rw_ends: "rw_alive s \<Longrightarrow> other_step s (s\<lparr>rw_alive := False, rw_exit := Some r\<rparr>)"
| rw_cancel: "other_step s (s\<lparr>rw_ctx := True\<rparr>)"

definition wait_step :: "wait_state \<Rightarrow> wait_state \<Rightarrow> bool" where
  "wait_step s t \<longleftrightarrow> own_step s t \<or> other_step s t"

text \<open>What holds of the process and the channel, and what of the place the runner is at.\<close>

definition channel_inv :: "wait_state \<Rightarrow> bool" where
  "channel_inv s \<longleftrightarrow>
     (rw_alive s \<longleftrightarrow> rw_exit s = None) \<and>
     (rw_sent s \<longrightarrow> rw_exit s \<noteq> None) \<and>
     (rw_interrupted s \<longrightarrow> rw_ctx s) \<and>
     (rw_done s = Some None \<longrightarrow> rw_exit s = Some None) \<and>
     (\<forall>e. rw_done s = Some (Some e) \<longrightarrow> rw_exit s = Some (Some e) \<or> rw_ctx s) \<and>
     (rw_done s \<noteq> None \<longrightarrow> rw_sent s)"

fun pc_inv :: "wait_pc \<Rightarrow> wait_state \<Rightarrow> bool" where
  "pc_inv AwaitDone s \<longleftrightarrow> rw_signals s = [] \<and> (rw_sent s \<longrightarrow> rw_done s \<noteq> None)"
| "pc_inv AwaitGrace s \<longleftrightarrow> rw_signals s = [SigTerm] \<and> rw_ctx s \<and> (rw_sent s \<longrightarrow> rw_done s \<noteq> None)"
| "pc_inv AwaitKilled s \<longleftrightarrow>
     rw_signals s = [SigTerm, SigKill] \<and> rw_ctx s \<and> (rw_sent s \<longrightarrow> rw_done s \<noteq> None)"
| "pc_inv (WaitOver WaitOk) s \<longleftrightarrow> rw_sent s \<and> rw_exit s = Some None \<and> rw_signals s = []"
| "pc_inv (WaitOver (WaitFailed e)) s \<longleftrightarrow>
     rw_sent s \<and> rw_signals s = [] \<and> (rw_exit s = Some (Some e) \<or> rw_ctx s)"
| "pc_inv (WaitOver WaitCancelled) s \<longleftrightarrow>
     rw_sent s \<and> rw_ctx s \<and> (rw_signals s = [SigTerm] \<or> rw_signals s = [SigTerm, SigKill])"

definition wait_inv :: "wait_state \<Rightarrow> bool" where
  "wait_inv s \<longleftrightarrow> channel_inv s \<and> pc_inv (rw_pc s) s"

text \<open>What stands at a place of the runner stays true while it is there.\<close>

lemma pc_inv_stable:
  assumes "pc_inv pc s" "rw_signals t = rw_signals s" "rw_sent s \<longrightarrow> rw_sent t" "rw_ctx s \<longrightarrow> rw_ctx t"
    and "rw_sent t \<longrightarrow> rw_sent s \<or> rw_done t \<noteq> None" "rw_done s \<noteq> None \<longrightarrow> rw_done t \<noteq> None"
    and "rw_exit t = rw_exit s \<or> rw_exit s = None" "rw_sent s \<longrightarrow> rw_exit s \<noteq> None"
  shows "pc_inv pc t"
  using assms by (cases "(pc, s)" rule: pc_inv.cases) auto

lemma exec_step_inv:
  assumes "wait_inv s" "exec_step s t"
  shows "wait_inv t"
  using assms(2) by cases
    (use assms(1) in \<open>auto simp: wait_inv_def channel_inv_def intro: pc_inv_stable [of "rw_pc s" s]\<close>)

lemma select_step_inv:
  assumes "wait_inv s" "select_step s t"
  shows "wait_inv t"
  using assms(2)
proof cases
  case (rw_receive r)
  with assms(1) show ?thesis
    by (cases r) (auto simp: wait_inv_def channel_inv_def of_wait_def)
qed (use assms(1) in \<open>auto simp: wait_inv_def channel_inv_def\<close>)

lemma cancel_step_inv:
  assumes "wait_inv s" "cancel_step s t"
  shows "wait_inv t"
  using assms(2) by cases (use assms(1) in \<open>auto simp: wait_inv_def channel_inv_def\<close>)

lemma own_step_inv: "wait_inv s \<Longrightarrow> own_step s t \<Longrightarrow> wait_inv t"
  using exec_step_inv select_step_inv cancel_step_inv unfolding own_step_def by blast

lemma other_step_inv:
  assumes "wait_inv s" "other_step s t"
  shows "wait_inv t"
  using assms(2)
proof cases
  case (rw_ends r)
  with assms(1) show ?thesis
    by (auto simp: wait_inv_def channel_inv_def intro: pc_inv_stable [of "rw_pc s" s])
next
  case rw_cancel
  with assms(1) show ?thesis
    by (auto simp: wait_inv_def channel_inv_def intro: pc_inv_stable [of "rw_pc s" s])
qed

interpretation waiting: safe_system wait_step "wait_start own" wait_inv
proof
  show "wait_inv (wait_start own)" by (simp add: wait_inv_def channel_inv_def wait_start_def)
  show "wait_inv t" if "wait_inv s" "wait_step s t" for s t
    using that own_step_inv other_step_inv unfolding wait_step_def by blast
qed


section \<open>A cancelled wait ends\<close>

text \<open>A command that ignores everything but the kill does not keep the runner.\<close>

lemma own_run_trans: "own_step s t \<Longrightarrow> run_of own_step t u \<Longrightarrow> run_of own_step s u"
  by (meson run_of_trans run_start run_step)

lemma sent_returns:
  assumes "wait_inv s" "rw_sent s"
  shows "\<exists>t r. run_of own_step s t \<and> rw_pc t = WaitOver r"
proof (cases "rw_pc s")
  case (WaitOver r)
  then show ?thesis by (meson run_start)
next
  case AwaitDone
  with assms obtain r where "rw_done s = Some r" by (auto simp: wait_inv_def channel_inv_def)
  from own_step_intros(2) [OF rw_receive [OF AwaitDone this]] show ?thesis
    by (intro exI [where x = "s\<lparr>rw_pc := WaitOver (of_wait r), rw_done := None\<rparr>"])
       (auto intro: run_step [OF run_start])
next
  case AwaitGrace
  with assms obtain r where "rw_done s = Some r" by (auto simp: wait_inv_def channel_inv_def)
  from own_step_intros(3) [OF rw_grace_done [OF AwaitGrace this]] show ?thesis
    by (intro exI [where x = "s\<lparr>rw_pc := WaitOver WaitCancelled, rw_done := None\<rparr>"])
       (auto intro: run_step [OF run_start])
next
  case AwaitKilled
  with assms obtain r where "rw_done s = Some r" by (auto simp: wait_inv_def channel_inv_def)
  from own_step_intros(3) [OF rw_kill_done [OF AwaitKilled this]] show ?thesis
    by (intro exI [where x = "s\<lparr>rw_pc := WaitOver WaitCancelled, rw_done := None\<rparr>"])
       (auto intro: run_step [OF run_start])
qed

lemma ended_returns:
  assumes "wait_inv s" "\<not> rw_alive s"
  shows "\<exists>t r. run_of own_step s t \<and> rw_pc t = WaitOver r"
proof (cases "rw_sent s")
  case True
  with assms show ?thesis by (intro sent_returns)
next
  case False
  from assms obtain r where "rw_exit s = Some r" by (auto simp: wait_inv_def channel_inv_def)
  from own_step_intros(1) [OF rw_wait [OF this False]] obtain t where t: "own_step s t" "rw_sent t" by auto
  then show ?thesis
    using sent_returns [OF own_step_inv [OF assms(1) t(1)] t(2)] own_run_trans by blast
qed



definition demo_cancelled :: wait_state where
  "demo_cancelled = (wait_start True)\<lparr>rw_ctx := True\<rparr>"

lemma demo_cancelled_run: "run_of wait_step (wait_start True) demo_cancelled"
  unfolding demo_cancelled_def
  by (rule run_step [OF run_start]) (simp add: wait_step_def rw_cancel)


definition demo_finished :: wait_state where
  "demo_finished = (wait_start True)\<lparr>rw_alive := False, rw_exit := Some None, rw_sent := True, rw_pc := WaitOver WaitOk\<rparr>"

lemma demo_finished_run: "run_of wait_step (wait_start True) demo_finished"
proof -
  let ?s1 = "(wait_start True)\<lparr>rw_alive := False, rw_exit := Some None\<rparr>"
  let ?s2 = "?s1\<lparr>rw_sent := True, rw_done := Some (if None = (None::exec_error option) \<and> rw_interrupted ?s1
    then Some context_error else None)\<rparr>"
  let ?s3 = "?s2\<lparr>rw_pc := WaitOver (of_wait None), rw_done := None\<rparr>"
  have "other_step (wait_start True) ?s1" by (rule rw_ends) (simp add: wait_start_def)
  moreover have "own_step ?s1 ?s2" by (rule own_step_intros(1), rule rw_wait) (simp_all add: wait_start_def)
  moreover have "own_step ?s2 ?s3" by (rule own_step_intros(2), rule rw_receive) (simp_all add: wait_start_def)
  moreover have "?s3 = demo_finished" by (simp add: demo_finished_def of_wait_def wait_start_def)
  ultimately show ?thesis by (metis run_start run_step wait_step_def)
qed


end
