(* ===== verification/Codex_Install.thy ===== *)
theory Codex_Install
  imports Codex_Stamp Codex_Python Codex_Cache Runner_Wait Bundle_Identity Dev_Sign
begin

text \<open>
  Building and installing the standalone CLI (\<open>internal/codexcli/codexcli.go\<close>,
  \<open>install_build.go\<close>, \<open>releases.go\<close>, \<open>install_lock.go\<close>, \<open>prepareStampedBuildSource\<close> and the
  stamping of files in \<open>build_identity.go\<close>). The tools it drives are programs of the world, the
  codecs of the package metadata and of the Python project file are arguments. The lines shown to
  the user are not modelled; a command with a heartbeat is a command here.
\<close>

section \<open>Options\<close>

record install_options =
  io_dry_run :: bool
  io_repo :: string
  io_source_dir :: string
  io_ref :: string
  io_package_dir :: string
  io_variant :: string
  io_binary_path :: string
  io_command :: string
  io_install_dir :: string
  io_package_home :: string
  io_build_mode :: string
  io_no_sccache :: bool
  io_force_rebuild :: bool

definition required_option_name :: "(string \<times> string) list \<Rightarrow> string" where
  "required_option_name opts =
     (case find (\<lambda>n. trim_space (the (map_of opts n)) = []) (sorted_keys opts) of None \<Rightarrow> [] | Some n \<Rightarrow> n)"

definition validate_install_options :: "install_options \<Rightarrow> patch_error option" where
  "validate_install_options io =
     (let missing = required_option_name
        [(''repo'', io_repo io), (''source-dir'', io_source_dir io), (''ref'', io_ref io),
         (''package-dir'', io_package_dir io), (''package-variant'', io_variant io),
         (''package-binary-path'', io_binary_path io), (''command-name'', io_command io),
         (''install-dir'', io_install_dir io), (''package-home'', io_package_home io),
         (''build-mode'', io_build_mode io)]
      in if missing = [] then None else Some (Plain (missing @ '' is required'')))"

datatype build_mode = ModeRelease | ModeLocalFast

definition mode_text :: "build_mode \<Rightarrow> string" where
  "mode_text m = (case m of ModeRelease \<Rightarrow> ''release'' | ModeLocalFast \<Rightarrow> ''local-fast'')"

definition parse_build_mode :: "string \<Rightarrow> build_mode option" where
  "parse_build_mode v = find (\<lambda>m. mode_text m = v) [ModeRelease, ModeLocalFast]"

datatype lock_poll = LockTaken | LockRefused | LockBusy bool   \<comment> \<open>whether the context is done by then\<close>

record 'w codex_env =
  cx_base :: "'w pw_env"
  cx_cargo :: "'w cargo_env"
  cx_exec_in :: "string list \<Rightarrow> string \<Rightarrow> string \<Rightarrow> string list \<Rightarrow> 'w world \<Rightarrow> exec_error option \<times> 'w world"
  cx_environ :: "string list"                                \<comment> \<open>\<open>os.Environ()\<close>\<close>
  cx_getenv :: "string \<Rightarrow> string"
  cx_look_path :: "string \<Rightarrow> filesys \<Rightarrow> string option"
  cx_read_dir :: "string \<Rightarrow> filesys \<Rightarrow> string list option"
  cx_goos :: string
  cx_goarch :: string
  cx_cpus :: int
  cx_sha256 :: "string \<Rightarrow> string"
  cx_requires :: "string \<Rightarrow> string option"                     \<comment> \<open>\<open>requires-python\<close> of the project file\<close>
  cx_metadata :: "string \<Rightarrow> (string \<times> string \<times> string) option"  \<comment> \<open>version, target, variant\<close>
  cx_set_version :: "string \<Rightarrow> string \<Rightarrow> string option"
  cx_script_path :: string                                   \<comment> \<open>what \<open>os.CreateTemp\<close> makes\<close>
  cx_script :: string
  cx_polls :: "lock_poll list"

definition host_target :: "'w codex_env \<Rightarrow> string option" where
  "host_target cx =
     (if cx_goos cx \<noteq> ''darwin'' then None
      else if cx_goarch cx = ''arm64'' then Some ''aarch64-apple-darwin''
      else if cx_goarch cx = ''amd64'' then Some ''x86_64-apple-darwin'' else None)"

definition fetch_ref :: "string \<Rightarrow> string" where
  "fetch_ref ref = trim_prefix ''origin/'' ref"

definition codex_build_root :: "string \<Rightarrow> string" where
  "codex_build_root src = go_join [go_dir src, ''build'']"

definition release_dir :: "string \<Rightarrow> string" where
  "release_dir home = go_join [home, ''packages'', ''standalone'', ''releases'', ''latest-main'']"

section \<open>Commands and calls\<close>

text \<open>\<open>runEnvInDirWithHeartbeat\<close>, in the environment of \<open>mergedEnv\<close>.\<close>

definition run_in :: "'w codex_env \<Rightarrow> bool \<Rightarrow> (string \<times> string) list \<Rightarrow> string \<Rightarrow> string \<Rightarrow> string list \<Rightarrow>
    ('w, unit) pw_act" where
  "run_in cx dry overrides dir name args =
     tracing (TraceCommand ''run_command'' name args)
       (if dry then nil_act
        else bind_act (started name args (cx_exec_in cx (command_env overrides (cx_environ cx)) dir name args)
          (\<lambda>r. r = None)) (\<lambda>r. return_act
          (case r of Some e \<Rightarrow> Inl (CmdFailed name e) | None \<Rightarrow> Inr ())))"

definition read_link_at :: "string list \<Rightarrow> os \<Rightarrow> (os_error, string) result \<times> os" where
  "read_link_at p w = (let (f, w1) = next_fault w in
     case f of Fault _ \<Rightarrow> (Inl EIO, w1)
     | NoFault \<Rightarrow> (case resolve False p (os_fs w1) of
         Inl e \<Rightarrow> (Inl e, w1)
       | Inr q \<Rightarrow> (case os_fs w1 q of Some (Symlink t) \<Rightarrow> (Inr t, w1)
           | None \<Rightarrow> (Inl ENOENT, w1) | _ \<Rightarrow> (Inl EINVAL, w1))))"

text \<open>\<open>os.Lstat\<close>: whether it is a directory.\<close>

definition lstat_at :: "string list \<Rightarrow> os \<Rightarrow> (os_error, bool) result \<times> os" where
  "lstat_at p w = (let (f, w1) = next_fault w in
     case f of Fault _ \<Rightarrow> (Inl EIO, w1)
     | NoFault \<Rightarrow> (case resolve False p (os_fs w1) of
         Inl e \<Rightarrow> (Inl e, w1)
       | Inr q \<Rightarrow> if is_dir (os_fs w1) q then (Inr True, w1)
                  else if os_fs w1 q = None then (Inl ENOENT, w1) else (Inr False, w1)))"

text \<open>\<open>os.CreateTemp\<close>, and the write into the file it opened.\<close>

definition create_temp_at :: "string list \<Rightarrow> os \<Rightarrow> os_error option \<times> os" where
  "create_temp_at p = with_path False p (\<lambda>q fs. if q = [] \<or> fs q \<noteq> None then Inl EEXIST else Inr (Some (fs(q \<mapsto> File []))))"

definition fill_at :: "string list \<Rightarrow> string \<Rightarrow> string \<Rightarrow> os \<Rightarrow> os_error option \<times> os" where
  "fill_at p data part w = (let (f, w1) = next_fault w in
     case resolve False p (os_fs w1) of
       Inl e \<Rightarrow> (Some e, w1)
     | Inr q \<Rightarrow> (case f of Fault _ \<Rightarrow> (Some EIO, os_put ((os_fs w1)(q \<mapsto> File part)) w1)
         | NoFault \<Rightarrow> (None, os_put ((os_fs w1)(q \<mapsto> File data)) w1)))"

definition with_temp_script :: "'w codex_env \<Rightarrow> ('w, 'a) pw_act \<Rightarrow> ('w, 'a) pw_act" where
  "with_temp_script cx body =
     (let p = path_components (cx_script_path cx) in
      rbind_act (file_call ''create temp helper script'' (create_temp_at p)) (\<lambda>_.
      bind_act (file_call ''write temp helper script body'' (fill_at p (cx_script cx) (pe_part (cx_base cx)))) (\<lambda>r.
      case r of
        Inl e \<Rightarrow> bind_act (on_files os_touch) (\<lambda>_. bind_act (on_files (remove_at p)) (\<lambda>_. fail_act e))
      | Inr _ \<Rightarrow> bind_act (file_call ''close temp helper script'' os_touch) (\<lambda>c.
          case c of
            Inl e \<Rightarrow> bind_act (on_files (remove_at p)) (\<lambda>_. fail_act e)
          | Inr _ \<Rightarrow> bind_act body (\<lambda>x. bind_act (on_files (remove_at p)) (\<lambda>_. return_act x))))))"

section \<open>The source and the identity of the build\<close>

definition git_in :: "'w codex_env \<Rightarrow> string \<Rightarrow> string list \<Rightarrow> ('w, string) pw_act" where
  "git_in cx src args = runner_capture (cx_base cx) False ''git'' ([''-C'', src] @ args)"

definition clone_or_update :: "'w codex_env \<Rightarrow> bool \<Rightarrow> string \<Rightarrow> string \<Rightarrow> string \<Rightarrow> ('w, unit) pw_act" where
  "clone_or_update cx dry repo src ref = in_turn
     [if dry then nil_act else mkdir_path ''create source parent'' (go_dir src),
      bind_act (stat_path src) (\<lambda>r. case r of
          Inl e \<Rightarrow> if e \<noteq> ENOENT then fail_act (OsFailed ''stat source dir'' e)
            else labelled ''clone Codex source''
              (runner_run (cx_base cx) dry ''gh'' [''repo'', ''clone'', repo, src, ''--'', ''--depth'', ''1''])
        | Inr _ \<Rightarrow> bind_act (is_dir_path (go_join [src, ''.git''])) (\<lambda>git.
            if \<not> git \<and> \<not> dry then fail_act (Plain ''source dir exists but is not a git checkout'') else nil_act)),
      labelled ''fetch Codex source'' (runner_run (cx_base cx) dry ''git''
        [''-C'', src, ''fetch'', ''--depth'', ''1'', ''--prune'', ''origin'', fetch_ref ref]),
      labelled ''checkout Codex source'' (runner_run (cx_base cx) dry ''git''
        [''-C'', src, ''checkout'', ''--detach'', ''FETCH_HEAD''])]"

definition latest_stable_version :: "'w codex_env \<Rightarrow> string \<Rightarrow> ('w, string) pw_act" where
  "latest_stable_version cx src =
     rbind_act (labelled ''read Codex release tags''
         (git_in cx src [''ls-remote'', ''--tags'', ''origin'', ''refs/tags/rust-v*''])) (\<lambda>out.
     return_act (case select_latest_stable out of
       None \<Rightarrow> Inl (Plain ''no stable Codex release tag'') | Some v \<Rightarrow> Inr (version_text v)))"

definition read_source_inputs :: "'w codex_env \<Rightarrow> string \<Rightarrow> ('w, string \<times> string \<times> string) pw_act" where
  "read_source_inputs cx src =
     rbind_act (labelled ''read Codex source HEAD'' (git_in cx src [''rev-parse'', ''--short=12'', ''HEAD''])) (\<lambda>head.
     rbind_act (labelled ''read Codex source tree'' (git_in cx src [''rev-parse'', ''HEAD^{tree}''])) (\<lambda>tree.
     rbind_act (latest_stable_version cx src) (\<lambda>base. return_act (Inr (trim_space head, trim_space tree, base)))))"

definition resolve_build_identity :: "'w codex_env \<Rightarrow> install_options \<Rightarrow> string \<Rightarrow> build_mode \<Rightarrow>
    ('w, build_identity) pw_act" where
  "resolve_build_identity cx io target mode =
     rbind_act (if io_dry_run io then return_act (Inr (''dryrun'', ''dryrun'', ''0.0.0''))
                else read_source_inputs cx (io_source_dir io)) (\<lambda>(head, tree, base).
     return_act (Inr (new_build_identity (cx_sha256 cx) base head tree target (mode_text mode)
       (io_variant io) (io_command io))))"

section \<open>The stamped copy of the source\<close>

text \<open>
  \<open>stampPackageVersionInTable\<close> on a file. Times of files are not modelled: \<open>os.Chtimes\<close>, like
  \<open>os.Chmod\<close>, can only fail.
\<close>

definition stamp_file :: "'w codex_env \<Rightarrow> string \<Rightarrow> string \<Rightarrow> string \<Rightarrow> bool \<Rightarrow> ('w, unit) pw_act" where
  "stamp_file cx path header version preserve =
     (let p = go_clean path in
      bind_act (stat_path p) (\<lambda>r. case r of
        Inl e \<Rightarrow> fail_act (OsFailed ''stat'' e)
      | Inr _ \<Rightarrow>
          rbind_act (read_path ''read'' p) (\<lambda>data.
          case stamp_text header version data of
            Inl e \<Rightarrow> fail_act (Plain (case e of TableNotFound \<Rightarrow> ''table was not found'' | VersionNotFound \<Rightarrow> ''version was not found''))
          | Inr stamped \<Rightarrow> in_turn
              [write_path (cx_base cx) ''write'' p stamped,
               if preserve then file_call ''restore mtime'' (chmod_at (path_components p)) else nil_act])))"

definition app_facing_crates :: "string list" where
  "app_facing_crates = [''cli'', ''app-server'', ''app-server-daemon'', ''tui'', ''exec'', ''mcp-server'']"

definition stamp_crate :: "'w codex_env \<Rightarrow> string \<Rightarrow> string \<Rightarrow> string \<Rightarrow> ('w, unit) pw_act" where
  "stamp_crate cx codex_root version crate =
     (let p = go_join [codex_root, crate, ''Cargo.toml''] in
      bind_act (stat_path p) (\<lambda>r. if r = Inl ENOENT then nil_act else stamp_file cx p ''[package]'' version False))"

definition stamp_build_source :: "'w codex_env \<Rightarrow> string \<Rightarrow> build_identity \<Rightarrow> string \<Rightarrow> ('w, unit) pw_act" where
  "stamp_build_source cx build_dir ident previous =
     (if validate_stamped (bi_version ident) \<noteq> None then fail_act (Plain ''invalid package version'')
      else if \<not> is_stable_semver (bi_base ident) then fail_act (Plain ''invalid base version'')
      else let codex_root = go_join [build_dir, ''codex-rs''] in
        rbind_act (stamp_file cx (go_join [codex_root, ''Cargo.toml'']) ''[workspace.package]'' (bi_base ident)
            (previous = bi_base ident)) (\<lambda>_.
        each_act (stamp_crate cx codex_root (bi_version ident)) app_facing_crates))"

definition link_target_cache :: "string \<Rightarrow> string \<Rightarrow> ('w, unit) pw_act" where
  "link_target_cache build_dir cache =
     (let p = go_join [build_dir, ''codex-rs'', ''target''] in
      bind_act (on_files (read_link_at (path_components p))) (\<lambda>r.
        if r = Inr cache then nil_act
        else in_turn
          [file_call ''remove build target path'' (remove_all_at (path_components p)),
           mkdir_path ''create build target parent'' (go_dir p),
           file_call ''link build target cache'' (symlink_at cache (path_components p))]))"

definition prepare_build_source :: "'w codex_env \<Rightarrow> bool \<Rightarrow> string \<Rightarrow> build_identity \<Rightarrow> ('w, string) pw_act" where
  "prepare_build_source cx dry src ident =
     (let build_root = codex_build_root src; build_dir = go_join [build_root, ''work''];
          cache = go_join [build_root, ''target''] in
      if dry then return_act (Inr build_dir)
      else
        rbind_act (in_turn [mkdir_path ''create build root'' build_root, mkdir_path ''create build source'' build_dir,
            mkdir_path ''create build target cache'' cache]) (\<lambda>_.
        bind_act (read_path ''read'' (go_clean (go_join [build_dir, ''codex-rs'', ''Cargo.toml'']))) (\<lambda>old.
        let previous = (case old of Inl _ \<Rightarrow> [] | Inr data \<Rightarrow>
              (case read_toml_version ''[workspace.package]'' data of None \<Rightarrow> [] | Some v \<Rightarrow> v)) in
        rbind_act (in_turn
          [labelled ''sync Codex source'' (runner_run (cx_base cx) dry ''rsync''
             [''-a'', ''--delete'', ''--exclude'', ''.git/'', ''--exclude'', ''target/'', src @ ''/'', build_dir @ ''/'']),
           link_target_cache build_dir cache,
           stamp_build_source cx build_dir ident previous]) (\<lambda>_. return_act (Inr build_dir)))))"

section \<open>The entrypoint\<close>

definition local_fast_units :: "'w codex_env \<Rightarrow> int" where
  "local_fast_units cx = (if cx_cpus cx < 1 then 1 else cx_cpus cx)"

definition cargo_build_args :: "'w codex_env \<Rightarrow> string \<Rightarrow> build_mode \<Rightarrow> string \<Rightarrow> string list" where
  "cargo_build_args cx target mode command =
     [''build'', ''--target'', target, ''--release'', ''--timings'', ''--bin'', command, ''-v''] @
     (case mode of ModeRelease \<Rightarrow> []
      | ModeLocalFast \<Rightarrow> [''--config'', ''profile.release.lto=false'', ''--config'',
          ''profile.release.codegen-units='' @ int_str (local_fast_units cx)])"

definition resolve_rustc_wrapper :: "string \<Rightarrow> bool \<Rightarrow> string option \<Rightarrow> string \<times> bool" where
  "resolve_rustc_wrapper existing no_sccache found =
     (if existing \<noteq> [] then (existing, go_base existing = ''sccache'')
      else if no_sccache then ([], False)
      else case found of None \<Rightarrow> ([], False) | Some p \<Rightarrow> (p, True))"

fun parse_env_lines :: "string list \<Rightarrow> (string \<times> string) list \<Rightarrow> (patch_error, (string \<times> string) list) result" where
  "parse_env_lines [] env = Inr env"
| "parse_env_lines (l # ls) env =
     (if int (length l) \<ge> 65536 then Inl (Plain ''scan environment output'')
      else let line = trim_space (drop_cr l) in
        if line = [] then parse_env_lines ls env
        else case cut (CHR ''='') line of
          None \<Rightarrow> Inl (Plain ''invalid env line'')
        | Some (k, v) \<Rightarrow> parse_env_lines ls (AList.update k v env))"

definition lookup_python :: "'w codex_env \<Rightarrow> string \<Rightarrow> 'w pw_sys \<Rightarrow> python_version option \<times> 'w pw_sys" where
  "lookup_python cx name =
     bind_act (exec_output (cx_base cx) name
       [''-c'', ''import sys; print(f'' @ [CHR 0x27] @ ''{sys.version_info[0]}.{sys.version_info[1]}'' @ [CHR 0x27] @ '')''])
     (\<lambda>r. return_act (case r of Inl _ \<Rightarrow> None | Inr out \<Rightarrow>
        (case parse_python_version (trim_space out) of Inl _ \<Rightarrow> None | Inr v \<Rightarrow> Some v)))"

definition python_failed :: "python_error \<Rightarrow> patch_error" where
  "python_failed e = Plain (case e of UnsupportedSpec _ \<Rightarrow> ''unsupported requires-python''
     | BadNumber _ \<Rightarrow> ''parse Python version'' | NoPython _ \<Rightarrow> ''find Python for Codex packaging'')"

definition resolve_codex_python :: "'w codex_env \<Rightarrow> string \<Rightarrow> ('w, string) pw_act" where
  "resolve_codex_python cx src =
     rbind_act (read_path ''read Codex scripts pyproject'' (go_join [src, ''scripts'', ''pyproject.toml''])) (\<lambda>data.
     case cx_requires cx data of
       None \<Rightarrow> fail_act (Plain ''parse Codex scripts pyproject'')
     | Some spec \<Rightarrow> (case parse_requires_python spec of
         Inl e \<Rightarrow> fail_act (python_failed e)
       | Inr req \<Rightarrow>
           bind_act files_now (\<lambda>fs.
           bind_act (resolve_python (lookup_python cx) req
               (discover_candidates (\<lambda>d. cx_read_dir cx d fs) (cx_getenv cx ''PATH''))) (\<lambda>r.
           return_act (map_sum python_failed (\<lambda>c. c) r)))))"

definition cargo_build_env :: "'w codex_env \<Rightarrow> bool \<Rightarrow> string \<Rightarrow> string \<Rightarrow> bool \<Rightarrow>
    ('w, (string \<times> string) list \<times> string \<times> bool) pw_act" where
  "cargo_build_env cx dry src target no_sccache =
     (if dry then return_act (Inr ([], [], False))
      else with_temp_script cx
        (rbind_act (resolve_codex_python cx src) (\<lambda>python.
         rbind_act (labelled ''resolve Codex V8 environment''
             (runner_capture (cx_base cx) dry python [cx_script_path cx, src, target])) (\<lambda>out.
         case parse_env_lines (scan_lines out) [] of
           Inl e \<Rightarrow> fail_act (Within ''parse Codex V8 environment'' e)
         | Inr env \<Rightarrow>
             bind_act files_now (\<lambda>fs.
             let existing = cx_getenv cx ''RUSTC_WRAPPER'';
                 w = resolve_rustc_wrapper existing no_sccache (cx_look_path cx ''sccache'' fs) in
             return_act (Inr (if existing = [] \<and> \<not> no_sccache \<and> fst w \<noteq> []
               then AList.update ''RUSTC_WRAPPER'' (fst w) env else env, fst w, snd w)))))))"

definition ensure_rust_toolchain :: "'w codex_env \<Rightarrow> bool \<Rightarrow> string \<Rightarrow> ('w, unit) pw_act" where
  "ensure_rust_toolchain cx dry codex_root =
     rbind_act (if dry then nil_act else bind_act files_now (\<lambda>fs.
       if cx_look_path cx ''rustup'' fs = None then fail_act (Plain ''find rustup for upstream Rust toolchain'') else nil_act)) (\<lambda>_.
     labelled ''install upstream Rust toolchain'' (run_in cx dry [] codex_root ''rustup'' [''toolchain'', ''install'']))"

definition build_entrypoint :: "'w codex_env \<Rightarrow> bool \<Rightarrow> string \<Rightarrow> string \<Rightarrow> string \<Rightarrow> build_mode \<Rightarrow> bool \<Rightarrow>
    ('w, string) pw_act" where
  "build_entrypoint cx dry src command target mode no_sccache =
     (let codex_root = go_join [src, ''codex-rs''];
          entry = go_join [codex_root, ''target'', target, ''release'', command] in
      rbind_act (ensure_rust_toolchain cx dry codex_root) (\<lambda>_.
      rbind_act (cargo_build_env cx dry src target no_sccache) (\<lambda>(env, sccache, used).
      rbind_act (labelled ''build Codex entrypoint''
          (run_in cx dry env codex_root ''cargo'' (cargo_build_args cx target mode command))) (\<lambda>_.
      rbind_act (if used then best_effort (runner_run (cx_base cx) dry sccache [''--show-stats'']) else nil_act) (\<lambda>_.
      if dry then return_act (Inr entry)
      else bind_act (stat_path entry) (\<lambda>r. case r of
        Inl e \<Rightarrow> fail_act (OsFailed ''stat built Codex entrypoint'' e) | Inr _ \<Rightarrow> return_act (Inr entry)))))))"

section \<open>Signing and packaging\<close>

definition timestamp_entitlements_args :: "string \<Rightarrow> string \<Rightarrow> string \<Rightarrow> string list" where
  "timestamp_entitlements_args identity ent_file code_path =
     [''--force'', ''--options'', ''runtime'', ''--timestamp'', ''--entitlements'', ent_file, ''--sign'', identity, code_path]"

definition entitlement_match :: "string \<Rightarrow> bool \<Rightarrow> string list \<Rightarrow> ('w, string list) pw_act" where
  "entitlement_match path regular acc =
     return_act (Inr (if go_base path = ''codex.entitlements.plist'' then acc @ [path] else acc))"

definition find_codex_entitlements :: "'w codex_env \<Rightarrow> string \<Rightarrow> ('w, string) pw_act" where
  "find_codex_entitlements cx src =
     (let dir = go_join [src, ''.github''] in
      bind_act (on_files (lstat_at (path_components dir))) (\<lambda>r. case r of
        Inl e \<Rightarrow> fail_act (OsFailed ''find upstream Codex entitlements'' e)
      | Inr is_directory \<Rightarrow>
          bind_act (if is_directory then listing (cx_base cx) dir else return_act []) (\<lambda>nodes.
          rbind_act (collect_visits entitlement_match (visits (\<lambda>_. Some True) dir nodes) []) (\<lambda>found.
          return_act (case sort found of [] \<Rightarrow> Inl (Plain ''codex.entitlements.plist not found'')
            | [p] \<Rightarrow> Inr p | _ \<Rightarrow> Inl (Plain ''multiple matches''))))))"

definition existing_file :: "string \<Rightarrow> string \<Rightarrow> ('w, unit) pw_act" where
  "existing_file what p = bind_act (stat_path p) (\<lambda>r. case r of Inl e \<Rightarrow> fail_act (OsFailed what e) | Inr _ \<Rightarrow> nil_act)"

definition signing_entitlements :: "'w codex_env \<Rightarrow> bool \<Rightarrow> string \<Rightarrow> string \<Rightarrow> ('w, string) pw_act" where
  "signing_entitlements cx dry src binary =
     (if dry then return_act (Inr (go_join [src, ''.github'', ''scripts'', ''macos-signing'', ''codex.entitlements.plist'']))
      else rbind_act (find_codex_entitlements cx src) (\<lambda>ent.
           rbind_act (existing_file ''stat Codex binary'' binary) (\<lambda>_.
           rbind_act (existing_file ''stat upstream Codex entitlements'' ent) (\<lambda>_. return_act (Inr ent)))))"

definition sign_binary :: "'w codex_env \<Rightarrow> bool \<Rightarrow> string \<Rightarrow> string \<Rightarrow> ('w, unit) pw_act" where
  "sign_binary cx dry src binary =
     rbind_act (signing_entitlements cx dry src binary) (\<lambda>ent.
     rbind_act (labelled ''resolve local signing identity'' (resolve_identity (cx_base cx) dry)) (\<lambda>identity.
     labelled ''sign Codex CLI'' (runner_run (cx_base cx) dry codesign (timestamp_entitlements_args identity ent binary))))"

definition package_script_args :: "string \<Rightarrow> string \<Rightarrow> string \<Rightarrow> string \<Rightarrow> string \<Rightarrow> string list" where
  "package_script_args src package_dir variant target entry =
     [go_join [src, ''scripts'', ''build_codex_package.py''], ''--target'', target, ''--variant'', variant,
      ''--package-dir'', package_dir, ''--cargo-profile'', ''release'', ''--entrypoint-bin'', entry, ''--force'']"

definition build_package :: "'w codex_env \<Rightarrow> bool \<Rightarrow> string \<Rightarrow> string \<Rightarrow> string \<Rightarrow> string \<Rightarrow> string \<Rightarrow> ('w, unit) pw_act" where
  "build_package cx dry src package_dir variant target entry =
     rbind_act (if dry then return_act (Inr ''python3'') else resolve_codex_python cx src) (\<lambda>python.
     labelled ''build Codex package''
       (runner_run (cx_base cx) dry python (package_script_args src package_dir variant target entry)))"

definition metadata_file :: "string \<Rightarrow> string" where
  "metadata_file dir = go_join [dir, ''codex-package.json'']"

definition read_package_metadata :: "'w codex_env \<Rightarrow> string \<Rightarrow> string \<Rightarrow> ('w, string \<times> string \<times> string) pw_act" where
  "read_package_metadata cx dir variant =
     rbind_act (read_path ''read package metadata'' (metadata_file dir)) (\<lambda>data.
     return_act (case cx_metadata cx data of
       None \<Rightarrow> Inl (Plain ''parse package metadata'')
     | Some (version, target, v) \<Rightarrow>
         if version = [] \<or> target = [] \<or> v \<noteq> variant then Inl (Plain ''invalid package metadata'')
         else Inr (version, target, v)))"

definition overwrite_package_version :: "'w codex_env \<Rightarrow> string \<Rightarrow> string \<Rightarrow> ('w, unit) pw_act" where
  "overwrite_package_version cx dir version =
     rbind_act (read_path ''read package metadata'' (metadata_file dir)) (\<lambda>data.
     case cx_set_version cx data version of
       None \<Rightarrow> fail_act (Plain ''parse package metadata'')
     | Some out \<Rightarrow> write_path (cx_base cx) ''write package metadata'' (metadata_file dir) out)"

definition read_stamped_metadata :: "'w codex_env \<Rightarrow> install_options \<Rightarrow> string \<Rightarrow> build_identity \<Rightarrow>
    ('w, string \<times> string \<times> string) pw_act" where
  "read_stamped_metadata cx io target ident =
     (if io_dry_run io then return_act (Inr (bi_version ident, target, io_variant io))
      else rbind_act (read_package_metadata cx (io_package_dir io) (io_variant io)) (\<lambda>(version, rest).
        return_act (if version \<noteq> bi_version ident then Inl (Plain ''package version mismatch'') else Inr (version, rest))))"

definition target_cache_keep :: int where "target_cache_keep = 1"

definition build_stamped :: "'w codex_env \<Rightarrow> install_options \<Rightarrow> string \<Rightarrow> build_mode \<Rightarrow> build_identity \<Rightarrow>
    ('w, string \<times> string \<times> string) pw_act" where
  "build_stamped cx io target mode ident =
     (let dry = io_dry_run io in
      rbind_act (prepare_build_source cx dry (io_source_dir io) ident) (\<lambda>src.
      rbind_act (build_entrypoint cx dry src (io_command io) target mode (io_no_sccache io)) (\<lambda>entry.
      rbind_act (in_turn
        [sign_binary cx dry src entry,
         build_package cx dry src (io_package_dir io) (io_variant io) target entry,
         if dry then nil_act else overwrite_package_version cx (io_package_dir io) (bi_version ident),
         bind_act (prune_target_cache (cx_cargo cx) dry (go_join [codex_build_root (io_source_dir io), ''target'']) target_cache_keep)
           (\<lambda>_. nil_act)]) (\<lambda>_.
      read_stamped_metadata cx io target ident))))"

section \<open>Installation\<close>

definition replace_symlink :: "string \<Rightarrow> string \<Rightarrow> ('w, unit) pw_act" where
  "replace_symlink link target =
     (let tmp = link @ ''.tmp''; p = path_components link; t = path_components tmp in
      bind_act (on_files (remove_at t)) (\<lambda>_.
      rbind_act (file_call ''create symlink'' (symlink_at target t)) (\<lambda>_.
      bind_act (file_call ''remove existing link path'' (remove_all_at p)) (\<lambda>r.
      case r of
        Inl e \<Rightarrow> bind_act (on_files (remove_at t)) (\<lambda>_. fail_act e)
      | Inr _ \<Rightarrow> file_call ''promote symlink'' (rename_at t p)))))"

definition current_link :: "string \<Rightarrow> string" where
  "current_link home = go_join [home, ''packages'', ''standalone'', ''current'']"

definition visible_command :: "install_options \<Rightarrow> string" where
  "visible_command io = go_join [io_install_dir io, io_command io]"

definition install_package :: "'w codex_env \<Rightarrow> install_options \<Rightarrow> ('w, unit) pw_act" where
  "install_package cx io =
     (let dir = release_dir (io_package_home io); link = current_link (io_package_home io);
          stage = go_join [go_dir dir, ''.staging.'' @ go_base dir] in
      if io_dry_run io then nil_act
      else in_turn
        [mkdir_path ''create releases dir'' (go_dir dir),
         mkdir_path ''create install dir'' (io_install_dir io),
         file_call ''remove stale stage dir'' (remove_all_at (path_components stage)),
         mkdir_path ''create stage dir'' stage,
         labelled ''copy package to release stage'' (runner_run (cx_base cx) (io_dry_run io) ''/usr/bin/rsync''
           [''-a'', io_package_dir io @ ''/'', stage @ ''/'']),
         bind_act (on_files (symlink_at (io_binary_path io) (path_components (go_join [stage, io_command io])))) (\<lambda>r.
           case r of None \<Rightarrow> nil_act
           | Some e \<Rightarrow> if e = EEXIST then nil_act else fail_act (OsFailed ''create release convenience symlink'' e)),
         file_call ''remove old release dir'' (remove_all_at (path_components dir)),
         file_call ''move release into place'' (rename_at (path_components stage) (path_components dir)),
         labelled ''update current release link'' (replace_symlink link dir),
         labelled ''update visible command link''
           (replace_symlink (visible_command io) (go_join [link, io_binary_path io]))])"

definition verify_installed :: "'w codex_env \<Rightarrow> install_options \<Rightarrow> ('w, unit) pw_act" where
  "verify_installed cx io = in_turn
     [labelled ''verify Codex CLI signature'' (runner_run (cx_base cx) (io_dry_run io) codesign
        [''--verify'', ''--strict'', ''--verbose=2'', visible_command io]),
      labelled ''verify Codex CLI version'' (runner_run (cx_base cx) (io_dry_run io) (visible_command io) [''--version''])]"

section \<open>Reuse of an installed release\<close>

definition verify_candidate :: "'w codex_env \<Rightarrow> install_options \<Rightarrow> string \<Rightarrow> string \<Rightarrow> string \<Rightarrow> ('w, unit) pw_act" where
  "verify_candidate cx io dir version target =
     rbind_act (read_package_metadata cx dir (io_variant io)) (\<lambda>(v, t, _).
     if v \<noteq> version then fail_act (Plain ''release version mismatch'')
     else if t \<noteq> target then fail_act (Plain ''release target mismatch'')
     else let binary = go_join [dir, io_binary_path io] in
       rbind_act (existing_file ''stat release binary'' binary) (\<lambda>_.
       bind_act (exec_combined (cx_base cx) codesign [''--verify'', ''--strict'', ''--verbose=2'', binary]) (\<lambda>(e, out).
         case e of None \<Rightarrow> nil_act | Some x \<Rightarrow> fail_act (CmdFailed codesign x))))"

definition relink_release :: "install_options \<Rightarrow> string \<Rightarrow> ('w, unit) pw_act" where
  "relink_release io dir = in_turn
     [mkdir_path ''create standalone root'' (go_join [io_package_home io, ''packages'', ''standalone'']),
      mkdir_path ''create install dir'' (io_install_dir io),
      labelled ''update current release link'' (replace_symlink (current_link (io_package_home io)) dir),
      labelled ''update visible command link'' (replace_symlink (visible_command io)
        (go_join [current_link (io_package_home io), io_binary_path io]))]"

definition maybe_reuse :: "'w codex_env \<Rightarrow> install_options \<Rightarrow> string \<Rightarrow> string \<Rightarrow> ('w, bool) pw_act" where
  "maybe_reuse cx io version target =
     (if io_force_rebuild io then return_act (Inr False)
      else let dir = release_dir (io_package_home io) in
        bind_act (stat_path dir) (\<lambda>r. case r of
          Inl e \<Rightarrow> if e = ENOENT then return_act (Inr False) else fail_act (OsFailed ''stat release dir'' e)
        | Inr _ \<Rightarrow> bind_act (verify_candidate cx io dir version target) (\<lambda>v. case v of
            Inl _ \<Rightarrow> return_act (Inr False)
          | Inr _ \<Rightarrow> rbind_act (in_turn [relink_release io dir, verify_installed cx io]) (\<lambda>_. return_act (Inr True)))))"

section \<open>The lock and the whole installation\<close>

text \<open>
  The loop of \<open>acquireCodexInstallLock\<close>: what each non-blocking \<open>flock\<close> says is given from outside;
  \<open>None\<close> is a wait that has not ended.
\<close>

fun lock_loop :: "lock_poll list \<Rightarrow> (patch_error, unit) result option" where
  "lock_loop [] = None"
| "lock_loop (LockTaken # ps) = Some (Inr ())"
| "lock_loop (LockRefused # ps) = Some (Inl (Plain ''lock codex-cli install''))"
| "lock_loop (LockBusy cancelled # ps) =
     (if cancelled then Some (Inl (Plain ''wait for codex-cli install lock'')) else lock_loop ps)"

definition lock_path :: "string \<Rightarrow> string" where
  "lock_path src = go_join [codex_build_root src, ''.install.lock'']"

definition open_lock_at :: "string list \<Rightarrow> os \<Rightarrow> os_error option \<times> os" where
  "open_lock_at p = with_path True p (\<lambda>q fs.
     if is_dir fs q then Inl EINVAL else if fs q = None then Inr (Some (fs(q \<mapsto> File []))) else Inr None)"

definition open_lock :: "string \<Rightarrow> ('w, unit) pw_act" where
  "open_lock src = in_turn
     [mkdir_path ''create codex-cli install lock dir'' (go_dir (lock_path src)),
      file_call ''open codex-cli install lock'' (open_lock_at (path_components (lock_path src)))]"

text \<open>What \<open>Install\<close> does once the lock is held, or at once in a dry run.\<close>

definition install_locked :: "'w codex_env \<Rightarrow> install_options \<Rightarrow> build_mode \<Rightarrow> string \<Rightarrow> ('w, unit) pw_act" where
  "install_locked cx io mode target =
     rbind_act (clone_or_update cx (io_dry_run io) (io_repo io) (io_source_dir io) (io_ref io)) (\<lambda>_.
     rbind_act (resolve_build_identity cx io target mode) (\<lambda>ident.
     rbind_act (if io_dry_run io then return_act (Inr False) else maybe_reuse cx io (bi_version ident) target) (\<lambda>reused.
     if reused then nil_act
     else rbind_act (build_stamped cx io target mode ident) (\<lambda>_.
       in_turn [install_package cx io, verify_installed cx io]))))"

definition install_cli :: "'w codex_env \<Rightarrow> install_options \<Rightarrow> 'w pw_sys \<Rightarrow> ((patch_error, unit) result \<times> 'w pw_sys) option" where
  "install_cli cx io s =
     (case validate_install_options io of Some e \<Rightarrow> Some (Inl e, s)
      | None \<Rightarrow> (case parse_build_mode (io_build_mode io) of None \<Rightarrow> Some (Inl (Plain ''unsupported build mode''), s)
      | Some mode \<Rightarrow> (case host_target cx of None \<Rightarrow> Some (Inl (Plain ''unsupported host''), s)
      | Some target \<Rightarrow>
          if io_dry_run io then Some (install_locked cx io mode target s)
          else (case open_lock (io_source_dir io) s of
            (Inl e, s1) \<Rightarrow> Some (Inl e, s1)
          | (Inr _, s1) \<Rightarrow> (case lock_loop (cx_polls cx) of
              None \<Rightarrow> None
            | Some (Inl e) \<Rightarrow> Some (Inl e, s1)
            | Some (Inr _) \<Rightarrow> Some (install_locked cx io mode target s1))))))"

end
