(* ===== verification/Codex_Install_Props.thy ===== *)
theory Codex_Install_Props
  imports Codex_Install Vendor_Binary
begin

text \<open>
  What a successful installation has done, that a dry run does nothing, and how the links of an
  installed release are replaced.
\<close>

section \<open>What the steps add to the log\<close>

abbreviation extends :: "('w pw_sys \<Rightarrow> 'r \<times> 'w pw_sys) \<Rightarrow> bool" where
  "extends a \<equiv> appends pw_log (\<lambda>_. True) a"

text \<open>A dry run only traces.\<close>

fun traced_only :: "pw_event \<Rightarrow> bool" where
  "traced_only (Executed name args ok) \<longleftrightarrow> False"
| "traced_only _ \<longleftrightarrow> True"

lemma appends_files_now [appends_intros]: "appends pw_log P files_now"
  unfolding files_now_def by (intro appends_intros)

lemma appends_is_dir_path [appends_intros]: "appends pw_log P (is_dir_path p)"
  unfolding is_dir_path_def by (intro appends_intros)

lemma appends_existing_file [appends_intros]: "appends pw_log P (existing_file what p)"
  unfolding existing_file_def by (intro appends_intros)

lemma appends_run_in [appends_intros]:
  "P (TraceCommand ''run_command'' name args) \<Longrightarrow> (\<And>b. \<not> dry \<Longrightarrow> P (Executed name args b)) \<Longrightarrow>
     appends pw_log P (run_in cx dry overrides dir name args)"
  unfolding run_in_def by (intro appends_intros)

lemma appends_case_build_mode [appends_intros]:
  "appends lg P a \<Longrightarrow> appends lg P b \<Longrightarrow> appends lg P (case m of ModeRelease \<Rightarrow> a | ModeLocalFast \<Rightarrow> b)"
  by (cases m) simp_all

lemma appends_collect_visits:
  "(\<And>p r acc. appends pw_log P (f p r acc)) \<Longrightarrow> appends pw_log P (collect_visits f vs acc)"
  by (induction f vs acc rule: collect_visits.induct) (auto intro!: appends_intros)

lemma appends_resolve_python:
  "(\<And>c. appends lg P (lookup c)) \<Longrightarrow> appends lg P (resolve_python lookup req cs)"
proof -
  assume l: "\<And>c. appends lg P (lookup c)"
  have fold: "ask_python3 lookup req (c # cs) = bind_act (lookup c) (\<lambda>r. case r of None \<Rightarrow> ask_python3 lookup req cs
      | Some v \<Rightarrow> if c = python3 \<and> at_least v req then return_act True else ask_python3 lookup req cs)"
    "ask_best lookup req (c # cs) best = bind_act (lookup c) (\<lambda>r. case r of None \<Rightarrow> ask_best lookup req cs best
      | Some v \<Rightarrow> ask_best lookup req cs (if \<not> at_least v req then best
             else case best of None \<Rightarrow> Some (c, v) | Some (_, b) \<Rightarrow> if b < v then Some (c, v) else best))" for c cs best
    by (auto simp: fun_eq_iff bind_act_def return_act_def split: prod.split option.split)
  have nil: "ask_python3 lookup req [] = return_act False" "ask_best lookup req [] best = return_act best" for best
    by (auto simp: fun_eq_iff return_act_def)
  have "appends lg P (ask_python3 lookup req cs)"
    by (induction cs) (auto simp only: fold nil intro!: appends_intros l)
  moreover have "appends lg P (ask_best lookup req cs best)" for best
    by (induction cs arbitrary: best) (auto simp only: fold nil intro!: appends_intros l)
  ultimately show ?thesis unfolding resolve_python_def by (intro appends_intros)
qed

lemma extends_resolve_codex_python: "extends (resolve_codex_python cx src)"
  unfolding resolve_codex_python_def lookup_python_def
  by (intro appends_intros appends_resolve_python) simp_all

lemma extends_cargo_build_env: "extends (cargo_build_env cx dry src target no_sccache)"
  unfolding cargo_build_env_def with_temp_script_def Let_def
  by (intro appends_intros extends_resolve_codex_python) simp_all

lemma extends_resolve_identity: "extends (resolve_identity env dry)"
  unfolding resolve_identity_def by (intro appends_intros) simp_all

lemma extends_find_codex_entitlements: "extends (find_codex_entitlements cx src)"
  unfolding find_codex_entitlements_def listing_def entitlement_match_def Let_def
  by (intro appends_intros appends_collect_visits)

lemma extends_prepare_build_source: "extends (prepare_build_source cx dry src ident)"
  unfolding prepare_build_source_def link_target_cache_def stamp_build_source_def stamp_crate_def stamp_file_def Let_def
  by (intro appends_intros) simp_all

lemma extends_prune: "extends (prune_target_cache ca dry cache keep)"
proof -
  have "extends (remove_paths ps)" for ps :: "string list"
    by (induction ps) (auto intro!: appends_intros)
  then have variants: "extends (remove_variants vs)" for vs
    by (induction vs) (auto intro!: appends_intros)
  have dirs: "extends (prune_dirs ca k ds)" for k ds
    by (induction ds) (auto simp: prune_artifact_dir_def intro!: appends_intros variants)
  have sub: "extends (sub_profiles p es)" for p es
    by (induction p es rule: sub_profiles.induct) (auto simp: has_deps_def intro!: appends_intros)
  have tops: "extends (top_profiles ca c es)" for c es
    by (induction ca c es rule: top_profiles.induct) (auto simp: has_deps_def Let_def intro!: appends_intros sub)
  show ?thesis
    unfolding prune_target_cache_def profile_dirs_def by (intro appends_intros dirs tops)
qed

lemma extends_replace_symlink [appends_intros]: "appends pw_log P (replace_symlink link target)"
  unfolding replace_symlink_def Let_def by (intro appends_intros)

lemma extends_install_package: "extends (install_package cx io)"
  unfolding install_package_def Let_def by (intro appends_intros) simp_all

lemma extends_verify_candidate: "extends (verify_candidate cx io dir version target)"
  unfolding verify_candidate_def read_package_metadata_def Let_def
  by (intro appends_intros) simp_all

lemma extends_before:
  "extends (clone_or_update cx dry repo src ref)" "extends (resolve_build_identity cx io target mode)"
  "extends (open_lock src)" "extends (ensure_rust_toolchain cx dry codex_root)"
  "extends (read_stamped_metadata cx io target ident)" "extends (overwrite_package_version cx dir v)"
  unfolding clone_or_update_def resolve_build_identity_def read_source_inputs_def latest_stable_version_def
    git_in_def open_lock_def ensure_rust_toolchain_def read_stamped_metadata_def overwrite_package_version_def
    read_package_metadata_def
  by (intro appends_intros; simp)+

section \<open>A run that succeeds\<close>

lemma in_turn_done: "in_turn [] s = (Inr (), s') \<longleftrightarrow> s' = s"
  by (auto simp: in_turn_def return_act_def)

lemma in_turn_first: "in_turn (a # as) s = (Inr (), s') \<longleftrightarrow> (\<exists>s1. a s = (Inr (), s1) \<and> in_turn as s1 = (Inr (), s'))"
  by (simp add: in_turn_def rbind_act_Inr)

lemma extended: "extends a \<Longrightarrow> a s = (r, s') \<Longrightarrow> \<exists>es. pw_log s' = pw_log s @ es"
  by (auto elim: appendsE)

lemma runner_run_log:
  "runner_run env False name args s = (Inr (), s') \<Longrightarrow>
     pw_log s' = pw_log s @ [TraceCommand ''run_command'' name args, Executed name args True]"
  by (auto simp: runner_run_def tracing_def bind_act_def trace_event_def started_def on_world_def return_act_def
      split: prod.splits option.splits)

lemma run_in_log:
  "run_in cx False env dir name args s = (Inr (), s') \<Longrightarrow>
     pw_log s' = pw_log s @ [TraceCommand ''run_command'' name args, Executed name args True]"
  by (auto simp: run_in_def tracing_def bind_act_def trace_event_def started_def on_world_def return_act_def
      split: prod.splits option.splits)

definition strict_verify_args :: "string \<Rightarrow> string list" where
  "strict_verify_args p = [''--verify'', ''--strict'', ''--verbose=2'', p]"

definition verification_entries :: "install_options \<Rightarrow> pw_event list" where
  "verification_entries io =
     [TraceCommand ''run_command'' codesign (strict_verify_args (visible_command io)),
      Executed codesign (strict_verify_args (visible_command io)) True,
      TraceCommand ''run_command'' (visible_command io) [''--version''],
      Executed (visible_command io) [''--version''] True]"

lemma verify_installed_log:
  assumes "verify_installed cx io s = (Inr (), s')" "\<not> io_dry_run io"
  shows "pw_log s' = pw_log s @ verification_entries io"
  using assms by (auto simp: verify_installed_def in_turn_first in_turn_done labelled_Inr verification_entries_def
      strict_verify_args_def dest!: runner_run_log)

text \<open>The entries of a build: the entrypoint is built, then signed, then packaged.\<close>

definition signed_build :: "'w codex_env \<Rightarrow> install_options \<Rightarrow> build_mode \<Rightarrow> string \<Rightarrow> pw_event list \<Rightarrow> bool" where
  "signed_build cx io mode target es \<longleftrightarrow>
     (\<exists>a b c d identity ent python.
        let src = go_join [codex_build_root (io_source_dir io), ''work''];
            entry = go_join [go_join [src, ''codex-rs''], ''target'', target, ''release'', io_command io] in
        es = a @ Executed ''cargo'' (cargo_build_args cx target mode (io_command io)) True #
             b @ Executed codesign (timestamp_entitlements_args identity ent entry) True #
             c @ Executed python (package_script_args src (io_package_dir io) (io_variant io) target entry) True # d)"

lemma sign_binary_log:
  assumes "sign_binary cx False src binary s = (Inr (), s')"
  shows "\<exists>a identity ent. pw_log s' = pw_log s @ a @ [Executed codesign (timestamp_entitlements_args identity ent binary) True]"
proof -
  from assms obtain ent s1 identity s2 where
    s1: "signing_entitlements cx False src binary s = (Inr ent, s1)"
    and s2: "resolve_identity (cx_base cx) False s1 = (Inr identity, s2)"
    and s': "runner_run (cx_base cx) False codesign (timestamp_entitlements_args identity ent binary) s2 = (Inr (), s')"
    by (auto simp: sign_binary_def rbind_act_Inr labelled_Inr)
  have "extends (signing_entitlements cx False src binary)"
    unfolding signing_entitlements_def by (intro appends_intros extends_find_codex_entitlements)
  from extended [OF this s1] extended [OF extends_resolve_identity s2] runner_run_log [OF s']
  show ?thesis by auto
qed

lemma build_package_log:
  assumes "build_package cx False src dir variant target entry s = (Inr (), s')"
  shows "\<exists>a python. pw_log s' = pw_log s @ a @ [Executed python (package_script_args src dir variant target entry) True]"
proof -
  from assms obtain python s1 where s1: "resolve_codex_python cx src s = (Inr python, s1)"
    and s': "runner_run (cx_base cx) False python (package_script_args src dir variant target entry) s1 = (Inr (), s')"
    by (auto simp: build_package_def rbind_act_Inr labelled_Inr)
  from extended [OF extends_resolve_codex_python s1] runner_run_log [OF s'] show ?thesis by auto
qed

lemma build_entrypoint_log:
  assumes "build_entrypoint cx False src command target mode no_sccache s = (Inr entry, s')"
  shows "entry = go_join [go_join [src, ''codex-rs''], ''target'', target, ''release'', command] \<and>
    (\<exists>a b. pw_log s' = pw_log s @ a @ Executed ''cargo'' (cargo_build_args cx target mode command) True # b)"
proof -
  let ?root = "go_join [src, ''codex-rs'']"
  let ?entry = "go_join [?root, ''target'', target, ''release'', command]"
  from assms obtain s1 env sccache used s2 s3 s4 where
    s1: "ensure_rust_toolchain cx False ?root s = (Inr (), s1)"
    and s2: "cargo_build_env cx False src target no_sccache s1 = (Inr (env, sccache, used), s2)"
    and s3: "run_in cx False env ?root ''cargo'' (cargo_build_args cx target mode command) s2 = (Inr (), s3)"
    and s4: "(if used then best_effort (runner_run (cx_base cx) False sccache [''--show-stats'']) else nil_act) s3 = (Inr (), s4)"
    and last: "bind_act (stat_path ?entry) (\<lambda>r. case r of
        Inl e \<Rightarrow> fail_act (OsFailed ''stat built Codex entrypoint'' e) | Inr _ \<Rightarrow> return_act (Inr ?entry)) s4 = (Inr entry, s')"
    by (auto simp: build_entrypoint_def rbind_act_Inr labelled_Inr Let_def split: prod.splits)
  have e4: "extends (if used then best_effort (runner_run (cx_base cx) False sccache [''--show-stats'']) else nil_act)"
    by (intro appends_intros) simp_all
  have e5: "extends (bind_act (stat_path ?entry) (\<lambda>r. case r of
        Inl e \<Rightarrow> fail_act (OsFailed ''stat built Codex entrypoint'' e) | Inr _ \<Rightarrow> return_act (Inr ?entry)))"
    by (intro appends_intros)
  have "entry = ?entry" using last by (auto simp: bind_act_def fail_act_def return_act_def split: prod.splits sum.splits)
  moreover obtain a where "pw_log s2 = pw_log s @ a"
    using extended [OF extends_before(4) s1] extended [OF extends_cargo_build_env s2] by auto
  moreover obtain b where "pw_log s' = pw_log s3 @ b"
    using extended [OF e4 s4] extended [OF e5 last] by auto
  ultimately show ?thesis using run_in_log [OF s3]
    by (intro conjI exI [of _ "a @ [TraceCommand ''run_command'' ''cargo'' (cargo_build_args cx target mode command)]"]
        exI [of _ b]) simp_all
qed

lemma build_stamped_log:
  assumes "build_stamped cx io target mode ident s = (Inr md, s')" "\<not> io_dry_run io"
  shows "\<exists>es. pw_log s' = pw_log s @ es \<and> signed_build cx io mode target es"
proof -
  let ?src = "go_join [codex_build_root (io_source_dir io), ''work'']"
  from assms obtain src s1 entry s2 s3 s4 s5 s6 where
    s1: "prepare_build_source cx False (io_source_dir io) ident s = (Inr src, s1)"
    and s2: "build_entrypoint cx False src (io_command io) target mode (io_no_sccache io) s1 = (Inr entry, s2)"
    and s3: "sign_binary cx False src entry s2 = (Inr (), s3)"
    and s4: "build_package cx False src (io_package_dir io) (io_variant io) target entry s3 = (Inr (), s4)"
    and s5: "overwrite_package_version cx (io_package_dir io) (bi_version ident) s4 = (Inr (), s5)"
    and s6: "bind_act (prune_target_cache (cx_cargo cx) False (go_join [codex_build_root (io_source_dir io), ''target'']) target_cache_keep)
           (\<lambda>_. nil_act) s5 = (Inr (), s6)"
    and s7: "read_stamped_metadata cx io target ident s6 = (Inr md, s')"
    by (auto simp: build_stamped_def rbind_act_Inr Let_def in_turn_first in_turn_done)
  have src: "src = ?src" using s1 by (auto simp: prepare_build_source_def Let_def rbind_act_Inr return_act_def
        elim!: bind_act_cases)
  have e6: "extends (bind_act (prune_target_cache (cx_cargo cx) False (go_join [codex_build_root (io_source_dir io), ''target'']) target_cache_keep)
           (\<lambda>_. nil_act))" by (intro appends_intros extends_prune)
  from extended [OF extends_prepare_build_source s1] obtain l1 where l1: "pw_log s1 = pw_log s @ l1" by blast
  from build_entrypoint_log [OF s2] obtain a b where entry: "entry = go_join [go_join [src, ''codex-rs''], ''target'', target, ''release'', io_command io]"
    and l2: "pw_log s2 = pw_log s1 @ a @ Executed ''cargo'' (cargo_build_args cx target mode (io_command io)) True # b" by blast
  from sign_binary_log [OF s3] obtain c identity ent where
    l3: "pw_log s3 = pw_log s2 @ c @ [Executed codesign (timestamp_entitlements_args identity ent entry) True]" by blast
  from build_package_log [OF s4] obtain d python where
    l4: "pw_log s4 = pw_log s3 @ d @ [Executed python (package_script_args src (io_package_dir io) (io_variant io) target entry) True]" by blast
  from extended [OF extends_before(6) s5] extended [OF e6 s6] extended [OF extends_before(5) s7]
  obtain f where l5: "pw_log s' = pw_log s4 @ f" by auto
  have "signed_build cx io mode target (l1 @ a @ Executed ''cargo'' (cargo_build_args cx target mode (io_command io)) True #
      (b @ c) @ Executed codesign (timestamp_entitlements_args identity ent entry) True #
      d @ Executed python (package_script_args src (io_package_dir io) (io_variant io) target entry) True # f)"
    unfolding signed_build_def Let_def entry src
    by (rule exI [of _ "l1 @ a"], rule exI [of _ "b @ c"], rule exI [of _ d], rule exI [of _ f]) auto
  with l1 l2 l3 l4 l5 show ?thesis by auto
qed

lemma verify_candidate_log:
  assumes "verify_candidate cx io dir version target s = (Inr (), s')"
  shows "\<exists>a. pw_log s' = pw_log s @ a @ [Executed codesign (strict_verify_args (go_join [dir, io_binary_path io])) True]"
proof -
  let ?bin = "go_join [dir, io_binary_path io]"
  from assms obtain md s1 s2 out where
    s1: "read_package_metadata cx dir (io_variant io) s = (Inr md, s1)"
    and s2: "existing_file ''stat release binary'' ?bin s1 = (Inr (), s2)"
    and s': "exec_combined (cx_base cx) codesign [''--verify'', ''--strict'', ''--verbose=2'', ?bin] s2 = ((None, out), s')"
    by (auto simp: verify_candidate_def rbind_act_Inr Let_def nil_act_def fail_act_def return_act_def
        split: prod.splits if_splits option.splits elim!: bind_act_cases)
  have e1: "extends (read_package_metadata cx dir (io_variant io))"
    unfolding read_package_metadata_def by (intro appends_intros)
  have "pw_log s' = pw_log s2 @ [Executed codesign (strict_verify_args ?bin) True]"
    using s' by (auto simp: exec_combined_def started_def on_world_def bind_act_def trace_event_def return_act_def
        strict_verify_args_def split: prod.splits)
  with extended [OF e1 s1] extended [OF appends_existing_file s2] show ?thesis by auto
qed

text \<open>The binary of the release a reuse accepts.\<close>

definition release_binary :: "install_options \<Rightarrow> string" where
  "release_binary io = go_join [release_dir (io_package_home io), io_binary_path io]"

lemma maybe_reuse_log:
  assumes "maybe_reuse cx io version target s = (Inr reused, s')" "\<not> io_dry_run io" reused
  shows "\<not> io_force_rebuild io \<and> (\<exists>a. Executed codesign (strict_verify_args (release_binary io)) True \<in> set a \<and>
    pw_log s' = pw_log s @ a @ verification_entries io)"
proof -
  let ?dir = "release_dir (io_package_home io)"
  from assms(1,3) obtain r s1 s2 s3 where f: "\<not> io_force_rebuild io"
    and s1: "stat_path ?dir s = (r, s1)"
    and s2: "verify_candidate cx io ?dir version target s1 = (Inr (), s2)"
    and s3: "relink_release io ?dir s2 = (Inr (), s3)" and s': "verify_installed cx io s3 = (Inr (), s')"
    by (auto simp: maybe_reuse_def Let_def rbind_act_Inr in_turn_first in_turn_done return_act_def fail_act_def
        split: if_splits sum.splits elim!: bind_act_cases)
  have e3: "extends (relink_release io ?dir)" unfolding relink_release_def by (intro appends_intros)
  from extended [OF appends_stat_path s1] verify_candidate_log [OF s2] extended [OF e3 s3]
  obtain a b c where "pw_log s3 = pw_log s @ a @ b @ Executed codesign (strict_verify_args (release_binary io)) True # c"
    by (auto simp: release_binary_def)
  with verify_installed_log [OF s' assms(2)] f show ?thesis
    by (intro conjI exI [of _ "a @ b @ Executed codesign (strict_verify_args (release_binary io)) True # c"]) simp_all
qed

lemma extends_maybe_reuse: "extends (maybe_reuse cx io version target)"
  unfolding maybe_reuse_def relink_release_def verify_installed_def Let_def
  by (intro appends_intros extends_verify_candidate) simp_all

lemma install_locked_log:
  assumes "install_locked cx io mode target s = (Inr (), s')" "\<not> io_dry_run io"
  shows "\<exists>l. pw_log s' = pw_log s @ l @ verification_entries io \<and>
    (\<not> io_force_rebuild io \<and> Executed codesign (strict_verify_args (release_binary io)) True \<in> set l \<or>
     (\<exists>a b c. l = a @ b @ c \<and> signed_build cx io mode target b))"
proof -
  from assms obtain s1 ident s2 reused s3 where
    s1: "clone_or_update cx False (io_repo io) (io_source_dir io) (io_ref io) s = (Inr (), s1)"
    and s2: "resolve_build_identity cx io target mode s1 = (Inr ident, s2)"
    and s3: "maybe_reuse cx io (bi_version ident) target s2 = (Inr reused, s3)"
    and rest: "(if reused then nil_act else rbind_act (build_stamped cx io target mode ident) (\<lambda>_.
       in_turn [install_package cx io, verify_installed cx io])) s3 = (Inr (), s')"
    by (auto simp: install_locked_def rbind_act_Inr)
  from extended [OF extends_before(1) s1] extended [OF extends_before(2) s2]
  obtain a where a: "pw_log s2 = pw_log s @ a" by auto
  show ?thesis
  proof (cases reused)
    case True
    with rest have "s' = s3" by (simp add: nil_act_def return_act_def)
    from maybe_reuse_log [OF s3 assms(2) True] obtain b where
      "\<not> io_force_rebuild io" "Executed codesign (strict_verify_args (release_binary io)) True \<in> set b"
      "pw_log s3 = pw_log s2 @ b @ verification_entries io" by blast
    with a \<open>s' = s3\<close> show ?thesis by (intro exI [of _ "a @ b"]) simp
  next
    case False
    with rest obtain md s4 s5 where s4: "build_stamped cx io target mode ident s3 = (Inr md, s4)"
      and s5: "install_package cx io s4 = (Inr (), s5)" and s': "verify_installed cx io s5 = (Inr (), s')"
      by (auto simp: rbind_act_Inr in_turn_first in_turn_done)
    from build_stamped_log [OF s4 assms(2)] obtain es where
      es: "pw_log s4 = pw_log s3 @ es" "signed_build cx io mode target es" by blast
    from extended [OF extends_maybe_reuse s3] obtain b where b: "pw_log s3 = pw_log s2 @ b" by auto
    from extended [OF extends_install_package s5] obtain c where c: "pw_log s5 = pw_log s4 @ c" by auto
    from a b c es verify_installed_log [OF s' assms(2)]
    have "pw_log s' = pw_log s @ ((a @ b) @ es @ c) @ verification_entries io" by simp
    with es(2) show ?thesis by blast
  qed
qed


section \<open>A dry run\<close>

lemma keeps_files_now [keeps_intros]: "keeps tree_of files_now"
  unfolding files_now_def by (intro keeps_intros)

lemma keeps_is_dir_path [keeps_intros]: "keeps tree_of (is_dir_path p)"
  unfolding is_dir_path_def by (intro keeps_intros)

lemma keeps_run_in_dry [keeps_intros]: "keeps tree_of (run_in cx True env dir name args)"
  unfolding run_in_def by (simp add: keeps_intros)

lemma dry_steps:
  assumes "io_dry_run io"
  shows "keeps tree_of (install_locked cx io mode target)" "appends pw_log traced_only (install_locked cx io mode target)"
  unfolding install_locked_def clone_or_update_def resolve_build_identity_def build_stamped_def prepare_build_source_def
    build_entrypoint_def ensure_rust_toolchain_def cargo_build_env_def sign_binary_def signing_entitlements_def
    build_package_def prune_target_cache_def read_stamped_metadata_def install_package_def verify_installed_def
    resolve_identity_def Let_def if_True eqTrueI [OF assms]
  subgoal by (intro keeps_intros)
  subgoal by (intro appends_intros) simp_all
  done

text \<open>C28.
  A dry run of an installation always returns; it changes no file in any state it goes through
  and starts no program at all.
\<close>
theorem install_dry_run_inert:
  assumes "io_dry_run io"
  shows "\<exists>r s'. install_cli cx io s = Some (r, s') \<and> tree_of s' = tree_of s \<and>
    (\<exists>es. pw_log s' = pw_log s @ es \<and> list_all traced_only es)"
proof (cases "\<exists>mode target. install_cli cx io s = Some (install_locked cx io mode target s)")
  case True
  then obtain mode target where i: "install_cli cx io s = Some (install_locked cx io mode target s)" by blast
  obtain r s' where r: "install_locked cx io mode target s = (r, s')" by fastforce
  from keepsD [OF dry_steps(1) [OF assms] r] appendsE [OF dry_steps(2) [OF assms] r] i r
  show ?thesis by (metis (no_types, lifting))
next
  case False
  with assms have "\<exists>e. install_cli cx io s = Some (Inl e, s)"
    by (auto simp: install_cli_def split: option.splits)
  then show ?thesis by auto
qed

end
