(* ===== verification/Codex_Links.thy ===== *)
theory Codex_Links
  imports Codex_Install_Props
begin

text \<open>
  How \<open>replaceSymlink\<close> (\<open>internal/codexcli/codexcli.go\<close>) replaces the links of an installed
  release: what is at the place of the link at every moment.
\<close>

text \<open>Every directory on the way to \<open>rc\<close> is one and no link; below it anything may be.\<close>

definition plain_dir :: "fpath \<Rightarrow> filesys \<Rightarrow> bool" where
  "plain_dir rc fs \<longleftrightarrow> ''..'' \<notin> set rc \<and> (\<forall>q. prefix q rc \<longrightarrow> is_dir fs q)"

abbreviation link_place :: "fpath \<Rightarrow> string \<Rightarrow> fpath" where
  "link_place rc x \<equiv> rc @ [x]"

abbreviation tmp_place :: "fpath \<Rightarrow> string \<Rightarrow> fpath" where
  "tmp_place rc x \<equiv> rc @ [x @ ''.tmp'']"

lemma walk_dirs:
  assumes "''..'' \<notin> set cs" "\<And>q. prefix q cs \<Longrightarrow> q \<noteq> [] \<Longrightarrow> fs (cur @ q) = Some Dir"
  shows "walk n fs follow cur (cs @ ms) = walk n fs follow (cur @ cs) ms"
  using assms
proof (induction cs arbitrary: cur)
  case (Cons c cs)
  have "fs (cur @ [c]) = Some Dir" using Cons.prems(2) [of "[c]"] by simp
  moreover have "walk n fs follow (cur @ [c]) (cs @ ms) = walk n fs follow ((cur @ [c]) @ cs) ms"
  proof (rule Cons.IH)
    fix q :: fpath assume "prefix q cs" "q \<noteq> []"
    with Cons.prems(2) [of "c # q"] show "fs ((cur @ [c]) @ q) = Some Dir" by simp
  qed (use Cons.prems(1) in simp)
  ultimately show ?case using Cons.prems(1) by auto
qed simp

lemma resolve_entry:
  assumes "plain_dir rc fs" "x \<noteq> ''..''"
  shows "resolve False (rc @ [x]) fs = Inr (rc @ [x])"
proof -
  have "walk max_links fs False [] (rc @ [x]) = walk max_links fs False ([] @ rc) [x]"
    by (rule walk_dirs) (use assms(1) in \<open>auto simp: plain_dir_def is_dir_def\<close>)
  also have "\<dots> = Inr (link_place rc x)" using assms(2) by (auto split: option.split fnode.split)
  finally show ?thesis by (simp add: resolve_def)
qed

lemma tmp_components:
  assumes "is_abs a" "proper_elem x"
  shows "path_components (go_join [a, x]) = path_components a @ [x]"
    "path_components (go_join [a, x] @ ''.tmp'') = path_components a @ [x @ ''.tmp'']"
proof -
  have y: "proper_elem (x @ ''.tmp'')" by (rule proper_suffix [OF assms(2)]) (simp_all add: slash_def)
  have ren: "go_join [a, z] = slash # join [slash] (path_components a @ [z])" if "proper_elem z" for z
  proof -
    have "clean (a @ slash # z) = (True, path_components a @ [z])"
      using assms(1) that split_on_proper [of "[z]"] clean_elems_proper [of "[z]"]
      by (simp add: clean_join_rooted path_components_def del: clean_elems.simps)
    moreover have "a \<noteq> []" using assms(1) by (auto simp: is_abs_def)
    ultimately show ?thesis by (simp add: go_join_def go_clean_def)
  qed
  have "go_join [a, x] @ ''.tmp'' = go_join [a, x @ ''.tmp'']"
    by (simp add: ren [OF assms(2)] ren [OF y] join_snoc)
  then show "path_components (go_join [a, x]) = path_components a @ [x]"
    "path_components (go_join [a, x] @ ''.tmp'') = path_components a @ [x @ ''.tmp'']"
    using components_join(1) [OF assms(1), of "[x]"] components_join(1) [OF assms(1), of "[x @ ''.tmp'']"] assms(2) y
    by simp_all
qed

text \<open>Only the link and its temporary name change.\<close>

definition only_link :: "fpath \<Rightarrow> string \<Rightarrow> filesys \<Rightarrow> filesys \<Rightarrow> bool" where
  "only_link rc x fs0 fs \<longleftrightarrow>
     (\<forall>q. \<not> prefix (link_place rc x) q \<and> \<not> prefix (tmp_place rc x) q \<longrightarrow> fs q = fs0 q)"

lemma only_link_dir: "only_link rc x fs0 fs \<Longrightarrow> plain_dir rc fs0 \<Longrightarrow> plain_dir rc fs"
proof -
  assume a: "only_link rc x fs0 fs" "plain_dir rc fs0"
  have "fs q = fs0 q" if "prefix q rc" for q
  proof -
    from that have "length q \<le> length rc" by (rule prefix_length_le)
    then have "\<not> prefix (rc @ [z]) q" for z by (auto dest: prefix_length_le)
    with a(1) show ?thesis by (simp add: only_link_def)
  qed
  with a(2) show "plain_dir rc fs" by (simp add: plain_dir_def is_dir_def)
qed

lemma only_link_refl [simp]: "only_link rc x fs fs"
  by (simp add: only_link_def)

lemma only_link_trans: "only_link rc x a b \<Longrightarrow> only_link rc x b c \<Longrightarrow> only_link rc x a c"
  by (simp add: only_link_def)

lemma tmp_up: "x @ ''.tmp'' \<noteq> ''..''"
  by (cases x) auto

lemma places:
  assumes pl: "plain_dir rc fs0" "x \<noteq> ''..''"
    and "only_link rc x fs0 fs"
  shows "resolve False (link_place rc x) fs = Inr (link_place rc x)" "resolve False (tmp_place rc x) fs = Inr (tmp_place rc x)"
  using resolve_entry [OF only_link_dir [OF assms(3) pl(1)]] pl(2) tmp_up by simp_all

text \<open>One call: where it leaves the tree, given that it started within the two places.\<close>

lemma remove_tmp:
  assumes pl: "plain_dir rc fs0" "x \<noteq> ''..''"
    and a: "only_link rc x fs0 (os_fs w)" "remove_at (tmp_place rc x) w = (r, w')"
  shows "throughout (only_link rc x fs0) w w'"
proof -
  obtain f w1 where f: "next_fault w = (f, w1)" by fastforce
  note s = next_fault_same [OF f]
  have t: "throughout (only_link rc x fs0) w w1" using s a by (intro throughout_same) auto
  have "only_link rc x fs0 ((os_fs w1)(tmp_place rc x := v))" for v
    using s a by (auto simp: only_link_def)
  from throughout_put [OF t this] t assms(4) f places(2) [OF pl a(1)] s show ?thesis
    by (auto simp: remove_at_def Let_def simp del: fun_upd_apply split: fault.splits if_splits)
qed

lemma make_tmp:
  assumes pl: "plain_dir rc fs0" "x \<noteq> ''..''"
    and a: "only_link rc x fs0 (os_fs w)" "symlink_at target (tmp_place rc x) w = (r, w')"
  shows "throughout (only_link rc x fs0) w w'"
    "r = None \<Longrightarrow> os_fs w' = (os_fs w)(tmp_place rc x \<mapsto> Symlink target) \<and> os_fs w (tmp_place rc x) = None"
proof -
  obtain f w1 where f: "next_fault w = (f, w1)" by fastforce
  note s = next_fault_same [OF f]
  have t: "throughout (only_link rc x fs0) w w1" using s a by (intro throughout_same) auto
  have o1: "only_link rc x fs0 ((os_fs w1)(tmp_place rc x := v))" for v
    using s a by (auto simp: only_link_def)
  from throughout_put [OF t o1] t assms(4) f places(2) [OF pl a(1)] s show "throughout (only_link rc x fs0) w w'"
    by (auto simp: symlink_at_def Let_def simp del: fun_upd_apply split: fault.splits if_splits)
  show "r = None \<Longrightarrow> os_fs w' = (os_fs w)(tmp_place rc x \<mapsto> Symlink target) \<and> os_fs w (tmp_place rc x) = None"
    using assms(4) f places(2) [OF pl a(1)] s
    by (auto simp: symlink_at_def Let_def split: fault.splits if_splits)
qed

lemma tmp_apart: "\<not> prefix (link_place rc x) (tmp_place rc x)" "\<not> prefix (tmp_place rc x) (link_place rc x)" "(link_place rc x) \<noteq> (tmp_place rc x)"
  by simp_all

lemma drop_link:
  assumes pl: "plain_dir rc fs0" "x \<noteq> ''..''"
    and a: "only_link rc x fs0 (os_fs w)" "remove_all_at (link_place rc x) w = (r, w')"
  shows "throughout (only_link rc x fs0) w w'" "os_fs w' (tmp_place rc x) = os_fs w (tmp_place rc x)"
    "r = None \<Longrightarrow> os_fs w' (link_place rc x) = None \<and> os_trail w' = os_fs w' # os_trail w"
proof -
  obtain f w1 where f: "next_fault w = (f, w1)" by fastforce
  note s = next_fault_same [OF f]
  have t: "throughout (only_link rc x fs0) w w1" using s a by (intro throughout_same) auto
  have o1: "only_link rc x fs0 (drop_tree (link_place rc x) keep (os_fs w1))" for keep
    using s a by (auto simp: only_link_def drop_tree_def)
  have p: "resolve False (link_place rc x) (os_fs w1) = Inr (link_place rc x)" using places(1) [OF pl a(1)] s by simp
  from throughout_put [OF t o1] assms(4) f p show "throughout (only_link rc x fs0) w w'"
    by (auto simp: remove_all_at_def Let_def split: fault.splits)
  show "os_fs w' (tmp_place rc x) = os_fs w (tmp_place rc x)"
    "r = None \<Longrightarrow> os_fs w' (link_place rc x) = None \<and> os_trail w' = os_fs w' # os_trail w"
    using assms(4) f p s tmp_apart by (auto simp: remove_all_at_def Let_def drop_tree_def split: fault.splits)
qed

lemma promote_tmp:
  assumes pl: "plain_dir rc fs0" "x \<noteq> ''..''"
    and a: "only_link rc x fs0 (os_fs w)" "os_fs w (tmp_place rc x) = Some (Symlink target)" "os_fs w (link_place rc x) = None"
    and "rename_at (tmp_place rc x) (link_place rc x) w = (r, w')"
  shows "throughout (only_link rc x fs0) w w'"
    "r = None \<Longrightarrow> os_fs w' (link_place rc x) = Some (Symlink target) \<and> os_fs w' (tmp_place rc x) = None"
    "fst (next_fault w) \<noteq> NoFault \<Longrightarrow> r \<noteq> None \<and> os_fs w' = os_fs w"
proof -
  obtain f w1 where f: "next_fault w = (f, w1)" by fastforce
  note s = next_fault_same [OF f]
  have t: "throughout (only_link rc x fs0) w w1" using s a by (intro throughout_same) auto
  have o1: "only_link rc x fs0 (move_tree (tmp_place rc x) (link_place rc x) (os_fs w1))"
    using s a by (auto simp: only_link_def move_tree_def)
  have p: "resolve False (link_place rc x) (os_fs w1) = Inr (link_place rc x)" "resolve False (tmp_place rc x) (os_fs w1) = Inr (tmp_place rc x)"
    using places [OF pl a(1)] s by simp_all
  from throughout_put [OF t o1] t assms(4-6) f p s show "throughout (only_link rc x fs0) w w'"
    by (auto simp: rename_at_def with_path_def split: fault.splits)
  show "r = None \<Longrightarrow> os_fs w' (link_place rc x) = Some (Symlink target) \<and> os_fs w' (tmp_place rc x) = None"
    "fst (next_fault w) \<noteq> NoFault \<Longrightarrow> r \<noteq> None \<and> os_fs w' = os_fs w"
    using assms(4-6) f p s tmp_apart by (auto simp: rename_at_def with_path_def move_tree_def split: fault.splits)
qed

section \<open>The whole replacement\<close>

lemma on_files_run: "on_files f s = (r, s') \<Longrightarrow> f (pw_os s) = (r, pw_os s')"
  by (auto simp: on_files_def on_world_def split: prod.splits)

lemma throughout_step:
  assumes "throughout (only_link rc x fs0) u v" "only_link rc x fs0 (os_fs v) \<Longrightarrow> throughout (only_link rc x fs0) v w"
  shows "throughout (only_link rc x fs0) u w"
  using assms throughout_last throughout_trans by blast

text \<open>The states of the run, newest first: those the trail has gained.\<close>

definition moments :: "os \<Rightarrow> os \<Rightarrow> filesys set" where
  "moments w w' = {fs. \<exists>new. os_trail w' = new @ os_trail w \<and> fs \<in> set new}"

text \<open>C24.
  Replacing a link touches nothing but the link and its temporary name, at any moment and whatever
  calls fail. When it succeeds the new link is in place and the temporary one gone; but in every
  successful run there is a moment with no link at all, since the old one is removed before the new
  one is renamed.
\<close>
theorem link_replaced:
  assumes "is_abs a" "proper_elem x" "plain_dir (path_components a) (os_fs (pw_os s))"
    and "replace_symlink (go_join [a, x]) target s = (r, s')"
  shows "throughout (only_link (path_components a) x (os_fs (pw_os s))) (pw_os s) (pw_os s') \<and>
    (r = Inr () \<longrightarrow>
       os_fs (pw_os s') (link_place (path_components a) x) = Some (Symlink target) \<and>
       os_fs (pw_os s') (tmp_place (path_components a) x) = None \<and>
       (\<exists>fs\<in>moments (pw_os s) (pw_os s'). fs (link_place (path_components a) x) = None))"
proof -
  let ?rc = "path_components a" and ?fs0 = "os_fs (pw_os s)"
  let ?T = "throughout (only_link ?rc x ?fs0)"
  note comps = tmp_components [OF assms(1,2)]
  have x: "x \<noteq> ''..''" using assms(2) by (simp add: proper_elem_def)
  note pl = assms(3) x
  from assms(4) obtain r1 s1 r2 s2 where
    s1: "remove_at (tmp_place ?rc x) (pw_os s) = (r1, pw_os s1)"
    and s2: "file_call ''create symlink'' (symlink_at target (tmp_place ?rc x)) s1 = (r2, s2)"
    and rest: "(case r2 of Inl e \<Rightarrow> \<lambda>s. (Inl e, s) | Inr _ \<Rightarrow>
      bind_act (file_call ''remove existing link path'' (remove_all_at (link_place ?rc x))) (\<lambda>r.
      case r of Inl e \<Rightarrow> bind_act (on_files (remove_at (tmp_place ?rc x))) (\<lambda>_. fail_act e)
      | Inr _ \<Rightarrow> file_call ''promote symlink'' (rename_at (tmp_place ?rc x) (link_place ?rc x)))) s2 = (r, s')"
    by (auto simp: replace_symlink_def comps Let_def rbind_act_def elim!: bind_act_cases dest!: on_files_run)
  have t1: "?T (pw_os s) (pw_os s1)" by (rule remove_tmp [OF pl _ s1]) simp
  from file_call_run [OF s2] obtain e2 where e2: "symlink_at target (tmp_place ?rc x) (pw_os s1) = (e2, pw_os s2)"
    "r2 = (case e2 of Some e \<Rightarrow> Inl (OsFailed ''create symlink'' e) | None \<Rightarrow> Inr ())" by blast
  note m2 = make_tmp [OF pl throughout_last [OF t1] e2(1)]
  have t2: "?T (pw_os s) (pw_os s2)" using t1 m2(1) by (rule throughout_trans)
  show ?thesis
  proof (cases e2)
    case (Some e)
    with e2 rest t2 show ?thesis by auto
  next
    case None
    with e2 rest obtain r3 s3 where
      s3: "file_call ''remove existing link path'' (remove_all_at (link_place ?rc x)) s2 = (r3, s3)"
      and rest: "(case r3 of Inl e \<Rightarrow> bind_act (on_files (remove_at (tmp_place ?rc x))) (\<lambda>_. fail_act e)
      | Inr _ \<Rightarrow> file_call ''promote symlink'' (rename_at (tmp_place ?rc x) (link_place ?rc x))) s3 = (r, s')"
      by (auto elim!: bind_act_cases)
    from file_call_run [OF s3] obtain e3 where e3: "remove_all_at (link_place ?rc x) (pw_os s2) = (e3, pw_os s3)"
      "r3 = (case e3 of Some e \<Rightarrow> Inl (OsFailed ''remove existing link path'' e) | None \<Rightarrow> Inr ())" by blast
    note m3 = drop_link [OF pl throughout_last [OF t2] e3(1)]
    have t3: "?T (pw_os s) (pw_os s3)" using t2 m3(1) by (rule throughout_trans)
    show ?thesis
    proof (cases e3)
      case (Some e)
      with e3 rest obtain r4 s4 where "remove_at (tmp_place ?rc x) (pw_os s3) = (r4, pw_os s')" "\<exists>e. r = Inl e"
        by (auto simp: fail_act_def return_act_def elim!: bind_act_cases dest!: on_files_run)
      with remove_tmp [OF pl throughout_last [OF t3]] throughout_trans [OF t3] show ?thesis by blast
    next
      case None
      with e3 rest have s4: "file_call ''promote symlink'' (rename_at (tmp_place ?rc x) (link_place ?rc x)) s3 = (r, s')" by simp
      from file_call_run [OF s4] obtain e4 where e4: "rename_at (tmp_place ?rc x) (link_place ?rc x) (pw_os s3) = (e4, pw_os s')"
        "r = (case e4 of Some e \<Rightarrow> Inl (OsFailed ''promote symlink'' e) | None \<Rightarrow> Inr ())" by blast
      have tmp: "os_fs (pw_os s3) (tmp_place ?rc x) = Some (Symlink target)"
        using m2(2) m3(2) e2 \<open>e2 = None\<close> by simp
      have gone: "os_fs (pw_os s3) (link_place ?rc x) = None" "os_trail (pw_os s3) = os_fs (pw_os s3) # os_trail (pw_os s2)"
        using m3(3) None by simp_all
      note m4 = promote_tmp [OF pl throughout_last [OF t3] tmp gone(1) e4(1)]
      have t4: "?T (pw_os s) (pw_os s')" using t3 m4(1) by (rule throughout_trans)
      from t2 obtain n2 where "os_trail (pw_os s2) = n2 @ os_trail (pw_os s)" unfolding throughout_def by blast
      moreover from m4(1) obtain n4 where "os_trail (pw_os s') = n4 @ os_trail (pw_os s3)" unfolding throughout_def by blast
      ultimately have "os_fs (pw_os s3) \<in> moments (pw_os s) (pw_os s')"
        using gone(2) by (auto simp: moments_def)
      with t4 m4(2) e4(2) gone(1) show ?thesis by (cases e4) auto
    qed
  qed
qed

section \<open>An example\<close>

text \<open>A tree of directories, but for the package metadata, the binary, and the places of the links.\<close>

definition demo_tree :: filesys where
  "demo_tree = (\<lambda>p. if p = [] then None
     else if last p = ''codex-package.json'' \<or> last p = ''bin'' then Some (File [])
     else if last p = ''current'' then Some (Symlink ''old'')
     else if last p = ''codex'' \<or> suffix ''.tmp'' (last p) \<or> last p = ''.install.lock'' then None
     else Some Dir)"

definition demo_files :: os where
  "demo_files = \<lparr>os_fs = demo_tree, os_faults = [], os_trail = []\<rparr>"

definition demo_codex_sys :: "unit pw_sys" where
  "demo_codex_sys = \<lparr>pw_os = demo_files, pw_ext = (), pw_log = []\<rparr>"

lemma link_replaced_witness:
  "fst (replace_symlink (go_join [''/h'', ''current'']) ''new'' demo_codex_sys) = Inr () \<and>
   os_fs (pw_os (snd (replace_symlink (go_join [''/h'', ''current'']) ''new'' demo_codex_sys))) [''h'', ''current''] =
     Some (Symlink ''new'')"
proof -
  have r: "fst (replace_symlink (go_join [''/h'', ''current'']) ''new'' demo_codex_sys) = Inr ()" by code_simp
  have h: "path_components ''/h'' = [''h'']" by code_simp
  have p: "plain_dir (path_components ''/h'') (os_fs (pw_os demo_codex_sys))"
    unfolding h plain_dir_def by (auto simp: prefix_Cons demo_codex_sys_def demo_files_def demo_tree_def is_dir_def
        dest: suffix_length_le)
  have "proper_elem ''current''" "is_abs ''/h''" by (simp_all add: proper_elem_def is_abs_def slash_def)
  from link_replaced [OF this(2,1) p prod.collapse [symmetric], of "''new''"] r show ?thesis
    by (simp add: h)
qed

text \<open>The release that is there is reused: its metadata and its signature are accepted.\<close>

definition demo_install_options :: install_options where
  "demo_install_options = \<lparr>io_dry_run = False, io_repo = ''r'', io_source_dir = ''/b/src'', io_ref = ''origin/main'',
     io_package_dir = ''/b/package'', io_variant = ''v'', io_binary_path = ''bin'', io_command = ''codex'',
     io_install_dir = ''/i'', io_package_home = ''/h'', io_build_mode = ''release'', io_no_sccache = False,
     io_force_rebuild = False\<rparr>"

definition demo_git :: "string \<Rightarrow> string list \<Rightarrow> string" where
  "demo_git name args = (if ''ls-remote'' \<in> set args then ''0'' @ [CHR 0x09] @ ''refs/tags/rust-v1.2.3'' else ''abc'')"

definition demo_codex_env :: "unit codex_env" where
  "demo_codex_env = \<lparr>cx_base = demo_patch_env\<lparr>pe_output := \<lambda>name args w. (Inr (demo_git name args), w)\<rparr>,
     cx_cargo = demo_cargo, cx_exec_in = (\<lambda>_ _ _ _ w. (None, w)), cx_environ = [], cx_getenv = (\<lambda>_. []),
     cx_look_path = (\<lambda>_ _. None), cx_read_dir = (\<lambda>_ _. None), cx_goos = ''darwin'', cx_goarch = ''arm64'', cx_cpus = 1,
     cx_sha256 = (\<lambda>_. []), cx_requires = (\<lambda>_. None),
     cx_metadata = (\<lambda>_. Some (''1.2.3-main.abc+tree.abc.build.'', ''aarch64-apple-darwin'', ''v'')),
     cx_set_version = (\<lambda>_ _. None), cx_script_path = ''/t'', cx_script = [], cx_polls = [LockBusy False, LockTaken]\<rparr>"

lemma required_none:
  assumes "list_all (\<lambda>(k, v). trim_space v \<noteq> []) opts"
  shows "required_option_name opts = []"
proof -
  have "find (\<lambda>n. trim_space (the (map_of opts n)) = []) (sorted_keys opts) = None"
  proof (unfold find_None_iff, clarify)
    fix n assume n: "n \<in> set (sorted_keys opts)" "trim_space (the (map_of opts n)) = []"
    from n(1) obtain v where "map_of opts n = Some v"
      by (cases "map_of opts n") (auto simp: map_of_eq_None_iff)
    with n(2) assms show False by (auto simp: list_all_iff dest!: map_of_SomeD)
  qed
  then show ?thesis by (simp add: required_option_name_def)
qed

lemma demo_install_valid:
  "validate_install_options demo_install_options = None" "parse_build_mode (io_build_mode demo_install_options) = Some ModeRelease"
  "host_target demo_codex_env = Some ''aarch64-apple-darwin''" "io_dry_run demo_install_options = False"
  "lock_loop (cx_polls demo_codex_env) = Some (Inr ())"
proof -
  show "validate_install_options demo_install_options = None"
    unfolding validate_install_options_def Let_def by (subst required_none) code_simp+
qed code_simp+

definition demo_locked :: "(patch_error, unit) result \<times> unit pw_sys" where
  "demo_locked = open_lock (io_source_dir demo_install_options) demo_codex_sys"

definition demo_installed :: "(patch_error, unit) result \<times> unit pw_sys" where
  "demo_installed = install_locked demo_codex_env demo_install_options ModeRelease ''aarch64-apple-darwin'' (snd demo_locked)"

lemma demo_install_succeeds: "fst demo_locked = Inr ()" "fst demo_installed = Inr ()"
  by code_simp+

lemma demo_install_returns: "install_cli demo_codex_env demo_install_options demo_codex_sys = Some (Inr (), snd demo_installed)"
proof -
  have l: "open_lock (io_source_dir demo_install_options) demo_codex_sys = (Inr (), snd demo_locked)"
    using demo_install_succeeds(1) by (simp add: demo_locked_def prod_eq_iff)
  have "install_locked demo_codex_env demo_install_options ModeRelease ''aarch64-apple-darwin'' (snd demo_locked) = (Inr (), snd demo_installed)"
    using demo_install_succeeds(2) by (simp add: demo_installed_def prod_eq_iff)
  then show ?thesis unfolding install_cli_def demo_install_valid l by simp
qed


lemma install_dry_run_inert_witness:
  "\<exists>r s'. install_cli demo_codex_env (demo_install_options\<lparr>io_dry_run := True\<rparr>) demo_codex_sys = Some (r, s') \<and>
     tree_of s' = tree_of demo_codex_sys"
  using install_dry_run_inert [of "demo_install_options\<lparr>io_dry_run := True\<rparr>" demo_codex_env demo_codex_sys] by auto

end
