(* ===== verification/Team_Tokens.thy ===== *)
theory Team_Tokens
  imports Go_Strings
begin

text \<open>
  Team identifiers inside binaries (\<open>internal/computeruseext/computer_use.go\<close>): validation, the
  identifier in the name of a signing identity, standalone occurrences, and the replacement of one
  identifier by another of the same length.
\<close>

section \<open>Team identifiers\<close>

definition is_alnum :: "char \<Rightarrow> bool" where
  "is_alnum c \<longleftrightarrow> CHR ''A'' \<le> c \<and> c \<le> CHR ''Z'' \<or> CHR ''a'' \<le> c \<and> c \<le> CHR ''z'' \<or> CHR ''0'' \<le> c \<and> c \<le> CHR ''9''"

definition valid_team :: "string \<Rightarrow> bool" where
  "valid_team t \<longleftrightarrow> length t = 10 \<and> list_all is_alnum t"

text \<open>\<open>\(([A-Za-z0-9]{10})\)\s*$\<close>: the class before \<open>$\<close> is disjoint from the parenthesis.\<close>

definition regexp_blank :: "char \<Rightarrow> bool" where
  "regexp_blank c \<longleftrightarrow> c \<in> {CHR 0x20, CHR 0x09, CHR 0x0A, CHR 0x0C, CHR 0x0D}"

definition team_of_identity :: "string \<Rightarrow> string option" where
  "team_of_identity identity =
     (let r = dropWhile regexp_blank (rev identity); t = rev (take 10 (drop 1 r)) in
      if take 1 r = '')'' \<and> take 1 (drop 11 r) = ''('' \<and> valid_team t then Some t else None)"

section \<open>Standalone occurrences\<close>

definition is_team_byte :: "char \<Rightarrow> bool" where
  "is_team_byte c \<longleftrightarrow> is_alnum c \<or> c = CHR ''.'' \<or> c = CHR ''_'' \<or> c = CHR ''-''"

definition token_boundary :: "string \<Rightarrow> nat \<Rightarrow> nat \<Rightarrow> bool" where
  "token_boundary d s e \<longleftrightarrow> \<not> (s > 0 \<and> is_team_byte (d ! (s - 1))) \<and> \<not> (e < length d \<and> is_team_byte (d ! e))"

text \<open>\<open>bytes.Index\<close>\<close>

fun index_of :: "string \<Rightarrow> string \<Rightarrow> nat option" where
  "index_of t [] = (if t = [] then Some 0 else None)"
| "index_of t (c # s) = (if prefix t (c # s) then Some 0 else map_option Suc (index_of t s))"

text \<open>
  The two loops. An empty token would keep them at one place for ever; every identifier they are
  called with has been validated.
\<close>

function count_where :: "(nat \<Rightarrow> nat \<Rightarrow> bool) \<Rightarrow> string \<Rightarrow> string \<Rightarrow> nat \<Rightarrow> nat" where
  "count_where ok t d offset =
     (if t = [] then 0
      else case index_of t (drop offset d) of
        None \<Rightarrow> 0
      | Some i \<Rightarrow> let s = offset + i; e = s + length t in
          (if ok s e then 1 else 0) + count_where ok t d e)"
  by pat_completeness auto

function replace_from :: "string \<Rightarrow> string \<Rightarrow> string \<Rightarrow> nat \<Rightarrow> nat \<Rightarrow> string \<times> nat" where
  "replace_from old new d offset n =
     (if old = [] \<or> length new \<noteq> length old then (d, n)
      else case index_of old (drop offset d) of
        None \<Rightarrow> (d, n)
      | Some i \<Rightarrow> let s = offset + i; e = s + length old in
          if token_boundary d s e then replace_from old new (take s d @ new @ drop e d) e (Suc n)
          else replace_from old new d e n)"
  by pat_completeness auto

lemma index_of_Some:
  "index_of t s = Some i \<Longrightarrow> i + length t \<le> length s \<and> take (length t) (drop i s) = t \<and>
     (\<forall>j<i. take (length t) (drop j s) \<noteq> t)"
proof (induction s arbitrary: i)
  case (Cons c s)
  show ?case
  proof (cases "prefix t (c # s)")
    case True
    with Cons.prems prefix_length_le [OF True] show ?thesis by (auto simp: prefix_def)
  next
    case False
    then have no: "take (length t) (c # s) \<noteq> t" by (metis take_is_prefix)
    from False Cons.prems obtain k where k: "index_of t s = Some k" "i = Suc k" by auto
    from Cons.IH [OF k(1)] no k(2) show ?thesis
      by (auto simp: less_Suc_eq_0_disj)
  qed
qed (auto split: if_splits)

lemma index_of_None: "index_of t s = None \<Longrightarrow> i \<le> length s \<Longrightarrow> take (length t) (drop i s) \<noteq> t"
proof (induction s arbitrary: i)
  case (Cons c s)
  then show ?case
    by (cases i) (auto split: if_splits simp: prefix_def, metis append_take_drop_id take_is_prefix prefix_def)
qed (auto split: if_splits)

lemma found_smaller:
  assumes "index_of t (drop offset d) = Some i" "t \<noteq> []"
  shows "offset + i + length t \<le> length d" "length d - (offset + i + length t) < length d - offset"
proof -
  have "0 < length t" using assms(2) by simp
  moreover have "i + length t \<le> length d - offset" using index_of_Some [OF assms(1)] by simp
  ultimately show "offset + i + length t \<le> length d" "length d - (offset + i + length t) < length d - offset"
    by arith+
qed

termination count_where
  by (relation "measure (\<lambda>(ok, t, d, offset). length d - offset)") (auto simp: found_smaller)

lemma found_total: "index_of t (drop offset d) = Some i \<Longrightarrow> t \<noteq> [] \<Longrightarrow> \<not> length d \<le> offset + i"
  using found_smaller(1) [of t offset d i] by (cases t) auto

termination replace_from
proof (relation "measure (\<lambda>(old, new, d, offset, n). length d - offset)", goal_cases)
  case (2 old new d offset n i s e)
  then show ?case using found_smaller [of old offset d i] by (auto simp: min_def)
next
  case (3 old new d offset n i s e)
  then show ?case using found_smaller [of old offset d i] by simp
qed simp

declare count_where.simps [simp del] replace_from.simps [simp del]

definition count_standalone :: "string \<Rightarrow> string \<Rightarrow> nat" where
  "count_standalone d t = count_where (token_boundary d) t d 0"

datatype team_error = BadOldTeam | BadNewTeam

text \<open>\<open>replaceStandaloneTeamID\<close>: the data, the number of replacements, and whether it was done before.\<close>

definition replace_team :: "string \<Rightarrow> string \<Rightarrow> string \<Rightarrow> (team_error, string \<times> nat \<times> bool) result" where
  "replace_team d old new =
     (if \<not> valid_team old then Inl BadOldTeam
      else if \<not> valid_team new then Inl BadNewTeam
      else let (out, n) = replace_from old new d 0 0 in
        Inr (out, n, n = 0 \<and> count_standalone out new > 0))"

section \<open>What they mean\<close>

definition standalone :: "string \<Rightarrow> string \<Rightarrow> nat \<Rightarrow> bool" where
  "standalone d t s \<longleftrightarrow> s + length t \<le> length d \<and> take (length t) (drop s d) = t \<and> token_boundary d s (s + length t)"

lemma alnum_team_byte: "is_alnum c \<Longrightarrow> is_team_byte c"
  by (simp add: is_team_byte_def)

lemma window_nth: "take n (drop s d) = t \<Longrightarrow> s + n \<le> length d \<Longrightarrow> k < n \<Longrightarrow> d ! (s + k) = t ! k"
  by auto

text \<open>Inside an occurrence of an identifier no other occurrence stands alone.\<close>

lemma no_standalone_inside:
  assumes "list_all is_alnum t" "take (length t) (drop s d) = t" "s + length t \<le> length d"
    and "s < r" "r < s + length t"
  shows "\<not> token_boundary d r e"
proof -
  have "d ! (s + (r - 1 - s)) = t ! (r - 1 - s)" using assms by (intro window_nth) auto
  moreover have "is_alnum (t ! (r - 1 - s))" using assms(1,4,5) by (auto simp: list_all_length)
  ultimately have "is_team_byte (d ! (r - 1))" using assms(4) by (simp add: alnum_team_byte)
  with assms(4) show ?thesis by (auto simp: token_boundary_def)
qed

text \<open>The next occurrence, and that nothing before its end is left out.\<close>

lemma next_occurrence:
  assumes "list_all is_alnum t" "index_of t (drop offset d) = Some i" "t \<noteq> []"
  shows "offset + i + length t \<le> length d" "take (length t) (drop (offset + i) d) = t"
    "offset \<le> r \<Longrightarrow> r < offset + i + length t \<Longrightarrow> standalone d t r \<Longrightarrow> r = offset + i"
proof -
  note i = index_of_Some [OF assms(2)]
  show len: "offset + i + length t \<le> length d" by (rule found_smaller(1) [OF assms(2,3)])
  show occ: "take (length t) (drop (offset + i) d) = t" using i by (simp add: add.commute)
  assume r: "offset \<le> r" "r < offset + i + length t" "standalone d t r"
  have "\<not> r < offset + i"
  proof
    assume "r < offset + i"
    with r(1) have "r - offset < i" by simp
    with i have "take (length t) (drop (r - offset) (drop offset d)) \<noteq> t" by blast
    with r(1,3) show False by (simp add: standalone_def)
  qed
  moreover have "\<not> offset + i < r"
    using no_standalone_inside [OF assms(1) occ len _ r(2)] r(3) by (auto simp: standalone_def)
  ultimately show "r = offset + i" by simp
qed

lemma no_occurrence:
  assumes "index_of t (drop offset d) = None" "offset \<le> r"
  shows "\<not> standalone d t r"
proof
  assume s: "standalone d t r"
  have "r - offset \<le> length (drop offset d)" using s by (auto simp: standalone_def)
  from index_of_None [OF assms(1) this] s assms(2) show False by (simp add: standalone_def)
qed

lemma finite_standalone [simp]: "t \<noteq> [] \<Longrightarrow> finite {s. standalone d t s \<and> P s}"
  by (rule finite_subset [of _ "{..length d}"]) (auto simp: standalone_def)

lemma count_where_card:
  assumes "list_all is_alnum t" "t \<noteq> []" "\<And>s e. ok s e \<Longrightarrow> token_boundary d s e"
  shows "count_where ok t d offset = card {s. standalone d t s \<and> offset \<le> s \<and> ok s (s + length t)}"
  using assms
proof (induction ok t d offset rule: count_where.induct)
  case (1 ok t d offset)
  show ?case
  proof (cases "index_of t (drop offset d)")
    case None
    then have "{s. standalone d t s \<and> offset \<le> s \<and> ok s (s + length t)} = {}" using no_occurrence by blast
    with None 1(3) show ?thesis by (simp add: count_where.simps [of ok t d offset])
  next
    case (Some i)
    let ?s = "offset + i" and ?e = "offset + i + length t"
    let ?R = "{s. standalone d t s \<and> ?e \<le> s \<and> ok s (s + length t)}"
    note n = next_occurrence [OF 1(2) Some 1(3)]
    have ih: "count_where ok t d ?e = card ?R" using 1 Some by simp
    have st: "ok ?s ?e \<Longrightarrow> standalone d t ?s" using n(1,2) 1(4) by (simp add: standalone_def)
    have "{s. standalone d t s \<and> offset \<le> s \<and> ok s (s + length t)} = (if ok ?s ?e then insert ?s ?R else ?R)"
      using n(3) st by (auto simp: not_less [symmetric])
    moreover have "?s \<notin> ?R" using 1(3) by simp
    ultimately show ?thesis using ih Some 1(3) by (simp add: count_where.simps [of ok t d offset] Let_def)
  qed
qed

lemma count_standalone_card:
  assumes "list_all is_alnum t" "t \<noteq> []"
  shows "count_standalone d t = card {s. standalone d t s}"
proof -
  have "{s. standalone d t s \<and> 0 \<le> s \<and> token_boundary d s (s + length t)} = {s. standalone d t s}"
    by (auto simp: standalone_def)
  with count_where_card [OF assms, of "token_boundary d" d 0] show ?thesis by (simp add: count_standalone_def)
qed

section \<open>The replacement\<close>

text \<open>What the loop leaves of the bytes, from \<open>offset\<close> on.\<close>

definition replaced_from :: "string \<Rightarrow> string \<Rightarrow> string \<Rightarrow> nat \<Rightarrow> string \<Rightarrow> bool" where
  "replaced_from old new d offset out \<longleftrightarrow> length out = length d \<and>
     (\<forall>s\<ge>offset. standalone d old s \<longrightarrow> (\<forall>k<length old. out ! (s + k) = new ! k)) \<and>
     (\<forall>i<length d. (\<forall>s\<ge>offset. standalone d old s \<longrightarrow> i < s \<or> s + length old \<le> i) \<longrightarrow> out ! i = d ! i)"

lemma splice_nth:
  assumes "s + length new \<le> length d" "i < length d"
  shows "(take s d @ new @ drop (s + length new) d) ! i =
    (if s \<le> i \<and> i < s + length new then new ! (i - s) else d ! i)"
  using assms by (auto simp: nth_append min_def)

lemma boundary_cong:
  assumes "length out = length d" "\<And>i. i < length d \<Longrightarrow> is_team_byte (out ! i) = is_team_byte (d ! i)"
    and "e \<le> length d" "s \<le> e"
  shows "token_boundary out s e = token_boundary d s e"
proof (cases s)
  case 0
  with assms show ?thesis by (auto simp: token_boundary_def)
next
  case (Suc k)
  then have "k < length d" using assms(3,4) by simp
  then have "is_team_byte (out ! k) = is_team_byte (d ! k)" by (rule assms(2))
  with Suc assms(1,2) show ?thesis by (auto simp: token_boundary_def)
qed

lemma splice_standalone:
  assumes "list_all is_alnum new" "list_all is_alnum t" "length t = length new"
    and "s + length new \<le> length d" "take (length t) (drop s d) = t" "s + length new \<le> r"
  shows "standalone (take s d @ new @ drop (s + length new) d) t' r = standalone d t' r"
proof -
  let ?d = "take s d @ new @ drop (s + length new) d"
  have len: "length ?d = length d" using assms(4) by simp
  have win: "drop r ?d = drop r d" using assms(4,6) by (simp add: min_def)
  have byte: "is_team_byte (?d ! i) = is_team_byte (d ! i)" if i: "i < length d" for i
  proof (cases "s \<le> i \<and> i < s + length new")
    case True
    then have "d ! (s + (i - s)) = t ! (i - s)" using assms(3,4,5) by (intro window_nth) auto
    with True assms(1,2,3) have "is_alnum (new ! (i - s))" "is_alnum (d ! i)"
      by (auto simp: list_all_length)
    with splice_nth [OF assms(4) i] True show ?thesis by (simp add: alnum_team_byte)
  next
    case False
    with splice_nth [OF assms(4) i] show ?thesis by simp
  qed
  have "token_boundary ?d r (r + length t') = token_boundary d r (r + length t')" if "r + length t' \<le> length d"
    using that by (intro boundary_cong len byte) auto
  then show ?thesis unfolding standalone_def len win by blast
qed

lemma splice_replaced:
  assumes "list_all is_alnum new" "list_all is_alnum old" "length old = length new"
    and "s + length new \<le> length d" "take (length old) (drop s d) = old" "offset \<le> s" "standalone d old s"
    and "\<And>r. offset \<le> r \<Longrightarrow> r < s + length new \<Longrightarrow> standalone d old r \<Longrightarrow> r = s"
    and "replaced_from old new (take s d @ new @ drop (s + length new) d) (s + length new) out"
  shows "replaced_from old new d offset out"
proof -
  let ?d = "take s d @ new @ drop (s + length new) d" and ?e = "s + length new"
  note st = splice_standalone [OF assms(1,2,3,4,5)]
  have len: "length out = length d" using assms(4,9) by (simp add: replaced_from_def)
  have later: "\<forall>r\<ge>?e. standalone d old r \<longrightarrow> (\<forall>k<length old. out ! (r + k) = new ! k)"
    using assms(9) st by (auto simp: replaced_from_def)
  have keep: "out ! i = ?d ! i" if "i < length d" "\<forall>r\<ge>?e. standalone d old r \<longrightarrow> i < r \<or> r + length old \<le> i" for i
    using assms(4,9) that st unfolding replaced_from_def by simp
  have here: "out ! (s + k) = new ! k" if "k < length old" for k
  proof -
    have "s + k < length d" using that assms(3,4) by simp
    with keep [of "s + k"] splice_nth [OF assms(4), of "s + k"] that assms(3) show ?thesis by auto
  qed
  have "out ! (r + k) = new ! k" if r: "r \<ge> offset" "standalone d old r" "k < length old" for r k
    using assms(8) [OF r(1) _ r(2)] later here r by (cases "r < ?e") (auto simp: not_less)
  moreover have "out ! i = d ! i"
    if i: "i < length d" "\<forall>r\<ge>offset. standalone d old r \<longrightarrow> i < r \<or> r + length old \<le> i" for i
  proof -
    have "i < s \<or> ?e \<le> i" using i(2) assms(3,6,7) by auto
    moreover have "out ! i = ?d ! i" using i assms(6) by (intro keep) auto
    ultimately show ?thesis using splice_nth [OF assms(4) i(1)] by auto
  qed
  ultimately show ?thesis using len by (simp add: replaced_from_def)
qed

lemma replace_from_correct:
  assumes "list_all is_alnum new" "list_all is_alnum old" "length new = length old" "old \<noteq> []"
  shows "replaced_from old new d offset (fst (replace_from old new d offset n)) \<and>
    snd (replace_from old new d offset n) = n + card {s. standalone d old s \<and> offset \<le> s}"
  using assms
proof (induction old new d offset n rule: replace_from.induct)
  case (1 old new d offset n)
  show ?case
  proof (cases "index_of old (drop offset d)")
    case None
    then have no: "\<And>s. s \<ge> offset \<Longrightarrow> \<not> standalone d old s" using no_occurrence by blast
    then have "{s. standalone d old s \<and> offset \<le> s} = {}" by blast
    with None no show ?thesis by (simp add: replace_from.simps [of old new d offset n] replaced_from_def 1(5,6))
  next
    case (Some i)
    let ?s = "offset + i" and ?e = "offset + i + length old"
    note n = next_occurrence [OF 1(4) Some 1(6)]
    have st: "standalone d old ?s \<longleftrightarrow> token_boundary d ?s ?e" using n(1,2) by (auto simp: standalone_def)
    have ok: "\<not> (old = [] \<or> length new \<noteq> length old)" using 1(5,6) by simp
    have set: "{s. standalone d old s \<and> offset \<le> s} =
      (if token_boundary d ?s ?e then insert ?s {s. standalone d old s \<and> ?e \<le> s} else {s. standalone d old s \<and> ?e \<le> s})"
      using n(3) st by (auto simp: not_less [symmetric])
    have fresh: "?s \<notin> {s. standalone d old s \<and> ?e \<le> s}" using 1(6) by simp
    show ?thesis
    proof (cases "token_boundary d ?s ?e")
      case True
      let ?d = "take ?s d @ new @ drop ?e d"
      note ih = 1(1) [OF ok Some refl refl True 1(3,4,5,6)]
      have run: "replace_from old new d offset n = replace_from old new ?d ?e (Suc n)"
        using ok Some True by (simp add: replace_from.simps [of old new d offset n] Let_def)
      have "replaced_from old new d offset (fst (replace_from old new ?d ?e (Suc n)))"
      proof (rule splice_replaced [where s = ?s])
        show "replaced_from old new (take ?s d @ new @ drop (?s + length new) d) (?s + length new)
          (fst (replace_from old new ?d ?e (Suc n)))" using ih 1(5) by simp
        show "\<And>r. offset \<le> r \<Longrightarrow> r < ?s + length new \<Longrightarrow> standalone d old r \<Longrightarrow> r = ?s"
          using n(3) 1(5) by simp
      qed (use n True st 1(3,4,5) in simp_all)
      moreover have "{s. standalone ?d old s \<and> ?e \<le> s} = {s. standalone d old s \<and> ?e \<le> s}"
        using splice_standalone [OF 1(3,4) _ _ n(2), where t' = old] n(1) 1(5) by auto
      ultimately show ?thesis using ih set fresh True 1(6) by (simp add: run)
    next
      case False
      note ih = 1(2) [OF ok Some refl refl False 1(3,4,5,6)]
      have run: "replace_from old new d offset n = replace_from old new d ?e n"
        using ok Some False by (simp add: replace_from.simps [of old new d offset n] Let_def)
      have "(\<forall>s\<ge>offset. standalone d old s \<longrightarrow> Q s) \<longleftrightarrow> (\<forall>s\<ge>?e. standalone d old s \<longrightarrow> Q s)" for Q
        using set False by auto
      then have "replaced_from old new d offset out = replaced_from old new d ?e out" for out
        unfolding replaced_from_def by simp
      with ih set False show ?thesis by (simp add: run)
    qed
  qed
qed

text \<open>An occurrence of the old identifier in the result would overlap a replaced one, or be one.\<close>

lemma none_left:
  assumes "replaced_from old new d 0 out" "list_all is_alnum new" "list_all is_alnum old"
    and "length new = length old" "old \<noteq> new"
  shows "\<not> standalone out old s"
proof
  assume s: "standalone out old s"
  have len: "length out = length d" and rep: "\<And>r k. standalone d old r \<Longrightarrow> k < length old \<Longrightarrow> out ! (r + k) = new ! k"
    and keep: "\<And>i. i < length d \<Longrightarrow> (\<forall>r. standalone d old r \<longrightarrow> i < r \<or> r + length old \<le> i) \<Longrightarrow> out ! i = d ! i"
    using assms(1) by (auto simp: replaced_from_def)
  have sl: "s + length old \<le> length d" and sw: "take (length old) (drop s out) = old"
    and bnd: "token_boundary out s (s + length old)" using s len by (auto simp: standalone_def)
  have alnum: "is_team_byte (out ! i)" if "standalone d old r" "r \<le> i" "i < r + length old" for r i
    using rep [OF that(1), of "i - r"] that assms(2,4) by (auto simp: list_all_length intro!: alnum_team_byte)
  have apart: "r + length old \<le> s \<or> s + length old \<le> r" if r: "standalone d old r" for r
  proof (rule ccontr)
    assume "\<not> ?thesis"
    then have near: "s < r + length old" "r < s + length old" by auto
    consider "r = s" | "r < s" | "s < r" by linarith
    then show False
    proof cases
      case 1
      have "old ! k = new ! k" if "k < length old" for k
        using rep [OF r that] window_nth [OF sw _ that] sl len 1 by simp
      with assms(4,5) show False by (auto intro: nth_equalityI)
    next
      case 2
      with near alnum [OF r, of "s - 1"] bnd show False by (auto simp: token_boundary_def)
    next
      case 3
      have "r + length old \<le> length d" using r by (simp add: standalone_def)
      with 3 near alnum [OF r, of "s + length old"] bnd len show False by (auto simp: token_boundary_def)
    qed
  qed
  have same: "out ! i = d ! i" if "s \<le> i" "i < s + length old" for i
    using that sl apart by (intro keep) force+
  have byte: "is_team_byte (out ! i) = is_team_byte (d ! i)" if i: "i < length d" for i
  proof (cases "\<exists>r. standalone d old r \<and> r \<le> i \<and> i < r + length old")
    case True
    then obtain r where r: "standalone d old r" "r \<le> i" "i < r + length old" by blast
    then have "d ! (r + (i - r)) = old ! (i - r)" by (intro window_nth) (auto simp: standalone_def)
    with r assms(3) have "is_alnum (d ! i)" by (auto simp: list_all_length)
    with alnum [OF r] show ?thesis by (simp add: alnum_team_byte)
  next
    case False
    with keep [OF i] show ?thesis by (auto simp: not_less not_le)
  qed
  have "take (length old) (drop s d) = old"
  proof (rule nth_equalityI)
    show "length (take (length old) (drop s d)) = length old" using sl by simp
    fix k assume "k < length (take (length old) (drop s d))"
    then have k: "k < length old" by simp
    show "take (length old) (drop s d) ! k = old ! k"
      using same [of "s + k"] window_nth [OF sw _ k] sl len k by simp
  qed
  moreover have "token_boundary d s (s + length old)"
    using bnd sl boundary_cong [OF len byte sl] by simp
  ultimately have "standalone d old s" using sl by (simp add: standalone_def)
  with apart [of s] assms(4,5) show False by auto
qed

text \<open>C18.
  Replacing one team identifier by another keeps the length of the data and changes exactly the
  standalone occurrences: each becomes the new identifier, every other byte stays, none of the old
  ones is left, and the reported number is how many there were. The data counts as patched before
  exactly when there was none and the new identifier stands alone somewhere.
\<close>

theorem team_replaced:
  assumes "replace_team d old new = Inr (out, n, before)"
  shows "length out = length d \<and> n = card {s. standalone d old s} \<and>
    (\<forall>s. standalone d old s \<longrightarrow> (\<forall>k<10. out ! (s + k) = new ! k)) \<and>
    (\<forall>i<length d. (\<forall>s. standalone d old s \<longrightarrow> i < s \<or> s + 10 \<le> i) \<longrightarrow> out ! i = d ! i) \<and>
    (old \<noteq> new \<longrightarrow> (\<forall>s. \<not> standalone out old s)) \<and>
    before = (n = 0 \<and> out = d \<and> (\<exists>s. standalone d new s))"
proof -
  have v: "list_all is_alnum old" "list_all is_alnum new" "length old = 10" "length new = 10"
    and run: "out = fst (replace_from old new d 0 0)" "n = snd (replace_from old new d 0 0)"
    and b: "before = (n = 0 \<and> count_standalone out new > 0)"
    using assms by (auto simp: replace_team_def valid_team_def Let_def split: if_splits prod.splits)
  then have ne: "old \<noteq> []" "new \<noteq> []" by auto
  have rep: "replaced_from old new d 0 out" and n: "n = card {s. standalone d old s}"
    using replace_from_correct [OF v(2,1) _ ne(1), of d 0 0] v(3,4) run by auto
  have "out = d" if "n = 0"
  proof (rule nth_equalityI)
    show "length out = length d" using rep by (simp add: replaced_from_def)
    fix i assume i: "i < length out"
    have "{s. standalone d old s} = {}"
      using n that finite_standalone [of old d "\<lambda>_. True"] ne(1) by auto
    then show "out ! i = d ! i" using rep i by (auto simp: replaced_from_def)
  qed
  moreover have "count_standalone out new > 0 \<longleftrightarrow> (\<exists>s. standalone out new s)"
    using count_standalone_card [OF v(2) ne(2), of out] finite_standalone [of new out "\<lambda>_. True"] ne(2)
    by (auto simp: card_gt_0_iff)
  ultimately have "before = (n = 0 \<and> out = d \<and> (\<exists>s. standalone d new s))" using b by auto
  moreover have "old \<noteq> new \<longrightarrow> (\<forall>s. \<not> standalone out old s)"
    using none_left [OF rep v(2,1)] v(3,4) by auto
  ultimately show ?thesis using rep n v(3) by (auto simp: replaced_from_def)
qed

end
