(* ===== verification/Macho_Ranges.thy ===== *)
theory Macho_Ranges
  imports Team_Tokens "HOL-Library.Word"
begin

text \<open>
  Where the code signatures of a Mach-O file are (\<open>internal/computeruseext/macho_trust.go\<close>), and the
  occurrences of a team identifier outside them. Offsets are \<open>uint64\<close> as in the code; a slice
  expression that leaves the data is the error \<open>OutOfRange\<close>, which stands for Go's panic.
\<close>

section \<open>Bytes\<close>

datatype byte_order = BigEndian | LittleEndian

datatype macho_error =
    TruncatedFat | TruncatedTable | SliceOutside nat | TruncatedHeader | CommandsOutside
  | TruncatedCommand | BadCommandSize | TruncatedSignature | SignatureOutside | IndexTooLarge | OutOfRange

definition uint_of :: "byte_order \<Rightarrow> string \<Rightarrow> int" where
  "uint_of ord bs = foldl (\<lambda>n b. 256 * n + of_char b) 0 (case ord of BigEndian \<Rightarrow> bs | LittleEndian \<Rightarrow> rev bs)"

text \<open>\<open>data[a:b]\<close>, and \<open>order.Uint32\<close> or \<open>order.Uint64\<close> of \<open>k\<close> bytes.\<close>

definition byte_slice :: "string \<Rightarrow> 64 word \<Rightarrow> 64 word \<Rightarrow> (macho_error, string) result" where
  "byte_slice d a b = (if a \<le> b \<and> unat b \<le> length d then Inr (take (unat b - unat a) (drop (unat a) d)) else Inl OutOfRange)"

definition uint_at :: "byte_order \<Rightarrow> string \<Rightarrow> 64 word \<Rightarrow> 64 word \<Rightarrow> (macho_error, 64 word) result" where
  "uint_at ord d a k = rbind (byte_slice d a (a + k)) (\<lambda>bs. Inr (word_of_int (uint_of ord bs)))"

text \<open>\<open>computerUseByteIndex\<close>: \<open>Atoi\<close> fails above the largest \<open>int\<close>.\<close>

definition byte_index :: "64 word \<Rightarrow> (macho_error, int) result" where
  "byte_index v = (if uint v < 2 ^ 63 then Inr (uint v) else Inl IndexTooLarge)"

definition thin_format :: "string \<Rightarrow> (byte_order \<times> bool) option" where
  "thin_format magic =
     (if uint_of LittleEndian magic = 0xfeedface then Some (LittleEndian, False)
      else if uint_of LittleEndian magic = 0xfeedfacf then Some (LittleEndian, True)
      else if uint_of BigEndian magic = 0xfeedface then Some (BigEndian, False)
      else if uint_of BigEndian magic = 0xfeedfacf then Some (BigEndian, True)
      else None)"

section \<open>One architecture\<close>

definition signature_command :: "byte_order \<Rightarrow> string \<Rightarrow> int \<Rightarrow> 64 word \<Rightarrow> 64 word \<Rightarrow>
    (macho_error, int \<times> int) result" where
  "signature_command ord d base off sz =
     (if sz < 16 then Inl TruncatedSignature
      else rbind (uint_at ord d (off + 8) 4) (\<lambda>start.
        rbind (uint_at ord d (off + 12) 4) (\<lambda>len.
        let fin = start + len in
        if fin < start \<or> fin > word_of_nat (length d) then Inl SignatureOutside
        else rbind (byte_index start) (\<lambda>s. rbind (byte_index fin) (\<lambda>e. Inr (base + s, base + e))))))"

fun load_commands :: "byte_order \<Rightarrow> string \<Rightarrow> int \<Rightarrow> 64 word \<Rightarrow> nat \<Rightarrow> 64 word \<Rightarrow>
    (int \<times> int) list \<Rightarrow> (macho_error, (int \<times> int) list) result" where
  "load_commands ord d base fin 0 off acc = Inr acc"
| "load_commands ord d base fin (Suc n) off acc =
     (if off + 8 > fin then Inl TruncatedCommand
      else rbind (uint_at ord d off 4) (\<lambda>command.
        rbind (uint_at ord d (off + 4) 4) (\<lambda>sz.
        if sz < 8 \<or> off + sz > fin then Inl BadCommandSize
        else rbind (if command = 0x1d then rbind (signature_command ord d base off sz) (\<lambda>r. Inr (acc @ [r])) else Inr acc)
          (\<lambda>acc'. load_commands ord d base fin n (off + sz) acc'))))"

definition thin_ranges :: "string \<Rightarrow> int \<Rightarrow> (macho_error, (int \<times> int) list) result" where
  "thin_ranges d base =
     (if length d < 4 then Inr []
      else case thin_format (take 4 d) of
        None \<Rightarrow> Inr []
      | Some (ord, is64) \<Rightarrow>
          let header = (if is64 then 32 else 28) in
          if length d < unat header then Inl TruncatedHeader
          else rbind (uint_at ord d 16 4) (\<lambda>count.
            rbind (uint_at ord d 20 4) (\<lambda>sz.
            let fin = header + sz in
            if fin > word_of_nat (length d) then Inl CommandsOutside
            else load_commands ord d base fin (unat count) header [])))"

section \<open>Several architectures\<close>

definition arch_slice :: "byte_order \<Rightarrow> bool \<Rightarrow> string \<Rightarrow> 64 word \<Rightarrow> (macho_error, 64 word \<times> 64 word) result" where
  "arch_slice ord is64 d entry =
     (if is64 then rbind (uint_at ord d (entry + 8) 8) (\<lambda>a. rbind (uint_at ord d (entry + 16) 8) (\<lambda>n. Inr (a, n)))
      else rbind (uint_at ord d (entry + 8) 4) (\<lambda>a. rbind (uint_at ord d (entry + 12) 4) (\<lambda>n. Inr (a, n))))"

fun arch_loop :: "byte_order \<Rightarrow> bool \<Rightarrow> string \<Rightarrow> nat list \<Rightarrow> (int \<times> int) list \<Rightarrow>
    (macho_error, (int \<times> int) list) result" where
  "arch_loop ord is64 d [] acc = Inr acc"
| "arch_loop ord is64 d (i # is) acc =
     rbind (arch_slice ord is64 d (8 + word_of_nat i * (if is64 then 32 else 20))) (\<lambda>(a, n).
       let e = a + n in
       if e < a \<or> e > word_of_nat (length d) then Inl (SliceOutside i)
       else rbind (byte_index a) (\<lambda>base.
         rbind (byte_slice d a e) (\<lambda>arch.
         rbind (thin_ranges arch base) (\<lambda>rs. arch_loop ord is64 d is (acc @ rs)))))"

definition fat_ranges :: "string \<Rightarrow> byte_order \<Rightarrow> bool \<Rightarrow> (macho_error, (int \<times> int) list) result" where
  "fat_ranges d ord is64 =
     (if length d < 8 then Inl TruncatedFat
      else rbind (uint_at ord d 4 4) (\<lambda>count.
        if 8 + count * (if is64 then 32 else 20) > word_of_nat (length d) then Inl TruncatedTable
        else arch_loop ord is64 d [0..<unat count] []))"

definition signature_ranges :: "string \<Rightarrow> (macho_error, (int \<times> int) list) result" where
  "signature_ranges d =
     (if length d < 4 then Inr []
      else let magic = take 4 d in
        if uint_of BigEndian magic = 0xcafebabe then fat_ranges d BigEndian False
        else if uint_of LittleEndian magic = 0xcafebabe then fat_ranges d LittleEndian False
        else if uint_of BigEndian magic = 0xcafebabf then fat_ranges d BigEndian True
        else if uint_of LittleEndian magic = 0xcafebabf then fat_ranges d LittleEndian True
        else thin_ranges d 0)"

section \<open>Trusted identifiers\<close>

definition overlaps_any :: "(int \<times> int) list \<Rightarrow> nat \<Rightarrow> nat \<Rightarrow> bool" where
  "overlaps_any rs s e \<longleftrightarrow> list_ex (\<lambda>(a, b). int s < b \<and> int e > a) rs"

definition count_trusted :: "string \<Rightarrow> string \<Rightarrow> (macho_error, nat) result" where
  "count_trusted d t = rbind (signature_ranges d) (\<lambda>rs.
     Inr (count_where (\<lambda>s e. token_boundary d s e \<and> \<not> overlaps_any rs s e) t d 0))"

section \<open>Bounds\<close>

text \<open>What a step must not do, and what the ranges it adds satisfy.\<close>

definition panic_free :: "(macho_error, 'a) result \<Rightarrow> ('a \<Rightarrow> bool) \<Rightarrow> bool" where
  "panic_free r P \<longleftrightarrow> (case r of Inl e \<Rightarrow> e \<noteq> OutOfRange \<and> e \<noteq> IndexTooLarge | Inr x \<Rightarrow> P x)"

named_theorems panic_free_intros

lemma panic_free_Inr [panic_free_intros]: "P x \<Longrightarrow> panic_free (Inr x) P"
  by (simp add: panic_free_def)

lemma panic_free_rbind:
  "panic_free r Q \<Longrightarrow> (\<And>x. r = Inr x \<Longrightarrow> Q x \<Longrightarrow> panic_free (f x) P) \<Longrightarrow> panic_free (rbind r f) P"
  by (cases r) (auto simp: panic_free_def rbind_def)

lemma panic_free_mono: "panic_free r P \<Longrightarrow> (\<And>x. P x \<Longrightarrow> Q x) \<Longrightarrow> panic_free r Q"
  by (cases r) (auto simp: panic_free_def)

lemma uint_of_less: "uint_of ord bs = int (nat (uint_of ord bs))" "nat (uint_of ord bs) < 256 ^ length bs"
proof -
  let ?bytes = "case ord of BigEndian \<Rightarrow> bs | LittleEndian \<Rightarrow> rev bs"
  have "foldl (\<lambda>n b. 256 * n + of_char b) (int a) bs = int (foldl (\<lambda>n b. 256 * n + of_char b) a bs)" for a bs
  proof (induction bs arbitrary: a)
    case (Cons b bs)
    have "256 * int a + of_char b = int (256 * a + of_char b)" by (simp add: of_nat_of_char)
    with Cons.IH [of "256 * a + of_char b"] show ?case by simp
  qed simp
  from this [of 0 ?bytes] have int: "uint_of ord bs = int (foldl (\<lambda>n b. 256 * n + of_char b) 0 ?bytes)"
    by (simp add: uint_of_def)
  then show "uint_of ord bs = int (nat (uint_of ord bs))" by simp
  have "foldl (\<lambda>n b. 256 * n + of_char b) a bs < (a + 1) * 256 ^ length bs" for a :: nat and bs :: string
  proof (induction bs arbitrary: a)
    case (Cons b bs a)
    have digit: "c < 256 \<Longrightarrow> 256 * a + c + 1 \<le> (a + 1) * 256" for c :: nat by simp
    have "256 * a + of_char b + 1 \<le> (a + 1) * 256" by (rule digit) (rule nat_of_char_less_256)
    then have "(256 * a + of_char b + 1) * 256 ^ length bs \<le> (a + 1) * 256 * 256 ^ length bs"
      by (rule mult_right_mono) simp
    from less_le_trans [OF Cons.IH this] show ?case by (simp add: algebra_simps)
  qed simp
  from this [of 0 ?bytes] int show "nat (uint_of ord bs) < 256 ^ length bs"
    by (cases ord) simp_all
qed

lemma uint_at_ok:
  assumes "unat a + unat k \<le> length d" "length d < 2 ^ 63"
  shows "panic_free (uint_at ord d a k) (\<lambda>v. unat v < 256 ^ unat k)"
proof -
  have s: "unat (a + k) = unat a + unat k" using assms by (intro unat_add_lem [THEN iffD1]) simp
  then have "a \<le> a + k" by (simp add: word_le_nat_alt)
  then obtain bs where bs: "byte_slice d a (a + k) = Inr bs" "length bs = unat k" using assms s by (simp add: byte_slice_def)
  have "word_of_int (uint_of ord bs) = (word_of_nat (nat (uint_of ord bs)) :: 64 word)"
    by (subst uint_of_less(1)) (simp del: int_nat_eq)
  then have "unat (word_of_int (uint_of ord bs) :: 64 word) \<le> nat (uint_of ord bs)"
    by (simp add: unat_of_nat)
  from le_less_trans [OF this uint_of_less(2)] bs show ?thesis by (simp add: uint_at_def rbind_def panic_free_def)
qed

lemma unat_sum: "unat a + unat b < 2 ^ 64 \<Longrightarrow> unat (a + b) = unat a + unat (b :: 64 word)"
  by (intro unat_add_lem [THEN iffD1]) simp

lemma unat_small: "n < 2 ^ 64 \<Longrightarrow> unat (word_of_nat n :: 64 word) = n"
  by (simp add: unat_of_nat)

lemma unat_length: "length d < 2 ^ 63 \<Longrightarrow> unat (word_of_nat (length d) :: 64 word) = length d"
  by (simp add: unat_of_nat)

lemma byte_index_ok:
  "unat v \<le> length d \<Longrightarrow> length d < 2 ^ 63 \<Longrightarrow> panic_free (byte_index v) (\<lambda>i. i = int (unat v))"
proof -
  assume "unat v \<le> length d" "length d < 2 ^ 63"
  then have "unat v < 2 ^ 63" by simp
  then have "int (unat v) < int (2 ^ 63)" by (simp only: of_nat_less_iff)
  then have "uint v < 2 ^ 63" by simp
  then show ?thesis by (simp add: byte_index_def panic_free_def)
qed

definition inside :: "int \<Rightarrow> string \<Rightarrow> (int \<times> int) list \<Rightarrow> bool" where
  "inside base d rs \<longleftrightarrow> (\<forall>(a, b)\<in>set rs. base \<le> a \<and> a \<le> b \<and> b \<le> base + int (length d))"

lemma signature_command_ok:
  assumes "length d < 2 ^ 63" "unat off + unat sz \<le> length d"
  shows "panic_free (signature_command ord d base off sz) (\<lambda>r. inside base d [r])"
proof (cases "sz < 16")
  case True
  then show ?thesis by (simp add: signature_command_def panic_free_def)
next
  case False
  then have "16 \<le> unat sz" by (simp add: word_less_nat_alt)
  then have off: "unat (off + 8) = unat off + 8" "unat (off + 12) = unat off + 12"
    using assms unat_sum [of off 8] unat_sum [of off 12] by simp_all
  have fin: "panic_free
      (if start + len < start \<or> start + len > word_of_nat (length d) then Inl SignatureOutside
       else rbind (byte_index start) (\<lambda>s. rbind (byte_index (start + len)) (\<lambda>e. Inr (base + s, base + e))))
      (\<lambda>r. inside base d [r])" for start len :: "64 word"
  proof (cases "start + len < start \<or> start + len > word_of_nat (length d)")
    case True
    then show ?thesis by (simp add: panic_free_def)
  next
    case False
    then have "unat start \<le> unat (start + len)" "unat (start + len) \<le> length d"
      using unat_length [OF assms(1)] by (auto simp: word_less_nat_alt not_less)
    with False assms(1) show ?thesis
      by (auto intro!: panic_free_rbind [OF byte_index_ok] panic_free_intros simp: inside_def simp del: of_nat_unat)
  qed
  show ?thesis
    unfolding signature_command_def Let_def using False assms \<open>16 \<le> unat sz\<close> off
    by (auto intro!: panic_free_rbind [OF uint_at_ok] fin)
qed

lemma inside_append: "inside base d (xs @ ys) \<longleftrightarrow> inside base d xs \<and> inside base d ys"
  by (auto simp: inside_def)

lemma load_commands_ok:
  assumes "length d < 2 ^ 63" "unat fin \<le> length d" "unat off \<le> unat fin" "inside base d acc"
  shows "panic_free (load_commands ord d base fin n off acc) (inside base d)"
  using assms(3,4)
proof (induction n arbitrary: off acc)
  case 0
  then show ?case by (simp add: panic_free_def)
next
  case (Suc n)
  show ?case
  proof (cases "off + 8 > fin")
    case True
    then show ?thesis by (simp add: panic_free_def)
  next
    case False
    have o8: "unat (off + 8) = unat off + 8" using Suc.prems(1) assms(1,2) unat_sum [of off 8] by simp
    have o4: "unat (off + 4) = unat off + 4" using Suc.prems(1) assms(1,2) unat_sum [of off 4] by simp
    have le: "unat off + 8 \<le> length d" using False o8 assms(2) by (simp add: not_less word_le_nat_alt)
    have rest: "panic_free
        (if sz < 8 \<or> off + sz > fin then Inl BadCommandSize
         else rbind (if command = 0x1d then rbind (signature_command ord d base off sz) (\<lambda>r. Inr (acc @ [r])) else Inr acc)
           (\<lambda>acc'. load_commands ord d base fin n (off + sz) acc')) (inside base d)"
      if sz: "unat sz < 256 ^ 4" for command sz :: "64 word"
    proof (cases "sz < 8 \<or> off + sz > fin")
      case True
      then show ?thesis by (simp add: panic_free_def)
    next
      case False
      have sum: "unat (off + sz) = unat off + unat sz"
        using sz Suc.prems(1) assms(1,2) by (intro unat_sum) simp
      with False have step: "unat (off + sz) \<le> unat fin" by (simp add: not_less word_le_nat_alt)
      have "panic_free (signature_command ord d base off sz) (\<lambda>r. inside base d [r])"
        using step sum assms by (intro signature_command_ok) auto
      then have "panic_free
          (if command = 0x1d then rbind (signature_command ord d base off sz) (\<lambda>r. Inr (acc @ [r])) else Inr acc)
          (inside base d)"
        using Suc.prems(2) by (auto intro!: panic_free_intros intro: panic_free_rbind simp: inside_append)
      from panic_free_rbind [OF this Suc.IH [OF step]] show ?thesis using False by simp
    qed
    show ?thesis
      using False le assms(1) o4
      by (auto intro!: panic_free_rbind [OF uint_at_ok] rest)
  qed
qed

lemma thin_ranges_ok:
  assumes "length d < 2 ^ 63"
  shows "panic_free (thin_ranges d base) (inside base d)"
proof (cases "length d < 4 \<or> thin_format (take 4 d) = None")
  case True
  then show ?thesis by (auto simp: thin_ranges_def panic_free_def inside_def)
next
  case False
  then obtain ord is64 where f: "thin_format (take 4 d) = Some (ord, is64)" by fastforce
  let ?h = "if is64 then 32 else 28 :: 64 word"
  have h: "unat ?h = (if is64 then 32 else 28)" by simp
  have rest: "panic_free (if ?h + sz > word_of_nat (length d) then Inl CommandsOutside
      else load_commands ord d base (?h + sz) n ?h []) (inside base d)"
    if sz: "unat sz < 256 ^ 4" for sz n
  proof (cases "?h + sz > word_of_nat (length d)")
    case True
    then show ?thesis by (simp add: panic_free_def)
  next
    case False
    have sum: "unat (?h + sz) = unat ?h + unat sz" using sz h by (intro unat_sum) (simp split: if_splits)
    from False have "unat (?h + sz) \<le> length d"
      using unat_length [OF assms] by (simp add: not_less word_le_nat_alt)
    with False sum assms show ?thesis by (auto intro!: load_commands_ok simp: inside_def)
  qed
  show ?thesis
  proof (cases "length d < unat ?h")
    case True
    with False f show ?thesis by (simp add: thin_ranges_def panic_free_def)
  next
    case long: False
    then have "28 \<le> length d" using h by (auto split: if_splits)
    with assms have reads: "panic_free (uint_at ord d 16 4) (\<lambda>v. unat v < 256 ^ 4)"
      "panic_free (uint_at ord d 20 4) (\<lambda>v. unat v < 256 ^ 4)"
      using uint_at_ok [of 16 4 d ord] uint_at_ok [of 20 4 d ord] by simp_all
    have "thin_ranges d base = rbind (uint_at ord d 16 4) (\<lambda>count. rbind (uint_at ord d 20 4) (\<lambda>sz.
        if ?h + sz > word_of_nat (length d) then Inl CommandsOutside
        else load_commands ord d base (?h + sz) (unat count) ?h []))"
      using False f long by (simp add: thin_ranges_def Let_def)
    then show ?thesis using panic_free_rbind [OF reads(1) panic_free_rbind [OF reads(2) rest]] by simp
  qed
qed

lemma arch_slice_ok:
  assumes "unat entry + (if is64 then 32 else 20) \<le> length d" "length d < 2 ^ 63"
  shows "panic_free (arch_slice ord is64 d entry) (\<lambda>_. True)"
proof -
  have "unat (entry + 8) = unat entry + 8" "unat (entry + 12) = unat entry + 12" "unat (entry + 16) = unat entry + 16"
    using assms unat_sum [of entry 8] unat_sum [of entry 12] unat_sum [of entry 16] by (auto split: if_splits)
  with assms show ?thesis
    unfolding arch_slice_def by (auto intro!: panic_free_rbind [OF uint_at_ok] panic_free_intros)
qed

lemma arch_loop_ok:
  assumes "length d < 2 ^ 63" "\<And>i. i \<in> set is \<Longrightarrow> 8 + (i + 1) * (if is64 then 32 else 20) \<le> length d"
    and "inside 0 d acc"
  shows "panic_free (arch_loop ord is64 d is acc) (inside 0 d)"
  using assms(2,3)
proof (induction "is" arbitrary: acc)
  case Nil
  then show ?case by (simp add: panic_free_def)
next
  case (Cons i "is")
  let ?entry = "8 + word_of_nat i * (if is64 then 32 else 20) :: 64 word"
  let ?k = "if is64 then 32 else 20 :: nat"
  have lim: "8 + (i + 1) * ?k \<le> length d" using Cons.prems(1) by simp
  have e: "?entry = word_of_nat (8 + i * ?k)" by simp
  have "unat ?entry = 8 + i * ?k"
    unfolding e by (rule unat_small) (use lim assms(1) in \<open>auto split: if_splits\<close>)
  with lim have entry: "unat ?entry + ?k \<le> length d" by simp
  have rest: "panic_free (let e = a + n in
       if e < a \<or> e > word_of_nat (length d) then Inl (SliceOutside i)
       else rbind (byte_index a) (\<lambda>base. rbind (byte_slice d a e) (\<lambda>arch.
         rbind (thin_ranges arch base) (\<lambda>rs. arch_loop ord is64 d is (acc @ rs))))) (inside 0 d)" for a n
  proof (cases "a + n < a \<or> a + n > word_of_nat (length d)")
    case True
    then show ?thesis by (simp add: panic_free_def Let_def)
  next
    case False
    then have le: "unat a \<le> unat (a + n)" "unat (a + n) \<le> length d"
      using unat_length [OF assms(1)] by (auto simp: not_less word_le_nat_alt)
    let ?arch = "take (unat (a + n) - unat a) (drop (unat a) d)"
    have sl: "byte_slice d a (a + n) = Inr ?arch" using le by (simp add: byte_slice_def word_le_nat_alt)
    have len: "length ?arch < 2 ^ 63" "int (unat a) + int (length ?arch) \<le> int (length d)"
      using le assms(1) by (auto simp del: of_nat_unat)
    have "panic_free (thin_ranges ?arch base) (\<lambda>rs. inside 0 d (acc @ rs))" if "base = int (unat a)" for base
      by (rule panic_free_mono [OF thin_ranges_ok [OF len(1)]])
         (use that len(2) Cons.prems(2) in \<open>force simp: inside_def simp del: of_nat_unat\<close>)
    then have tail: "panic_free (rbind (byte_slice d a (a + n)) (\<lambda>arch.
        rbind (thin_ranges arch base) (\<lambda>rs. arch_loop ord is64 d is (acc @ rs)))) (inside 0 d)"
      if "base = int (unat a)" for base
      using that Cons.IH Cons.prems(1) by (auto simp: sl rbind_def intro: panic_free_rbind [unfolded rbind_def])
    have "unat a \<le> length d" using le by simp
    from byte_index_ok [OF this assms(1)] have "panic_free (rbind (byte_index a) (\<lambda>base. rbind (byte_slice d a (a + n)) (\<lambda>arch.
        rbind (thin_ranges arch base) (\<lambda>rs. arch_loop ord is64 d is (acc @ rs))))) (inside 0 d)"
      by (rule panic_free_rbind) (rule tail)
    with False show ?thesis by (simp add: Let_def)
  qed
  show ?case
    by (simp only: arch_loop.simps, rule panic_free_rbind [OF arch_slice_ok [OF entry assms(1)]])
       (use rest in \<open>auto simp: Let_def split: prod.split\<close>)
qed

lemma fat_ranges_ok:
  assumes "length d < 2 ^ 63"
  shows "panic_free (fat_ranges d ord is64) (inside 0 d)"
proof (cases "length d < 8")
  case True
  then show ?thesis by (simp add: fat_ranges_def panic_free_def)
next
  case False
  let ?k = "if is64 then 32 else 20 :: 64 word"
  let ?n = "if is64 then 32 else 20 :: nat"
  have rest: "panic_free (if 8 + count * ?k > word_of_nat (length d) then Inl TruncatedTable
      else arch_loop ord is64 d [0..<unat count] []) (inside 0 d)" if c: "unat count < 256 ^ 4" for count
  proof (cases "8 + count * ?k > word_of_nat (length d)")
    case True
    then show ?thesis by (simp add: panic_free_def)
  next
    case nf: False
    have e: "8 + count * ?k = word_of_nat (8 + unat count * ?n)" by simp
    have "unat (8 + count * ?k) = 8 + unat count * ?n"
      unfolding e by (rule unat_small) (use c in auto)
    with nf have table: "8 + unat count * ?n \<le> length d"
      using unat_length [OF assms] by (simp add: not_less word_le_nat_alt)
    have "8 + (i + 1) * ?n \<le> length d" if "i < unat count" for i
      using table mult_le_mono1 [of "i + 1" "unat count" ?n] that by simp
    with nf assms show ?thesis by (auto intro!: arch_loop_ok simp: inside_def)
  qed
  have "panic_free (uint_at ord d 4 4) (\<lambda>v. unat v < 256 ^ 4)"
    using uint_at_ok [of 4 4 d ord] False assms by simp
  from panic_free_rbind [OF this rest] False show ?thesis by (simp add: fat_ranges_def)
qed

lemma signature_ranges_ok: "length d < 2 ^ 63 \<Longrightarrow> panic_free (signature_ranges d) (inside 0 d)"
  by (simp add: signature_ranges_def Let_def fat_ranges_ok thin_ranges_ok) (simp add: panic_free_def inside_def)

end
