(* ===== verification/Computer_Use.thy ===== *)
theory Computer_Use
  imports Patch_Flow Hard_Reset Codex_Install Macho_Ranges
begin

text \<open>
  The repair of a Computer Use helper (\<open>internal/computeruseext\<close>): the identifier of the upstream
  team is replaced in binaries and requirement property lists, the code is signed again and the
  result is verified; the authorization plug-in is repaired in a staging directory and installed
  over the old one. \<open>dry\<close> is the dry-run flag of the runner; the property list codec and the name
  \<open>os.CreateTemp\<close> picks are fields of the environment. Permission bits are not modelled.
\<close>

record 'w cu_env =
  ce_base :: "'w pw_env"
  ce_team_of :: "string \<Rightarrow> string option"        \<comment> \<open>\<open>team-identifier\<close> of a property list\<close>
  ce_team_plist :: "string \<Rightarrow> string option"     \<comment> \<open>the list \<open>MarshalIndent\<close> writes\<close>
  ce_random :: "string \<Rightarrow> string"                \<comment> \<open>the name \<open>CreateTemp\<close> picks for a rewrite\<close>

type_synonym sign_item = "string \<times> entitlements_spec option"

text \<open>The configuration gives every sign target entitlements, possibly empty ones.\<close>

definition sign_items :: "computer_use_spec \<Rightarrow> sign_item list" where
  "sign_items cu = map (\<lambda>t. (st_path t, Some (st_entitlements t))) (cu_sign_targets cu)"

section \<open>Policy and paths\<close>

definition plain_when :: "bool \<Rightarrow> string \<Rightarrow> (patch_error, unit) result" where
  "plain_when bad what = (if bad then Inl (Plain what) else Inr ())"

definition validate_policy :: "'w cu_env \<Rightarrow> computer_use_spec \<Rightarrow> (patch_error, string) result" where
  "validate_policy ce cu =
     (if cu_bundled_app_path cu = [] then Inl (Plain ''missing bundled app path'')
      else if cu_app_path_from_home cu = [] then Inl (Plain ''missing installed app path'')
      else if cu_auth_plugin_path cu = [] then Inl (Plain ''missing authorization plugin path'')
      else if cu_auth_plugin_exec cu = [] then Inl (Plain ''missing authorization plugin executable'')
      else case team_of_identity (pe_identity (ce_base ce)) of
        None \<Rightarrow> Inl (Plain ''could not parse Team ID from signing identity'')
      | Some team \<Rightarrow>
          if \<not> valid_team (cu_upstream_team cu) then Inl (Plain ''upstream trusted team ID'') else Inr team)"

definition bundled_helper_path :: "string \<Rightarrow> computer_use_spec \<Rightarrow> string" where
  "bundled_helper_path host cu = go_join [host, cu_bundled_app_path cu]"

definition installed_helper_path :: "'w cu_env \<Rightarrow> computer_use_spec \<Rightarrow> string" where
  "installed_helper_path ce cu = go_join [home_or_empty (pe_genv (ce_base ce)), cu_app_path_from_home cu]"

definition sign_item_path :: "string \<Rightarrow> string \<Rightarrow> string" where
  "sign_item_path app rel = (if rel = ''.'' \<or> rel = [] then app else go_join [app, rel])"

definition ensure_app_path :: "string \<Rightarrow> ('w, unit) pw_act" where
  "ensure_app_path app = bind_act (stat_path app) (\<lambda>r. return_act (case r of
     Inl e \<Rightarrow> Inl (OsFailed ''stat helper bundle'' e)
   | Inr d \<Rightarrow> if d then Inr () else Inl (Plain ''helper path is not a directory'')))"

section \<open>Rewriting a file\<close>

definition rewrite_tmp :: "'w cu_env \<Rightarrow> string \<Rightarrow> string" where
  "rewrite_tmp ce path = go_join [go_dir path, go_base path @ ''.rewrite-'' @ ce_random ce path]"

text \<open>\<open>writeExistingFile\<close>; the deferred close and removal run on every return after the creation.\<close>

definition write_existing :: "'w cu_env \<Rightarrow> string \<Rightarrow> string \<Rightarrow> ('w, unit) pw_act" where
  "write_existing ce path data =
     (let tmp = path_components (rewrite_tmp ce path) in
      rbind_act (file_call ''stage rewrite'' (create_temp_at tmp)) (\<lambda>_.
      bind_act (in_turn
          [file_call ''write'' (fill_at tmp data (pe_part (ce_base ce))),
           file_call ''close staged rewrite'' os_touch,
           file_call ''chmod staged rewrite'' (chmod_at tmp),
           file_call ''replace with staged rewrite'' (rename_at tmp (path_components path))]) (\<lambda>r.
      bind_act (on_files (remove_at tmp)) (\<lambda>_. return_act r))))"

section \<open>The trusted team\<close>

definition read_stated :: "string \<Rightarrow> ('w, string) pw_act" where
  "read_stated path = bind_act (stat_path path) (\<lambda>r. case r of
     Inl e \<Rightarrow> fail_act (OsFailed ''stat'' e) | Inr _ \<Rightarrow> read_path ''read'' path)"

definition patch_trusted_binary :: "'w cu_env \<Rightarrow> bool \<Rightarrow> string \<Rightarrow> string \<Rightarrow> string \<Rightarrow> string \<Rightarrow> ('w, unit) pw_act" where
  "patch_trusted_binary ce dry app old new rel =
     (let path = go_join [app, rel] in
      tracing (TraceAction ''repair_computer_use_trusted_team'' [] path)
       (if dry then nil_act
        else rbind_act (read_stated path) (\<lambda>data.
          case replace_team data old new of
            Inl _ \<Rightarrow> fail_act (Plain ''repair helper binary'')
          | Inr (out, n, before) \<Rightarrow>
              if n = 0 \<and> before then nil_act
              else if n = 0 then fail_act (Plain ''contained neither trusted team'')
              else labelled ''write helper binary'' (write_existing ce path out))))"

text \<open>\<open>replaceTeamRequirementPlist\<close>: \<open>None\<close> when the new team stands there already.\<close>

definition replace_requirement :: "'w cu_env \<Rightarrow> string \<Rightarrow> string \<Rightarrow> string \<Rightarrow> (patch_error, string option) result" where
  "replace_requirement ce data old new =
     (if \<not> valid_team old \<or> \<not> valid_team new then Inl (Plain ''team ID'')
      else case ce_team_of ce data of
        None \<Rightarrow> Inl (Plain ''unmarshal requirement plist'')
      | Some team \<Rightarrow>
          if team = new then Inr None
          else if team \<noteq> old then Inl (Plain ''team-identifier is neither'')
          else case ce_team_plist ce new of
            None \<Rightarrow> Inl (Plain ''marshal requirement plist'') | Some out \<Rightarrow> Inr (Some out))"

definition patch_requirement :: "'w cu_env \<Rightarrow> bool \<Rightarrow> string \<Rightarrow> string \<Rightarrow> string \<Rightarrow> string \<Rightarrow> ('w, unit) pw_act" where
  "patch_requirement ce dry app old new rel =
     (let path = go_join [app, rel] in
      tracing (TraceAction ''repair_computer_use_requirement'' [] path)
       (if dry then nil_act
        else rbind_act (read_stated path) (\<lambda>data.
          case replace_requirement ce data old new of
            Inl e \<Rightarrow> fail_act (Within ''repair helper requirement plist'' e)
          | Inr None \<Rightarrow> nil_act
          | Inr (Some out) \<Rightarrow> labelled ''write helper requirement plist'' (write_existing ce path out))))"

section \<open>Signing\<close>

definition sign_item_steps :: "'w cu_env \<Rightarrow> bool \<Rightarrow> string \<Rightarrow> string \<Rightarrow> sign_item \<Rightarrow> ('w, unit) pw_act" where
  "sign_item_steps ce dry app identity item =
     (let path = sign_item_path app (fst item) in
      tracing (TraceAction ''sign_computer_use_helper'' [] path) (in_turn
       [if dry then nil_act else existing_file ''stat helper code target'' path,
        case snd item of
          None \<Rightarrow> labelled ''sign helper code target'' (runner_run (ce_base ce) dry codesign (runtime_args identity path))
        | Some policy \<Rightarrow>
            rbind_act (labelled ''helper entitlements'' (write_augmented_entitlements (ce_base ce) dry True
                (''computer-use-'' @ fst item) path policy)) (\<lambda>ent_file.
            labelled ''sign helper code target''
              (runner_run (ce_base ce) dry codesign (runtime_entitlements_args identity ent_file path)))]))"

definition mutate_helper :: "'w cu_env \<Rightarrow> bool \<Rightarrow> string \<Rightarrow> computer_use_spec \<Rightarrow> string \<Rightarrow> ('w, unit) pw_act" where
  "mutate_helper ce dry app cu team = in_turn
     [each_act (patch_trusted_binary ce dry app (cu_upstream_team cu) team) (cu_team_patch_binaries cu),
      each_act (patch_requirement ce dry app (cu_upstream_team cu) team) (cu_team_plists cu),
      rbind_act (labelled ''resolve signing identity'' (resolve_identity (ce_base ce) dry)) (\<lambda>identity.
        each_act (sign_item_steps ce dry app identity) (sign_items cu))]"

section \<open>Verification\<close>

definition deep_strict_args :: "string \<Rightarrow> string list" where
  "deep_strict_args p = [''--verify'', ''--deep'', ''--strict'', ''--verbose=2'', p]"

definition verify_sign_item :: "'w cu_env \<Rightarrow> bool \<Rightarrow> string \<Rightarrow> string \<Rightarrow> sign_item \<Rightarrow> ('w, unit) pw_act" where
  "verify_sign_item ce dry app team item =
     (let path = sign_item_path app (fst item);
          required = (case snd item of None \<Rightarrow> [] | Some p \<Rightarrow> ent_required p);
          absent = (case snd item of None \<Rightarrow> [] | Some p \<Rightarrow> ent_strip p) in
      rbind_act (labelled ''read helper identity'' (read_signature (ce_base ce) path)) (\<lambda>sig.
        if sg_team sig \<noteq> team then fail_act (Plain ''signed by another team'')
        else rbind_act (in_turn
          [labelled ''verify required entitlements'' (verify_boolean (ce_base ce) dry path required),
           labelled ''verify absent entitlements'' (verify_absent (ce_base ce) dry path absent)]) (\<lambda>_.
          tracing (TraceAction ''verify_computer_use_helper'' [] path) nil_act)))"

definition trusts_only :: "string \<Rightarrow> string \<Rightarrow> string \<Rightarrow> (patch_error, unit) result" where
  "trusts_only old new data =
     (case count_trusted data old of
        Inl _ \<Rightarrow> Inl (Plain ''read helper binary code signature ranges'')
      | Inr upstream \<Rightarrow>
          if upstream > 0 then Inl (Plain ''still contains upstream trusted team'')
          else case count_trusted data new of
            Inl _ \<Rightarrow> Inl (Plain ''read helper binary code signature ranges'')
          | Inr locals \<Rightarrow> if locals = 0 then Inl (Plain ''does not contain local trusted team'') else Inr ())"

definition verify_trusted_binary :: "string \<Rightarrow> string \<Rightarrow> string \<Rightarrow> string \<Rightarrow> ('w, unit) pw_act" where
  "verify_trusted_binary app old new rel =
     (let path = go_join [app, rel] in
      rbind_act (read_path ''read helper binary'' path) (\<lambda>data.
      rbind_act (return_act (trusts_only old new data)) (\<lambda>_.
        tracing (TraceAction ''verify_computer_use_trusted_team'' [] path) nil_act)))"

definition requires_team :: "'w cu_env \<Rightarrow> string \<Rightarrow> string \<Rightarrow> (patch_error, unit) result" where
  "requires_team ce new data =
     (case ce_team_of ce data of
        None \<Rightarrow> Inl (Plain ''unmarshal requirement plist'')
      | Some team \<Rightarrow> if team = [] then Inl (Plain ''missing team-identifier'')
          else if team \<noteq> new then Inl (Plain ''trusts another parent team'') else Inr ())"

definition verify_requirement :: "'w cu_env \<Rightarrow> string \<Rightarrow> string \<Rightarrow> string \<Rightarrow> ('w, unit) pw_act" where
  "verify_requirement ce app new rel =
     (let path = go_join [app, rel] in
      rbind_act (read_path ''read helper requirement plist'' path) (\<lambda>data.
      rbind_act (return_act (requires_team ce new data)) (\<lambda>_.
        tracing (TraceAction ''verify_computer_use_requirement'' [] path) nil_act)))"

definition preview_verification :: "string \<Rightarrow> computer_use_spec \<Rightarrow> ('w, unit) pw_act" where
  "preview_verification app cu = each_act (\<lambda>(kind, path). tracing (TraceAction kind [] path) nil_act)
     (map (\<lambda>i. (''preview_verify_computer_use_helper'', sign_item_path app (fst i))) (sign_items cu) @
      map (\<lambda>r. (''preview_verify_computer_use_trusted_team'', go_join [app, r])) (cu_team_patch_binaries cu) @
      map (\<lambda>r. (''preview_verify_computer_use_requirement'', go_join [app, r])) (cu_team_plists cu))"

definition verify_helper :: "'w cu_env \<Rightarrow> bool \<Rightarrow> string \<Rightarrow> computer_use_spec \<Rightarrow> string \<Rightarrow> ('w, unit) pw_act" where
  "verify_helper ce dry app cu team =
     (if dry then preview_verification app cu
      else in_turn
        [labelled ''verify helper bundle'' (runner_run (ce_base ce) dry codesign (deep_strict_args app)),
         each_act (verify_sign_item ce dry app team) (sign_items cu),
         each_act (verify_trusted_binary app (cu_upstream_team cu) team) (cu_team_patch_binaries cu),
         each_act (verify_requirement ce app team) (cu_team_plists cu)])"

definition patch_helper :: "'w cu_env \<Rightarrow> bool \<Rightarrow> string \<Rightarrow> computer_use_spec \<Rightarrow> string \<Rightarrow> ('w, unit) pw_act" where
  "patch_helper ce dry app cu team = in_turn [mutate_helper ce dry app cu team, verify_helper ce dry app cu team]"

section \<open>Cached helpers\<close>

definition patch_cached :: "'w cu_env \<Rightarrow> bool \<Rightarrow> computer_use_spec \<Rightarrow> string \<Rightarrow> string \<Rightarrow> ('w, unit) pw_act" where
  "patch_cached ce dry cu team app = in_turn [ensure_app_path app, patch_helper ce dry app cu team]"

definition patch_cache_glob :: "'w cu_env \<Rightarrow> bool \<Rightarrow> target \<Rightarrow> computer_use_spec \<Rightarrow> string \<Rightarrow> string \<Rightarrow> ('w, unit) pw_act" where
  "patch_cache_glob ce dry t cu team rel =
     (let pattern = go_join [home_or_empty (pe_genv (ce_base ce)), rel] in
      tracing (TraceAction ''scan_computer_use_cache'' (tg_id t) pattern)
       (if dry then nil_act
        else bind_act (on_files (\<lambda>w. (pe_glob (ce_base ce) pattern (os_fs w), w))) (\<lambda>found.
          case found of None \<Rightarrow> fail_act (Plain ''glob helper cache'')
          | Some apps \<Rightarrow> each_act (patch_cached ce dry cu team) (sort apps))))"

definition patch_cache :: "'w cu_env \<Rightarrow> bool \<Rightarrow> target \<Rightarrow> computer_use_spec \<Rightarrow> string \<Rightarrow> ('w, unit) pw_act" where
  "patch_cache ce dry t cu team = each_act (patch_cache_glob ce dry t cu team) (cu_cache_globs cu)"

section \<open>The authorization plug-in\<close>

definition plugin_executable :: "string \<Rightarrow> computer_use_spec \<Rightarrow> string" where
  "plugin_executable plugin cu = go_join [plugin, cu_auth_plugin_exec cu]"

definition sign_and_verify_plugin :: "'w cu_env \<Rightarrow> bool \<Rightarrow> string \<Rightarrow> string \<Rightarrow> ('w, unit) pw_act" where
  "sign_and_verify_plugin ce dry staging identity = in_turn
     [labelled ''sign authorization plugin'' (runner_run (ce_base ce) dry codesign (runtime_args identity staging)),
      labelled ''verify staged authorization plugin'' (runner_run (ce_base ce) dry codesign (deep_strict_args staging))]"

definition install_plugin :: "'w cu_env \<Rightarrow> bool \<Rightarrow> string \<Rightarrow> string \<Rightarrow> ('w, unit) pw_act" where
  "install_plugin ce dry staging plugin =
     labelled ''install authorization plugin'' (runner_run (ce_base ce) dry ''/usr/bin/sudo''
       [''/usr/bin/rsync'', ''-rltp'', ''--delete'', staging @ ''/'', plugin @ ''/''])"

definition verify_plugin :: "'w cu_env \<Rightarrow> bool \<Rightarrow> string \<Rightarrow> computer_use_spec \<Rightarrow> string \<Rightarrow> ('w, unit) pw_act" where
  "verify_plugin ce dry plugin cu team =
     (if dry then nil_act
      else rbind_act (labelled ''verify authorization plugin''
          (runner_run (ce_base ce) dry codesign (deep_strict_args plugin))) (\<lambda>_.
        rbind_act (read_path ''read authorization plugin executable'' (plugin_executable plugin cu)) (\<lambda>data.
        return_act (if count_standalone data (cu_upstream_team cu) > 0
           then Inl (Plain ''still contains upstream trusted team'')
           else plain_when (count_standalone data team = 0) ''does not contain local trusted team''))))"

definition read_plugin_repair :: "computer_use_spec \<Rightarrow> string \<Rightarrow> string \<Rightarrow> ('w, string) pw_act" where
  "read_plugin_repair cu team path =
     rbind_act (read_stated path) (\<lambda>data. return_act
       (case replace_team data (cu_upstream_team cu) team of
          Inl _ \<Rightarrow> Inl (Plain ''repair authorization plugin executable'')
        | Inr (out, n, before) \<Rightarrow>
            if n = 0 \<and> \<not> before then Inl (Plain ''contained neither trusted team'') else Inr out))"

definition stage_install_plugin :: "'w cu_env \<Rightarrow> string \<Rightarrow> string \<Rightarrow> computer_use_spec \<Rightarrow> string \<Rightarrow> ('w, unit) pw_act" where
  "stage_install_plugin ce source destination cu repaired =
     rbind_act (make_temp_dir (ce_base ce) ''create authorization plugin staging dir'') (\<lambda>tmp.
       let staging = go_join [tmp, go_base destination] in
       then_remove tmp (in_turn
         [labelled ''stage authorization plugin'' (runner_run (ce_base ce) False ''/usr/bin/rsync''
            [''-a'', source @ ''/'', staging @ ''/'']),
          labelled ''write authorization plugin executable'' (write_existing ce (plugin_executable staging cu) repaired),
          rbind_act (labelled ''resolve signing identity'' (resolve_identity (ce_base ce) False))
            (sign_and_verify_plugin ce False staging),
          install_plugin ce False staging destination]))"

definition bundled_plugin_source :: "string \<Rightarrow> computer_use_spec \<Rightarrow> string option" where
  "bundled_plugin_source host cu =
     (let name = go_base (cu_auth_plugin_path cu) in
      if name = [] \<or> name = ''.'' then None
      else map_option (\<lambda>i. go_join [bundled_helper_path host cu, fst i])
        (find (\<lambda>i. go_base (fst i) = name) (sign_items cu)))"

definition install_missing_plugin :: "'w cu_env \<Rightarrow> target \<Rightarrow> computer_use_spec \<Rightarrow> string \<Rightarrow> ('w, unit) pw_act" where
  "install_missing_plugin ce t cu team =
     (case bundled_plugin_source (tg_app_path t) cu of
        None \<Rightarrow> nil_act
      | Some source \<Rightarrow> bind_act (stat_path source) (\<lambda>r. case r of
          Inl e \<Rightarrow> if e = ENOENT then nil_act else fail_act (OsFailed ''stat authorization plugin source'' e)
        | Inr _ \<Rightarrow>
            rbind_act (read_plugin_repair cu team (plugin_executable source cu)) (\<lambda>repaired. in_turn
              [stage_install_plugin ce source (cu_auth_plugin_path cu) cu repaired,
               verify_plugin ce False (cu_auth_plugin_path cu) cu team])))"

definition patch_plugin :: "'w cu_env \<Rightarrow> target \<Rightarrow> computer_use_spec \<Rightarrow> string \<Rightarrow> ('w, unit) pw_act" where
  "patch_plugin ce t cu team =
     (let plugin = cu_auth_plugin_path cu in
      bind_act (stat_path plugin) (\<lambda>r. case r of
        Inl e \<Rightarrow> if e = ENOENT then install_missing_plugin ce t cu team else fail_act (OsFailed ''stat authorization plugin'' e)
      | Inr False \<Rightarrow> fail_act (Plain ''authorization plugin path is not a directory'')
      | Inr True \<Rightarrow>
          rbind_act (read_plugin_repair cu team (plugin_executable plugin cu)) (\<lambda>repaired. in_turn
            [stage_install_plugin ce plugin plugin cu repaired, verify_plugin ce False plugin cu team])))"

definition dry_run_plugin :: "'w cu_env \<Rightarrow> computer_use_spec \<Rightarrow> string \<Rightarrow> ('w, unit) pw_act" where
  "dry_run_plugin ce cu team =
     (let plugin = cu_auth_plugin_path cu;
          staging = go_join [pe_tmp (ce_base ce), ''desktop-via-clyde-auth-plugin'', go_base plugin] in
      tracing (TraceAction ''repair_computer_use_trusted_team'' [] (plugin_executable plugin cu)) (in_turn
       [labelled ''stage authorization plugin'' (runner_run (ce_base ce) True ''/usr/bin/rsync''
          [''-a'', plugin @ ''/'', staging @ ''/'']),
        rbind_act (labelled ''resolve signing identity'' (resolve_identity (ce_base ce) True))
          (sign_and_verify_plugin ce True staging),
        install_plugin ce True staging plugin,
        verify_plugin ce True plugin cu team]))"

definition patch_plugin_step :: "'w cu_env \<Rightarrow> bool \<Rightarrow> target \<Rightarrow> computer_use_spec \<Rightarrow> string \<Rightarrow> ('w, unit) pw_act" where
  "patch_plugin_step ce dry t cu team =
     tracing (TraceAction ''repair_computer_use_auth_plugin'' (tg_id t) (cu_auth_plugin_path cu))
       (if dry then dry_run_plugin ce cu team else patch_plugin ce t cu team)"

section \<open>The hooks\<close>

definition lifecycle_hook :: "'w cu_env \<Rightarrow> bool \<Rightarrow> target \<Rightarrow> ('w, unit) pw_act" where
  "lifecycle_hook ce dry t =
     (case ext_computer_use (tg_ext t) of
        None \<Rightarrow> nil_act
      | Some cu \<Rightarrow> (case validate_policy ce cu of
          Inl e \<Rightarrow> fail_act e
        | Inr team \<Rightarrow>
            if go_clean (tg_app_path t) \<noteq> go_clean (cu_host_app_path cu) then nil_act
            else let app = installed_helper_path ce cu;
                     after = [patch_cache ce dry t cu team, patch_plugin_step ce dry t cu team] in
              tracing (TraceAction ''repair_bundled_computer_use'' (tg_id t) app)
                (if dry then in_turn (patch_helper ce dry app cu team # after)
                 else bind_act (ensure_app_path app) (\<lambda>r. case r of
                     Inl (OsFailed what e) \<Rightarrow> if e = ENOENT then in_turn after else fail_act (OsFailed what e)
                   | Inl e \<Rightarrow> fail_act e
                   | Inr _ \<Rightarrow> in_turn (patch_helper ce dry app cu team # after)))))"

definition bundled_hook :: "'w cu_env \<Rightarrow> bool \<Rightarrow> target \<Rightarrow> ('w, unit) pw_act" where
  "bundled_hook ce dry t =
     (case ext_computer_use (tg_ext t) of
        None \<Rightarrow> nil_act
      | Some cu \<Rightarrow> (case validate_policy ce cu of
          Inl e \<Rightarrow> fail_act e
        | Inr team \<Rightarrow> let app = bundled_helper_path (tg_app_path t) cu in
            tracing (TraceAction ''repair_bundled_computer_use'' (tg_id t) app) (in_turn
              [if dry then nil_act else ensure_app_path app, mutate_helper ce dry app cu team])))"

definition bundled_verification :: "'w cu_env \<Rightarrow> bool \<Rightarrow> target \<Rightarrow> ('w, unit) pw_act" where
  "bundled_verification ce dry t =
     (case ext_computer_use (tg_ext t) of
        None \<Rightarrow> nil_act
      | Some cu \<Rightarrow> (case validate_policy ce cu of
          Inl e \<Rightarrow> fail_act e
        | Inr team \<Rightarrow> let app = bundled_helper_path (tg_app_path t) cu in in_turn
            [if dry then nil_act else ensure_app_path app, verify_helper ce dry app cu team]))"

end
