(* ===== verification/Computer_Use_Props.thy ===== *)
theory Computer_Use_Props
  imports Computer_Use Codex_Links
begin

text \<open>
  What the repair of a Computer Use helper does to files: a rewrite is atomic, and a verification
  that succeeds says which identifiers the files trust.
\<close>

section \<open>The paths of a rewrite\<close>

lemma abs_dir:
  assumes "is_abs p"
  shows "is_abs (go_dir p)"
proof -
  obtain r where p: "p = slash # r" using assms by (cases p) (auto simp: is_abs_def)
  have "dropWhile (\<lambda>c. c \<noteq> slash) (rev r @ [slash]) =
      (if slash \<in> set r then dropWhile (\<lambda>c. c \<noteq> slash) (rev r) else []) @ [slash]"
    by (auto simp: dropWhile_append)
  then obtain z where "dropWhile (\<lambda>c. c \<noteq> slash) (rev r @ [slash]) = z @ [slash]" by blast
  then have "rev (dropWhile (\<lambda>c. c \<noteq> slash) (rev p)) = slash # rev z" by (simp add: p)
  then show ?thesis by (simp add: go_dir_def go_clean_def clean_def is_abs_def)
qed

lemma base_of_join:
  assumes "is_abs a" "proper_elem x"
  shows "go_base (go_join [a, x]) = x"
proof -
  note j = components_join [OF assms(1), of "[x]"]
  have "clean (go_join [a, x]) = (True, path_components a @ [x])"
    using j(1,2) assms(2) by (simp add: path_components_def clean_def)
  then have "go_join [a, x] = slash # join [slash] (path_components a @ [x])"
    using j(3) assms(2) by (simp add: go_clean_def)
  moreover have "slash \<notin> set x" "x \<noteq> []" using assms(2) by (auto simp: proper_elem_def)
  moreover have "slash # join [slash] (ys @ [x]) =
      (if ys = [] then [] else slash # join [slash] ys) @ slash # x" for ys
    by (simp add: join_snoc)
  ultimately obtain d where d: "go_join [a, x] = d @ slash # x" by metis
  have "last x \<noteq> slash" using \<open>slash \<notin> set x\<close> \<open>x \<noteq> []\<close> by (metis last_in_set)
  then have "dropWhile (\<lambda>c. c = slash) (rev (d @ slash # x)) = rev (d @ slash # x)"
    using \<open>x \<noteq> []\<close> by (cases x rule: rev_cases) auto
  moreover have "takeWhile (\<lambda>c. c \<noteq> slash) (rev x @ slash # rev d) = rev x"
    using \<open>slash \<notin> set x\<close> by (subst takeWhile_append2) auto
  ultimately show ?thesis using d \<open>x \<noteq> []\<close> by (simp add: go_base_def Let_def)
qed

abbreviation rewrite_name :: "'w cu_env \<Rightarrow> string \<Rightarrow> string \<Rightarrow> string" where
  "rewrite_name ce path x \<equiv> x @ ''.rewrite-'' @ ce_random ce path"

lemma rewrite_components:
  assumes "is_abs a" "proper_elem x" "slash \<notin> set (ce_random ce (go_join [a, x]))"
  shows "path_components (go_join [a, x]) = path_components a @ [x]"
    "path_components (rewrite_tmp ce (go_join [a, x])) = path_components a @ [rewrite_name ce (go_join [a, x]) x]"
proof -
  let ?p = "go_join [a, x]"
  note j = components_join [OF assms(1), of "[x]"]
  show c: "path_components ?p = path_components a @ [x]" using j assms(2) by simp
  have y: "proper_elem (rewrite_name ce ?p x)"
    using assms(2,3) by (intro proper_suffix) (auto simp: slash_def)
  have "is_abs (go_dir ?p)" using j assms(2) by (intro abs_dir) simp
  from components_join(1) [OF this, of "[rewrite_name ce ?p x]"] y
  have "path_components (rewrite_tmp ce ?p) = path_components (go_dir ?p) @ [rewrite_name ce ?p x]"
    by (simp add: rewrite_tmp_def base_of_join [OF assms(1,2)])
  also have "path_components (go_dir ?p) = path_components a"
    using j assms(2) c by (intro go_dir_components) auto
  finally show "path_components (rewrite_tmp ce ?p) = path_components a @ [rewrite_name ce ?p x]" .
qed

section \<open>Atomic rewrites\<close>

text \<open>The file at \<open>p\<close> is the old one or the new one; otherwise only \<open>t\<close> has changed.\<close>

definition rewriting :: "fpath \<Rightarrow> fpath \<Rightarrow> string \<Rightarrow> filesys \<Rightarrow> filesys \<Rightarrow> bool" where
  "rewriting p t data fs0 fs \<longleftrightarrow> (fs p = fs0 p \<or> fs p = Some (File data)) \<and>
     (\<forall>q. \<not> prefix p q \<and> \<not> prefix t q \<longrightarrow> fs q = fs0 q)"

lemma file_step:
  assumes "in_turn (file_call what f # as) s = (r, s')"
  obtains (failed) e where "f (pw_os s) = (Some e, pw_os s')" "r \<noteq> Inr ()"
    | (passed) s1 where "f (pw_os s) = (None, pw_os s1)" "in_turn as s1 = (r, s')"
proof -
  from assms have "rbind_act (file_call what f) (\<lambda>_. in_turn as) s = (r, s')" by (simp only: in_turn_Cons)
  then show thesis
  proof (cases rule: rbind_act_cases)
    case (failed e)
    from file_call_run [OF failed(1)] obtain y where
      y: "f (pw_os s) = (y, pw_os s')" "Inl e = (case y of Some e \<Rightarrow> Inl (OsFailed what e) | None \<Rightarrow> Inr ())" by blast
    then obtain z where "y = Some z" by (cases y) auto
    with y(1) failed(2) show thesis by (intro that(1)) auto
  next
    case (passed x s1)
    from file_call_run [OF passed(1)] obtain y where
      y: "f (pw_os s) = (y, pw_os s1)" "Inr x = (case y of Some e \<Rightarrow> Inl (OsFailed what e) | None \<Rightarrow> Inr ())" by blast
    then have "y = None" by (cases y) auto
    with y(1) passed(2) show thesis by (intro that(2)) auto
  qed
qed

text \<open>The directory, the name of the file and the name of its rewrite.\<close>

definition rewrite_setup :: "fpath \<Rightarrow> string \<Rightarrow> string \<Rightarrow> filesys \<Rightarrow> bool" where
  "rewrite_setup rc x y fs0 \<longleftrightarrow> plain_dir rc fs0 \<and> x \<noteq> ''..'' \<and> y \<noteq> ''..'' \<and> x \<noteq> y"

abbreviation rewritten :: "fpath \<Rightarrow> string \<Rightarrow> string \<Rightarrow> string \<Rightarrow> filesys \<Rightarrow> filesys \<Rightarrow> bool" where
  "rewritten rc x y \<equiv> rewriting (rc @ [x]) (rc @ [y])"

lemma apart:
  assumes "rewrite_setup rc x y fs0"
  shows "\<not> prefix (rc @ [x]) (rc @ [y])" "\<not> prefix (rc @ [y]) (rc @ [x])" "(rc @ [x]) \<noteq> (rc @ [y])"
  using assms by (auto simp: rewrite_setup_def)

lemma kept_dir:
  assumes st: "rewrite_setup rc x y fs0" and "rewritten rc x y data fs0 fs"
  shows "plain_dir rc fs"
proof -
  have "fs q = fs0 q" if "prefix q rc" for q
  proof -
    from that have "length q \<le> length rc" by (rule prefix_length_le)
    then have "\<not> prefix (rc @ [z]) q" for z by (auto dest: prefix_length_le)
    with assms(2) show ?thesis by (simp add: rewriting_def)
  qed
  with st show ?thesis by (simp add: rewrite_setup_def plain_dir_def is_dir_def)
qed

lemma resolves:
  assumes st: "rewrite_setup rc x y fs0" and "rewritten rc x y data fs0 fs"
  shows "resolve False (rc @ [x]) fs = Inr (rc @ [x])" "resolve False (rc @ [y]) fs = Inr (rc @ [y])"
  using resolve_entry [OF kept_dir [OF st assms(2)]] st by (simp_all add: rewrite_setup_def)

lemma on_tmp:
  assumes st: "rewrite_setup rc x y fs0" and "rewritten rc x y data fs0 fs"
  shows "(rewritten rc x y data fs0) (fs((rc @ [y]) := v)) \<and> (fs((rc @ [y]) := v)) (rc @ [x]) = fs (rc @ [x])"
  using assms(2) apart [OF st] by (auto simp: rewriting_def)

text \<open>A call that leaves the tree or changes the temporary file alone.\<close>

lemma one_call:
  assumes st: "rewrite_setup rc x y fs0" and "rewritten rc x y data fs0 (os_fs w)" "next_fault w = (f, w1)" "w' = w1 \<or> (\<exists>v. w' = os_put ((os_fs w1)((rc @ [y]) := v)) w1)"
  shows "throughout (rewritten rc x y data fs0) w w'" "os_fs w' (rc @ [x]) = os_fs w (rc @ [x])"
proof -
  note s = next_fault_same [OF assms(3)]
  have t: "throughout (rewritten rc x y data fs0) w w1" using s assms(2) by (intro throughout_same) auto
  have "throughout (rewritten rc x y data fs0) w w1 \<Longrightarrow> throughout (rewritten rc x y data fs0) w (os_put ((os_fs w1)((rc @ [y]) := v)) w1)" for v
    by (rule throughout_put) (use s assms(2) on_tmp [OF st] in auto)
  with t assms(4) show "throughout (rewritten rc x y data fs0) w w'" by blast
  show "os_fs w' (rc @ [x]) = os_fs w (rc @ [x])"
    using assms(4) s apart [OF st] by auto
qed

lemma created:
  assumes st: "rewrite_setup rc x y fs0" and "rewritten rc x y data fs0 (os_fs w)" "create_temp_at (rc @ [y]) w = (r, w')"
  shows "throughout (rewritten rc x y data fs0) w w'" "os_fs w' (rc @ [x]) = os_fs w (rc @ [x])"
proof -
  obtain f w1 where f: "next_fault w = (f, w1)" by fastforce
  note s = next_fault_same [OF f]
  have "w' = w1 \<or> (\<exists>v. w' = os_put ((os_fs w1)((rc @ [y]) := v)) w1)"
    using assms(3) f resolves(2) [OF st assms(2)] s
    by (auto simp: create_temp_at_def with_path_def simp del: fun_upd_apply split: fault.splits if_splits)
  from one_call [OF st assms(2) f this] show "throughout (rewritten rc x y data fs0) w w'" "os_fs w' (rc @ [x]) = os_fs w (rc @ [x])" .
qed

lemma filled:
  assumes st: "rewrite_setup rc x y fs0" and "rewritten rc x y data fs0 (os_fs w)" "fill_at (rc @ [y]) data part w = (r, w')"
  shows "throughout (rewritten rc x y data fs0) w w'" "os_fs w' (rc @ [x]) = os_fs w (rc @ [x])"
    "r = None \<Longrightarrow> os_fs w' (rc @ [y]) = Some (File data)"
proof -
  obtain f w1 where f: "next_fault w = (f, w1)" by fastforce
  note s = next_fault_same [OF f]
  have "w' = w1 \<or> (\<exists>v. w' = os_put ((os_fs w1)((rc @ [y]) := v)) w1)"
    using assms(3) f resolves(2) [OF st assms(2)] s
    by (auto simp: fill_at_def simp del: fun_upd_apply split: fault.splits if_splits)
  from one_call [OF st assms(2) f this] show "throughout (rewritten rc x y data fs0) w w'" "os_fs w' (rc @ [x]) = os_fs w (rc @ [x])" .
  show "r = None \<Longrightarrow> os_fs w' (rc @ [y]) = Some (File data)"
    using assms(3) f resolves(2) [OF st assms(2)] s by (auto simp: fill_at_def split: fault.splits)
qed

lemma touched:
  assumes st: "rewrite_setup rc x y fs0" and "rewritten rc x y data fs0 (os_fs w)" "os_touch w = (r, w')"
  shows "throughout (rewritten rc x y data fs0) w w'" "os_fs w' = os_fs w"
proof -
  obtain f w1 where f: "next_fault w = (f, w1)" by fastforce
  note s = next_fault_same [OF f]
  have w: "w' = w1" using assms(3) f by (auto simp: os_touch_def split: fault.splits)
  then show "os_fs w' = os_fs w" using s by simp
  from w have "w' = w1 \<or> (\<exists>v. w' = os_put ((os_fs w1)((rc @ [y]) := v)) w1)" ..
  from one_call [OF st assms(2) f this] show "throughout (rewritten rc x y data fs0) w w'" by blast
qed

lemma chmodded:
  assumes st: "rewrite_setup rc x y fs0" and "rewritten rc x y data fs0 (os_fs w)" "chmod_at (rc @ [y]) w = (r, w')"
  shows "throughout (rewritten rc x y data fs0) w w'" "os_fs w' = os_fs w"
proof -
  obtain f w1 where f: "next_fault w = (f, w1)" by fastforce
  note s = next_fault_same [OF f]
  have w: "w' = w1" using assms(3) f
    by (auto simp: chmod_at_def with_path_def split: fault.splits sum.splits if_splits)
  then show "os_fs w' = os_fs w" using s by simp
  from w have "w' = w1 \<or> (\<exists>v. w' = os_put ((os_fs w1)((rc @ [y]) := v)) w1)" ..
  from one_call [OF st assms(2) f this] show "throughout (rewritten rc x y data fs0) w w'" by blast
qed

lemma removed:
  assumes st: "rewrite_setup rc x y fs0" and "rewritten rc x y data fs0 (os_fs w)" "remove_at (rc @ [y]) w = (r, w')"
  shows "throughout (rewritten rc x y data fs0) w w'" "os_fs w' (rc @ [x]) = os_fs w (rc @ [x])" "os_fs w (rc @ [y]) = None \<Longrightarrow> os_fs w' = os_fs w"
proof -
  obtain f w1 where f: "next_fault w = (f, w1)" by fastforce
  note s = next_fault_same [OF f]
  have "w' = w1 \<or> (\<exists>v. w' = os_put ((os_fs w1)((rc @ [y]) := v)) w1)"
    using assms(3) f resolves(2) [OF st assms(2)] s
    by (auto simp: remove_at_def Let_def simp del: fun_upd_apply split: fault.splits if_splits)
  from one_call [OF st assms(2) f this] show "throughout (rewritten rc x y data fs0) w w'" "os_fs w' (rc @ [x]) = os_fs w (rc @ [x])" .
  show "os_fs w (rc @ [y]) = None \<Longrightarrow> os_fs w' = os_fs w"
    using assms(3) f resolves(2) [OF st assms(2)] s by (auto simp: remove_at_def Let_def split: fault.splits if_splits)
qed

lemma renamed:
  assumes st: "rewrite_setup rc x y fs0" and "rewritten rc x y data fs0 (os_fs w)" "os_fs w (rc @ [y]) = Some (File data)" "rename_at (rc @ [y]) (rc @ [x]) w = (r, w')"
  shows "throughout (rewritten rc x y data fs0) w w'"
    "if r = None then os_fs w' (rc @ [x]) = Some (File data) \<and> os_fs w' (rc @ [y]) = None else os_fs w' = os_fs w"
proof -
  obtain f w1 where f: "next_fault w = (f, w1)" by fastforce
  note s = next_fault_same [OF f]
  have t: "throughout (rewritten rc x y data fs0) w w1" using s assms(2) by (intro throughout_same) auto
  have m: "move_tree (rc @ [y]) (rc @ [x]) (os_fs w1) (rc @ [x]) = Some (File data)" "move_tree (rc @ [y]) (rc @ [x]) (os_fs w1) (rc @ [y]) = None"
    using s assms(3) apart [OF st] by (auto simp: move_tree_def)
  have "(rewritten rc x y data fs0) (move_tree (rc @ [y]) (rc @ [x]) (os_fs w1))"
    using s assms(2) m(1) by (auto simp: rewriting_def move_tree_def)
  from throughout_put [OF t this] t assms(4) f resolves [OF st assms(2)] s
  show "throughout (rewritten rc x y data fs0) w w'"
    by (auto simp: rename_at_def with_path_def split: fault.splits if_splits sum.splits option.splits)
  show "if r = None then os_fs w' (rc @ [x]) = Some (File data) \<and> os_fs w' (rc @ [y]) = None else os_fs w' = os_fs w"
    using assms(4) f resolves [OF st assms(2)] s m
    by (auto simp: rename_at_def with_path_def split: fault.splits if_splits)
qed

lemma all_steps:
  assumes st: "rewrite_setup rc x y fs0" and "os_fs (pw_os s) = fs0"
    and "bind_act (in_turn
          [file_call ''write'' (fill_at (rc @ [y]) data part), file_call ''close staged rewrite'' os_touch,
           file_call ''chmod staged rewrite'' (chmod_at (rc @ [y])),
           file_call ''replace with staged rewrite'' (rename_at (rc @ [y]) (rc @ [x]))])
        (\<lambda>r. bind_act (on_files (remove_at (rc @ [y]))) (\<lambda>_. return_act r)) s1 = (r, s')"
    and "throughout (rewritten rc x y data fs0) (pw_os s) (pw_os s1)" "os_fs (pw_os s1) (rc @ [x]) = fs0 (rc @ [x])"
  shows "throughout (rewritten rc x y data fs0) (pw_os s) (pw_os s')"
    "if r = Inr () then os_fs (pw_os s') (rc @ [x]) = Some (File data) \<and> os_fs (pw_os s') (rc @ [y]) = None
     else os_fs (pw_os s') (rc @ [x]) = fs0 (rc @ [x])"
proof -
  let ?T = "throughout (rewritten rc x y data fs0) (pw_os s)"
  let ?ok = "\<lambda>r fs. if r = Inr () then fs (rc @ [x]) = Some (File data) \<and> fs (rc @ [y]) = None else fs (rc @ [x]) = fs0 (rc @ [x])"
  obtain s2 where s2: "in_turn
          [file_call ''write'' (fill_at (rc @ [y]) data part), file_call ''close staged rewrite'' os_touch,
           file_call ''chmod staged rewrite'' (chmod_at (rc @ [y])),
           file_call ''replace with staged rewrite'' (rename_at (rc @ [y]) (rc @ [x]))] s1 = (r, s2)"
    and rem: "\<exists>e. remove_at (rc @ [y]) (pw_os s2) = (e, pw_os s')"
    using assms(3) by (auto simp: return_act_def elim!: bind_act_cases dest!: on_files_run)
  have main: "?T (pw_os s2) \<and> ?ok r (os_fs (pw_os s2))"
    using s2
  proof (cases rule: file_step)
    case (failed e)
    note m = filled [OF st throughout_last [OF assms(4)] failed(1)]
    from throughout_trans [OF assms(4) m(1)] m(2) failed(2) assms(5) show ?thesis by simp
  next
    case (passed s3)
    note m3 = filled [OF st throughout_last [OF assms(4)] passed(1)]
    have t3: "?T (pw_os s3)" using assms(4) m3(1) by (rule throughout_trans)
    from passed(2) show ?thesis
    proof (cases rule: file_step)
      case (failed e)
      note m = touched [OF st throughout_last [OF t3] failed(1)]
      from throughout_trans [OF t3 m(1)] m(2) m3(2) failed(2) assms(5) show ?thesis by simp
    next
      case (passed s4)
      note m4 = touched [OF st throughout_last [OF t3] passed(1)]
      have t4: "?T (pw_os s4)" using t3 m4(1) by (rule throughout_trans)
      from passed(2) show ?thesis
      proof (cases rule: file_step)
        case (failed e)
        note m = chmodded [OF st throughout_last [OF t4] failed(1)]
        from throughout_trans [OF t4 m(1)] m(2) m4(2) m3(2) failed(2) assms(5) show ?thesis by simp
      next
        case (passed s5)
        note m5 = chmodded [OF st throughout_last [OF t4] passed(1)]
        have t5: "?T (pw_os s5)" using t4 m5(1) by (rule throughout_trans)
        have staged: "os_fs (pw_os s5) (rc @ [y]) = Some (File data)" using m3(3) m4(2) m5(2) by simp
        note m6 = renamed [OF st throughout_last [OF t5] staged]
        from passed(2) show ?thesis
        proof (cases rule: file_step)
          case (failed e)
          from throughout_trans [OF t5 m6(1) [OF failed(1)]] m6(2) [OF failed(1)] m5(2) m4(2) m3(2) failed(2) assms(5)
          show ?thesis by simp
        next
          case (passed s6)
          then have "r = Inr ()" "s6 = s2"
            by (simp_all add: in_turn_Nil nil_act_def return_act_def)
          with throughout_trans [OF t5 m6(1) [OF passed(1)]] m6(2) [OF passed(1)] show ?thesis by simp
        qed
      qed
    qed
  qed
  from rem obtain e where e: "remove_at (rc @ [y]) (pw_os s2) = (e, pw_os s')" by blast
  note m = removed [OF st throughout_last [OF conjunct1 [OF main]] e]
  show "?T (pw_os s')" by (rule throughout_trans [OF conjunct1 [OF main] m(1)])
  show "?ok r (os_fs (pw_os s'))" using main m(2,3) by (auto split: if_splits)
qed

section \<open>The rewrite\<close>

text \<open>C21.
  A rewrite of a file, at every moment and whatever calls fail: the file is the old one or the whole
  new one, and nothing else changes but the temporary file beside it. On success the new file is in
  place and the temporary one gone; on an error the file is the old one. A symbolic link at the place
  is replaced, not followed.
\<close>
theorem rewrite_atomic:
  assumes "is_abs a" "proper_elem x" "slash \<notin> set (ce_random ce (go_join [a, x]))"
    and "plain_dir (path_components a) (os_fs (pw_os s))"
    and "write_existing ce (go_join [a, x]) data s = (r, s')"
  shows "throughout (rewriting (path_components a @ [x]) (path_components a @ [rewrite_name ce (go_join [a, x]) x])
       data (os_fs (pw_os s))) (pw_os s) (pw_os s') \<and>
    (if r = Inr ()
     then os_fs (pw_os s') (path_components a @ [x]) = Some (File data) \<and>
       os_fs (pw_os s') (path_components a @ [rewrite_name ce (go_join [a, x]) x]) = None
     else os_fs (pw_os s') (path_components a @ [x]) = os_fs (pw_os s) (path_components a @ [x]))"
proof -
  let ?y = "rewrite_name ce (go_join [a, x]) x" and ?rc = "path_components a" and ?fs0 = "os_fs (pw_os s)"
  note comps = rewrite_components [OF assms(1-3)]
  have "?y \<noteq> ''..''" by (cases x) (auto simp: append_eq_Cons_conv)
  then have st: "rewrite_setup ?rc x ?y ?fs0"
    using assms(2,4) by (auto simp: rewrite_setup_def proper_elem_def)
  have start: "rewriting (?rc @ [x]) (?rc @ [?y]) data ?fs0 ?fs0" by (simp add: rewriting_def)
  from assms(5) show ?thesis
    unfolding write_existing_def comps Let_def
  proof (cases rule: rbind_act_cases)
    case (failed e)
    from file_call_run [OF failed(1)] obtain z where "create_temp_at (?rc @ [?y]) (pw_os s) = (z, pw_os s')" by blast
    with created [OF st start] failed(2) show ?thesis by simp
  next
    case (passed u s1)
    from file_call_run [OF passed(1)] obtain z where "create_temp_at (?rc @ [?y]) (pw_os s) = (z, pw_os s1)" by blast
    with all_steps [OF st refl passed(2)] created [OF st start] show ?thesis by simp
  qed
qed

end
