(* ===== verification/Computer_Use_Checks.thy ===== *)
theory Computer_Use_Checks
  imports Computer_Use_Props
begin

text \<open>
  What the verification of a Computer Use helper establishes, what a dry run leaves alone, and when
  the authorization plug-in is installed.
\<close>

section \<open>Identifiers outside the code signatures\<close>

definition outside :: "(int \<times> int) list \<Rightarrow> nat \<Rightarrow> bool" where
  "outside rs s \<longleftrightarrow> (\<forall>(a, b)\<in>set rs. b \<le> int s \<or> int s + 10 \<le> a)"

lemma not_overlaps: "\<not> overlaps_any rs s (s + 10) \<longleftrightarrow> outside rs s"
  by (auto simp: overlaps_any_def outside_def list_ex_iff not_less)

lemma count_trusted_card:
  assumes "valid_team t" "signature_ranges d = Inr rs"
  shows "count_trusted d t = Inr (card {s. standalone d t s \<and> outside rs s})"
proof -
  have t: "list_all is_alnum t" "t \<noteq> []" "length t = 10" using assms(1) by (auto simp: valid_team_def)
  let ?ok = "\<lambda>s e. token_boundary d s e \<and> \<not> overlaps_any rs s e"
  have "{s. standalone d t s \<and> 0 \<le> s \<and> ?ok s (s + length t)} = {s. standalone d t s \<and> outside rs s}"
    using t(3) by (auto simp: standalone_def not_overlaps)
  with count_where_card [OF t(1,2), of ?ok d 0] assms(2) show ?thesis
    by (simp add: count_trusted_def rbind_def)
qed

text \<open>C20.
  Counting the occurrences of an identifier outside the code signatures never leaves the bytes of
  the file, whatever they are. When the headers are well formed, every signature lies inside the
  file and the count is that of the standalone occurrences that overlap none.
\<close>
theorem trusted_counted:
  assumes "length d < 2 ^ 63" "valid_team t"
  shows "case count_trusted d t of
      Inl e \<Rightarrow> e \<noteq> OutOfRange \<and> e \<noteq> IndexTooLarge
    | Inr n \<Rightarrow> \<exists>rs. signature_ranges d = Inr rs \<and>
        (\<forall>(a, b)\<in>set rs. 0 \<le> a \<and> a \<le> b \<and> b \<le> int (length d)) \<and>
        n = card {s. standalone d t s \<and> (\<forall>(a, b)\<in>set rs. b \<le> int s \<or> int s + 10 \<le> a)}"
proof (cases "signature_ranges d")
  case (Inl e)
  with signature_ranges_ok [OF assms(1)] show ?thesis
    by (simp add: count_trusted_def rbind_def panic_free_def)
next
  case (Inr rs)
  with signature_ranges_ok [OF assms(1)] have "inside 0 d rs" by (simp add: panic_free_def)
  with count_trusted_card [OF assms(2) Inr] Inr show ?thesis
    by (simp add: inside_def outside_def)
qed

section \<open>What a verification says of the files\<close>

definition file_text :: "string \<Rightarrow> filesys \<Rightarrow> string option" where
  "file_text p fs = (case resolve True (path_components p) fs of
     Inl _ \<Rightarrow> None | Inr q \<Rightarrow> (case fs q of Some (File d) \<Rightarrow> Some d | _ \<Rightarrow> None))"

lemma read_path_text:
  assumes "read_path what p s = (Inr d, s')"
  shows "file_text p (os_fs (pw_os s)) = Some d"
  using assms
  by (auto simp: read_path_def on_files_def on_world_def bind_act_def return_act_def read_file_at_def file_text_def
      next_fault_def split: prod.splits sum.splits option.splits fnode.splits fault.splits list.splits if_splits)

text \<open>A loop of steps that leave the tree alone has seen the tree it leaves.\<close>

lemma each_act_seen:
  assumes "each_act f xs s = (Inr (), s')" "\<And>x. keeps tree_of (f x)"
    and "\<And>x u u'. f x u = (Inr (), u') \<Longrightarrow> P x (os_fs (pw_os u))"
  shows "\<forall>x\<in>set xs. P x (os_fs (pw_os s'))"
  using assms(1)
proof (induction xs arbitrary: s)
  case (Cons x xs)
  then obtain s1 where x: "f x s = (Inr (), s1)" and xs: "each_act f xs s1 = (Inr (), s')"
    by (auto simp: rbind_act_Inr)
  have "keeps tree_of (f x)" "keeps tree_of (each_act f xs)"
    using assms(2) by (auto intro: keeps_each_act)
  from keepsD [OF this(1) x] keepsD [OF this(2) xs]
  have "os_fs (pw_os s') = os_fs (pw_os s)" by (simp add: tree_of_def)
  with Cons.IH [OF xs] assms(3) [OF x] show ?case by simp
qed simp

lemma keeps_verify_trusted_binary [keeps_intros]: "keeps tree_of (verify_trusted_binary app old new rel)"
  unfolding verify_trusted_binary_def Let_def by (intro keeps_intros)

lemma keeps_verify_requirement [keeps_intros]: "keeps tree_of (verify_requirement ce app new rel)"
  unfolding verify_requirement_def Let_def by (intro keeps_intros)

definition trusts_team :: "string \<Rightarrow> string \<Rightarrow> string \<Rightarrow> bool" where
  "trusts_team old new d \<longleftrightarrow> (\<exists>rs. signature_ranges d = Inr rs \<and>
     (\<forall>s. standalone d old s \<longrightarrow> \<not> outside rs s) \<and> (\<exists>s. standalone d new s \<and> outside rs s))"

lemma trusts_only_team:
  assumes "valid_team old" "valid_team new" "trusts_only old new d = Inr ()"
  shows "trusts_team old new d"
proof -
  have ne: "old \<noteq> []" "new \<noteq> []" using assms(1,2) by (auto simp: valid_team_def)
  obtain rs where rs: "signature_ranges d = Inr rs"
    using assms(3) by (cases "signature_ranges d") (auto simp: trusts_only_def count_trusted_def rbind_def)
  have "card {s. standalone d old s \<and> outside rs s} = 0" "card {s. standalone d new s \<and> outside rs s} \<noteq> 0"
    using assms(3) count_trusted_card [OF assms(1) rs] count_trusted_card [OF assms(2) rs]
    by (auto simp: trusts_only_def split: if_splits)
  with rs ne show ?thesis by (auto simp: trusts_team_def card_eq_0_iff)
qed

lemma verify_trusted_binary_seen:
  assumes "verify_trusted_binary app old new rel s = (Inr (), s')" "valid_team old" "valid_team new"
  shows "\<exists>d. file_text (go_join [app, rel]) (os_fs (pw_os s)) = Some d \<and> trusts_team old new d"
  using assms(1) trusts_only_team [OF assms(2,3)] read_path_text
  by (fastforce simp: verify_trusted_binary_def Let_def rbind_act_Inr return_act_def)

lemma verify_requirement_seen:
  assumes "verify_requirement ce app new rel s = (Inr (), s')"
  shows "\<exists>d. file_text (go_join [app, rel]) (os_fs (pw_os s)) = Some d \<and> ce_team_of ce d = Some new"
proof -
  obtain d where "read_path ''read helper requirement plist'' (go_join [app, rel]) s = (Inr d, s')
      \<or> (\<exists>s1. read_path ''read helper requirement plist'' (go_join [app, rel]) s = (Inr d, s1))"
    "requires_team ce new d = Inr ()"
    using assms by (auto simp: verify_requirement_def Let_def rbind_act_Inr return_act_def)
  then show ?thesis
    using read_path_text by (fastforce simp: requires_team_def split: option.splits if_splits)
qed

section \<open>What it says of the signatures\<close>

definition signed_by :: "'w cu_env \<Rightarrow> string \<Rightarrow> string \<Rightarrow> bool" where
  "signed_by ce path team \<longleftrightarrow> (\<exists>w out w'. pe_combined (ce_base ce) codesign [''-dv'', path] w = ((None, out), w') \<and>
     sg_team (parse_signature (trim_space out)) = team)"

lemma verify_sign_item_seen:
  assumes "verify_sign_item ce dry app team item s = (Inr (), s')"
  shows "signed_by ce (sign_item_path app (fst item)) team"
proof -
  obtain sig s1 where "read_signature (ce_base ce) (sign_item_path app (fst item)) s = (Inr sig, s1)" "sg_team sig = team"
    using assms by (auto simp: verify_sign_item_def Let_def rbind_act_Inr labelled_Inr fail_act_def return_act_def split: if_splits)
  then show ?thesis
    by (auto simp: read_signature_def exec_combined_def started_def on_world_def bind_act_def return_act_def
        trace_event_def signed_by_def split: prod.splits option.splits) blast
qed

lemma each_act_done: "each_act f xs s = (Inr (), s') \<Longrightarrow> x \<in> set xs \<Longrightarrow> \<exists>u u'. f x u = (Inr (), u')"
  by (induction xs arbitrary: s) (auto simp: rbind_act_Inr)

lemma extends_verify_sign_item [appends_intros]: "extends (verify_sign_item ce dry app team item)"
  unfolding verify_sign_item_def read_signature_def verify_boolean_def verify_absent_def Let_def
  by (intro appends_intros) simp_all

lemma extends_verify_files [appends_intros]:
  "extends (verify_trusted_binary app old new rel)" "extends (verify_requirement ce app new rel)"
  unfolding verify_trusted_binary_def verify_requirement_def Let_def by (intro appends_intros; simp)+

lemma validated:
  assumes "validate_policy ce cu = Inr team"
  shows "team_of_identity (pe_identity (ce_base ce)) = Some team" "valid_team team" "valid_team (cu_upstream_team cu)"
  using assms by (auto simp: validate_policy_def team_of_identity_def Let_def split: if_splits option.splits)

lemma verify_helper_seen:
  assumes "verify_helper ce False app cu team s = (Inr (), s')" "valid_team team" "valid_team (cu_upstream_team cu)"
  shows "\<forall>rel\<in>set (cu_team_patch_binaries cu).
      \<exists>d. file_text (go_join [app, rel]) (os_fs (pw_os s')) = Some d \<and> trusts_team (cu_upstream_team cu) team d"
    "\<forall>rel\<in>set (cu_team_plists cu).
      \<exists>d. file_text (go_join [app, rel]) (os_fs (pw_os s')) = Some d \<and> ce_team_of ce d = Some team"
    "\<forall>item\<in>set (sign_items cu). signed_by ce (sign_item_path app (fst item)) team"
    "\<exists>es. pw_log s' = pw_log s @ es \<and> Executed codesign (deep_strict_args app) True \<in> set es"
proof -
  obtain s1 s2 s3 where
    c: "runner_run (ce_base ce) False codesign (deep_strict_args app) s = (Inr (), s1)" and
    i: "each_act (verify_sign_item ce False app team) (sign_items cu) s1 = (Inr (), s2)" and
    b: "each_act (verify_trusted_binary app (cu_upstream_team cu) team) (cu_team_patch_binaries cu) s2 = (Inr (), s3)" and
    p: "each_act (verify_requirement ce app team) (cu_team_plists cu) s3 = (Inr (), s')"
    using assms(1) by (auto simp: verify_helper_def in_turn_first in_turn_done labelled_Inr)
  have "keeps tree_of (each_act (verify_requirement ce app team) (cu_team_plists cu))"
    by (intro keeps_intros)
  from keepsD [OF this p] have "os_fs (pw_os s') = os_fs (pw_os s3)" by (simp add: tree_of_def)
  moreover have "\<forall>rel\<in>set (cu_team_patch_binaries cu).
      \<exists>d. file_text (go_join [app, rel]) (os_fs (pw_os s3)) = Some d \<and> trusts_team (cu_upstream_team cu) team d"
    by (rule each_act_seen [OF b keeps_verify_trusted_binary]) (rule verify_trusted_binary_seen [OF _ assms(3,2)])
  ultimately show "\<forall>rel\<in>set (cu_team_patch_binaries cu).
      \<exists>d. file_text (go_join [app, rel]) (os_fs (pw_os s')) = Some d \<and> trusts_team (cu_upstream_team cu) team d"
    by simp
  show "\<forall>rel\<in>set (cu_team_plists cu).
      \<exists>d. file_text (go_join [app, rel]) (os_fs (pw_os s')) = Some d \<and> ce_team_of ce d = Some team"
    by (rule each_act_seen [OF p keeps_verify_requirement]) (rule verify_requirement_seen)
  show "\<forall>item\<in>set (sign_items cu). signed_by ce (sign_item_path app (fst item)) team"
    using each_act_done [OF i] verify_sign_item_seen by blast
  have "extends (each_act (verify_sign_item ce False app team) (sign_items cu))"
    "extends (each_act (verify_trusted_binary app (cu_upstream_team cu) team) (cu_team_patch_binaries cu))"
    "extends (each_act (verify_requirement ce app team) (cu_team_plists cu))"
    by (intro appends_intros)+
  from extended [OF this(1) i] extended [OF this(2) b] extended [OF this(3) p] runner_run_log [OF c]
  show "\<exists>es. pw_log s' = pw_log s @ es \<and> Executed codesign (deep_strict_args app) True \<in> set es" by auto
qed

text \<open>C19.
  When the verification of the bundled helper succeeds, every listed binary holds the local team
  outside its code signatures and the upstream team nowhere outside them, every requirement list
  names the local team, every signed part was read as signed by it, and the strict check of the
  bundle passed.
\<close>
theorem helper_verified:
  assumes "ext_computer_use (tg_ext t) = Some cu" "bundled_verification ce False t s = (Inr (), s')"
  shows "\<exists>team. team_of_identity (pe_identity (ce_base ce)) = Some team \<and>
    (\<forall>rel\<in>set (cu_team_patch_binaries cu). \<exists>d.
       file_text (go_join [bundled_helper_path (tg_app_path t) cu, rel]) (os_fs (pw_os s')) = Some d \<and>
       trusts_team (cu_upstream_team cu) team d) \<and>
    (\<forall>rel\<in>set (cu_team_plists cu). \<exists>d.
       file_text (go_join [bundled_helper_path (tg_app_path t) cu, rel]) (os_fs (pw_os s')) = Some d \<and>
       ce_team_of ce d = Some team) \<and>
    (\<forall>item\<in>set (sign_items cu). signed_by ce (sign_item_path (bundled_helper_path (tg_app_path t) cu) (fst item)) team) \<and>
    (\<exists>es. pw_log s' = pw_log s @ es \<and>
       Executed codesign (deep_strict_args (bundled_helper_path (tg_app_path t) cu)) True \<in> set es)"
proof -
  let ?app = "bundled_helper_path (tg_app_path t) cu"
  obtain team where v: "validate_policy ce cu = Inr team"
    using assms by (cases "validate_policy ce cu") (auto simp: bundled_verification_def fail_act_def return_act_def)
  with assms obtain s1 where a: "ensure_app_path ?app s = (Inr (), s1)"
    and h: "verify_helper ce False ?app cu team s1 = (Inr (), s')"
    by (auto simp: bundled_verification_def Let_def in_turn_first in_turn_done)
  have "extends (ensure_app_path ?app)" unfolding ensure_app_path_def by (intro appends_intros)
  from extended [OF this a] verify_helper_seen(4) [OF h validated(2,3) [OF v]]
  have log: "\<exists>es. pw_log s' = pw_log s @ es \<and> Executed codesign (deep_strict_args ?app) True \<in> set es" by auto
  show ?thesis
    using validated(1) [OF v] verify_helper_seen(1-3) [OF h validated(2,3) [OF v]] log by blast
qed

section \<open>A dry run\<close>

lemma keeps_preview [keeps_intros]: "keeps tree_of (preview_verification app cu)"
  unfolding preview_verification_def by (auto intro!: keeps_intros)

lemma appends_preview: "appends pw_log traced_only (preview_verification app cu)"
  unfolding preview_verification_def by (auto intro!: appends_intros)

lemma dry_hooks:
  "keeps tree_of (lifecycle_hook ce True t)" "appends pw_log traced_only (lifecycle_hook ce True t)"
  "keeps tree_of (bundled_hook ce True t)" "appends pw_log traced_only (bundled_hook ce True t)"
  "keeps tree_of (bundled_verification ce True t)" "appends pw_log traced_only (bundled_verification ce True t)"
  unfolding lifecycle_hook_def bundled_hook_def bundled_verification_def patch_helper_def mutate_helper_def
    verify_helper_def patch_trusted_binary_def patch_requirement_def sign_item_steps_def patch_cache_def
    patch_cache_glob_def patch_plugin_step_def dry_run_plugin_def sign_and_verify_plugin_def install_plugin_def
    verify_plugin_def resolve_identity_def write_augmented_entitlements_def Let_def if_True
  subgoal by (intro keeps_intros)
  subgoal by (intro appends_intros appends_preview; simp)
  subgoal by (intro keeps_intros)
  subgoal by (intro appends_intros appends_preview; simp)
  subgoal by (intro keeps_intros)
  subgoal by (intro appends_intros appends_preview; simp)
  done

text \<open>
  In a dry run the hooks change no file in any state they go through and start no program.
\<close>
theorem helper_dry_run_inert:
  assumes "hook \<in> {lifecycle_hook, bundled_hook, bundled_verification}" "hook ce True t s = (r, s')"
  shows "tree_of s' = tree_of s \<and> (\<exists>es. pw_log s' = pw_log s @ es \<and> list_all traced_only es)"
proof -
  have "keeps tree_of (hook ce True t)" "appends pw_log traced_only (hook ce True t)"
    using assms(1) dry_hooks by auto
  from keepsD [OF this(1) assms(2)] appendsE [OF this(2) assms(2)] show ?thesis by blast
qed

section \<open>Installing the plug-in\<close>

abbreviation sudo :: string where "sudo \<equiv> ''/usr/bin/sudo''"

fun no_sudo :: "pw_event \<Rightarrow> bool" where
  "no_sudo (Executed name args ok) \<longleftrightarrow> name \<noteq> sudo"
| "no_sudo _ \<longleftrightarrow> True"

lemma no_sudo_write_existing [appends_intros]: "appends pw_log P (write_existing ce path data)"
  unfolding write_existing_def Let_def by (intro appends_intros)

lemma no_sudo_resolve_identity [appends_intros]: "appends pw_log no_sudo (resolve_identity env dry)"
  unfolding resolve_identity_def by (intro appends_intros) simp_all

lemma no_sudo_sign [appends_intros]: "appends pw_log no_sudo (sign_and_verify_plugin ce dry staging identity)"
  unfolding sign_and_verify_plugin_def by (intro appends_intros) (simp_all add: codesign_def)

lemma sign_and_verify_log:
  assumes "sign_and_verify_plugin ce False staging identity s = (Inr (), s')"
  shows "\<exists>es. pw_log s' = pw_log s @ es \<and> Executed codesign (runtime_args identity staging) True \<in> set es \<and>
    Executed codesign (deep_strict_args staging) True \<in> set es"
  using assms by (auto simp: sign_and_verify_plugin_def in_turn_first in_turn_done labelled_Inr dest!: runner_run_log)

text \<open>Whatever stands before a run of \<open>sudo\<close>: the staged copy was signed and its signature checked.\<close>

definition sudo_after_check :: "string \<Rightarrow> pw_event list \<Rightarrow> bool" where
  "sudo_after_check staging es \<longleftrightarrow> (\<forall>pre args ok post. es = pre @ Executed sudo args ok # post \<longrightarrow>
     (\<exists>identity. Executed codesign (runtime_args identity staging) True \<in> set pre) \<and>
     Executed codesign (deep_strict_args staging) True \<in> set pre)"

lemma sudo_after_check_none: "list_all no_sudo es \<Longrightarrow> sudo_after_check staging es"
  by (auto simp: sudo_after_check_def)

lemma sudo_after_check_append:
  assumes "list_all no_sudo es" "Executed codesign (runtime_args identity staging) True \<in> set es"
    and "Executed codesign (deep_strict_args staging) True \<in> set es"
  shows "sudo_after_check staging (es @ fs)"
  unfolding sudo_after_check_def
proof (intro allI impI)
  fix pre args ok post
  assume eq: "es @ fs = pre @ Executed sudo args ok # post"
  have "length es \<le> length pre"
  proof (rule ccontr)
    assume "\<not> ?thesis"
    then have "length pre < length es" by simp
    then have "es ! length pre = (es @ fs) ! length pre" by (simp add: nth_append)
    also have "\<dots> = Executed sudo args ok" unfolding eq by simp
    finally have "Executed sudo args ok \<in> set es" using \<open>length pre < length es\<close> nth_mem by metis
    with assms(1) show False by (auto simp: list_all_iff)
  qed
  then have "take (length es) (es @ fs) = take (length es) pre" unfolding eq by simp
  then have "set es \<subseteq> set pre" using set_take_subset [of "length es" pre] by simp
  with assms(2,3) show "(\<exists>identity. Executed codesign (runtime_args identity staging) True \<in> set pre) \<and>
      Executed codesign (deep_strict_args staging) True \<in> set pre" by blast
qed

lemma quiet_step:
  assumes "appends pw_log no_sudo a" "in_turn (a # as) s = (r, s')" "pw_log s = l @ es" "list_all no_sudo es"
  obtains (failed) fs where "pw_log s' = l @ fs" "list_all no_sudo fs"
    | (passed) s1 fs where "a s = (Inr (), s1)" "pw_log s1 = pw_log s @ fs" "list_all no_sudo (es @ fs)"
        "in_turn as s1 = (r, s')"
proof -
  from assms(2) have "rbind_act a (\<lambda>_. in_turn as) s = (r, s')" by (simp only: in_turn_Cons)
  then show thesis
  proof (cases rule: rbind_act_cases)
    case (failed e)
    from appendsE [OF assms(1) failed(1)] obtain fs where "pw_log s' = pw_log s @ fs" "list_all no_sudo fs" .
    with assms(3,4) show thesis by (intro that(1) [of "es @ fs"]) auto
  next
    case (passed u s1)
    from appendsE [OF assms(1) passed(1)] obtain fs where "pw_log s1 = pw_log s @ fs" "list_all no_sudo fs" .
    with assms(4) passed show thesis by (intro that(2) [of s1 fs]) auto
  qed
qed

text \<open>C23.
  Installing the plug-in with administrator rights comes last: in every run, also one that fails,
  each use of \<open>sudo\<close> comes after the staged copy was signed and its signature was found valid.
\<close>
theorem plugin_checked_first:
  assumes "stage_install_plugin ce source destination cu repaired s = (r, s')"
  shows "\<exists>es. pw_log s' = pw_log s @ es \<and>
    sudo_after_check (go_join [pe_temp_dir (ce_base ce), go_base destination]) es"
proof -
  let ?staging = "go_join [pe_temp_dir (ce_base ce), go_base destination]"
  let ?mk = "make_temp_dir (ce_base ce) ''create authorization plugin staging dir''"
  let ?a = "labelled ''stage authorization plugin'' (runner_run (ce_base ce) False ''/usr/bin/rsync''
     [''-a'', source @ ''/'', ?staging @ ''/''])"
  let ?b = "labelled ''write authorization plugin executable'' (write_existing ce (plugin_executable ?staging cu) repaired)"
  let ?c = "rbind_act (labelled ''resolve signing identity'' (resolve_identity (ce_base ce) False))
     (sign_and_verify_plugin ce False ?staging)"
  let ?d = "install_plugin ce False ?staging destination"
  have quiet: "appends pw_log no_sudo ?mk" "appends pw_log no_sudo ?a" "appends pw_log no_sudo ?b" "appends pw_log no_sudo ?c"
    by (intro appends_intros; simp)+
  have rest: "extends (in_turn [?d])" unfolding install_plugin_def by (intro appends_intros) simp_all
  have none: "list_all no_sudo es \<Longrightarrow> pw_log s1 = pw_log s @ es \<Longrightarrow>
      \<exists>es. pw_log s1 = pw_log s @ es \<and> sudo_after_check ?staging es" for s1 :: "'a pw_sys" and es
    using sudo_after_check_none by blast
  from assms show ?thesis
    unfolding stage_install_plugin_def Let_def
  proof (cases rule: rbind_act_cases)
    case (failed e)
    from appendsE [OF quiet(1) failed(1)] none show ?thesis by blast
  next
    case (passed tmp s0)
    from appendsE [OF quiet(1) passed(1)] obtain e0 where e0: "pw_log s0 = pw_log s @ e0" "list_all no_sudo e0" .
    from passed(1) have tmp: "tmp = pe_temp_dir (ce_base ce)" by (auto simp: make_temp_dir_def rbind_act_Inr return_act_def)
    from passed(2) obtain q s9 where run: "in_turn [?a, ?b, ?c, ?d] s0 = (q, s9)" and fin: "pw_log s' = pw_log s9"
      unfolding tmp then_remove_def
      by (auto simp: return_act_def on_files_def on_world_def elim!: bind_act_cases split: prod.splits)
    have "\<exists>es. pw_log s9 = pw_log s @ es \<and> sudo_after_check ?staging es" (is ?known)
      using quiet(2) run e0
    proof (cases rule: quiet_step)
      case (passed s1 e1)
      then have e1: "pw_log s1 = pw_log s @ e0 @ e1" using e0 by simp
      from quiet(3) passed(4) e1 passed(3) show ?known
      proof (cases rule: quiet_step)
        case (passed s2 e2)
        then have e2: "pw_log s2 = pw_log s @ (e0 @ e1) @ e2" using e1 by simp
        from quiet(4) passed(4) e2 passed(3) show ?known
        proof (cases rule: quiet_step)
          case (passed s3 e3)
          obtain identity si where si: "sign_and_verify_plugin ce False ?staging identity si = (Inr (), s3)"
            and ri: "resolve_identity (ce_base ce) False s2 = (Inr identity, si)"
            using passed(1) by (auto simp: rbind_act_Inr labelled_Inr)
          from appendsE [OF no_sudo_resolve_identity ri] obtain ei where "pw_log si = pw_log s2 @ ei" .
          with sign_and_verify_log [OF si] passed(2)
          have "Executed codesign (runtime_args identity ?staging) True \<in> set e3"
            "Executed codesign (deep_strict_args ?staging) True \<in> set e3" by auto
          then have "sudo_after_check ?staging ((((e0 @ e1) @ e2) @ e3) @ fs)" for fs
            using passed(3) by (intro sudo_after_check_append [where identity = identity]) auto
          with extended [OF rest passed(4)] passed(2) e2 show ?known by auto
        qed (rule none)
      qed (rule none)
    qed (rule none)
    with fin show ?thesis by simp
  qed
qed

end
