(* ===== verification/Computer_Use_Demo.thy ===== *)
theory Computer_Use_Demo
  imports Computer_Use_Checks
begin

text \<open>Examples of the properties of the Computer Use repair.\<close>

section \<open>Identifiers\<close>

definition demo_old_team :: string where "demo_old_team = ''AAAAAAAAA1''"
definition demo_new_team :: string where "demo_new_team = ''BBBBBBBBB2''"

lemma team_replaced_witness:
  "\<exists>out. replace_team (''x '' @ demo_old_team @ '' y'') demo_old_team demo_new_team = Inr (out, 1, False) \<and>
    length out = length (''x '' @ demo_old_team @ '' y'') \<and>
    (\<forall>s. \<not> standalone out demo_old_team s)"
proof -
  let ?d = "''x '' @ demo_old_team @ '' y''"
  have r: "replace_team ?d demo_old_team demo_new_team = Inr (''x '' @ demo_new_team @ '' y'', 1, False)" by code_simp
  have "demo_old_team \<noteq> demo_new_team" by (simp add: demo_old_team_def demo_new_team_def)
  with team_replaced [OF r] r show ?thesis by blast
qed

text \<open>A thin little-endian Mach-O file with one code signature command, whose signature holds the team.\<close>

definition demo_le :: "nat \<Rightarrow> string" where
  "demo_le n = [char_of (n mod 256), char_of (n div 256), CHR 0x00, CHR 0x00]"

definition demo_macho :: string where
  "demo_macho = [CHR 0xCE, CHR 0xFA, CHR 0xED, CHR 0xFE] @ replicate 12 CHR 0x00 @ demo_le 1 @ demo_le 16 @
     demo_le 0 @ demo_le 29 @ demo_le 16 @ demo_le 58 @ demo_le 11 @
     '' '' @ demo_new_team @ '' '' @ [CHR 0x00, CHR 0x00] @ demo_new_team @ '' ''"

lemma demo_macho_ranges: "signature_ranges demo_macho = Inr [(58, 69)]"
  by code_simp

lemma trusted_counted_witness:
  "\<exists>n rs. count_trusted demo_macho demo_new_team = Inr n \<and> signature_ranges demo_macho = Inr rs \<and>
    n = card {s. standalone demo_macho demo_new_team s \<and> (\<forall>(a, b)\<in>set rs. b \<le> int s \<or> int s + 10 \<le> a)}"
proof -
  have l: "length demo_macho < 2 ^ 63" by (simp add: demo_macho_def demo_le_def demo_new_team_def)
  have v: "valid_team demo_new_team" by code_simp
  from trusted_counted [OF l v] demo_macho_ranges show ?thesis
    by (auto simp: count_trusted_def rbind_def)
qed

section \<open>Rewriting\<close>

definition demo_identity :: string where
  "demo_identity = ''me ('' @ demo_new_team @ '')''"

definition demo_cu_env :: "unit cu_env" where
  "demo_cu_env = \<lparr>ce_base = demo_patch_env\<lparr>pe_identity := demo_identity,
       pe_output := (\<lambda>name args w. (Inr (''  1) AAAAAAAAAABBBBBBBBBBCCCCCCCCCCDDDDDDDDDD '' @ [quote] @ demo_identity @ [quote]), w)),
       pe_combined := (\<lambda>_ _ w. ((None, ''TeamIdentifier='' @ demo_new_team), w))\<rparr>,
     ce_team_of = (\<lambda>d. Some d), ce_team_plist = (\<lambda>t. Some t), ce_random = (\<lambda>_. ''7'')\<rparr>"

definition demo_helper_tree :: filesys where
  "demo_helper_tree = (\<lambda>p. if p = [''h'', ''bin''] then Some (File demo_macho)
     else if p = [''h'', ''req''] then Some (File demo_new_team)
     else if p = [''h''] \<or> p = [''tmp''] then Some Dir else None)"

definition demo_helper_sys :: "unit pw_sys" where
  "demo_helper_sys = \<lparr>pw_os = \<lparr>os_fs = demo_helper_tree, os_faults = [], os_trail = []\<rparr>, pw_ext = (), pw_log = []\<rparr>"

lemma rewrite_atomic_witness:
  "fst (write_existing demo_cu_env (go_join [''/h'', ''bin'']) ''new'' demo_helper_sys) = Inr () \<and>
   os_fs (pw_os (snd (write_existing demo_cu_env (go_join [''/h'', ''bin'']) ''new'' demo_helper_sys))) [''h'', ''bin''] =
     Some (File ''new'')"
proof -
  have r: "fst (write_existing demo_cu_env (go_join [''/h'', ''bin'']) ''new'' demo_helper_sys) = Inr ()" by code_simp
  have h: "path_components ''/h'' = [''h'']" by code_simp
  have p: "plain_dir (path_components ''/h'') (os_fs (pw_os demo_helper_sys))"
    unfolding h plain_dir_def by (auto simp: prefix_Cons demo_helper_sys_def demo_helper_tree_def is_dir_def)
  have x: "proper_elem ''bin''" "is_abs ''/h''" "slash \<notin> set (ce_random demo_cu_env (go_join [''/h'', ''bin'']))"
    by (simp_all add: proper_elem_def is_abs_def slash_def demo_cu_env_def)
  from rewrite_atomic [OF x(2,1,3) p prod.collapse [symmetric], of "''new''"] r show ?thesis
    by (simp add: h)
qed

section \<open>Verification\<close>

definition demo_cu_policy :: computer_use_spec where
  "demo_cu_policy = \<lparr>cu_host_app_path = ''/'', cu_bundled_app_path = ''h'', cu_app_path_from_home = ''h'',
     cu_cache_globs = [''c''], cu_auth_plugin_path = ''/p'', cu_auth_plugin_exec = ''x'', cu_upstream_team = demo_old_team,
     cu_team_patch_binaries = [''bin''], cu_team_plists = [''req''],
     cu_sign_targets = [\<lparr>st_path = ''.'', st_entitlements = \<lparr>ent_strip = [], ent_required = []\<rparr>\<rparr>]\<rparr>"

definition demo_cu_target :: target where
  "demo_cu_target = demo_patch_target\<lparr>tg_app_path := ''/'',
     tg_ext := \<lparr>ext_computer_use = Some demo_cu_policy, ext_tee = None, ext_codex = None\<rparr>\<rparr>"

lemma demo_verified: "fst (bundled_verification demo_cu_env False demo_cu_target demo_helper_sys) = Inr ()"
  by code_simp

lemma helper_verified_witness:
  "\<exists>d. file_text ''/h/bin'' (os_fs (pw_os (snd (bundled_verification demo_cu_env False demo_cu_target demo_helper_sys)))) = Some d \<and>
    trusts_team demo_old_team demo_new_team d"
proof -
  have run: "bundled_verification demo_cu_env False demo_cu_target demo_helper_sys =
      (Inr (), snd (bundled_verification demo_cu_env False demo_cu_target demo_helper_sys))"
    using demo_verified by (metis prod.collapse)
  have e: "ext_computer_use (tg_ext demo_cu_target) = Some demo_cu_policy" by (simp add: demo_cu_target_def)
  have c: "bundled_helper_path (tg_app_path demo_cu_target) demo_cu_policy = ''/h''"
    "cu_team_patch_binaries demo_cu_policy = [''bin'']" "cu_upstream_team demo_cu_policy = demo_old_team"
    "team_of_identity (pe_identity (ce_base demo_cu_env)) = Some demo_new_team" by code_simp+
  have j: "go_join [''/h'', ''bin''] = ''/h/bin''" by code_simp
  from helper_verified [OF e run] show ?thesis unfolding c j [symmetric] by auto
qed

lemma helper_dry_run_inert_witness:
  "tree_of (snd (lifecycle_hook demo_cu_env True demo_cu_target demo_helper_sys)) = tree_of demo_helper_sys \<and>
   fst (lifecycle_hook demo_cu_env True demo_cu_target demo_helper_sys) = Inr ()"
proof -
  have "fst (lifecycle_hook demo_cu_env True demo_cu_target demo_helper_sys) = Inr ()" by code_simp
  moreover have "lifecycle_hook \<in> {lifecycle_hook, bundled_hook, bundled_verification}" by blast
  ultimately show ?thesis using helper_dry_run_inert [OF _ prod.collapse [symmetric]] by blast
qed

text \<open>A plug-in whose copy the program \<open>rsync\<close> makes, here with one file.\<close>

definition demo_rsync_env :: "unit cu_env" where
  "demo_rsync_env = demo_cu_env\<lparr>ce_base := (ce_base demo_cu_env)\<lparr>pe_exec := (\<lambda>name args (w, x).
     if name = ''/usr/bin/rsync''
     then (None, (os_put ((os_fs w)([''tmp'', ''t'', ''p''] \<mapsto> Dir, [''tmp'', ''t'', ''p'', ''x''] \<mapsto> File [])) w, x))
     else (None, (w, x)))\<rparr>\<rparr>"

definition demo_staged :: "(patch_error, unit) result \<times> unit pw_sys" where
  "demo_staged = stage_install_plugin demo_rsync_env ''/p'' ''/p'' demo_cu_policy ''new'' demo_helper_sys"

lemma demo_staged_done: "fst demo_staged = Inr ()"
  by code_simp

lemma plugin_checked_first_witness:
  "fst demo_staged = Inr () \<and>
   (\<exists>es. pw_log (snd demo_staged) = pw_log demo_helper_sys @ es \<and>
      sudo_after_check (go_join [pe_temp_dir (ce_base demo_rsync_env), go_base ''/p'']) es)"
  using plugin_checked_first [OF prod.collapse [symmetric], of demo_rsync_env "''/p''" "''/p''" demo_cu_policy "''new''" demo_helper_sys]
    demo_staged_done unfolding demo_staged_def by blast

end
