(* ===== verification/Claude_Tee.thy ===== *)
theory Claude_Tee
  imports Patch_Flow Hard_Reset Codex_Install "HOL-Library.List_Lexorder"
begin

text \<open>
  The tee around a bundled CLI (\<open>internal/claudetee/claudetee.go\<close>,
  \<open>internal/bundledclitee/bundledclitee.go\<close>, \<open>internal/monolith/monolith.go\<close>): the choice of the
  version directory, and the installation, which moves the CLI to \<open>.real\<close>, puts the own executable
  in its place and signs both, with a rollback on every error. The trace for tests and the lines
  shown to the user are not modelled.
\<close>

section \<open>Versions\<close>

datatype version_part = VNumber int | VText string

text \<open>\<open>int\<close> arithmetic of \<open>parseUint\<close>, which wraps.\<close>

definition wrap_int :: "int \<Rightarrow> int" where
  "wrap_int i = (i + 2 ^ 63) mod 2 ^ 64 - 2 ^ 63"

definition parse_uint :: "string \<Rightarrow> int option" where
  "parse_uint s =
     (if s = [] \<or> \<not> list_all is_digit s then None
      else Some (foldl (\<lambda>n c. wrap_int (n * 10 + (int (of_char c) - 48))) 0 s))"

fun split_separators :: "string \<Rightarrow> string list" where
  "split_separators [] = [[]]"
| "split_separators (c # s) =
     (if c = CHR ''.'' \<or> c = CHR ''-'' \<or> c = CHR ''+'' then [] # split_separators s
      else case split_separators s of [] \<Rightarrow> [[c]] | w # ws \<Rightarrow> (c # w) # ws)"

definition version_part_of :: "string \<Rightarrow> version_part" where
  "version_part_of w = (case parse_uint w of Some n \<Rightarrow> VNumber n | None \<Rightarrow> VText w)"

definition split_version :: "string \<Rightarrow> version_part list" where
  "split_version s = map version_part_of (filter (\<lambda>w. w \<noteq> []) (split_separators s))"

fun compare_parts :: "version_part list \<Rightarrow> version_part list \<Rightarrow> int" where
  "compare_parts [] [] = 0"
| "compare_parts [] (b # bs) = -1"
| "compare_parts (a # as) [] = 1"
| "compare_parts (VNumber m # as) (VNumber n # bs) =
     (if m \<noteq> n then if m < n then -1 else 1 else compare_parts as bs)"
| "compare_parts (VNumber m # as) (VText t # bs) = -1"
| "compare_parts (VText s # as) (VNumber n # bs) = 1"
| "compare_parts (VText s # as) (VText t # bs) =
     (if s \<noteq> t then if s < t then -1 else 1 else compare_parts as bs)"

definition compare_versions :: "string \<Rightarrow> string \<Rightarrow> int" where
  "compare_versions a b = compare_parts (split_version a) (split_version b)"

section \<open>The bundled CLI\<close>

record 'w tee_env =
  te_base :: "'w pw_env"
  te_read_dir :: "string \<Rightarrow> filesys \<Rightarrow> (string \<times> bool) list option"   \<comment> \<open>names, and whether a directory\<close>
  te_sort :: "string list \<Rightarrow> string list"          \<comment> \<open>\<open>sort.Slice\<close> by \<open>compareVersions\<close>, which is not stable\<close>
  te_self :: "string option"                       \<comment> \<open>\<open>os.Executable()\<close>\<close>

definition version_dirs :: "(string \<times> bool) list \<Rightarrow> string list" where
  "version_dirs entries = map fst (filter (\<lambda>(name, dir). dir \<and> name \<noteq> [] \<and> hd name \<noteq> CHR ''.'') entries)"

definition resolve_bundled :: "'w tee_env \<Rightarrow> bundled_cli_tee_spec \<Rightarrow> ('w, string) pw_act" where
  "resolve_bundled te tee =
     (if tee_bundled_cli_path tee \<noteq> [] then return_act (Inr (tee_bundled_cli_path tee))
      else if tee_app_support_dir tee = [] then fail_act (Plain ''app support directory is required'')
      else if tee_bundled_cli_rel tee = [] then fail_act (Plain ''bundled CLI relative path is required'')
      else if tee_version_dir tee \<noteq> []
      then return_act (Inr (go_join [tee_app_support_dir tee, tee_version_dir tee, tee_bundled_cli_rel tee]))
      else bind_act (on_files (\<lambda>w. (te_read_dir te (tee_app_support_dir tee) (os_fs w), w))) (\<lambda>entries.
        case entries of
          None \<Rightarrow> fail_act (Plain ''read app support directory'')
        | Some es \<Rightarrow>
            let versions = te_sort te (version_dirs es) in
            if versions = [] then fail_act (Plain ''no bundled CLI versions'')
            else return_act (Inr (go_join [tee_app_support_dir tee, last versions, tee_bundled_cli_rel tee]))))"

definition real_sibling :: "string \<Rightarrow> string" where
  "real_sibling bundled = bundled @ ''.real''"

definition resolve_tee_target :: "'w tee_env \<Rightarrow> bundled_cli_tee_spec \<Rightarrow> ('w, string) pw_act" where
  "resolve_tee_target te tee =
     rbind_act (resolve_bundled te tee) (\<lambda>bundled.
     rbind_act (existing_file ''bundled CLI missing'' bundled) (\<lambda>_.
     rbind_act (exists_path ''stat'' (real_sibling bundled)) (\<lambda>there.
       if there then fail_act (Plain ''already exists; run uninstall first'') else return_act (Inr bundled))))"

section \<open>Processes\<close>

definition processes_running :: patch_error where
  "processes_running = Plain ''configured processes are running; deferring tee install''"

definition process_tool :: "'w tee_env \<Rightarrow> string \<Rightarrow> string list \<Rightarrow> ('w, bool) pw_act" where
  "process_tool te name args =
     bind_act (exec_combined (te_base te) name args) (\<lambda>(e, out). return_act
       (case e of None \<Rightarrow> Inr True
        | Some x \<Rightarrow> if x = ExitStatus 1 then Inr False else Inl (CmdFailed name x)))"

definition process_args :: "bundled_cli_tee_spec \<Rightarrow> string list list" where
  "process_args tee = map (\<lambda>n. [''-x'', n]) (tee_terminate_names tee) @
     map (\<lambda>p. [''-f'', p]) (tee_terminate_patterns tee)"

fun any_running :: "'w tee_env \<Rightarrow> string list list \<Rightarrow> ('w, bool) pw_act" where
  "any_running te [] = return_act (Inr False)"
| "any_running te (args # as) =
     rbind_act (process_tool te ''/usr/bin/pgrep'' args) (\<lambda>matched.
       if matched then return_act (Inr True) else any_running te as)"

definition stop_processes :: "'w tee_env \<Rightarrow> bundled_cli_tee_spec \<Rightarrow> bool \<Rightarrow> ('w, unit) pw_act" where
  "stop_processes te tee allow =
     (if tee_terminate_names tee = [] \<and> tee_terminate_patterns tee = [] then nil_act
      else if \<not> allow then rbind_act (any_running te (process_args tee)) (\<lambda>running.
        if running then fail_act processes_running else nil_act)
      else each_act (\<lambda>args. rbind_act (process_tool te ''/usr/bin/pkill'' args) (\<lambda>_. nil_act)) (process_args tee))"

section \<open>Installation\<close>

text \<open>
  \<open>monolith.CopyTo\<close>. A copy that stops half way, on whichever side, is a write that falls short.
\<close>

definition copy_self :: "'w tee_env \<Rightarrow> string \<Rightarrow> ('w, unit) pw_act" where
  "copy_self te dest =
     (case te_self te of
        None \<Rightarrow> fail_act (Plain ''current executable'')
      | Some self \<Rightarrow> rbind_act (read_path ''open current executable'' self) (\<lambda>data. in_turn
          [write_path (te_base te) ''copy monolith'' dest data,
           file_call ''chmod destination'' (chmod_at (path_components dest))]))"

definition sign_combined :: "'w tee_env \<Rightarrow> string list \<Rightarrow> ('w, unit) pw_act" where
  "sign_combined te args =
     bind_act (exec_combined (te_base te) codesign args) (\<lambda>(e, out). return_act
       (case e of None \<Rightarrow> Inr () | Some x \<Rightarrow> Inl (CmdFailed codesign x)))"

definition preserve_entitlements_args :: "string \<Rightarrow> string \<Rightarrow> string list" where
  "preserve_entitlements_args identity path =
     [''--force'', ''--sign'', identity, ''--options'', ''runtime'',
      ''--preserve-metadata=entitlements,requirements'', path]"

text \<open>\<open>rollbackInstall\<close>, whose own errors are only logged, and what every error of a step after it.\<close>

definition rollback_install :: "string \<Rightarrow> ('w, unit) pw_act" where
  "rollback_install bundled =
     bind_act (on_files (remove_at (path_components bundled))) (\<lambda>_.
     bind_act (on_files (rename_at (path_components (real_sibling bundled)) (path_components bundled))) (\<lambda>_. nil_act))"

definition or_rollback :: "string \<Rightarrow> string \<Rightarrow> ('w, 'a) pw_act \<Rightarrow> ('w, 'a) pw_act" where
  "or_rollback bundled what step =
     bind_act step (\<lambda>r. case r of
       Inl e \<Rightarrow> bind_act (rollback_install bundled) (\<lambda>_. fail_act (Within what e))
     | Inr x \<Rightarrow> return_act (Inr x))"

definition signed_install :: "'w tee_env \<Rightarrow> string \<Rightarrow> ('w, unit) pw_act" where
  "signed_install te bundled =
     rbind_act (or_rollback bundled ''write shim'' (copy_self te bundled)) (\<lambda>_.
     rbind_act (or_rollback bundled ''resolve signing identity'' (resolve_identity (te_base te) False)) (\<lambda>identity. in_turn
       [or_rollback bundled ''codesign .real''
          (sign_combined te (preserve_entitlements_args identity (real_sibling bundled))),
        or_rollback bundled ''codesign shim'' (sign_combined te (runtime_args identity bundled)),
        or_rollback bundled ''codesign bundle''
          (sign_combined te (runtime_args identity (go_dir (go_dir (go_dir bundled)))))]))"

definition perform_install :: "'w tee_env \<Rightarrow> bundled_cli_tee_spec \<Rightarrow> bool \<Rightarrow> string \<Rightarrow> ('w, unit) pw_act" where
  "perform_install te tee allow bundled = in_turn
     [stop_processes te tee allow,
      file_call ''rename original to .real''
        (rename_at (path_components bundled) (path_components (real_sibling bundled))),
      signed_install te bundled]"

definition tee_install :: "'w tee_env \<Rightarrow> bundled_cli_tee_spec \<Rightarrow> bool \<Rightarrow> bool \<Rightarrow> ('w, unit) pw_act" where
  "tee_install te tee dry allow =
     rbind_act (resolve_tee_target te tee) (\<lambda>bundled.
       if dry then nil_act else perform_install te tee allow bundled)"

text \<open>The hook after a patch; its result says whether it marked the run as skipped.\<close>

definition tee_hook :: "'w tee_env \<Rightarrow> patch_options \<Rightarrow> target \<Rightarrow> ('w, bool) pw_act" where
  "tee_hook te opts t =
     (case ext_tee (tg_ext t) of
        None \<Rightarrow> return_act (Inr False)
      | Some tee \<Rightarrow> bind_act (resolve_bundled te tee) (\<lambda>r. case r of
          Inl _ \<Rightarrow> return_act (Inr False)
        | Inr bundled \<Rightarrow> bind_act (stat_path bundled) (\<lambda>b. case b of
            Inl e \<Rightarrow> if e = ENOENT then return_act (Inr False) else fail_act (OsFailed ''stat bundled cli'' e)
          | Inr _ \<Rightarrow> bind_act (stat_path (real_sibling bundled)) (\<lambda>sibling.
              if \<not> isl sibling then return_act (Inr False)
              else if po_dry_run opts then return_act (Inr False)
              else bind_act (tee_install te tee False (po_close opts)) (\<lambda>i. return_act (case i of
                  Inr _ \<Rightarrow> Inr False
                | Inl e \<Rightarrow> if e = processes_running then Inr True else Inl (Within ''install bundled cli tee'' e)))))))"

end
