(* ===== verification/Claude_Tee_Props.thy ===== *)
theory Claude_Tee_Props
  imports Claude_Tee Codex_Links
begin

text \<open>
  The version directory the tee chooses is a newest one, and its installation never loses the CLI.
\<close>

section \<open>The order of versions\<close>

instantiation version_part :: linorder
begin

fun less_eq_version_part :: "version_part \<Rightarrow> version_part \<Rightarrow> bool" where
  "less_eq_version_part (VNumber m) (VNumber n) \<longleftrightarrow> m \<le> n"
| "less_eq_version_part (VNumber m) (VText t) \<longleftrightarrow> True"
| "less_eq_version_part (VText s) (VNumber n) \<longleftrightarrow> False"
| "less_eq_version_part (VText s) (VText t) \<longleftrightarrow> s \<le> t"

definition less_version_part :: "version_part \<Rightarrow> version_part \<Rightarrow> bool" where
  "less_version_part a b \<longleftrightarrow> a \<le> b \<and> \<not> b \<le> a"

instance
proof
  fix a b c :: version_part
  show "a < b \<longleftrightarrow> a \<le> b \<and> \<not> b \<le> a" by (rule less_version_part_def)
  show "a \<le> a" by (cases a) auto
  show "a \<le> b \<Longrightarrow> b \<le> c \<Longrightarrow> a \<le> c" by (cases a; cases b; cases c) auto
  show "a \<le> b \<Longrightarrow> b \<le> a \<Longrightarrow> a = b" by (cases a; cases b) auto
  show "a \<le> b \<or> b \<le> a" by (cases a; cases b) auto
qed

end

lemma less_part_simps:
  "VNumber m < VNumber n \<longleftrightarrow> m < n" "VNumber m < VText t" "\<not> VText t < VNumber n" "VText s < VText t \<longleftrightarrow> s < t"
  by (auto simp: less_version_part_def)

text \<open>
  The comparison of versions is the lexicographic order of their parts, numbers before words: a
  strict weak order, as \<open>sort.Slice\<close> needs.
\<close>
lemma compare_versions_order:
  "compare_versions a b =
     (if split_version a < split_version b then -1 else if split_version a = split_version b then 0 else 1)"
proof -
  have "compare_parts as bs = (if as < bs then -1 else if as = bs then 0 else 1)" for as bs
    by (induction as bs rule: compare_parts.induct) (auto simp: less_part_simps)
  then show ?thesis by (simp add: compare_versions_def)
qed

definition sorts_versions :: "(string list \<Rightarrow> string list) \<Rightarrow> bool" where
  "sorts_versions f \<longleftrightarrow> (\<forall>xs. set (f xs) = set xs \<and> sorted_wrt (\<lambda>a b. \<not> compare_versions b a < 0) (f xs))"

text \<open>
  Without an override the tee wraps the CLI of a version directory than which none is newer.
\<close>
theorem newest_version_chosen:
  assumes "sorts_versions (te_sort te)" "tee_bundled_cli_path tee = []" "tee_version_dir tee = []"
    and "resolve_bundled te tee s = (Inr path, s')"
  shows "\<exists>entries v. te_read_dir te (tee_app_support_dir tee) (os_fs (pw_os s)) = Some entries \<and>
    v \<in> set (version_dirs entries) \<and> path = go_join [tee_app_support_dir tee, v, tee_bundled_cli_rel tee] \<and>
    (\<forall>w\<in>set (version_dirs entries). split_version w \<le> split_version v)"
proof -
  obtain entries where e: "te_read_dir te (tee_app_support_dir tee) (os_fs (pw_os s)) = Some entries"
    and ne: "te_sort te (version_dirs entries) \<noteq> []"
    and path: "path = go_join [tee_app_support_dir tee, last (te_sort te (version_dirs entries)), tee_bundled_cli_rel tee]"
    using assms(2-4)
    by (auto simp: resolve_bundled_def fail_act_def return_act_def bind_act_def on_files_def on_world_def Let_def
        split: if_splits option.splits prod.splits)
  let ?sorted = "te_sort te (version_dirs entries)"
  have st: "set ?sorted = set (version_dirs entries)" "sorted_wrt (\<lambda>a b. \<not> compare_versions b a < 0) ?sorted"
    using assms(1) by (auto simp: sorts_versions_def)
  from ne obtain ys where ys: "?sorted = ys @ [last ?sorted]" by (metis append_butlast_last_id)
  have "split_version w \<le> split_version (last ?sorted)" if "w \<in> set (version_dirs entries)" for w
  proof (cases "w = last ?sorted")
    case False
    with that st(1) ys have "w \<in> set ys" by (metis in_set_conv_decomp rotate1.simps(2) set_ConsD set_rotate1)
    with st(2) ys have "\<not> compare_versions (last ?sorted) w < 0" by (metis sorted_wrt_append list.set_intros(1))
    then show ?thesis by (auto simp: compare_versions_order split: if_splits)
  qed simp
  moreover have "last ?sorted \<in> set (version_dirs entries)" using ne st(1) last_in_set by blast
  ultimately show ?thesis using e path by blast
qed

section \<open>The two places\<close>

lemma suffixed_components:
  assumes "is_abs a" "proper_elem x" "slash \<notin> set y" "2 \<le> length y"
  shows "path_components (go_join [a, x] @ y) = path_components a @ [x @ y]"
proof -
  have xy: "proper_elem (x @ y)" by (rule proper_suffix [OF assms(2-4)])
  have ren: "go_join [a, z] = slash # join [slash] (path_components a @ [z])" if "proper_elem z" for z
  proof -
    have "clean (go_join [a, z]) = (True, path_components a @ [z])"
      using components_join [OF assms(1), of "[z]"] that by (simp add: path_components_def clean_def)
    then show ?thesis using components_join(3) [OF assms(1), of "[z]"] that by (simp add: go_clean_def)
  qed
  have "go_join [a, x] @ y = go_join [a, x @ y]"
    by (simp add: ren [OF assms(2)] ren [OF xy] join_snoc)
  then show ?thesis using components_join(1) [OF assms(1), of "[x @ y]"] xy by simp
qed

lemma resolve_entry_file:
  assumes "plain_dir rc fs" "x \<noteq> ''..''" "\<And>t. fs (rc @ [x]) \<noteq> Some (Symlink t)"
  shows "resolve follow (rc @ [x]) fs = Inr (rc @ [x])"
proof -
  have "walk max_links fs follow [] (rc @ [x]) = walk max_links fs follow ([] @ rc) [x]"
    by (rule walk_dirs) (use assms(1) in \<open>auto simp: plain_dir_def is_dir_def\<close>)
  also have "\<dots> = Inr (rc @ [x])" using assms(2,3) by (auto split: option.split fnode.split)
  finally show ?thesis by (simp add: resolve_def)
qed

definition is_file :: "fnode option \<Rightarrow> bool" where
  "is_file n \<longleftrightarrow> (\<exists>d. n = Some (File d))"

text \<open>A file with the CLI of the vendor, whoever signed it: what \<open>V\<close> says of its contents.\<close>

definition holds_cli :: "(string \<Rightarrow> bool) \<Rightarrow> fnode option \<Rightarrow> bool" where
  "holds_cli V n \<longleftrightarrow> (\<exists>d. n = Some (File d) \<and> V d)"

definition cli_somewhere :: "(string \<Rightarrow> bool) \<Rightarrow> fpath \<Rightarrow> string \<Rightarrow> filesys \<Rightarrow> bool" where
  "cli_somewhere V rc x fs \<longleftrightarrow> holds_cli V (fs (rc @ [x])) \<or> holds_cli V (fs (rc @ [x @ ''.real'']))"

text \<open>Once the CLI is at \<open>.real\<close>; and once the shim is in its place as well.\<close>

definition moved_away :: "(string \<Rightarrow> bool) \<Rightarrow> fpath \<Rightarrow> string \<Rightarrow> filesys \<Rightarrow> bool" where
  "moved_away V rc x fs \<longleftrightarrow> plain_dir rc fs \<and> holds_cli V (fs (rc @ [x @ ''.real''])) \<and>
     (fs (rc @ [x]) = None \<or> is_file (fs (rc @ [x])))"

definition wrapped :: "(string \<Rightarrow> bool) \<Rightarrow> fpath \<Rightarrow> string \<Rightarrow> filesys \<Rightarrow> bool" where
  "wrapped V rc x fs \<longleftrightarrow> moved_away V rc x fs \<and> is_file (fs (rc @ [x]))"

text \<open>
  What is asked of the external programs: the directories on the way stay, and at the two places
  they change at most the contents of a file, as a signature does, and leave it the CLI it was.
\<close>

definition place_kept :: "(string \<Rightarrow> bool) \<Rightarrow> fnode option \<Rightarrow> fnode option \<Rightarrow> bool" where
  "place_kept V n0 n \<longleftrightarrow> (n0 = None \<longrightarrow> n = None) \<and> (is_file n0 \<longrightarrow> is_file n) \<and> (holds_cli V n0 \<longrightarrow> holds_cli V n)"

definition tree_kept :: "(string \<Rightarrow> bool) \<Rightarrow> fpath \<Rightarrow> string \<Rightarrow> filesys \<Rightarrow> filesys \<Rightarrow> bool" where
  "tree_kept V rc x fs0 fs \<longleftrightarrow> (plain_dir rc fs0 \<longrightarrow> plain_dir rc fs) \<and>
     place_kept V (fs0 (rc @ [x])) (fs (rc @ [x])) \<and>
     place_kept V (fs0 (rc @ [x @ ''.real''])) (fs (rc @ [x @ ''.real'']))"

definition run_kept :: "(string \<Rightarrow> bool) \<Rightarrow> fpath \<Rightarrow> string \<Rightarrow> os \<Rightarrow> os \<Rightarrow> bool" where
  "run_kept V rc x w w' \<longleftrightarrow> os_faults w' = os_faults w \<and> throughout (tree_kept V rc x (os_fs w)) w w'"

definition programs_keep :: "'w pw_env \<Rightarrow> (string \<Rightarrow> bool) \<Rightarrow> fpath \<Rightarrow> string \<Rightarrow> bool" where
  "programs_keep env V rc x \<longleftrightarrow> (\<forall>name args u.
     run_kept V rc x (fst u) (fst (snd (pe_combined env name args u))) \<and>
     run_kept V rc x (fst u) (fst (snd (pe_output env name args u))))"

section \<open>What one step does\<close>

lemma wrapped_moved: "wrapped V rc x fs \<Longrightarrow> moved_away V rc x fs"
  by (simp add: wrapped_def)

lemma moved_somewhere: "moved_away V rc x fs \<Longrightarrow> cli_somewhere V rc x fs"
  by (simp add: moved_away_def cli_somewhere_def)

lemma kept_moved:
  assumes "tree_kept V rc x fs0 fs"
  shows "moved_away V rc x fs0 \<Longrightarrow> moved_away V rc x fs" "wrapped V rc x fs0 \<Longrightarrow> wrapped V rc x fs"
    "cli_somewhere V rc x fs0 \<Longrightarrow> cli_somewhere V rc x fs"
  using assms by (auto simp: tree_kept_def place_kept_def moved_away_def wrapped_def cli_somewhere_def)

text \<open>
  A step in the states \<open>P\<close> keeps \<open>I\<close> at every moment; where it succeeds it ends in \<open>Q\<close>, where it
  fails in \<open>R\<close>, and in \<open>S\<close> as well when no file call fails by itself.
\<close>

definition step_ok :: "(filesys \<Rightarrow> bool) \<Rightarrow> (filesys \<Rightarrow> bool) \<Rightarrow> (filesys \<Rightarrow> bool) \<Rightarrow> (filesys \<Rightarrow> bool) \<Rightarrow>
    (filesys \<Rightarrow> bool) \<Rightarrow> ('w, 'a) pw_act \<Rightarrow> bool" where
  "step_ok I P Q R S a \<longleftrightarrow> (\<forall>s r s'. P (os_fs (pw_os s)) \<longrightarrow> a s = (r, s') \<longrightarrow>
     throughout I (pw_os s) (pw_os s') \<and> (\<not> isl r \<longrightarrow> Q (os_fs (pw_os s'))) \<and>
     (isl r \<longrightarrow> R (os_fs (pw_os s'))) \<and>
     (os_faults (pw_os s) = [] \<longrightarrow> os_faults (pw_os s') = [] \<and> (isl r \<longrightarrow> S (os_fs (pw_os s')))))"

lemma step_okD:
  assumes "step_ok I P Q R S a" "P (os_fs (pw_os s))" "a s = (r, s')"
  shows "throughout I (pw_os s) (pw_os s')" "\<not> isl r \<Longrightarrow> Q (os_fs (pw_os s'))"
    "os_faults (pw_os s) = [] \<Longrightarrow> os_faults (pw_os s') = []"
    "os_faults (pw_os s) = [] \<Longrightarrow> isl r \<Longrightarrow> S (os_fs (pw_os s'))" "isl r \<Longrightarrow> R (os_fs (pw_os s'))"
  using assms unfolding step_ok_def by blast+

lemma step_ok_rbind:
  assumes "step_ok I P Q R S a" "\<And>v. step_ok I Q Q' R S (f v)"
  shows "step_ok I P Q' R S (rbind_act a f)"
  unfolding step_ok_def
proof (intro allI impI)
  fix s r s'
  assume p: "P (os_fs (pw_os s))" and run: "rbind_act a f s = (r, s')"
  from run show "throughout I (pw_os s) (pw_os s') \<and> (\<not> isl r \<longrightarrow> Q' (os_fs (pw_os s'))) \<and>
     (isl r \<longrightarrow> R (os_fs (pw_os s'))) \<and>
     (os_faults (pw_os s) = [] \<longrightarrow> os_faults (pw_os s') = [] \<and> (isl r \<longrightarrow> S (os_fs (pw_os s'))))"
  proof (cases rule: rbind_act_cases)
    case (failed e)
    with step_okD [OF assms(1) p failed(1)] show ?thesis by simp
  next
    case (passed v s1)
    note a = step_okD [OF assms(1) p passed(1)]
    note b = step_okD [OF assms(2) a(2) passed(2)]
    from throughout_trans [OF a(1) b(1)] a(3) b(2-5) show ?thesis by auto
  qed
qed

lemma step_ok_in_turn:
  "(\<And>fs. Q fs \<Longrightarrow> I fs) \<Longrightarrow> list_all (step_ok I Q Q R S) as \<Longrightarrow> step_ok I Q Q R S (in_turn as)"
proof (induction as)
  case Nil
  then show ?case
    by (auto simp: in_turn_Nil nil_act_def return_act_def step_ok_def intro: throughout_same)
next
  case (Cons a as)
  then show ?case by (auto simp: in_turn_Cons intro: step_ok_rbind)
qed

text \<open>An external program, whatever it answers.\<close>

lemma started_os: "started name args f ok s = (r, s') \<Longrightarrow> pw_os s' = fst (snd (f (pw_os s, pw_ext s)))"
  by (auto simp: started_def on_world_def bind_act_def return_act_def trace_event_def split: prod.splits)

lemma program_kept:
  assumes "programs_keep env V rc x"
  shows "exec_combined env name args s = (r, s') \<Longrightarrow> run_kept V rc x (pw_os s) (pw_os s')"
    "exec_output env name args s = (r', s') \<Longrightarrow> run_kept V rc x (pw_os s) (pw_os s')"
proof -
  have k: "run_kept V rc x w (fst (snd (pe_combined env name args (w, y))))"
    "run_kept V rc x w (fst (snd (pe_output env name args (w, y))))" for w y
    using assms unfolding programs_keep_def by (metis fst_conv)+
  show "exec_combined env name args s = (r, s') \<Longrightarrow> run_kept V rc x (pw_os s) (pw_os s')"
    unfolding exec_combined_def using started_os k(1) by metis
  assume "exec_output env name args s = (r', s')"
  then obtain q where "started name args (pe_output env name args) (\<lambda>r. \<not> isl r) s = (q, s')"
    unfolding exec_output_def by (auto simp: return_act_def elim!: bind_act_cases)
  with started_os k(2) show "run_kept V rc x (pw_os s) (pw_os s')" by metis
qed

lemma run_kept_ok:
  assumes "\<And>s r s'. a s = (r, s') \<Longrightarrow> run_kept V rc x (pw_os s) (pw_os s')"
    and "\<And>fs0 fs. tree_kept V rc x fs0 fs \<Longrightarrow> P fs0 \<Longrightarrow> P fs" "\<And>fs. P fs \<Longrightarrow> I fs"
  shows "step_ok I P P P (\<lambda>_. True) a"
  unfolding step_ok_def
proof (intro allI impI)
  fix s r s'
  assume p: "P (os_fs (pw_os s))" and run: "a s = (r, s')"
  from assms(1) [OF run] have k: "os_faults (pw_os s') = os_faults (pw_os s)"
    "throughout (tree_kept V rc x (os_fs (pw_os s))) (pw_os s) (pw_os s')" by (auto simp: run_kept_def)
  have t: "throughout P (pw_os s) (pw_os s')"
    by (rule throughout_mono [OF k(2)]) (rule assms(2) [OF _ p])
  have "throughout I (pw_os s) (pw_os s')" by (rule throughout_mono [OF t assms(3)])
  with throughout_last [OF t] k(1)
  show "throughout I (pw_os s) (pw_os s') \<and> (\<not> isl r \<longrightarrow> P (os_fs (pw_os s'))) \<and>
     (isl r \<longrightarrow> P (os_fs (pw_os s'))) \<and>
     (os_faults (pw_os s) = [] \<longrightarrow> os_faults (pw_os s') = [] \<and> (isl r \<longrightarrow> True))" by simp
qed

lemma run_kept_refl:
  assumes "pw_os s' = pw_os s"
  shows "run_kept V rc x (pw_os s) (pw_os s')"
  using assms by (auto simp: run_kept_def tree_kept_def place_kept_def intro: throughout_same)

lemma run_kept_trans:
  assumes "run_kept V rc x u v" "run_kept V rc x v w"
  shows "run_kept V rc x u w"
proof -
  have "tree_kept V rc x (os_fs u) (os_fs v)" using assms(1) throughout_last by (auto simp: run_kept_def)
  then have "tree_kept V rc x (os_fs v) fs \<Longrightarrow> tree_kept V rc x (os_fs u) fs" for fs
    by (auto simp: tree_kept_def place_kept_def)
  with assms show ?thesis
    unfolding run_kept_def using throughout_trans throughout_mono by metis
qed

definition keeps_places :: "(string \<Rightarrow> bool) \<Rightarrow> fpath \<Rightarrow> string \<Rightarrow> ('w pw_sys \<Rightarrow> 'r \<times> 'w pw_sys) \<Rightarrow> bool" where
  "keeps_places V rc x a \<longleftrightarrow> (\<forall>s r s'. a s = (r, s') \<longrightarrow> run_kept V rc x (pw_os s) (pw_os s'))"

lemma keeps_places_bind:
  "keeps_places V rc x a \<Longrightarrow> (\<And>v. keeps_places V rc x (f v)) \<Longrightarrow> keeps_places V rc x (bind_act a f)"
  unfolding keeps_places_def by (metis bind_act_cases run_kept_trans)

lemma keeps_places_return: "keeps_places V rc x (return_act v)"
  by (auto simp: keeps_places_def return_act_def intro: run_kept_refl)

lemma keeps_places_rbind:
  "keeps_places V rc x a \<Longrightarrow> (\<And>v. keeps_places V rc x (f v)) \<Longrightarrow> keeps_places V rc x (rbind_act a f)"
  unfolding rbind_act_def
  by (rule keeps_places_bind) (auto split: sum.split intro: keeps_places_return [unfolded return_act_def])

lemma keeps_places_each: "(\<And>y. keeps_places V rc x (f y)) \<Longrightarrow> keeps_places V rc x (each_act f ys)"
  by (induction ys) (auto intro: keeps_places_return keeps_places_rbind)

lemma keeps_places_program:
  assumes "programs_keep env V rc x"
  shows "keeps_places V rc x (exec_combined env name args)" "keeps_places V rc x (exec_output env name args)"
  using program_kept [OF assms] unfolding keeps_places_def by blast+

lemmas keeps_places_intros = keeps_places_bind keeps_places_return keeps_places_rbind keeps_places_each
  keeps_places_program

lemma keeps_places_tools:
  assumes "programs_keep (te_base te) V rc x"
  shows "keeps_places V rc x (stop_processes te tee allow)"
    "keeps_places V rc x (resolve_identity (te_base te) False)"
    "keeps_places V rc x (sign_combined te args)"
proof -
  note p = keeps_places_program [OF assms]
  have tool: "keeps_places V rc x (process_tool te name args)" for name args
    unfolding process_tool_def by (rule keeps_places_bind [OF p(1)]) (auto intro: keeps_places_return split: prod.split)
  have "keeps_places V rc x (any_running te as)" for as
    by (induction as) (auto intro!: keeps_places_rbind keeps_places_return tool)
  then show "keeps_places V rc x (stop_processes te tee allow)"
    unfolding stop_processes_def nil_act_def fail_act_def
    by (auto intro!: keeps_places_rbind keeps_places_return keeps_places_each tool)
  show "keeps_places V rc x (resolve_identity (te_base te) False)"
    unfolding resolve_identity_def labelled_def if_False
    by (intro keeps_places_rbind keeps_places_bind keeps_places_return p(2))
  show "keeps_places V rc x (sign_combined te args)"
    unfolding sign_combined_def by (rule keeps_places_bind [OF p(1)]) (auto intro: keeps_places_return split: prod.split)
qed

section \<open>File calls\<close>

lemma next_fault_empty: "next_fault w = (f, w1) \<Longrightarrow> os_faults w = [] \<Longrightarrow> f = NoFault \<and> w1 = w"
  by simp

lemma moved_update:
  assumes "moved_away V rc x fs"
  shows "wrapped V rc x (fs(rc @ [x] \<mapsto> File d))"
proof -
  have "prefix q rc \<Longrightarrow> q \<noteq> rc @ [x]" for q by (auto dest: prefix_length_le)
  then have "plain_dir rc (fs(rc @ [x] \<mapsto> File d))"
    using assms by (auto simp: moved_away_def plain_dir_def is_dir_def)
  with assms show ?thesis by (simp add: wrapped_def moved_away_def is_file_def)
qed

lemma moved_resolves:
  assumes "moved_away V rc x fs" "x \<noteq> ''..''"
  shows "resolve follow (rc @ [x]) fs = Inr (rc @ [x])" "resolve False (rc @ [x @ ''.real'']) fs = Inr (rc @ [x @ ''.real''])"
proof -
  have n: "fs (rc @ [x]) \<noteq> Some (Symlink t)" for t using assms(1) by (auto simp: moved_away_def is_file_def)
  show "resolve follow (rc @ [x]) fs = Inr (rc @ [x])"
    using assms n by (intro resolve_entry_file) (auto simp: moved_away_def)
  have "x @ ''.real'' \<noteq> ''..''" by (cases x) auto
  then show "resolve False (rc @ [x @ ''.real'']) fs = Inr (rc @ [x @ ''.real''])"
    using assms(1) by (intro resolve_entry) (auto simp: moved_away_def)
qed

lemma copy_to_place:
  assumes "moved_away V rc x (os_fs w)" "x \<noteq> ''..''" "copy_to_at (rc @ [x]) data part w = (r, w')"
  shows "throughout (moved_away V rc x) w w'" "r = None \<Longrightarrow> wrapped V rc x (os_fs w')"
    "os_faults w = [] \<Longrightarrow> os_faults w' = []"
proof -
  obtain f w1 where f: "next_fault w = (f, w1)" by fastforce
  note s1 = next_fault_same [OF f]
  have t1: "throughout (moved_away V rc x) w w1" using s1 assms(1) by (intro throughout_same) auto
  define w2 where "w2 = os_put ((os_fs w1)(rc @ [x] \<mapsto> File [])) w1"
  obtain g w3 where g: "next_fault w2 = (g, w3)" by fastforce
  note s3 = next_fault_same [OF g]
  have put: "wrapped V rc x (os_fs w2)" unfolding w2_def using moved_update assms(1) s1 by simp
  have "throughout (moved_away V rc x) w w2"
    unfolding w2_def by (rule throughout_put [OF t1]) (use put in \<open>simp add: w2_def wrapped_moved\<close>)
  then have t3: "throughout (moved_away V rc x) w w3" using s3 by (auto simp: throughout_def)
  have put3: "wrapped V rc x ((os_fs w3)(rc @ [x] \<mapsto> File d))" for d
    using s3 put moved_update wrapped_moved by simp
  have t4: "throughout (moved_away V rc x) w (os_put ((os_fs w3)(rc @ [x] \<mapsto> File d)) w3)" for d
    by (rule throughout_put [OF t3 wrapped_moved [OF put3]])
  have res: "resolve True (rc @ [x]) (os_fs w1) = Inr (rc @ [x])"
    using moved_resolves(1) [OF assms(1,2)] s1 by simp
  have w': "(w' = w1 \<and> r \<noteq> None) \<or> (\<exists>d. w' = os_put ((os_fs w3)(rc @ [x] \<mapsto> File d)) w3)"
    using assms(3) f res g unfolding copy_to_at_def Let_def w2_def
    by (cases f; cases g) (auto split: if_splits)
  then show "throughout (moved_away V rc x) w w'" using t1 t4 by blast
  show "r = None \<Longrightarrow> wrapped V rc x (os_fs w')" using w' put3 by auto
  assume "os_faults w = []"
  with f have "w1 = w" by simp
  with \<open>os_faults w = []\<close> have "os_faults w2 = []" by (simp add: w2_def)
  with g have "w3 = w2" by simp
  with w' \<open>w1 = w\<close> \<open>os_faults w = []\<close> \<open>os_faults w2 = []\<close> show "os_faults w' = []" by auto
qed

lemma write_place:
  assumes "moved_away V rc x (os_fs w)" "x \<noteq> ''..''" "write_file_at (rc @ [x]) data part w = (r, w')"
  shows "throughout (moved_away V rc x) w w'" "r = None \<Longrightarrow> wrapped V rc x (os_fs w')"
    "os_faults w = [] \<Longrightarrow> os_faults w' = []"
proof -
  obtain e w1 where c: "copy_to_at (rc @ [x]) data part w = (e, w1)" by fastforce
  obtain f w2 where f: "next_fault w1 = (f, w2)" by fastforce
  note s = next_fault_same [OF f]
  note t = copy_to_place [OF assms(1,2) c]
  have w': "(w' = w1 \<and> r \<noteq> None) \<or> (w' = w2 \<and> e = None)"
    using assms(3) c f by (cases e; cases f) (auto simp: write_file_at_def)
  have "throughout (moved_away V rc x) w w2" using t(1) s by (auto simp: throughout_def)
  with t(1) w' show "throughout (moved_away V rc x) w w'" by auto
  show "r = None \<Longrightarrow> wrapped V rc x (os_fs w')" using w' t(2) s by auto
  show "os_faults w = [] \<Longrightarrow> os_faults w' = []" using w' t(3) f by auto
qed

text \<open>A call that only looks, or changes permissions.\<close>

lemma look_ok:
  assumes "\<And>w r w'. f w = (r, w') \<Longrightarrow> os_fs w' = os_fs w \<and> os_trail w' = os_trail w \<and> (os_faults w = [] \<longrightarrow> os_faults w' = [])"
    and "\<And>fs. P fs \<Longrightarrow> I fs"
  shows "step_ok I P P P (\<lambda>_. True) (bind_act (on_files f) (\<lambda>r. return_act (g r)))"
  unfolding step_ok_def
proof (intro allI impI)
  fix s r s'
  assume p: "P (os_fs (pw_os s))" and run: "bind_act (on_files f) (\<lambda>r. return_act (g r)) s = (r, s')"
  from run obtain q where "f (pw_os s) = (q, pw_os s')"
    by (auto simp: return_act_def elim!: bind_act_cases dest!: on_files_run)
  from assms(1) [OF this] p assms(2)
  show "throughout I (pw_os s) (pw_os s') \<and> (\<not> isl r \<longrightarrow> P (os_fs (pw_os s'))) \<and> (isl r \<longrightarrow> P (os_fs (pw_os s'))) \<and>
     (os_faults (pw_os s) = [] \<longrightarrow> os_faults (pw_os s') = [] \<and> (isl r \<longrightarrow> True))"
    by (auto intro: throughout_same)
qed

lemma chmod_looks:
  "chmod_at p w = (r, w') \<Longrightarrow> os_fs w' = os_fs w \<and> os_trail w' = os_trail w \<and> (os_faults w = [] \<longrightarrow> os_faults w' = [])"
  by (auto simp: chmod_at_def with_path_def next_fault_def split: list.splits fault.splits sum.splits if_splits)

lemma read_looks:
  "read_file_at p w = (r, w') \<Longrightarrow> os_fs w' = os_fs w \<and> os_trail w' = os_trail w \<and> (os_faults w = [] \<longrightarrow> os_faults w' = [])"
  by (auto simp: read_file_at_def next_fault_def split: list.splits fault.splits sum.splits option.splits fnode.splits)

lemma step_ok_mono:
  assumes "step_ok I P Q R S a" "\<And>fs. I fs \<Longrightarrow> I' fs" "\<And>fs. P' fs \<Longrightarrow> P fs" "\<And>fs. Q fs \<Longrightarrow> Q' fs"
    "\<And>fs. R fs \<Longrightarrow> R' fs" "\<And>fs. S fs \<Longrightarrow> S' fs"
  shows "step_ok I' P' Q' R' S' a"
  using assms throughout_mono unfolding step_ok_def by (metis (no_types, lifting))

lemma write_step:
  assumes "x \<noteq> ''..''" "path_components b = rc @ [x]"
  shows "step_ok (moved_away V rc x) (moved_away V rc x) (wrapped V rc x) (moved_away V rc x) (\<lambda>_. True)
    (write_path env what b data)"
  unfolding step_ok_def
proof (intro allI impI)
  fix s r s'
  assume m: "moved_away V rc x (os_fs (pw_os s))" and run: "write_path env what b data s = (r, s')"
  from run obtain q where q: "write_file_at (rc @ [x]) data (pe_part env) (pw_os s) = (q, pw_os s')"
      "r = (case q of Some e \<Rightarrow> Inl (OsFailed what e) | None \<Rightarrow> Inr ())"
    unfolding write_path_def assms(2) by (rule file_call_run)
  note w = write_place [OF m assms(1) q(1)]
  show "throughout (moved_away V rc x) (pw_os s) (pw_os s') \<and> (\<not> isl r \<longrightarrow> wrapped V rc x (os_fs (pw_os s'))) \<and>
     (isl r \<longrightarrow> moved_away V rc x (os_fs (pw_os s'))) \<and>
     (os_faults (pw_os s) = [] \<longrightarrow> os_faults (pw_os s') = [] \<and> (isl r \<longrightarrow> True))"
    using w throughout_last [OF w(1)] q(2) by (auto split: option.splits)
qed

lemma copy_self_ok:
  assumes "x \<noteq> ''..''" "path_components b = rc @ [x]"
  shows "step_ok (moved_away V rc x) (moved_away V rc x) (wrapped V rc x) (moved_away V rc x) (\<lambda>_. True) (copy_self te b)"
proof (cases "te_self te")
  case None
  then show ?thesis
    by (auto simp: copy_self_def fail_act_def return_act_def step_ok_def intro: throughout_same)
next
  case (Some self)
  let ?M = "moved_away V rc x" and ?W = "wrapped V rc x"
  have read: "step_ok ?M ?M ?M ?M (\<lambda>_. True) (read_path ''open current executable'' self)"
    unfolding read_path_def by (rule look_ok) (use read_looks in blast)+
  have chmod: "step_ok ?M ?W ?W ?M (\<lambda>_. True) (file_call ''chmod destination'' (chmod_at (rc @ [x])))"
  proof (rule step_ok_mono)
    show "step_ok ?M ?W ?W ?W (\<lambda>_. True) (file_call ''chmod destination'' (chmod_at (rc @ [x])))"
      unfolding file_call_def by (rule look_ok) (use chmod_looks wrapped_moved in blast)+
  qed (auto dest: wrapped_moved)
  have nil: "step_ok ?M ?W ?W ?M (\<lambda>_. True) nil_act"
    by (auto simp: nil_act_def return_act_def step_ok_def dest: wrapped_moved intro: throughout_same)
  have "step_ok ?M ?M ?W ?M (\<lambda>_. True)
      (rbind_act (read_path ''open current executable'' self) (\<lambda>data. in_turn
          [write_path (te_base te) ''copy monolith'' b data,
           file_call ''chmod destination'' (chmod_at (rc @ [x]))]))"
    unfolding in_turn_Cons in_turn_Nil
    by (intro step_ok_rbind [OF read] step_ok_rbind [OF write_step [OF assms]] step_ok_rbind [OF chmod] nil)
  with Some assms(2) show ?thesis by (simp add: copy_self_def)
qed

section \<open>The rollback\<close>

definition restored :: "(string \<Rightarrow> bool) \<Rightarrow> fpath \<Rightarrow> string \<Rightarrow> filesys \<Rightarrow> bool" where
  "restored V rc x fs \<longleftrightarrow> holds_cli V (fs (rc @ [x]))"

lemma remove_shim:
  assumes "moved_away V rc x (os_fs w)" "x \<noteq> ''..''" "remove_at (rc @ [x]) w = (r, w')"
  shows "throughout (moved_away V rc x) w w'" "os_faults w = [] \<Longrightarrow> os_faults w' = []"
proof -
  obtain f w1 where f: "next_fault w = (f, w1)" by fastforce
  note s = next_fault_same [OF f]
  have "plain_dir rc ((os_fs w1)(rc @ [x] := None))"
    using assms(1) s by (auto simp: moved_away_def plain_dir_def is_dir_def dest: prefix_length_le)
  then have m: "moved_away V rc x ((os_fs w1)(rc @ [x] := None))"
    using assms(1) s by (auto simp: moved_away_def)
  have t: "throughout (moved_away V rc x) w w1" using s assms(1) by (intro throughout_same) auto
  have w': "w' = w1 \<or> w' = os_put ((os_fs w1)(rc @ [x] := None)) w1"
    using assms(3) f moved_resolves(1) [OF assms(1,2)] s
    by (auto simp: remove_at_def Let_def simp del: fun_upd_apply split: fault.splits if_splits)
  with t throughout_put [OF t m] show "throughout (moved_away V rc x) w w'" by blast
  show "os_faults w = [] \<Longrightarrow> os_faults w' = []" using w' f by auto
qed

lemma move_back:
  assumes "moved_away V rc x (os_fs w)" "x \<noteq> ''..''" "rename_at (rc @ [x @ ''.real'']) (rc @ [x]) w = (r, w')"
  shows "throughout (cli_somewhere V rc x) w w'"
    "os_faults w = [] \<Longrightarrow> os_faults w' = [] \<and> restored V rc x (os_fs w')"
proof -
  obtain f w1 where f: "next_fault w = (f, w1)" by fastforce
  note s = next_fault_same [OF f]
  let ?fs = "move_tree (rc @ [x @ ''.real'']) (rc @ [x]) (os_fs w1)"
  have home: "restored V rc x ?fs" using assms(1) s by (auto simp: restored_def moved_away_def move_tree_def holds_cli_def)
  have t: "throughout (cli_somewhere V rc x) w w1"
    using s assms(1) moved_somewhere by (intro throughout_same) auto
  have t': "throughout (cli_somewhere V rc x) w (os_put ?fs w1)"
    by (rule throughout_put [OF t]) (use home in \<open>simp add: restored_def cli_somewhere_def\<close>)
  have n: "os_fs w1 (rc @ [x]) \<noteq> Some Dir" "os_fs w1 (rc @ [x @ ''.real'']) \<noteq> None"
    "os_fs w1 (rc @ [x @ ''.real'']) \<noteq> Some Dir"
    using assms(1) s by (auto simp: moved_away_def is_file_def holds_cli_def)
  have w': "(f \<noteq> NoFault \<and> w' = w1) \<or> w' = os_put ?fs w1"
    using assms(3) f n moved_resolves [OF assms(1,2)] s
    by (auto simp: rename_at_def with_path_def split: fault.splits)
  with t t' show "throughout (cli_somewhere V rc x) w w'" by blast
  assume "os_faults w = []"
  with f w' home show "os_faults w' = [] \<and> restored V rc x (os_fs w')" by auto
qed

lemma rollback_ok:
  assumes "x \<noteq> ''..''" "path_components b = rc @ [x]" "path_components (real_sibling b) = rc @ [x @ ''.real'']"
    and m: "moved_away V rc x (os_fs (pw_os s))" and run: "rollback_install b s = (r, s')"
  shows "throughout (cli_somewhere V rc x) (pw_os s) (pw_os s')"
    "os_faults (pw_os s) = [] \<Longrightarrow> os_faults (pw_os s') = [] \<and> restored V rc x (os_fs (pw_os s'))"
proof -
  from run obtain q s1 q' s2 where a: "on_files (remove_at (rc @ [x])) s = (q, s1)"
    and b: "on_files (rename_at (rc @ [x @ ''.real'']) (rc @ [x])) s1 = (q', s2)" and c: "s2 = s'"
    unfolding rollback_install_def assms(2,3) nil_act_def return_act_def by (auto elim!: bind_act_cases)
  note r = remove_shim [OF m assms(1) on_files_run [OF a]]
  note v = move_back [OF throughout_last [OF r(1)] assms(1) on_files_run [OF b]]
  show "throughout (cli_somewhere V rc x) (pw_os s) (pw_os s')"
    using throughout_trans [OF throughout_mono [OF r(1) moved_somewhere] v(1)] c by simp
  show "os_faults (pw_os s) = [] \<Longrightarrow> os_faults (pw_os s') = [] \<and> restored V rc x (os_fs (pw_os s'))"
    using r(2) v(2) c by simp
qed

lemma or_rollback_ok:
  assumes "x \<noteq> ''..''" "path_components b = rc @ [x]" "path_components (real_sibling b) = rc @ [x @ ''.real'']"
    and a: "step_ok (moved_away V rc x) P Q (moved_away V rc x) (\<lambda>_. True) step"
  shows "step_ok (cli_somewhere V rc x) P Q (cli_somewhere V rc x) (restored V rc x) (or_rollback b what step)"
  unfolding step_ok_def
proof (intro allI impI)
  fix s r s'
  assume p: "P (os_fs (pw_os s))" and run: "or_rollback b what step s = (r, s')"
  obtain q s1 where st: "step s = (q, s1)" by fastforce
  note o = step_okD [OF a p st]
  note t = throughout_mono [OF o(1) moved_somewhere]
  show "throughout (cli_somewhere V rc x) (pw_os s) (pw_os s') \<and> (\<not> isl r \<longrightarrow> Q (os_fs (pw_os s'))) \<and>
     (isl r \<longrightarrow> cli_somewhere V rc x (os_fs (pw_os s'))) \<and>
     (os_faults (pw_os s) = [] \<longrightarrow> os_faults (pw_os s') = [] \<and> (isl r \<longrightarrow> restored V rc x (os_fs (pw_os s'))))"
  proof (cases q)
    case (Inr v)
    with run st have "r = Inr v" "s' = s1" by (auto simp: or_rollback_def bind_act_def return_act_def)
    with o t Inr show ?thesis by simp
  next
    case (Inl e)
    obtain u s2 where rb: "rollback_install b s1 = (u, s2)" by fastforce
    with run st Inl have r: "isl r" "s' = s2" by (auto simp: or_rollback_def bind_act_def fail_act_def return_act_def)
    note k = rollback_ok [OF assms(1-3) o(5) rb]
    have "throughout (cli_somewhere V rc x) (pw_os s) (pw_os s')"
      using throughout_trans [OF t k(1)] Inl r(2) by simp
    with k(2) o(3) r Inl throughout_last show ?thesis by auto
  qed
qed

section \<open>The installation\<close>

lemma tool_ok:
  assumes "keeps_places V rc x a"
  shows "step_ok (moved_away V rc x) (wrapped V rc x) (wrapped V rc x) (moved_away V rc x) (\<lambda>_. True) a"
  by (rule step_ok_mono [OF run_kept_ok [of a V rc x "wrapped V rc x" "moved_away V rc x"]])
    (use assms kept_moved(2) wrapped_moved in \<open>auto simp: keeps_places_def\<close>)

lemma signed_install_ok:
  assumes "x \<noteq> ''..''" "path_components b = rc @ [x]" "path_components (real_sibling b) = rc @ [x @ ''.real'']"
    and "programs_keep (te_base te) V rc x"
  shows "step_ok (cli_somewhere V rc x) (moved_away V rc x) (wrapped V rc x) (cli_somewhere V rc x) (restored V rc x)
    (signed_install te b)"
proof -
  let ?C = "cli_somewhere V rc x" and ?M = "moved_away V rc x" and ?W = "wrapped V rc x"
  note rolled = or_rollback_ok [OF assms(1-3)]
  note kept = keeps_places_tools [OF assms(4)]
  have sign: "step_ok ?C ?W ?W ?C (restored V rc x) (or_rollback b what (sign_combined te args))" for what args
    by (rule rolled [OF tool_ok [OF kept(3)]])
  have seal: "step_ok ?C ?W ?W ?C (restored V rc x) (in_turn
       [or_rollback b what1 (sign_combined te args1), or_rollback b what2 (sign_combined te args2),
        or_rollback b what3 (sign_combined te args3)])" for what1 what2 what3 args1 args2 args3
    by (rule step_ok_in_turn) (auto dest: wrapped_moved moved_somewhere intro: sign)
  show ?thesis unfolding signed_install_def
    by (intro step_ok_rbind [OF rolled [OF copy_self_ok [OF assms(1,2)]]]
        step_ok_rbind [OF rolled [OF tool_ok [OF kept(2)]]] seal)
qed

text \<open>Before the rename.\<close>

definition unwrapped :: "(string \<Rightarrow> bool) \<Rightarrow> fpath \<Rightarrow> string \<Rightarrow> filesys \<Rightarrow> bool" where
  "unwrapped V rc x fs \<longleftrightarrow> plain_dir rc fs \<and> holds_cli V (fs (rc @ [x]))"

lemma unwrapped_facts:
  "unwrapped V rc x fs \<Longrightarrow> cli_somewhere V rc x fs" "unwrapped V rc x fs \<Longrightarrow> restored V rc x fs"
  "tree_kept V rc x fs0 fs \<Longrightarrow> unwrapped V rc x fs0 \<Longrightarrow> unwrapped V rc x fs"
  by (auto simp: unwrapped_def cli_somewhere_def restored_def tree_kept_def place_kept_def)

lemma stop_ok:
  assumes "programs_keep (te_base te) V rc x"
  shows "step_ok (cli_somewhere V rc x) (unwrapped V rc x) (unwrapped V rc x) (cli_somewhere V rc x) (restored V rc x)
    (stop_processes te tee allow)"
proof -
  have "step_ok (cli_somewhere V rc x) (unwrapped V rc x) (unwrapped V rc x) (unwrapped V rc x) (\<lambda>_. True)
      (stop_processes te tee allow)"
    by (rule run_kept_ok [of _ V rc x]) (use keeps_places_tools(1) [OF assms] unwrapped_facts in \<open>auto simp: keeps_places_def\<close>)
  then have "step_ok (cli_somewhere V rc x) (unwrapped V rc x) (unwrapped V rc x) (unwrapped V rc x) (unwrapped V rc x)
      (stop_processes te tee allow)"
    unfolding step_ok_def by blast
  then show ?thesis by (rule step_ok_mono) (auto dest: unwrapped_facts)
qed

lemma move_away:
  assumes "unwrapped V rc x (os_fs w)" "x \<noteq> ''..''" "rename_at (rc @ [x]) (rc @ [x @ ''.real'']) w = (r, w')"
  shows "throughout (cli_somewhere V rc x) w w'" "r = None \<Longrightarrow> moved_away V rc x (os_fs w')"
    "r \<noteq> None \<Longrightarrow> unwrapped V rc x (os_fs w')" "os_faults w = [] \<Longrightarrow> os_faults w' = []"
proof -
  obtain f w1 where f: "next_fault w = (f, w1)" by fastforce
  note s = next_fault_same [OF f]
  let ?fs = "move_tree (rc @ [x]) (rc @ [x @ ''.real'']) (os_fs w1)"
  have u: "unwrapped V rc x (os_fs w1)" using assms(1) s by simp
  then have pl: "plain_dir rc (os_fs w1)" and h: "holds_cli V (os_fs w1 (rc @ [x]))" by (auto simp: unwrapped_def)
  have apart: "\<not> prefix (rc @ [x @ ''.real'']) q \<and> \<not> prefix (rc @ [x]) q" if "prefix q rc" for q
    using that prefix_length_le by (fastforce dest: prefix_length_le)
  have "plain_dir rc ?fs"
    using pl apart by (auto simp: plain_dir_def is_dir_def move_tree_def)
  with h have m: "moved_away V rc x ?fs" by (auto simp: moved_away_def move_tree_def)
  have xr: "x @ ''.real'' \<noteq> ''..''" by (cases x) auto
  have t: "throughout (cli_somewhere V rc x) w w1" using u s unwrapped_facts(1) by (intro throughout_same) auto
  have w': "(r \<noteq> None \<and> w' = w1) \<or> (r = None \<and> w' = os_put ?fs w1)"
    using assms(3) f resolve_entry [OF pl assms(2)] resolve_entry [OF pl xr]
    by (auto simp: rename_at_def with_path_def split: fault.splits if_splits)
  with t throughout_put [OF t moved_somewhere [OF m]] show "throughout (cli_somewhere V rc x) w w'" by blast
  show "r = None \<Longrightarrow> moved_away V rc x (os_fs w')" "r \<noteq> None \<Longrightarrow> unwrapped V rc x (os_fs w')"
    using w' m u by auto
  show "os_faults w = [] \<Longrightarrow> os_faults w' = []" using w' f by auto
qed

lemma move_away_ok:
  assumes "x \<noteq> ''..''"
  shows "step_ok (cli_somewhere V rc x) (unwrapped V rc x) (moved_away V rc x) (cli_somewhere V rc x) (restored V rc x)
    (file_call what (rename_at (rc @ [x]) (rc @ [x @ ''.real''])))"
  unfolding step_ok_def
proof (intro allI impI)
  fix s r s'
  assume u: "unwrapped V rc x (os_fs (pw_os s))"
    and run: "file_call what (rename_at (rc @ [x]) (rc @ [x @ ''.real''])) s = (r, s')"
  from run obtain q where q: "rename_at (rc @ [x]) (rc @ [x @ ''.real'']) (pw_os s) = (q, pw_os s')"
      "r = (case q of Some e \<Rightarrow> Inl (OsFailed what e) | None \<Rightarrow> Inr ())"
    by (rule file_call_run)
  note m = move_away [OF u assms q(1)]
  show "throughout (cli_somewhere V rc x) (pw_os s) (pw_os s') \<and> (\<not> isl r \<longrightarrow> moved_away V rc x (os_fs (pw_os s'))) \<and>
     (isl r \<longrightarrow> cli_somewhere V rc x (os_fs (pw_os s'))) \<and>
     (os_faults (pw_os s) = [] \<longrightarrow> os_faults (pw_os s') = [] \<and> (isl r \<longrightarrow> restored V rc x (os_fs (pw_os s'))))"
    using m throughout_last [OF m(1)] unwrapped_facts(2) q(2) by (auto split: option.splits)
qed

lemma perform_install_ok:
  assumes "x \<noteq> ''..''" "path_components b = rc @ [x]" "path_components (real_sibling b) = rc @ [x @ ''.real'']"
    and "programs_keep (te_base te) V rc x"
  shows "step_ok (cli_somewhere V rc x) (unwrapped V rc x) (wrapped V rc x) (cli_somewhere V rc x) (restored V rc x)
    (perform_install te tee allow b)"
proof -
  have nil: "step_ok (cli_somewhere V rc x) (wrapped V rc x) (wrapped V rc x) (cli_somewhere V rc x) (restored V rc x) nil_act"
    by (auto simp: nil_act_def return_act_def step_ok_def dest: wrapped_moved moved_somewhere intro: throughout_same)
  show ?thesis unfolding perform_install_def in_turn_Cons in_turn_Nil assms(2,3)
    by (intro step_ok_rbind [OF stop_ok [OF assms(4)]] step_ok_rbind [OF move_away_ok [OF assms(1)]]
        step_ok_rbind [OF signed_install_ok [OF assms]] nil)
qed

text \<open>A step that changes nothing.\<close>

definition looking :: "('w pw_sys \<Rightarrow> 'r \<times> 'w pw_sys) \<Rightarrow> bool" where
  "looking a \<longleftrightarrow> (\<forall>s. let w = pw_os s; w' = pw_os (snd (a s)) in
     os_fs w' = os_fs w \<and> os_trail w' = os_trail w \<and> (os_faults w = [] \<longrightarrow> os_faults w' = []))"

lemma looking_bind: "looking a \<Longrightarrow> (\<And>v. looking (f v)) \<Longrightarrow> looking (bind_act a f)"
  unfolding looking_def Let_def bind_act_def by (simp split: prod.split) (metis fst_conv snd_conv)

lemma looking_return: "looking (return_act v)"
  by (simp add: looking_def return_act_def)

lemma looking_rbind: "looking a \<Longrightarrow> (\<And>v. looking (f v)) \<Longrightarrow> looking (rbind_act a f)"
  unfolding rbind_act_def
  by (rule looking_bind) (auto split: sum.split intro: looking_return [unfolded return_act_def])

lemma looking_stat: "looking (stat_path p)"
proof -
  have "os_faults w = [] \<Longrightarrow> os_faults (snd (stat_at q w)) = []" for q w
    by (auto simp: stat_at_def Let_def next_fault_def split: list.splits fault.splits sum.splits prod.splits)
  moreover have "os_fs (snd (stat_at q w)) = os_fs w \<and> os_trail (snd (stat_at q w)) = os_trail w" for q w
    using reads_only_stat_at [of q] by (simp add: reads_only_def)
  ultimately show ?thesis
    by (auto simp: looking_def stat_path_def on_files_def on_world_def Let_def split: prod.split)
      (metis snd_conv)+
qed

lemma looking_resolve_bundled: "looking (resolve_bundled te tee)"
  unfolding resolve_bundled_def
  by (auto simp: looking_def on_files_def on_world_def bind_act_def fail_act_def return_act_def Let_def
      split: option.split)

lemma looking_target: "looking (resolve_tee_target te tee)"
  unfolding resolve_tee_target_def existing_file_def exists_path_def fail_act_def nil_act_def
  by (intro looking_rbind looking_resolve_bundled looking_bind looking_stat)
    (auto intro: looking_return split: sum.split)

lemma target_is_bundled:
  "resolve_tee_target te tee s = (Inr b, s') \<Longrightarrow> fst (resolve_bundled te tee s) = Inr b"
  unfolding resolve_tee_target_def
  by (auto simp: fail_act_def return_act_def split: if_splits elim!: rbind_act_cases)

text \<open>C22.
  While the tee is installed, and whatever calls fail at whatever moment, the vendor's CLI is at its
  own path or at the path with \<open>.real\<close>. A successful installation leaves it at \<open>.real\<close> with another file
  in its place; one that fails leaves it in its place again, unless a file call failed by itself,
  which can strike the rollback too. The hypothesis is that the programs it starts (the signatures)
  rewrite the files at the two paths but keep them the CLI they were.
\<close>
theorem cli_never_lost:
  assumes "fst (resolve_bundled te tee s) = Inr (go_join [a, x])" "is_abs a" "proper_elem x"
    and "plain_dir (path_components a) (os_fs (pw_os s))"
    and "holds_cli V (os_fs (pw_os s) (path_components a @ [x]))"
    and "programs_keep (te_base te) V (path_components a) x"
    and "tee_install te tee False allow s = (r, s')"
  shows "throughout (cli_somewhere V (path_components a) x) (pw_os s) (pw_os s') \<and>
    (r = Inr () \<longrightarrow> wrapped V (path_components a) x (os_fs (pw_os s'))) \<and>
    (r \<noteq> Inr () \<and> os_faults (pw_os s) = [] \<longrightarrow> holds_cli V (os_fs (pw_os s') (path_components a @ [x])))"
proof -
  let ?rc = "path_components a"
  have x: "x \<noteq> ''..''" using assms(3) by (simp add: proper_elem_def)
  have b: "path_components (go_join [a, x]) = ?rc @ [x]"
    using components_join(1) [OF assms(2), of "[x]"] assms(3) by simp
  have br: "path_components (real_sibling (go_join [a, x])) = ?rc @ [x @ ''.real'']"
    unfolding real_sibling_def by (rule suffixed_components [OF assms(2,3)]) (simp_all add: slash_def)
  have u: "unwrapped V ?rc x (os_fs (pw_os s))" using assms(4,5) by (simp add: unwrapped_def)
  obtain q s1 where tgt: "resolve_tee_target te tee s = (q, s1)" by fastforce
  have same: "os_fs (pw_os s1) = os_fs (pw_os s)" "os_trail (pw_os s1) = os_trail (pw_os s)"
    "os_faults (pw_os s) = [] \<Longrightarrow> os_faults (pw_os s1) = []"
    using looking_target [of te tee] tgt unfolding looking_def Let_def by (metis snd_conv)+
  have t1: "throughout (cli_somewhere V ?rc x) (pw_os s) (pw_os s1)"
    using same u unwrapped_facts(1) by (intro throughout_same) auto
  have u1: "unwrapped V ?rc x (os_fs (pw_os s1))" using u same by simp
  show ?thesis
  proof (cases q)
    case (Inl e)
    with tgt assms(7) have "r = Inl e" "s' = s1" by (auto simp: tee_install_def rbind_act_def bind_act_def)
    with t1 u1 show ?thesis by (simp add: unwrapped_def)
  next
    case (Inr b')
    with target_is_bundled tgt assms(1) have "b' = go_join [a, x]" by fastforce
    with Inr tgt assms(7) have run: "perform_install te tee allow (go_join [a, x]) s1 = (r, s')"
      by (simp add: tee_install_def rbind_act_def bind_act_def)
    note p = step_okD [OF perform_install_ok [OF x b br assms(6)] u1 run]
    have "r = Inr () \<or> isl r" by (cases r) auto
    with throughout_trans [OF t1 p(1)] p(2,4) same(3) show ?thesis by (auto simp: restored_def)
  qed
qed

end
