(* ===== verification/Claude_Tee_Demo.thy ===== *)
theory Claude_Tee_Demo
  imports Claude_Tee_Props Computer_Use_Demo
begin

text \<open>Examples of the properties of the tee around a bundled CLI.\<close>

definition demo_tee :: bundled_cli_tee_spec where
  "demo_tee = \<lparr>tee_capability = ''tee'', tee_app_support_dir = ''/s'', tee_version_dir = [],
     tee_bundled_cli_rel = ''m/cli'', tee_bundled_cli_path = [], tee_terminate_names = [],
     tee_terminate_patterns = [], tee_completion_steps = []\<rparr>"

text \<open>The programs succeed but for the signature of the shim.\<close>

definition demo_tee_env :: "unit tee_env" where
  "demo_tee_env = \<lparr>te_base = (ce_base demo_cu_env)\<lparr>pe_combined := (\<lambda>_ args w.
        ((if last args = ''/s/1.2.10/m/cli'' then Some (ExitStatus 1) else None, []), w))\<rparr>,
     te_read_dir = (\<lambda>_ _. Some [(''.tmp'', True), (''1.2.10'', True), (''1.2.9'', True), (''readme'', False)]),
     te_sort = sort_key split_version, te_self = Some ''/me''\<rparr>"

definition demo_tee_tree :: filesys where
  "demo_tee_tree = (\<lambda>p. if p = [''s'', ''1.2.10'', ''m'', ''cli''] then Some (File ''cli'')
     else if p = [''me''] then Some (File ''dvc'')
     else if p \<in> {[''s''], [''s'', ''1.2.9''], [''s'', ''1.2.10''], [''s'', ''1.2.10'', ''m'']} then Some Dir else None)"

definition demo_tee_sys :: "unit pw_sys" where
  "demo_tee_sys = \<lparr>pw_os = \<lparr>os_fs = demo_tee_tree, os_faults = [], os_trail = []\<rparr>, pw_ext = (), pw_log = []\<rparr>"

lemma sort_by_version: "sorts_versions (sort_key split_version)"
proof -
  have "sorted_wrt (\<lambda>a b. split_version a \<le> split_version b) (sort_key split_version xs)" for xs
    using sorted_sort_key [of split_version xs] by (simp add: sorted_map)
  then have "sorted_wrt (\<lambda>a b. \<not> compare_versions b a < 0) (sort_key split_version xs)" for xs
    by (rule sorted_wrt_mono_rel [rotated]) (auto simp: compare_versions_order)
  then show ?thesis by (simp add: sorts_versions_def)
qed

lemma newest_version_chosen_witness:
  "fst (resolve_bundled demo_tee_env demo_tee demo_tee_sys) = Inr ''/s/1.2.10/m/cli'' \<and>
   (\<exists>v. ''/s/1.2.10/m/cli'' = go_join [''/s'', v, ''m/cli''] \<and> split_version ''1.2.9'' \<le> split_version v)"
proof -
  have r: "fst (resolve_bundled demo_tee_env demo_tee demo_tee_sys) = Inr ''/s/1.2.10/m/cli''" by code_simp
  have s: "sorts_versions (te_sort demo_tee_env)" by (simp add: demo_tee_env_def sort_by_version)
  have t: "tee_bundled_cli_path demo_tee = []" "tee_version_dir demo_tee = []" "tee_app_support_dir demo_tee = ''/s''"
    "tee_bundled_cli_rel demo_tee = ''m/cli''" by (simp_all add: demo_tee_def)
  from r obtain s' where run: "resolve_bundled demo_tee_env demo_tee demo_tee_sys = (Inr ''/s/1.2.10/m/cli'', s')"
    by (cases "resolve_bundled demo_tee_env demo_tee demo_tee_sys") auto
  have d: "''1.2.9'' \<in> set (version_dirs [(''.tmp'', True), (''1.2.10'', True), (''1.2.9'', True), (''readme'', False)])"
    by code_simp
  from newest_version_chosen [OF s t(1,2) run] d r show ?thesis
    by (auto simp: t demo_tee_env_def)
qed

lemma cli_never_lost_witness:
  "fst (tee_install demo_tee_env demo_tee False False demo_tee_sys) =
     Inl (Within ''codesign shim'' (CmdFailed codesign (ExitStatus 1))) \<and>
   throughout (cli_somewhere (\<lambda>d. d = ''cli'') [''s'', ''1.2.10'', ''m''] ''cli'') (pw_os demo_tee_sys)
     (pw_os (snd (tee_install demo_tee_env demo_tee False False demo_tee_sys))) \<and>
   os_fs (pw_os (snd (tee_install demo_tee_env demo_tee False False demo_tee_sys))) [''s'', ''1.2.10'', ''m'', ''cli''] =
     Some (File ''cli'')"
proof -
  have j: "fst (resolve_bundled demo_tee_env demo_tee demo_tee_sys) = Inr (go_join [''/s/1.2.10/m'', ''cli''])" by code_simp
  have f: "fst (tee_install demo_tee_env demo_tee False False demo_tee_sys) =
      Inl (Within ''codesign shim'' (CmdFailed codesign (ExitStatus 1)))" by code_simp
  have c: "path_components ''/s/1.2.10/m'' = [''s'', ''1.2.10'', ''m'']" by code_simp
  have x: "proper_elem ''cli''" "is_abs ''/s/1.2.10/m''" by code_simp+
  have p: "plain_dir (path_components ''/s/1.2.10/m'') (os_fs (pw_os demo_tee_sys))"
    unfolding c plain_dir_def by (auto simp: prefix_Cons demo_tee_sys_def demo_tee_tree_def is_dir_def)
  have h: "holds_cli (\<lambda>d. d = ''cli'') (os_fs (pw_os demo_tee_sys) (path_components ''/s/1.2.10/m'' @ [''cli'']))"
    unfolding c by (simp add: holds_cli_def demo_tee_sys_def demo_tee_tree_def)
  have k: "programs_keep (te_base demo_tee_env) (\<lambda>d. d = ''cli'') (path_components ''/s/1.2.10/m'') ''cli''"
    by (auto simp: programs_keep_def demo_tee_env_def demo_cu_env_def run_kept_def tree_kept_def place_kept_def
        intro: throughout_same)
  have n: "os_faults (pw_os demo_tee_sys) = []" by (simp add: demo_tee_sys_def)
  from cli_never_lost [OF j x(2,1) p h k prod.collapse [symmetric], of False] f n
  show ?thesis by (auto simp: c holds_cli_def)
qed

end
