(* ===== verification/Codex_Shim.thy ===== *)
theory Codex_Shim
  imports Claude_Tee Patch_Props
begin

text \<open>
  The wrapper of the CLI inside an app (\<open>internal/codexclishim/codexclishim.go\<close>): the hook that
  installs it and extends the launch policy, and what it executes when it runs under its own name.
  That the environment of the policy reaches it is the work of the launch shim, whose
  \<open>applyEnvironment\<close> (\<open>shim/Sources/Shim/main.swift\<close>) is modelled for this purpose.
\<close>

fun upsert_env :: "env_action list \<Rightarrow> env_action \<Rightarrow> env_action list" where
  "upsert_env [] act = [act]"
| "upsert_env (a # as) act = (if env_key a = env_key act then act # as else a # upsert_env as act)"

definition installed_shim :: "go_env \<Rightarrow> string" where
  "installed_shim env = go_join [state_root env, ''desktop-via-clyde-helpers'', ''dvc-codex-cli-shim'']"

definition shim_environment :: "string \<Rightarrow> string \<Rightarrow> string \<Rightarrow> env_action list \<Rightarrow> env_action list" where
  "shim_environment wrapper vendor url env = foldl (\<lambda>as (key, v). upsert_env as \<lparr>env_act = ''set'', env_key = key, env_value = v\<rparr>) env
     [(''CODEX_CLI_PATH'', wrapper), (''DVC_CODEX_REAL_CLI'', vendor), (''DVC_CODEX_CHATGPT_BASE_URL'', url)]"

definition shim_hook :: "'w tee_env \<Rightarrow> patch_options \<Rightarrow> target \<Rightarrow> ('w, target) pw_act" where
  "shim_hook te opts t =
     (case ext_codex (tg_ext t) of
        None \<Rightarrow> return_act (Inr t)
      | Some shim \<Rightarrow>
          let wrapper = installed_shim (pe_genv (te_base te));
              app = (if po_final opts \<noteq> [] then po_final opts else tg_app_path t);
              vendor = go_join [app, ''Contents'', ''Resources'', ''codex''] in
          rbind_act (if po_dry_run opts then nil_act
             else in_turn [mkdir_path ''create wrapper dir'' (go_dir wrapper),
               labelled ''install wrapper'' (copy_self te wrapper)]) (\<lambda>_.
          return_act (Inr (t\<lparr>tg_launch := (tg_launch t)\<lparr>lp_environment :=
            shim_environment wrapper vendor (cx_base_url shim) (lp_environment (tg_launch t))\<rparr>\<rparr>))))"

definition rewritten_args :: "string list \<Rightarrow> string \<Rightarrow> (string, string list) result" where
  "rewritten_args args url =
     (case args of
        [] \<Rightarrow> Inr []
      | a # _ \<Rightarrow> if a \<noteq> ''app-server'' then Inr args
          else if url = [] then Inl ''DVC_CODEX_CHATGPT_BASE_URL is required for app-server''
          else Inr ([''-c'', ''chatgpt_base_url='' @ url] @ args))"

text \<open>\<open>RunWith\<close>: what is executed, with which arguments; the environment is passed on.\<close>

definition shim_exec :: "string list \<Rightarrow> (string \<Rightarrow> string) \<Rightarrow> (string, string \<times> string list) result" where
  "shim_exec args getenv =
     (let vendor = getenv ''DVC_CODEX_REAL_CLI'' in
      if vendor = [] then Inl ''DVC_CODEX_REAL_CLI is required''
      else case rewritten_args args (getenv ''DVC_CODEX_CHATGPT_BASE_URL'') of
        Inl e \<Rightarrow> Inl e | Inr as \<Rightarrow> Inr (vendor, vendor # as))"


section \<open>From the policy to the command\<close>

text \<open>\<open>setenv\<close> and \<open>unsetenv\<close> in order; any other action ends the launch.\<close>

fun apply_environment :: "env_action list \<Rightarrow> (string \<rightharpoonup> string) \<Rightarrow> (string \<rightharpoonup> string) option" where
  "apply_environment [] e = Some e"
| "apply_environment (a # as) e =
     (if env_act a = ''set'' then apply_environment as (e(env_key a \<mapsto> env_value a))
      else if env_act a = ''unset'' then apply_environment as (e(env_key a := None))
      else None)"

text \<open>\<open>os.Getenv\<close>\<close>

definition getenv_of :: "(string \<rightharpoonup> string) \<Rightarrow> string \<Rightarrow> string" where
  "getenv_of e k = (case e k of Some v \<Rightarrow> v | None \<Rightarrow> [])"

definition keys_once :: "string list \<Rightarrow> env_action list \<Rightarrow> bool" where
  "keys_once ks as \<longleftrightarrow> (\<forall>k\<in>set ks. length (filter (\<lambda>a. env_key a = k) as) \<le> 1)"

definition set_action :: "string \<Rightarrow> string \<Rightarrow> env_action" where
  "set_action k v = \<lparr>env_act = ''set'', env_key = k, env_value = v\<rparr>"

lemma apply_environment_fresh:
  assumes "k \<notin> env_key ` set as"
  shows "apply_environment as (e(k := v)) = map_option (\<lambda>e'. e'(k := v)) (apply_environment as e)"
  using assms
proof (induction as arbitrary: e)
  case (Cons a as)
  then have "env_key a \<noteq> k" by auto
  then have "e(k := v, env_key a := u) = e(env_key a := u, k := v)" for u by (simp add: fun_upd_twist)
  with Cons show ?case by (simp del: fun_upd_apply)
qed simp

lemma upsert_overrides:
  assumes "keys_once [k] as" "apply_environment as e = Some e'"
  shows "apply_environment (upsert_env as (set_action k v)) e = Some (e'(k \<mapsto> v))"
  using assms
proof (induction as arbitrary: e)
  case Nil
  then show ?case by (simp add: set_action_def del: fun_upd_apply)
next
  case (Cons a as)
  show ?case
  proof (cases "env_key a = k")
    case True
    with Cons.prems(1) have "filter (\<lambda>a. env_key a = k) as = []" by (simp add: keys_once_def)
    then have k: "k \<notin> env_key ` set as" by (auto simp: filter_empty_conv)
    have "apply_environment as (e(k \<mapsto> v)) = Some (e'(k \<mapsto> v))"
      using Cons.prems(2) True apply_environment_fresh [OF k, of e] by (auto split: if_splits)
    with True show ?thesis by (simp add: set_action_def del: fun_upd_apply)
  next
    case False
    then have "keys_once [k] as" using Cons.prems(1) by (simp add: keys_once_def)
    with Cons.IH Cons.prems(2) False show ?thesis by (auto simp: set_action_def split: if_splits)
  qed
qed

lemma upsert_keys:
  "filter (\<lambda>a. env_key a = k) (upsert_env as (set_action k' v)) =
     (if k = k' then set_action k' v # drop 1 (filter (\<lambda>a. env_key a = k) as) else filter (\<lambda>a. env_key a = k) as)"
  by (induction as) (auto simp: set_action_def)

lemma upsert_once: "keys_once ks as \<Longrightarrow> keys_once ks (upsert_env as (set_action k v))"
  by (auto simp: keys_once_def upsert_keys)

abbreviation wrapper_keys :: "string list" where
  "wrapper_keys \<equiv> [''CODEX_CLI_PATH'', ''DVC_CODEX_REAL_CLI'', ''DVC_CODEX_CHATGPT_BASE_URL'']"

lemma keys_once_single: "keys_once ks as \<Longrightarrow> k \<in> set ks \<Longrightarrow> keys_once [k] as"
  by (simp add: keys_once_def)

lemma shim_environment_final:
  assumes "keys_once wrapper_keys as" "apply_environment as e = Some e'"
  shows "apply_environment (shim_environment w v u as) e = Some (e'(''CODEX_CLI_PATH'' \<mapsto> w,
    ''DVC_CODEX_REAL_CLI'' \<mapsto> v, ''DVC_CODEX_CHATGPT_BASE_URL'' \<mapsto> u))"
proof -
  note k0 = assms(1)
  note k1 = upsert_once [OF k0, of "''CODEX_CLI_PATH''" w]
  note k2 = upsert_once [OF k1, of "''DVC_CODEX_REAL_CLI''" v]
  note e1 = upsert_overrides [OF keys_once_single [OF k0] assms(2), of "''CODEX_CLI_PATH''" w]
  note e2 = upsert_overrides [OF keys_once_single [OF k1] e1, of "''DVC_CODEX_REAL_CLI''" v]
  note e3 = upsert_overrides [OF keys_once_single [OF k2] e2, of "''DVC_CODEX_CHATGPT_BASE_URL''" u]
  from e3 show ?thesis by (simp add: shim_environment_def set_action_def)
qed

lemma go_clean_some: "go_clean s \<noteq> []"
proof -
  obtain r xs where c: "clean s = (r, xs)" by fastforce
  with clean_has_form [of s] have "clean_form r xs" by simp
  then obtain n ys where f: "xs = replicate n ''..'' @ ys" "list_all proper_elem ys" by (auto simp: clean_form_def)
  then have "xs = [] \<or> hd xs \<noteq> []" by (cases n; cases ys) (auto simp: proper_elem_def)
  then show ?thesis by (cases r; cases xs; cases "tl xs") (auto simp: go_clean_def c)
qed


definition demo_shim_target :: target where
  "demo_shim_target = demo_patch_target\<lparr>
     tg_ext := \<lparr>ext_computer_use = None, ext_tee = None,
       ext_codex = Some \<lparr>cx_capability = ''c'', cx_base_url = ''u''\<rparr>\<rparr>,
     tg_launch := (tg_launch demo_patch_target)\<lparr>lp_environment :=
       [\<lparr>env_act = ''set'', env_key = ''A'', env_value = ''1''\<rparr>,
        \<lparr>env_act = ''unset'', env_key = ''CODEX_CLI_PATH'', env_value = []\<rparr>]\<rparr>\<rparr>"

definition demo_shim_env :: "unit tee_env" where
  "demo_shim_env = \<lparr>te_base = demo_patch_env, te_read_dir = (\<lambda>_ _. None), te_sort = (\<lambda>xs. xs), te_self = None\<rparr>"


end
