(* ===== verification/Stdio_Tee.thy ===== *)
theory Stdio_Tee
  imports Config_Paths Go_Strings "HOL-Library.Sublist"
begin

text \<open>
  The stdio tee (\<open>internal/stdioteeshim/stdioteeshim.go\<close>), the program in the place of a bundled CLI:
  when it takes an invocation, how it starts, and, as a transition system, the three pumps between
  the parent, the CLI and the log files, the wait for the CLI and the exit. Diagnostics of the shim
  itself are not modelled.
\<close>

section \<open>Start\<close>

record file_info =
  fi_dir :: bool
  fi_exec :: bool                                  \<comment> \<open>any of the three permission bits\<close>

definition is_executable :: "file_info option \<Rightarrow> bool" where
  "is_executable info = (case info of None \<Rightarrow> False | Some i \<Rightarrow> \<not> fi_dir i \<and> fi_exec i)"

text \<open>
  \<open>os.Executable\<close> and \<open>filepath.EvalSymlinks\<close>, which answers the empty string on an error. The file
  system is asked for the sibling only.
\<close>

definition self_real_path :: "string option \<Rightarrow> (string \<Rightarrow> string) \<Rightarrow> string option" where
  "self_real_path exe eval_links =
     (case exe of None \<Rightarrow> None | Some e \<Rightarrow> Some (if eval_links e = [] then e else eval_links e))"

definition tee_claims :: "string option \<Rightarrow> (string \<Rightarrow> string) \<Rightarrow> (string \<Rightarrow> file_info option) \<Rightarrow> bool" where
  "tee_claims exe eval_links stat =
     (case self_real_path exe eval_links of
        None \<Rightarrow> False
      | Some self \<Rightarrow> go_base self \<noteq> ''desktop-via-clyde'' \<and> is_executable (stat (self @ ''.real'')))"

definition tee_log_dir :: "go_env \<Rightarrow> string" where
  "tee_log_dir env = go_join [state_root env, ''logs'', ''stdio-tee'']"

definition tee_log_base :: "go_env \<Rightarrow> string \<Rightarrow> string \<Rightarrow> string" where
  "tee_log_base env stamp pid = go_join [tee_log_dir env, stamp @ ''-'' @ pid]"

definition tee_logs :: "string list" where
  "tee_logs = [''.shim.jsonl'', ''.stdin.jsonl'', ''.stdout.jsonl'', ''.stderr.log'', ''.meta.log'']"

text \<open>The code of a start that fails, or none and the tee runs: what can be made and opened, and whether the CLI starts.\<close>

definition start_code :: "string option \<Rightarrow> (string \<Rightarrow> string) \<Rightarrow> (string \<Rightarrow> file_info option) \<Rightarrow>
    (string \<Rightarrow> bool) \<Rightarrow> (string \<Rightarrow> bool) \<Rightarrow> (string \<Rightarrow> bool) \<Rightarrow> go_env \<Rightarrow> string \<Rightarrow> string \<Rightarrow> int option" where
  "start_code exe eval_links stat mkdir can_open starts env stamp pid =
     (case self_real_path exe eval_links of
        None \<Rightarrow> Some 14
      | Some self \<Rightarrow>
          if \<not> is_executable (stat (self @ ''.real'')) then Some 13
          else if \<not> mkdir (tee_log_dir env) then Some 21
          else if \<not> list_all (\<lambda>l. can_open (tee_log_base env stamp pid @ l)) tee_logs then Some 22
          else if \<not> starts (self @ ''.real'') then Some 24
          else None)"

text \<open>\<open>writeMeta\<close>\<close>

definition meta_text :: "string \<Rightarrow> string \<Rightarrow> string list \<Rightarrow> string \<Rightarrow> string \<Rightarrow> string \<Rightarrow> string \<Rightarrow> string" where
  "meta_text self vendor args pid ppid cwd now = join [CHR 0x0A]
     [''argv0: '' @ go_base self, ''self:  '' @ self, ''real:  '' @ vendor, ''pid:   '' @ pid, ''ppid:  '' @ ppid,
      ''cwd:   '' @ cwd, ''args:  '' @ join '' '' args, ''start: '' @ now,
      ''signals_forwarded: SIGINT SIGTERM SIGHUP SIGUSR1 SIGUSR2'', []]"

section \<open>The pumps\<close>

datatype stream = StdIn | StdOut | StdErr

text \<open>What a pump holds: nothing, bytes it has read, or bytes it has also written to the log.\<close>

datatype held = Empty | Fetched string | Logged string

datatype pump_end = AtEof | ReadFailed | DestinationFailed

record pump =
  pu_sent :: string                                \<comment> \<open>all that was written into the source\<close>
  pu_pipe :: string                                \<comment> \<open>what of it waits to be read\<close>
  pu_eof :: bool                                   \<comment> \<open>nobody can write into the source any more\<close>
  pu_open :: bool                                  \<comment> \<open>the end the pump reads from\<close>
  pu_held :: held
  pu_log :: string
  pu_short :: bool                                 \<comment> \<open>a write to the log fell short\<close>
  pu_got :: string                                 \<comment> \<open>what the destination received\<close>
  pu_end :: "pump_end option"

datatype child_end = ChildExited int | ChildKilled int | WaitBroken

record tee_state =
  te_pumps :: "stream \<Rightarrow> pump"
  te_child :: "child_end option"
  te_waited :: bool
  te_code :: "int option"                          \<comment> \<open>the exit code of the tee, once it is gone\<close>

definition pump_start :: pump where
  "pump_start = \<lparr>pu_sent = [], pu_pipe = [], pu_eof = False, pu_open = True, pu_held = Empty, pu_log = [],
     pu_short = False, pu_got = [], pu_end = None\<rparr>"

definition tee_start :: tee_state where
  "tee_start = \<lparr>te_pumps = (\<lambda>_. pump_start), te_child = None, te_waited = False, te_code = None\<rparr>"

definition buffer_size :: nat where "buffer_size = 32768"

text \<open>
  \<open>teePump\<close>: a write to the log may fall short and is forgotten, one to the destination ends the pump,
  and so does a read that fails, as every read on a closed end does. The end of the pump of \<open>StdIn\<close>
  is the end of the input of the CLI.
\<close>

inductive pump_step :: "pump \<Rightarrow> pump \<Rightarrow> bool" where
  pump_read: "pu_end p = None \<Longrightarrow> pu_held p = Empty \<Longrightarrow> pu_open p \<Longrightarrow> 0 < n \<Longrightarrow> n \<le> buffer_size \<Longrightarrow> n \<le> length (pu_pipe p) \<Longrightarrow>
    pump_step p (p\<lparr>pu_held := Fetched (take n (pu_pipe p)), pu_pipe := drop n (pu_pipe p)\<rparr>)"
| pump_log: "pu_held p = Fetched c \<Longrightarrow> k \<le> length c \<Longrightarrow>
    pump_step p (p\<lparr>pu_held := Logged c, pu_log := pu_log p @ take k c, pu_short := (pu_short p \<or> k < length c)\<rparr>)"
| pump_write: "pu_held p = Logged c \<Longrightarrow> pump_step p (p\<lparr>pu_held := Empty, pu_got := pu_got p @ c\<rparr>)"
| pump_break: "pu_held p = Logged c \<Longrightarrow> k \<le> length c \<Longrightarrow>
    pump_step p (p\<lparr>pu_held := Empty, pu_got := pu_got p @ take k c, pu_end := Some DestinationFailed\<rparr>)"
| pump_eof: "pu_end p = None \<Longrightarrow> pu_held p = Empty \<Longrightarrow> pu_pipe p = [] \<Longrightarrow> pu_eof p \<Longrightarrow>
    pump_step p (p\<lparr>pu_end := Some AtEof\<rparr>)"
| pump_unreadable: "pu_end p = None \<Longrightarrow> pu_held p = Empty \<Longrightarrow> pump_step p (p\<lparr>pu_end := Some ReadFailed\<rparr>)"

text \<open>
  The other side of the source: the parent for \<open>StdIn\<close>, the CLI and what it started for the others,
  which can keep the pipe when the CLI is gone.
\<close>

inductive source_step :: "bool \<Rightarrow> pump \<Rightarrow> pump \<Rightarrow> bool" for may_close where
  source_write: "\<not> pu_eof p \<Longrightarrow> source_step may_close p (p\<lparr>pu_sent := pu_sent p @ b, pu_pipe := pu_pipe p @ b\<rparr>)"
| source_close: "\<not> pu_eof p \<Longrightarrow> may_close \<Longrightarrow> source_step may_close p (p\<lparr>pu_eof := True\<rparr>)"

definition on_pump :: "stream \<Rightarrow> pump \<Rightarrow> tee_state \<Rightarrow> tee_state" where
  "on_pump i p s = s\<lparr>te_pumps := (te_pumps s)(i := p)\<rparr>"

text \<open>\<open>cmd.Wait\<close> closes the ends of the output pipes the tee reads from as soon as the CLI is gone.\<close>

definition close_outputs :: "(stream \<Rightarrow> pump) \<Rightarrow> stream \<Rightarrow> pump" where
  "close_outputs ps = (\<lambda>i. if i = StdIn then ps i else (ps i)\<lparr>pu_open := False\<rparr>)"

text \<open>\<open>exitCodeForWaitError\<close>\<close>

definition exit_code_of :: "child_end \<Rightarrow> int" where
  "exit_code_of r = (case r of
     ChildExited c \<Rightarrow> if c \<noteq> -1 then c else 128
   | ChildKilled sig \<Rightarrow> 128 + sig
   | WaitBroken \<Rightarrow> 1)"

inductive tee_step :: "tee_state \<Rightarrow> tee_state \<Rightarrow> bool" where
  tee_pump: "te_code s = None \<Longrightarrow> pump_step (te_pumps s i) p \<Longrightarrow> tee_step s (on_pump i p s)"
| tee_source: "te_code s = None \<Longrightarrow> source_step (i = StdIn \<or> te_child s \<noteq> None) (te_pumps s i) p \<Longrightarrow>
    tee_step s (on_pump i p s)"
| tee_child: "te_code s = None \<Longrightarrow> te_child s = None \<Longrightarrow> tee_step s (s\<lparr>te_child := Some r\<rparr>)"
| tee_wait: "te_code s = None \<Longrightarrow> te_child s \<noteq> None \<Longrightarrow> \<not> te_waited s \<Longrightarrow>
    tee_step s (s\<lparr>te_waited := True, te_pumps := close_outputs (te_pumps s)\<rparr>)"
| tee_drained: "te_code s = None \<Longrightarrow> te_waited s \<Longrightarrow> te_child s = Some r \<Longrightarrow> \<forall>i. pu_end (te_pumps s i) \<noteq> None \<Longrightarrow>
    tee_step s (s\<lparr>te_code := Some (exit_code_of r)\<rparr>)"
| tee_timeout: "te_code s = None \<Longrightarrow> te_waited s \<Longrightarrow> te_child s = Some r \<Longrightarrow>
    tee_step s (s\<lparr>te_code := Some (exit_code_of r)\<rparr>)"

section \<open>What passes through\<close>

definition held_bytes :: "held \<Rightarrow> string" where
  "held_bytes h = (case h of Empty \<Rightarrow> [] | Fetched c \<Rightarrow> c | Logged c \<Rightarrow> c)"

definition logged_bytes :: "held \<Rightarrow> string" where
  "logged_bytes h = (case h of Logged c \<Rightarrow> c | _ \<Rightarrow> [])"

definition pump_inv :: "pump \<Rightarrow> bool" where
  "pump_inv p \<longleftrightarrow>
     (if pu_end p = Some DestinationFailed
      then pu_held p = Empty \<and> (\<exists>lost. pu_sent p = pu_got p @ lost @ pu_pipe p \<and> (pu_short p \<or> pu_log p = pu_got p @ lost))
      else pu_sent p = pu_got p @ held_bytes (pu_held p) @ pu_pipe p \<and>
        (pu_short p \<or> pu_log p = pu_got p @ logged_bytes (pu_held p))) \<and>
     (pu_end p \<noteq> None \<longrightarrow> pu_held p = Empty) \<and>
     (pu_end p = Some AtEof \<longrightarrow> pu_eof p \<and> pu_pipe p = [])"

lemmas held_simps = held_bytes_def logged_bytes_def

lemma pump_step_inv:
  assumes "pump_inv p" "pump_step p q"
  shows "pump_inv q"
  using assms(2)
proof cases
  case (pump_break c k)
  with assms(1) have e: "pu_end p \<noteq> Some DestinationFailed" by (auto simp: pump_inv_def)
  have c: "c = take k c @ drop k c" by simp
  from assms(1) e pump_break have "pu_sent p = pu_got p @ c @ pu_pipe p" "pu_short p \<or> pu_log p = pu_got p @ c"
    by (simp_all add: pump_inv_def held_simps)
  then have "pu_sent p = (pu_got p @ take k c) @ drop k c @ pu_pipe p \<and>
      (pu_short p \<or> pu_log p = (pu_got p @ take k c) @ drop k c)" using c by simp
  then have "\<exists>lost. pu_sent p = (pu_got p @ take k c) @ lost @ pu_pipe p \<and>
      (pu_short p \<or> pu_log p = (pu_got p @ take k c) @ lost)" by blast
  with pump_break show ?thesis by (simp add: pump_inv_def)
qed (use assms(1) in \<open>auto simp: pump_inv_def held_simps\<close>)

lemma source_step_inv:
  assumes "pump_inv p" "source_step m p q"
  shows "pump_inv q"
  using assms(2) by cases (use assms(1) in \<open>auto simp: pump_inv_def\<close>)

definition tee_inv :: "tee_state \<Rightarrow> bool" where
  "tee_inv s \<longleftrightarrow> (\<forall>i. pump_inv (te_pumps s i)) \<and>
     (\<forall>c. te_code s = Some c \<longrightarrow> (\<exists>r. te_child s = Some r \<and> c = exit_code_of r))"

interpretation stdio_tee: safe_system tee_step tee_start tee_inv
proof
  show "tee_inv tee_start" by (simp add: tee_inv_def tee_start_def pump_inv_def pump_start_def held_simps)
  fix s t
  assume i: "tee_inv s" and st: "tee_step s t"
  from st show "tee_inv t"
  proof cases
    case (tee_pump i p)
    with i pump_step_inv show ?thesis by (auto simp: tee_inv_def on_pump_def)
  next
    case (tee_source i p)
    with i source_step_inv show ?thesis by (auto simp: tee_inv_def on_pump_def)
  next
    case tee_wait
    with i show ?thesis by (auto simp: tee_inv_def close_outputs_def pump_inv_def)
  qed (use i in \<open>auto simp: tee_inv_def\<close>)
qed


text \<open>
  The end of the CLI can be reported with bytes of its output lost and no failure anywhere: the wait
  closes the pipe that still holds them.
\<close>

definition lost_output :: "string \<Rightarrow> tee_state" where
  "lost_output b = \<lparr>te_pumps = (\<lambda>i. if i = StdIn then pump_start
       else if i = StdOut then pump_start\<lparr>pu_sent := b, pu_pipe := b, pu_open := False\<rparr>
       else pump_start\<lparr>pu_open := False\<rparr>),
     te_child = Some (ChildExited 0), te_waited = True, te_code = Some 0\<rparr>"

lemma lost_output_reachable: "run_of tee_step tee_start (lost_output b)"
proof -
  let ?w = "pump_start\<lparr>pu_sent := b, pu_pipe := b\<rparr>"
  define s1 where "s1 = on_pump StdOut ?w tee_start"
  define s2 where "s2 = s1\<lparr>te_child := Some (ChildExited 0)\<rparr>"
  define s3 where "s3 = s2\<lparr>te_waited := True, te_pumps := close_outputs (te_pumps s2)\<rparr>"
  have w: "source_step m pump_start ?w" for m
    using source_write [of pump_start m b] by (simp add: pump_start_def)
  have "tee_step tee_start s1" unfolding s1_def
    by (rule tee_source) (simp_all add: tee_start_def w)
  moreover have "tee_step s1 s2" unfolding s2_def
    by (rule tee_child) (simp_all add: s1_def on_pump_def tee_start_def)
  moreover have "tee_step s2 s3" unfolding s3_def
    by (rule tee_wait) (simp_all add: s2_def s1_def on_pump_def tee_start_def)
  moreover have "tee_step s3 (s3\<lparr>te_code := Some (exit_code_of (ChildExited 0))\<rparr>)"
    by (rule tee_timeout) (simp_all add: s3_def s2_def s1_def on_pump_def tee_start_def)
  ultimately have "run_of tee_step tee_start (s3\<lparr>te_code := Some (exit_code_of (ChildExited 0))\<rparr>)"
    by (meson run_start run_step)
  moreover have "s3\<lparr>te_code := Some (exit_code_of (ChildExited 0))\<rparr> = lost_output b"
    by (auto simp: s3_def s2_def s1_def lost_output_def on_pump_def tee_start_def close_outputs_def exit_code_of_def
        pump_start_def fun_eq_iff)
  ultimately show ?thesis by simp
qed

theorem output_can_be_lost:
  "\<exists>s. run_of tee_step tee_start s \<and> te_code s = Some 0 \<and> te_child s = Some (ChildExited 0) \<and>
     pu_sent (te_pumps s StdOut) = b \<and> pu_got (te_pumps s StdOut) = [] \<and> pu_log (te_pumps s StdOut) = []"
  using lost_output_reachable [of b]
  by (intro exI [of _ "lost_output b"] conjI) (simp_all add: lost_output_def pump_start_def)


text \<open>Once the CLI is gone the tee ends, also when its parent never closes the input.\<close>

theorem tee_ends:
  assumes "run_of tee_step tee_start s" "te_child s \<noteq> None"
  shows "\<exists>t c. run_of tee_step s t \<and> te_code t = Some c"
proof (cases "te_code s")
  case (Some c)
  then show ?thesis by (intro exI [of _ s] exI [of _ c]) (simp add: run_start)
next
  case None
  from assms(2) obtain r where r: "te_child s = Some r" by blast
  define w where "w = (if te_waited s then s else s\<lparr>te_waited := True, te_pumps := close_outputs (te_pumps s)\<rparr>)"
  have w: "run_of tee_step s w" "te_code w = None" "te_waited w" "te_child w = Some r"
    using None r tee_wait [of s] run_start run_step [OF run_start] by (auto simp: w_def)
  from run_step [OF w(1) tee_timeout [OF w(2-4)]] show ?thesis
    by (intro exI [of _ "w\<lparr>te_code := Some (exit_code_of r)\<rparr>"] exI [of _ "exit_code_of r"]) simp
qed

end
