(* ===== verification/Status_Report.thy ===== *)
theory Status_Report
  imports Patch_Flow Codex_Version
begin

text \<open>
  The status report of the patched apps (\<open>internal/statusreport/status.go\<close>, \<open>provider_health.go\<close>):
  the state of an app, the signing state of the bundles in it, what counts as drift, and the
  interception failures read from a log. Each kind of drift is a value; the text it is shown as and
  the rendering of the report are not modelled.
\<close>

section \<open>Provider health\<close>

record lifecycle_entry =
  le_time :: string
  le_message :: string
  le_provider :: string
  le_host :: string

text \<open>
  The decoders of the property list, of the JSON lines and of their RFC 3339 times are arguments, as
  are the clock and the iteration order of a map. A time is in nanoseconds since Go's zero time.
\<close>

record 'w status_env =
  se_base :: "'w pw_env"
  se_ls_environment :: "string \<Rightarrow> (string, (string \<times> string) list) result"
  se_bundle_version :: "string \<Rightarrow> string option"
  se_lifecycle :: "string \<Rightarrow> lifecycle_entry option"
  se_time :: "string \<Rightarrow> int option"
  se_iterate :: "(string \<times> int) list \<Rightarrow> (string \<times> int) list"
  se_now :: int

definition tls_failed :: string where "tls_failed = ''mitm.provider.connect.client_tls_failed''"
definition intercept_open :: string where "intercept_open = ''mitm.provider.connect.intercept_open''"

definition tls_health_enabled :: "target \<Rightarrow> bool" where
  "tls_health_enabled t \<longleftrightarrow> tg_id t \<noteq> [] \<and> lp_proxy_host (tg_launch t) \<noteq> [] \<and> lp_proxy_port (tg_launch t) \<noteq> 0"

definition parse_lifecycle :: "'w status_env \<Rightarrow> string \<Rightarrow> string \<Rightarrow> int \<Rightarrow> (lifecycle_entry \<times> int) option" where
  "parse_lifecycle se line tid cutoff =
     (case se_lifecycle se line of
        None \<Rightarrow> None
      | Some e \<Rightarrow> if le_provider e \<noteq> tid then None
          else (case se_time se (le_time e) of
            None \<Rightarrow> None
          | Some t \<Rightarrow> if t < cutoff then None else Some (e, t)))"

text \<open>A missing entry of a Go map of times is the zero time.\<close>

definition time_of :: "(string \<times> int) list \<Rightarrow> string \<Rightarrow> int" where
  "time_of m h = (case map_of m h of None \<Rightarrow> 0 | Some t \<Rightarrow> t)"

definition record_time :: "string \<Rightarrow> int \<Rightarrow> (string \<times> int) list \<Rightarrow> (string \<times> int) list" where
  "record_time h t m = (if t > time_of m h then AList.update h t m else m)"

definition record_lifecycle :: "lifecycle_entry \<times> int \<Rightarrow> (string \<times> int) list \<times> (string \<times> int) list \<Rightarrow>
    (string \<times> int) list \<times> (string \<times> int) list" where
  "record_lifecycle = (\<lambda>(e, t) (failed, succeeded).
     if le_message e = tls_failed then (record_time (le_host e) t failed, succeeded)
     else if le_message e = intercept_open then (failed, record_time (le_host e) t succeeded)
     else (failed, succeeded))"

text \<open>A line that the scanner cannot hold ends the scan with an error, and the answer is none.\<close>

definition read_tls_window :: "'w status_env \<Rightarrow> string \<Rightarrow> string \<Rightarrow> int \<Rightarrow>
    ((string \<times> int) list \<times> (string \<times> int) list) option" where
  "read_tls_window se data tid cutoff =
     (let lines = scan_lines data in
      if list_ex (\<lambda>l. int (length l) \<ge> 65536) lines then None
      else Some (fold record_lifecycle
        (List.map_filter (\<lambda>l. parse_lifecycle se (drop_cr l) tid cutoff) lines) ([], [])))"

definition consider_failure :: "(string \<times> int) list \<Rightarrow> string \<times> int \<Rightarrow> int \<times> string \<Rightarrow> int \<times> string" where
  "consider_failure succeeded = (\<lambda>(h, t) (latest, host).
     let s = time_of succeeded h in
     if s \<noteq> 0 \<and> s > t then (latest, host) else if t > latest then (t, h) else (latest, host))"

definition latest_uncleared :: "(string \<times> int) list \<Rightarrow> (string \<times> int) list \<Rightarrow> string" where
  "latest_uncleared failed succeeded = snd (fold (consider_failure succeeded) failed (0, []))"

definition lifecycle_log :: "go_env \<Rightarrow> string" where
  "lifecycle_log env = go_join [state_root env, ''logs'', ''providers'', ''mitm'', ''lifecycle.jsonl'']"

definition tls_window :: int where "tls_window = 30 * 60 * 10 ^ 9"

text \<open>The host with a failure, or the empty string.\<close>

definition failing_host :: "'w status_env \<Rightarrow> string \<Rightarrow> string \<Rightarrow> string" where
  "failing_host se data tid =
     (case read_tls_window se data tid (se_now se - tls_window) of
        None \<Rightarrow> []
      | Some (failed, succeeded) \<Rightarrow> latest_uncleared (se_iterate se failed) succeeded)"

definition tls_failure :: "'w status_env \<Rightarrow> target \<Rightarrow> 'w pw_sys \<Rightarrow> string \<times> 'w pw_sys" where
  "tls_failure se t =
     (if \<not> tls_health_enabled t then return_act []
      else bind_act (on_files (read_file_at (path_components (lifecycle_log (pe_genv (se_base se)))))) (\<lambda>r.
        return_act (case r of Inl _ \<Rightarrow> [] | Inr data \<Rightarrow> failing_host se data (tg_id t))))"

section \<open>Runtime bundles\<close>

datatype runtime_state = RuntimePatched | RuntimeVendor | RuntimeLocal | RuntimePreserved | RuntimeUnknown
  | RuntimeTeamMismatch | RuntimeSignatureError | RuntimeScanFailed

record runtime_status =
  ru_bundle :: string
  ru_path :: string
  ru_team :: string
  ru_state :: runtime_state

definition runtime_state_of :: "string \<Rightarrow> string list \<Rightarrow> bool \<Rightarrow> bundle_entry \<Rightarrow> runtime_state" where
  "runtime_state_of team preserved local e =
     (if is_preserved (be_relative e) preserved then RuntimePreserved
      else if be_error e \<noteq> None then RuntimeSignatureError
      else if local \<and> be_team e = team then RuntimePatched
      else if local then RuntimeTeamMismatch
      else if be_team e = team then RuntimeLocal
      else RuntimeVendor)"

definition runtime_rows :: "string \<Rightarrow> target \<Rightarrow> bool \<Rightarrow> (patch_error, bundle_entry list) result \<Rightarrow> runtime_status list" where
  "runtime_rows team t local r = (case r of
       Inl _ \<Rightarrow> [\<lparr>ru_bundle = tg_bundle_id t, ru_path = tg_app_path t, ru_team = [], ru_state = RuntimeScanFailed\<rparr>]
     | Inr entries \<Rightarrow> map (\<lambda>e. \<lparr>ru_bundle = be_id e, ru_path = be_relative e, ru_team = be_team e,
         ru_state = runtime_state_of team (tg_preserved t) local e\<rparr>) (filter be_runtime entries))"

definition runtime_statuses :: "'w status_env \<Rightarrow> target \<Rightarrow> bool \<Rightarrow> 'w pw_sys \<Rightarrow> runtime_status list \<times> 'w pw_sys" where
  "runtime_statuses se t local =
     bind_act (scan_bundles (se_base se) True (tg_app_path t)) (\<lambda>r.
       return_act (runtime_rows (trim_space (pe_team (se_base se))) t local r))"

definition runtime_drifts :: "runtime_status \<Rightarrow> bool" where
  "runtime_drifts r \<longleftrightarrow> ru_state r \<in> {RuntimeTeamMismatch, RuntimeSignatureError, RuntimeScanFailed}"

section \<open>The state of an app\<close>

datatype injector_drift = LocalInjectorThere | LocalInjectorUnknown os_error | PlistUnreadable | PlistUnparsable
  | DyldAbsent | DyldInBundle string | DyldElsewhere string | PolicyAbsent | PolicyElsewhere string
  | InjectorGone | PolicyGone

datatype drift = RuntimeDrift string string | InjectorDrift injector_drift | TrustDrift string
  | ProviderDrift string | RealBinaryMissing | VersionDrift string string

datatype status_note = NotedMissing | NotedUnpatched | NotedIdentity string | NotedDevSigning | NotedDrift drift

datatype app_state = AppClean | AppAbsent | AppPatched | AppDrifted

record app_status =
  as_id :: string
  as_state :: app_state
  as_version :: string
  as_notes :: "status_note list"
  as_upstream :: string
  as_path :: string
  as_runtime :: "runtime_status list"

definition overlay_active :: "target \<Rightarrow> 'w pw_sys \<Rightarrow> bool \<times> 'w pw_sys" where
  "overlay_active t =
     (if \<not> ds_enabled (tg_devsign t) then return_act False
      else bind_act (stat_path (go_join [tg_app_path t, ''Contents'', ''embedded.provisionprofile'']))
        (\<lambda>r. return_act (\<not> isl r)))"

definition path_inside_bundle :: "string \<Rightarrow> string \<Rightarrow> bool" where
  "path_inside_bundle path app \<longleftrightarrow> go_clean path = go_clean app \<or> prefix (go_clean app @ ''/'') (go_clean path)"

definition environment_value :: "(string \<times> string) list \<Rightarrow> string \<Rightarrow> string" where
  "environment_value m k = (case map_of m k of None \<Rightarrow> [] | Some v \<Rightarrow> trim_space v)"

definition configured_injector_drift :: "'w pw_env \<Rightarrow> target \<Rightarrow> (string \<times> string) list \<Rightarrow> injector_drift option" where
  "configured_injector_drift env t ls =
     (let dyld = environment_value ls ''DYLD_INSERT_LIBRARIES'';
          policy = environment_value ls ''DVC_CLYDE_INJECT_POLICY'' in
      if dyld = [] then Some DyldAbsent
      else if path_inside_bundle dyld (tg_app_path t) then Some (DyldInBundle dyld)
      else if go_clean dyld \<noteq> go_clean (injector_path env t) then Some (DyldElsewhere dyld)
      else if policy = [] then Some PolicyAbsent
      else if go_clean policy \<noteq> go_clean (injector_policy_path env t) then Some (PolicyElsewhere policy)
      else None)"

definition injector_drift_of :: "'w status_env \<Rightarrow> target \<Rightarrow> 'w pw_sys \<Rightarrow> injector_drift option \<times> 'w pw_sys" where
  "injector_drift_of se t =
     (if \<not> ds_proxy_injection (tg_devsign t) then return_act None
      else bind_act (stat_path (app_local_injector_path t)) (\<lambda>r. case r of
        Inr _ \<Rightarrow> return_act (Some LocalInjectorThere)
      | Inl e \<Rightarrow> if e \<noteq> ENOENT then return_act (Some (LocalInjectorUnknown e))
          else bind_act (on_files (read_file_at (path_components (info_plist_path (tg_app_path t))))) (\<lambda>p. case p of
            Inl _ \<Rightarrow> return_act (Some PlistUnreadable)
          | Inr data \<Rightarrow> (case se_ls_environment se data of
              Inl _ \<Rightarrow> return_act (Some PlistUnparsable)
            | Inr ls \<Rightarrow> (case configured_injector_drift (se_base se) t ls of
                Some d \<Rightarrow> return_act (Some d)
              | None \<Rightarrow> bind_act (stat_path (injector_path (se_base se) t)) (\<lambda>i.
                  if isl i then return_act (Some InjectorGone)
                  else bind_act (stat_path (injector_policy_path (se_base se) t)) (\<lambda>q.
                    return_act (if isl q then Some PolicyGone else None))))))))"

text \<open>\<open>upstreamSigningLabel\<close>: the team in a designated requirement, quoted or bare.\<close>

definition upstream_signing_label :: "string \<Rightarrow> string" where
  "upstream_signing_label requirement =
     (let trimmed = trim_space requirement in
      if trimmed = [] then ''unknown''
      else case cut_at ''subject.OU] = '' trimmed of
        None \<Rightarrow> trimmed
      | Some (_, r) \<Rightarrow>
          let after = trim_space r in
          if after \<noteq> [] \<and> hd after = quote
          then (case cut quote (tl after) of
              Some (team, _) \<Rightarrow> if trim_space team \<noteq> [] then trim_space team else trimmed
            | None \<Rightarrow> trimmed)
          else (let bare = takeWhile (\<lambda>c. c \<notin> {CHR '' '', CHR 0x09, CHR '')''}) after in
            if trim_space bare \<noteq> [] then trim_space bare else trimmed))"

definition status_bundle_version :: "'w status_env \<Rightarrow> target \<Rightarrow> 'w pw_sys \<Rightarrow> string \<times> 'w pw_sys" where
  "status_bundle_version se t =
     bind_act (on_files (read_file_at (path_components (info_plist_path (tg_app_path t))))) (\<lambda>r. return_act (case r of
       Inl _ \<Rightarrow> [] | Inr data \<Rightarrow> (case se_bundle_version se data of None \<Rightarrow> [] | Some v \<Rightarrow> v)))"

definition patched_status :: "target \<Rightarrow> patched_state \<Rightarrow> bool \<Rightarrow> runtime_status list \<Rightarrow> drift list \<Rightarrow> app_status" where
  "patched_status t entry dev rs drifts = \<lparr>as_id = tg_id t,
     as_state = (if drifts = [] then AppPatched else AppDrifted), as_version = pt_version entry,
     as_notes = NotedIdentity (pt_identity entry) # (if dev then [NotedDevSigning] else []) @ map NotedDrift drifts,
     as_upstream = upstream_signing_label (pt_requirement entry), as_path = tg_app_path t, as_runtime = rs\<rparr>"

definition first_drift :: "runtime_status list \<Rightarrow> drift list" where
  "first_drift rs = (case find runtime_drifts rs of None \<Rightarrow> [] | Some r \<Rightarrow> [RuntimeDrift (ru_bundle r) (ru_path r)])"

definition version_drift :: "string \<Rightarrow> string \<Rightarrow> drift list" where
  "version_drift current patched = (if current \<noteq> [] \<and> current \<noteq> patched then [VersionDrift current patched] else [])"

definition status_of_patched :: "'w status_env \<Rightarrow> target \<Rightarrow> patched_state \<Rightarrow> ('w, app_status) pw_act" where
  "status_of_patched se t entry =
     bind_act (overlay_active t) (\<lambda>dev.
     bind_act (runtime_statuses se t (\<not> dev)) (\<lambda>rs.
     bind_act (if dev then injector_drift_of se t else return_act None) (\<lambda>injector.
     bind_act (if dev then trusted_ca_drift (se_base se) t else return_act []) (\<lambda>ca.
     bind_act (tls_failure se t) (\<lambda>host.
     bind_act (status_bundle_version se t) (\<lambda>current.
       let drifts = first_drift rs @ (case injector of None \<Rightarrow> [] | Some d \<Rightarrow> [InjectorDrift d]) @
             (if ca = [] then [] else [TrustDrift ca]) @ (if host = [] then [] else [ProviderDrift host]);
           versioned = drifts @ version_drift current (pt_version entry) in
       if dev then return_act (Inr (patched_status t entry dev rs versioned))
       else bind_act (stat_path (real_binary t)) (\<lambda>real. case real of
         Inl e \<Rightarrow> if e = ENOENT then return_act (Inr (patched_status t entry dev rs (drifts @ [RealBinaryMissing])))
                  else fail_act (OsFailed ''stat restored binary path'' e)
       | Inr _ \<Rightarrow> return_act (Inr (patched_status t entry dev rs versioned)))))))))"

definition build_target_status :: "'w status_env \<Rightarrow> multi_state \<Rightarrow> target \<Rightarrow> ('w, app_status) pw_act" where
  "build_target_status se ms t =
     (let clean = \<lparr>as_id = tg_id t, as_state = AppClean, as_version = ''-'', as_notes = [NotedUnpatched],
        as_upstream = [], as_path = tg_app_path t, as_runtime = []\<rparr> in
      bind_act (stat_path (tg_app_path t)) (\<lambda>a. case a of
        Inl e \<Rightarrow> if e = ENOENT then return_act (Inr (clean\<lparr>as_state := AppAbsent, as_notes := [NotedMissing]\<rparr>))
                 else fail_act (OsFailed ''stat app bundle'' e)
      | Inr _ \<Rightarrow> (case map_of ms (tg_id t) of
          None \<Rightarrow> bind_act (runtime_statuses se t False) (\<lambda>rs. return_act (Inr (clean\<lparr>as_runtime := rs\<rparr>)))
        | Some entry \<Rightarrow> status_of_patched se t entry)))"

text \<open>\<open>BuildTarget\<close> is the report of one target.\<close>

fun map_status :: "('a \<Rightarrow> ('w, 'b) pw_act) \<Rightarrow> 'a list \<Rightarrow> ('w, 'b list) pw_act" where
  "map_status f [] = return_act (Inr [])"
| "map_status f (x # xs) = rbind_act (f x) (\<lambda>y. rbind_act (map_status f xs) (\<lambda>ys. return_act (Inr (y # ys))))"

definition build_report :: "'w status_env \<Rightarrow> target list \<Rightarrow> ('w, app_status list) pw_act" where
  "build_report se ts =
     bind_act (on_files (load_unlocked (pe_codec (se_base se)) (state_path (se_base se)))) (\<lambda>l. case l of
       Inl _ \<Rightarrow> fail_act (Plain ''load state file'')
     | Inr ms \<Rightarrow> map_status (build_target_status se ms) ts)"

end
