(* ===== verification/Status_Props.thy ===== *)
theory Status_Props
  imports Status_Report Patch_Dry
begin

text \<open>
  What the status report says: the interception failure it names, and when it calls an app patched.
\<close>

section \<open>The times of a host\<close>

definition latest_time :: "int set \<Rightarrow> int \<Rightarrow> bool" where
  "latest_time A t \<longleftrightarrow> t \<in> A \<and> (\<forall>t'\<in>A. t' \<le> t)"

definition times_with :: "string \<Rightarrow> (lifecycle_entry \<times> int) list \<Rightarrow> string \<Rightarrow> int set" where
  "times_with msg es h = {t. \<exists>e. (e, t) \<in> set es \<and> le_message e = msg \<and> le_host e = h}"

text \<open>The last failure of a host, with no success after it.\<close>

definition uncleared :: "(lifecycle_entry \<times> int) list \<Rightarrow> string \<Rightarrow> int \<Rightarrow> bool" where
  "uncleared es h t \<longleftrightarrow> latest_time (times_with tls_failed es h) t \<and> (\<forall>t'\<in>times_with intercept_open es h. t' \<le> t)"

definition window_entries :: "'w status_env \<Rightarrow> string \<Rightarrow> string \<Rightarrow> (lifecycle_entry \<times> int) list" where
  "window_entries se data tid =
     List.map_filter (\<lambda>l. parse_lifecycle se (drop_cr l) tid (se_now se - tls_window)) (scan_lines data)"

definition keeps_latest :: "(string \<times> int) list \<Rightarrow> (string \<Rightarrow> int set) \<Rightarrow> bool" where
  "keeps_latest m A \<longleftrightarrow> go_map_ok m \<and> (\<forall>h. case map_of m h of None \<Rightarrow> A h = {} | Some t \<Rightarrow> latest_time (A h) t)"

lemma record_time_latest:
  assumes "keeps_latest m A" "0 < t"
  shows "keeps_latest (record_time h t m) (A(h := insert t (A h)))"
proof -
  have a: "case map_of m k of None \<Rightarrow> A k = {} | Some u \<Rightarrow> latest_time (A k) u" for k
    using assms(1) by (auto simp: keeps_latest_def)
  have "case map_of (record_time h t m) k of None \<Rightarrow> (A(h := insert t (A h))) k = {}
      | Some u \<Rightarrow> latest_time ((A(h := insert t (A h))) k) u" for k
    using a [of k] assms(2)
    by (cases "k = h") (auto simp: record_time_def time_of_def latest_time_def split: option.splits)
  moreover have "go_map_ok (record_time h t m)" using assms(1) by (simp add: keeps_latest_def record_time_def)
  ultimately show ?thesis by (simp add: keeps_latest_def)
qed

lemma times_with_snoc:
  "times_with msg (es @ [(e, t)]) = (if le_message e = msg
     then (times_with msg es)(le_host e := insert t (times_with msg es (le_host e))) else times_with msg es)"
  by (auto simp: times_with_def fun_eq_iff)

lemma messages_differ: "tls_failed \<noteq> intercept_open"
  by (simp add: tls_failed_def intercept_open_def)

lemma record_lifecycle_pair:
  "record_lifecycle (e, t) (f, s) =
     (if le_message e = tls_failed then (record_time (le_host e) t f, s)
      else if le_message e = intercept_open then (f, record_time (le_host e) t s) else (f, s))"
  by (simp add: record_lifecycle_def)

lemma window_times:
  assumes "\<forall>(e, t)\<in>set es. 0 < t"
  shows "keeps_latest (fst (fold record_lifecycle es ([], []))) (times_with tls_failed es) \<and>
    keeps_latest (snd (fold record_lifecycle es ([], []))) (times_with intercept_open es)"
  using assms
proof (induction es rule: rev_induct)
  case Nil
  then show ?case by (simp add: keeps_latest_def times_with_def go_map_ok_def)
next
  case (snoc x es)
  obtain e t where x: "x = (e, t)" by fastforce
  obtain f s where r: "fold record_lifecycle es ([], []) = (f, s)" by fastforce
  from snoc have "keeps_latest f (times_with tls_failed es)" "keeps_latest s (times_with intercept_open es)" "0 < t"
    by (auto simp: r x)
  then show ?case
    using messages_differ record_time_latest [of f _ t] record_time_latest [of s _ t]
    by (auto simp: r x times_with_snoc record_lifecycle_pair)
qed

section \<open>The failure that is named\<close>

lemma consider_failure_pair:
  "0 < t \<Longrightarrow> consider_failure succeeded (h, t) (latest, host) =
     (if time_of succeeded h \<le> t \<and> t > latest then (t, h) else (latest, host))"
  by (auto simp: consider_failure_def Let_def)

lemma latest_uncleared_scan:
  assumes "\<forall>(h, t)\<in>set failed. 0 < t"
  shows "let (latest, host) = fold (consider_failure succeeded) failed (0, []);
             open_ones = {(h, t). (h, t) \<in> set failed \<and> time_of succeeded h \<le> t} in
    (if open_ones = {} then latest = 0 \<and> host = []
     else (host, latest) \<in> open_ones \<and> (\<forall>(h, t)\<in>open_ones. t \<le> latest))"
  using assms
proof (induction failed rule: rev_induct)
  case (snoc x failed)
  obtain h t where x: "x = (h, t)" by fastforce
  obtain latest host where r: "fold (consider_failure succeeded) failed (0, []) = (latest, host)" by fastforce
  let ?o = "{(h, t). (h, t) \<in> set failed \<and> time_of succeeded h \<le> t}"
  have t: "0 < t" using snoc.prems x by simp
  have ih: "if ?o = {} then latest = 0 \<and> host = [] else (host, latest) \<in> ?o \<and> (\<forall>(h, t)\<in>?o. t \<le> latest)"
    using snoc.IH snoc.prems unfolding r by (auto simp: Let_def)
  have grow: "{(h, t). (h, t) \<in> set (failed @ [x]) \<and> time_of succeeded h \<le> t} =
      (if time_of succeeded h \<le> t then insert (h, t) ?o else ?o)" by (auto simp: x)
  have step: "fold (consider_failure succeeded) (failed @ [x]) (0, []) =
      (if time_of succeeded h \<le> t \<and> t > latest then (t, h) else (latest, host))"
    using t by (simp add: r x consider_failure_pair)
  show ?case unfolding grow step
    using ih t by (cases "?o = {}"; cases "time_of succeeded h \<le> t"; cases "t > latest")
      (auto split: if_splits, meson less_imp_le order_trans)
qed simp

lemma window_positive:
  "tls_window < se_now se \<Longrightarrow> (e, t) \<in> set (window_entries se data tid) \<Longrightarrow> 0 < t"
proof -
  assume w: "tls_window < se_now se" "(e, t) \<in> set (window_entries se data tid)"
  then obtain l where "parse_lifecycle se l tid (se_now se - tls_window) = Some (e, t)"
    unfolding window_entries_def List.map_filter_def by auto
  then have "se_now se - tls_window \<le> t" by (auto simp: parse_lifecycle_def split: option.splits if_splits)
  with w(1) show "0 < t" by simp
qed


text \<open>Two hosts failed; the first answered again afterwards.\<close>

definition demo_status_env :: "unit status_env" where
  "demo_status_env = \<lparr>se_base = demo_patch_env, se_ls_environment = (\<lambda>_. Inl []), se_bundle_version = (\<lambda>_. None),
     se_lifecycle = (\<lambda>l. if length l = 3 then Some \<lparr>le_time = [l ! 0],
       le_message = (if l ! 2 = CHR ''f'' then tls_failed else intercept_open), le_provider = ''p'', le_host = [l ! 1]\<rparr> else None),
     se_time = (\<lambda>s. Some (3600 * 10 ^ 9 + int (of_char (hd s)))), se_iterate = (\<lambda>m. m), se_now = 3600 * 10 ^ 9\<rparr>"

definition demo_lifecycle :: string where
  "demo_lifecycle = ''1af'' @ newline @ ''2bf'' @ newline @ ''3ao'' @ newline @ ''junk''"


section \<open>When an app is called patched\<close>

lemma runtime_states:
  assumes "runtime_statuses se t local s = (rs, s')" "find runtime_drifts rs = None"
  shows "list_all (\<lambda>r. ru_state r \<in> (if local then {RuntimePatched, RuntimePreserved}
    else {RuntimeLocal, RuntimeVendor, RuntimePreserved})) rs"
proof -
  have no: "\<not> runtime_drifts r" if "r \<in> set rs" for r using assms(2) that by (simp add: find_None_iff)
  obtain a where "rs = runtime_rows (trim_space (pe_team (se_base se))) t local a"
    using assms(1) by (auto simp: runtime_statuses_def return_act_def elim!: bind_act_cases)
  then have "r \<in> set rs \<Longrightarrow> ru_state r = RuntimeScanFailed \<or>
      (\<exists>e. ru_state r = runtime_state_of (trim_space (pe_team (se_base se))) (tg_preserved t) local e)" for r
    by (auto simp: runtime_rows_def split: sum.splits)
  moreover have "\<not> runtime_drifts r \<Longrightarrow> ru_state r = runtime_state_of team pres local e \<Longrightarrow>
      ru_state r \<in> (if local then {RuntimePatched, RuntimePreserved}
        else {RuntimeLocal, RuntimeVendor, RuntimePreserved})" for r team pres e
    by (auto simp: runtime_drifts_def runtime_state_of_def split: if_splits)
  moreover have "\<not> runtime_drifts r \<Longrightarrow> ru_state r \<noteq> RuntimeScanFailed" for r by (auto simp: runtime_drifts_def)
  ultimately show ?thesis using no unfolding list_all_iff by blast
qed

text \<open>
  An app is called patched only with a record of it, whose version it shows, and with every bundle
  that runs signed by the local team or preserved; an app with the development overlay may carry
  bundles of any readable signature. It is called drifted exactly when a drift is noted.
\<close>
theorem patched_status_means:
  assumes "build_target_status se ms t s = (Inr st, s')"
  shows "as_state st = AppPatched \<Longrightarrow> \<exists>entry. map_of ms (tg_id t) = Some entry \<and> as_version st = pt_version entry \<and>
      list_all (\<lambda>r. ru_state r \<in> (if NotedDevSigning \<in> set (as_notes st)
        then {RuntimeLocal, RuntimeVendor, RuntimePreserved} else {RuntimePatched, RuntimePreserved})) (as_runtime st)"
    and "as_state st = AppDrifted \<longleftrightarrow> (\<exists>d. NotedDrift d \<in> set (as_notes st))"
proof -
  have "((as_state st = AppAbsent \<or> as_state st = AppClean) \<and> set (as_notes st) \<subseteq> {NotedMissing, NotedUnpatched}) \<or>
    (\<exists>entry dev rs ds u u'. map_of ms (tg_id t) = Some entry \<and> st = patched_status t entry dev rs (first_drift rs @ ds) \<and>
      runtime_statuses se t (\<not> dev) u = (rs, u'))" (is "?other \<or> (\<exists>entry dev rs ds u u'. ?patched entry dev rs ds u u')")
    using assms
    by (auto simp: build_target_status_def status_of_patched_def Let_def return_act_def fail_act_def
        elim!: bind_act_cases split: sum.splits option.splits if_splits) metis+
  then consider ?other | entry dev rs ds u u' where "?patched entry dev rs ds u u'" by blast
  then have "(as_state st = AppPatched \<longrightarrow> (\<exists>entry. map_of ms (tg_id t) = Some entry \<and> as_version st = pt_version entry \<and>
      list_all (\<lambda>r. ru_state r \<in> (if NotedDevSigning \<in> set (as_notes st)
        then {RuntimeLocal, RuntimeVendor, RuntimePreserved} else {RuntimePatched, RuntimePreserved})) (as_runtime st))) \<and>
    (as_state st = AppDrifted \<longleftrightarrow> (\<exists>d. NotedDrift d \<in> set (as_notes st)))"
  proof cases
    case 1
    then show ?thesis by auto
  next
    case 2
    note r = runtime_states [of se t "\<not> dev" u rs u']
    have dev: "NotedDevSigning \<in> set (as_notes st) \<longleftrightarrow> dev" using 2 by (auto simp: patched_status_def)
    have "find runtime_drifts rs = None" if "as_state st = AppPatched"
      using that 2 by (auto simp: patched_status_def first_drift_def split: if_splits option.splits)
    with 2 r have "as_state st = AppPatched \<Longrightarrow> list_all (\<lambda>r. ru_state r \<in> (if dev
        then {RuntimeLocal, RuntimeVendor, RuntimePreserved} else {RuntimePatched, RuntimePreserved})) rs"
      by (cases dev) auto
    moreover have "as_state st = AppDrifted \<longleftrightarrow> (\<exists>d. NotedDrift d \<in> set (as_notes st))"
      using 2 by (cases "first_drift rs @ ds") (auto simp: patched_status_def)
    ultimately show ?thesis unfolding dev using 2 by (simp add: patched_status_def)
  qed
  then show "as_state st = AppPatched \<Longrightarrow> \<exists>entry. map_of ms (tg_id t) = Some entry \<and> as_version st = pt_version entry \<and>
      list_all (\<lambda>r. ru_state r \<in> (if NotedDevSigning \<in> set (as_notes st)
        then {RuntimeLocal, RuntimeVendor, RuntimePreserved} else {RuntimePatched, RuntimePreserved})) (as_runtime st)"
    "as_state st = AppDrifted \<longleftrightarrow> (\<exists>d. NotedDrift d \<in> set (as_notes st))"
    by blast+
qed

section \<open>Reading only\<close>

lemma keeps_combined:
  "files_kept (pe_combined env name args) \<Longrightarrow> keeps tree_of (exec_combined env name args)"
  unfolding exec_combined_def started_def by (intro keeps_intros) (rule files_keptD)

text \<open>
  A report changes no file, when \<open>codesign -dv\<close> and the look for a certificate do not.
\<close>
theorem report_reads_only:
  assumes "\<And>p. files_kept (pe_combined (se_base se) codesign [''-dv'', p])"
    and "\<And>cn k. files_kept (pe_combined (se_base se) ''/usr/bin/security'' [''find-certificate'', ''-c'', cn, ''-Z'', k])"
  shows "keeps tree_of (build_report se ts)"
proof -
  note cs = keeps_combined [OF assms(1)] and sec = keeps_combined [OF assms(2)]
  have scan: "keeps tree_of (scan_bundles (se_base se) True p)" for p
    unfolding scan_bundles_def scan_visit_def with_signature_def read_signature_def read_entry_def
      has_runtime_executable_def listing_def Let_def not_True_eq_False if_False
    by (intro keeps_intros keeps_collect keeps_some_file cs)
  have sorted: "keeps tree_of (sort_keychains (se_base se) ks st)" for ks st
    by (induction ks arbitrary: st)
      (auto simp: keychain_fingerprints_def trust_search_output_def intro!: keeps_intros sec split: prod.split)
  have trust: "keeps tree_of (trusted_ca_drift (se_base se) t)" for t
    unfolding trusted_ca_drift_def mitm_trust_status_def load_ca_certificate_def Let_def
    by (intro keeps_intros sorted)
  have inj: "keeps tree_of (injector_drift_of se t)" for t
    unfolding injector_drift_of_def by (intro keeps_intros)
  have "keeps tree_of (build_target_status se ms t)" for ms t
    unfolding build_target_status_def status_of_patched_def overlay_active_def runtime_statuses_def tls_failure_def
      status_bundle_version_def Let_def
    by (intro keeps_intros scan trust inj)
  then have "keeps tree_of (map_status (build_target_status se ms) ts)" for ms
    by (induction ts) (auto intro!: keeps_intros)
  then show ?thesis unfolding build_report_def by (intro keeps_intros)
qed

end
