(* ===== verification/Spec2Isabelle.thy ===== *)
theory Spec2Isabelle
  imports Broadcaster Executor_Lock Config_Props Updater_Monitor Registry_Props Batch_Ops
    App_Guard State_Store Hard_Reset_Props Upgrade_Props Entitlement_Props Injector_Config
    Patch_Dry Vendor_Binary Signing_Order Codex_Links Computer_Use_Demo
    Claude_Tee_Demo Codex_Shim Stdio_Tee Status_Props
begin

text \<open>
  desktop-via-clyde: a verification development for the Go program under \<open>src/\<close>.

  The program patches configured macOS application bundles and standalone CLIs, keeps them
  up to date from a background daemon, and can undo what it did. Its own logic is the
  loading of the configuration, the registries that connect configured capabilities to
  compiled code, the batch and daemon machinery that runs operations, and the protocols
  that replace bundles and files. Everything else is calls to external tools.

  The theories, in the order they build on one another:

  \<^item> \<open>Go_Prelude\<close>, \<open>Go_Strings\<close>, \<open>Go_Path\<close>: Go itself. Results (\<open>Inl\<close> an error), validation as
    a list of guards, Go maps as association lists whose order stands for the unspecified
    iteration order, transition systems and their reachable states; \<open>strings\<close>, \<open>strconv\<close>,
    \<open>time.Parse\<close>; \<open>filepath\<close>.
  \<^item> \<open>Spec_Types\<close>, \<open>Targets\<close>, \<open>Config_Paths\<close>: the schema (\<open>internal/spec\<close>,
    \<open>internal/extensions\<close>), the runtime targets (\<open>internal/targets\<close>) and the program's
    paths (\<open>internal/config/xdg.go\<close>, \<open>internal/paths\<close>).
  \<^item> \<open>Config_Load\<close>, \<open>Config_Apps\<close>: normalisation and validation (\<open>internal/config/load.go\<close>);
    \<open>Config_Facts\<close>, \<open>Config_Props\<close>: what an accepted configuration guarantees, and that the
    order of the maps does not matter.
  \<^item> \<open>Registry\<close>, \<open>Registry_Props\<close>: the registries and the composition at start-up
    (\<open>internal/catalog\<close>, \<open>internal/operations\<close>, \<open>internal/helperdispatch\<close>,
    \<open>internal/patch/hooks.go\<close>, \<open>internal/composition\<close>); every registry satisfies the one
    interface \<open>registry\<close>.
  \<^item> \<open>Cmd_Flags\<close>, \<open>Batch_Ops\<close>: flag values and their overrides (\<open>internal/cmdflags\<close>), batch
    selection and the bounded worker pool (\<open>internal/batchops\<close>).
  \<^item> \<open>Broadcaster\<close>, \<open>Executor\<close>: the event history of a run and its subscribers, and the
    exclusion of runs per target (\<open>internal/daemon/broadcaster.go\<close>, \<open>executor.go\<close>), both as
    transition systems in which one critical section of the code is one step.
    \<open>Executor_Lock\<close>: the executor implements a table with one lock per target.
  \<^item> \<open>Updater_Load\<close>, \<open>Updater_Tick\<close>, \<open>Updater_Monitor\<close>: the updater (\<open>internal/daemon/tick.go\<close>,
    \<open>updater_rpc.go\<close>): work hours and the load decision, the sweep and its timing, and the
    monitor that interrupts a CLI upgrade when the load rises.
  \<^item> \<open>OS_Model\<close>: a file tree, the calls on it with injected failures (a removal may fail half
    way), and the trail of every state, so that a property can speak about a crash at any
    point.
  \<^item> \<open>Bundle_Mutate\<close>, \<open>App_Guard\<close>, \<open>State_Store\<close>: the replacement of a bundle
    (\<open>internal/bundlemutate\<close>), closing an app (\<open>internal/appguard\<close>), the state file
    (\<open>internal/state\<close>).

  \<^item> \<open>Go_Effects\<close>: sequences of fallible steps on a state, and what a sequence does to a log
    that every step only extends.
  \<^item> \<open>Hard_Reset\<close>, \<open>Hard_Reset_Props\<close>: the plan and the execution of a hard reset
    (\<open>internal/hardreset\<close>, \<open>internal/bundleidentity\<close>): the SQL it sends to the privacy
    databases, the order of verification and removal, and what a successful reset leaves.
  \<^item> \<open>Tar_Extract\<close>, \<open>Go_Base64\<close>, \<open>Minisign\<close>: untrusted input of the updater
    (\<open>internal/upgrade/tauri.go\<close>, \<open>minisign.go\<close>): the extraction of a tar archive into a
    directory, over a file tree in which symbolic links are followed, and the parsing and
    checking of signature files.
  \<^item> \<open>Upgrade_Manifest\<close>, \<open>Upgrade_Flow\<close>, \<open>Upgrade_Props\<close>: the manifests of the four updater
    kinds and the requests built for them, the run of an upgrade and the read-only check
    (\<open>internal/upgrade/upgrade.go\<close>, \<open>tauri.go\<close>, \<open>internal/patch/info.go\<close>). The run acts on the
    file tree and on a log of its events, and \<open>log_shape\<close> is the interface through which the
    properties of that log are proved step by step.

  The patch flow, which turns a vendor's bundle into one that starts through the shim:

  \<^item> \<open>Go_Regexp\<close>, \<open>Entitlements\<close>: a backtracking matcher for the expressions the code uses,
    and the rewriting of entitlements as the code does it, on the text
    (\<open>internal/patch/entitlements.go\<close>). \<open>Entitlement_Dict\<close>, \<open>Entitlement_Props\<close>: the dictionaries
    the texts render, and that the rewriting implements an operation on dictionaries.
  \<^item> \<open>Injector_Policy\<close>, \<open>Injector_Config\<close>: the records written for the injected library
    (\<open>internal/devsign/devsign.go\<close>), read back as \<open>injector/clyde_inject.c\<close> reads them, and which
    launch policies of a configuration can be written.
  \<^item> \<open>Patch_World\<close>: the state of a patch (the file tree, the rest of the world, a log of what
    was started and announced), the calls on it, and the runner (\<open>internal/patch/runner.go\<close>).
    External programs and hooks change the world by functions of the environment \<open>pw_env\<close>;
    nothing is assumed of them but what a theorem says.
  \<^item> \<open>Dev_Sign\<close> (\<open>internal/signing\<close>, \<open>internal/devsign\<close>, \<open>internal/devpreflight\<close>), \<open>Bundle_Identity\<close>
    (\<open>internal/bundleidentity\<close>), \<open>Nested_Signing\<close> (\<open>nested_signing.go\<close>, \<open>macho.go\<close>), \<open>Keychain_Access\<close>
    (\<open>keychain.go\<close>): the parts a patch is made of.
  \<^item> \<open>Patch_Flow\<close>: the steps, the two signing strategies, the two halves of a patch and the
    operations (\<open>patch.go\<close>, \<open>patch_staged.go\<close>, \<open>signing_pipeline.go\<close>, \<open>devsign_verify.go\<close>).
  \<^item> \<open>Patch_Logic\<close>, \<open>Patch_Trace\<close>: rules for what a step adds to the log and what it keeps of the
    files; \<open>patch_events\<close> is the interface: a predicate on log entries that every primitive
    call satisfies, instantiated for real, dry and arbitrary runs.
  \<^item> \<open>Patch_Props\<close> (a record only after a verification), \<open>Patch_Dry\<close> (a dry run changes no file),
    \<open>Vendor_Binary\<close> (the vendor's executable is never lost, but for one case),
    \<open>Signing_Order\<close> (inner code is signed first).

  The other programs and reports:

  \<^item> \<open>Go_Runes\<close>, \<open>Codex_Version\<close>, \<open>Codex_Stamp\<close>, \<open>Codex_Python\<close>, \<open>Codex_Cache\<close>: the parts of the Codex CLI
    build (\<open>internal/codexcli\<close>): versions and build identities (\<open>releases.go\<close>, \<open>build_identity.go\<close>), the
    stamping of the workspace manifest, the choice of a Python and of the directories a cache keeps.
    \<open>Codex_Install\<close>, \<open>Codex_Install_Props\<close>: the installation under its lock (\<open>codexcli.go\<close>,
    \<open>install_build.go\<close>, \<open>install_lock.go\<close>): what a reported success is preceded by, and that a dry
    run always returns and changes nothing. \<open>Codex_Links\<close>: replacing the visible link.
  \<^item> \<open>Runner_Wait\<close>: the environment of a command, and waiting for one with heartbeats and
    cancellation (\<open>internal/patch/runner.go\<close>), a transition system.
  \<^item> \<open>Team_Tokens\<close>, \<open>Macho_Ranges\<close>, \<open>Computer_Use\<close>: the repair of the Computer Use helper and its
    authorization plug-in (\<open>internal/computeruseext\<close>): replacing the upstream team in binaries and
    property lists, telling identifiers in code from those in a signature, signing, verification
    and the hooks. \<open>Computer_Use_Props\<close> (a file is rewritten atomically), \<open>Computer_Use_Checks\<close> (what a
    successful verification says, bounds of the Mach-O reader, the plug-in is checked before sudo),
    \<open>Computer_Use_Demo\<close> (concrete runs).
  \<^item> \<open>Claude_Tee\<close>: putting the tee around a bundled CLI (\<open>internal/claudetee\<close>, \<open>internal/bundledclitee\<close>,
    \<open>internal/monolith\<close>). \<open>Claude_Tee_Props\<close>: the version that is chosen is a newest one; the CLI is
    never lost, by rules for steps that say what holds always, after success and after an error
    (\<open>step_ok\<close>). \<open>Claude_Tee_Demo\<close>: concrete runs.
  \<^item> \<open>Codex_Shim\<close>: the wrapper of the CLI in an app (\<open>internal/codexclishim\<close>), from the launch policy
    to the program it executes.
  \<^item> \<open>Stdio_Tee\<close>: the tee itself (\<open>internal/stdioteeshim\<close>), three pumps, the wait and the exit as a
    transition system: what passes through, and that the last output can be lost.
  \<^item> \<open>Status_Report\<close>, \<open>Status_Props\<close>: the status of an app and the health of its provider
    (\<open>internal/statusreport\<close>): which failure is named, when an app is called patched, and that a
    report changes no file.

  Conventions. A Go string is its bytes (\<open>string\<close>); an \<open>int\<close> that counts or compares is
  \<open>int\<close> or \<open>nat\<close>, as nothing in the modelled code comes near 64 bits; a duration is in
  milliseconds. A pointer that may be nil and an optional table of the configuration are
  options. Errors are values of a datatype per component that says which check failed and
  for which item; the English of the messages is not modelled. What the code calls
  outside its own sources (\<open>ps\<close>, \<open>kill\<close>, \<open>osascript\<close>, \<open>ditto\<close>, the clock, the load average, HTTP, JSON,
  ed25519) is an argument of the definitions that use it.

  Loops. Loops over data are structural recursion. The polling loop of \<open>waitForExit\<close> is
  \<open>partial_function (option)\<close>: that it ends is a theorem under the hypothesis that the
  clock advances. The resolution of a path follows at most 32 links, the limit of the
  kernel the program runs on (\<open>ELOOP\<close> past it). The worker pool, executor, broadcaster and
  load monitor are step relations, with invariants over all reachable states and, for the
  pool, a measure that some step always decreases.

  Not modelled, and why: output and logging (\<open>internal/clioutput\<close>, \<open>internal/response\<close>, the trace for tests)
  only show what is decided elsewhere; the gRPC transport and the launchd installation of the
  daemon and the commands of \<open>cmd/\<close> and \<open>internal/clispec\<close> connect the modelled parts to libraries (gRPC,
  launchd, cobra); the Apple developer portal is reached through a client library; the launch shim
  (Swift) and the injected library (C) are read only where they consume what the Go program
  writes. Codecs (TOML, JSON, property lists, XML) and cryptography are arguments. Permission bits,
  file times and file attributes are not part of the file tree. An upgrade takes the patch of the
  staged bundle as an argument.
\<close>

end
